(* ===== verification/Prelude.thy ===== *)
theory Prelude
  imports Complex_Main "HOL-Library.Multiset" "HOL-Library.Char_ord" "HOL-Library.List_Lexorder"
begin

text \<open>
  What every component shares: the result type of a fallible function, its sequencing, the
  loops over arrays, the part of the JavaScript string and array library that the code
  calls, and the collections of simplification rules.

  A \<open>DomainError\<close> of the source carries a code and a message. The code is what callers
  branch on and is kept; the message is diagnostic text and is not modelled. A function that
  may throw returns \<open>Inl\<close> of the error, a function that returns gives \<open>Inr\<close>.

  JavaScript strings are lists of code units; the model keeps the code units below 256,
  so \<open>string\<close> (a list of \<open>char\<close>) stands for them and its lexicographic order is the
  code-unit order of the relational operators.
\<close>

section \<open>Results\<close>

datatype domain_error = DomainError string

type_synonym 'a result = "domain_error + 'a"

definition fail :: "string \<Rightarrow> 'a result" where
  "fail c = Inl (DomainError c)"

definition and_then :: "'a result \<Rightarrow> ('a \<Rightarrow> 'b result) \<Rightarrow> 'b result" where
  "and_then r f = (case r of Inl e \<Rightarrow> Inl e | Inr x \<Rightarrow> f x)"

definition succeeds :: "'a result \<Rightarrow> bool" where
  "succeeds r = (case r of Inl _ \<Rightarrow> False | Inr _ \<Rightarrow> True)"

named_theorems result_simps \<open>evaluation of results\<close>

lemma fail_not_Inr [simp]: "fail c \<noteq> Inr x" "Inr x \<noteq> fail c"
  by (simp_all add: fail_def)

lemma fail_eq_iff [simp]: "fail c = fail d \<longleftrightarrow> c = d"
  by (simp add: fail_def)

lemma and_then_Inr [simp]: "and_then (Inr x) f = f x"
  by (simp add: and_then_def)

lemma and_then_Inl [simp]: "and_then (Inl e) f = Inl e"
  by (simp add: and_then_def)

lemma and_then_fail [simp]: "and_then (fail c) f = fail c"
  by (simp add: fail_def)

lemma and_then_eq_Inr [simp]:
  "and_then r f = Inr y \<longleftrightarrow> (\<exists>x. r = Inr x \<and> f x = Inr y)"
  by (cases r) simp_all

lemma and_then_eq_Inl:
  "and_then r f = Inl e \<longleftrightarrow> r = Inl e \<or> (\<exists>x. r = Inr x \<and> f x = Inl e)"
  by (cases r) simp_all

lemma and_then_cong [fundef_cong]:
  "r = r' \<Longrightarrow> (\<And>x. r' = Inr x \<Longrightarrow> f x = g x) \<Longrightarrow> and_then r f = and_then r' g"
  by (cases r') simp_all

lemma and_then_assoc: "and_then (and_then r f) g = and_then r (\<lambda>x. and_then (f x) g)"
  by (cases r) simp_all

lemma succeeds_iff: "succeeds r \<longleftrightarrow> (\<exists>x. r = Inr x)"
  by (cases r) (simp_all add: succeeds_def)

lemma succeeds_Inr [simp]: "succeeds (Inr x)"
  by (simp add: succeeds_def)

lemma not_succeeds_fail [simp]: "\<not> succeeds (fail c)"
  by (simp add: succeeds_def fail_def)

lemma if_fail_eq_Inr [simp]:
  "(if b then fail c else r) = Inr y \<longleftrightarrow> \<not> b \<and> r = Inr y"
  by simp

section \<open>Loops over arrays\<close>

text \<open>\<open>for (const x of xs) body(x)\<close> where the body may throw.\<close>

fun for_each :: "('a \<Rightarrow> unit result) \<Rightarrow> 'a list \<Rightarrow> unit result" where
  "for_each f [] = Inr ()"
| "for_each f (x # xs) = and_then (f x) (\<lambda>_. for_each f xs)"

text \<open>\<open>xs.map(f)\<close> where the callback may throw.\<close>

fun map_result :: "('a \<Rightarrow> 'b result) \<Rightarrow> 'a list \<Rightarrow> 'b list result" where
  "map_result f [] = Inr []"
| "map_result f (x # xs) =
     and_then (f x) (\<lambda>y. and_then (map_result f xs) (\<lambda>ys. Inr (y # ys)))"

text \<open>\<open>xs.filter(p)\<close> where the callback may throw.\<close>

fun filter_result :: "('a \<Rightarrow> bool result) \<Rightarrow> 'a list \<Rightarrow> 'a list result" where
  "filter_result p [] = Inr []"
| "filter_result p (x # xs) =
     and_then (p x) (\<lambda>b. and_then (filter_result p xs)
       (\<lambda>ys. Inr (if b then x # ys else ys)))"

lemma for_each_Inr [simp]:
  "for_each f xs = Inr u \<longleftrightarrow> (\<forall>x \<in> set xs. f x = Inr ())"
  by (induction xs) auto

lemma map_result_length: "map_result f xs = Inr ys \<Longrightarrow> length ys = length xs"
  by (induction xs arbitrary: ys) auto

lemma map_result_nth:
  "map_result f xs = Inr ys \<Longrightarrow> i < length xs \<Longrightarrow> f (xs ! i) = Inr (ys ! i)"
proof (induction xs arbitrary: ys i)
  case Nil
  then show ?case by simp
next
  case (Cons x xs)
  then show ?case by (cases i) auto
qed

lemma map_result_total: "(\<And>x. x \<in> set xs \<Longrightarrow> f x = Inr (g x)) \<Longrightarrow> map_result f xs = Inr (map g xs)"
  by (induction xs) auto

lemma filter_result_Inr:
  "filter_result p xs = Inr ys \<longleftrightarrow>
     (\<forall>x \<in> set xs. succeeds (p x)) \<and> ys = filter (\<lambda>x. p x = Inr True) xs"
proof (induction xs arbitrary: ys)
  case Nil
  then show ?case by auto
next
  case (Cons x xs)
  then show ?case by (cases "p x") (auto simp: succeeds_def)
qed

lemma find_SomeD: "find P xs = Some x \<Longrightarrow> x \<in> set xs \<and> P x"
  by (induction xs) (auto split: if_splits)

section \<open>Sets and maps with insertion order\<close>

text \<open>\<open>[...new Set(xs)]\<close>: the first occurrence of each element, in order.\<close>

fun js_set_from :: "'a list \<Rightarrow> 'a list \<Rightarrow> 'a list" where
  "js_set_from acc [] = rev acc"
| "js_set_from acc (x # xs) =
     js_set_from (if x \<in> set acc then acc else x # acc) xs"

definition js_set :: "'a list \<Rightarrow> 'a list" where
  "js_set xs = js_set_from [] xs"

lemma set_js_set_from: "set (js_set_from acc xs) = set acc \<union> set xs"
  by (induction xs arbitrary: acc) auto

lemma set_js_set [simp]: "set (js_set xs) = set xs"
  by (simp add: js_set_def set_js_set_from)

lemma distinct_js_set_from: "distinct acc \<Longrightarrow> distinct (js_set_from acc xs)"
  by (induction xs arbitrary: acc) auto

lemma distinct_js_set [simp]: "distinct (js_set xs)"
  by (simp add: js_set_def distinct_js_set_from)

lemma js_set_from_distinct:
  "distinct xs \<Longrightarrow> set xs \<inter> set acc = {} \<Longrightarrow> js_set_from acc xs = rev acc @ xs"
  by (induction xs arbitrary: acc) auto

lemma js_set_distinct [simp]: "distinct xs \<Longrightarrow> js_set xs = xs"
  by (simp add: js_set_def js_set_from_distinct)

lemma length_js_set: "length (js_set xs) = card (set xs)"
  by (metis distinct_card distinct_js_set set_js_set)

lemma length_js_set_eq [simp]: "length (js_set xs) = length xs \<longleftrightarrow> distinct xs"
  by (simp add: length_js_set) (metis card_distinct distinct_card)

lemma js_set_empty [simp]: "js_set [] = []"
  by (simp add: js_set_def)

text \<open>\<open>new Map(entries).get(k)\<close>: the last entry for the key wins.\<close>

definition js_map_get :: "('k \<times> 'v) list \<Rightarrow> 'k \<Rightarrow> 'v option" where
  "js_map_get es k = map_of (rev es) k"

lemma js_map_get_mem: "js_map_get es k = Some v \<Longrightarrow> (k, v) \<in> set es"
  by (metis js_map_get_def map_of_SomeD set_rev)

lemma js_map_get_None: "js_map_get es k = None \<longleftrightarrow> k \<notin> fst ` set es"
  by (simp add: js_map_get_def map_of_eq_None_iff)

lemma js_map_get_distinct:
  "distinct (map fst es) \<Longrightarrow> (k, v) \<in> set es \<Longrightarrow> js_map_get es k = Some v"
  by (simp add: js_map_get_def map_of_eq_Some_iff flip: rev_map)

text \<open>\<open>Map.set\<close> on a map as its list of entries, in insertion order.\<close>

fun map_put :: "'k \<Rightarrow> 'v \<Rightarrow> ('k \<times> 'v) list \<Rightarrow> ('k \<times> 'v) list" where
  "map_put k v [] = [(k, v)]"
| "map_put k v ((j, w) # es) = (if j = k then (k, v) # es else (j, w) # map_put k v es)"

lemma map_of_put [simp]: "map_of (map_put k v es) = (map_of es)(k \<mapsto> v)"
  by (induction k v es rule: map_put.induct) auto

lemma fst_map_put [simp]: "fst ` set (map_put k v es) = insert k (fst ` set es)"
  by (induction k v es rule: map_put.induct) auto

lemma distinct_map_put [simp]: "distinct (map fst (map_put k v es)) \<longleftrightarrow> distinct (map fst es)"
proof (induction k v es rule: map_put.induct)
  case (2 k v j w es)
  have "set (map fst (map_put k v es)) = insert k (set (map fst es))" by (simp flip: image_set)
  with 2 show ?case by auto
qed simp

lemma set_map_put:
  "distinct (map fst es) \<Longrightarrow> set (map_put k v es) = insert (k, v) {e \<in> set es. fst e \<noteq> k}"
proof (induction k v es rule: map_put.induct)
  case (2 k v j w es)
  then show ?case by (cases "j = k") (auto simp: image_iff)
qed simp

section \<open>Strings\<close>

text \<open>
  The white space and line terminators that \<open>String.prototype.trim\<close> removes, among the code
  units below 256: tab, line feed, vertical tab, form feed, carriage return, space and the
  no-break space.
\<close>

definition is_js_space :: "char \<Rightarrow> bool" where
  "is_js_space c \<longleftrightarrow> of_char c \<in> {9, 10, 11, 12, 13, 32, 160 :: nat}"

definition js_trim :: "string \<Rightarrow> string" where
  "js_trim s = rev (dropWhile is_js_space (rev (dropWhile is_js_space s)))"

lemma js_trim_empty_iff: "js_trim s = [] \<longleftrightarrow> list_all is_js_space s"
proof
  assume "js_trim s = []"
  then have "\<forall>c \<in> set (dropWhile is_js_space s). is_js_space c"
    by (simp add: js_trim_def)
  then show "list_all is_js_space s"
    by (metis dropWhile_eq_Nil_conv hd_dropWhile hd_in_set list_all_iff)
next
  assume "list_all is_js_space s"
  then have "dropWhile is_js_space s = []" by (simp only: dropWhile_eq_Nil_conv list_all_iff)
  then show "js_trim s = []"
    by (simp add: js_trim_def del: dropWhile_eq_Nil_conv)
qed

lemma js_trim_Nil [simp]: "js_trim [] = []"
  by (simp add: js_trim_def)

section \<open>Sorting\<close>

text \<open>
  \<open>xs.sort(compare)\<close> is stable; \<open>after x y\<close> stands for \<open>compare(x, y) > 0\<close>. For a
  consistent comparison the result is determined and is the one of a stable insertion sort.
\<close>

fun js_insort :: "('a \<Rightarrow> 'a \<Rightarrow> bool) \<Rightarrow> 'a \<Rightarrow> 'a list \<Rightarrow> 'a list" where
  "js_insort after x [] = [x]"
| "js_insort after x (y # ys) = (if after x y then y # js_insort after x ys else x # y # ys)"

definition js_sort :: "('a \<Rightarrow> 'a \<Rightarrow> bool) \<Rightarrow> 'a list \<Rightarrow> 'a list" where
  "js_sort after xs = foldr (js_insort after) xs []"

lemma js_sort_simps [simp]: "js_sort after [] = []" "js_sort after (x # xs) = js_insort after x (js_sort after xs)"
  by (simp_all add: js_sort_def)

lemma mset_js_insort [simp]: "mset (js_insort after x xs) = add_mset x (mset xs)"
  by (induction xs) auto

lemma mset_js_sort [simp]: "mset (js_sort after xs) = mset xs"
  by (induction xs) auto

lemma set_js_sort [simp]: "set (js_sort after xs) = set xs"
  by (metis mset_js_sort set_mset_mset)

lemma length_js_sort [simp]: "length (js_sort after xs) = length xs"
  by (metis mset_js_sort size_mset)

lemma distinct_map_js_sort [simp]: "distinct (map f (js_sort after xs)) = distinct (map f xs)"
  by (metis mset_js_sort mset_map mset_eq_imp_distinct_iff)

text \<open>A list already in order is left alone.\<close>

lemma js_sort_id: "sorted_wrt (\<lambda>x y. \<not> after x y) xs \<Longrightarrow> js_sort after xs = xs"
proof (induction xs)
  case (Cons x xs)
  then show ?case by (cases xs) auto
qed simp

text \<open>The result is in order when the comparison is a total preorder on the elements.\<close>

definition consistent_on :: "'a set \<Rightarrow> ('a \<Rightarrow> 'a \<Rightarrow> bool) \<Rightarrow> bool" where
  "consistent_on A after \<longleftrightarrow>
     (\<forall>y \<in> A. \<forall>z \<in> A. after y z \<longrightarrow> \<not> after z y)
     \<and> (\<forall>w \<in> A. \<forall>y \<in> A. \<forall>z \<in> A. \<not> after w y \<longrightarrow> \<not> after y z \<longrightarrow> \<not> after w z)"

lemma set_js_insort [simp]: "set (js_insort after x xs) = insert x (set xs)"
  by (induction xs) auto

lemma js_insort_sorted:
  assumes "consistent_on A after" and "x \<in> A"
  shows "set xs \<subseteq> A \<Longrightarrow> sorted_wrt (\<lambda>x y. \<not> after x y) xs \<Longrightarrow>
    sorted_wrt (\<lambda>x y. \<not> after x y) (js_insort after x xs)"
proof (induction xs)
  case (Cons y ys)
  have y: "y \<in> A" "set ys \<subseteq> A" using Cons.prems(1) by auto
  show ?case
  proof (cases "after x y")
    case True
    then have "\<not> after y x" using assms y unfolding consistent_on_def by blast
    with True Cons y show ?thesis by simp
  next
    case False
    have "\<not> after x z" if "z \<in> set ys" for z
      using assms y that False Cons.prems(2) unfolding consistent_on_def by (metis sorted_wrt.simps(2) subsetD)
    with False Cons.prems show ?thesis by simp
  qed
qed simp

lemma js_sort_sorted:
  "consistent_on A after \<Longrightarrow> set xs \<subseteq> A \<Longrightarrow> sorted_wrt (\<lambda>x y. \<not> after x y) (js_sort after xs)"
  by (induction xs) (simp_all add: js_insort_sorted)

section \<open>Optional entries\<close>

text \<open>\<open>...(v === undefined ? {} : { k: v })\<close> as entries.\<close>

definition opt_entry :: "'k \<Rightarrow> ('a \<Rightarrow> 'b) \<Rightarrow> 'a option \<Rightarrow> ('k \<times> 'b) list" where
  "opt_entry k f v = (case v of None \<Rightarrow> [] | Some x \<Rightarrow> [(k, f x)])"

lemma map_of_opt_entry [simp]: "map_of (opt_entry k f v) j = (if j = k then map_option f v else None)"
  by (auto simp: opt_entry_def split: option.splits)

lemma fst_opt_entry [simp]: "fst ` set (opt_entry k f v) = (if v = None then {} else {k})"
  by (auto simp: opt_entry_def split: option.splits)

lemma distinct_opt_entry [simp]: "distinct (map fst (opt_entry k f v))"
  by (auto simp: opt_entry_def split: option.splits)

lemma snd_opt_entry: "e \<in> set (opt_entry k f v) \<Longrightarrow> \<exists>x. v = Some x \<and> snd e = f x"
  by (auto simp: opt_entry_def split: option.splits)

end
