(* ===== verification/JsNumber.thy ===== *)
theory JsNumber
  imports Prelude "HOL-Library.Log_Nat"
begin

text \<open>
  JavaScript's \<open>number\<close>: IEEE 754 double precision with round to nearest, ties to even.
  A finite double is the rational it denotes; the two zeros are one value, since no
  operation modelled here tells them apart except a division by zero, which takes the sign
  of the dividend (as a division by positive zero does). The operations compute the exact
  rational result and round it once, as the standard requires.

  The lemmas show that rounding is exact on the integers up to two to the 53, is idempotent
  and monotone; every bound on a computed score rests on these three facts.
\<close>

section \<open>Values and rounding\<close>

datatype js_number = Num rat | PosInf | NegInf | NaN

text \<open>Round half to even, on exact rationals.\<close>

definition round_even :: "rat \<Rightarrow> int" where
  "round_even y =
     (let f = \<lfloor>y\<rfloor>; d = y - of_int f
      in if d < 1 / 2 then f
         else if d > 1 / 2 then f + 1
         else if even f then f else f + 1)"

text \<open>
  The order of magnitude in base \<open>b\<close>: \<open>b powi l \<le> x < b powi (l + 1)\<close> for positive \<open>x\<close>.
\<close>

definition rat_log :: "nat \<Rightarrow> rat \<Rightarrow> int" where
  "rat_log b x =
     (let (p, q) = quotient_of x;
          l = int (floorlog b (nat p)) - int (floorlog b (nat q))
      in if x < of_nat b powi l then l - 1 else l)"

text \<open>The exponent of the last place of a double next to \<open>x\<close>; denormals stop at -1074.\<close>

definition ulp_exp :: "rat \<Rightarrow> int" where
  "ulp_exp x = max (rat_log 2 \<bar>x\<bar> - 52) (- 1074)"

definition round_rat :: "rat \<Rightarrow> rat" where
  "round_rat x =
     (if x = 0 then 0
      else of_int (round_even (x / 2 powi ulp_exp x)) * 2 powi ulp_exp x)"

definition round_double :: "rat \<Rightarrow> js_number" where
  "round_double x =
     (let r = round_rat x
      in if r \<ge> 2 powi 1024 then PosInf else if r \<le> - (2 powi 1024) then NegInf else Num r)"

section \<open>Operations\<close>

fun js_add :: "js_number \<Rightarrow> js_number \<Rightarrow> js_number" where
  "js_add (Num x) (Num y) = round_double (x + y)"
| "js_add NaN _ = NaN"
| "js_add _ NaN = NaN"
| "js_add PosInf NegInf = NaN"
| "js_add NegInf PosInf = NaN"
| "js_add PosInf _ = PosInf"
| "js_add NegInf _ = NegInf"
| "js_add _ PosInf = PosInf"
| "js_add _ NegInf = NegInf"

fun js_neg :: "js_number \<Rightarrow> js_number" where
  "js_neg (Num x) = Num (- x)"
| "js_neg PosInf = NegInf"
| "js_neg NegInf = PosInf"
| "js_neg NaN = NaN"

definition js_sub :: "js_number \<Rightarrow> js_number \<Rightarrow> js_number" where
  "js_sub a b = js_add a (js_neg b)"

text \<open>The sign as -1, 0 or 1; not used on \<open>NaN\<close>.\<close>

fun js_sgn :: "js_number \<Rightarrow> rat" where
  "js_sgn (Num x) = sgn x"
| "js_sgn PosInf = 1"
| "js_sgn NegInf = - 1"
| "js_sgn NaN = 0"

definition js_signed_inf :: "rat \<Rightarrow> js_number" where
  "js_signed_inf s = (if s > 0 then PosInf else if s < 0 then NegInf else NaN)"

fun js_mul :: "js_number \<Rightarrow> js_number \<Rightarrow> js_number" where
  "js_mul NaN _ = NaN"
| "js_mul _ NaN = NaN"
| "js_mul (Num x) (Num y) = round_double (x * y)"
| "js_mul a b = js_signed_inf (js_sgn a * js_sgn b)"

fun js_div :: "js_number \<Rightarrow> js_number \<Rightarrow> js_number" where
  "js_div NaN _ = NaN"
| "js_div _ NaN = NaN"
| "js_div (Num x) (Num y) = (if y = 0 then js_signed_inf (sgn x) else round_double (x / y))"
| "js_div (Num _) _ = Num 0"
| "js_div a (Num y) = js_signed_inf (js_sgn a * (if y < 0 then - 1 else 1))"
| "js_div _ _ = NaN"

fun js_lt :: "js_number \<Rightarrow> js_number \<Rightarrow> bool" where
  "js_lt (Num x) (Num y) = (x < y)"
| "js_lt NaN _ = False"
| "js_lt _ NaN = False"
| "js_lt NegInf NegInf = False"
| "js_lt NegInf _ = True"
| "js_lt (Num _) PosInf = True"
| "js_lt _ _ = False"

text \<open>\<open>===\<close>, \<open><=\<close> and \<open>>=\<close>: all false when an operand is \<open>NaN\<close>.\<close>

definition js_eq :: "js_number \<Rightarrow> js_number \<Rightarrow> bool" where
  "js_eq a b \<longleftrightarrow> a = b \<and> a \<noteq> NaN"

definition js_le :: "js_number \<Rightarrow> js_number \<Rightarrow> bool" where
  "js_le a b \<longleftrightarrow> js_lt a b \<or> js_eq a b"

fun js_is_finite :: "js_number \<Rightarrow> bool" where
  "js_is_finite (Num _) = True"
| "js_is_finite _ = False"

fun js_is_integer :: "js_number \<Rightarrow> bool" where
  "js_is_integer (Num x) = (of_int \<lfloor>x\<rfloor> = x)"
| "js_is_integer _ = False"

text \<open>\<open>Math.max\<close>, \<open>Math.min\<close>, \<open>Math.abs\<close> and \<open>Math.round\<close> (ties towards plus infinity).\<close>

definition js_max :: "js_number \<Rightarrow> js_number \<Rightarrow> js_number" where
  "js_max a b = (if a = NaN \<or> b = NaN then NaN else if js_lt a b then b else a)"

definition js_min :: "js_number \<Rightarrow> js_number \<Rightarrow> js_number" where
  "js_min a b = (if a = NaN \<or> b = NaN then NaN else if js_lt b a then b else a)"

fun js_abs :: "js_number \<Rightarrow> js_number" where
  "js_abs (Num x) = Num \<bar>x\<bar>"
| "js_abs NaN = NaN"
| "js_abs _ = PosInf"

fun js_round :: "js_number \<Rightarrow> js_number" where
  "js_round (Num x) = Num (of_int \<lfloor>x + 1 / 2\<rfloor>)"
| "js_round a = a"

text \<open>The number that an integer of the program is.\<close>

abbreviation int_num :: "int \<Rightarrow> js_number" where
  "int_num n \<equiv> Num (of_int n)"

text \<open>A finite number is a double when rounding leaves it alone.\<close>

definition is_double :: "js_number \<Rightarrow> bool" where
  "is_double a = (case a of Num x \<Rightarrow> round_double x = Num x | _ \<Rightarrow> True)"

text \<open>A safe counter: an integer between zero and two to the 53 exclusive, where adding one is exact.\<close>

definition safe_count :: "js_number \<Rightarrow> bool" where
  "safe_count a \<longleftrightarrow> (\<exists>n. a = int_num n \<and> 0 \<le> n \<and> n < 2 ^ 53)"

section \<open>Rounding half to even\<close>

lemma round_even_of_int [simp]: "round_even (of_int n) = n"
  by (simp add: round_even_def)

lemma round_even_bounds: "of_int (round_even y) \<le> y + 1 / 2" "y - 1 / 2 \<le> of_int (round_even y)"
proof -
  have "of_int \<lfloor>y\<rfloor> \<le> y" "y < of_int \<lfloor>y\<rfloor> + 1" by linarith+
  then show "of_int (round_even y) \<le> y + 1 / 2" "y - 1 / 2 \<le> of_int (round_even y)"
    unfolding round_even_def Let_def by (simp_all split: if_split, linarith+)
qed

lemma round_even_mono: "x \<le> y \<Longrightarrow> round_even x \<le> round_even y"
proof -
  assume le: "x \<le> y"
  then have f: "\<lfloor>x\<rfloor> \<le> \<lfloor>y\<rfloor>" by (rule floor_mono)
  show ?thesis
  proof (cases "\<lfloor>x\<rfloor> = \<lfloor>y\<rfloor>")
    case True
    with le show ?thesis by (auto simp: round_even_def Let_def)
  next
    case False
    with f have "\<lfloor>x\<rfloor> + 1 \<le> \<lfloor>y\<rfloor>" by linarith
    then show ?thesis by (auto simp: round_even_def Let_def)
  qed
qed

lemma round_even_neg: "round_even (- y) = - round_even y"
proof (cases "of_int \<lfloor>y\<rfloor> = y")
  case True
  then have "y = of_int \<lfloor>y\<rfloor>" by (rule sym)
  then show ?thesis by (metis of_int_minus round_even_of_int)
next
  case False
  then have "of_int \<lfloor>y\<rfloor> < y" by (simp add: order_less_le)
  then have c: "\<lfloor>- y\<rfloor> = - \<lfloor>y\<rfloor> - 1" by linarith
  show ?thesis by (auto simp: round_even_def Let_def c)
qed

lemma round_even_le_int: "y \<le> of_int n \<Longrightarrow> round_even y \<le> n"
  using round_even_mono [of y "of_int n"] by simp

lemma round_even_ge_int: "of_int n \<le> y \<Longrightarrow> n \<le> round_even y"
  using round_even_mono [of "of_int n" y] by simp

section \<open>Powers and the order of magnitude\<close>

lemma powi_le_iff: "1 < B \<Longrightarrow> B powi a \<le> B powi b \<longleftrightarrow> a \<le> b" for B :: rat
  by (meson linorder_not_le power_int_increasing power_int_strict_increasing order_less_imp_le)

lemma powi_less_iff: "1 < B \<Longrightarrow> B powi a < B powi b \<longleftrightarrow> a < b" for B :: rat
  by (simp add: powi_le_iff less_le_not_le)

lemma powi_split: "0 < B \<Longrightarrow> B powi (a + b) = B powi a * B powi b" for B :: rat
  by (simp add: power_int_add)

lemma two_powi_pos [simp]: "(0::rat) < 2 powi k"
  by (simp add: zero_less_power_int)

lemma two_powi_le_iff [simp]: "(2::rat) powi a \<le> 2 powi b \<longleftrightarrow> a \<le> b"
  by (simp add: powi_le_iff)

lemma two_powi_less_iff [simp]: "(2::rat) powi a < 2 powi b \<longleftrightarrow> a < b"
  by (simp add: powi_less_iff)

lemma two_powi_split: "(2::rat) powi (a + b) = 2 powi a * 2 powi b"
  by (simp add: power_int_add)

lemma floorlog_powi:
  assumes "1 < b" and "0 < n"
  shows "of_nat b powi (int (floorlog b (nat n)) - 1) \<le> (of_int n :: rat)"
    and "(of_int n :: rat) < of_nat b powi int (floorlog b (nat n))"
proof -
  let ?l = "floorlog b (nat n)"
  have "0 < ?l" using assms by (simp add: floorlog_eq_zero_iff flip: neq0_conv)
  then have e: "int ?l - 1 = int (?l - 1)" by simp
  have f: "b ^ (?l - 1) \<le> nat n \<and> nat n < b ^ ?l"
    using assms by (intro floorlog_bounds) simp_all
  have c: "(of_nat (nat n) :: rat) = of_int n" using assms(2) by simp
  have "of_nat (b ^ (?l - 1)) \<le> (of_nat (nat n) :: rat)" "(of_nat (nat n) :: rat) < of_nat (b ^ ?l)"
    using f by (simp_all only: of_nat_le_iff of_nat_less_iff)
  then show "of_nat b powi (int ?l - 1) \<le> (of_int n :: rat)" "(of_int n :: rat) < of_nat b powi int ?l"
    unfolding c e by simp_all
qed

lemma rat_log_spec:
  assumes b: "1 < b" and x0: "0 < x"
  shows "of_nat b powi rat_log b x \<le> x" and "x < of_nat b powi (rat_log b x + 1)"
proof -
  obtain p q where pq: "quotient_of x = (p, q)" by (cases "quotient_of x")
  then have q: "0 < q" and x: "x = of_int p / of_int q"
    by (simp_all add: quotient_of_denom_pos quotient_of_div)
  with x0 have p: "0 < p" by (simp add: zero_less_divide_iff)
  have B: "(1::rat) < of_nat b" "(0::rat) < of_nat b" using b by simp_all
  define lp where "lp = floorlog b (nat p)"
  define lq where "lq = floorlog b (nat q)"
  note P = floorlog_powi [OF b p, folded lp_def] and Q = floorlog_powi [OF b q, folded lq_def]
  have pos: "(0::rat) < of_nat b powi k" for k using B by (simp add: zero_less_power_int)
  have hi: "x < of_nat b powi (int lp - int lq + 1)"
  proof -
    have "x * of_int q < of_nat b powi int lp" using P q by (simp add: x)
    also have "\<dots> = of_nat b powi (int lp - int lq + 1) * of_nat b powi (int lq - 1)"
      by (simp flip: powi_split [OF B(2)])
    also have "\<dots> \<le> of_nat b powi (int lp - int lq + 1) * of_int q"
      using Q pos by (intro mult_left_mono) (simp_all add: order_less_imp_le)
    finally show ?thesis using q by simp
  qed
  have lo: "of_nat b powi (int lp - int lq - 1) \<le> x"
  proof -
    have "(of_nat b :: rat) powi (int lp - int lq - 1) * of_int q
        \<le> of_nat b powi (int lp - int lq - 1) * of_nat b powi int lq"
      using Q pos by (intro mult_left_mono) (simp_all add: order_less_imp_le)
    also have "\<dots> = of_nat b powi (int lp - 1)"
      by (subst powi_split [OF B(2), symmetric]) (simp add: algebra_simps)
    also have "\<dots> \<le> x * of_int q" using P q by (simp add: x)
    finally show ?thesis using q by simp
  qed
  show "of_nat b powi rat_log b x \<le> x" and "x < of_nat b powi (rat_log b x + 1)"
    using hi lo by (auto simp: rat_log_def pq Let_def lp_def lq_def)
qed

lemmas rat_log2_spec = rat_log_spec [of 2, simplified]

lemma rat_log2_less: "0 < x \<Longrightarrow> x < 2 powi k \<Longrightarrow> rat_log 2 x < k"
  using rat_log2_spec(1) [of x] by (metis order_le_less_trans two_powi_less_iff)

lemma rat_log2_ge: "2 powi k \<le> x \<Longrightarrow> k \<le> rat_log 2 x"
  using rat_log2_spec(2) [of x]
  by (metis order_le_less_trans order_less_le_trans two_powi_less_iff two_powi_pos zle_add1_eq_le)

lemma rat_log2_mono: "0 < x \<Longrightarrow> x \<le> y \<Longrightarrow> rat_log 2 x \<le> rat_log 2 y"
  using rat_log2_spec(1) [of x] by (meson order_trans rat_log2_ge)

lemma ulp_exp_ge: "- 1074 \<le> ulp_exp x"
  by (simp add: ulp_exp_def)

lemma ulp_exp_bound:
  assumes "x \<noteq> 0"
  shows "\<bar>x\<bar> < 2 powi (ulp_exp x + 53)"
proof -
  have "\<bar>x\<bar> < 2 powi (rat_log 2 \<bar>x\<bar> + 1)" using assms by (intro rat_log2_spec) simp
  also have "\<dots> \<le> 2 powi (ulp_exp x + 53)" by (simp add: ulp_exp_def)
  finally show ?thesis .
qed

lemma ulp_exp_normal:
  assumes "x \<noteq> 0" and "- 1074 < ulp_exp x"
  shows "2 powi (ulp_exp x + 52) \<le> \<bar>x\<bar>"
proof -
  have "ulp_exp x + 52 = rat_log 2 \<bar>x\<bar>" using assms(2) by (auto simp: ulp_exp_def max_def split: if_splits)
  then show ?thesis using assms(1) rat_log2_spec(1) [of "\<bar>x\<bar>"] by simp
qed

lemma ulp_exp_neg [simp]: "ulp_exp (- x) = ulp_exp x"
  by (simp add: ulp_exp_def)

section \<open>Rounding to double precision\<close>

definition representable :: "rat \<Rightarrow> bool" where
  "representable r \<longleftrightarrow> (\<exists>m k. r = of_int m * 2 powi k \<and> \<bar>m\<bar> \<le> 2 ^ 53 \<and> - 1074 \<le> k)"

lemma representable_int: "\<bar>n\<bar> \<le> 2 ^ 53 \<Longrightarrow> representable (of_int n)"
  unfolding representable_def by (rule exI [of _ n], rule exI [of _ 0]) simp

lemma representable_half: "representable x \<Longrightarrow>
  \<exists>m k. x = of_int m * 2 powi k \<and> \<bar>m\<bar> < 2 ^ 53 \<and> - 1074 \<le> k"
proof -
  assume "representable x"
  then obtain m k where mk: "x = of_int m * 2 powi k" "\<bar>m\<bar> \<le> 2 ^ 53" "- 1074 \<le> k"
    by (auto simp: representable_def)
  show ?thesis
  proof (cases "\<bar>m\<bar> = 2 ^ 53")
    case False
    with mk show ?thesis by force
  next
    case True
    then have m: "m = 2 * (sgn m * 2 ^ 52)" by (auto simp: sgn_if abs_if split: if_splits)
    have "x = of_int (sgn m * 2 ^ 52) * 2 powi (k + 1)"
      by (subst mk(1), subst m) (simp add: two_powi_split)
    moreover have "\<bar>sgn m * 2 ^ 52\<bar> < 2 ^ 53" by (simp add: abs_mult sgn_if)
    ultimately show ?thesis
      using mk(3) by (intro exI [of _ "sgn m * 2 ^ 52"] exI [of _ "k + 1"]) simp
  qed
qed

lemma round_rat_exact:
  assumes "representable x"
  shows "round_rat x = x"
proof (cases "x = 0")
  case True
  then show ?thesis by (simp add: round_rat_def)
next
  case False
  obtain m k where mk: "x = of_int m * 2 powi k" "\<bar>m\<bar> < 2 ^ 53" "- 1074 \<le> k"
    using representable_half [OF assms] by blast
  have "of_int \<bar>m\<bar> < (of_int (2 ^ 53) :: rat)" using mk(2) by (simp only: of_int_less_iff)
  then have "\<bar>x\<bar> < 2 powi 53 * 2 powi k" by (simp add: mk(1) abs_mult)
  then have "\<bar>x\<bar> < 2 powi (k + 53)" by (simp add: two_powi_split mult.commute)
  then have "rat_log 2 \<bar>x\<bar> < k + 53" using False by (intro rat_log2_less) simp_all
  then have le: "ulp_exp x \<le> k" using mk(3) by (simp add: ulp_exp_def)
  have "x / 2 powi ulp_exp x = of_int m * 2 powi (k - ulp_exp x)"
    by (simp add: mk(1) power_int_diff)
  also have "\<dots> = of_int (m * 2 ^ nat (k - ulp_exp x))"
    using le by (simp add: power_int_nonneg_exp)
  finally have q: "x / 2 powi ulp_exp x = of_int (m * 2 ^ nat (k - ulp_exp x))" .
  have "of_int (round_even (x / 2 powi ulp_exp x)) = x / 2 powi ulp_exp x"
    by (simp only: q round_even_of_int)
  then show ?thesis by (simp add: round_rat_def)
qed

lemma ulp_quotient_bound: "\<bar>x / 2 powi ulp_exp x\<bar> \<le> of_int (2 ^ 53)"
proof (cases "x = 0")
  case False
  then have "\<bar>x\<bar> \<le> 2 powi 53 * 2 powi ulp_exp x"
    using ulp_exp_bound [of x] by (simp add: two_powi_split mult.commute)
  then show ?thesis by (simp add: abs_divide pos_divide_le_eq)
qed simp

lemma ulp_quotient_le: "x / 2 powi ulp_exp x \<le> of_int (2 ^ 53)"
  and ulp_quotient_ge: "of_int (- (2 ^ 53)) \<le> x / 2 powi ulp_exp x"
proof -
  have "\<bar>q\<bar> \<le> of_int b \<Longrightarrow> q \<le> of_int b \<and> of_int (- b) \<le> q" for q :: rat and b
    unfolding of_int_minus by linarith
  from this [OF ulp_quotient_bound]
  show "x / 2 powi ulp_exp x \<le> of_int (2 ^ 53)" "of_int (- (2 ^ 53)) \<le> x / 2 powi ulp_exp x"
    by blast+
qed

lemma representable_round_rat [simp]: "representable (round_rat x)"
proof -
  let ?q = "x / 2 powi ulp_exp x"
  have "round_even ?q \<le> 2 ^ 53" "- (2 ^ 53) \<le> round_even ?q"
    by (rule round_even_le_int [OF ulp_quotient_le], rule round_even_ge_int [OF ulp_quotient_ge])
  then have "\<bar>round_even ?q\<bar> \<le> 2 ^ 53" by linarith
  then have "representable (of_int (round_even ?q) * 2 powi ulp_exp x)"
    unfolding representable_def using ulp_exp_ge by blast
  moreover have "representable 0" using representable_int [of 0] by simp
  ultimately show ?thesis by (simp add: round_rat_def)
qed

lemma round_rat_idem [simp]: "round_rat (round_rat x) = round_rat x"
  by (rule round_rat_exact) simp

lemma round_rat_neg: "round_rat (- x) = - round_rat x"
  using round_even_neg [of "x / 2 powi ulp_exp x"] by (simp add: round_rat_def)

lemma round_rat_zero [simp]: "round_rat 0 = 0"
  by (simp add: round_rat_def)

lemma round_rat_nonneg: "0 \<le> x \<Longrightarrow> 0 \<le> round_rat x"
  using round_even_ge_int [of 0 "x / 2 powi ulp_exp x"]
  by (simp add: round_rat_def)

lemma round_rat_upper: "x \<noteq> 0 \<Longrightarrow> round_rat x \<le> 2 powi (ulp_exp x + 53)"
proof -
  have "round_even (x / 2 powi ulp_exp x) \<le> 2 ^ 53" by (rule round_even_le_int [OF ulp_quotient_le])
  then have "of_int (round_even (x / 2 powi ulp_exp x)) \<le> (of_int (2 ^ 53) :: rat)"
    by (simp only: of_int_le_iff)
  moreover assume "x \<noteq> 0"
  ultimately show ?thesis by (simp add: round_rat_def two_powi_split mult.commute)
qed

lemma round_rat_mono_pos:
  assumes "0 < x" and "x \<le> y"
  shows "round_rat x \<le> round_rat y"
proof (cases "ulp_exp x = ulp_exp y")
  case True
  have "round_even (x / 2 powi ulp_exp y) \<le> round_even (y / 2 powi ulp_exp y)"
    using assms by (intro round_even_mono) (simp add: divide_right_mono)
  with True assms show ?thesis by (simp add: round_rat_def)
next
  case False
  have "ulp_exp x \<le> ulp_exp y"
    using rat_log2_mono [of x y] assms by (simp add: ulp_exp_def)
  with False have lt: "ulp_exp x < ulp_exp y" by simp
  then have n: "2 powi (ulp_exp y + 52) \<le> y"
    using ulp_exp_normal [of y] assms ulp_exp_ge [of x] by simp
  have "round_rat x \<le> 2 powi (ulp_exp x + 53)" using assms by (intro round_rat_upper) simp
  also have "\<dots> \<le> 2 powi (ulp_exp y + 52)" using lt by simp
  also have "\<dots> \<le> round_rat y"
  proof -
    have "of_int (2 ^ 52) \<le> y / 2 powi ulp_exp y"
      using n by (simp add: pos_le_divide_eq two_powi_split mult.commute)
    then have "2 ^ 52 \<le> round_even (y / 2 powi ulp_exp y)" by (rule round_even_ge_int)
    then have "of_int (2 ^ 52) \<le> (of_int (round_even (y / 2 powi ulp_exp y)) :: rat)"
      by (simp only: of_int_le_iff)
    then show ?thesis using assms by (simp add: round_rat_def two_powi_split mult.commute)
  qed
  finally show ?thesis .
qed

lemma round_rat_nonpos: "x \<le> 0 \<Longrightarrow> round_rat x \<le> 0"
  using round_rat_nonneg [of "- x"] by (simp add: round_rat_neg)

lemma round_rat_mono: "x \<le> y \<Longrightarrow> round_rat x \<le> round_rat y"
proof -
  assume le: "x \<le> y"
  consider "0 < x" | "x \<le> 0" "0 \<le> y" | "y < 0" using le by linarith
  then show ?thesis
  proof cases
    case 1
    then show ?thesis using le by (rule round_rat_mono_pos)
  next
    case 2
    then show ?thesis using round_rat_nonneg round_rat_nonpos by (meson order_trans)
  next
    case 3
    then have "round_rat (- y) \<le> round_rat (- x)" using le by (intro round_rat_mono_pos) simp_all
    then show ?thesis by (simp add: round_rat_neg)
  qed
qed

lemma round_rat_le: "representable b \<Longrightarrow> x \<le> b \<Longrightarrow> round_rat x \<le> b"
  using round_rat_mono [of x b] by (simp add: round_rat_exact)

lemma round_rat_ge: "representable b \<Longrightarrow> b \<le> x \<Longrightarrow> b \<le> round_rat x"
  using round_rat_mono [of b x] by (simp add: round_rat_exact)

lemma round_rat_int [simp]: "\<bar>n\<bar> \<le> 2 ^ 53 \<Longrightarrow> round_rat (of_int n) = of_int n"
  by (simp add: round_rat_exact representable_int)

lemma round_double_int: "\<bar>n\<bar> \<le> 2 ^ 53 \<Longrightarrow> round_double (of_int n) = int_num n"
proof -
  assume n: "\<bar>n\<bar> \<le> 2 ^ 53"
  then have "of_int \<bar>n\<bar> \<le> (of_int (2 ^ 53) :: rat)" by (simp only: of_int_le_iff)
  also have "\<dots> < 2 powi 1024" by simp
  finally have "\<bar>of_int n\<bar> < (2 powi 1024 :: rat)" by simp
  with n show ?thesis by (auto simp: round_double_def Let_def abs_less_iff)
qed

lemma round_double_numeral [simp]:
  "round_double 0 = Num 0" "round_double 1 = Num 1" "round_double (- 1) = Num (- 1)"
  "numeral k \<le> (2 ^ 53 :: int) \<Longrightarrow> round_double (numeral k) = Num (numeral k)"
  "numeral k \<le> (2 ^ 53 :: int) \<Longrightarrow> round_double (- numeral k) = Num (- numeral k)"
  using round_double_int [of 0] round_double_int [of 1] round_double_int [of "- 1"]
    round_double_int [of "numeral k"] round_double_int [of "- numeral k"]
  by simp_all

section \<open>Operations on counters\<close>

lemma js_add_int: "\<bar>a + b\<bar> \<le> 2 ^ 53 \<Longrightarrow> js_add (int_num a) (int_num b) = int_num (a + b)"
  using round_double_int [of "a + b"] by simp

lemma js_add_int_one: "\<bar>a + 1\<bar> \<le> 2 ^ 53 \<Longrightarrow> js_add (int_num a) (Num 1) = int_num (a + 1)"
  using js_add_int [of a 1] by simp

lemma js_lt_int [simp]: "js_lt (int_num a) (int_num b) \<longleftrightarrow> a < b"
  by simp

lemma js_eq_Num [simp]: "js_eq (Num x) (Num y) \<longleftrightarrow> x = y"
  by (simp add: js_eq_def)

lemma js_le_Num [simp]: "js_le (Num x) (Num y) \<longleftrightarrow> x \<le> y"
  by (auto simp: js_le_def)

lemma js_eq_NaN [simp]: "\<not> js_eq NaN a" "\<not> js_eq a NaN"
  by (auto simp: js_eq_def)

lemma js_lt_NaN [simp]: "\<not> js_lt a NaN"
  by (cases a) auto

lemma js_le_NaN [simp]: "\<not> js_le NaN a" "\<not> js_le a NaN"
  by (auto simp: js_le_def)

lemma js_eq_imp_eq: "js_eq a b \<Longrightarrow> a = b"
  by (simp add: js_eq_def)

lemma js_is_integer_iff: "js_is_integer a \<longleftrightarrow> (\<exists>n. a = int_num n)"
proof (cases a)
  case (Num x)
  then show ?thesis by (metis floor_of_int js_is_integer.simps(1) js_number.inject)
qed auto

lemma js_is_integer_int [simp]: "js_is_integer (int_num n)"
  by simp

lemma js_le_antisym: "js_le a b \<Longrightarrow> js_le b a \<Longrightarrow> a = b"
  by (cases a; cases b) (auto simp: js_le_def js_eq_def)

lemma js_le_trans: "js_le a b \<Longrightarrow> js_le b c \<Longrightarrow> js_le a c"
  by (cases a; cases b; cases c) (auto simp: js_le_def js_eq_def)

lemma js_le_lt_trans: "js_le a b \<Longrightarrow> js_lt b c \<Longrightarrow> js_lt a c"
  by (cases a; cases b; cases c) (auto simp: js_le_def js_eq_def)

lemma js_lt_le_trans: "js_lt a b \<Longrightarrow> js_le b c \<Longrightarrow> js_lt a c"
  by (cases a; cases b; cases c) (auto simp: js_le_def js_eq_def)

lemma js_lt_irrefl [simp]: "\<not> js_lt a a"
  by (cases a) auto

lemma js_lt_imp_le: "js_lt a b \<Longrightarrow> js_le a b"
  by (simp add: js_le_def)

lemma js_not_lt: "a \<noteq> NaN \<Longrightarrow> b \<noteq> NaN \<Longrightarrow> \<not> js_lt a b \<longleftrightarrow> js_le b a"
  by (cases a; cases b) (auto simp: js_le_def js_eq_def)

lemma js_le_refl: "a \<noteq> NaN \<Longrightarrow> js_le a a"
  by (simp add: js_le_def js_eq_def)

lemma safe_count_int [simp]: "safe_count (int_num n) \<longleftrightarrow> 0 \<le> n \<and> n < 2 ^ 53"
  by (auto simp: safe_count_def)

lemma safe_countE:
  assumes "safe_count v"
  obtains n where "v = int_num n" and "0 \<le> n" and "n < 2 ^ 53"
  using assms by (auto simp: safe_count_def)

lemma safe_count_inc: "safe_count v \<Longrightarrow> js_lt v (js_add v (Num 1))"
  by (auto elim!: safe_countE simp: js_add_int_one simp del: js_add.simps of_int_1)

lemma safe_count_inc_neq: "safe_count v \<Longrightarrow> js_add v (Num 1) \<noteq> v"
  using safe_count_inc js_lt_irrefl by metis

lemma safe_count_notNaN: "safe_count v \<Longrightarrow> v \<noteq> NaN"
  by (auto simp: safe_count_def)

lemma safe_count_js_eq: "safe_count v \<Longrightarrow> js_eq v w \<longleftrightarrow> v = w"
  by (auto simp: safe_count_def js_eq_def)

section \<open>Bounds and monotonicity of the operations\<close>

lemma round_double_cases:
  "round_double x = PosInf \<and> 2 powi 1024 \<le> round_rat x
   \<or> round_double x = NegInf \<and> round_rat x \<le> - (2 powi 1024)
   \<or> round_double x = Num (round_rat x)"
  by (simp add: round_double_def Let_def)

lemma round_double_not_NaN [simp]: "round_double x \<noteq> NaN"
  using round_double_cases [of x] by auto

lemma round_double_mono: "x \<le> y \<Longrightarrow> js_le (round_double x) (round_double y)"
proof -
  assume "x \<le> y"
  then have "round_rat x \<le> round_rat y" by (rule round_rat_mono)
  moreover have "(0::rat) < 2 powi 1024" by (rule two_powi_pos)
  ultimately show ?thesis
    by (auto simp: round_double_def Let_def js_le_def js_eq_def)
qed

lemma round_double_le_int: "x \<le> of_int n \<Longrightarrow> \<bar>n\<bar> \<le> 2 ^ 53 \<Longrightarrow> js_le (round_double x) (int_num n)"
  using round_double_mono [of x "of_int n"] by (simp add: round_double_int)

lemma round_double_ge_int: "of_int n \<le> x \<Longrightarrow> \<bar>n\<bar> \<le> 2 ^ 53 \<Longrightarrow> js_le (int_num n) (round_double x)"
  using round_double_mono [of "of_int n" x] by (simp add: round_double_int)

lemma is_double_round_double [simp]: "is_double (round_double x)"
  by (auto simp: is_double_def round_double_def Let_def)

lemma is_double_int [simp]: "\<bar>n\<bar> \<le> 2 ^ 53 \<Longrightarrow> is_double (int_num n)"
  by (simp add: is_double_def round_double_int)

section \<open>Upper bounds that NaN does not break\<close>

lemma round_double_exact: "representable x \<Longrightarrow> \<bar>x\<bar> \<le> 2 ^ 53 \<Longrightarrow> round_double x = Num x"
proof -
  assume r: "representable x" and x: "\<bar>x\<bar> \<le> 2 ^ 53"
  have "(2::rat) ^ 53 < 2 powi 1024" by simp
  with x have "x < 2 powi 1024" "- (2 powi 1024) < x" by linarith+
  then show ?thesis using r by (simp add: round_double_def round_rat_exact Let_def)
qed

definition at_most :: "js_number \<Rightarrow> rat \<Rightarrow> bool" where
  "at_most a p \<longleftrightarrow> a = NaN \<or> js_le a (Num p)"

lemma at_most_cases:
  assumes "at_most a p"
  obtains "a = NaN" | "a = NegInf" | x where "a = Num x" "x \<le> p"
  using assms by (cases a) (auto simp: at_most_def js_le_def js_eq_def)

lemma at_most_simps [simp]: "at_most (Num x) p \<longleftrightarrow> x \<le> p" "at_most NaN p" "at_most NegInf p"
  by (auto simp: at_most_def js_le_def)

lemma at_most_mono: "at_most a p \<Longrightarrow> p \<le> q \<Longrightarrow> at_most a q"
  by (erule at_most_cases) auto

lemma at_most_round: "x \<le> p \<Longrightarrow> representable p \<Longrightarrow> \<bar>p\<bar> \<le> 2 ^ 53 \<Longrightarrow> at_most (round_double x) p"
  using round_double_mono [of x p] by (simp add: round_double_exact at_most_def)

lemma at_most_add:
  assumes "at_most a p" and "at_most b q" and "p + q \<le> r" and "representable r" and "\<bar>r\<bar> \<le> 2 ^ 53"
  shows "at_most (js_add a b) r"
  using assms(1)
proof (cases rule: at_most_cases)
  case (3 x)
  from assms(2) show ?thesis
  proof (cases rule: at_most_cases)
    case y: (3 y)
    have "at_most (round_double (x + y)) r" by (rule at_most_round) (use 3 y assms in linarith)+
    with 3 y show ?thesis by simp
  qed (use 3 in simp_all)
next
  case 2
  with assms(2) show ?thesis by (cases b) (auto simp: at_most_def js_le_def js_eq_def)
qed simp

lemma at_most_mul:
  assumes "at_most a p" and "0 < k" and "p * k \<le> r" and "representable r" and "\<bar>r\<bar> \<le> 2 ^ 53"
  shows "at_most (js_mul a (Num k)) r"
  using assms(1)
proof (cases rule: at_most_cases)
  case (3 x)
  have "x * k \<le> r" using 3 assms(2,3) by (meson mult_right_mono order.trans order_less_imp_le)
  then have "at_most (round_double (x * k)) r" by (rule at_most_round [OF _ assms(4,5)])
  with 3 show ?thesis by simp
qed (use assms(2) in \<open>simp_all add: js_signed_inf_def\<close>)

lemma at_most_div:
  assumes "at_most a p" and "0 < k" and "p / k \<le> r" and "representable r" and "\<bar>r\<bar> \<le> 2 ^ 53"
  shows "at_most (js_div a (Num k)) r"
  using assms(1)
proof (cases rule: at_most_cases)
  case (3 x)
  have "x / k \<le> r" using 3 assms(2,3) by (meson divide_right_mono order.trans order_less_imp_le)
  then have "at_most (round_double (x / k)) r" by (rule at_most_round [OF _ assms(4,5)])
  with 3 assms(2) show ?thesis by simp
qed (use assms(2) in \<open>simp_all add: js_signed_inf_def\<close>)

lemma representableI: "x = of_int m * 2 powi k \<Longrightarrow> \<bar>m\<bar> \<le> 2 ^ 53 \<Longrightarrow> - 1074 \<le> k \<Longrightarrow> representable x"
  unfolding representable_def by blast

end
