(* ===== verification/Timestamps.thy ===== *)
theory Timestamps
  imports Prelude "HOL-Library.Monad_Syntax"
begin

text \<open>
  \<open>toEpoch\<close> of \<open>packages/core/src/v2/shared.ts\<close>: the pattern of an ISO 8601 timestamp with
  an offset, the calendar checks, and \<open>Date.parse\<close> on the strings the pattern accepts, which
  is proleptic Gregorian arithmetic in milliseconds since 1970. Fractions of a second are cut
  after three digits. Other forms that \<open>Date.parse\<close> may accept never matter here: a string
  that the pattern refuses is refused by \<open>toEpoch\<close>.
\<close>

section \<open>The pattern\<close>

record iso_fields =
  iso_year :: string
  iso_month :: string
  iso_day :: string
  iso_hour :: string
  iso_minute :: string
  iso_second :: "string option"
  iso_fraction :: "string option"
  iso_offset :: string

definition is_digit :: "char \<Rightarrow> bool" where
  "is_digit c \<longleftrightarrow> 48 \<le> (of_char c :: nat) \<and> (of_char c :: nat) \<le> 57"

definition digit_value :: "char \<Rightarrow> int" where
  "digit_value c = int (of_char c) - 48"

text \<open>\<open>Number(s)\<close> of a string of decimal digits.\<close>

definition digits_value :: "string \<Rightarrow> int" where
  "digits_value s = foldl (\<lambda>n c. 10 * n + digit_value c) 0 s"

definition take_digits :: "nat \<Rightarrow> string \<Rightarrow> (string \<times> string) option" where
  "take_digits n s =
     (if n \<le> length s \<and> list_all is_digit (take n s) then Some (take n s, drop n s) else None)"

fun take_char :: "char \<Rightarrow> string \<Rightarrow> string option" where
  "take_char c [] = None"
| "take_char c (x # s) = (if x = c then Some s else None)"

text \<open>The optional group of the fraction and of the seconds, each followed by the rest.\<close>

definition take_fraction :: "string \<Rightarrow> string option \<times> string" where
  "take_fraction s =
     (case take_char (CHR ''.'') s of
        None \<Rightarrow> (None, s)
      | Some t \<Rightarrow>
          (let ds = takeWhile is_digit t
           in if ds = [] then (None, s) else (Some ds, drop (length ds) t)))"

definition take_seconds :: "string \<Rightarrow> string option \<times> string option \<times> string" where
  "take_seconds s =
     (case do { t \<leftarrow> take_char (CHR '':'') s; take_digits 2 t } of
        None \<Rightarrow> (None, None, s)
      | Some (sec, t) \<Rightarrow> (let (fr, u) = take_fraction t in (Some sec, fr, u)))"

definition take_offset :: "string \<Rightarrow> string option" where
  "take_offset s =
     (case s of
        [] \<Rightarrow> None
      | c # t \<Rightarrow>
          if c = CHR ''Z'' then (if t = [] then Some s else None)
          else if c = CHR ''+'' \<or> c = CHR ''-'' then
            do { (h, u) \<leftarrow> take_digits 2 t; u \<leftarrow> take_char (CHR '':'') u; (m, u) \<leftarrow> take_digits 2 u;
                 if u = [] then Some s else None }
          else None)"

definition iso_match :: "string \<Rightarrow> iso_fields option" where
  "iso_match s =
     do { (y, s) \<leftarrow> take_digits 4 s; s \<leftarrow> take_char (CHR ''-'') s;
          (mo, s) \<leftarrow> take_digits 2 s; s \<leftarrow> take_char (CHR ''-'') s;
          (d, s) \<leftarrow> take_digits 2 s; s \<leftarrow> take_char (CHR ''T'') s;
          (h, s) \<leftarrow> take_digits 2 s; s \<leftarrow> take_char (CHR '':'') s;
          (mi, s) \<leftarrow> take_digits 2 s;
          let (sec, fr, s) = take_seconds s;
          off \<leftarrow> take_offset s;
          Some \<lparr>iso_year = y, iso_month = mo, iso_day = d, iso_hour = h, iso_minute = mi,
                iso_second = sec, iso_fraction = fr, iso_offset = off\<rparr> }"

section \<open>Calendar arithmetic\<close>

definition leapYear :: "int \<Rightarrow> bool" where
  "leapYear y \<longleftrightarrow> y mod 4 = 0 \<and> (y mod 100 \<noteq> 0 \<or> y mod 400 = 0)"

definition maximumDay :: "int \<Rightarrow> int \<Rightarrow> int" where
  "maximumDay y m =
     (if m = 2 then (if leapYear y then 29 else 28)
      else if m \<in> {4, 6, 9, 11} then 30 else 31)"

text \<open>Days in the years from 0 to \<open>y - 1\<close>, and in the months of \<open>y\<close> before \<open>m\<close>.\<close>

definition days_before_year :: "int \<Rightarrow> int" where
  "days_before_year y = 365 * y + (y + 3) div 4 - (y + 99) div 100 + (y + 399) div 400"

fun days_before_month_nat :: "int \<Rightarrow> nat \<Rightarrow> int" where
  "days_before_month_nat y 0 = 0"
| "days_before_month_nat y (Suc m) = days_before_month_nat y m + maximumDay y (int m)"

definition days_before_month :: "int \<Rightarrow> int \<Rightarrow> int" where
  "days_before_month y m = days_before_month_nat y (nat m) - maximumDay y 0"

definition epoch_day :: "int \<Rightarrow> int \<Rightarrow> int \<Rightarrow> int" where
  "epoch_day y m d = days_before_year y + days_before_month y m + (d - 1) - 719528"

definition fraction_millis :: "string option \<Rightarrow> int" where
  "fraction_millis f =
     (case f of None \<Rightarrow> 0 | Some ds \<Rightarrow> digits_value (take 3 (ds @ ''00'')))"

definition second_value :: "iso_fields \<Rightarrow> int" where
  "second_value f = (case iso_second f of None \<Rightarrow> 0 | Some s \<Rightarrow> digits_value s)"

text \<open>\<open>offset.slice(1, 3)\<close> and \<open>offset.slice(4, 6)\<close>, or zero for \<open>Z\<close>.\<close>

definition offset_hour :: "iso_fields \<Rightarrow> int" where
  "offset_hour f =
     (if iso_offset f = ''Z'' then 0 else digits_value (take 2 (drop 1 (iso_offset f))))"

definition offset_minute :: "iso_fields \<Rightarrow> int" where
  "offset_minute f =
     (if iso_offset f = ''Z'' then 0 else digits_value (take 2 (drop 4 (iso_offset f))))"

definition offset_sign :: "iso_fields \<Rightarrow> int" where
  "offset_sign f = (if take 1 (iso_offset f) = ''-'' then - 1 else 1)"

definition fields_valid :: "iso_fields \<Rightarrow> bool" where
  "fields_valid f =
     (let year = digits_value (iso_year f); month = digits_value (iso_month f);
          day = digits_value (iso_day f)
      in \<not> (month < 1 \<or> month > 12 \<or> day < 1 \<or> day > maximumDay year month
        \<or> digits_value (iso_hour f) > 23 \<or> digits_value (iso_minute f) > 59
        \<or> second_value f > 59 \<or> offset_hour f > 23 \<or> offset_minute f > 59))"

definition utc_millis :: "int \<Rightarrow> int \<Rightarrow> int \<Rightarrow> int \<Rightarrow> int \<Rightarrow> int \<Rightarrow> int \<Rightarrow> int" where
  "utc_millis y mo d h mi s ms =
     (((epoch_day y mo d * 24 + h) * 60 + mi) * 60 + s) * 1000 + ms"

text \<open>\<open>Date.parse\<close> on the strings of the pattern: \<open>None\<close> is \<open>NaN\<close>.\<close>

definition date_parse_iso :: "string \<Rightarrow> int option" where
  "date_parse_iso s =
     (case iso_match s of
        None \<Rightarrow> None
      | Some f \<Rightarrow>
          if fields_valid f
          then Some (utc_millis (digits_value (iso_year f)) (digits_value (iso_month f))
                 (digits_value (iso_day f)) (digits_value (iso_hour f))
                 (digits_value (iso_minute f)) (second_value f) (fraction_millis (iso_fraction f))
               - offset_sign f * (offset_hour f * 60 + offset_minute f) * 60000)
          else None)"

definition toEpoch :: "string \<Rightarrow> int result" where
  "toEpoch v =
     (case iso_match v of
        None \<Rightarrow> fail ''INVALID_TIMESTAMP''
      | Some f \<Rightarrow>
          if \<not> fields_valid f then fail ''INVALID_TIMESTAMP''
          else (case date_parse_iso v of
                  None \<Rightarrow> fail ''INVALID_TIMESTAMP''
                | Some epoch \<Rightarrow> Inr epoch))"

lemma toEpoch_unix: "toEpoch ''1970-01-01T00:00Z'' = Inr 0"
  by code_simp

lemma toEpoch_example: "toEpoch ''2023-06-01T08:30:15.2509+08:00'' = Inr 1685579415250"
  by code_simp

section \<open>Digits\<close>

lemma digit_value_bounds: "is_digit c \<Longrightarrow> 0 \<le> digit_value c \<and> digit_value c \<le> 9"
  by (simp add: is_digit_def digit_value_def)

lemma digits_value_from:
  "list_all is_digit ds \<Longrightarrow> 0 \<le> n \<Longrightarrow>
   0 \<le> foldl (\<lambda>n c. 10 * n + digit_value c) n ds
   \<and> foldl (\<lambda>n c. 10 * n + digit_value c) n ds < (n + 1) * 10 ^ length ds"
proof (induction ds arbitrary: n)
  case Nil
  then show ?case by simp
next
  case (Cons c ds)
  let ?n = "10 * n + digit_value c"
  have b: "0 \<le> ?n" "?n + 1 \<le> 10 * (n + 1)"
    using Cons.prems digit_value_bounds [of c] by simp_all
  then have "(?n + 1) * 10 ^ length ds \<le> (n + 1) * 10 ^ length (c # ds)"
    using mult_right_mono [OF b(2), of "10 ^ length ds"] by (simp add: mult.assoc mult.commute)
  moreover have "0 \<le> foldl (\<lambda>n c. 10 * n + digit_value c) ?n ds
      \<and> foldl (\<lambda>n c. 10 * n + digit_value c) ?n ds < (?n + 1) * 10 ^ length ds"
    using Cons.prems b by (intro Cons.IH) simp_all
  ultimately show ?case by (auto simp del: power_Suc)
qed

lemma digits_value_bounds:
  "list_all is_digit ds \<Longrightarrow> 0 \<le> digits_value ds"
  "list_all is_digit ds \<Longrightarrow> digits_value ds < 10 ^ length ds"
  using digits_value_from [of ds 0] by (simp_all add: digits_value_def)

lemma take_digits_Some:
  "take_digits n s = Some (ds, t) \<longleftrightarrow> s = ds @ t \<and> length ds = n \<and> list_all is_digit ds"
  by (auto simp: take_digits_def)

lemma take_char_Some: "take_char c s = Some t \<longleftrightarrow> s = c # t"
  by (cases s) auto

lemma take_fraction_digits: "take_fraction s = (Some ds, t) \<Longrightarrow> list_all is_digit ds \<and> ds \<noteq> []"
  by (auto simp: take_fraction_def Let_def list_all_iff split: option.splits if_splits
      dest: set_takeWhileD)

lemma take_seconds_digits:
  "take_seconds s = (sec, fr, t) \<Longrightarrow>
   (\<forall>ds. sec = Some ds \<longrightarrow> list_all is_digit ds \<and> length ds = 2)
   \<and> (\<forall>ds. fr = Some ds \<longrightarrow> list_all is_digit ds \<and> ds \<noteq> [])"
  by (auto simp: take_seconds_def take_digits_Some Option.bind_eq_Some_conv
      split: option.splits prod.splits dest: take_fraction_digits)

definition fields_wf :: "iso_fields \<Rightarrow> bool" where
  "fields_wf f \<longleftrightarrow> list_all is_digit (iso_year f) \<and> length (iso_year f) = 4
     \<and> list_all is_digit (iso_month f) \<and> list_all is_digit (iso_day f)
     \<and> list_all is_digit (iso_hour f) \<and> list_all is_digit (iso_minute f)
     \<and> (\<forall>ds. iso_second f = Some ds \<longrightarrow> list_all is_digit ds \<and> length ds = 2)
     \<and> (\<forall>ds. iso_fraction f = Some ds \<longrightarrow> list_all is_digit ds \<and> ds \<noteq> [])"

lemma iso_match_wf: "iso_match s = Some f \<Longrightarrow> fields_wf f"
  by (auto simp: iso_match_def fields_wf_def take_digits_Some Let_def
      split: bind_splits prod.splits dest: take_seconds_digits)

lemma fraction_millis_bounds:
  assumes "\<forall>ds. f = Some ds \<longrightarrow> list_all is_digit ds \<and> ds \<noteq> []"
  shows "0 \<le> fraction_millis f" and "fraction_millis f < 1000"
proof -
  have "0 \<le> fraction_millis f \<and> fraction_millis f < 1000"
  proof (cases f)
    case None
    then show ?thesis by (simp add: fraction_millis_def)
  next
    case (Some ds)
    with assms have d: "list_all is_digit ds" "ds \<noteq> []" by auto
    let ?t = "take 3 (ds @ ''00'')"
    have a: "list_all is_digit ?t"
      using d by (auto simp: list_all_iff is_digit_def dest!: in_set_takeD)
    have l: "length ?t = 3" using d(2) by (cases ds) auto
    show ?thesis
      using digits_value_bounds [OF a] unfolding l fraction_millis_def Some
      by (simp del: take_append)
  qed
  then show "0 \<le> fraction_millis f" and "fraction_millis f < 1000" by auto
qed

section \<open>The calendar is ordered as its fields\<close>

definition year_length :: "int \<Rightarrow> int" where
  "year_length y = (if leapYear y then 366 else 365)"

lemma ceiling_div_step:
  assumes "0 < (k::int)" and "j = k - 1"
  shows "(y + k) div k = (y + j) div k + (if y mod k = 0 then 1 else 0)"
proof -
  have "(y + (k - 1)) div k = (y mod k + (k - 1)) div k + y div k"
    using assms by (subst mult_div_mod_eq [of k y, symmetric]) (simp only: add.assoc div_mult_self4)
  moreover have "(y mod k + (k - 1)) div k = (if y mod k = 0 then 0 else 1)"
  proof (cases "y mod k = 0")
    case True
    with assms show ?thesis by (simp add: div_pos_pos_trivial)
  next
    case False
    have r: "0 \<le> y mod k" "y mod k < k" using assms by simp_all
    have "(y mod k + (k - 1)) div k = ((y mod k - 1) + k) div k" by (simp add: algebra_simps)
    also have "\<dots> = (y mod k - 1) div k + 1" using assms by simp
    also have "(y mod k - 1) div k = 0" using r False by (intro div_pos_pos_trivial) linarith+
    finally show ?thesis using False by simp
  qed
  ultimately have "(y + k) div k = (y + (k - 1)) div k + (if y mod k = 0 then 1 else 0)"
    using assms(1) by simp
  then show ?thesis by (simp only: assms(2))
qed

lemma days_before_year_step: "days_before_year (y + 1) = days_before_year y + year_length y"
proof -
  have m: "y mod 400 = 0 \<Longrightarrow> y mod 100 = 0" "y mod 100 = 0 \<Longrightarrow> y mod 4 = 0"
    using dvd_trans [of 100 400 y] dvd_trans [of 4 100 y] by (simp_all add: mod_eq_0_iff_dvd)
  have e: "y + 1 + 3 = y + 4" "y + 1 + 99 = y + 100" "y + 1 + 399 = y + 400" by simp_all
  define a b c where "a = (y + 3) div 4" and "b = (y + 99) div 100" and "c = (y + 399) div 400"
  have "(3::int) = 4 - 1" "(99::int) = 100 - 1" "(399::int) = 400 - 1" by simp_all
  note E = this [THEN ceiling_div_step [OF zero_less_numeral], of y, folded a_def b_def c_def]
  have "365 * (y + 1) + (a + (if p then 1 else 0)) - (b + (if q then 1 else 0))
      + (c + (if r then 1 else 0))
      = 365 * y + a - b + c + (if p \<and> (q \<longrightarrow> r) then 366 else 365)"
    if "r \<Longrightarrow> q" and "q \<Longrightarrow> p" for p q r
    using that by (cases p; cases q; cases r) simp_all
  from this [OF m]
  show ?thesis
    unfolding days_before_year_def year_length_def leapYear_def e E a_def [symmetric]
      b_def [symmetric] c_def [symmetric] imp_conv_disj .
qed

lemma days_before_year_mono: "y \<le> y' \<Longrightarrow> days_before_year y \<le> days_before_year y'"
proof (induction y' rule: int_ge_induct)
  case base
  then show ?case by simp
next
  case (step i)
  then show ?case by (simp add: days_before_year_step year_length_def)
qed

lemma months_cases:
  assumes "1 \<le> m" and "m \<le> (12::int)"
  shows "m \<in> {1, 2, 3, 4, 5, 6, 7, 8, 9, 10, 11, 12}"
proof -
  have "m = 1 \<or> m = 2 \<or> m = 3 \<or> m = 4 \<or> m = 5 \<or> m = 6 \<or> m = 7 \<or> m = 8
    \<or> m = 9 \<or> m = 10 \<or> m = 11 \<or> m = 12"
    using assms by presburger
  then show ?thesis by simp
qed

lemma days_before_month_table:
  "days_before_month y 1 = 0" "days_before_month y 2 = 31"
  "days_before_month y 3 = 31 + maximumDay y 2" "days_before_month y 4 = 62 + maximumDay y 2"
  "days_before_month y 5 = 92 + maximumDay y 2" "days_before_month y 6 = 123 + maximumDay y 2"
  "days_before_month y 7 = 153 + maximumDay y 2" "days_before_month y 8 = 184 + maximumDay y 2"
  "days_before_month y 9 = 215 + maximumDay y 2" "days_before_month y 10 = 245 + maximumDay y 2"
  "days_before_month y 11 = 276 + maximumDay y 2" "days_before_month y 12 = 306 + maximumDay y 2"
  by (simp_all add: days_before_month_def eval_nat_numeral maximumDay_def)

lemma month_end:
  assumes "1 \<le> m" and "m \<le> 12"
  shows "days_before_month y m + maximumDay y m \<le> year_length y"
  using months_cases [OF assms]
  by (auto simp: days_before_month_table year_length_def maximumDay_def)

lemma days_before_month_step:
  "0 \<le> m \<Longrightarrow> days_before_month y (m + 1) = days_before_month y m + maximumDay y m"
  by (simp add: days_before_month_def nat_add_distrib)

lemma maximumDay_ge: "28 \<le> maximumDay y m"
  by (simp add: maximumDay_def)

lemma days_before_month_mono:
  assumes "m \<le> m'" and "0 \<le> m"
  shows "days_before_month y m \<le> days_before_month y m'"
  using assms
proof (induction m' rule: int_ge_induct)
  case base
  then show ?case by simp
next
  case (step i)
  with maximumDay_ge [of y i] show ?case by (simp add: days_before_month_step)
qed

lemma month_step:
  assumes "0 \<le> m" and "m < m'"
  shows "days_before_month y m + maximumDay y m \<le> days_before_month y m'"
  using days_before_month_mono [of "m + 1" m' y] assms by (simp add: days_before_month_step)

definition valid_date :: "int \<Rightarrow> int \<Rightarrow> int \<Rightarrow> bool" where
  "valid_date y m d \<longleftrightarrow> 1 \<le> m \<and> m \<le> 12 \<and> 1 \<le> d \<and> d \<le> maximumDay y m"

lemma epoch_day_less:
  assumes v: "valid_date y m d" "valid_date y' m' d'" and less: "[y, m, d] < [y', m', d']"
  shows "epoch_day y m d < epoch_day y' m' d'"
proof -
  have b: "days_before_month y m + d \<le> year_length y"
    using v(1) month_end [of m y] by (simp add: valid_date_def)
  have n: "0 \<le> days_before_month y' m'"
    using v(2) days_before_month_mono [of 1 m' y'] by (simp add: valid_date_def days_before_month_table)
  consider "y < y'" | "y = y'" "m < m'" | "y = y'" "m = m'" "d < d'"
    using less by auto
  then show ?thesis
  proof cases
    case 1
    then have "days_before_year (y + 1) \<le> days_before_year y'" by (intro days_before_year_mono) simp
    with b n v(2) show ?thesis by (simp add: epoch_day_def days_before_year_step valid_date_def)
  next
    case 2
    then have "days_before_month y m + maximumDay y m \<le> days_before_month y m'"
      using v(1) by (intro month_step) (simp_all add: valid_date_def)
    with 2 v show ?thesis by (simp add: epoch_day_def valid_date_def)
  next
    case 3
    then show ?thesis by (simp add: epoch_day_def)
  qed
qed

definition valid_time :: "int \<Rightarrow> int \<Rightarrow> int \<Rightarrow> int \<Rightarrow> bool" where
  "valid_time h mi s ms \<longleftrightarrow> 0 \<le> h \<and> h \<le> 23 \<and> 0 \<le> mi \<and> mi \<le> 59
     \<and> 0 \<le> s \<and> s \<le> 59 \<and> 0 \<le> ms \<and> ms \<le> 999"

lemma utc_millis_less:
  assumes d: "valid_date y mo d" "valid_date y' mo' d'"
    and t: "valid_time h mi s ms" "valid_time h' mi' s' ms'"
    and less: "[y, mo, d, h, mi, s, ms] < [y', mo', d', h', mi', s', ms']"
  shows "utc_millis y mo d h mi s ms < utc_millis y' mo' d' h' mi' s' ms'"
proof -
  have "[y, mo, d] < [y', mo', d']
      \<or> [y, mo, d] = [y', mo', d'] \<and> [h, mi, s, ms] < [h', mi', s', ms']"
    using less by auto
  then show ?thesis
  proof
    assume "[y, mo, d] < [y', mo', d']"
    then have "epoch_day y mo d + 1 \<le> epoch_day y' mo' d'"
      using epoch_day_less [OF d] by simp
    with t show ?thesis by (simp add: utc_millis_def valid_time_def)
  next
    assume "[y, mo, d] = [y', mo', d'] \<and> [h, mi, s, ms] < [h', mi', s', ms']"
    with t show ?thesis by (auto simp: utc_millis_def valid_time_def)
  qed
qed

text \<open>The fields of a timestamp as numbers, most significant first.\<close>

definition calendar_key :: "iso_fields \<Rightarrow> int list" where
  "calendar_key f =
     [digits_value (iso_year f), digits_value (iso_month f), digits_value (iso_day f),
      digits_value (iso_hour f), digits_value (iso_minute f), second_value f,
      fraction_millis (iso_fraction f)]"

definition offset_millis :: "iso_fields \<Rightarrow> int" where
  "offset_millis f = offset_sign f * (offset_hour f * 60 + offset_minute f) * 60000"

definition key_millis :: "int list \<Rightarrow> int" where
  "key_millis k = utc_millis (k ! 0) (k ! 1) (k ! 2) (k ! 3) (k ! 4) (k ! 5) (k ! 6)"

lemma fields_valid_parts:
  assumes "fields_wf f" and "fields_valid f"
  shows "valid_date (digits_value (iso_year f)) (digits_value (iso_month f)) (digits_value (iso_day f))"
    and "valid_time (digits_value (iso_hour f)) (digits_value (iso_minute f)) (second_value f)
           (fraction_millis (iso_fraction f))"
proof -
  show "valid_date (digits_value (iso_year f)) (digits_value (iso_month f)) (digits_value (iso_day f))"
    using assms(2) by (simp add: fields_valid_def Let_def valid_date_def)
  have "0 \<le> second_value f"
    using assms(1) by (auto simp: fields_wf_def second_value_def digits_value_bounds split: option.splits)
  moreover have "0 \<le> fraction_millis (iso_fraction f)" "fraction_millis (iso_fraction f) < 1000"
    using assms(1) by (auto simp: fields_wf_def intro!: fraction_millis_bounds)
  ultimately show "valid_time (digits_value (iso_hour f)) (digits_value (iso_minute f))
      (second_value f) (fraction_millis (iso_fraction f))"
    using assms by (simp add: fields_valid_def fields_wf_def Let_def valid_time_def digits_value_bounds)
qed

lemma toEpoch_Inr_iff:
  "toEpoch v = Inr e \<longleftrightarrow>
     (\<exists>f. iso_match v = Some f \<and> fields_valid f \<and> e = key_millis (calendar_key f) - offset_millis f)"
  by (auto simp: toEpoch_def date_parse_iso_def key_millis_def calendar_key_def offset_millis_def
      eval_nat_numeral split: option.splits if_splits)

lemma toEpoch_cases: "(\<exists>e. toEpoch v = Inr e) \<or> toEpoch v = fail ''INVALID_TIMESTAMP''"
  by (auto simp: toEpoch_def date_parse_iso_def split: option.splits)

lemma key_millis_less:
  assumes "fields_wf f" "fields_valid f" "fields_wf g" "fields_valid g"
    and "calendar_key f < calendar_key g"
  shows "key_millis (calendar_key f) < key_millis (calendar_key g)"
  using utc_millis_less [OF fields_valid_parts(1) [OF assms(1,2)] fields_valid_parts(1) [OF assms(3,4)]
      fields_valid_parts(2) [OF assms(1,2)] fields_valid_parts(2) [OF assms(3,4)]] assms(5)
  by (simp add: key_millis_def calendar_key_def eval_nat_numeral)

text \<open>
  Two accepted timestamps written with the same offset compare as instants
  exactly as their calendar fields compare, most significant field first: every lease, release
  and expiry decision that compares epochs therefore compares calendar times.
\<close>

theorem epoch_order_is_calendar_order:
  assumes "iso_match s = Some f" and "iso_match t = Some g"
    and "toEpoch s = Inr e" and "toEpoch t = Inr e'"
    and "iso_offset f = iso_offset g"
  shows "e < e' \<longleftrightarrow> calendar_key f < calendar_key g"
proof -
  have wf: "fields_wf f" "fields_wf g" using assms(1,2) by (simp_all add: iso_match_wf)
  have o: "offset_millis f = offset_millis g"
    using assms(5) by (simp add: offset_millis_def offset_sign_def offset_hour_def offset_minute_def)
  have v: "fields_valid f" "fields_valid g"
    and e: "e = key_millis (calendar_key f) - offset_millis f"
      "e' = key_millis (calendar_key g) - offset_millis g"
    using assms by (auto simp: toEpoch_Inr_iff)
  show ?thesis
    using key_millis_less [OF wf(1) v(1) wf(2) v(2)] key_millis_less [OF wf(2) v(2) wf(1) v(1)] e o
    by (cases "calendar_key f" "calendar_key g" rule: linorder_cases) auto
qed

lemma epoch_order_is_calendar_order_witness:
  "\<exists>f g. iso_match ''2024-02-29T23:59Z'' = Some f \<and> iso_match ''2024-03-01T00:00Z'' = Some g
     \<and> calendar_key f < calendar_key g"
proof -
  obtain f g where fg: "iso_match ''2024-02-29T23:59Z'' = Some f" "iso_match ''2024-03-01T00:00Z'' = Some g"
    "iso_offset f = ''Z''" "iso_offset g = ''Z''"
    by (simp add: iso_match_def take_digits_def is_digit_def take_seconds_def take_offset_def)
  have "toEpoch ''2024-02-29T23:59Z'' = Inr 1709251140000" "toEpoch ''2024-03-01T00:00Z'' = Inr 1709251200000"
    by code_simp+
  from epoch_order_is_calendar_order [OF fg(1,2) this] fg show ?thesis by auto
qed

end
