(* ===== verification/NumberText.thy ===== *)
theory NumberText
  imports JsNumber Timestamps
begin

text \<open>
  The text of a number: \<open>Number::toString\<close> in base ten, which \<open>JSON.stringify\<close> and
  \<open>String\<close> use. The digits are the shortest that round to the number again, and among those
  the closest to it. The search for the number of digits stops because every double has an exact
  decimal expansion with at most 1074 places after the point.

  The main fact is that the text determines the number: two doubles with one text are equal.
\<close>

section \<open>Digits of a natural number\<close>

fun nat_text :: "nat \<Rightarrow> string" where
  "nat_text n =
     (if n < 10 then [char_of (48 + n)] else nat_text (n div 10) @ [char_of (48 + n mod 10)])"

declare nat_text.simps [simp del]

lemma digit_char: "n < 10 \<Longrightarrow> is_digit (char_of (48 + n)) \<and> digit_value (char_of (48 + n)) = int n"
  by (simp add: is_digit_def digit_value_def)

lemma digits_value_append:
  "digits_value (xs @ ys) = foldl (\<lambda>n c. 10 * n + digit_value c) (digits_value xs) ys"
  by (simp add: digits_value_def)

lemma digits_value_snoc: "digits_value (xs @ [c]) = 10 * digits_value xs + digit_value c"
  by (simp add: digits_value_append)

lemma digits_value_single: "digits_value [c] = digit_value c"
  by (simp add: digits_value_def)

lemma nat_text_value: "digits_value (nat_text n) = int n"
proof (induction n rule: nat_text.induct)
  case (1 n)
  show ?case
  proof (cases "n < 10")
    case True
    then show ?thesis using digit_char [of n] by (simp add: nat_text.simps [of n] digits_value_single)
  next
    case False
    then have "digits_value (nat_text n) = 10 * int (n div 10) + int (n mod 10)"
      using "1.IH" digit_char [of "n mod 10"] by (simp add: nat_text.simps [of n] digits_value_snoc)
    also have "\<dots> = int n" by presburger
    finally show ?thesis .
  qed
qed

lemma nat_text_digits: "list_all is_digit (nat_text n)"
proof (induction n rule: nat_text.induct)
  case (1 n)
  then show ?case
    using digit_char [of n] digit_char [of "n mod 10"] by (auto simp: nat_text.simps [of n])
qed

lemma nat_text_not_Nil [simp]: "nat_text n \<noteq> []"
  by (simp add: nat_text.simps [of n])

lemma nat_text_inj: "nat_text m = nat_text n \<Longrightarrow> m = n"
  by (metis nat_text_value of_nat_eq_iff)

lemma digit_value_zero [simp]: "digit_value CHR ''0'' = 0"
  by (simp add: digit_value_def)

lemma digits_value_zeros_right: "digits_value (xs @ replicate k CHR ''0'') = digits_value xs * 10 ^ k"
proof (induction k)
  case 0
  then show ?case by simp
next
  case (Suc k)
  have "xs @ replicate (Suc k) CHR ''0'' = (xs @ replicate k CHR ''0'') @ [CHR ''0'']"
    using replicate_append_same [of k "CHR ''0''"] by (simp only: replicate_Suc append_assoc)
  then have "digits_value (xs @ replicate (Suc k) CHR ''0'')
      = 10 * digits_value (xs @ replicate k CHR ''0'')"
    by (simp only: digits_value_snoc digit_value_zero add_0_right)
  also have "\<dots> = digits_value xs * 10 ^ Suc k" unfolding Suc by (simp only: power_Suc ac_simps)
  finally show ?case .
qed

lemma digits_value_zeros_left: "digits_value (replicate k CHR ''0'' @ xs) = digits_value xs"
proof -
  have "foldl (\<lambda>n c. 10 * n + digit_value c) 0 (replicate k CHR ''0'') = 0"
    by (induction k) simp_all
  then show ?thesis by (simp add: digits_value_def)
qed

section \<open>The shortest digits\<close>

text \<open>With \<open>10 powi (n - 1) \<le> x < 10 powi n\<close>, the digits \<open>s\<close> of length \<open>k\<close> next to \<open>x\<close> that
  round to it, if any: \<open>x\<close> is the double nearest to \<open>s * 10 powi (n - k)\<close>.\<close>

definition decimal_ok :: "rat \<Rightarrow> int \<Rightarrow> int \<Rightarrow> int \<Rightarrow> bool" where
  "decimal_ok x n k s \<longleftrightarrow> round_double (of_int s * 10 powi (n - k)) = Num x"

definition decimal_for :: "rat \<Rightarrow> int \<Rightarrow> int \<Rightarrow> int option" where
  "decimal_for x n k =
     (let y = x * 10 powi (k - n); lo = \<lfloor>y\<rfloor>; hi = lo + 1
      in if decimal_ok x n k lo \<and>
            (\<not> decimal_ok x n k hi \<or> y - of_int lo < of_int hi - y
             \<or> y - of_int lo = of_int hi - y \<and> even lo)
         then Some lo
         else if decimal_ok x n k hi then Some hi else None)"

function shortest_decimal :: "rat \<Rightarrow> int \<Rightarrow> int \<Rightarrow> (int \<times> int) option" where
  "shortest_decimal x n k =
     (if k > 1400 then None
      else case decimal_for x n k of
             Some s \<Rightarrow> Some (k, s)
           | None \<Rightarrow> shortest_decimal x n (k + 1))"
  by pat_completeness auto
termination
  by (relation "measure (\<lambda>(x, n, k). nat (1401 - k))") auto

declare shortest_decimal.simps [simp del]

text \<open>The layout of the digits \<open>ds\<close> of the value \<open>s * 10 powi (n - k)\<close>, \<open>k\<close> their number.\<close>

definition number_layout :: "string \<Rightarrow> int \<Rightarrow> string" where
  "number_layout ds n =
     (let k = int (length ds)
      in if k \<le> n \<and> n \<le> 21 then ds @ replicate (nat (n - k)) CHR ''0''
         else if 0 < n \<and> n \<le> 21 then take (nat n) ds @ ''.'' @ drop (nat n) ds
         else if - 6 < n \<and> n \<le> 0 then ''0.'' @ replicate (nat (- n)) CHR ''0'' @ ds
         else (if k = 1 then ds else take 1 ds @ ''.'' @ drop 1 ds)
              @ (if n - 1 < 0 then ''e-'' else ''e+'') @ nat_text (nat \<bar>n - 1\<bar>))"

text \<open>The digits may have carried to the next power of ten, as for \<open>1e23\<close>; then the last
  digit is a zero that the text does not count among its digits.\<close>

definition pos_text :: "rat \<Rightarrow> string" where
  "pos_text x =
     (let n = rat_log 10 x + 1
      in case shortest_decimal x n 1 of
           None \<Rightarrow> []
         | Some (k, s) \<Rightarrow>
             let (s', e) = (if s = 10 ^ nat k then (s div 10, n - k + 1) else (s, n - k));
                 ds = nat_text (nat s')
             in number_layout ds (e + int (length ds)))"

definition number_text :: "rat \<Rightarrow> string" where
  "number_text x =
     (if x = 0 then ''0'' else if x < 0 then CHR ''-'' # pos_text (- x) else pos_text x)"

section \<open>Reading a number text back\<close>

text \<open>The value that a layout stands for: the digits around the point, and the exponent.\<close>

definition exponent_value :: "string \<Rightarrow> int" where
  "exponent_value t =
     (case t of [] \<Rightarrow> 0
      | _ # c # ds \<Rightarrow> if c = CHR ''-'' then - digits_value ds else digits_value ds
      | _ \<Rightarrow> 0)"

definition text_value :: "string \<Rightarrow> rat" where
  "text_value t =
     (let whole = takeWhile is_digit t; r = dropWhile is_digit t;
          fr = (if take 1 r = ''.'' then takeWhile is_digit (tl r) else []);
          e = (if take 1 r = ''.'' then dropWhile is_digit (tl r) else r)
      in of_int (digits_value (whole @ fr)) * 10 powi (exponent_value e - int (length fr)))"

lemma takeWhile_digits: "list_all is_digit ds \<Longrightarrow> \<not> is_digit c \<Longrightarrow>
    takeWhile is_digit (ds @ c # t) = ds \<and> dropWhile is_digit (ds @ c # t) = c # t"
  by (induction ds) auto

lemma takeWhile_digits_all: "list_all is_digit ds \<Longrightarrow>
    takeWhile is_digit ds = ds \<and> dropWhile is_digit ds = []"
  by (induction ds) auto

lemma not_digit_chars [simp]: "\<not> is_digit CHR ''.''" "\<not> is_digit CHR ''e''" "\<not> is_digit CHR ''-''"
  "is_digit CHR ''0''"
  by (simp_all add: is_digit_def)

lemma text_value_whole: "list_all is_digit ds \<Longrightarrow> text_value ds = of_int (digits_value ds)"
  by (simp add: text_value_def takeWhile_digits_all exponent_value_def)

lemma text_value_point:
  "list_all is_digit ds \<Longrightarrow> list_all is_digit fs \<Longrightarrow>
   text_value (ds @ CHR ''.'' # fs) = of_int (digits_value (ds @ fs)) * 10 powi (- int (length fs))"
  by (simp add: text_value_def takeWhile_digits takeWhile_digits_all exponent_value_def)

lemma text_value_exp:
  "list_all is_digit ds \<Longrightarrow> c = CHR ''-'' \<or> c = CHR ''+'' \<Longrightarrow>
   text_value (ds @ CHR ''e'' # c # es) =
     of_int (digits_value ds) * 10 powi (if c = CHR ''-'' then - digits_value es else digits_value es)"
  by (simp add: text_value_def takeWhile_digits exponent_value_def)

lemma text_value_point_exp:
  "list_all is_digit ds \<Longrightarrow> list_all is_digit fs \<Longrightarrow> c = CHR ''-'' \<or> c = CHR ''+'' \<Longrightarrow>
   text_value (ds @ CHR ''.'' # fs @ CHR ''e'' # c # es) =
     of_int (digits_value (ds @ fs)) *
     10 powi ((if c = CHR ''-'' then - digits_value es else digits_value es) - int (length fs))"
  by (simp add: text_value_def takeWhile_digits exponent_value_def)

lemma ten_powi_split: "(10::rat) powi (a + b) = 10 powi a * 10 powi b"
  by (simp add: power_int_add)

lemma layout_value:
  assumes d: "list_all is_digit ds" and ne: "ds \<noteq> []"
  shows "text_value (number_layout ds n) = of_int (digits_value ds) * 10 powi (n - int (length ds))"
proof -
  let ?k = "int (length ds)"
  consider (whole) "?k \<le> n" "n \<le> 21" | (point) "n < ?k" "0 < n" "n \<le> 21"
    | (small) "- 6 < n" "n \<le> 0" | (exp) "\<not> (0 < n \<and> n \<le> 21)" "\<not> (- 6 < n \<and> n \<le> 0)"
    by linarith
  then show ?thesis
  proof cases
    case whole
    have "text_value (ds @ replicate (nat (n - ?k)) CHR ''0'') =
        of_int (digits_value ds * 10 ^ nat (n - ?k))"
      using d by (subst text_value_whole) (auto simp: digits_value_zeros_right list_all_iff)
    with whole show ?thesis by (simp add: number_layout_def Let_def power_int_nonneg_exp)
  next
    case point
    have "text_value (take (nat n) ds @ CHR ''.'' # drop (nat n) ds) =
        of_int (digits_value ds) * 10 powi (- int (length (drop (nat n) ds)))"
      using d by (subst text_value_point) (auto simp: list_all_iff dest: in_set_takeD in_set_dropD)
    with point show ?thesis by (simp add: number_layout_def Let_def of_nat_diff nat_less_iff)
  next
    case small
    let ?z = "replicate (nat (- n)) CHR ''0''"
    have "text_value (''0'' @ CHR ''.'' # (?z @ ds)) =
        of_int (digits_value (''0'' @ ?z @ ds)) * 10 powi (- int (length (?z @ ds)))"
      using d by (subst text_value_point) (auto simp: list_all_iff)
    moreover have "digits_value (''0'' @ ?z @ ds) = digits_value ds"
      using digits_value_zeros_left [of "Suc (nat (- n))" ds] by simp
    moreover have "\<not> ?k \<le> n"
    proof -
      have "0 < length ds" using ne by simp
      with small show ?thesis by linarith
    qed
    ultimately show ?thesis using small by (simp add: number_layout_def Let_def)
  next
    case exp
    let ?c = "if n - 1 < 0 then CHR ''-'' else CHR ''+''"
    let ?e = "nat_text (nat \<bar>n - 1\<bar>)"
    have c: "?c = CHR ''-'' \<or> ?c = CHR ''+''" by simp
    have e: "(if ?c = CHR ''-'' then - digits_value ?e else digits_value ?e) = n - 1"
      by (simp add: nat_text_value)
    have t: "(if n - 1 < 0 then ''e-'' else ''e+'') @ ?e = CHR ''e'' # ?c # ?e" by simp
    have no: "\<not> (?k \<le> n \<and> n \<le> 21)" "\<not> (0 < n \<and> n \<le> 21)"
      using exp ne by (auto simp: not_le)
    show ?thesis
    proof (cases "?k = 1")
      case True
      then have "number_layout ds n = ds @ CHR ''e'' # ?c # ?e"
        using no exp by (simp only: number_layout_def Let_def t if_False if_True simp_thms)
      then show ?thesis using text_value_exp [OF d c, of ?e] True by (simp only: e)
    next
      case False
      have "number_layout ds n = take 1 ds @ CHR ''.'' # drop 1 ds @ CHR ''e'' # ?c # ?e"
        using no exp False by (simp only: number_layout_def Let_def t if_False append_Cons append_Nil append_assoc)
      moreover have "list_all is_digit (take 1 ds)" "list_all is_digit (drop 1 ds)"
        using d by (auto simp: list_all_iff dest: in_set_takeD in_set_dropD)
      moreover have "n - 1 - int (length (drop 1 ds)) = n - ?k"
        using ne by (cases ds) simp_all
      ultimately show ?thesis using c by (simp only: text_value_point_exp e append_take_drop_id)
    qed
  qed
qed

section \<open>The search for the digits succeeds\<close>

lemma is_double_Num:
  assumes "is_double (Num x)"
  shows "representable x" and "\<bar>x\<bar> < 2 powi 1024"
proof -
  have "round_double x = Num x" using assms by (simp add: is_double_def)
  then have r: "round_rat x = x" and "\<bar>round_rat x\<bar> < 2 powi 1024"
    by (auto simp: round_double_def Let_def split: if_splits)
  then show "\<bar>x\<bar> < 2 powi 1024" by simp
  show "representable x" using r representable_round_rat [of x] by simp
qed

lemma exact_decimal:
  assumes "representable x" and "j \<ge> 1074"
  shows "of_int \<lfloor>x * 10 powi j\<rfloor> = x * 10 powi j"
proof -
  obtain m i where x: "x = of_int m * 2 powi i" and i: "- 1074 \<le> i"
    using assms(1) by (auto simp: representable_def)
  have "x * 10 powi j = of_int m * (2 powi i * (2 powi j * 5 powi j))"
    using power_int_mult_distrib [of "2::rat" 5 j] by (simp add: x)
  also have "\<dots> = of_int m * (2 powi (i + j) * 5 powi j)" by (simp add: two_powi_split)
  also have "\<dots> = of_int (m * (2 ^ nat (i + j) * 5 ^ nat j))"
    using i assms(2) by (simp add: power_int_nonneg_exp)
  finally have e: "x * 10 powi j = of_int (m * (2 ^ nat (i + j) * 5 ^ nat j))" .
  show ?thesis unfolding e by simp
qed

lemma decimal_for_Some:
  assumes "decimal_for x n k = Some s"
  shows "decimal_ok x n k s" and "\<lfloor>x * 10 powi (k - n)\<rfloor> \<le> s"
  using assms by (auto simp: decimal_for_def Let_def split: if_splits)

lemma shortest_decimal_Some:
  "shortest_decimal x n k = Some (k', s) \<Longrightarrow> decimal_for x n k' = Some s \<and> k \<le> k'"
proof (induction x n k rule: shortest_decimal.induct)
  case (1 x n k)
  then show ?case
    by (auto simp: shortest_decimal.simps [of x n k] split: if_splits option.splits)
qed

lemma shortest_decimal_found:
  "k \<le> K \<Longrightarrow> K \<le> 1400 \<Longrightarrow> decimal_ok x n K \<lfloor>x * 10 powi (K - n)\<rfloor> \<Longrightarrow>
   \<exists>r. shortest_decimal x n k = Some r"
proof (induction x n k rule: shortest_decimal.induct)
  case (1 x n k)
  show ?case
  proof (cases "decimal_for x n k")
    case (Some s)
    with 1 show ?thesis by (simp add: shortest_decimal.simps [of x n k])
  next
    case None
    with "1.prems"(3) have "k \<noteq> K" by (auto simp: decimal_for_def Let_def split: if_splits)
    with "1.prems" have "\<exists>r. shortest_decimal x n (k + 1) = Some r"
      using None by (intro "1.IH") simp_all
    with None "1.prems" show ?thesis by (simp add: shortest_decimal.simps [of x n k])
  qed
qed

lemma pos_text_exists:
  assumes d: "is_double (Num x)" and x: "0 < x"
  shows "\<exists>r. shortest_decimal x (rat_log 10 x + 1) 1 = Some r"
proof -
  let ?n = "rat_log 10 x + 1"
  let ?K = "max 1 (?n + 1074)"
  have "(10::rat) powi rat_log 10 x \<le> x" using rat_log_spec(1) [of 10 x] x by simp
  also have "\<dots> < 2 powi 1024" using is_double_Num(2) [OF d] x by simp
  also have "\<dots> < 10 powi 309" by simp
  finally have "(10::rat) powi rat_log 10 x < 10 powi 309" .
  moreover have "(10::rat) powi rat_log 10 x < 10 powi 309 \<longleftrightarrow> rat_log 10 x < 309"
    by (rule powi_less_iff) simp
  ultimately have "rat_log 10 x < 309" by blast
  then have K: "1 \<le> ?K" "?K \<le> 1400" by simp_all
  have "of_int \<lfloor>x * 10 powi (?K - ?n)\<rfloor> = x * 10 powi (?K - ?n)"
    using is_double_Num(1) [OF d] by (intro exact_decimal) simp_all
  then have "of_int \<lfloor>x * 10 powi (?K - ?n)\<rfloor> * 10 powi (?n - ?K) = x * (10 powi (?K - ?n) * 10 powi (?n - ?K))"
    by simp
  also have "\<dots> = x" by (simp flip: ten_powi_split)
  finally have "decimal_ok x ?n ?K \<lfloor>x * 10 powi (?K - ?n)\<rfloor>"
    using d by (simp add: decimal_ok_def is_double_def)
  then show ?thesis by (rule shortest_decimal_found [OF K])
qed

lemma pos_text_layout:
  assumes d: "is_double (Num x)" and x: "0 < x"
  obtains ds n where "pos_text x = number_layout ds n" and "list_all is_digit ds" and "ds \<noteq> []"
    and "round_double (of_int (digits_value ds) * 10 powi (n - int (length ds))) = Num x"
proof -
  let ?n = "rat_log 10 x + 1"
  obtain k s where ks: "shortest_decimal x ?n 1 = Some (k, s)" using pos_text_exists [OF d x] by auto
  have k: "1 \<le> k" and "decimal_for x ?n k = Some s" using shortest_decimal_Some [OF ks] by blast+
  then have ok: "decimal_ok x ?n k s" and fl: "\<lfloor>x * 10 powi (k - ?n)\<rfloor> \<le> s"
    using decimal_for_Some by blast+
  have "0 \<le> \<lfloor>x * 10 powi (k - ?n)\<rfloor>" using x by simp
  with fl have s: "0 \<le> s" by linarith
  define s' e where "s' = (if s = 10 ^ nat k then s div 10 else s)"
    and "e = (if s = 10 ^ nat k then ?n - k + 1 else ?n - k)"
  obtain j where j: "nat k = Suc j" using k by (cases "nat k") simp_all
  have s': "0 \<le> s'" using s by (simp add: s'_def j)
  have "of_int (if s = 10 ^ nat k then s div 10 else s) * 10 powi (if s = 10 ^ nat k then i + 1 else i)
      = (of_int s * 10 powi i :: rat)" for i
    by (simp add: j ten_powi_split)
  from this [of "?n - k"] have v: "of_int s' * 10 powi e = (of_int s * 10 powi (?n - k) :: rat)"
    unfolding s'_def e_def .
  let ?ds = "nat_text (nat s')"
  have "pos_text x = number_layout ?ds (e + int (length ?ds))"
    by (simp add: pos_text_def ks s'_def e_def Let_def)
  moreover have "round_double (of_int (digits_value ?ds) * 10 powi (e + int (length ?ds) - int (length ?ds))) = Num x"
    using ok s' by (simp add: nat_text_value v decimal_ok_def)
  ultimately show thesis by (rule that [OF _ nat_text_digits nat_text_not_Nil])
qed

text \<open>The text of a positive double, read back and rounded, is the double.\<close>

lemma pos_text_roundtrip:
  assumes "is_double (Num x)" and "0 < x"
  shows "round_double (text_value (pos_text x)) = Num x"
  using pos_text_layout [OF assms] layout_value by metis

lemma number_layout_head: "list_all is_digit ds \<Longrightarrow> ds \<noteq> [] \<Longrightarrow>
    \<exists>c t. number_layout ds n = c # t \<and> is_digit c"
  by (cases ds) (auto simp: number_layout_def Let_def nat_eq_iff take_Cons' split: if_splits)

definition read_number :: "string \<Rightarrow> rat" where
  "read_number t =
     (case t of [] \<Rightarrow> 0 | c # r \<Rightarrow> if c = CHR ''-'' then - text_value r else text_value t)"

lemma round_double_neg: "round_double (- v) = js_neg (round_double v)"
proof -
  have "(0::rat) < 2 powi 1024" by (rule two_powi_pos)
  then show ?thesis
    unfolding round_double_def Let_def round_rat_neg by auto
qed

lemma is_double_neg: "is_double (Num (- x)) \<longleftrightarrow> is_double (Num x)"
  using round_double_neg [of x] by (cases "round_double x") (auto simp: is_double_def)

lemma pos_text_read:
  assumes "is_double (Num x)" and "0 < x"
  shows "round_double (read_number (pos_text x)) = Num x"
    and "round_double (read_number (CHR ''-'' # pos_text x)) = Num (- x)"
proof -
  obtain ds n where l: "pos_text x = number_layout ds n" "list_all is_digit ds" "ds \<noteq> []"
    using pos_text_layout [OF assms] by metis
  then obtain c t where "pos_text x = c # t" "is_digit c" using number_layout_head [of ds n] by auto
  then have "read_number (pos_text x) = text_value (pos_text x)"
    by (auto simp: read_number_def)
  with pos_text_roundtrip [OF assms] show "round_double (read_number (pos_text x)) = Num x" by simp
  show "round_double (read_number (CHR ''-'' # pos_text x)) = Num (- x)"
    using pos_text_roundtrip [OF assms] by (simp add: read_number_def round_double_neg)
qed

text \<open>Reading a number text back and rounding gives the number.\<close>

lemma number_text_roundtrip:
  assumes "is_double (Num x)"
  shows "round_double (read_number (number_text x)) = Num x"
proof -
  consider "x = 0" | "0 < x" | "x < 0" by linarith
  then show ?thesis
  proof cases
    case 1
    then show ?thesis by (simp add: number_text_def read_number_def text_value_whole digits_value_def)
  next
    case 2
    then show ?thesis using pos_text_read(1) [OF assms] by (simp add: number_text_def)
  next
    case 3
    then show ?thesis
      using pos_text_read(2) [of "- x"] assms by (simp add: number_text_def is_double_neg)
  qed
qed

lemma number_text_inj:
  assumes "is_double (Num x)" and "is_double (Num y)" and "number_text x = number_text y"
  shows "x = y"
  using number_text_roundtrip assms by (metis js_number.inject)

text \<open>The characters of a number text; none of them delimits a JSON value.\<close>

definition is_number_char :: "char \<Rightarrow> bool" where
  "is_number_char c \<longleftrightarrow> is_digit c \<or> c \<in> set ''.e+-''"

lemma number_layout_chars:
  "list_all is_digit ds \<Longrightarrow> list_all is_number_char (number_layout ds n)"
  using nat_text_digits [of "nat \<bar>n - 1\<bar>"]
  by (auto simp: number_layout_def Let_def list_all_iff is_number_char_def
      dest: in_set_takeD in_set_dropD)

lemma number_text_chars:
  assumes "is_double (Num x)"
  shows "list_all is_number_char (number_text x)" and "number_text x \<noteq> []"
proof -
  have pos: "list_all is_number_char (pos_text y) \<and> pos_text y \<noteq> []"
    if "is_double (Num y)" "0 < y" for y
    using pos_text_layout [OF that] number_layout_chars number_layout_head
    by (metis list.distinct(1))
  show "list_all is_number_char (number_text x)" and "number_text x \<noteq> []"
    using pos [of x] pos [of "- x"] assms
    by (auto simp: number_text_def is_double_neg is_number_char_def)
qed

end
