(* ===== verification/CanonicalJson.thy ===== *)
theory CanonicalJson
  imports NumberText
begin

text \<open>
  The canonical JSON of \<open>packages/core/src/v2/shared.ts\<close>: \<open>cloneCanonicalJson\<close>, which copies a
  value out of the mutable object graph and refuses cycles and numbers that are not finite, and
  \<open>canonicalJson\<close>, the text that event and receipt hashes are computed from.

  An object is the list of its own entries in the order of \<open>Object.entries\<close>. The graph that the
  clone walks is a store of arrays and objects; a value is a primitive or a reference into it.
  A clone is frozen when it is returned. It is never written again, but it becomes the prototype of the
  object under construction when the object has an entry \<open>__proto__\<close>, and then the keys it owns cannot be
  assigned to that object any more: the model keeps these keys beside the copy.
\<close>

section \<open>Values\<close>

datatype json =
    JNull
  | JBool bool
  | JNumber js_number
  | JString string
  | JArray "json list"
  | JObject "(string \<times> json) list"

section \<open>Cloning out of the object graph\<close>

datatype jvalue = VNull | VBool bool | VNumber js_number | VString string | VRef nat

datatype jnode = ArrayNode "jvalue list" | ObjectNode "(string \<times> jvalue) list"

type_synonym jheap = "jnode list"

text \<open>
  A clone with the keys that it and the clones in its prototype chain own. They are read-only, since all
  of these are frozen; an array owns its indices and its length.
\<close>

type_synonym clone = "json \<times> string list"

definition index_keys :: "nat \<Rightarrow> string list" where
  "index_keys n = map (\<lambda>i. number_text (of_nat i)) [0..<n] @ [''length'']"

text \<open>An object under construction: its own entries, and the keys that its prototype chain owns.\<close>

type_synonym draft = "(string \<times> json) list \<times> string list"

text \<open>The setter of \<open>__proto__\<close> takes an object or null and leaves the prototype alone otherwise.\<close>

definition proto_keys :: "json \<Rightarrow> string list \<Rightarrow> string list \<Rightarrow> string list" where
  "proto_keys v keys inherited =
     (case v of JNull \<Rightarrow> [] | JArray _ \<Rightarrow> keys | JObject _ \<Rightarrow> keys | _ \<Rightarrow> inherited)"

text \<open>
  \<open>cloned[key] = copy\<close>: an own property, except that assigning to \<open>__proto__\<close> sets the prototype of the
  new object and so leaves no entry. Assigning to a key that the prototype chain has as a read-only
  property throws.
\<close>

definition set_entry :: "string \<Rightarrow> clone \<Rightarrow> draft \<Rightarrow> draft result" where
  "set_entry k c d =
     (if k = ''__proto__'' then Inr (fst d, proto_keys (fst c) (snd c) (snd d))
      else if k \<in> set (snd d) then fail ''TypeError''
      else Inr (fst d @ [(k, fst c)], snd d))"

definition finish :: "draft \<Rightarrow> clone" where
  "finish d = (JObject (fst d), map fst (fst d) @ snd d)"

text \<open>Each reference followed adds a store index to the ancestors; within one node the remaining
  items shrink.\<close>

definition free_refs :: "jheap \<Rightarrow> nat set \<Rightarrow> nat" where
  "free_refs h anc = card ({..<length h} - anc)"

lemma free_refs_insert: "a \<notin> anc \<Longrightarrow> a < length h \<Longrightarrow> free_refs h (insert a anc) < free_refs h anc"
  unfolding free_refs_def by (rule psubset_card_mono) auto

text \<open>
  The walk with its set of ancestors. Both loops are written out as recursions; the ancestor set
  grows on the way down and is restored on the way up. A reference outside the store does not
  occur in a program and is refused.
\<close>

function (sequential) clone_value :: "jheap \<Rightarrow> nat set \<Rightarrow> jvalue \<Rightarrow> clone result"
  and clone_items :: "jheap \<Rightarrow> nat set \<Rightarrow> jvalue list \<Rightarrow> json list result"
  and clone_entries :: "jheap \<Rightarrow> nat set \<Rightarrow> draft \<Rightarrow> (string \<times> jvalue) list \<Rightarrow> draft result" where
  "clone_value h anc VNull = Inr (JNull, [])"
| "clone_value h anc (VBool b) = Inr (JBool b, [])"
| "clone_value h anc (VNumber x) =
     (if \<not> js_is_finite x then fail ''INVALID_CANONICAL_JSON'' else Inr (JNumber x, []))"
| "clone_value h anc (VString s) = Inr (JString s, [])"
| "clone_value h anc (VRef a) =
     (if a \<in> anc then fail ''INVALID_CANONICAL_JSON''
      else if \<not> a < length h then fail ''INVALID_CANONICAL_JSON''
      else case h ! a of
             ArrayNode vs \<Rightarrow>
               and_then (clone_items h (insert a anc) vs) (\<lambda>xs. Inr (JArray xs, index_keys (length xs)))
           | ObjectNode es \<Rightarrow> and_then (clone_entries h (insert a anc) ([], []) es) (\<lambda>d. Inr (finish d)))"
| "clone_items h anc [] = Inr []"
| "clone_items h anc (v # vs) =
     and_then (clone_value h anc v) (\<lambda>c. and_then (clone_items h anc vs) (\<lambda>xs. Inr (fst c # xs)))"
| "clone_entries h anc d [] = Inr d"
| "clone_entries h anc d ((k, v) # es) =
     and_then (clone_value h anc v) (\<lambda>c. and_then (set_entry k c d) (\<lambda>d'. clone_entries h anc d' es))"
  by pat_completeness auto

termination
  by (relation "measures
      [\<lambda>p. case p of Inl (h, anc, v) \<Rightarrow> free_refs h anc
           | Inr (Inl (h, anc, vs)) \<Rightarrow> free_refs h anc | Inr (Inr (h, anc, d, es)) \<Rightarrow> free_refs h anc,
       \<lambda>p. case p of Inl (h, anc, v) \<Rightarrow> 0
           | Inr (Inl (h, anc, vs)) \<Rightarrow> Suc (length vs) | Inr (Inr (h, anc, d, es)) \<Rightarrow> Suc (length es)]")
    (auto simp: free_refs_insert)

definition clone_heap :: "jheap \<Rightarrow> jvalue \<Rightarrow> json result" where
  "clone_heap h v = and_then (clone_value h {} v) (\<lambda>c. Inr (fst c))"

text \<open>
  The same walk on a value without sharing or cycles, as the payloads and content snapshots of
  events and receipts are.
\<close>

fun cloneCanonicalJson :: "json \<Rightarrow> clone result"
  and clone_json_items :: "json list \<Rightarrow> json list result"
  and clone_json_entries :: "draft \<Rightarrow> (string \<times> json) list \<Rightarrow> draft result" where
  "cloneCanonicalJson (JNumber x) =
     (if \<not> js_is_finite x then fail ''INVALID_CANONICAL_JSON'' else Inr (JNumber x, []))"
| "cloneCanonicalJson (JArray xs) =
     and_then (clone_json_items xs) (\<lambda>ys. Inr (JArray ys, index_keys (length ys)))"
| "cloneCanonicalJson (JObject es) = and_then (clone_json_entries ([], []) es) (\<lambda>d. Inr (finish d))"
| "cloneCanonicalJson v = Inr (v, [])"
| "clone_json_items [] = Inr []"
| "clone_json_items (x # xs) =
     and_then (cloneCanonicalJson x) (\<lambda>c. and_then (clone_json_items xs) (\<lambda>ys. Inr (fst c # ys)))"
| "clone_json_entries d [] = Inr d"
| "clone_json_entries d ((k, x) # es) =
     and_then (cloneCanonicalJson x) (\<lambda>c. and_then (set_entry k c d) (\<lambda>d'. clone_json_entries d' es))"

definition cloneAndFreezeCanonicalJson :: "json \<Rightarrow> json result" where
  "cloneAndFreezeCanonicalJson v = and_then (cloneCanonicalJson v) (\<lambda>c. Inr (fst c))"

section \<open>The canonical text\<close>

definition hex_digit :: "nat \<Rightarrow> char" where
  "hex_digit n = (if n < 10 then char_of (48 + n) else char_of (87 + n))"

text \<open>\<open>JSON.stringify\<close> of a string: the escapes of the quotation mark, the backslash and the
  control characters.\<close>

definition escape_char :: "char \<Rightarrow> string" where
  "escape_char c =
     (let n = of_char c :: nat
      in if n = 8 then [CHR 0x5C, CHR ''b'']
         else if n = 9 then [CHR 0x5C, CHR ''t'']
         else if n = 10 then [CHR 0x5C, CHR ''n'']
         else if n = 12 then [CHR 0x5C, CHR ''f'']
         else if n = 13 then [CHR 0x5C, CHR ''r'']
         else if n = 34 then [CHR 0x5C, CHR 0x22]
         else if n = 92 then [CHR 0x5C, CHR 0x5C]
         else if n < 32 then
           [CHR 0x5C, CHR ''u'', CHR ''0'', CHR ''0'', hex_digit (n div 16), hex_digit (n mod 16)]
         else [c])"

definition json_quote :: "string \<Rightarrow> string" where
  "json_quote s = CHR 0x22 # concat (map escape_char s) @ [CHR 0x22]"

text \<open>\<open>texts.join(',')\<close>.\<close>

fun comma_join :: "string list \<Rightarrow> string" where
  "comma_join [] = []"
| "comma_join [t] = t"
| "comma_join (t # ts) = t @ CHR '','' # comma_join ts"

lemma map_result_cong [fundef_cong]:
  "xs = ys \<Longrightarrow> (\<And>x. x \<in> set ys \<Longrightarrow> f x = g x) \<Longrightarrow> map_result f xs = map_result g ys"
proof -
  have "(\<And>x. x \<in> set ys \<Longrightarrow> f x = g x) \<Longrightarrow> map_result f ys = map_result g ys"
    by (induction ys) (auto intro!: and_then_cong)
  then show "xs = ys \<Longrightarrow> (\<And>x. x \<in> set ys \<Longrightarrow> f x = g x) \<Longrightarrow> map_result f xs = map_result g ys"
    by simp
qed

lemma json_entry_size: "e \<in> set es \<Longrightarrow> size (snd e) < Suc (size_list (size_prod (\<lambda>x. 0) size) es)"
  by (induction es) auto

function (sequential) canonicalJson :: "json \<Rightarrow> string result" where
  "canonicalJson JNull = Inr ''null''"
| "canonicalJson (JBool b) = Inr (if b then ''true'' else ''false'')"
| "canonicalJson (JNumber (Num x)) = Inr (number_text x)"
| "canonicalJson (JNumber _) = fail ''INVALID_CANONICAL_JSON''"
| "canonicalJson (JString s) = Inr (json_quote s)"
| "canonicalJson (JArray xs) =
     and_then (map_result canonicalJson xs) (\<lambda>ts. Inr (''['' @ comma_join ts @ '']''))"
| "canonicalJson (JObject es) =
     and_then
       (map_result
         (\<lambda>e. and_then (canonicalJson (snd e)) (\<lambda>t. Inr (json_quote (fst e) @ '':'' @ t)))
         (sort_key fst es))
       (\<lambda>ts. Inr (''{'' @ comma_join ts @ ''}''))"
  by pat_completeness auto

termination
  by (relation "measure size") (auto simp: json_entry_size less_Suc_eq_le size_list_estimation')

section \<open>What a clone is\<close>

fun json_finite :: "json \<Rightarrow> bool" where
  "json_finite (JNumber x) = js_is_finite x"
| "json_finite (JArray xs) = list_all json_finite xs"
| "json_finite (JObject es) = list_all (\<lambda>e. json_finite (snd e)) es"
| "json_finite _ = True"

text \<open>The value without its \<open>__proto__\<close> entries.\<close>

fun drop_proto :: "json \<Rightarrow> json" where
  "drop_proto (JArray xs) = JArray (map drop_proto xs)"
| "drop_proto (JObject es) =
     JObject (filter (\<lambda>e. fst e \<noteq> ''__proto__'') (map (\<lambda>(k, v). (k, drop_proto v)) es))"
| "drop_proto v = v"

text \<open>
  The keys that are read-only in an object with the clone of a value as its prototype, and those that an
  object inherits after its entries, of which \<open>__proto__\<close> sets the prototype.
\<close>

fun chain_keys :: "json \<Rightarrow> string list"
  and inherited_keys :: "string list \<Rightarrow> (string \<times> json) list \<Rightarrow> string list" where
  "chain_keys (JArray xs) = index_keys (length xs)"
| "chain_keys (JObject es) = filter (\<lambda>k. k \<noteq> ''__proto__'') (map fst es) @ inherited_keys [] es"
| "chain_keys _ = []"
| "inherited_keys inh [] = inh"
| "inherited_keys inh ((k, v) # es) =
     inherited_keys (if k = ''__proto__'' then proto_keys v (chain_keys v) inh else inh) es"

text \<open>No object in the value has, after an entry \<open>__proto__\<close>, a key that this prototype makes read-only.\<close>

fun assignable :: "json \<Rightarrow> bool"
  and assignable_items :: "json list \<Rightarrow> bool"
  and assignable_entries :: "string list \<Rightarrow> (string \<times> json) list \<Rightarrow> bool" where
  "assignable (JArray xs) \<longleftrightarrow> assignable_items xs"
| "assignable (JObject es) \<longleftrightarrow> assignable_entries [] es"
| "assignable _ \<longleftrightarrow> True"
| "assignable_items [] \<longleftrightarrow> True"
| "assignable_items (x # xs) \<longleftrightarrow> assignable x \<and> assignable_items xs"
| "assignable_entries inh [] \<longleftrightarrow> True"
| "assignable_entries inh ((k, v) # es) \<longleftrightarrow>
     assignable v \<and> (k = ''__proto__'' \<or> k \<notin> set inh)
     \<and> assignable_entries (if k = ''__proto__'' then proto_keys v (chain_keys v) inh else inh) es"

definition cloneable :: "json \<Rightarrow> bool" where
  "cloneable v \<longleftrightarrow> json_finite v \<and> assignable v"

lemma proto_keys_drop [simp]: "proto_keys (drop_proto v) = proto_keys v"
  by (cases v) (simp_all add: proto_keys_def fun_eq_iff)

lemma clone_json_Inr:
  "cloneCanonicalJson v = Inr c \<longleftrightarrow> json_finite v \<and> assignable v \<and> c = (drop_proto v, chain_keys v)"
  "clone_json_items xs = Inr ys \<longleftrightarrow> list_all json_finite xs \<and> assignable_items xs \<and> ys = map drop_proto xs"
  "clone_json_entries d es = Inr d' \<longleftrightarrow>
     list_all (\<lambda>e. json_finite (snd e)) es \<and> assignable_entries (snd d) es
     \<and> d' = (fst d @ filter (\<lambda>e. fst e \<noteq> ''__proto__'') (map (\<lambda>(k, v). (k, drop_proto v)) es), inherited_keys (snd d) es)"
proof (induction v and xs and d es arbitrary: c and ys and d'
    rule: cloneCanonicalJson_clone_json_items_clone_json_entries.induct)
  case (3 es)
  have "map fst (filter (\<lambda>e. fst e \<noteq> ''__proto__'') (map (\<lambda>(k, v). (k, drop_proto v)) es)) =
      filter (\<lambda>k. k \<noteq> ''__proto__'') (map fst es)" by (induction es) auto
  then show ?case using 3 by (auto simp: finish_def)
next
  case (8 d k x es)
  let ?c = "(drop_proto x, chain_keys x)"
  show ?case
  proof (cases "json_finite x \<and> assignable x")
    case True
    then have c: "cloneCanonicalJson x = Inr ?c" using 8(1) by simp
    show ?thesis
    proof (cases "k \<noteq> ''__proto__'' \<and> k \<in> set (snd d)")
      case shadowed: True
      then have "set_entry k ?c d = fail ''TypeError''" by (simp add: set_entry_def)
      then show ?thesis using c True shadowed by simp
    next
      case False
      then obtain u where u: "set_entry k ?c d = Inr u" unfolding set_entry_def by (metis (full_types))
      then show ?thesis
        using 8(2) [OF c u, of d'] c True False unfolding clone_json_entries.simps by (auto simp: set_entry_def)
    qed
  next
    case False
    then have "cloneCanonicalJson x \<noteq> Inr c" for c using 8(1) by blast
    then show ?thesis using False by auto
  qed
qed auto

lemma clone_canonical_Inr:
  "cloneAndFreezeCanonicalJson v = Inr w \<longleftrightarrow> cloneable v \<and> w = drop_proto v"
  by (auto simp: cloneAndFreezeCanonicalJson_def clone_json_Inr cloneable_def)

text \<open>Without an entry \<open>__proto__\<close> nothing is read-only.\<close>

fun proto_free :: "json \<Rightarrow> bool" where
  "proto_free (JArray xs) = list_all proto_free xs"
| "proto_free (JObject es) = list_all (\<lambda>e. fst e \<noteq> ''__proto__'' \<and> proto_free (snd e)) es"
| "proto_free _ = True"

lemma proto_free_assignable:
  "proto_free v \<Longrightarrow> assignable v"
  "list_all proto_free xs \<Longrightarrow> assignable_items xs"
  "list_all (\<lambda>e. fst e \<noteq> ''__proto__'' \<and> proto_free (snd e)) es \<Longrightarrow> inh = [] \<Longrightarrow> assignable_entries inh es"
  by (induction v and xs and inh es rule: assignable_assignable_items_assignable_entries.induct) auto

lemma proto_free_drop: "proto_free v \<Longrightarrow> drop_proto v = v"
proof (induction v rule: proto_free.induct)
  case (2 es)
  then have "map (\<lambda>(k, v). (k, drop_proto v)) es = es" by (auto simp: list_all_iff intro!: map_idI)
  then show ?case using 2 by (simp add: list_all_iff)
qed (auto simp: list_all_iff intro!: map_idI)

text \<open>The tree that a value denotes in a store; a value on a cycle denotes none.\<close>

inductive denotes :: "jheap \<Rightarrow> jvalue \<Rightarrow> json \<Rightarrow> bool" for h where
  denotes_null: "denotes h VNull JNull"
| denotes_bool: "denotes h (VBool b) (JBool b)"
| denotes_number: "denotes h (VNumber x) (JNumber x)"
| denotes_string: "denotes h (VString s) (JString s)"
| denotes_array: "a < length h \<Longrightarrow> h ! a = ArrayNode vs \<Longrightarrow> list_all2 (denotes h) vs ts \<Longrightarrow>
     denotes h (VRef a) (JArray ts)"
| denotes_object: "a < length h \<Longrightarrow> h ! a = ObjectNode es \<Longrightarrow>
     list_all2 (\<lambda>p q. fst p = fst q \<and> denotes h (snd p) (snd q)) es ts \<Longrightarrow>
     denotes h (VRef a) (JObject ts)"

inductive_cases denotes_nullE: "denotes h VNull t"
inductive_cases denotes_boolE: "denotes h (VBool b) t"
inductive_cases denotes_numberE: "denotes h (VNumber x) t"
inductive_cases denotes_stringE: "denotes h (VString s) t"
inductive_cases denotes_refE: "denotes h (VRef a) t"


lemma denotes_deterministic: "denotes h v t \<Longrightarrow> denotes h v t' \<Longrightarrow> t = t'"
proof (induction arbitrary: t' rule: denotes.induct)
  case (denotes_array a vs ts)
  from denotes_array.prems denotes_array.hyps obtain ts' where
    "t' = JArray ts'" "list_all2 (denotes h) vs ts'" by (auto elim: denotes_refE)
  with denotes_array.IH show ?case
    by (auto simp: list_all2_conv_all_nth intro!: nth_equalityI)
next
  case (denotes_object a es ts)
  from denotes_object.prems denotes_object.hyps obtain ts' where
    t': "t' = JObject ts'"
    and "list_all2 (\<lambda>p q. fst p = fst q \<and> denotes h (snd p) (snd q)) es ts'"
    by (auto elim: denotes_refE)
  with denotes_object.IH show ?case
    by (auto simp: list_all2_conv_all_nth intro!: nth_equalityI prod_eqI)
qed (auto elim: denotes_nullE denotes_boolE denotes_numberE denotes_stringE)

lemma clone_items_tree:
  "list_all2 (\<lambda>v t. clone_value h anc v = cloneCanonicalJson t) vs ts \<Longrightarrow> clone_items h anc vs = clone_json_items ts"
  by (induction rule: list_all2_induct) auto

lemma clone_entries_tree:
  "list_all2 (\<lambda>p q. fst p = fst q \<and> clone_value h anc (snd p) = cloneCanonicalJson (snd q)) es ts \<Longrightarrow>
   clone_entries h anc d es = clone_json_entries d ts"
  by (induction arbitrary: d rule: list_all2_induct) (auto intro!: and_then_cong)

text \<open>An ancestor denotes a strictly larger tree than what is below it.\<close>

definition larger_ancestors :: "jheap \<Rightarrow> nat set \<Rightarrow> json \<Rightarrow> bool" where
  "larger_ancestors h anc t \<longleftrightarrow> (\<forall>a \<in> anc. \<forall>s. denotes h (VRef a) s \<longrightarrow> size t < size s)"

lemma larger_ancestors_child:
  assumes "larger_ancestors h anc t" and "denotes h (VRef a) t" and "size s < size t"
  shows "larger_ancestors h (insert a anc) s"
  using assms denotes_deterministic [OF assms(2)]
  unfolding larger_ancestors_def by (metis insert_iff order_less_trans)

lemma larger_ancestors_notin: "larger_ancestors h anc t \<Longrightarrow> denotes h (VRef a) t \<Longrightarrow> a \<notin> anc"
  unfolding larger_ancestors_def by (metis order_less_irrefl)

lemma json_item_size: "x \<in> set xs \<Longrightarrow> size x < size (JArray xs)"
  by (simp add: less_Suc_eq_le size_list_estimation')

lemma json_entry_size': "e \<in> set es \<Longrightarrow> size (snd e) < size (JObject es)"
  using json_entry_size [of e es] by simp

lemma denotes_clone: "denotes h v t \<Longrightarrow> larger_ancestors h anc t \<Longrightarrow> clone_value h anc v = cloneCanonicalJson t"
proof (induction arbitrary: anc rule: denotes.induct)
  case (denotes_array a vs ts)
  have d: "denotes h (VRef a) (JArray ts)"
    using denotes_array.hyps denotes_array.IH by (auto intro!: denotes.denotes_array elim: list_all2_mono)
  have na: "a \<notin> anc" by (rule larger_ancestors_notin [OF denotes_array.prems d])
  have "list_all2 (\<lambda>v t. clone_value h (insert a anc) v = cloneCanonicalJson t) vs ts"
    unfolding list_all2_conv_all_nth
  proof (intro conjI allI impI)
    show "length vs = length ts" using denotes_array.IH by (simp add: list_all2_lengthD)
    fix i assume "i < length vs"
    then have "ts ! i \<in> set ts" using \<open>length vs = length ts\<close> by simp
    then have "larger_ancestors h (insert a anc) (ts ! i)"
      by (intro larger_ancestors_child [OF denotes_array.prems d] json_item_size)
    with \<open>i < length vs\<close> show "clone_value h (insert a anc) (vs ! i) = cloneCanonicalJson (ts ! i)"
      using denotes_array.IH by (simp add: list_all2_conv_all_nth)
  qed
  from clone_items_tree [OF this] na denotes_array.hyps show ?case by simp
next
  case (denotes_object a es ts)
  have d: "denotes h (VRef a) (JObject ts)"
    using denotes_object.hyps denotes_object.IH by (auto intro!: denotes.denotes_object elim: list_all2_mono)
  have na: "a \<notin> anc" by (rule larger_ancestors_notin [OF denotes_object.prems d])
  have len: "length es = length ts" using denotes_object.IH by (simp add: list_all2_lengthD)
  have "list_all2 (\<lambda>p q. fst p = fst q \<and> clone_value h (insert a anc) (snd p) = cloneCanonicalJson (snd q)) es ts"
    unfolding list_all2_conv_all_nth
  proof (intro conjI allI impI)
    show "length es = length ts" by (rule len)
    fix i assume i: "i < length es"
    then have "ts ! i \<in> set ts" using len by simp
    then have l: "larger_ancestors h (insert a anc) (snd (ts ! i))"
      by (intro larger_ancestors_child [OF denotes_object.prems d] json_entry_size')
    show "fst (es ! i) = fst (ts ! i)" using i denotes_object.IH by (simp add: list_all2_conv_all_nth)
    show "clone_value h (insert a anc) (snd (es ! i)) = cloneCanonicalJson (snd (ts ! i))"
      using i l denotes_object.IH by (simp add: list_all2_conv_all_nth)
  qed
  from clone_entries_tree [OF this] na denotes_object.hyps show ?case by simp
qed auto


lemma clone_self_reference: "\<not> succeeds (clone_heap [ArrayNode [VRef 0]] (VRef 0))"
  by (simp add: clone_heap_def)

text \<open>
  The object \<open>{"__proto__": {"x": 1}, "x": 2}\<close>, as \<open>JSON.parse\<close> reads it, makes the clone throw a \<open>TypeError\<close>; with the
  entries in the other order, it is cloned.
\<close>

lemma clone_shadowed_key:
  "cloneAndFreezeCanonicalJson (JObject [(''__proto__'', JObject [(''x'', JNumber (Num 1))]), (''x'', JNumber (Num 2))])
     = fail ''TypeError''"
  "cloneAndFreezeCanonicalJson (JObject [(''x'', JNumber (Num 2)), (''__proto__'', JObject [(''x'', JNumber (Num 1))])])
     = Inr (JObject [(''x'', JNumber (Num 2))])"
  by (simp_all add: cloneAndFreezeCanonicalJson_def set_entry_def finish_def proto_keys_def)

text \<open>On a value that denotes a tree, the walk over the store is the walk over the tree.\<close>

lemma clone_heap_refines_tree:
  "denotes h v t \<Longrightarrow> clone_heap h v = cloneAndFreezeCanonicalJson t"
  using denotes_clone [of h v t "{}"]
  by (simp add: clone_heap_def cloneAndFreezeCanonicalJson_def larger_ancestors_def)

end
