(* ===== verification/CanonicalText.thy ===== *)
theory CanonicalText
  imports CanonicalJson
begin

text \<open>
  The canonical text determines the value: two values whose numbers are doubles and whose
  canonical texts are equal are equal up to the order of object entries. The argument is that the
  text of a value is a prefix code: a value can be read off the front of any text in which it is
  followed by a delimiter.
\<close>

section \<open>Strings\<close>

definition hex_value :: "char \<Rightarrow> nat" where
  "hex_value c = (if is_digit c then nat (digit_value c) else of_char c - 87)"

text \<open>One escaped character read off the front of a text.\<close>

definition unescape :: "string \<Rightarrow> char \<times> string" where
  "unescape t =
     (if hd t = CHR 0x5C then
        (let e = t ! 1; r = drop 2 t
         in if e = CHR ''b'' then (char_of (8 :: nat), r) else if e = CHR ''t'' then (char_of (9 :: nat), r)
            else if e = CHR ''n'' then (char_of (10 :: nat), r) else if e = CHR ''f'' then (char_of (12 :: nat), r)
            else if e = CHR ''r'' then (char_of (13 :: nat), r)
            else if e = CHR ''u'' then (char_of (16 * hex_value (t ! 4) + hex_value (t ! 5)), drop 6 t)
            else (e, r))
      else (hd t, tl t))"

lemma hex_value_digit: "n < 16 \<Longrightarrow> hex_value (hex_digit n) = n"
  by (auto simp: hex_value_def hex_digit_def is_digit_def digit_value_def)

lemma char_eq_of: "(of_char c :: nat) = n \<Longrightarrow> c = char_of n"
  by (metis char_of_char)

lemma unescape_escape: "unescape (escape_char c @ r) = (c, r)"
proof -
  let ?n = "of_char c :: nat"
  consider "?n \<in> {8, 9, 10, 12, 13}" | "?n \<in> {34, 92}" | "?n < 32" "?n \<notin> {8, 9, 10, 12, 13}"
    | "32 \<le> ?n" "?n \<notin> {34, 92}" by force
  then show ?thesis
  proof cases
    case 1
    then have "c \<in> {char_of (8::nat), char_of (9::nat), char_of (10::nat), char_of (12::nat), char_of (13::nat)}"
      using char_eq_of by blast
    then show ?thesis
      by (elim insertE emptyE) (simp_all add: escape_char_def unescape_def Let_def)
  next
    case 2
    then have "?n = 34 \<or> ?n = 92" by blast
    then have "c = char_of (34::nat) \<or> c = char_of (92::nat)" using char_eq_of by blast
    moreover have "char_of (34::nat) = CHR 0x22" "char_of (92::nat) = CHR 0x5C" by code_simp+
    ultimately have "c = CHR 0x22 \<or> c = CHR 0x5C" by (simp only:)
    then show ?thesis
      by (elim disjE) (simp_all add: escape_char_def unescape_def Let_def)
  next
    case 3
    then have "unescape (escape_char c @ r) = (char_of (16 * (?n div 16) + ?n mod 16), r)"
      by (simp add: escape_char_def unescape_def Let_def hex_value_digit)
    then show ?thesis by simp
  next
    case 4
    moreover have "c \<noteq> CHR 0x5C" using 4 by auto
    ultimately show ?thesis by (simp add: escape_char_def unescape_def Let_def)
  qed
qed

lemma escape_char_prefix: "escape_char c @ r = escape_char d @ r' \<Longrightarrow> c = d \<and> r = r'"
  by (metis prod.inject unescape_escape)

lemma escape_char_head: "\<exists>x t. escape_char c = x # t \<and> x \<noteq> CHR 0x22"
  by (auto simp: escape_char_def Let_def)

lemma escaped_prefix:
  "concat (map escape_char s) @ CHR 0x22 # r = concat (map escape_char t) @ CHR 0x22 # r' \<Longrightarrow>
   s = t \<and> r = r'"
proof (induction s arbitrary: t)
  case Nil
  show ?case
  proof (cases t)
    case (Cons d t')
    with Nil escape_char_head [of d] show ?thesis by auto
  qed (use Nil in simp)
next
  case (Cons c s)
  show ?case
  proof (cases t)
    case Nil
    with Cons.prems escape_char_head [of c] show ?thesis by auto
  next
    case (Cons d t')
    with Cons.prems have "escape_char c @ concat (map escape_char s) @ CHR 0x22 # r
        = escape_char d @ concat (map escape_char t') @ CHR 0x22 # r'"
      by simp
    from escape_char_prefix [OF this] Cons.IH [of t'] Cons show ?thesis by simp
  qed
qed

lemma json_quote_prefix: "json_quote s @ r = json_quote t @ r' \<Longrightarrow> s = t \<and> r = r'"
  using escaped_prefix [of s r t r'] by (simp add: json_quote_def)

section \<open>Values\<close>

text \<open>What may follow a value in a canonical text.\<close>

definition delimited :: "string \<Rightarrow> bool" where
  "delimited r \<longleftrightarrow> r = [] \<or> hd r \<in> {CHR '','', CHR '']'', CHR ''}''}"

fun json_doubles :: "json \<Rightarrow> bool" where
  "json_doubles (JNumber x) = is_double x"
| "json_doubles (JArray xs) = list_all json_doubles xs"
| "json_doubles (JObject es) = list_all (\<lambda>e. json_doubles (snd e)) es"
| "json_doubles _ = True"

text \<open>The value with the entries of its objects in key order.\<close>

function (sequential) canonical_form :: "json \<Rightarrow> json" where
  "canonical_form (JArray xs) = JArray (map canonical_form xs)"
| "canonical_form (JObject es) =
     JObject (map (\<lambda>e. (fst e, canonical_form (snd e))) (sort_key fst es))"
| "canonical_form v = v"
  by pat_completeness auto
termination
  by (relation "measure size") (auto simp: json_entry_size less_Suc_eq_le size_list_estimation')

lemma delimited_not_number: "delimited r \<Longrightarrow> r = [] \<or> \<not> is_number_char (hd r)"
  by (auto simp: delimited_def is_number_char_def is_digit_def)

lemma number_prefix:
  assumes "list_all is_number_char s" "list_all is_number_char t" "delimited r" "delimited r'"
    and "s @ r = t @ r'"
  shows "s = t \<and> r = r'"
proof -
  have "takeWhile is_number_char (s @ r) = s" "takeWhile is_number_char (t @ r') = t"
    using assms(1-4) delimited_not_number [of r] delimited_not_number [of r']
    by (auto simp: list_all_iff takeWhile_append takeWhile_eq_Nil_iff)
  with assms(5) show ?thesis by auto
qed

text \<open>How the text of a value starts: this tells the kinds of values apart.\<close>

fun starts_as :: "json \<Rightarrow> string \<Rightarrow> bool" where
  "starts_as JNull t = (t = ''null'')"
| "starts_as (JBool b) t = (t = (if b then ''true'' else ''false''))"
| "starts_as (JNumber x) t = (t \<noteq> [] \<and> is_number_char (hd t))"
| "starts_as (JString s) t = (t \<noteq> [] \<and> hd t = CHR 0x22)"
| "starts_as (JArray xs) t = (t \<noteq> [] \<and> hd t = CHR ''['')"
| "starts_as (JObject es) t = (t \<noteq> [] \<and> hd t = CHR ''{'')"

lemma canonical_starts: "canonicalJson v = Inr t \<Longrightarrow> json_doubles v \<Longrightarrow> starts_as v t"
proof (induction v rule: canonicalJson.induct)
  case (3 x)
  then show ?case using number_text_chars [of x] by (cases "number_text x") auto
qed (auto simp: json_quote_def)

lemma starts_not_close: "starts_as v t \<Longrightarrow> t \<noteq> [] \<and> hd t \<noteq> CHR '']'' \<and> hd t \<noteq> CHR ''}''"
  by (cases v) (auto simp: is_number_char_def is_digit_def split: if_splits)

fun json_kind :: "json \<Rightarrow> nat" where
  "json_kind JNull = 0"
| "json_kind (JBool b) = (if b then 1 else 2)"
| "json_kind (JNumber x) = 3"
| "json_kind (JString s) = 4"
| "json_kind (JArray xs) = 5"
| "json_kind (JObject es) = 6"

lemma not_number_chars [simp]:
  "\<not> is_number_char CHR ''n''" "\<not> is_number_char CHR ''t''" "\<not> is_number_char CHR ''f''"
  "\<not> is_number_char CHR 0x22" "\<not> is_number_char CHR ''[''" "\<not> is_number_char CHR ''{''"
  by (simp_all add: is_number_char_def is_digit_def)

lemma starts_kind:
  "starts_as v s \<Longrightarrow> starts_as w t \<Longrightarrow> hd s = h \<Longrightarrow> hd t = h \<Longrightarrow> json_kind v = json_kind w"
  by (cases v; cases w) (auto split: if_splits, (metis not_number_chars)+)

lemma canonical_same_kind:
  assumes "canonicalJson v = Inr s" "canonicalJson w = Inr t" "json_doubles v" "json_doubles w"
    and "s @ r = t @ r'"
  shows "json_kind v = json_kind w"
proof (rule starts_kind)
  show v: "starts_as v s" and w: "starts_as w t" using assms canonical_starts by blast+
  show "hd s = hd t" using starts_not_close [OF v] starts_not_close [OF w] assms(5)
    by (metis hd_append2)
  show "hd t = hd t" by (rule refl)
qed

text \<open>Texts joined by commas and closed by a bracket, read back item by item.\<close>

lemma joined_prefix:
  assumes "map_result f xs = Inr ts" and "map_result f ys = Inr us"
    and "\<And>x y s t r r'. x \<in> set xs \<Longrightarrow> y \<in> set ys \<Longrightarrow> f x = Inr s \<Longrightarrow> f y = Inr t \<Longrightarrow> s @ r = t @ r' \<Longrightarrow>
      delimited r \<Longrightarrow> delimited r' \<Longrightarrow> g x = g y \<and> r = r'"
    and "\<And>x s. x \<in> set xs \<union> set ys \<Longrightarrow> f x = Inr s \<Longrightarrow> s \<noteq> [] \<and> hd s \<noteq> c"
    and "c \<in> {CHR '']'', CHR ''}''}"
    and "comma_join ts @ c # r = comma_join us @ c # r'"
  shows "map g xs = map g ys \<and> r = r'"
  using assms
proof (induction xs arbitrary: ys ts us)
  case Nil
  show ?case
  proof (cases ys)
    case (Cons y ys')
    with Nil.prems obtain u us' where u: "us = u # us'" "f y = Inr u" by auto
    with Nil.prems(4) [of y u] Cons have "u \<noteq> [] \<and> hd u \<noteq> c" by simp
    with Nil.prems(1,6) u show ?thesis by (cases us'; cases u) auto
  qed (use Nil in auto)
next
  case (Cons x xs)
  note prems = Cons.prems
  from prems(1) obtain t ts' where t: "ts = t # ts'" "f x = Inr t" "map_result f xs = Inr ts'" by auto
  then have tc: "t \<noteq> [] \<and> hd t \<noteq> c" using prems(4) [of x t] by simp
  show ?case
  proof (cases ys)
    case Nil
    with prems(2,6) t tc show ?thesis by (cases ts'; cases t) auto
  next
    case (Cons y ys')
    with prems(2) obtain u us' where u: "us = u # us'" "f y = Inr u" "map_result f ys' = Inr us'" by auto
    define rt where "rt = (if ts' = [] then c # r else CHR '','' # comma_join ts' @ c # r)"
    define ru where "ru = (if us' = [] then c # r' else CHR '','' # comma_join us' @ c # r')"
    have e: "t @ rt = u @ ru" using prems(6) t(1) u(1) by (cases ts'; cases us') (auto simp: rt_def ru_def)
    have "delimited rt" "delimited ru" using prems(5) by (auto simp: rt_def ru_def delimited_def)
    with prems(3) [OF _ _ t(2) u(2) e] Cons have g: "g x = g y" "rt = ru" by auto
    have j: "comma_join ts' @ c # r = comma_join us' @ c # r'"
      using g(2) prems(5) by (auto simp: rt_def ru_def split: if_splits)
    have "map g xs = map g ys' \<and> r = r'"
    proof (rule Cons.IH [OF t(3) u(3) _ _ prems(5) j])
      show "g a = g b \<and> q = q'" if "a \<in> set xs" "b \<in> set ys'" "f a = Inr s" "f b = Inr s'"
        "s @ q = s' @ q'" "delimited q" "delimited q'" for a b s s' q q'
        using that Cons by (intro prems(3) [of a b s s' q q']) simp_all
      show "s \<noteq> [] \<and> hd s \<noteq> c" if "a \<in> set xs \<union> set ys'" "f a = Inr s" for a s
        using that Cons by (intro prems(4) [of a s]) auto
    qed
    with g Cons show ?thesis by simp
  qed
qed

lemma canonical_prefix:
  "canonicalJson v = Inr s \<Longrightarrow> canonicalJson w = Inr t \<Longrightarrow> json_doubles v \<Longrightarrow> json_doubles w \<Longrightarrow>
   s @ r = t @ r' \<Longrightarrow> delimited r \<Longrightarrow> delimited r' \<Longrightarrow>
   canonical_form v = canonical_form w \<and> r = r'"
proof (induction v arbitrary: w s t r r' rule: canonicalJson.induct)
  case 1
  from canonical_same_kind [OF "1.prems"(1-5)] have "w = JNull"
    by (cases w) (auto split: if_splits)
  with 1 show ?case by simp
next
  case (2 b)
  from canonical_same_kind [OF "2.prems"(1-5)] have "w = JBool b"
    by (cases w) (auto split: if_splits)
  with 2 show ?case by simp
next
  case (3 x)
  from canonical_same_kind [OF "3.prems"(1-5)] obtain y where w: "w = JNumber y"
    by (cases w) (auto split: if_splits)
  then obtain z where z: "y = Num z" using 3 by (cases y) auto
  have "list_all is_number_char s" "list_all is_number_char t"
    using 3 w z number_text_chars(1) by auto
  from number_prefix [OF this] 3 have "s = t \<and> r = r'" by blast
  with 3 w z number_text_inj [of x z] show ?case by auto
next
  case (5 u)
  from canonical_same_kind [OF "5.prems"(1-5)] obtain u' where "w = JString u'"
    by (cases w) (auto split: if_splits)
  with 5 json_quote_prefix [of u r u' r'] show ?case by auto
next
  case (6 xs)
  from 6 obtain ts where ts: "map_result canonicalJson xs = Inr ts" "s = ''['' @ comma_join ts @ '']''"
    by auto
  from canonical_same_kind [OF "6.prems"(1-5)] obtain ys where w: "w = JArray ys"
    by (cases w) (auto split: if_splits)
  with 6 obtain us where us: "map_result canonicalJson ys = Inr us" "t = ''['' @ comma_join us @ '']''"
    by auto
  have "map canonical_form xs = map canonical_form ys \<and> r = r'"
  proof (rule joined_prefix [OF ts(1) us(1), where c = "CHR '']''"])
    show "comma_join ts @ CHR '']'' # r = comma_join us @ CHR '']'' # r'" using 6 ts us by simp
    show "canonical_form a = canonical_form b \<and> q = q'"
      if "a \<in> set xs" "b \<in> set ys" "canonicalJson a = Inr k" "canonicalJson b = Inr l"
        "k @ q = l @ q'" "delimited q" "delimited q'" for a b k l q q'
      using that "6.prems"(3,4) w by (intro "6.IH" [of a k b l]) (auto simp: list_all_iff)
    show "k \<noteq> [] \<and> hd k \<noteq> CHR '']''" if "a \<in> set xs \<union> set ys" "canonicalJson a = Inr k" for a k
      using that "6.prems"(3,4) w canonical_starts [of a k] starts_not_close [of a k] by (auto simp: list_all_iff)
  qed simp
  with w show ?case by simp
next
  case (7 es)
  let ?f = "\<lambda>e. and_then (canonicalJson (snd e)) (\<lambda>t. Inr (json_quote (fst e) @ '':'' @ t))"
  let ?g = "\<lambda>e. (fst e, canonical_form (snd e))"
  from 7 obtain ts where ts: "map_result ?f (sort_key fst es) = Inr ts" "s = ''{'' @ comma_join ts @ ''}''"
    by auto
  from canonical_same_kind [OF "7.prems"(1-5)] obtain fs where w: "w = JObject fs"
    by (cases w) (auto split: if_splits)
  with 7 obtain us where us: "map_result ?f (sort_key fst fs) = Inr us" "t = ''{'' @ comma_join us @ ''}''"
    by auto
  have "map ?g (sort_key fst es) = map ?g (sort_key fst fs) \<and> r = r'"
  proof (rule joined_prefix [OF ts(1) us(1), where c = "CHR ''}''"])
    show "comma_join ts @ CHR ''}'' # r = comma_join us @ CHR ''}'' # r'" using 7 ts us by simp
    show "?g a = ?g b \<and> q = q'"
      if a: "a \<in> set (sort_key fst es)" and b: "b \<in> set (sort_key fst fs)"
        and k: "?f a = Inr k" and l: "?f b = Inr l"
        and e: "k @ q = l @ q'" and d: "delimited q" "delimited q'" for a b k l q q'
    proof -
      from k l obtain k' l' where k': "canonicalJson (snd a) = Inr k'" "k = json_quote (fst a) @ '':'' @ k'"
        and l': "canonicalJson (snd b) = Inr l'" "l = json_quote (fst b) @ '':'' @ l'" by auto
      with e have "fst a = fst b" "k' @ q = l' @ q'"
        using json_quote_prefix [of "fst a" "'':'' @ k' @ q" "fst b" "'':'' @ l' @ q'"] by auto
      moreover have "canonical_form (snd a) = canonical_form (snd b) \<and> q = q'"
        using a b "7.prems"(3,4) w k' l' d \<open>k' @ q = l' @ q'\<close>
        by (intro "7.IH" [of a k' "snd b" l']) (auto simp: list_all_iff)
      ultimately show ?thesis by simp
    qed
    show "k \<noteq> [] \<and> hd k \<noteq> CHR ''}''" if "?f a = Inr k" for a k
      using that by (auto simp: json_quote_def)
  qed simp
  with w show ?case by simp
qed auto

text \<open>The text depends on the canonical form alone.\<close>

lemma map_result_map: "map_result f (map g xs) = map_result (\<lambda>x. f (g x)) xs"
  by (induction xs) simp_all

lemma sort_canonical_entries:
  "sort_key fst (map (\<lambda>e. (fst e, f (snd e))) (sort_key fst es))
   = map (\<lambda>e. (fst e, f (snd e))) (sort_key fst (es :: (string \<times> json) list))"
  by (rule sort_key_id_if_sorted) (simp add: comp_def)

lemma canonicalJson_canonical_form: "canonicalJson (canonical_form v) = canonicalJson v"
proof (induction v rule: canonical_form.induct)
  case (1 xs)
  then show ?case by (simp add: map_result_map cong: map_result_cong)
next
  case (2 es)
  have "map_result (\<lambda>e. and_then (canonicalJson (canonical_form (snd e)))
          (\<lambda>t. Inr (json_quote (fst e) @ '':'' @ t))) (sort_key fst es)
        = map_result (\<lambda>e. and_then (canonicalJson (snd e)) (\<lambda>t. Inr (json_quote (fst e) @ '':'' @ t)))
          (sort_key fst es)"
    by (rule map_result_cong) (simp_all add: 2)
  then show ?case by (simp add: sort_canonical_entries map_result_map del: append_Cons)
qed simp_all

lemma canonical_text_commits:
  "canonicalJson v = Inr s \<Longrightarrow> canonicalJson w = Inr s \<Longrightarrow> json_doubles v \<Longrightarrow> json_doubles w \<Longrightarrow>
   canonical_form v = canonical_form w"
  using canonical_prefix [of v s w s "[]" "[]"] by (simp add: delimited_def)

text \<open>
  Property C23. The canonical text is a canonical form: of two values of doubles, the second has the
  text of the first exactly when they are equal up to the order of their object entries. So the
  text does not depend on the order in which an object was built, and a hash of it commits to the
  value.
\<close>

theorem canonicalJson_injective:
  assumes "canonicalJson v = Inr s" and "json_doubles v" and "json_doubles w"
  shows "canonicalJson w = Inr s \<longleftrightarrow> canonical_form v = canonical_form w"
proof
  assume "canonicalJson w = Inr s"
  then show "canonical_form v = canonical_form w"
    using canonical_text_commits assms by blast
next
  assume "canonical_form v = canonical_form w"
  then show "canonicalJson w = Inr s"
    using assms(1) canonicalJson_canonical_form [of v] canonicalJson_canonical_form [of w] by simp
qed

lemma canonicalJson_injective_witness:
  "canonicalJson (JObject [(''b'', JNull), (''a'', JArray [JBool True])]) =
   canonicalJson (JObject [(''a'', JArray [JBool True]), (''b'', JNull)])"
proof -
  have ex: "\<exists>s. canonicalJson (JObject [(''b'', JNull), (''a'', JArray [JBool True])]) = Inr s"
    by (simp add: sort_key_def)
  then obtain s where s: "canonicalJson (JObject [(''b'', JNull), (''a'', JArray [JBool True])]) = Inr s" ..
  have "canonical_form (JObject [(''b'', JNull), (''a'', JArray [JBool True])]) =
        canonical_form (JObject [(''a'', JArray [JBool True]), (''b'', JNull)])"
    by (simp add: sort_key_def)
  with s show ?thesis
    using canonicalJson_injective [OF s, of "JObject [(''a'', JArray [JBool True]), (''b'', JNull)]"] by simp
qed

end
