(* ===== verification/JsonText.thy ===== *)
theory JsonText
  imports CanonicalText
begin

text \<open>
  \<open>JSON.stringify\<close> on plain values: like the canonical text, but with the entries of an object in their own
  order, and \<open>null\<close> for a number that is not finite. For values of finite doubles the text determines
  the value, in the order of its entries.
\<close>

function json_text :: "json \<Rightarrow> string" where
  "json_text JNull = ''null''"
| "json_text (JBool b) = (if b then ''true'' else ''false'')"
| "json_text (JNumber x) = (case x of Num q \<Rightarrow> number_text q | _ \<Rightarrow> ''null'')"
| "json_text (JString s) = json_quote s"
| "json_text (JArray xs) = ''['' @ comma_join (map json_text xs) @ '']''"
| "json_text (JObject es) = ''{'' @ comma_join (map (\<lambda>e. json_quote (fst e) @ '':'' @ json_text (snd e)) es) @ ''}''"
  by pat_completeness auto
termination
  by (relation "measure size") (auto simp: json_entry_size less_Suc_eq_le size_list_estimation')

definition plain_json :: "json \<Rightarrow> bool" where
  "plain_json v \<longleftrightarrow> json_finite v \<and> json_doubles v"

lemma plain_json_simps [simp]:
  "plain_json JNull" "plain_json (JBool b)" "plain_json (JString s)"
  "plain_json (JNumber x) \<longleftrightarrow> js_is_finite x \<and> is_double x"
  "plain_json (JArray xs) \<longleftrightarrow> list_all plain_json xs"
  "plain_json (JObject es) \<longleftrightarrow> list_all (\<lambda>e. plain_json (snd e)) es"
  by (auto simp: plain_json_def list_all_iff)

lemma json_text_starts: "plain_json v \<Longrightarrow> starts_as v (json_text v)"
proof (induction v rule: json_text.induct)
  case (3 x)
  then obtain q where x: "x = Num q" by (cases x) auto
  with 3 show ?case using number_text_chars [of q] by (cases "number_text q") auto
qed (auto simp: json_quote_def)

lemma json_text_same_kind:
  assumes "plain_json v" "plain_json w" "json_text v @ r = json_text w @ r'"
  shows "json_kind v = json_kind w"
proof (rule starts_kind)
  show v: "starts_as v (json_text v)" and w: "starts_as w (json_text w)" using assms json_text_starts by blast+
  show "hd (json_text v) = hd (json_text w)"
    using starts_not_close [OF v] starts_not_close [OF w] assms(3) by (metis hd_append2)
qed simp

lemma map_result_Inr: "map_result (\<lambda>x. Inr (f x)) xs = Inr (map f xs)"
  by (induction xs) simp_all

text \<open>Texts joined by commas, for total readers.\<close>

lemma joined_texts:
  assumes "\<And>x y r r'. x \<in> set xs \<Longrightarrow> y \<in> set ys \<Longrightarrow> f x @ r = f y @ r' \<Longrightarrow> delimited r \<Longrightarrow> delimited r' \<Longrightarrow>
      x = y \<and> r = r'"
    and "\<And>x. x \<in> set xs \<union> set ys \<Longrightarrow> f x \<noteq> [] \<and> hd (f x) \<noteq> c"
    and "c \<in> {CHR '']'', CHR ''}''}"
    and "comma_join (map f xs) @ c # r = comma_join (map f ys) @ c # r'"
  shows "xs = ys \<and> r = r'"
proof -
  have "map (\<lambda>x. x) xs = map (\<lambda>x. x) ys \<and> r = r'"
  proof (rule joined_prefix [OF map_result_Inr map_result_Inr _ _ assms(3,4)])
    show "x = y \<and> q = q'" if "x \<in> set xs" "y \<in> set ys" "Inr (f x) = (Inr s :: string result)" "Inr (f y) = (Inr t :: string result)"
      "s @ q = t @ q'" "delimited q" "delimited q'" for x y s t q q'
      using that by (intro assms(1)) simp_all
    show "s \<noteq> [] \<and> hd s \<noteq> c" if "x \<in> set xs \<union> set ys" "Inr (f x) = (Inr s :: string result)" for x s
      using that(2) assms(2) [OF that(1)] by simp
  qed
  then show ?thesis by simp
qed

lemma json_text_prefix:
  "plain_json v \<Longrightarrow> plain_json w \<Longrightarrow> json_text v @ r = json_text w @ r' \<Longrightarrow> delimited r \<Longrightarrow> delimited r' \<Longrightarrow>
   v = w \<and> r = r'"
proof (induction v arbitrary: w r r' rule: json_text.induct)
  case 1
  from json_text_same_kind [OF "1.prems"(1-3)] have "w = JNull" by (cases w) (auto split: if_splits)
  with 1 show ?case by simp
next
  case (2 b)
  from json_text_same_kind [OF "2.prems"(1-3)] have "w = JBool b" by (cases w) (auto split: if_splits)
  with 2 show ?case by simp
next
  case (3 x)
  from json_text_same_kind [OF "3.prems"(1-3)] obtain y where w: "w = JNumber y"
    by (cases w) (auto split: if_splits)
  obtain p q where n: "x = Num p" "y = Num q" using "3.prems"(1,2) w by (cases x; cases y) auto
  have "list_all is_number_char (number_text p)" "list_all is_number_char (number_text q)"
    using "3.prems"(1,2) w n number_text_chars(1) by auto
  from number_prefix [OF this] 3 w n have "number_text p = number_text q \<and> r = r'" by simp
  with 3 w n number_text_inj [of p q] show ?case by simp
next
  case (4 u)
  from json_text_same_kind [OF "4.prems"(1-3)] obtain u' where "w = JString u'" by (cases w) (auto split: if_splits)
  with 4 json_quote_prefix [of u r u' r'] show ?case by simp
next
  case (5 xs)
  from json_text_same_kind [OF "5.prems"(1-3)] obtain ys where w: "w = JArray ys" by (cases w) (auto split: if_splits)
  have "xs = ys \<and> r = r'"
  proof (rule joined_texts [where f = json_text and c = "CHR '']''"])
    show "comma_join (map json_text xs) @ CHR '']'' # r = comma_join (map json_text ys) @ CHR '']'' # r'"
      using 5 w by simp
    show "a = b \<and> q = q'" if "a \<in> set xs" "b \<in> set ys" "json_text a @ q = json_text b @ q'" "delimited q" "delimited q'"
      for a b q q' using that "5.prems"(1,2) w by (intro "5.IH") (auto simp: list_all_iff)
    show "json_text a \<noteq> [] \<and> hd (json_text a) \<noteq> CHR '']''" if "a \<in> set xs \<union> set ys" for a
      using that "5.prems"(1,2) w json_text_starts [of a] starts_not_close [of a] by (auto simp: list_all_iff)
  qed simp
  with w show ?case by simp
next
  case (6 es)
  let ?f = "\<lambda>e. json_quote (fst e) @ '':'' @ json_text (snd e)"
  from json_text_same_kind [OF "6.prems"(1-3)] obtain fs where w: "w = JObject fs" by (cases w) (auto split: if_splits)
  have "es = fs \<and> r = r'"
  proof (rule joined_texts [where f = ?f and c = "CHR ''}''"])
    show "comma_join (map ?f es) @ CHR ''}'' # r = comma_join (map ?f fs) @ CHR ''}'' # r'" using 6 w by simp
    show "a = b \<and> q = q'" if "a \<in> set es" "b \<in> set fs" "?f a @ q = ?f b @ q'" "delimited q" "delimited q'"
      for a b q q'
    proof -
      have "fst a = fst b" "json_text (snd a) @ q = json_text (snd b) @ q'"
        using that(3) json_quote_prefix [of "fst a" "'':'' @ json_text (snd a) @ q" "fst b" "'':'' @ json_text (snd b) @ q'"]
        by auto
      moreover have "snd a = snd b \<and> q = q'"
        using that "6.prems"(1,2) w calculation(2) by (intro "6.IH" [of a "snd b"]) (auto simp: list_all_iff)
      ultimately show ?thesis by (simp add: prod_eq_iff)
    qed
    show "?f a \<noteq> [] \<and> hd (?f a) \<noteq> CHR ''}''" for a by (simp add: json_quote_def)
  qed simp
  with w show ?case by simp
qed

lemma json_text_inj: "plain_json v \<Longrightarrow> plain_json w \<Longrightarrow> json_text v = json_text w \<longleftrightarrow> v = w"
  using json_text_prefix [of v w "[]" "[]"] by (auto simp: delimited_def)

end
