(* ===== verification/Shared.thy ===== *)
theory Shared
  imports JsNumber Timestamps
begin

text \<open>
  The guards of \<open>packages/core/src/v2/shared.ts\<close> that every aggregate uses, and the contract they
  serve: optimistic concurrency. An aggregate carries a version, a command names the version it
  was decided on, and a command takes effect only on that version and moves it by one.

  The contract is a locale, in two strengths: an aggregate whose commands may also be answered
  without effect (an idempotent replay), and one whose successful commands always take effect.
  Each aggregate of the core interprets one of them on its own commands.
\<close>

section \<open>Guards\<close>

definition requireNonEmpty :: "string \<Rightarrow> unit result" where
  "requireNonEmpty v = (if js_trim v = [] then fail ''INVALID_DOMAIN_VALUE'' else Inr ())"

definition assertAggregateVersion :: "js_number \<Rightarrow> js_number \<Rightarrow> string \<Rightarrow> unit result" where
  "assertAggregateVersion actual expected code =
     (if \<not> js_eq actual expected then fail code else Inr ())"

lemma requireNonEmpty_Inr [simp]: "requireNonEmpty v = Inr u \<longleftrightarrow> js_trim v \<noteq> []"
  by (simp add: requireNonEmpty_def)

lemma assertAggregateVersion_Inr [simp]:
  "assertAggregateVersion a e c = Inr u \<longleftrightarrow> js_eq a e"
  by (simp add: assertAggregateVersion_def)

text \<open>The length of an array as a number.\<close>

abbreviation len_num :: "'a list \<Rightarrow> js_number" where
  "len_num xs \<equiv> int_num (int (length xs))"

section \<open>Sequences of commands\<close>

fun run_commands :: "('s \<Rightarrow> 'c \<Rightarrow> 's result) \<Rightarrow> 's \<Rightarrow> 'c list \<Rightarrow> 's result" where
  "run_commands f s [] = Inr s"
| "run_commands f s (c # cs) = and_then (f s c) (\<lambda>s'. run_commands f s' cs)"

lemma run_commands_append:
  "run_commands f s (cs @ ds) = and_then (run_commands f s cs) (\<lambda>s'. run_commands f s' ds)"
  by (induction cs arbitrary: s) (simp_all add: and_then_assoc)

text \<open>An invariant of every command is an invariant of a sequence.\<close>

lemma run_commands_invariant:
  assumes "run_commands f s cs = Inr s'" and "P s"
    and "\<And>s c s'. P s \<Longrightarrow> f s c = Inr s' \<Longrightarrow> P s'"
  shows "P s'"
  using assms(1,2)
proof (induction cs arbitrary: s)
  case Nil
  then show ?case by simp
next
  case (Cons c cs)
  then show ?case using assms(3) by auto
qed

section \<open>Optimistic concurrency\<close>

locale optimistic_aggregate =
  fixes version :: "'s \<Rightarrow> js_number"
    and expected :: "'c \<Rightarrow> js_number"
    and command :: "'s \<Rightarrow> 'c \<Rightarrow> 's result"
  assumes effect: "command s c = Inr s' \<Longrightarrow> s' \<noteq> s \<Longrightarrow>
      js_eq (version s) (expected c) \<and> version s' = js_add (version s) (Num 1)"
begin

lemma stale_has_no_effect:
  "command s c = Inr s' \<Longrightarrow> \<not> js_eq (version s) (expected c) \<Longrightarrow> s' = s"
  using effect by blast

text \<open>Of two commands decided on the same version, at most the first takes effect.\<close>

lemma no_lost_update:
  assumes "safe_count (version s)" and "command s c = Inr s1" and "s1 \<noteq> s"
    and "command s1 d = Inr s2" and "expected d = expected c"
  shows "s2 = s1"
proof (rule stale_has_no_effect [OF assms(4)])
  have "version s = expected c" "version s1 = js_add (version s) (Num 1)"
    using effect [OF assms(2,3)] by (auto dest: js_eq_imp_eq)
  then show "\<not> js_eq (version s1) (expected d)"
    using safe_count_inc_neq [OF assms(1)] assms(5) by (auto dest: js_eq_imp_eq)
qed

lemma version_step:
  assumes "command s c = Inr s'" and "version s = int_num n" and "0 \<le> n" and "n < 2 ^ 53"
  shows "\<exists>m. version s' = int_num m \<and> n \<le> m \<and> m \<le> n + 1"
proof (cases "s' = s")
  case False
  then have "version s' = js_add (version s) (Num 1)" using effect assms(1) by blast
  then have "version s' = int_num (n + 1)" using assms by (simp add: js_add_int_one del: js_add.simps)
  then show ?thesis by (intro exI [of _ "n + 1"]) simp
qed (use assms in auto)

text \<open>Over a sequence of commands the version never falls and grows by at most one a command.\<close>

lemma version_run:
  "run_commands command s cs = Inr s' \<Longrightarrow> version s = int_num n \<Longrightarrow> 0 \<le> n \<Longrightarrow>
   n + int (length cs) \<le> 2 ^ 53 \<Longrightarrow>
   \<exists>m. version s' = int_num m \<and> n \<le> m \<and> m \<le> n + int (length cs)"
proof (induction cs arbitrary: s n)
  case Nil
  then show ?case by simp
next
  case (Cons c cs)
  then obtain s1 where s1: "command s c = Inr s1" "run_commands command s1 cs = Inr s'" by auto
  obtain k where k: "version s1 = int_num k" "n \<le> k" "k \<le> n + 1"
    using version_step [OF s1(1) Cons.prems(2)] Cons.prems(3,4) by auto
  with Cons.IH [OF s1(2) k(1)] Cons.prems(3,4) show ?case by fastforce
qed

end

locale versioned_aggregate = optimistic_aggregate +
  assumes always: "command s c = Inr s' \<Longrightarrow>
      js_eq (version s) (expected c) \<and> version s' = js_add (version s) (Num 1)"
begin

lemma stale_rejected: "\<not> js_eq (version s) (expected c) \<Longrightarrow> \<not> succeeds (command s c)"
  using always by (auto simp: succeeds_iff)

lemma second_rejected:
  assumes "safe_count (version s)" and "command s c = Inr s1" and "expected d = expected c"
  shows "\<not> succeeds (command s1 d)"
proof (rule stale_rejected)
  have "version s = expected c" "version s1 = js_add (version s) (Num 1)"
    using always [OF assms(2)] by (auto dest: js_eq_imp_eq)
  then show "\<not> js_eq (version s1) (expected d)"
    using safe_count_inc_neq [OF assms(1)] assms(3) by (auto dest: js_eq_imp_eq)
qed

text \<open>After a sequence of commands the version counts them.\<close>

lemma version_counts:
  "run_commands command s cs = Inr s' \<Longrightarrow> version s = int_num n \<Longrightarrow> 0 \<le> n \<Longrightarrow>
   n + int (length cs) \<le> 2 ^ 53 \<Longrightarrow> version s' = int_num (n + int (length cs))"
proof (induction cs arbitrary: s n)
  case Nil
  then show ?case by simp
next
  case (Cons c cs)
  then obtain s1 where s1: "command s c = Inr s1" "run_commands command s1 cs = Inr s'" by auto
  have "version s1 = int_num (n + 1)"
    using always [OF s1(1)] Cons.prems by (simp add: js_add_int_one del: js_add.simps of_int_add)
  with Cons.IH [OF s1(2), of "n + 1"] Cons.prems show ?case by (simp add: add.assoc)
qed

end

end
