(* ===== verification/ExerciseRun.thy ===== *)
theory ExerciseRun
  imports Shared
begin

text \<open>
  \<open>packages/core/src/v2/exercise-run.ts\<close>: the life cycle of an exercise run, from its creation
  through the forming of its team to completion, cancellation or failure, and the assessment of
  the required-role quorum that lets a run become ready.
\<close>

section \<open>Data\<close>

datatype exercise_run_state =
    CREATED | FORMING | READY | RUNNING | PAUSED | COMPLETING | COMPLETED | CANCELLED | FAILED

datatype compatibility_mode = Collaborative_v2 | Legacy_v1

record exercise_run =
  er_id :: string
  er_scenarioVersionId :: string
  er_state :: exercise_run_state
  er_virtualTime :: string
  er_version :: js_number
  er_compatibilityMode :: compatibility_mode

record run_role_slot =
  slot_id :: string
  slot_roleId :: string
  slot_required :: bool

datatype assignment_kind = Primary | Assistant

record run_role_assignment =
  asg_roleSlotId :: string
  asg_runAgentId :: string
  asg_kind :: assignment_kind
  asg_active :: bool

datatype quorum_violation =
    REQUIRED_ROLE_PRIMARY_NOT_EXACTLY_ONE
  | REQUIRED_ROLE_AGENT_NOT_DISTINCT
  | MIN_DISTINCT_REQUIRED_AGENTS_NOT_MET

record quorum_assessment =
  qa_ready :: bool
  qa_requiredRoleSlotCount :: js_number
  qa_assignedRequiredRoleSlotCount :: js_number
  qa_distinctRequiredRunAgentCount :: js_number
  qa_violations :: "quorum_violation list"

section \<open>Operations\<close>

definition nextRun :: "exercise_run \<Rightarrow> exercise_run_state \<Rightarrow> exercise_run" where
  "nextRun run state = run\<lparr>er_state := state, er_version := js_add (er_version run) (Num 1)\<rparr>"

definition transitionRun ::
  "exercise_run \<Rightarrow> js_number \<Rightarrow> exercise_run_state list \<Rightarrow> exercise_run_state \<Rightarrow> exercise_run result" where
  "transitionRun run expectedVersion from to =
     and_then (assertAggregateVersion (er_version run) expectedVersion ''RUN_VERSION_CONFLICT'')
       (\<lambda>_. if er_state run \<notin> set from then fail ''RUN_STATE_CONFLICT''
            else Inr (nextRun run to))"

definition createExerciseRun ::
  "string \<Rightarrow> string \<Rightarrow> string \<Rightarrow> compatibility_mode \<Rightarrow> exercise_run result" where
  "createExerciseRun ident scenarioVersionId virtualStartAt mode =
     and_then (requireNonEmpty ident) (\<lambda>_.
     and_then (requireNonEmpty scenarioVersionId) (\<lambda>_.
     and_then (toEpoch virtualStartAt) (\<lambda>_.
       Inr \<lparr>er_id = ident, er_scenarioVersionId = scenarioVersionId, er_state = CREATED,
            er_virtualTime = virtualStartAt, er_version = Num 1, er_compatibilityMode = mode\<rparr>)))"

definition minimum_allowed :: "compatibility_mode \<Rightarrow> nat" where
  "minimum_allowed mode = (if mode = Legacy_v1 then 1 else 2)"

definition slot_primaries :: "run_role_assignment list \<Rightarrow> run_role_slot \<Rightarrow> run_role_assignment list" where
  "slot_primaries assignments slot =
     filter (\<lambda>a. asg_active a \<and> asg_kind a = Primary \<and> asg_roleSlotId a = slot_id slot) assignments"

text \<open>The loop over the required slots: whether some slot has not exactly one primary, and the
  primaries of the others.\<close>

fun quorum_loop ::
  "run_role_assignment list \<Rightarrow> run_role_slot list \<Rightarrow> bool \<Rightarrow> run_role_assignment list \<Rightarrow>
   bool \<times> run_role_assignment list" where
  "quorum_loop assignments [] invalid valid = (invalid, valid)"
| "quorum_loop assignments (slot # slots) invalid valid =
     (case slot_primaries assignments slot of
        [primary] \<Rightarrow> quorum_loop assignments slots invalid (valid @ [primary])
      | _ \<Rightarrow> quorum_loop assignments slots True valid)"

definition assessRequiredRoleQuorum ::
  "run_role_slot list \<Rightarrow> run_role_assignment list \<Rightarrow> js_number \<Rightarrow> compatibility_mode \<Rightarrow>
   quorum_assessment result" where
  "assessRequiredRoleQuorum roleSlots assignments minDistinct mode =
     (let minimumAllowed = int_num (int (minimum_allowed mode)) in
      if \<not> js_is_integer minDistinct \<or> js_lt minDistinct minimumAllowed
      then fail ''INVALID_REQUIRED_AGENT_QUORUM''
      else
        let requiredSlots = filter slot_required roleSlots in
        if js_lt (len_num requiredSlots) minimumAllowed then fail ''INVALID_REQUIRED_ROLE_SLOTS''
        else
          let (cardinalityInvalid, valid) = quorum_loop assignments requiredSlots False [];
              distinctAgents = js_set (map asg_runAgentId valid);
              violations =
                (if cardinalityInvalid then [REQUIRED_ROLE_PRIMARY_NOT_EXACTLY_ONE] else [])
                @ (if length valid = length requiredSlots \<and> length distinctAgents \<noteq> length valid
                   then [REQUIRED_ROLE_AGENT_NOT_DISTINCT] else [])
                @ (if js_lt (len_num distinctAgents) minDistinct
                   then [MIN_DISTINCT_REQUIRED_AGENTS_NOT_MET] else [])
          in Inr \<lparr>qa_ready = (violations = []), qa_requiredRoleSlotCount = len_num requiredSlots,
                  qa_assignedRequiredRoleSlotCount = len_num valid,
                  qa_distinctRequiredRunAgentCount = len_num distinctAgents,
                  qa_violations = violations\<rparr>)"

definition beginExerciseRunFormation :: "exercise_run \<Rightarrow> js_number \<Rightarrow> exercise_run result" where
  "beginExerciseRunFormation run v = transitionRun run v [CREATED] FORMING"

record ready_input =
  ri_expectedVersion :: js_number
  ri_roleSlots :: "run_role_slot list"
  ri_assignments :: "run_role_assignment list"
  ri_minDistinctRequiredAgents :: js_number

definition markExerciseRunReady :: "exercise_run \<Rightarrow> ready_input \<Rightarrow> exercise_run result" where
  "markExerciseRunReady run input =
     and_then (assertAggregateVersion (er_version run) (ri_expectedVersion input) ''RUN_VERSION_CONFLICT'')
       (\<lambda>_. if er_state run \<noteq> FORMING then fail ''RUN_STATE_CONFLICT''
            else and_then
              (assessRequiredRoleQuorum (ri_roleSlots input) (ri_assignments input)
                 (ri_minDistinctRequiredAgents input) (er_compatibilityMode run))
              (\<lambda>assessment. if \<not> qa_ready assessment then fail ''RUN_ROLE_QUORUM_NOT_MET''
                            else Inr (nextRun run READY)))"

definition startExerciseRun :: "exercise_run \<Rightarrow> js_number \<Rightarrow> exercise_run result" where
  "startExerciseRun run v = transitionRun run v [READY] RUNNING"

definition pauseExerciseRun :: "exercise_run \<Rightarrow> js_number \<Rightarrow> exercise_run result" where
  "pauseExerciseRun run v = transitionRun run v [RUNNING] PAUSED"

definition resumeExerciseRun :: "exercise_run \<Rightarrow> js_number \<Rightarrow> exercise_run result" where
  "resumeExerciseRun run v = transitionRun run v [PAUSED] RUNNING"

definition beginExerciseRunCompletion :: "exercise_run \<Rightarrow> js_number \<Rightarrow> exercise_run result" where
  "beginExerciseRunCompletion run v = transitionRun run v [RUNNING] COMPLETING"

definition completeExerciseRun :: "exercise_run \<Rightarrow> js_number \<Rightarrow> exercise_run result" where
  "completeExerciseRun run v = transitionRun run v [COMPLETING] COMPLETED"

definition cancelExerciseRun :: "exercise_run \<Rightarrow> js_number \<Rightarrow> exercise_run result" where
  "cancelExerciseRun run v =
     transitionRun run v [CREATED, FORMING, READY, RUNNING, PAUSED, COMPLETING] CANCELLED"

definition failExerciseRun :: "exercise_run \<Rightarrow> js_number \<Rightarrow> exercise_run result" where
  "failExerciseRun run v =
     transitionRun run v [CREATED, FORMING, READY, RUNNING, PAUSED, COMPLETING] FAILED"

section \<open>Commands\<close>

datatype run_command =
    BeginFormation js_number | MarkReady ready_input | StartRun js_number | PauseRun js_number
  | ResumeRun js_number | BeginCompletion js_number | CompleteRun js_number
  | CancelRun js_number | FailRun js_number

fun run_command_version :: "run_command \<Rightarrow> js_number" where
  "run_command_version (BeginFormation v) = v"
| "run_command_version (MarkReady i) = ri_expectedVersion i"
| "run_command_version (StartRun v) = v"
| "run_command_version (PauseRun v) = v"
| "run_command_version (ResumeRun v) = v"
| "run_command_version (BeginCompletion v) = v"
| "run_command_version (CompleteRun v) = v"
| "run_command_version (CancelRun v) = v"
| "run_command_version (FailRun v) = v"

fun exec_run :: "exercise_run \<Rightarrow> run_command \<Rightarrow> exercise_run result" where
  "exec_run run (BeginFormation v) = beginExerciseRunFormation run v"
| "exec_run run (MarkReady i) = markExerciseRunReady run i"
| "exec_run run (StartRun v) = startExerciseRun run v"
| "exec_run run (PauseRun v) = pauseExerciseRun run v"
| "exec_run run (ResumeRun v) = resumeExerciseRun run v"
| "exec_run run (BeginCompletion v) = beginExerciseRunCompletion run v"
| "exec_run run (CompleteRun v) = completeExerciseRun run v"
| "exec_run run (CancelRun v) = cancelExerciseRun run v"
| "exec_run run (FailRun v) = failExerciseRun run v"

text \<open>The edges of the life cycle.\<close>

inductive run_edge :: "exercise_run_state \<Rightarrow> run_command \<Rightarrow> exercise_run_state \<Rightarrow> bool" where
  "run_edge CREATED (BeginFormation v) FORMING"
| "run_edge FORMING (MarkReady i) READY"
| "run_edge READY (StartRun v) RUNNING"
| "run_edge RUNNING (PauseRun v) PAUSED"
| "run_edge PAUSED (ResumeRun v) RUNNING"
| "run_edge RUNNING (BeginCompletion v) COMPLETING"
| "run_edge COMPLETING (CompleteRun v) COMPLETED"
| "s \<notin> {COMPLETED, CANCELLED, FAILED} \<Longrightarrow> run_edge s (CancelRun v) CANCELLED"
| "s \<notin> {COMPLETED, CANCELLED, FAILED} \<Longrightarrow> run_edge s (FailRun v) FAILED"

inductive_simps run_edge_simps [simp]:
  "run_edge s (BeginFormation v) t" "run_edge s (MarkReady i) t" "run_edge s (StartRun v) t"
  "run_edge s (PauseRun v) t" "run_edge s (ResumeRun v) t" "run_edge s (BeginCompletion v) t"
  "run_edge s (CompleteRun v) t" "run_edge s (CancelRun v) t" "run_edge s (FailRun v) t"

lemmas run_operation_defs =
  beginExerciseRunFormation_def markExerciseRunReady_def startExerciseRun_def pauseExerciseRun_def
  resumeExerciseRun_def beginExerciseRunCompletion_def completeExerciseRun_def
  cancelExerciseRun_def failExerciseRun_def

lemma transitionRun_Inr [simp]:
  "transitionRun run v from to = Inr run' \<longleftrightarrow>
     js_eq (er_version run) v \<and> er_state run \<in> set from \<and> run' = nextRun run to"
  by (auto simp: transitionRun_def)

lemma nextRun_simps [simp]:
  "er_state (nextRun run s) = s" "er_version (nextRun run s) = js_add (er_version run) (Num 1)"
  "er_id (nextRun run s) = er_id run" "er_scenarioVersionId (nextRun run s) = er_scenarioVersionId run"
  "er_virtualTime (nextRun run s) = er_virtualTime run"
  "er_compatibilityMode (nextRun run s) = er_compatibilityMode run"
  by (simp_all add: nextRun_def)

lemma not_final_iff: "s \<notin> {COMPLETED, CANCELLED, FAILED} \<longleftrightarrow>
    s \<in> set [CREATED, FORMING, READY, RUNNING, PAUSED, COMPLETING]"
  by (cases s) auto

text \<open>What a successful command did, in one statement.\<close>

lemma exec_run_effect:
  assumes "exec_run run c = Inr run'"
  shows "js_eq (er_version run) (run_command_version c)"
    and "run' = nextRun run (er_state run')"
    and "run_edge (er_state run) c (er_state run')"
  using assms by (cases c; auto simp: run_operation_defs)+

interpretation run_agg: versioned_aggregate er_version run_command_version exec_run
proof unfold_locales
  show "js_eq (er_version s) (run_command_version c) \<and> er_version s' = js_add (er_version s) (Num 1)"
    if "exec_run s c = Inr s'" for s c s'
    using exec_run_effect [OF that] by (metis nextRun_simps(2))
qed (use exec_run_effect nextRun_simps(2) in metis)

section \<open>The quorum assessment against its specification\<close>

text \<open>
  The abstract quorum: every required slot has exactly one active primary, no two required slots
  share their agent, and at least the demanded number of agents takes part.
\<close>

definition slot_agent :: "run_role_assignment list \<Rightarrow> run_role_slot \<Rightarrow> string" where
  "slot_agent assignments s = asg_runAgentId (hd (slot_primaries assignments s))"

definition quorum_met :: "run_role_slot list \<Rightarrow> run_role_assignment list \<Rightarrow> js_number \<Rightarrow> bool" where
  "quorum_met roleSlots assignments minDistinct \<longleftrightarrow>
     (let required = filter slot_required roleSlots in
      (\<forall>s \<in> set required. length (slot_primaries assignments s) = 1)
      \<and> distinct (map (slot_agent assignments) required)
      \<and> \<not> js_lt (len_num required) minDistinct)"

lemma quorum_loop_eq:
  "quorum_loop assignments slots invalid valid =
     (invalid \<or> (\<exists>s \<in> set slots. length (slot_primaries assignments s) \<noteq> 1),
      valid @ map (\<lambda>s. hd (slot_primaries assignments s))
        (filter (\<lambda>s. length (slot_primaries assignments s) = 1) slots))"
proof (induction slots arbitrary: invalid valid)
  case Nil
  then show ?case by simp
next
  case (Cons s slots)
  consider (one) p where "slot_primaries assignments s = [p]"
    | (none) "slot_primaries assignments s = []"
    | (many) p q ps where "slot_primaries assignments s = p # q # ps"
    by (metis list.exhaust)
  then show ?case by cases (simp_all add: Cons.IH)
qed

lemma assess_Inr:
  "assessRequiredRoleQuorum roleSlots assignments m mode = Inr a \<Longrightarrow>
   js_is_integer m \<and> \<not> js_lt m (int_num (int (minimum_allowed mode)))
   \<and> \<not> js_lt (len_num (filter slot_required roleSlots)) (int_num (int (minimum_allowed mode)))"
  by (auto simp: assessRequiredRoleQuorum_def Let_def split: if_splits)

text \<open>
  The assessment reports a run ready exactly when the quorum holds: each required
  role has one active primary agent, these agents are distinct, and there are enough of them.
\<close>

theorem quorum_ready_iff:
  assumes "assessRequiredRoleQuorum roleSlots assignments m mode = Inr a"
  shows "qa_ready a \<longleftrightarrow> quorum_met roleSlots assignments m"
proof -
  let ?R = "filter slot_required roleSlots"
  let ?one = "\<lambda>s. length (slot_primaries assignments s) = 1"
  let ?valid = "map (\<lambda>s. hd (slot_primaries assignments s)) (filter ?one ?R)"
  let ?agents = "js_set (map asg_runAgentId ?valid)"
  have loop: "quorum_loop assignments ?R False [] = (\<not> (\<forall>s \<in> set ?R. ?one s), ?valid)"
    by (simp add: quorum_loop_eq)
  have "qa_ready a \<longleftrightarrow> (\<forall>s \<in> set ?R. ?one s)
      \<and> \<not> (length ?valid = length ?R \<and> length ?agents \<noteq> length ?valid)
      \<and> \<not> js_lt (len_num ?agents) m"
    using assms unfolding assessRequiredRoleQuorum_def Let_def loop
    by (auto split: if_splits)
  also have "\<dots> \<longleftrightarrow> quorum_met roleSlots assignments m"
  proof (cases "\<forall>s \<in> set ?R. ?one s")
    case True
    then have f: "filter ?one ?R = ?R" by (intro filter_True) blast
    have ag: "map asg_runAgentId ?valid = map (slot_agent assignments) ?R"
      unfolding f by (simp add: slot_agent_def)
    have v: "length ?valid = length ?R" unfolding f by simp
    have d: "length ?agents = length ?valid \<longleftrightarrow> distinct (map (slot_agent assignments) ?R)"
      unfolding ag v by (metis length_js_set_eq length_map)
    show ?thesis
    proof (cases "length ?agents = length ?valid")
      case True
      with d v \<open>\<forall>s \<in> set ?R. ?one s\<close> show ?thesis unfolding quorum_met_def Let_def by metis
    next
      case False
      with d v show ?thesis unfolding quorum_met_def Let_def by metis
    qed
  next
    case False
    then show ?thesis unfolding quorum_met_def Let_def by blast
  qed
  finally show ?thesis .
qed

definition demo_slots :: "run_role_slot list" where
  "demo_slots = [\<lparr>slot_id = ''s1'', slot_roleId = ''r1'', slot_required = True\<rparr>,
                 \<lparr>slot_id = ''s2'', slot_roleId = ''r2'', slot_required = True\<rparr>]"

definition demo_assignments :: "run_role_assignment list" where
  "demo_assignments =
     [\<lparr>asg_roleSlotId = ''s1'', asg_runAgentId = ''a'', asg_kind = Primary, asg_active = True\<rparr>,
      \<lparr>asg_roleSlotId = ''s2'', asg_runAgentId = ''b'', asg_kind = Primary, asg_active = True\<rparr>]"

lemma demo_assessment:
  "assessRequiredRoleQuorum demo_slots demo_assignments (Num 2) Collaborative_v2 =
     Inr \<lparr>qa_ready = True, qa_requiredRoleSlotCount = Num 2, qa_assignedRequiredRoleSlotCount = Num 2,
          qa_distinctRequiredRunAgentCount = Num 2, qa_violations = []\<rparr>"
  by (simp add: assessRequiredRoleQuorum_def Let_def minimum_allowed_def demo_slots_def
      demo_assignments_def slot_primaries_def js_set_def)

lemma quorum_ready_iff_witness: "quorum_met demo_slots demo_assignments (Num 2)"
  using quorum_ready_iff [OF demo_assessment] by simp

section \<open>Safety of the life cycle\<close>

lemma ready_command_quorum:
  assumes "exec_run run (MarkReady i) = Inr run'"
  shows "quorum_met (ri_roleSlots i) (ri_assignments i) (ri_minDistinctRequiredAgents i)"
  using assms quorum_ready_iff by (auto simp: markExerciseRunReady_def)

definition past_forming :: "exercise_run_state \<Rightarrow> bool" where
  "past_forming s \<longleftrightarrow> s \<in> {READY, RUNNING, PAUSED, COMPLETING, COMPLETED}"

lemma enters_past_forming:
  "exec_run run c = Inr run' \<Longrightarrow> \<not> past_forming (er_state run) \<Longrightarrow> past_forming (er_state run') \<Longrightarrow>
   \<exists>i. c = MarkReady i"
  by (drule exec_run_effect(3)) (cases c; auto simp: past_forming_def)

text \<open>
  Property C11. No run gets going without its team: whenever a sequence of commands takes a new run
  to a state in which it is ready, running, paused, completing or completed, the sequence contains
  a readiness command whose role slots and assignments met the required-role quorum.
\<close>

theorem run_needs_quorum:
  assumes "createExerciseRun ident scenario start mode = Inr run0"
    and "run_commands exec_run run0 cs = Inr run" and "past_forming (er_state run)"
  shows "\<exists>i. MarkReady i \<in> set cs
    \<and> quorum_met (ri_roleSlots i) (ri_assignments i) (ri_minDistinctRequiredAgents i)"
proof -
  have "er_state run0 = CREATED" using assms(1) by (auto simp: createExerciseRun_def)
  then have "\<not> past_forming (er_state run0)" by (simp add: past_forming_def)
  with assms(2) show ?thesis
  proof (induction cs arbitrary: run0)
    case Nil
    with assms(3) show ?case by simp
  next
    case (Cons c cs)
    then obtain run1 where r: "exec_run run0 c = Inr run1" "run_commands exec_run run1 cs = Inr run"
      by auto
    show ?case
    proof (cases "past_forming (er_state run1)")
      case True
      with enters_past_forming [OF r(1) Cons.prems(2)] obtain i where "c = MarkReady i" by blast
      with ready_command_quorum r(1) show ?thesis by auto
    next
      case False
      with Cons.IH [OF r(2)] show ?thesis by auto
    qed
  qed
qed

definition demo_run :: exercise_run where
  "demo_run = \<lparr>er_id = ''run'', er_scenarioVersionId = ''scn'', er_state = CREATED,
     er_virtualTime = ''1970-01-01T00:00Z'', er_version = Num 1,
     er_compatibilityMode = Collaborative_v2\<rparr>"

lemma demo_run_created:
  "createExerciseRun ''run'' ''scn'' ''1970-01-01T00:00Z'' Collaborative_v2 = Inr demo_run"
  by (simp add: createExerciseRun_def requireNonEmpty_def toEpoch_unix demo_run_def js_trim_def
      is_js_space_def)

definition demo_commands :: "run_command list" where
  "demo_commands =
     [BeginFormation (Num 1),
      MarkReady \<lparr>ri_expectedVersion = Num 2, ri_roleSlots = demo_slots, ri_assignments = demo_assignments,
                 ri_minDistinctRequiredAgents = Num 2\<rparr>,
      StartRun (Num 3)]"

lemma demo_run_started:
  "run_commands exec_run demo_run demo_commands
     = Inr (demo_run\<lparr>er_state := RUNNING, er_version := Num 4\<rparr>)"
  by (simp add: demo_commands_def run_operation_defs transitionRun_def assertAggregateVersion_def
      nextRun_def demo_run_def demo_assessment)

lemma run_needs_quorum_witness:
  "\<exists>i. MarkReady i \<in> set demo_commands
    \<and> quorum_met (ri_roleSlots i) (ri_assignments i) (ri_minDistinctRequiredAgents i)"
  using run_needs_quorum [OF demo_run_created demo_run_started] by (simp add: past_forming_def)

text \<open>
  Property C38. The life cycle is exactly its transition table: a command succeeds if and only if it
  names the current version, the table has its edge from the current state, and, for the
  readiness command, the quorum is assessed ready; the new state is the edge's target and the
  version moves by one, and no other field changes. Completed, cancelled and failed runs accept
  no command.
\<close>

theorem run_command_iff:
  "exec_run run c = Inr run' \<longleftrightarrow>
     js_eq (er_version run) (run_command_version c)
     \<and> run_edge (er_state run) c (er_state run')
     \<and> run' = run\<lparr>er_state := er_state run', er_version := js_add (er_version run) (Num 1)\<rparr>
     \<and> (case c of
          MarkReady i \<Rightarrow> (case assessRequiredRoleQuorum (ri_roleSlots i) (ri_assignments i)
              (ri_minDistinctRequiredAgents i) (er_compatibilityMode run) of
            Inl _ \<Rightarrow> False | Inr a \<Rightarrow> qa_ready a)
        | _ \<Rightarrow> True)"
proof -
  have n: "run' = nextRun run s \<longleftrightarrow> er_state run' = s \<and>
      run' = run\<lparr>er_state := er_state run', er_version := js_add (er_version run) (Num 1)\<rparr>" for s
    unfolding nextRun_def by (metis exercise_run.select_convs(3) exercise_run.surjective
        exercise_run.update_convs(3) exercise_run.update_convs(5))
  show ?thesis
    by (cases c) (auto simp: run_operation_defs n split: sum.splits,
        (metis exercise_run_state.exhaust)+)
qed

text \<open>
  Two commands decided on the same version of a run cannot both be carried out: once one
  has succeeded, the other is refused.
\<close>

theorem run_no_lost_update:
  assumes "safe_count (er_version run)" and "exec_run run c = Inr run1"
    and "run_command_version d = run_command_version c"
  shows "\<not> succeeds (exec_run run1 d)"
  using assms by (rule run_agg.second_rejected)

lemma run_no_lost_update_witness:
  "\<not> succeeds (exec_run (demo_run\<lparr>er_state := FORMING, er_version := Num 2\<rparr>) (CancelRun (Num 1)))"
proof (rule run_no_lost_update [of demo_run "BeginFormation (Num 1)"])
  show "safe_count (er_version demo_run)" using safe_count_int [of 1] by (simp add: demo_run_def)
  show "exec_run demo_run (BeginFormation (Num 1)) = Inr (demo_run\<lparr>er_state := FORMING, er_version := Num 2\<rparr>)"
    by (simp add: run_operation_defs nextRun_def demo_run_def)
qed simp

end
