(* ===== verification/RunTask.thy ===== *)
theory RunTask
  imports Shared
begin

text \<open>
  \<open>packages/core/src/v2/run-task.ts\<close>: a task of a run, claimed under a lease with a fencing
  epoch, worked on, submitted, evaluated and accepted or sent back for rework.
\<close>

section \<open>Data\<close>

datatype run_task_state =
    T_BLOCKED | T_READY | T_CLAIMED | T_IN_PROGRESS | T_SUBMITTED | T_EVALUATING
  | T_REWORK_REQUIRED | T_ACCEPTED

record run_task_claim =
  cl_runAgentId :: string
  cl_leaseTokenHash :: string
  cl_claimEpoch :: js_number
  cl_claimedAt :: string
  cl_leaseExpiresAt :: string
  cl_maximumLeaseExpiresAt :: string

record run_task =
  rt_id :: string
  rt_runId :: string
  rt_state :: run_task_state
  rt_version :: js_number
  rt_reassignable :: bool
  rt_claimEpoch :: js_number
  rt_activeClaim :: "run_task_claim option"

record lease_command =
  lc_expectedVersion :: js_number
  lc_runAgentId :: string
  lc_claimEpoch :: js_number
  lc_leaseTokenHash :: string
  lc_now :: string

record claim_input =
  ci_expectedVersion :: js_number
  ci_runAgentId :: string
  ci_leaseTokenHash :: string
  ci_claimedAt :: string
  ci_leaseExpiresAt :: string
  ci_maximumLeaseExpiresAt :: string

section \<open>Operations\<close>

text \<open>The new epoch defaults to the task's; a claim not given is dropped.\<close>

definition nextTask ::
  "run_task \<Rightarrow> run_task_state \<Rightarrow> js_number option \<Rightarrow> run_task_claim option \<Rightarrow> run_task" where
  "nextTask task state epoch claim =
     \<lparr>rt_id = rt_id task, rt_runId = rt_runId task, rt_state = state,
      rt_version = js_add (rt_version task) (Num 1), rt_reassignable = rt_reassignable task,
      rt_claimEpoch = (case epoch of None \<Rightarrow> rt_claimEpoch task | Some e \<Rightarrow> e),
      rt_activeClaim = claim\<rparr>"

definition assertTaskVersion :: "run_task \<Rightarrow> js_number \<Rightarrow> unit result" where
  "assertTaskVersion task v = assertAggregateVersion (rt_version task) v ''TASK_VERSION_CONFLICT''"

definition transitionUnclaimedRunTask ::
  "run_task \<Rightarrow> js_number \<Rightarrow> run_task_state \<Rightarrow> run_task_state \<Rightarrow> run_task result" where
  "transitionUnclaimedRunTask task v from to =
     and_then (assertTaskVersion task v)
       (\<lambda>_. if rt_state task \<noteq> from \<or> rt_activeClaim task \<noteq> None then fail ''TASK_STATE_CONFLICT''
            else Inr (nextTask task to None None))"

definition assertLeaseState :: "run_task \<Rightarrow> run_task_claim result" where
  "assertLeaseState task =
     (if rt_state task \<noteq> T_CLAIMED \<and> rt_state task \<noteq> T_IN_PROGRESS then fail ''TASK_STATE_CONFLICT''
      else case rt_activeClaim task of
             None \<Rightarrow> fail ''TASK_STATE_CONFLICT''
           | Some claim \<Rightarrow> Inr claim)"

definition assertCurrentLease :: "run_task \<Rightarrow> lease_command \<Rightarrow> run_task_claim result" where
  "assertCurrentLease task c =
     and_then (assertTaskVersion task (lc_expectedVersion c)) (\<lambda>_.
     and_then (assertLeaseState task) (\<lambda>claim.
       if cl_runAgentId claim \<noteq> lc_runAgentId c \<or> \<not> js_eq (cl_claimEpoch claim) (lc_claimEpoch c)
          \<or> cl_leaseTokenHash claim \<noteq> lc_leaseTokenHash c
       then fail ''TASK_LEASE_STALE''
       else
         and_then (toEpoch (lc_now c)) (\<lambda>now.
         and_then (toEpoch (cl_leaseExpiresAt claim)) (\<lambda>expires.
           if now \<ge> expires then fail ''TASK_LEASE_EXPIRED'' else Inr claim))))"

definition createRunTask :: "string \<Rightarrow> string \<Rightarrow> run_task_state \<Rightarrow> bool \<Rightarrow> run_task result" where
  "createRunTask ident runId initialState reassignable =
     and_then (requireNonEmpty ident) (\<lambda>_.
     and_then (requireNonEmpty runId) (\<lambda>_.
       Inr \<lparr>rt_id = ident, rt_runId = runId, rt_state = initialState, rt_version = Num 1,
            rt_reassignable = reassignable, rt_claimEpoch = Num 0, rt_activeClaim = None\<rparr>))"

definition claimRunTask :: "run_task \<Rightarrow> claim_input \<Rightarrow> run_task result" where
  "claimRunTask task i =
     and_then (assertTaskVersion task (ci_expectedVersion i)) (\<lambda>_.
       if rt_state task \<noteq> T_READY \<or> rt_activeClaim task \<noteq> None then fail ''TASK_STATE_CONFLICT''
       else
         and_then (requireNonEmpty (ci_runAgentId i)) (\<lambda>_.
         and_then (requireNonEmpty (ci_leaseTokenHash i)) (\<lambda>_.
         and_then (toEpoch (ci_claimedAt i)) (\<lambda>claimedAt.
         and_then (toEpoch (ci_leaseExpiresAt i)) (\<lambda>leaseExpiresAt.
         and_then (toEpoch (ci_maximumLeaseExpiresAt i)) (\<lambda>maximumLeaseExpiresAt.
           if leaseExpiresAt \<le> claimedAt \<or> maximumLeaseExpiresAt < leaseExpiresAt
           then fail ''INVALID_TASK_LEASE_WINDOW''
           else
             let claimEpoch = js_add (rt_claimEpoch task) (Num 1);
                 activeClaim =
                   \<lparr>cl_runAgentId = ci_runAgentId i, cl_leaseTokenHash = ci_leaseTokenHash i,
                    cl_claimEpoch = claimEpoch, cl_claimedAt = ci_claimedAt i,
                    cl_leaseExpiresAt = ci_leaseExpiresAt i,
                    cl_maximumLeaseExpiresAt = ci_maximumLeaseExpiresAt i\<rparr>
             in Inr (nextTask task T_CLAIMED (Some claimEpoch) (Some activeClaim))))))))"

definition beginRunTask :: "run_task \<Rightarrow> lease_command \<Rightarrow> run_task result" where
  "beginRunTask task c =
     and_then (assertCurrentLease task c) (\<lambda>claim.
       if rt_state task \<noteq> T_CLAIMED then fail ''TASK_STATE_CONFLICT''
       else Inr (nextTask task T_IN_PROGRESS None (Some claim)))"

definition heartbeatRunTask :: "run_task \<Rightarrow> lease_command \<Rightarrow> string \<Rightarrow> run_task result" where
  "heartbeatRunTask task c nextLeaseExpiresAt =
     and_then (assertCurrentLease task c) (\<lambda>claim.
     and_then (toEpoch nextLeaseExpiresAt) (\<lambda>nextExpiry.
     and_then (toEpoch (cl_leaseExpiresAt claim)) (\<lambda>currentExpiry.
     and_then (toEpoch (cl_maximumLeaseExpiresAt claim)) (\<lambda>maximumExpiry.
       if nextExpiry \<le> currentExpiry then fail ''TASK_LEASE_NOT_EXTENDED''
       else if nextExpiry > maximumExpiry then fail ''TASK_LEASE_MAX_EXCEEDED''
       else Inr (nextTask task (rt_state task) None
              (Some (claim\<lparr>cl_leaseExpiresAt := nextLeaseExpiresAt\<rparr>)))))))"

definition released_state :: "run_task \<Rightarrow> run_task_state" where
  "released_state task = (if rt_reassignable task then T_READY else T_BLOCKED)"

definition releaseRunTask :: "run_task \<Rightarrow> lease_command \<Rightarrow> run_task result" where
  "releaseRunTask task c =
     and_then (assertCurrentLease task c) (\<lambda>_. Inr (nextTask task (released_state task) None None))"

definition submitRunTask :: "run_task \<Rightarrow> lease_command \<Rightarrow> run_task result" where
  "submitRunTask task c =
     and_then (assertCurrentLease task c) (\<lambda>_.
       if rt_state task \<noteq> T_IN_PROGRESS then fail ''TASK_STATE_CONFLICT''
       else Inr (nextTask task T_SUBMITTED None None))"

definition expireRunTaskLease :: "run_task \<Rightarrow> string \<Rightarrow> run_task result" where
  "expireRunTaskLease task now =
     (case (if rt_state task = T_CLAIMED \<or> rt_state task = T_IN_PROGRESS then rt_activeClaim task else None) of
        None \<Rightarrow> Inr task
      | Some claim \<Rightarrow>
          and_then (toEpoch now) (\<lambda>n.
          and_then (toEpoch (cl_leaseExpiresAt claim)) (\<lambda>expires.
            if n < expires then Inr task
            else Inr (nextTask task (released_state task) None None))))"

definition beginRunTaskEvaluation :: "run_task \<Rightarrow> js_number \<Rightarrow> run_task result" where
  "beginRunTaskEvaluation task v = transitionUnclaimedRunTask task v T_SUBMITTED T_EVALUATING"

definition releaseBlockedRunTask :: "run_task \<Rightarrow> js_number \<Rightarrow> run_task result" where
  "releaseBlockedRunTask task v = transitionUnclaimedRunTask task v T_BLOCKED T_READY"

definition requireRunTaskRework :: "run_task \<Rightarrow> js_number \<Rightarrow> run_task result" where
  "requireRunTaskRework task v = transitionUnclaimedRunTask task v T_EVALUATING T_REWORK_REQUIRED"

definition readyRunTaskRevision :: "run_task \<Rightarrow> js_number \<Rightarrow> run_task result" where
  "readyRunTaskRevision task v = transitionUnclaimedRunTask task v T_REWORK_REQUIRED T_READY"

definition acceptRunTask :: "run_task \<Rightarrow> js_number \<Rightarrow> run_task result" where
  "acceptRunTask task v = transitionUnclaimedRunTask task v T_EVALUATING T_ACCEPTED"

section \<open>Commands\<close>

datatype task_command =
    ClaimTask claim_input | BeginTask lease_command | HeartbeatTask lease_command string
  | ReleaseTask lease_command | SubmitTask lease_command | EvaluateTask js_number
  | UnblockTask js_number | ReworkTask js_number | ReviseTask js_number | AcceptTask js_number

fun task_command_version :: "task_command \<Rightarrow> js_number" where
  "task_command_version (ClaimTask i) = ci_expectedVersion i"
| "task_command_version (BeginTask c) = lc_expectedVersion c"
| "task_command_version (HeartbeatTask c t) = lc_expectedVersion c"
| "task_command_version (ReleaseTask c) = lc_expectedVersion c"
| "task_command_version (SubmitTask c) = lc_expectedVersion c"
| "task_command_version (EvaluateTask v) = v"
| "task_command_version (UnblockTask v) = v"
| "task_command_version (ReworkTask v) = v"
| "task_command_version (ReviseTask v) = v"
| "task_command_version (AcceptTask v) = v"

fun exec_task :: "run_task \<Rightarrow> task_command \<Rightarrow> run_task result" where
  "exec_task t (ClaimTask i) = claimRunTask t i"
| "exec_task t (BeginTask c) = beginRunTask t c"
| "exec_task t (HeartbeatTask c n) = heartbeatRunTask t c n"
| "exec_task t (ReleaseTask c) = releaseRunTask t c"
| "exec_task t (SubmitTask c) = submitRunTask t c"
| "exec_task t (EvaluateTask v) = beginRunTaskEvaluation t v"
| "exec_task t (UnblockTask v) = releaseBlockedRunTask t v"
| "exec_task t (ReworkTask v) = requireRunTaskRework t v"
| "exec_task t (ReviseTask v) = readyRunTaskRevision t v"
| "exec_task t (AcceptTask v) = acceptRunTask t v"

text \<open>What happens to a task: a command, or the clock reaching a time.\<close>

datatype task_event = Command task_command | Tick string

fun task_event_step :: "run_task \<Rightarrow> task_event \<Rightarrow> run_task result" where
  "task_event_step t (Command c) = exec_task t c"
| "task_event_step t (Tick now) = expireRunTaskLease t now"

fun lease_of :: "task_command \<Rightarrow> lease_command option" where
  "lease_of (BeginTask c) = Some c"
| "lease_of (HeartbeatTask c t) = Some c"
| "lease_of (ReleaseTask c) = Some c"
| "lease_of (SubmitTask c) = Some c"
| "lease_of _ = None"

lemmas task_operation_defs =
  claimRunTask_def beginRunTask_def heartbeatRunTask_def releaseRunTask_def submitRunTask_def
  beginRunTaskEvaluation_def releaseBlockedRunTask_def requireRunTaskRework_def
  readyRunTaskRevision_def acceptRunTask_def

lemma nextTask_simps [simp]:
  "rt_id (nextTask t s e c) = rt_id t" "rt_runId (nextTask t s e c) = rt_runId t"
  "rt_state (nextTask t s e c) = s" "rt_version (nextTask t s e c) = js_add (rt_version t) (Num 1)"
  "rt_reassignable (nextTask t s e c) = rt_reassignable t"
  "rt_claimEpoch (nextTask t s e c) = (case e of None \<Rightarrow> rt_claimEpoch t | Some e \<Rightarrow> e)"
  "rt_activeClaim (nextTask t s e c) = c"
  by (simp_all add: nextTask_def)

lemma assertTaskVersion_Inr [simp]: "assertTaskVersion t v = Inr u \<longleftrightarrow> js_eq (rt_version t) v"
  by (simp add: assertTaskVersion_def)

lemma assertLeaseState_Inr [simp]:
  "assertLeaseState t = Inr claim \<longleftrightarrow>
     rt_state t \<in> {T_CLAIMED, T_IN_PROGRESS} \<and> rt_activeClaim t = Some claim"
  by (auto simp: assertLeaseState_def split: option.splits)

lemma transitionUnclaimed_Inr [simp]:
  "transitionUnclaimedRunTask t v from to = Inr t' \<longleftrightarrow>
     js_eq (rt_version t) v \<and> rt_state t = from \<and> rt_activeClaim t = None \<and> t' = nextTask t to None None"
  by (auto simp: transitionUnclaimedRunTask_def)

lemma assertCurrentLease_Inr [simp]:
  "assertCurrentLease t c = Inr claim \<longleftrightarrow>
     js_eq (rt_version t) (lc_expectedVersion c)
     \<and> rt_state t \<in> {T_CLAIMED, T_IN_PROGRESS} \<and> rt_activeClaim t = Some claim
     \<and> cl_runAgentId claim = lc_runAgentId c \<and> js_eq (cl_claimEpoch claim) (lc_claimEpoch c)
     \<and> cl_leaseTokenHash claim = lc_leaseTokenHash c
     \<and> (\<exists>now expires. toEpoch (lc_now c) = Inr now \<and> toEpoch (cl_leaseExpiresAt claim) = Inr expires
          \<and> now < expires)"
  by (auto simp: assertCurrentLease_def)

lemma exec_task_version:
  assumes "exec_task t c = Inr t'"
  shows "js_eq (rt_version t) (task_command_version c) \<and> rt_version t' = js_add (rt_version t) (Num 1)"
  using assms by (cases c) (auto simp: task_operation_defs Let_def)

interpretation task_agg: versioned_aggregate rt_version task_command_version exec_task
  by unfold_locales (use exec_task_version in blast)+

section \<open>Well-formed tasks\<close>

definition claim_ok :: "run_task \<Rightarrow> run_task_claim \<Rightarrow> bool" where
  "claim_ok t claim \<longleftrightarrow>
     cl_claimEpoch claim = rt_claimEpoch t \<and> js_trim (cl_runAgentId claim) \<noteq> []
     \<and> (\<exists>from expires maximum. toEpoch (cl_claimedAt claim) = Inr from
          \<and> toEpoch (cl_leaseExpiresAt claim) = Inr expires
          \<and> toEpoch (cl_maximumLeaseExpiresAt claim) = Inr maximum
          \<and> from < expires \<and> expires \<le> maximum)"

definition task_wf :: "run_task \<Rightarrow> bool" where
  "task_wf t \<longleftrightarrow>
     (case rt_activeClaim t of
        None \<Rightarrow> rt_state t \<notin> {T_CLAIMED, T_IN_PROGRESS}
      | Some claim \<Rightarrow> rt_state t \<in> {T_CLAIMED, T_IN_PROGRESS} \<and> claim_ok t claim)"

lemma task_wf_nextTask_None [simp]:
  "task_wf (nextTask t s e None) \<longleftrightarrow> s \<notin> {T_CLAIMED, T_IN_PROGRESS}"
  by (simp add: task_wf_def)

lemma released_state_free [simp]: "released_state t \<notin> {T_CLAIMED, T_IN_PROGRESS}"
  "released_state t \<noteq> T_CLAIMED" "released_state t \<noteq> T_IN_PROGRESS" "released_state t \<noteq> T_ACCEPTED"
  "released_state t \<noteq> T_EVALUATING" "released_state t \<noteq> T_SUBMITTED"
  by (simp_all add: released_state_def)

lemma task_wf_claim: "task_wf t \<Longrightarrow> rt_activeClaim t = Some claim \<Longrightarrow> claim_ok t claim"
  by (simp add: task_wf_def)

lemma task_wf_create: "createRunTask i r s b = Inr t \<Longrightarrow> s \<in> {T_BLOCKED, T_READY} \<Longrightarrow> task_wf t"
  by (auto simp: createRunTask_def task_wf_def)

lemma task_wf_claimRunTask: "claimRunTask t i = Inr t' \<Longrightarrow> task_wf t'"
  by (auto simp: claimRunTask_def task_wf_def claim_ok_def Let_def)

lemma task_wf_begin: "task_wf t \<Longrightarrow> beginRunTask t c = Inr t' \<Longrightarrow> task_wf t'"
  by (auto simp: beginRunTask_def task_wf_def claim_ok_def)

lemma task_wf_heartbeat: "task_wf t \<Longrightarrow> heartbeatRunTask t c n = Inr t' \<Longrightarrow> task_wf t'"
  by (fastforce simp: heartbeatRunTask_def task_wf_def claim_ok_def)

lemma expireRunTaskLease_Inr:
  "expireRunTaskLease t now = Inr t' \<Longrightarrow> t' = t \<or> t' = nextTask t (released_state t) None None"
  by (auto simp: expireRunTaskLease_def split: if_splits option.splits)

lemma task_wf_step: "task_wf t \<Longrightarrow> task_event_step t e = Inr t' \<Longrightarrow> task_wf t'"
proof (cases e)
  case (Command c)
  assume "task_wf t" "task_event_step t e = Inr t'"
  with Command show ?thesis
    by (cases c) (auto intro: task_wf_claimRunTask task_wf_begin task_wf_heartbeat
        simp: releaseRunTask_def submitRunTask_def beginRunTaskEvaluation_def releaseBlockedRunTask_def
          requireRunTaskRework_def readyRunTaskRevision_def acceptRunTask_def)
next
  case (Tick n)
  assume "task_wf t" "task_event_step t e = Inr t'"
  with Tick show ?thesis using expireRunTaskLease_Inr [of t n t'] by auto
qed

lemma task_wf_run: "run_commands task_event_step t es = Inr t' \<Longrightarrow> task_wf t \<Longrightarrow> task_wf t'"
  by (rule run_commands_invariant [where P = task_wf]) (blast intro: task_wf_step)+

section \<open>Claim epochs\<close>

lemma claim_epoch_step:
  assumes "task_event_step t e = Inr t'"
  shows "rt_claimEpoch t' = rt_claimEpoch t
       \<or> (\<exists>i. e = Command (ClaimTask i)) \<and> rt_claimEpoch t' = js_add (rt_claimEpoch t) (Num 1)"
proof (cases e)
  case (Command c)
  with assms show ?thesis by (cases c) (auto simp: task_operation_defs Let_def)
next
  case (Tick n)
  with assms show ?thesis using expireRunTaskLease_Inr [of t n t'] by auto
qed

lemma claim_epoch_step_int:
  assumes "task_event_step t e = Inr t'" and "rt_claimEpoch t = int_num n" and "0 \<le> n" and "n < 2 ^ 53"
  shows "\<exists>m. rt_claimEpoch t' = int_num m \<and> n \<le> m \<and> m \<le> n + 1"
  using claim_epoch_step [OF assms(1)]
proof
  assume "rt_claimEpoch t' = rt_claimEpoch t"
  then show ?thesis using assms(2) by auto
next
  assume "(\<exists>i. e = Command (ClaimTask i)) \<and> rt_claimEpoch t' = js_add (rt_claimEpoch t) (Num 1)"
  then have "rt_claimEpoch t' = int_num (n + 1)" using assms by (simp add: js_add_int_one del: js_add.simps)
  then show ?thesis by (intro exI [of _ "n + 1"]) simp
qed

lemma claim_epoch_run:
  "run_commands task_event_step t es = Inr t' \<Longrightarrow> rt_claimEpoch t = int_num n \<Longrightarrow> 0 \<le> n \<Longrightarrow>
   n + int (length es) \<le> 2 ^ 53 \<Longrightarrow>
   \<exists>m. rt_claimEpoch t' = int_num m \<and> n \<le> m \<and> m \<le> n + int (length es)"
proof (induction es arbitrary: t n)
  case Nil
  then show ?case by simp
next
  case (Cons e es)
  then obtain t1 where t1: "task_event_step t e = Inr t1" "run_commands task_event_step t1 es = Inr t'"
    by auto
  obtain k where k: "rt_claimEpoch t1 = int_num k" "n \<le> k" "k \<le> n + 1"
    using claim_epoch_step_int [OF t1(1) Cons.prems(2)] Cons.prems(3,4) by auto
  with Cons.IH [OF t1(2) k(1)] Cons.prems(3,4) show ?case by fastforce
qed

lemma lease_command_epoch:
  assumes "exec_task t c = Inr t'" and "lease_of c = Some l"
  shows "\<exists>claim. assertCurrentLease t l = Inr claim"
  using assms by (cases c) (auto simp: beginRunTask_def heartbeatRunTask_def releaseRunTask_def
      submitRunTask_def simp del: assertCurrentLease_Inr)

section \<open>Properties\<close>

definition demo_lease :: "js_number \<Rightarrow> lease_command" where
  "demo_lease v = \<lparr>lc_expectedVersion = v, lc_runAgentId = ''agent-a'', lc_claimEpoch = Num 1,
     lc_leaseTokenHash = ''hash'', lc_now = ''2026-01-01T00:01Z''\<rparr>"

definition demo_claim :: "js_number \<Rightarrow> claim_input" where
  "demo_claim v = \<lparr>ci_expectedVersion = v, ci_runAgentId = ''agent-a'', ci_leaseTokenHash = ''hash'',
     ci_claimedAt = ''2026-01-01T00:00Z'', ci_leaseExpiresAt = ''2026-01-01T00:05Z'',
     ci_maximumLeaseExpiresAt = ''2026-01-01T01:00Z''\<rparr>"

definition demo_task :: run_task where
  "demo_task = \<lparr>rt_id = ''task'', rt_runId = ''run'', rt_state = T_READY, rt_version = Num 1,
     rt_reassignable = True, rt_claimEpoch = Num 0, rt_activeClaim = None\<rparr>"

lemma demo_times:
  "toEpoch ''2026-01-01T00:00Z'' = Inr 1767225600000" "toEpoch ''2026-01-01T00:01Z'' = Inr 1767225660000"
  "toEpoch ''2026-01-01T00:05Z'' = Inr 1767225900000" "toEpoch ''2026-01-01T00:10Z'' = Inr 1767226200000"
  "toEpoch ''2026-01-01T01:00Z'' = Inr 1767229200000"
  by code_simp+

lemma demo_counts [simp]: "js_eq (Num x) (Num x)" by (simp add: js_eq_def)

lemma demo_next: "js_add (Num 0) (Num 1) = Num 1" "js_add (Num 1) (Num 1) = Num 2"
  "js_add (Num 2) (Num 1) = Num 3" "js_add (Num 3) (Num 1) = Num 4" "js_add (Num 4) (Num 1) = Num 5"
  "js_add (Num 5) (Num 1) = Num 6"
  using js_add_int_one [of 0] js_add_int_one [of 1] js_add_int_one [of 2] js_add_int_one [of 3]
    js_add_int_one [of 4] js_add_int_one [of 5] by simp_all

lemma demo_trim: "js_trim ''task'' \<noteq> []" "js_trim ''run'' \<noteq> []" "js_trim ''agent-a'' \<noteq> []"
  "js_trim ''agent-b'' \<noteq> []" "js_trim ''hash'' \<noteq> []"
  by code_simp+

lemmas demo_task_facts = demo_times demo_next demo_trim demo_task_def demo_claim_def demo_lease_def
  createRunTask_def nextTask_def task_operation_defs Let_def released_state_def expireRunTaskLease_def

definition demo_claimed :: run_task where
  "demo_claimed = nextTask demo_task T_CLAIMED (Some (Num 1)) (Some
     \<lparr>cl_runAgentId = ''agent-a'', cl_leaseTokenHash = ''hash'', cl_claimEpoch = Num 1,
      cl_claimedAt = ''2026-01-01T00:00Z'', cl_leaseExpiresAt = ''2026-01-01T00:05Z'',
      cl_maximumLeaseExpiresAt = ''2026-01-01T01:00Z''\<rparr>)"

lemma demo_create: "createRunTask ''task'' ''run'' T_READY True = Inr demo_task"
  by (simp add: createRunTask_def demo_task_def demo_trim and_then_def requireNonEmpty_def)

lemma demo_claimed: "claimRunTask demo_task (demo_claim (Num 1)) = Inr demo_claimed"
  by (simp add: demo_task_facts demo_claimed_def del: js_add.simps)

text \<open>
  Property C33. A task is well formed from its creation on, whatever commands and clock ticks reach
  it in whatever order: it has an active claim exactly when it is claimed or in progress, the claim
  carries the task's current epoch, and its lease ends after the claim and never past the maximum
  the claim was granted.
\<close>

theorem task_stays_well_formed:
  assumes "createRunTask ident runId initial reassignable = Inr t0" and "initial \<in> {T_BLOCKED, T_READY}"
    and "run_commands task_event_step t0 events = Inr t"
  shows "task_wf t"
  using assms task_wf_create task_wf_run by blast

lemma task_stays_well_formed_witness: "task_wf demo_claimed"
  by (rule task_stays_well_formed [OF demo_create, of "[Command (ClaimTask (demo_claim (Num 1)))]"])
    (simp_all add: demo_claimed)

text \<open>
  Property C13. While a well-formed task is claimed, the only command that can take effect is one of
  the claim's holder: it must name the claim's agent, epoch and token, and come before the lease ends.
\<close>

theorem claimed_task_obeys_only_its_holder:
  assumes "task_wf t" and "rt_activeClaim t = Some claim" and "exec_task t c = Inr t'"
  shows "\<exists>l now expires. lease_of c = Some l \<and> lc_runAgentId l = cl_runAgentId claim
           \<and> lc_leaseTokenHash l = cl_leaseTokenHash claim \<and> js_eq (rt_claimEpoch t) (lc_claimEpoch l)
           \<and> toEpoch (lc_now l) = Inr now \<and> toEpoch (cl_leaseExpiresAt claim) = Inr expires \<and> now < expires"
proof -
  have state: "rt_state t \<in> {T_CLAIMED, T_IN_PROGRESS}" and "claim_ok t claim"
    using assms(1,2) by (auto simp: task_wf_def)
  then have "cl_claimEpoch claim = rt_claimEpoch t" by (simp add: claim_ok_def)
  then show ?thesis
    using assms(2,3) state by (cases c) (auto simp: task_operation_defs)
qed

lemma claimed_task_obeys_only_its_holder_witness:
  "\<exists>l now expires. lease_of (BeginTask (demo_lease (Num 2))) = Some l \<and> lc_runAgentId l = ''agent-a''
     \<and> lc_leaseTokenHash l = ''hash'' \<and> js_eq (rt_claimEpoch demo_claimed) (lc_claimEpoch l)
     \<and> toEpoch (lc_now l) = Inr now \<and> toEpoch ''2026-01-01T00:05Z'' = Inr expires \<and> now < expires"
proof -
  have wf: "task_wf demo_claimed" using demo_claimed by (rule task_wf_claimRunTask)
  have "exec_task demo_claimed (BeginTask (demo_lease (Num 2))) = Inr (nextTask demo_claimed T_IN_PROGRESS None (rt_activeClaim demo_claimed))"
    by (simp add: demo_task_facts demo_claimed_def del: js_add.simps)
  from claimed_task_obeys_only_its_holder [OF wf _ this] show ?thesis
    by (simp add: demo_claimed_def nextTask_def)
qed

text \<open>
  Property C14. Fencing: once a task has been claimed anew, a command that carries the epoch of an
  earlier claim is refused for ever, whatever has happened to the task since.
\<close>

theorem earlier_claim_is_fenced:
  assumes "rt_claimEpoch t = int_num n" and "0 \<le> n" and "n + int (length events) < 2 ^ 53"
    and "claimRunTask t i = Inr t1" and "run_commands task_event_step t1 events = Inr t2" and "task_wf t"
    and "lease_of c = Some l" and "lc_claimEpoch l = int_num m" and "m \<le> n"
  shows "\<not> succeeds (exec_task t2 c)"
proof
  assume "succeeds (exec_task t2 c)"
  then obtain t3 where "exec_task t2 c = Inr t3" by (auto simp: succeeds_iff)
  then obtain claim where claim: "rt_activeClaim t2 = Some claim" "js_eq (cl_claimEpoch claim) (lc_claimEpoch l)"
    using lease_command_epoch [OF _ assms(7)] by fastforce
  have "rt_claimEpoch t1 = js_add (rt_claimEpoch t) (Num 1)"
    using assms(4) by (auto simp: claimRunTask_def Let_def)
  then have "rt_claimEpoch t1 = int_num (n + 1)"
    using assms by (simp add: js_add_int_one del: js_add.simps of_int_add)
  then obtain k where k: "rt_claimEpoch t2 = int_num k" "n + 1 \<le> k"
    using claim_epoch_run [OF assms(5), of "n + 1"] assms(2,3) by auto
  have "task_wf t2" using task_wf_run [OF assms(5)] task_wf_claimRunTask [OF assms(4)] by blast
  then have "cl_claimEpoch claim = rt_claimEpoch t2" using claim(1) by (auto dest: task_wf_claim simp: claim_ok_def)
  then show False using claim(2) k assms(8,9) by (simp add: js_eq_def)
qed

lemma earlier_claim_is_fenced_witness: "\<not> succeeds (exec_task demo_claimed
    (SubmitTask ((demo_lease (Num 2))\<lparr>lc_claimEpoch := Num 0\<rparr>)))"
  using earlier_claim_is_fenced [where t = demo_task and n = 0 and events = "[]" and m = 0
      and ?t2.0 = demo_claimed and l = "(demo_lease (Num 2))\<lparr>lc_claimEpoch := Num 0\<rparr>"
      and c = "SubmitTask ((demo_lease (Num 2))\<lparr>lc_claimEpoch := Num 0\<rparr>)"] demo_claimed
  by (simp add: demo_task_def task_wf_def)

text \<open>The submission behind a task under or past evaluation.\<close>

definition submitted_by :: "run_task \<Rightarrow> task_event list \<Rightarrow> run_task \<Rightarrow> bool" where
  "submitted_by t0 events t \<longleftrightarrow>
     (\<exists>before l after s claim. events = before @ Command (SubmitTask l) # after
        \<and> run_commands task_event_step t0 before = Inr s \<and> assertCurrentLease s l = Inr claim
        \<and> cl_claimEpoch claim = rt_claimEpoch t)"

lemma submitted_by_append:
  "submitted_by t0 events t \<Longrightarrow> rt_claimEpoch t' = rt_claimEpoch t \<Longrightarrow> submitted_by t0 (events @ rest) t'"
  unfolding submitted_by_def by (metis append_Cons append_assoc)

lemma submitted_by_submit:
  assumes "run_commands task_event_step t0 events = Inr s" and "submitRunTask s l = Inr t" and "task_wf s"
  shows "submitted_by t0 (events @ [Command (SubmitTask l)]) t"
proof -
  obtain claim where claim: "assertCurrentLease s l = Inr claim" "t = nextTask s T_SUBMITTED None None"
    using assms(2) by (auto simp: submitRunTask_def simp del: assertCurrentLease_Inr)
  then have "rt_activeClaim s = Some claim" by simp
  then have "cl_claimEpoch claim = rt_claimEpoch t"
    using assms(3) claim(2) by (auto dest: task_wf_claim simp: claim_ok_def)
  with assms(1) claim show ?thesis unfolding submitted_by_def by blast
qed

lemma evaluated_step:
  assumes "task_event_step s e = Inr t" and "rt_state t \<in> {T_SUBMITTED, T_EVALUATING, T_ACCEPTED}"
  shows "(\<exists>l. e = Command (SubmitTask l) \<and> submitRunTask s l = Inr t)
       \<or> rt_state s \<in> {T_SUBMITTED, T_EVALUATING, T_ACCEPTED} \<and> rt_claimEpoch t = rt_claimEpoch s"
proof (cases e)
  case (Command c)
  with assms show ?thesis by (cases c) (auto simp: task_operation_defs Let_def)
next
  case (Tick n)
  with assms show ?thesis using expireRunTaskLease_Inr [of s n t] by auto
qed

lemma evaluated_was_submitted:
  "run_commands task_event_step t0 events = Inr t \<Longrightarrow> task_wf t0 \<Longrightarrow> rt_state t0 \<in> {T_BLOCKED, T_READY} \<Longrightarrow>
   rt_state t \<in> {T_SUBMITTED, T_EVALUATING, T_ACCEPTED} \<Longrightarrow> submitted_by t0 events t"
proof (induction events arbitrary: t rule: rev_induct)
  case Nil
  then show ?case by auto
next
  case (snoc e events)
  then obtain s where s: "run_commands task_event_step t0 events = Inr s" "task_event_step s e = Inr t"
    by (auto simp: run_commands_append)
  have "task_wf s" using task_wf_run [OF s(1)] snoc.prems by blast
  from evaluated_step [OF s(2) snoc.prems(4)] show ?case
  proof
    assume "\<exists>l. e = Command (SubmitTask l) \<and> submitRunTask s l = Inr t"
    then show ?thesis using submitted_by_submit [OF s(1) _ \<open>task_wf s\<close>] by blast
  next
    assume "rt_state s \<in> {T_SUBMITTED, T_EVALUATING, T_ACCEPTED} \<and> rt_claimEpoch t = rt_claimEpoch s"
    then show ?thesis using submitted_by_append snoc.IH [OF s(1)] snoc.prems by blast
  qed
qed

text \<open>
  A task is accepted only on work that the holder of its latest claim submitted under a
  lease that was current then: somewhere in the history lies a submission whose claim has the epoch
  the accepted task still has.
\<close>

theorem accepted_work_was_submitted:
  assumes "createRunTask ident runId initial reassignable = Inr t0" and "initial \<in> {T_BLOCKED, T_READY}"
    and "run_commands task_event_step t0 events = Inr t" and "rt_state t = T_ACCEPTED"
  shows "\<exists>before l after s claim. events = before @ Command (SubmitTask l) # after
           \<and> run_commands task_event_step t0 before = Inr s \<and> assertCurrentLease s l = Inr claim
           \<and> cl_claimEpoch claim = rt_claimEpoch t"
proof -
  have "rt_state t0 = initial" using assms(1) by (auto simp: createRunTask_def)
  then have "submitted_by t0 events t"
    using evaluated_was_submitted assms task_wf_create by auto
  then show ?thesis by (simp only: submitted_by_def)
qed

definition demo_history :: "task_event list" where
  "demo_history = [Command (ClaimTask (demo_claim (Num 1))), Tick ''2026-01-01T00:01Z'',
     Command (BeginTask (demo_lease (Num 2))), Command (SubmitTask (demo_lease (Num 3))),
     Command (EvaluateTask (Num 4)), Command (AcceptTask (Num 5))]"

definition demo_accepted :: run_task where
  "demo_accepted = demo_task\<lparr>rt_state := T_ACCEPTED, rt_version := Num 6, rt_claimEpoch := Num 1\<rparr>"

lemma demo_history_run: "run_commands task_event_step demo_task demo_history = Inr demo_accepted"
  by (simp add: demo_history_def demo_claimed)
    (simp add: demo_claimed_def demo_accepted_def demo_task_facts transitionUnclaimedRunTask_def
      and_then_def assertCurrentLease_def assertTaskVersion_def assertAggregateVersion_def assertLeaseState_def
      del: js_add.simps)

lemma accepted_work_was_submitted_witness:
  "\<exists>before l after s claim. demo_history = before @ Command (SubmitTask l) # after
     \<and> run_commands task_event_step demo_task before = Inr s \<and> assertCurrentLease s l = Inr claim
     \<and> cl_claimEpoch claim = Num 1"
  using accepted_work_was_submitted [OF demo_create _ demo_history_run]
  by (simp add: demo_accepted_def)

end
