(* ===== verification/RunBarrier.thy ===== *)
theory RunBarrier
  imports Shared
begin

text \<open>
  \<open>packages/core/src/v2/run-barrier.ts\<close>: a gate that opens once every required condition has
  been reported by some event. Recording an input is idempotent in the pair of condition and
  event; release happens once. The decision of a release is the barrier and whether it was
  released by this call.
\<close>

section \<open>Data\<close>

datatype run_barrier_state = B_CLOSED | B_SATISFIED | B_RELEASED

record barrier_input =
  bi_conditionKey :: string
  bi_sourceEventId :: string

record run_barrier =
  rb_id :: string
  rb_runId :: string
  rb_state :: run_barrier_state
  rb_version :: js_number
  rb_requiredConditionKeys :: "string list"
  rb_inputs :: "barrier_input list"

section \<open>Operations\<close>

definition barrierInputKey :: "barrier_input \<Rightarrow> string" where
  "barrierInputKey i = bi_conditionKey i @ CHR 0x00 # bi_sourceEventId i"

text \<open>The loop that collects the required keys, with the set of those seen.\<close>

fun required_keys :: "string set \<Rightarrow> string list \<Rightarrow> unit result" where
  "required_keys seen [] = Inr ()"
| "required_keys seen (k # ks) =
     and_then (requireNonEmpty k) (\<lambda>_.
       if k \<in> seen then fail ''DUPLICATE_BARRIER_CONDITION'' else required_keys (insert k seen) ks)"

definition createRunBarrier :: "string \<Rightarrow> string \<Rightarrow> string list \<Rightarrow> run_barrier result" where
  "createRunBarrier ident runId requiredConditionKeys =
     and_then (requireNonEmpty ident) (\<lambda>_.
     and_then (requireNonEmpty runId) (\<lambda>_.
       if length requiredConditionKeys = 0 then fail ''INVALID_BARRIER_CONDITIONS''
       else and_then (required_keys {} requiredConditionKeys) (\<lambda>_.
         Inr \<lparr>rb_id = ident, rb_runId = runId, rb_state = B_CLOSED, rb_version = Num 1,
              rb_requiredConditionKeys = requiredConditionKeys, rb_inputs = []\<rparr>)))"

definition recordRunBarrierInput :: "run_barrier \<Rightarrow> js_number \<Rightarrow> string \<Rightarrow> string \<Rightarrow> run_barrier result" where
  "recordRunBarrierInput barrier expectedVersion conditionKey sourceEventId =
     and_then (requireNonEmpty conditionKey) (\<lambda>_.
     and_then (requireNonEmpty sourceEventId) (\<lambda>_.
       if conditionKey \<notin> set (rb_requiredConditionKeys barrier) then fail ''BARRIER_CONDITION_UNKNOWN''
       else
         let candidate = \<lparr>bi_conditionKey = conditionKey, bi_sourceEventId = sourceEventId\<rparr> in
         if list_ex (\<lambda>existing. barrierInputKey existing = barrierInputKey candidate) (rb_inputs barrier)
         then Inr barrier
         else
           and_then (assertAggregateVersion (rb_version barrier) expectedVersion ''BARRIER_VERSION_CONFLICT'')
             (\<lambda>_. if rb_state barrier = B_RELEASED then fail ''BARRIER_ALREADY_RELEASED''
              else
                let inputs = rb_inputs barrier @ [candidate];
                    observed = set (map bi_conditionKey inputs);
                    satisfied = list_all (\<lambda>k. k \<in> observed) (rb_requiredConditionKeys barrier)
                in Inr (barrier\<lparr>rb_state := (if satisfied then B_SATISFIED else B_CLOSED),
                     rb_version := js_add (rb_version barrier) (Num 1), rb_inputs := inputs\<rparr>))))"

definition releaseRunBarrier :: "run_barrier \<Rightarrow> js_number \<Rightarrow> (run_barrier \<times> bool) result" where
  "releaseRunBarrier barrier expectedVersion =
     (if rb_state barrier = B_RELEASED then Inr (barrier, False)
      else
        and_then (assertAggregateVersion (rb_version barrier) expectedVersion ''BARRIER_VERSION_CONFLICT'')
          (\<lambda>_. if rb_state barrier \<noteq> B_SATISFIED then fail ''BARRIER_NOT_SATISFIED''
           else Inr (barrier\<lparr>rb_state := B_RELEASED, rb_version := js_add (rb_version barrier) (Num 1)\<rparr>, True)))"

section \<open>Commands\<close>

datatype barrier_command = RecordInput js_number string string | ReleaseBarrier js_number

fun barrier_command_version :: "barrier_command \<Rightarrow> js_number" where
  "barrier_command_version (RecordInput v k e) = v"
| "barrier_command_version (ReleaseBarrier v) = v"

fun exec_barrier :: "run_barrier \<Rightarrow> barrier_command \<Rightarrow> run_barrier result" where
  "exec_barrier b (RecordInput v k e) = recordRunBarrierInput b v k e"
| "exec_barrier b (ReleaseBarrier v) = and_then (releaseRunBarrier b v) (\<lambda>d. Inr (fst d))"

section \<open>Facts of the operations\<close>

text \<open>Whether every required condition has been reported, and what recording an input does.\<close>

definition all_observed :: "run_barrier \<Rightarrow> bool" where
  "all_observed b \<longleftrightarrow> set (rb_requiredConditionKeys b) \<subseteq> bi_conditionKey ` set (rb_inputs b)"

definition known_input :: "run_barrier \<Rightarrow> barrier_input \<Rightarrow> bool" where
  "known_input b i \<longleftrightarrow> barrierInputKey i \<in> barrierInputKey ` set (rb_inputs b)"

definition add_input :: "run_barrier \<Rightarrow> barrier_input \<Rightarrow> run_barrier" where
  "add_input b i =
     (let b' = b\<lparr>rb_version := js_add (rb_version b) (Num 1), rb_inputs := rb_inputs b @ [i]\<rparr>
      in b'\<lparr>rb_state := if all_observed b' then B_SATISFIED else B_CLOSED\<rparr>)"

lemma add_input_simps [simp]:
  "rb_id (add_input b i) = rb_id b" "rb_runId (add_input b i) = rb_runId b"
  "rb_requiredConditionKeys (add_input b i) = rb_requiredConditionKeys b"
  "rb_inputs (add_input b i) = rb_inputs b @ [i]" "rb_version (add_input b i) = js_add (rb_version b) (Num 1)"
  "rb_state (add_input b i) = (if all_observed (add_input b i) then B_SATISFIED else B_CLOSED)"
  by (simp_all add: add_input_def Let_def all_observed_def)

lemma required_keys_Inr:
  "required_keys seen ks = Inr u \<longleftrightarrow> list_all (\<lambda>k. js_trim k \<noteq> []) ks \<and> distinct ks \<and> set ks \<inter> seen = {}"
  by (induction ks arbitrary: seen) auto

lemma record_Inr:
  "recordRunBarrierInput b v k e = Inr b' \<longleftrightarrow>
     js_trim k \<noteq> [] \<and> js_trim e \<noteq> [] \<and> k \<in> set (rb_requiredConditionKeys b)
     \<and> (if known_input b \<lparr>bi_conditionKey = k, bi_sourceEventId = e\<rparr> then b' = b
        else js_eq (rb_version b) v \<and> rb_state b \<noteq> B_RELEASED
          \<and> b' = add_input b \<lparr>bi_conditionKey = k, bi_sourceEventId = e\<rparr>)"
  by (auto simp: recordRunBarrierInput_def Let_def known_input_def list_ex_iff list_all_iff image_iff
      add_input_def all_observed_def subset_iff)

lemma release_Inr:
  "releaseRunBarrier b v = Inr d \<longleftrightarrow>
     (if rb_state b = B_RELEASED then d = (b, False)
      else js_eq (rb_version b) v \<and> rb_state b = B_SATISFIED
        \<and> d = (b\<lparr>rb_state := B_RELEASED, rb_version := js_add (rb_version b) (Num 1)\<rparr>, True))"
  by (auto simp: releaseRunBarrier_def)

lemma exec_barrier_version:
  "exec_barrier b c = Inr b' \<Longrightarrow> b' \<noteq> b \<Longrightarrow>
   js_eq (rb_version b) (barrier_command_version c) \<and> rb_version b' = js_add (rb_version b) (Num 1)"
  by (cases c) (auto simp: record_Inr release_Inr split: if_splits)

interpretation barrier_agg: optimistic_aggregate rb_version barrier_command_version exec_barrier
  by unfold_locales (use exec_barrier_version in blast)

section \<open>Invariant\<close>

definition barrier_wf :: "run_barrier \<Rightarrow> bool" where
  "barrier_wf b \<longleftrightarrow>
     rb_requiredConditionKeys b \<noteq> [] \<and> distinct (rb_requiredConditionKeys b)
     \<and> bi_conditionKey ` set (rb_inputs b) \<subseteq> set (rb_requiredConditionKeys b)
     \<and> distinct (map barrierInputKey (rb_inputs b))
     \<and> (rb_state b = B_CLOSED \<longleftrightarrow> \<not> all_observed b)"

lemma barrier_wf_create: "createRunBarrier i r ks = Inr b \<Longrightarrow> barrier_wf b"
  by (auto simp: createRunBarrier_def barrier_wf_def required_keys_Inr all_observed_def)

lemma barrier_wf_add:
  "barrier_wf b \<Longrightarrow> bi_conditionKey i \<in> set (rb_requiredConditionKeys b) \<Longrightarrow> \<not> known_input b i \<Longrightarrow>
   barrier_wf (add_input b i)"
  by (auto simp: barrier_wf_def known_input_def)

lemma barrier_wf_record: "barrier_wf b \<Longrightarrow> recordRunBarrierInput b v k e = Inr b' \<Longrightarrow> barrier_wf b'"
  by (auto simp: record_Inr intro: barrier_wf_add split: if_splits)

lemma barrier_wf_release: "barrier_wf b \<Longrightarrow> releaseRunBarrier b v = Inr d \<Longrightarrow> barrier_wf (fst d)"
  unfolding release_Inr by (cases "rb_state b") (simp_all add: barrier_wf_def all_observed_def)

lemma barrier_wf_step: "barrier_wf b \<Longrightarrow> exec_barrier b c = Inr b' \<Longrightarrow> barrier_wf b'"
  by (cases c) (auto intro: barrier_wf_record dest: barrier_wf_release)

lemma barrier_wf_run: "run_commands exec_barrier b cs = Inr b' \<Longrightarrow> barrier_wf b \<Longrightarrow> barrier_wf b'"
  by (rule run_commands_invariant [where P = barrier_wf]) (blast intro: barrier_wf_step)+

lemma released_step: "rb_state b = B_RELEASED \<Longrightarrow> exec_barrier b c = Inr b' \<Longrightarrow> b' = b"
  by (cases c) (auto simp: record_Inr release_Inr split: if_splits)

lemma released_run: "run_commands exec_barrier b cs = Inr b' \<Longrightarrow> rb_state b = B_RELEASED \<Longrightarrow> b' = b"
  using run_commands_invariant [of exec_barrier b cs b' "\<lambda>s. s = b"] released_step by blast

text \<open>On keys without the separator, the joined key identifies the pair.\<close>

lemma separator_split:
  assumes "CHR 0x00 \<notin> set a" and "CHR 0x00 \<notin> set b" and e: "a @ CHR 0x00 # x = b @ CHR 0x00 # y"
  shows "a = b \<and> x = y"
proof -
  have "takeWhile (\<lambda>c. c \<noteq> CHR 0x00) (z @ CHR 0x00 # w) = z" if "CHR 0x00 \<notin> set z" for z w
    using that by (subst takeWhile_append2) auto
  then have "a = b" using assms by metis
  with e show ?thesis by simp
qed

lemma barrierInputKey_inj:
  assumes "CHR 0x00 \<notin> set (bi_conditionKey i)" and "CHR 0x00 \<notin> set (bi_conditionKey j)"
    and "barrierInputKey i = barrierInputKey j"
  shows "i = j"
  using separator_split [OF assms(1,2)] assms(3) by (auto simp: barrierInputKey_def)

section \<open>Recording several inputs\<close>

fun record_pairs :: "run_barrier \<Rightarrow> (string \<times> string) list \<Rightarrow> run_barrier result" where
  "record_pairs b [] = Inr b"
| "record_pairs b (p # ps) =
     and_then (recordRunBarrierInput b (rb_version b) (fst p) (snd p)) (\<lambda>b'. record_pairs b' ps)"

definition input_of :: "string \<times> string \<Rightarrow> barrier_input" where
  "input_of p = \<lparr>bi_conditionKey = fst p, bi_sourceEventId = snd p\<rparr>"

text \<open>What is left of the inputs recorded one after the other: their joined keys, each of one of them.\<close>

lemma record_pairs_effect:
  "record_pairs b ps = Inr b' \<Longrightarrow> barrier_wf b \<Longrightarrow> rb_version b = int_num (1 + int (length (rb_inputs b))) \<Longrightarrow>
   int (length (rb_inputs b)) + int (length ps) < 2 ^ 53 \<Longrightarrow>
   barrierInputKey ` set (rb_inputs b') = barrierInputKey ` (set (rb_inputs b) \<union> input_of ` set ps)
   \<and> set (rb_inputs b') \<subseteq> set (rb_inputs b) \<union> input_of ` set ps
   \<and> rb_version b' = int_num (1 + int (length (rb_inputs b')))
   \<and> rb_requiredConditionKeys b' = rb_requiredConditionKeys b \<and> barrier_wf b'
   \<and> (rb_state b \<noteq> B_RELEASED \<longrightarrow> rb_state b' \<noteq> B_RELEASED)"
proof (induction ps arbitrary: b)
  case Nil
  then show ?case by simp
next
  case (Cons p ps)
  then obtain b1 where b1: "recordRunBarrierInput b (rb_version b) (fst p) (snd p) = Inr b1"
      "record_pairs b1 ps = Inr b'" by auto
  have wf: "barrier_wf b1" by (rule barrier_wf_record [OF Cons.prems(2) b1(1)])
  have one: "b1 = (if known_input b (input_of p) then b else add_input b (input_of p))"
    using b1(1) by (auto simp: record_Inr input_of_def split: if_splits)
  show ?case
  proof (cases "known_input b (input_of p)")
    case True
    then have "barrierInputKey (input_of p) \<in> barrierInputKey ` set (rb_inputs b)" by (simp add: known_input_def)
    with True one b1 Cons.IH [of b1] Cons.prems show ?thesis by (auto simp: image_Un insert_absorb)
  next
    case False
    have "js_add (int_num (1 + int (length (rb_inputs b)))) (Num 1) = int_num (1 + int (length (rb_inputs b)) + 1)"
      using Cons.prems(4) by (intro js_add_int_one) simp
    then have "rb_version b1 = int_num (1 + int (length (rb_inputs b1)))"
      using one False Cons.prems(3) by (simp add: algebra_simps del: js_add.simps)
    moreover have "int (length (rb_inputs b1)) + int (length ps) < 2 ^ 53"
      using Cons.prems(4) one False by simp
    ultimately show ?thesis using Cons.IH [OF b1(2) wf] one False by auto
  qed
qed

section \<open>Properties\<close>

lemma inputs_step:
  "exec_barrier b c = Inr b' \<Longrightarrow> i \<in> set (rb_inputs b') \<Longrightarrow>
   i \<in> set (rb_inputs b) \<or> (\<exists>v. c = RecordInput v (bi_conditionKey i) (bi_sourceEventId i))"
  by (cases c) (auto simp: record_Inr release_Inr split: if_splits)

lemma inputs_run:
  "run_commands exec_barrier b cs = Inr b' \<Longrightarrow> i \<in> set (rb_inputs b') \<Longrightarrow>
   i \<in> set (rb_inputs b) \<or> (\<exists>v. RecordInput v (bi_conditionKey i) (bi_sourceEventId i) \<in> set cs)"
proof (induction cs arbitrary: b)
  case Nil
  then show ?case by simp
next
  case (Cons c cs)
  then obtain b1 where "exec_barrier b c = Inr b1" "run_commands exec_barrier b1 cs = Inr b'" by auto
  with Cons.IH Cons.prems(2) inputs_step [of b c b1 i] show ?case by auto
qed

lemma keys_step: "exec_barrier b c = Inr b' \<Longrightarrow> rb_requiredConditionKeys b' = rb_requiredConditionKeys b"
  by (cases c) (auto simp: record_Inr release_Inr split: if_splits)

lemma keys_run:
  "run_commands exec_barrier b cs = Inr b' \<Longrightarrow> rb_requiredConditionKeys b' = rb_requiredConditionKeys b"
  using run_commands_invariant [where P = "\<lambda>s. rb_requiredConditionKeys s = rb_requiredConditionKeys b"]
    keys_step by metis

text \<open>
  Property C24. A barrier is released only after an event has been recorded for each of its required
  conditions, and only once: from then on it never changes again, and every later release answers
  that it was not this call that released it.
\<close>

theorem barrier_releases_once_when_complete:
  assumes "createRunBarrier ident runId ks = Inr b0" and "run_commands exec_barrier b0 cs = Inr b"
    and "releaseRunBarrier b v = Inr (b', True)" and "run_commands exec_barrier b' ds = Inr b''"
  shows "(\<forall>k \<in> set ks. \<exists>w e. RecordInput w k e \<in> set cs) \<and> b'' = b' \<and> releaseRunBarrier b'' u = Inr (b', False)"
proof -
  have b0: "rb_inputs b0 = []" "rb_requiredConditionKeys b0 = ks" "barrier_wf b0"
    using assms(1) barrier_wf_create by (auto simp: createRunBarrier_def)
  then have "barrier_wf b" "rb_requiredConditionKeys b = ks"
    using barrier_wf_run [OF assms(2)] keys_run [OF assms(2)] by auto
  moreover have "rb_state b = B_SATISFIED" and b': "rb_state b' = B_RELEASED"
    using assms(3) by (auto simp: release_Inr split: if_splits)
  ultimately have "set ks \<subseteq> bi_conditionKey ` set (rb_inputs b)" by (simp add: barrier_wf_def all_observed_def)
  then have "\<forall>k \<in> set ks. \<exists>w e. RecordInput w k e \<in> set cs"
    using inputs_run [OF assms(2)] b0(1) by fastforce
  moreover have "b'' = b'" by (rule released_run [OF assms(4) b'])
  ultimately show ?thesis using b' by (simp add: release_Inr)
qed

text \<open>
  Property C36. Two ways to record the same inputs, in any order and with any repetitions, lead to the same joined keys and
  to the same version of the barrier. They lead to the same inputs and the same state, too, unless two
  of the inputs share a joined key, which takes a condition that contains its separator.
\<close>

theorem barrier_inputs_commute:
  assumes "createRunBarrier ident runId ks = Inr b"
    and "record_pairs b ps = Inr b1" and "record_pairs b qs = Inr b2" and "set ps = set qs"
    and len: "int (length ps) < 2 ^ 53" "int (length qs) < 2 ^ 53"
  shows "barrierInputKey ` set (rb_inputs b1) = barrierInputKey ` set (rb_inputs b2) \<and> rb_version b1 = rb_version b2
    \<and> (inj_on (\<lambda>p. barrierInputKey (input_of p)) (set ps) \<longrightarrow>
         rb_state b1 = rb_state b2 \<and> set (rb_inputs b1) = set (rb_inputs b2))
    \<and> (list_all (\<lambda>k. CHR 0x00 \<notin> set k) ks \<longrightarrow>
         rb_state b1 = rb_state b2 \<and> set (rb_inputs b1) = set (rb_inputs b2))"
proof -
  have b: "rb_inputs b = []" "barrier_wf b" "rb_version b = Num 1" "rb_state b = B_CLOSED" "rb_requiredConditionKeys b = ks"
    using assms(1) barrier_wf_create by (auto simp: createRunBarrier_def)
  note e1 = record_pairs_effect [OF assms(2) b(2)] and e2 = record_pairs_effect [OF assms(3) b(2)]
  have keys: "barrierInputKey ` set (rb_inputs b1) = barrierInputKey ` set (rb_inputs b2)" using e1 e2 b len assms(4) by simp
  have wf: "barrier_wf b1" "barrier_wf b2" and required: "rb_requiredConditionKeys b1 = ks" "rb_requiredConditionKeys b2 = ks"
    and state: "rb_state b1 \<noteq> B_RELEASED" "rb_state b2 \<noteq> B_RELEASED"
    using e1 e2 b len by simp_all
  have "length (rb_inputs b1) = length (rb_inputs b2)"
    using wf keys distinct_card [of "map barrierInputKey (rb_inputs b1)"] distinct_card [of "map barrierInputKey (rb_inputs b2)"]
    by (simp add: barrier_wf_def)
  then have version: "rb_version b1 = rb_version b2" using e1 e2 b len by simp
  have same: "rb_state b1 = rb_state b2 \<and> set (rb_inputs b1) = set (rb_inputs b2)"
    if "inj_on barrierInputKey (set (rb_inputs b1) \<union> set (rb_inputs b2))"
  proof -
    have sets: "set (rb_inputs b1) = set (rb_inputs b2)"
      using inj_on_image_eq_iff [OF that, of "set (rb_inputs b1)" "set (rb_inputs b2)"] keys by blast
    then show ?thesis
      using wf state required by (cases "rb_state b1"; cases "rb_state b2") (auto simp: barrier_wf_def all_observed_def)
  qed
  have "inj_on barrierInputKey (set (rb_inputs b1) \<union> set (rb_inputs b2))"
    if "inj_on (\<lambda>p. barrierInputKey (input_of p)) (set ps)"
  proof -
    have "inj_on barrierInputKey (input_of ` set ps)" using that by (auto simp: inj_on_def)
    moreover have "set (rb_inputs b1) \<union> set (rb_inputs b2) \<subseteq> input_of ` set ps" using e1 e2 b len assms(4) by simp
    ultimately show ?thesis by (rule inj_on_subset)
  qed
  moreover have "inj_on barrierInputKey (set (rb_inputs b1) \<union> set (rb_inputs b2))" if "list_all (\<lambda>k. CHR 0x00 \<notin> set k) ks"
  proof -
    have "CHR 0x00 \<notin> set (bi_conditionKey i)" if "i \<in> set (rb_inputs b1) \<union> set (rb_inputs b2)" for i
      using that wf required \<open>list_all _ ks\<close> by (auto simp: barrier_wf_def list_all_iff)
    then show ?thesis by (intro inj_onI barrierInputKey_inj) blast+
  qed
  ultimately show ?thesis using keys version same by blast
qed

definition demo_barrier :: run_barrier where
  "demo_barrier = \<lparr>rb_id = ''b'', rb_runId = ''run'', rb_state = B_CLOSED, rb_version = Num 1,
     rb_requiredConditionKeys = [''x'', ''y''], rb_inputs = []\<rparr>"

lemma demo_barrier_texts: "js_trim ''b'' \<noteq> []" "js_trim ''run'' \<noteq> []" "js_trim ''x'' \<noteq> []"
  "js_trim ''y'' \<noteq> []" "js_trim ''e'' \<noteq> []" "js_trim ''f'' \<noteq> []"
  by code_simp+

lemma demo_barrier_created: "createRunBarrier ''b'' ''run'' [''x'', ''y''] = Inr demo_barrier"
  by (simp add: createRunBarrier_def demo_barrier_def requireNonEmpty_def demo_barrier_texts and_then_def)

definition demo_inputs :: "barrier_input list" where
  "demo_inputs = [input_of (''x'', ''e''), input_of (''y'', ''f'')]"

lemma demo_steps: "js_add (Num 1) (Num 1) = Num 2" "js_add (Num 2) (Num 1) = Num 3" "js_add (Num 3) (Num 1) = Num 4"
  using js_add_int_one [of 1] js_add_int_one [of 2] js_add_int_one [of 3] by simp_all

definition demo_barrier_full :: run_barrier where
  "demo_barrier_full = demo_barrier\<lparr>rb_state := B_SATISFIED, rb_version := Num 3, rb_inputs := demo_inputs\<rparr>"

lemmas demo_barrier_facts = demo_barrier_def demo_barrier_full_def demo_inputs_def input_of_def demo_barrier_texts
  demo_steps recordRunBarrierInput_def releaseRunBarrier_def requireNonEmpty_def assertAggregateVersion_def
  and_then_def Let_def barrierInputKey_def

lemma barrier_releases_once_when_complete_witness:
  "\<exists>w e. RecordInput w ''y'' e \<in> set [RecordInput (Num 1) ''x'' ''e'', RecordInput (Num 2) ''y'' ''f'']"
proof -
  have run: "run_commands exec_barrier demo_barrier
      [RecordInput (Num 1) ''x'' ''e'', RecordInput (Num 2) ''y'' ''f''] = Inr demo_barrier_full"
    by (simp add: demo_barrier_facts del: js_add.simps)
  obtain b' where "releaseRunBarrier demo_barrier_full (Num 3) = Inr (b', True)"
    by (simp add: demo_barrier_facts del: js_add.simps)
  from barrier_releases_once_when_complete [OF demo_barrier_created run this, of "[]"] show ?thesis by simp
qed

lemma barrier_inputs_commute_witness:
  "\<exists>b1 b2. record_pairs demo_barrier [(''x'', ''e''), (''y'', ''f'')] = Inr b1
     \<and> record_pairs demo_barrier [(''y'', ''f''), (''x'', ''e''), (''y'', ''f'')] = Inr b2
     \<and> rb_state b1 = rb_state b2"
proof -
  obtain b1 where b1: "record_pairs demo_barrier [(''x'', ''e''), (''y'', ''f'')] = Inr b1"
    by (simp add: demo_barrier_facts del: js_add.simps)
  obtain b2 where b2: "record_pairs demo_barrier [(''y'', ''f''), (''x'', ''e''), (''y'', ''f'')] = Inr b2"
    by (simp add: demo_barrier_facts del: js_add.simps)
  have "rb_state b1 = rb_state b2"
    using barrier_inputs_commute [OF demo_barrier_created b1 b2] by auto
  with b1 b2 show ?thesis by blast
qed

text \<open>
  Two inputs that differ can share a joined key when a required condition contains the separator:
  the second is then taken for a repetition of the first and its condition stays unreported.
\<close>

lemma barrier_key_collision:
  "barrierInputKey \<lparr>bi_conditionKey = ''a'', bi_sourceEventId = CHR ''b'' # CHR 0x00 # ''c''\<rparr> =
   barrierInputKey \<lparr>bi_conditionKey = CHR ''a'' # CHR 0x00 # ''b'', bi_sourceEventId = ''c''\<rparr>"
  by (simp add: barrierInputKey_def)

end
