(* ===== verification/Feedback.thy ===== *)
theory Feedback
  imports Shared
begin

text \<open>
  \<open>packages/core/src/v2/feedback.ts\<close>: a grant that lets one agent perform one feedback action on
  one task a bounded number of times, until it expires in real or virtual time or is revoked.
\<close>

section \<open>Data\<close>

datatype feedback_action = Revise_task | Resubmit | Endorse | Request_clarification

record feedback_grant =
  fg_id :: string
  fg_targetRunAgentId :: string
  fg_targetTaskId :: string
  fg_action :: feedback_action
  fg_predecessorSubmissionId :: "string option"
  fg_evaluationId :: string
  fg_issuedRunSeq :: js_number
  fg_issuedAt :: string
  fg_expiresVirtualAt :: "string option"
  fg_expiresAt :: "string option"
  fg_maxUses :: js_number
  fg_usedCount :: js_number
  fg_revokedRunSeq :: "js_number option"
  fg_scopeHash :: string
  fg_version :: js_number

record grant_input =
  gi_id :: string
  gi_targetRunAgentId :: string
  gi_targetTaskId :: string
  gi_action :: feedback_action
  gi_predecessorSubmissionId :: "string option"
  gi_evaluationId :: string
  gi_issuedRunSeq :: js_number
  gi_issuedAt :: string
  gi_expiresVirtualAt :: "string option"
  gi_expiresAt :: "string option"
  gi_maxUses :: js_number
  gi_scopeHash :: string

record consume_input =
  cf_expectedVersion :: js_number
  cf_runAgentId :: string
  cf_taskId :: string
  cf_action :: feedback_action
  cf_predecessorSubmissionId :: "string option"
  cf_evaluationId :: string
  cf_scopeHash :: string
  cf_now :: string
  cf_virtualTime :: string

section \<open>Operations\<close>

definition check_time :: "string option \<Rightarrow> unit result" where
  "check_time t = (case t of None \<Rightarrow> Inr () | Some s \<Rightarrow> and_then (toEpoch s) (\<lambda>_. Inr ()))"

definition createFeedbackActionGrant :: "grant_input \<Rightarrow> feedback_grant result" where
  "createFeedbackActionGrant i =
     and_then (requireNonEmpty (gi_id i)) (\<lambda>_.
     and_then (requireNonEmpty (gi_targetRunAgentId i)) (\<lambda>_.
     and_then (requireNonEmpty (gi_targetTaskId i)) (\<lambda>_.
     and_then (requireNonEmpty (gi_evaluationId i)) (\<lambda>_.
     and_then (requireNonEmpty (gi_scopeHash i)) (\<lambda>_.
     and_then (toEpoch (gi_issuedAt i)) (\<lambda>_.
       if \<not> js_is_integer (gi_issuedRunSeq i) \<or> js_lt (gi_issuedRunSeq i) (Num 1)
       then fail ''INVALID_GRANT_RUN_SEQ''
       else if \<not> js_is_integer (gi_maxUses i) \<or> js_lt (gi_maxUses i) (Num 1)
       then fail ''INVALID_GRANT_MAX_USES''
       else
         and_then (check_time (gi_expiresAt i)) (\<lambda>_.
         and_then (check_time (gi_expiresVirtualAt i)) (\<lambda>_.
           Inr \<lparr>fg_id = gi_id i, fg_targetRunAgentId = gi_targetRunAgentId i,
             fg_targetTaskId = gi_targetTaskId i, fg_action = gi_action i,
             fg_predecessorSubmissionId = gi_predecessorSubmissionId i,
             fg_evaluationId = gi_evaluationId i, fg_issuedRunSeq = gi_issuedRunSeq i,
             fg_issuedAt = gi_issuedAt i, fg_expiresVirtualAt = gi_expiresVirtualAt i,
             fg_expiresAt = gi_expiresAt i, fg_maxUses = gi_maxUses i, fg_usedCount = Num 0,
             fg_revokedRunSeq = None, fg_scopeHash = gi_scopeHash i, fg_version = Num 1\<rparr>))))))))"

text \<open>\<open>expires !== undefined && time >= toEpoch(expires)\<close>; the second disjunct of the source is
  evaluated only when the first is false.\<close>

definition past_expiry :: "int \<Rightarrow> string option \<Rightarrow> bool result" where
  "past_expiry now expires =
     (case expires of None \<Rightarrow> Inr False | Some s \<Rightarrow> and_then (toEpoch s) (\<lambda>e. Inr (now \<ge> e)))"

definition grant_expired :: "feedback_grant \<Rightarrow> int \<Rightarrow> int \<Rightarrow> bool result" where
  "grant_expired grant now virtualTime =
     and_then (past_expiry now (fg_expiresAt grant)) (\<lambda>b.
       if b then Inr True else past_expiry virtualTime (fg_expiresVirtualAt grant))"

definition out_of_scope :: "feedback_grant \<Rightarrow> consume_input \<Rightarrow> bool" where
  "out_of_scope grant i \<longleftrightarrow>
     fg_targetRunAgentId grant \<noteq> cf_runAgentId i \<or> fg_targetTaskId grant \<noteq> cf_taskId i
     \<or> fg_action grant \<noteq> cf_action i
     \<or> fg_predecessorSubmissionId grant \<noteq> cf_predecessorSubmissionId i
     \<or> fg_evaluationId grant \<noteq> cf_evaluationId i \<or> fg_scopeHash grant \<noteq> cf_scopeHash i"

definition consumeFeedbackActionGrant :: "feedback_grant \<Rightarrow> consume_input \<Rightarrow> feedback_grant result" where
  "consumeFeedbackActionGrant grant i =
     and_then (assertAggregateVersion (fg_version grant) (cf_expectedVersion i) ''FEEDBACK_GRANT_VERSION_CONFLICT'')
       (\<lambda>_. if fg_revokedRunSeq grant \<noteq> None then fail ''FEEDBACK_GRANT_REVOKED''
        else if out_of_scope grant i then fail ''FEEDBACK_GRANT_SCOPE_MISMATCH''
        else
          and_then (toEpoch (cf_now i)) (\<lambda>now.
          and_then (toEpoch (cf_virtualTime i)) (\<lambda>virtualTime.
          and_then (grant_expired grant now virtualTime) (\<lambda>expired.
            if expired then fail ''FEEDBACK_GRANT_EXPIRED''
            else if js_le (fg_maxUses grant) (fg_usedCount grant) then fail ''FEEDBACK_GRANT_EXHAUSTED''
            else Inr (grant\<lparr>fg_usedCount := js_add (fg_usedCount grant) (Num 1),
                           fg_version := js_add (fg_version grant) (Num 1)\<rparr>)))))"

definition revokeFeedbackActionGrant :: "feedback_grant \<Rightarrow> js_number \<Rightarrow> js_number \<Rightarrow> feedback_grant result" where
  "revokeFeedbackActionGrant grant expectedVersion revokedRunSeq =
     (if fg_revokedRunSeq grant \<noteq> None then Inr grant
      else
        and_then (assertAggregateVersion (fg_version grant) expectedVersion ''FEEDBACK_GRANT_VERSION_CONFLICT'')
          (\<lambda>_. if \<not> js_is_integer revokedRunSeq \<or> js_le revokedRunSeq (fg_issuedRunSeq grant)
           then fail ''INVALID_GRANT_REVOCATION_SEQ''
           else Inr (grant\<lparr>fg_revokedRunSeq := Some revokedRunSeq,
                          fg_version := js_add (fg_version grant) (Num 1)\<rparr>)))"

section \<open>Commands\<close>

datatype grant_command = ConsumeGrant consume_input | RevokeGrant js_number js_number

fun grant_command_version :: "grant_command \<Rightarrow> js_number" where
  "grant_command_version (ConsumeGrant i) = cf_expectedVersion i"
| "grant_command_version (RevokeGrant v s) = v"

fun exec_grant :: "feedback_grant \<Rightarrow> grant_command \<Rightarrow> feedback_grant result" where
  "exec_grant g (ConsumeGrant i) = consumeFeedbackActionGrant g i"
| "exec_grant g (RevokeGrant v s) = revokeFeedbackActionGrant g v s"

fun is_consume :: "grant_command \<Rightarrow> bool" where
  "is_consume (ConsumeGrant i) = True"
| "is_consume (RevokeGrant v s) = False"

section \<open>Facts of the operations\<close>

definition not_past :: "int \<Rightarrow> string option \<Rightarrow> bool" where
  "not_past now expires \<longleftrightarrow>
     (case expires of None \<Rightarrow> True | Some s \<Rightarrow> (case toEpoch s of Inl _ \<Rightarrow> False | Inr e \<Rightarrow> now < e))"

lemma past_expiry_False [simp]: "past_expiry now t = Inr False \<longleftrightarrow> not_past now t"
  by (auto simp: past_expiry_def not_past_def split: option.splits sum.splits)

lemma grant_expired_False [simp]:
  "grant_expired g now v = Inr False \<longleftrightarrow> not_past now (fg_expiresAt g) \<and> not_past v (fg_expiresVirtualAt g)"
  by (auto simp: grant_expired_def)

lemma consume_Inr:
  "consumeFeedbackActionGrant g i = Inr g' \<longleftrightarrow>
     js_eq (fg_version g) (cf_expectedVersion i) \<and> fg_revokedRunSeq g = None \<and> \<not> out_of_scope g i
     \<and> (\<exists>now v. toEpoch (cf_now i) = Inr now \<and> toEpoch (cf_virtualTime i) = Inr v
          \<and> not_past now (fg_expiresAt g) \<and> not_past v (fg_expiresVirtualAt g))
     \<and> \<not> js_le (fg_maxUses g) (fg_usedCount g)
     \<and> g' = g\<lparr>fg_usedCount := js_add (fg_usedCount g) (Num 1), fg_version := js_add (fg_version g) (Num 1)\<rparr>"
  by (auto simp: consumeFeedbackActionGrant_def intro!: exI [of _ False])

lemma revoke_Inr:
  "revokeFeedbackActionGrant g v s = Inr g' \<longleftrightarrow>
     (if fg_revokedRunSeq g \<noteq> None then g' = g
      else js_eq (fg_version g) v \<and> js_is_integer s \<and> \<not> js_le s (fg_issuedRunSeq g)
        \<and> g' = g\<lparr>fg_revokedRunSeq := Some s, fg_version := js_add (fg_version g) (Num 1)\<rparr>)"
  by (auto simp: revokeFeedbackActionGrant_def)

lemma exec_grant_version:
  "exec_grant g c = Inr g' \<Longrightarrow> g' \<noteq> g \<Longrightarrow>
   js_eq (fg_version g) (grant_command_version c) \<and> fg_version g' = js_add (fg_version g) (Num 1)"
  by (cases c) (auto simp: consume_Inr revoke_Inr split: if_splits)

interpretation grant_agg: optimistic_aggregate fg_version grant_command_version exec_grant
  by unfold_locales (use exec_grant_version in blast)

lemma create_grant_Inr:
  "createFeedbackActionGrant i = Inr g \<Longrightarrow>
   fg_usedCount g = Num 0 \<and> fg_maxUses g = gi_maxUses i \<and> fg_version g = Num 1 \<and> fg_revokedRunSeq g = None
   \<and> (\<exists>n. gi_maxUses i = int_num n \<and> 1 \<le> n)"
  by (auto simp: createFeedbackActionGrant_def js_is_integer_iff)

lemma revoked_step:
  "exec_grant g c = Inr g' \<Longrightarrow> fg_revokedRunSeq g \<noteq> None \<Longrightarrow> g' = g \<and> \<not> is_consume c"
  by (cases c) (auto simp: consume_Inr revoke_Inr split: if_splits)

lemma revoked_run:
  "run_commands exec_grant g cs = Inr g' \<Longrightarrow> fg_revokedRunSeq g \<noteq> None \<Longrightarrow> g' = g \<and> \<not> list_ex is_consume cs"
proof (induction cs arbitrary: g)
  case Nil
  then show ?case by simp
next
  case (Cons c cs)
  then obtain g1 where "exec_grant g c = Inr g1" "run_commands exec_grant g1 cs = Inr g'" by auto
  with Cons.IH [of g1] Cons.prems(2) revoked_step [of g c g1] show ?case by auto
qed

text \<open>The uses left pay for the consumptions.\<close>

lemma uses_run:
  "run_commands exec_grant g cs = Inr g' \<Longrightarrow> fg_maxUses g = int_num m \<Longrightarrow> fg_usedCount g = int_num k \<Longrightarrow>
   0 \<le> k \<Longrightarrow> k \<le> m \<Longrightarrow> m \<le> 2 ^ 53 \<Longrightarrow>
   fg_usedCount g' = int_num (k + int (length (filter is_consume cs)))
   \<and> k + int (length (filter is_consume cs)) \<le> m \<and> fg_maxUses g' = int_num m"
proof (induction cs arbitrary: g k)
  case Nil
  then show ?case by simp
next
  case (Cons c cs)
  then obtain g1 where g1: "exec_grant g c = Inr g1" "run_commands exec_grant g1 cs = Inr g'" by auto
  show ?case
  proof (cases c)
    case (ConsumeGrant i)
    with g1 Cons.prems have "k < m" "fg_maxUses g1 = int_num m" by (auto simp: consume_Inr)
    moreover have "fg_usedCount g1 = js_add (int_num k) (Num 1)"
      using g1(1) ConsumeGrant Cons.prems by (auto simp: consume_Inr simp del: js_add.simps)
    then have "fg_usedCount g1 = int_num (k + 1)"
      using Cons.prems(4,6) \<open>k < m\<close> js_add_int_one [of k] by simp
    ultimately show ?thesis using Cons.IH [OF g1(2), of "k + 1"] Cons.prems(4,6) ConsumeGrant
      by (simp add: algebra_simps)
  next
    case (RevokeGrant v s)
    with g1(1) have "fg_maxUses g1 = fg_maxUses g" "fg_usedCount g1 = fg_usedCount g"
      by (auto simp: revoke_Inr split: if_splits)
    with Cons.IH [OF g1(2), of k] Cons.prems RevokeGrant show ?thesis by simp
  qed
qed

section \<open>Properties\<close>

text \<open>
  Property C32. A grant is never used more often than it allows: in every history of a new grant the
  consumptions that succeeded number at most its maximum, and the count it keeps is their number.
\<close>

theorem grant_uses_bounded:
  assumes "createFeedbackActionGrant i = Inr g0" and "gi_maxUses i = int_num m" and "m \<le> 2 ^ 53"
    and "run_commands exec_grant g0 cs = Inr g"
  shows "fg_usedCount g = len_num (filter is_consume cs) \<and> int (length (filter is_consume cs)) \<le> m"
proof -
  have g0: "fg_usedCount g0 = int_num 0" "fg_maxUses g0 = int_num m" "0 \<le> m"
    using create_grant_Inr [OF assms(1)] assms(2) by auto
  show ?thesis using uses_run [OF assms(4) g0(2,1)] g0(3) assms(3) by simp
qed

text \<open>
  A revoked grant is dead: after a revocation no consumption ever succeeds, and the grant
  does not change any more; the revocation itself came after the grant was issued.
\<close>

theorem revoked_grant_is_dead:
  assumes "revokeFeedbackActionGrant g v s = Inr g1" and "fg_revokedRunSeq g = None"
    and "run_commands exec_grant g1 cs = Inr g2"
  shows "g2 = g1 \<and> \<not> list_ex is_consume cs \<and> \<not> succeeds (consumeFeedbackActionGrant g2 i)
         \<and> (fg_issuedRunSeq g = int_num n \<longrightarrow> js_lt (int_num n) s)"
proof -
  have g1: "fg_revokedRunSeq g1 \<noteq> None" using assms(1,2) by (auto simp: revoke_Inr)
  note dead = revoked_run [OF assms(3) g1]
  moreover have "\<not> succeeds (consumeFeedbackActionGrant g2 i)"
    using dead g1 by (auto simp: succeeds_iff consume_Inr)
  moreover have "fg_issuedRunSeq g = int_num n \<longrightarrow> js_lt (int_num n) s"
    using assms(1,2) by (auto simp: revoke_Inr js_is_integer_iff)
  ultimately show ?thesis by blast
qed

definition demo_grant_input :: grant_input where
  "demo_grant_input = \<lparr>gi_id = ''g'', gi_targetRunAgentId = ''agent'', gi_targetTaskId = ''task'',
     gi_action = Resubmit, gi_predecessorSubmissionId = None, gi_evaluationId = ''ev'',
     gi_issuedRunSeq = Num 3, gi_issuedAt = ''2026-01-01T00:00Z'', gi_expiresVirtualAt = None,
     gi_expiresAt = Some ''2026-01-01T00:05Z'', gi_maxUses = Num 1, gi_scopeHash = ''h''\<rparr>"

definition demo_grant :: feedback_grant where
  "demo_grant = \<lparr>fg_id = ''g'', fg_targetRunAgentId = ''agent'', fg_targetTaskId = ''task'',
     fg_action = Resubmit, fg_predecessorSubmissionId = None, fg_evaluationId = ''ev'',
     fg_issuedRunSeq = Num 3, fg_issuedAt = ''2026-01-01T00:00Z'', fg_expiresVirtualAt = None,
     fg_expiresAt = Some ''2026-01-01T00:05Z'', fg_maxUses = Num 1, fg_usedCount = Num 0,
     fg_revokedRunSeq = None, fg_scopeHash = ''h'', fg_version = Num 1\<rparr>"

definition demo_consume :: consume_input where
  "demo_consume = \<lparr>cf_expectedVersion = Num 1, cf_runAgentId = ''agent'', cf_taskId = ''task'',
     cf_action = Resubmit, cf_predecessorSubmissionId = None, cf_evaluationId = ''ev'', cf_scopeHash = ''h'',
     cf_now = ''2026-01-01T00:00Z'', cf_virtualTime = ''2026-01-01T00:00Z''\<rparr>"

lemma demo_grant_times:
  "toEpoch ''2026-01-01T00:00Z'' = Inr 1767225600000" "toEpoch ''2026-01-01T00:05Z'' = Inr 1767225900000"
  by code_simp+

lemma demo_grant_texts: "js_trim ''g'' \<noteq> []" "js_trim ''agent'' \<noteq> []" "js_trim ''task'' \<noteq> []"
  "js_trim ''ev'' \<noteq> []" "js_trim ''h'' \<noteq> []"
  by code_simp+

lemma demo_grant_created: "createFeedbackActionGrant demo_grant_input = Inr demo_grant"
  by (simp add: createFeedbackActionGrant_def demo_grant_input_def demo_grant_def requireNonEmpty_def
      check_time_def demo_grant_times demo_grant_texts)

lemma demo_grant_consumed:
  "exec_grant demo_grant (ConsumeGrant demo_consume) = Inr (demo_grant\<lparr>fg_usedCount := Num 1, fg_version := Num 2\<rparr>)"
  using js_add_int_one [of 0] js_add_int_one [of 1]
  by (simp add: consume_Inr demo_grant_def demo_consume_def demo_grant_times out_of_scope_def not_past_def)

lemma grant_uses_bounded_witness:
  "run_commands exec_grant demo_grant [ConsumeGrant demo_consume] = Inr (demo_grant\<lparr>fg_usedCount := Num 1, fg_version := Num 2\<rparr>)
   \<and> int (length (filter is_consume [ConsumeGrant demo_consume])) \<le> 1"
proof -
  have run: "run_commands exec_grant demo_grant [ConsumeGrant demo_consume]
      = Inr (demo_grant\<lparr>fg_usedCount := Num 1, fg_version := Num 2\<rparr>)"
    by (simp add: demo_grant_consumed del: exec_grant.simps)
  from grant_uses_bounded [OF demo_grant_created _ _ this, of 1] run show ?thesis
    by (simp add: demo_grant_input_def)
qed

lemma revoked_grant_is_dead_witness:
  "\<exists>g1. revokeFeedbackActionGrant demo_grant (Num 1) (Num 7) = Inr g1
     \<and> \<not> succeeds (consumeFeedbackActionGrant g1 demo_consume)"
proof -
  obtain g1 where g1: "revokeFeedbackActionGrant demo_grant (Num 1) (Num 7) = Inr g1"
    by (simp add: revokeFeedbackActionGrant_def demo_grant_def assertAggregateVersion_def)
  from revoked_grant_is_dead [OF this, of "[]"] g1 show ?thesis by (simp add: demo_grant_def)
qed

end
