(* ===== verification/AgentInteraction.thy ===== *)
theory AgentInteraction
  imports Shared
begin

text \<open>
  \<open>packages/core/src/v2/agent-interaction.ts\<close>: messages between the agents of a run. A request
  opens a thread; a response joins the thread of the request it answers, must come from one of the
  request's recipients, who must have been issued the request, and must go back to its sender.
\<close>

datatype interaction_kind = Inform | Request | Response | Handoff

record interaction_message =
  am_id :: string
  am_threadId :: string
  am_kind :: interaction_kind
  am_replyToMessageId :: "string option"
  am_senderRunAgentId :: string
  am_recipientRunAgentIds :: "string list"

record interaction_input =
  ai_id :: string
  ai_kind :: interaction_kind
  ai_senderRunAgentId :: string
  ai_recipientRunAgentIds :: "string list"
  ai_replyToMessageId :: "string option"
  ai_parentMessage :: "interaction_message option"
  ai_parentIssuedToSender :: "bool option"

definition createAgentInteraction :: "interaction_input \<Rightarrow> interaction_message result" where
  "createAgentInteraction i =
     (if length (ai_recipientRunAgentIds i) = 0
         \<or> length (js_set (ai_recipientRunAgentIds i)) \<noteq> length (ai_recipientRunAgentIds i)
         \<or> ai_senderRunAgentId i \<in> set (ai_recipientRunAgentIds i)
      then fail ''MESSAGE_RECIPIENT_CONFLICT''
      else if ai_kind i \<noteq> Response then
        if ai_replyToMessageId i \<noteq> None \<or> ai_parentMessage i \<noteq> None
        then fail ''MESSAGE_REPLY_CONFLICT''
        else Inr \<lparr>am_id = ai_id i, am_threadId = ai_id i, am_kind = ai_kind i, am_replyToMessageId = None,
               am_senderRunAgentId = ai_senderRunAgentId i,
               am_recipientRunAgentIds = ai_recipientRunAgentIds i\<rparr>
      else case (ai_replyToMessageId i, ai_parentMessage i) of
          (Some replyTo, Some parent) \<Rightarrow>
            if am_id parent \<noteq> replyTo \<or> am_kind parent \<noteq> Request then fail ''MESSAGE_REPLY_CONFLICT''
            else if ai_senderRunAgentId i \<notin> set (am_recipientRunAgentIds parent)
                    \<or> ai_parentIssuedToSender i \<noteq> Some True
            then fail ''RESOURCE_NOT_ISSUED''
            else if am_senderRunAgentId parent \<notin> set (ai_recipientRunAgentIds i)
            then fail ''MESSAGE_RECIPIENT_CONFLICT''
            else Inr \<lparr>am_id = ai_id i, am_threadId = am_threadId parent, am_kind = Response,
                   am_replyToMessageId = Some (am_id parent),
                   am_senderRunAgentId = ai_senderRunAgentId i,
                   am_recipientRunAgentIds = ai_recipientRunAgentIds i\<rparr>
        | _ \<Rightarrow> fail ''MESSAGE_REPLY_CONFLICT'')"

text \<open>A conversation: messages are created one after the other, each response against a message
  that exists already.\<close>

inductive conversation :: "interaction_message list \<Rightarrow> bool" where
  start: "conversation []"
| post: "conversation ms \<Longrightarrow> createAgentInteraction i = Inr m \<Longrightarrow>
    (\<And>parent. ai_parentMessage i = Some parent \<Longrightarrow> parent \<in> set ms) \<Longrightarrow> conversation (m # ms)"

inductive_cases conversation_ConsE: "conversation (m # ms)"

definition answers :: "interaction_message \<Rightarrow> interaction_message \<Rightarrow> bool" where
  "answers m parent \<longleftrightarrow>
     am_kind parent = Request \<and> am_replyToMessageId m = Some (am_id parent)
     \<and> am_senderRunAgentId m \<in> set (am_recipientRunAgentIds parent)
     \<and> am_senderRunAgentId parent \<in> set (am_recipientRunAgentIds m)
     \<and> am_threadId m = am_threadId parent"

definition well_addressed :: "interaction_message \<Rightarrow> bool" where
  "well_addressed m \<longleftrightarrow> am_recipientRunAgentIds m \<noteq> [] \<and> distinct (am_recipientRunAgentIds m)
     \<and> am_senderRunAgentId m \<notin> set (am_recipientRunAgentIds m)"

lemma create_interaction_cases:
  assumes "createAgentInteraction i = Inr m"
  shows "well_addressed m \<and>
     (if am_kind m = Response
      then \<exists>parent. ai_parentMessage i = Some parent \<and> answers m parent \<and> ai_parentIssuedToSender i = Some True
      else am_threadId m = am_id m \<and> am_replyToMessageId m = None)"
  using assms
  by (auto simp: createAgentInteraction_def well_addressed_def answers_def split: if_splits option.splits)

lemma conversation_threads:
  "conversation ms \<Longrightarrow> m \<in> set ms \<Longrightarrow>
     well_addressed m \<and>
     (if am_kind m = Response then \<exists>parent \<in> set ms. answers m parent \<and> am_threadId m = am_id parent
      else am_threadId m = am_id m \<and> am_replyToMessageId m = None)"
proof (induction ms arbitrary: m rule: conversation.induct)
  case start
  then show ?case by simp
next
  case (post ms i m')
  show ?case
  proof (cases "m \<in> set ms")
    case True
    with post.IH [OF True] show ?thesis by (auto split: if_splits)
  next
    case False
    with post.prems have "m = m'" by simp
    note new = create_interaction_cases [OF post.hyps(2)]
    show ?thesis
    proof (cases "am_kind m' = Response")
      case True
      with new obtain parent where p: "ai_parentMessage i = Some parent" "answers m' parent" by auto
      then have "parent \<in> set ms" using post.hyps(3) by blast
      moreover have "am_kind parent = Request" using p(2) by (simp add: answers_def)
      ultimately have "am_threadId parent = am_id parent" using post.IH [of parent] by auto
      then have "am_threadId m' = am_id parent" using p(2) by (simp add: answers_def)
      with new p(2) \<open>parent \<in> set ms\<close> True \<open>m = m'\<close> show ?thesis by auto
    qed (use new \<open>m = m'\<close> in auto)
  qed
qed

text \<open>
  In every conversation each message has distinct recipients without its sender, and each
  response answers a request of the conversation: it was sent by a recipient of that request, goes
  to the requesting agent among others, and lies in the thread that the request opened. Every other
  message opens its own thread.
\<close>

theorem conversation_is_threaded:
  assumes "conversation ms" and "m \<in> set ms"
  shows "well_addressed m
    \<and> (if am_kind m = Response then \<exists>parent \<in> set ms. answers m parent \<and> am_threadId m = am_id parent
       else am_threadId m = am_id m)"
  using conversation_threads [OF assms] by (auto split: if_splits)

definition demo_request :: interaction_message where
  "demo_request = \<lparr>am_id = ''m1'', am_threadId = ''m1'', am_kind = Request, am_replyToMessageId = None,
     am_senderRunAgentId = ''a'', am_recipientRunAgentIds = [''b'']\<rparr>"

definition demo_response :: interaction_message where
  "demo_response = \<lparr>am_id = ''m2'', am_threadId = ''m1'', am_kind = Response, am_replyToMessageId = Some ''m1'',
     am_senderRunAgentId = ''b'', am_recipientRunAgentIds = [''a'']\<rparr>"

lemma demo_conversation: "conversation [demo_response, demo_request]"
proof (rule conversation.post [where i = "\<lparr>ai_id = ''m2'', ai_kind = Response, ai_senderRunAgentId = ''b'',
      ai_recipientRunAgentIds = [''a''], ai_replyToMessageId = Some ''m1'',
      ai_parentMessage = Some demo_request, ai_parentIssuedToSender = Some True\<rparr>"])
  show "conversation [demo_request]"
    by (rule conversation.post [OF conversation.start, where i = "\<lparr>ai_id = ''m1'', ai_kind = Request,
          ai_senderRunAgentId = ''a'', ai_recipientRunAgentIds = [''b''], ai_replyToMessageId = None,
          ai_parentMessage = None, ai_parentIssuedToSender = None\<rparr>"])
      (simp_all add: createAgentInteraction_def demo_request_def)
qed (simp_all add: createAgentInteraction_def demo_request_def demo_response_def)

lemma conversation_is_threaded_witness:
  "well_addressed demo_response \<and> (\<exists>parent \<in> set [demo_response, demo_request].
     answers demo_response parent \<and> am_threadId demo_response = am_id parent)"
proof -
  have "demo_response \<in> set [demo_response, demo_request]" "am_kind demo_response = Response"
    by (simp_all add: demo_response_def)
  then show ?thesis using conversation_is_threaded [OF demo_conversation] by presburger
qed

end
