(* ===== verification/Attribution.thy ===== *)
theory Attribution
  imports Shared
begin

text \<open>
  \<open>packages/core/src/v2/attribution.ts\<close>: attributing an evaluation result to an agent, a role or a
  team, with its evidence. The constructor looks at the three targets as untyped values; a target
  is absent, a string or something else. The three interfaces of an attribution differ in the name
  of their target field only, which the scope determines, so they are one record here.
\<close>

section \<open>Data\<close>

datatype evidence_type = Ev_task | Ev_submission | Ev_artifact | Ev_message | Ev_run_agent

record evidence_ref =
  ev_type :: evidence_type
  ev_id :: string

datatype attribution_scope = Individual | Role | Team

datatype raw_value = Absent | Text_value string | Other_value

record attribution =
  at_id :: string
  at_metricResultId :: string
  at_scope :: attribution_scope
  at_target :: raw_value
  at_evidenceRefs :: "evidence_ref list"

record attribution_input =
  ati_id :: string
  ati_metricResultId :: string
  ati_scope :: attribution_scope
  ati_targetRunAgentId :: raw_value
  ati_targetRoleId :: raw_value
  ati_targetTeamId :: raw_value
  ati_evidenceRefs :: "evidence_ref list"

section \<open>Operations\<close>

fun is_string_value :: "raw_value \<Rightarrow> bool" where
  "is_string_value (Text_value s) = True"
| "is_string_value _ = False"

fun is_given_target :: "raw_value \<Rightarrow> bool" where
  "is_given_target (Text_value s) = (length s > 0)"
| "is_given_target _ = False"

definition expected_target :: "attribution_input \<Rightarrow> raw_value" where
  "expected_target i =
     (if ati_scope i = Individual then ati_targetRunAgentId i
      else if ati_scope i = Role then ati_targetRoleId i else ati_targetTeamId i)"

definition given_targets :: "attribution_input \<Rightarrow> raw_value list" where
  "given_targets i = filter is_given_target [ati_targetRunAgentId i, ati_targetRoleId i, ati_targetTeamId i]"

definition createEvaluationAttribution :: "attribution_input \<Rightarrow> attribution result" where
  "createEvaluationAttribution i =
     and_then (requireNonEmpty (ati_id i)) (\<lambda>_.
     and_then (requireNonEmpty (ati_metricResultId i)) (\<lambda>_.
       if length (ati_evidenceRefs i) = 0 then fail ''ATTRIBUTION_EVIDENCE_REQUIRED''
       else if length (given_targets i) \<noteq> 1 \<or> \<not> is_string_value (expected_target i)
       then fail ''ATTRIBUTION_TARGET_INVALID''
       else
         and_then (map_result (\<lambda>r. and_then (requireNonEmpty (ev_id r)) (\<lambda>_. Inr r)) (ati_evidenceRefs i))
           (\<lambda>evidenceRefs. Inr \<lparr>at_id = ati_id i, at_metricResultId = ati_metricResultId i,
              at_scope = ati_scope i, at_target = expected_target i, at_evidenceRefs = evidenceRefs\<rparr>)))"

definition groupEvaluationAttributions ::
  "attribution list \<Rightarrow> attribution list \<times> attribution list \<times> attribution list" where
  "groupEvaluationAttributions as =
     (filter (\<lambda>a. at_scope a = Individual) as, filter (\<lambda>a. at_scope a = Role) as,
      filter (\<lambda>a. at_scope a = Team) as)"

section \<open>Properties\<close>

lemma evidence_checked:
  "map_result (\<lambda>r. and_then (requireNonEmpty (ev_id r)) (\<lambda>_. Inr r)) rs = Inr ys \<longleftrightarrow>
   ys = rs \<and> list_all (\<lambda>r. js_trim (ev_id r) \<noteq> []) rs"
  by (induction rs arbitrary: ys) auto

text \<open>
  An attribution is made exactly for a named result with non-empty evidence references,
  exactly one given target and, for the scope's own target, a string; it carries the scope's target
  and the evidence unchanged.
\<close>

theorem attribution_accepted_iff:
  "createEvaluationAttribution i = Inr a \<longleftrightarrow>
     js_trim (ati_id i) \<noteq> [] \<and> js_trim (ati_metricResultId i) \<noteq> []
     \<and> ati_evidenceRefs i \<noteq> [] \<and> list_all (\<lambda>r. js_trim (ev_id r) \<noteq> []) (ati_evidenceRefs i)
     \<and> length (given_targets i) = 1 \<and> is_string_value (expected_target i)
     \<and> a = \<lparr>at_id = ati_id i, at_metricResultId = ati_metricResultId i, at_scope = ati_scope i,
            at_target = expected_target i, at_evidenceRefs = ati_evidenceRefs i\<rparr>"
  by (auto simp: createEvaluationAttribution_def evidence_checked)

text \<open>The one given target need not be the scope's: the scope's own target may be the empty string.\<close>

definition mismatched_input :: attribution_input where
  "mismatched_input = \<lparr>ati_id = ''a'', ati_metricResultId = ''m'', ati_scope = Individual,
     ati_targetRunAgentId = Text_value [], ati_targetRoleId = Text_value ''role'', ati_targetTeamId = Absent,
     ati_evidenceRefs = [\<lparr>ev_type = Ev_task, ev_id = ''t''\<rparr>]\<rparr>"

lemma attribution_to_empty_target:
  "\<exists>a. createEvaluationAttribution mismatched_input = Inr a \<and> at_scope a = Individual \<and> at_target a = Text_value []"
proof -
  have "js_trim ''a'' \<noteq> []" "js_trim ''m'' \<noteq> []" "js_trim ''t'' \<noteq> []" by code_simp+
  then show ?thesis by (simp add: attribution_accepted_iff mismatched_input_def given_targets_def expected_target_def)
qed

text \<open>Grouping loses and invents nothing.\<close>

lemma groups_partition:
  assumes "groupEvaluationAttributions as = (individual, role, team)"
  shows "mset as = mset individual + mset role + mset team"
proof -
  have "mset as = mset (filter (\<lambda>a. at_scope a = Individual) as) + mset (filter (\<lambda>a. at_scope a = Role) as)
      + mset (filter (\<lambda>a. at_scope a = Team) as)"
  proof (induction as)
    case (Cons a as)
    then show ?case by (cases "at_scope a") auto
  qed simp
  with assms show ?thesis by (simp add: groupEvaluationAttributions_def)
qed

end
