(* ===== verification/HashChain.thy ===== *)
theory HashChain
  imports CanonicalText Shared
begin

text \<open>
  Two contracts of the journals. A hash chain: each record stores the hash of its canonical text,
  which includes the hash of the record before it. An idempotent log: a command with a key already
  in the log is answered from the log, or refused when it is not the same request.
\<close>

section \<open>Entries of canonical objects\<close>

lemma canonical_entries:
  assumes "canonical_form (JObject es) = canonical_form (JObject fs)"
    and "distinct (map fst es)" and "distinct (map fst fs)"
  shows "map_option canonical_form (map_of es k) = map_option canonical_form (map_of fs k)"
proof -
  have sorted: "map_of (sort_key fst xs) = map_of xs" if d: "distinct (map fst xs)"
    for xs :: "(string \<times> json) list"
  proof -
    have "mset (map fst (sort_key fst xs)) = mset (map fst xs)" by simp
    then have "distinct (map fst (sort_key fst xs))" using d mset_eq_imp_distinct_iff by blast
    with d show ?thesis by (simp add: map_of_inject_set)
  qed
  have entry: "map_of (map (\<lambda>e. (fst e, canonical_form (snd e))) xs) k = map_option canonical_form (map_of xs k)"
    for xs :: "(string \<times> json) list" by (induction xs) auto
  have "map (\<lambda>e. (fst e, canonical_form (snd e))) (sort_key fst es)
      = map (\<lambda>e. (fst e, canonical_form (snd e))) (sort_key fst fs)" using assms(1) by simp
  then show ?thesis using entry [of "sort_key fst es"] entry [of "sort_key fst fs"]
    by (simp only: sorted [OF assms(2)] sorted [OF assms(3)])
qed

section \<open>Hash chains\<close>

locale hash_chain =
  fixes previous :: "'r \<Rightarrow> string" and stored :: "'r \<Rightarrow> string"
    and text_of :: "'r \<Rightarrow> string result" and sound :: "'r \<Rightarrow> bool" and content :: "'r \<Rightarrow> 'k"
  assumes text_commits: "sound r \<Longrightarrow> sound s \<Longrightarrow> text_of r = Inr t \<Longrightarrow> text_of s = Inr t \<Longrightarrow>
      previous r = previous s \<and> content r = content s"
begin

fun linked :: "(string \<Rightarrow> string) \<Rightarrow> string \<Rightarrow> 'r list \<Rightarrow> string \<Rightarrow> bool" where
  "linked hash genesis [] head \<longleftrightarrow> head = genesis"
| "linked hash genesis (r # rs) head \<longleftrightarrow>
     previous r = genesis \<and> (\<exists>t. text_of r = Inr t \<and> stored r = hash t) \<and> linked hash (stored r) rs head"

definition texts :: "'r list \<Rightarrow> string set" where
  "texts rs = {t. \<exists>r \<in> set rs. text_of r = Inr t}"

lemma linked_append:
  "linked hash g (rs @ ss) h \<longleftrightarrow> (\<exists>m. linked hash g rs m \<and> linked hash m ss h)"
  by (induction rs arbitrary: g) auto

lemma linked_deterministic: "linked hash g rs h \<Longrightarrow> linked hash g rs h' \<Longrightarrow> h = h'"
  by (induction rs arbitrary: g) auto

text \<open>The head determines a chain of known length, unless the hash collides on a text of it.\<close>

lemma head_commits:
  "linked hash g rs h \<Longrightarrow> linked hash g' ss h \<Longrightarrow> length rs = length ss \<Longrightarrow>
   inj_on hash (texts rs \<union> texts ss) \<Longrightarrow> list_all sound rs \<Longrightarrow> list_all sound ss \<Longrightarrow>
   g = g' \<and> map content rs = map content ss"
proof (induction rs arbitrary: ss h rule: rev_induct)
  case Nil
  then show ?case by simp
next
  case (snoc r rs)
  from snoc.prems(3) obtain s ss' where ss: "ss = ss' @ [s]" "length rs = length ss'"
    by (cases ss rule: rev_cases) auto
  from snoc.prems(1,2) ss obtain t u where
    r: "text_of r = Inr t" "stored r = hash t" "linked hash g rs (previous r)" "h = stored r" and
    s: "text_of s = Inr u" "stored s = hash u" "linked hash g' ss' (previous s)" "h = stored s"
    by (auto simp: linked_append)
  have "t \<in> texts (rs @ [r]) \<union> texts ss" "u \<in> texts (rs @ [r]) \<union> texts ss"
    using r(1) s(1) ss by (auto simp: texts_def)
  with snoc.prems(4) r(2,4) s(2,4) have "t = u" by (metis inj_onD)
  then have eq: "previous r = previous s" "content r = content s"
    using text_commits [of r s t] snoc.prems(5,6) ss r(1) s(1) by auto
  have "texts rs \<union> texts ss' \<subseteq> texts (rs @ [r]) \<union> texts ss" using ss by (auto simp: texts_def)
  then have "inj_on hash (texts rs \<union> texts ss')" using snoc.prems(4) inj_on_subset by blast
  moreover have "list_all sound rs" "list_all sound ss'" using snoc.prems(5,6) ss by simp_all
  ultimately have "g = g' \<and> map content rs = map content ss'"
    using snoc.IH [OF r(3) _ ss(2)] s(3) eq(1) by simp
  with eq ss show ?case by simp
qed

end

section \<open>Idempotent logs\<close>

locale idempotent_log =
  fixes entries :: "'s \<Rightarrow> 'r list" and request_key :: "'q \<Rightarrow> 'k" and entry_key :: "'r \<Rightarrow> 'k"
    and request_hash :: "'q \<Rightarrow> string" and entry_hash :: "'r \<Rightarrow> string"
    and command :: "'s \<Rightarrow> 'q \<Rightarrow> ('s \<times> 'r \<times> bool) result" and well_formed :: "'q \<Rightarrow> bool"
  assumes malformed: "command s q = Inr a \<Longrightarrow> well_formed q"
    and known: "well_formed q \<Longrightarrow> find (\<lambda>r. entry_key r = request_key q) (entries s) = Some r \<Longrightarrow>
      command s q = (if entry_hash r = request_hash q then Inr (s, r, True) else fail ''IDEMPOTENCY_CONFLICT'')"
    and fresh: "find (\<lambda>r. entry_key r = request_key q) (entries s) = None \<Longrightarrow> command s q = Inr (s', r, replayed) \<Longrightarrow>
      \<not> replayed \<and> entry_key r = request_key q \<and> entry_hash r = request_hash q \<and> entries s' = entries s @ [r]"
begin

lemma find_append: "find P (xs @ ys) = (case find P xs of None \<Rightarrow> find P ys | Some x \<Rightarrow> Some x)"
  by (induction xs) auto

text \<open>After an answered command the log holds its answer, first for its key, and keeps it so.\<close>

lemma answered:
  assumes "command s q = Inr (s', r, b)"
  shows "find (\<lambda>r. entry_key r = request_key q) (entries s') = Some r \<and> entry_hash r = request_hash q"
proof (cases "find (\<lambda>r. entry_key r = request_key q) (entries s)")
  case None
  with fresh [OF None assms] show ?thesis by (simp add: find_append)
next
  case (Some r')
  with known [OF malformed [OF assms] Some] assms show ?thesis by (auto split: if_splits)
qed

lemma log_grows:
  assumes "command s q = Inr (s', r, b)" and "find P (entries s) = Some e"
  shows "find P (entries s') = Some e"
proof (cases "find (\<lambda>r. entry_key r = request_key q) (entries s)")
  case None
  with fresh [OF None assms(1)] assms(2) show ?thesis by (simp add: find_append)
next
  case (Some r')
  with known [OF malformed [OF assms(1)] Some] assms show ?thesis by (auto split: if_splits)
qed

lemma log_grows_run:
  "run_commands (\<lambda>s q. and_then (command s q) (\<lambda>a. Inr (fst a))) s qs = Inr s' \<Longrightarrow>
   find P (entries s) = Some e \<Longrightarrow> find P (entries s') = Some e"
  using run_commands_invariant [where P = "\<lambda>s. find P (entries s) = Some e"] log_grows by fastforce

text \<open>A repeated request gets the first answer again and changes nothing, however much later; a
  different request under the same key is refused.\<close>

lemma retry:
  assumes "command s q = Inr (s1, r, b)"
    and "run_commands (\<lambda>s q. and_then (command s q) (\<lambda>a. Inr (fst a))) s1 qs = Inr s2"
  shows "command s2 q = Inr (s2, r, True)"
  using known [OF malformed [OF assms(1)]] log_grows_run [OF assms(2)] answered [OF assms(1)] by auto

lemma conflict:
  assumes "command s q = Inr (s1, r, b)"
    and "run_commands (\<lambda>s q. and_then (command s q) (\<lambda>a. Inr (fst a))) s1 qs = Inr s2"
    and "request_key q' = request_key q" and "request_hash q' \<noteq> request_hash q" and "well_formed q'"
  shows "command s2 q' = fail ''IDEMPOTENCY_CONFLICT''"
  using known [OF assms(5)] log_grows_run [OF assms(2)] answered [OF assms(1)] assms(3,4) by auto

end

end
