(* ===== verification/RunEvents.thy ===== *)
theory RunEvents
  imports CanonicalJson HashChain
begin

text \<open>
  \<open>packages/core/src/v2/run-events.ts\<close>: preparing a batch of events for the journal of a run. The
  batch is checked, numbered from the journal's head and chained by hashes; it carries the head it
  was prepared on and the head that results. The hash function is an argument of the code and of
  the model.
\<close>

section \<open>Data\<close>

datatype assertion_class =
    Platform_observed | Participant_reported | Evaluator_derived | Operator_asserted | External_outcome

fun assertion_text :: "assertion_class \<Rightarrow> string" where
  "assertion_text Platform_observed = ''platform_observed''"
| "assertion_text Participant_reported = ''participant_reported''"
| "assertion_text Evaluator_derived = ''evaluator_derived''"
| "assertion_text Operator_asserted = ''operator_asserted''"
| "assertion_text External_outcome = ''external_outcome''"

record run_event_head =
  eh_runId :: string
  eh_nextRunSeq :: js_number
  eh_headHash :: string

record run_event_draft =
  ed_eventId :: string
  ed_streamType :: string
  ed_streamId :: string
  ed_eventType :: string
  ed_actorType :: string
  ed_actorId :: string
  ed_correlationId :: "string option"
  ed_causationId :: "string option"
  ed_virtualTime :: string
  ed_occurredAt :: string
  ed_recordedAt :: string
  ed_schemaVersion :: js_number
  ed_assertionClass :: assertion_class
  ed_payload :: json
  ed_traceId :: "string option"
  ed_spanId :: "string option"

record prepared_run_event = run_event_draft +
  pe_runId :: string
  pe_runSeq :: js_number
  pe_previousHash :: string
  pe_eventHash :: string

record append_batch_request =
  ab_runId :: string
  ab_headPrecondition :: run_event_head
  ab_events :: "prepared_run_event list"
  ab_nextHead :: run_event_head

section \<open>Operations\<close>

definition eventHashMaterial ::
  "string \<Rightarrow> js_number \<Rightarrow> string \<Rightarrow> 'a run_event_draft_scheme \<Rightarrow> json" where
  "eventHashMaterial runId runSeq previousHash draft = JObject
     ([(''runId'', JString runId),
       (''runSeq'', JNumber runSeq),
       (''eventId'', JString (ed_eventId draft)),
       (''streamType'', JString (ed_streamType draft)),
       (''streamId'', JString (ed_streamId draft)),
       (''eventType'', JString (ed_eventType draft)),
       (''actorType'', JString (ed_actorType draft)),
       (''actorId'', JString (ed_actorId draft)),
       (''virtualTime'', JString (ed_virtualTime draft)),
       (''occurredAt'', JString (ed_occurredAt draft)),
       (''recordedAt'', JString (ed_recordedAt draft)),
       (''schemaVersion'', JNumber (ed_schemaVersion draft)),
       (''assertionClass'', JString (assertion_text (ed_assertionClass draft))),
       (''payload'', ed_payload draft),
       (''previousHash'', JString previousHash)]
      @ opt_entry ''correlationId'' JString (ed_correlationId draft)
      @ opt_entry ''causationId'' JString (ed_causationId draft)
      @ opt_entry ''traceId'' JString (ed_traceId draft)
      @ opt_entry ''spanId'' JString (ed_spanId draft))"

definition validateDraft :: "run_event_draft \<Rightarrow> unit result" where
  "validateDraft draft =
     and_then (requireNonEmpty (ed_eventId draft)) (\<lambda>_.
     and_then (requireNonEmpty (ed_streamType draft)) (\<lambda>_.
     and_then (requireNonEmpty (ed_streamId draft)) (\<lambda>_.
     and_then (requireNonEmpty (ed_eventType draft)) (\<lambda>_.
     and_then (requireNonEmpty (ed_actorType draft)) (\<lambda>_.
     and_then (requireNonEmpty (ed_actorId draft)) (\<lambda>_.
     and_then (toEpoch (ed_virtualTime draft)) (\<lambda>_.
     and_then (toEpoch (ed_occurredAt draft)) (\<lambda>_.
     and_then (toEpoch (ed_recordedAt draft)) (\<lambda>_.
       if \<not> js_is_integer (ed_schemaVersion draft) \<or> js_lt (ed_schemaVersion draft) (Num 1)
       then fail ''INVALID_EVENT_SCHEMA_VERSION''
       else Inr ())))))))))"

text \<open>The loop that checks the drafts, with the event ids seen so far.\<close>

fun check_drafts :: "string set \<Rightarrow> run_event_draft list \<Rightarrow> unit result" where
  "check_drafts seen [] = Inr ()"
| "check_drafts seen (draft # drafts) =
     and_then (validateDraft draft) (\<lambda>_.
       if ed_eventId draft \<in> seen then fail ''DUPLICATE_EVENT_ID''
       else check_drafts (insert (ed_eventId draft) seen) drafts)"

text \<open>The loop that numbers and chains them: the events and the last hash.\<close>

fun prepare_events ::
  "(string \<Rightarrow> string) \<Rightarrow> run_event_head \<Rightarrow> nat \<Rightarrow> string \<Rightarrow> run_event_draft list \<Rightarrow>
   (prepared_run_event list \<times> string) result" where
  "prepare_events hashCanonical head index previousHash [] = Inr ([], previousHash)"
| "prepare_events hashCanonical head index previousHash (draft # drafts) =
     (let runSeq = js_add (eh_nextRunSeq head) (int_num (int index)) in
      and_then (cloneAndFreezeCanonicalJson (ed_payload draft)) (\<lambda>payload.
        let immutableDraft = draft\<lparr>ed_payload := payload\<rparr> in
        and_then (canonicalJson (eventHashMaterial (eh_runId head) runSeq previousHash immutableDraft)) (\<lambda>canonical.
        let eventHash = hashCanonical canonical in
        and_then (requireNonEmpty eventHash) (\<lambda>_.
        let prepared = run_event_draft.extend immutableDraft
              (prepared_run_event.fields (eh_runId head) runSeq previousHash eventHash) in
        and_then (prepare_events hashCanonical head (Suc index) eventHash drafts) (\<lambda>rest.
          Inr (prepared # fst rest, snd rest))))))"

definition prepareRunEventAppendBatch ::
  "run_event_head \<Rightarrow> run_event_draft list \<Rightarrow> (string \<Rightarrow> string) \<Rightarrow> append_batch_request result" where
  "prepareRunEventAppendBatch head drafts hashCanonical =
     and_then (requireNonEmpty (eh_runId head)) (\<lambda>_.
     and_then (requireNonEmpty (eh_headHash head)) (\<lambda>_.
       if \<not> js_is_integer (eh_nextRunSeq head) \<or> js_lt (eh_nextRunSeq head) (Num 1)
       then fail ''INVALID_EVENT_HEAD''
       else if length drafts = 0 then fail ''EMPTY_EVENT_BATCH''
       else
         and_then (check_drafts {} drafts) (\<lambda>_.
         and_then (prepare_events hashCanonical head 0 (eh_headHash head) drafts) (\<lambda>prepared.
           Inr \<lparr>ab_runId = eh_runId head, ab_headPrecondition = head, ab_events = fst prepared,
                ab_nextHead = \<lparr>eh_runId = eh_runId head,
                  eh_nextRunSeq = js_add (eh_nextRunSeq head) (len_num (fst prepared)),
                  eh_headHash = snd prepared\<rparr>\<rparr>))))"

text \<open>The journal: batches appended one after the other, each on the head the last one left.\<close>

fun append_batches ::
  "(string \<Rightarrow> string) \<Rightarrow> run_event_head \<Rightarrow> run_event_draft list list \<Rightarrow>
   (prepared_run_event list \<times> run_event_head) result" where
  "append_batches hashCanonical head [] = Inr ([], head)"
| "append_batches hashCanonical head (drafts # batches) =
     and_then (prepareRunEventAppendBatch head drafts hashCanonical) (\<lambda>r.
     and_then (append_batches hashCanonical (ab_nextHead r) batches) (\<lambda>rest.
       Inr (ab_events r @ fst rest, snd rest)))"

section \<open>The chain\<close>

definition event_text :: "prepared_run_event \<Rightarrow> string result" where
  "event_text e = canonicalJson (eventHashMaterial (pe_runId e) (pe_runSeq e) (pe_previousHash e) e)"

definition event_sound :: "prepared_run_event \<Rightarrow> bool" where
  "event_sound e \<longleftrightarrow> is_double (pe_runSeq e) \<and> is_double (ed_schemaVersion e) \<and> json_doubles (ed_payload e)"

text \<open>What an event says, its payload up to the order of object entries.\<close>

definition event_content :: "prepared_run_event \<Rightarrow> run_event_draft \<times> string \<times> js_number" where
  "event_content e =
     (run_event_draft.truncate e\<lparr>ed_payload := canonical_form (ed_payload e)\<rparr>, pe_runId e, pe_runSeq e)"

lemma assertion_text_inj [simp]: "assertion_text a = assertion_text b \<longleftrightarrow> a = b"
  by (cases a; cases b) simp_all

definition material_entries :: "json \<Rightarrow> (string \<times> json) list" where
  "material_entries j = (case j of JObject es \<Rightarrow> es | _ \<Rightarrow> [])"

lemma event_material_distinct: "distinct (map fst (material_entries (eventHashMaterial i n p d)))"
  by (simp add: eventHashMaterial_def material_entries_def)

lemma event_material_commits:
  assumes "canonical_form (eventHashMaterial i n p d) = canonical_form (eventHashMaterial j m q e)"
  shows "map_option canonical_form (map_of (material_entries (eventHashMaterial i n p d)) k) =
         map_option canonical_form (map_of (material_entries (eventHashMaterial j m q e)) k)"
proof -
  have o: "eventHashMaterial i n p d = JObject (material_entries (eventHashMaterial i n p d))" for i n p
    and d :: "'z run_event_draft_scheme"
    by (simp add: eventHashMaterial_def material_entries_def)
  show ?thesis
    by (rule canonical_entries) (use assms o event_material_distinct in metis)+
qed

definition event_entry :: "string \<Rightarrow> js_number \<Rightarrow> string \<Rightarrow> 'a run_event_draft_scheme \<Rightarrow> string \<Rightarrow> json option" where
  "event_entry i n p d k = map_of (material_entries (eventHashMaterial i n p d)) k"

lemma event_entry_fixed:
  "event_entry i n p d ''runId'' = Some (JString i)"
  "event_entry i n p d ''runSeq'' = Some (JNumber n)"
  "event_entry i n p d ''previousHash'' = Some (JString p)"
  "event_entry i n p d ''eventId'' = Some (JString (ed_eventId d))"
  "event_entry i n p d ''streamType'' = Some (JString (ed_streamType d))"
  "event_entry i n p d ''streamId'' = Some (JString (ed_streamId d))"
  "event_entry i n p d ''eventType'' = Some (JString (ed_eventType d))"
  "event_entry i n p d ''actorType'' = Some (JString (ed_actorType d))"
  "event_entry i n p d ''actorId'' = Some (JString (ed_actorId d))"
  "event_entry i n p d ''virtualTime'' = Some (JString (ed_virtualTime d))"
  "event_entry i n p d ''occurredAt'' = Some (JString (ed_occurredAt d))"
  "event_entry i n p d ''recordedAt'' = Some (JString (ed_recordedAt d))"
  "event_entry i n p d ''schemaVersion'' = Some (JNumber (ed_schemaVersion d))"
  "event_entry i n p d ''assertionClass'' = Some (JString (assertion_text (ed_assertionClass d)))"
  "event_entry i n p d ''payload'' = Some (ed_payload d)"
  by (simp_all add: event_entry_def eventHashMaterial_def material_entries_def map_add_def)

lemma event_entry_optional:
  "event_entry i n p d ''correlationId'' = map_option JString (ed_correlationId d)"
  "event_entry i n p d ''causationId'' = map_option JString (ed_causationId d)"
  "event_entry i n p d ''traceId'' = map_option JString (ed_traceId d)"
  "event_entry i n p d ''spanId'' = map_option JString (ed_spanId d)"
  by (simp_all add: event_entry_def eventHashMaterial_def material_entries_def map_add_def
      split: option.splits)

lemma event_text_commits:
  assumes "event_sound r" and "event_sound s" and "event_text r = Inr t" and "event_text s = Inr t"
  shows "pe_previousHash r = pe_previousHash s \<and> event_content r = event_content s"
proof -
  have doubles: "json_doubles (eventHashMaterial (pe_runId e) (pe_runSeq e) (pe_previousHash e) e)"
    if "event_sound e" for e
    using that by (auto simp: eventHashMaterial_def event_sound_def list_all_iff dest!: snd_opt_entry)
  have "canonical_form (eventHashMaterial (pe_runId r) (pe_runSeq r) (pe_previousHash r) r) =
      canonical_form (eventHashMaterial (pe_runId s) (pe_runSeq s) (pe_previousHash s) s)"
    using canonical_text_commits assms doubles unfolding event_text_def by blast
  then have entry: "map_option canonical_form (event_entry (pe_runId r) (pe_runSeq r) (pe_previousHash r) r k) =
      map_option canonical_form (event_entry (pe_runId s) (pe_runSeq s) (pe_previousHash s) s k)" for k
    unfolding event_entry_def by (rule event_material_commits)
  have opt: "map_option canonical_form (map_option JString a) = map_option canonical_form (map_option JString b)
      \<Longrightarrow> a = b" for a b
    by (cases a; cases b) simp_all
  have "pe_previousHash r = pe_previousHash s" "pe_runId r = pe_runId s" "pe_runSeq r = pe_runSeq s"
    using entry [of "''previousHash''"] entry [of "''runId''"] entry [of "''runSeq''"]
    by (simp_all only: event_entry_fixed) simp_all
  moreover have "ed_eventId r = ed_eventId s" "ed_streamType r = ed_streamType s" "ed_streamId r = ed_streamId s"
    "ed_eventType r = ed_eventType s" "ed_actorType r = ed_actorType s" "ed_actorId r = ed_actorId s"
    using entry [of "''eventId''"] entry [of "''streamType''"] entry [of "''streamId''"] entry [of "''eventType''"]
      entry [of "''actorType''"] entry [of "''actorId''"]
    by (simp_all only: event_entry_fixed) simp_all
  moreover have "ed_virtualTime r = ed_virtualTime s" "ed_occurredAt r = ed_occurredAt s"
    "ed_recordedAt r = ed_recordedAt s" "ed_schemaVersion r = ed_schemaVersion s"
    "ed_assertionClass r = ed_assertionClass s" "canonical_form (ed_payload r) = canonical_form (ed_payload s)"
    using entry [of "''virtualTime''"] entry [of "''occurredAt''"] entry [of "''recordedAt''"]
      entry [of "''schemaVersion''"] entry [of "''assertionClass''"] entry [of "''payload''"]
    by (simp_all only: event_entry_fixed) simp_all
  moreover have "ed_correlationId r = ed_correlationId s" "ed_causationId r = ed_causationId s"
    "ed_traceId r = ed_traceId s" "ed_spanId r = ed_spanId s"
    using entry [of "''correlationId''"] entry [of "''causationId''"] entry [of "''traceId''"]
      entry [of "''spanId''"] opt
    by (simp_all only: event_entry_optional)
  ultimately show ?thesis by (simp add: event_content_def run_event_draft.defs)
qed

interpretation journal: hash_chain pe_previousHash pe_eventHash event_text event_sound event_content
  by unfold_locales (rule event_text_commits)

section \<open>What a batch holds\<close>

text \<open>The event carries the draft, with the frozen copy of the payload.\<close>

definition carries :: "prepared_run_event \<Rightarrow> run_event_draft \<Rightarrow> bool" where
  "carries e draft \<longleftrightarrow>
     run_event_draft.truncate e = draft\<lparr>ed_payload := drop_proto (ed_payload draft)\<rparr>
     \<and> cloneable (ed_payload draft)"

definition prepared_of ::
  "run_event_draft \<Rightarrow> string \<Rightarrow> js_number \<Rightarrow> string \<Rightarrow> string \<Rightarrow> prepared_run_event" where
  "prepared_of d i n p h =
     run_event_draft.extend (d\<lparr>ed_payload := drop_proto (ed_payload d)\<rparr>) (prepared_run_event.fields i n p h)"

lemma prepared_of_simps [simp]:
  "pe_runId (prepared_of d i n p h) = i" "pe_runSeq (prepared_of d i n p h) = n"
  "pe_previousHash (prepared_of d i n p h) = p" "pe_eventHash (prepared_of d i n p h) = h"
  "carries (prepared_of d i n p h) d \<longleftrightarrow> cloneable (ed_payload d)"
  "event_text (prepared_of d i n p h) =
     canonicalJson (eventHashMaterial i n p (d\<lparr>ed_payload := drop_proto (ed_payload d)\<rparr>))"
  by (simp_all add: prepared_of_def run_event_draft.defs prepared_run_event.defs carries_def event_text_def
      eventHashMaterial_def)

lemma prepare_events_Cons:
  "prepare_events hash head i prev (d # ds) = Inr p \<longleftrightarrow>
     (\<exists>t es z. cloneable (ed_payload d)
        \<and> event_text (prepared_of d (eh_runId head) (js_add (eh_nextRunSeq head) (int_num (int i))) prev (hash t)) = Inr t
        \<and> js_trim (hash t) \<noteq> [] \<and> prepare_events hash head (Suc i) (hash t) ds = Inr (es, z)
        \<and> p = (prepared_of d (eh_runId head) (js_add (eh_nextRunSeq head) (int_num (int i))) prev (hash t) # es, z))"
  by (auto simp: clone_canonical_Inr prepared_of_def [symmetric] Let_def simp del: js_add.simps split: prod.splits)

lemma prepare_events_effect:
  "prepare_events hash head i prev ds = Inr (es, z) \<Longrightarrow>
   journal.linked hash prev es z \<and> list_all2 carries es ds
   \<and> map pe_runSeq es = map (\<lambda>k. js_add (eh_nextRunSeq head) (int_num (int k))) [i..<i + length ds]
   \<and> (\<forall>e \<in> set es. pe_runId e = eh_runId head)"
proof (induction ds arbitrary: i prev es)
  case Nil
  then show ?case by simp
next
  case (Cons d ds)
  from Cons.prems obtain t es' where t:
    "event_text (prepared_of d (eh_runId head) (js_add (eh_nextRunSeq head) (int_num (int i))) prev (hash t)) = Inr t"
    "cloneable (ed_payload d)" "prepare_events hash head (Suc i) (hash t) ds = Inr (es', z)"
    "es = prepared_of d (eh_runId head) (js_add (eh_nextRunSeq head) (int_num (int i))) prev (hash t) # es'"
    unfolding prepare_events_Cons by auto
  have "[i..<i + length (d # ds)] = i # [Suc i..<Suc i + length ds]" by (simp add: upt_rec)
  with Cons.IH [OF t(3)] t(1,2,4) show ?case by (simp del: js_add.simps upt_Suc)
qed

lemma prepare_batch_Inr:
  assumes "prepareRunEventAppendBatch head drafts hash = Inr r" and "eh_nextRunSeq head = int_num n"
    and "n + int (length drafts) \<le> 2 ^ 53"
  shows "journal.linked hash (eh_headHash head) (ab_events r) (eh_headHash (ab_nextHead r))
    \<and> list_all2 carries (ab_events r) drafts
    \<and> map pe_runSeq (ab_events r) = map (\<lambda>k. int_num (n + int k)) [0..<length drafts]
    \<and> eh_nextRunSeq (ab_nextHead r) = int_num (n + int (length drafts))
    \<and> eh_runId (ab_nextHead r) = eh_runId head \<and> 1 \<le> n \<and> drafts \<noteq> []
    \<and> (\<forall>e \<in> set (ab_events r). pe_runId e = eh_runId head)"
proof -
  obtain es z where p: "prepare_events hash head 0 (eh_headHash head) drafts = Inr (es, z)"
    and r: "ab_events r = es" "eh_headHash (ab_nextHead r) = z" "eh_runId (ab_nextHead r) = eh_runId head"
      "eh_nextRunSeq (ab_nextHead r) = js_add (eh_nextRunSeq head) (len_num es)" and n: "1 \<le> n" "drafts \<noteq> []"
    using assms(1,2) by (auto simp: prepareRunEventAppendBatch_def simp del: js_add.simps)
  note e = prepare_events_effect [OF p]
  have len: "length es = length drafts" using e by (auto dest: list_all2_lengthD)
  have add: "js_add (eh_nextRunSeq head) (int_num (int k)) = int_num (n + int k)" if "k \<le> length drafts" for k
    unfolding assms(2) by (rule js_add_int) (use that n assms(3) in linarith)
  have "map pe_runSeq es = map (\<lambda>k. int_num (n + int k)) [0..<length drafts]"
    using e add by (simp del: js_add.simps)
  then show ?thesis using e r n len add [of "length drafts"] by (simp del: js_add.simps)
qed

section \<open>Properties\<close>

lemma append_batches_effect:
  "append_batches hash head dss = Inr (es, h) \<Longrightarrow> eh_nextRunSeq head = int_num n \<Longrightarrow>
   n + int (length (concat dss)) \<le> 2 ^ 53 \<Longrightarrow>
   journal.linked hash (eh_headHash head) es (eh_headHash h) \<and> list_all2 carries es (concat dss)
   \<and> map pe_runSeq es = map (\<lambda>k. int_num (n + int k)) [0..<length (concat dss)]
   \<and> eh_nextRunSeq h = int_num (n + int (length (concat dss)))"
proof (induction dss arbitrary: head es n)
  case Nil
  then show ?case by simp
next
  case (Cons ds dss)
  from Cons.prems(1) obtain r es' where r: "prepareRunEventAppendBatch head ds hash = Inr r"
    "append_batches hash (ab_nextHead r) dss = Inr (es', h)" "es = ab_events r @ es'"
    by auto
  have b: "n + int (length ds) \<le> 2 ^ 53" using Cons.prems(3) by simp
  note e = prepare_batch_Inr [OF r(1) Cons.prems(2) b]
  then have "eh_nextRunSeq (ab_nextHead r) = int_num (n + int (length ds))" by blast
  from Cons.IH [OF r(2) this] Cons.prems(3)
  have i: "journal.linked hash (eh_headHash (ab_nextHead r)) es' (eh_headHash h)" "list_all2 carries es' (concat dss)"
    "map pe_runSeq es' = map (\<lambda>k. int_num (n + int (length ds) + int k)) [0..<length (concat dss)]"
    "eh_nextRunSeq h = int_num (n + int (length ds) + int (length (concat dss)))" by simp_all
  have "map (\<lambda>k. int_num (n + int (length ds) + int k)) [0..<length (concat dss)] =
      map (\<lambda>k. int_num (n + int k)) [length ds..<length ds + length (concat dss)]"
    by (rule nth_equalityI) (simp_all add: algebra_simps)
  then have "map pe_runSeq es = map (\<lambda>k. int_num (n + int k)) [0..<length ds + length (concat dss)]"
    using r(3) e i(3) by (simp add: upt_add_eq_append [of 0])
  moreover have "journal.linked hash (eh_headHash head) es (eh_headHash h)"
    using r(3) e i(1) by (auto simp: journal.linked_append)
  moreover have "list_all2 carries es (concat (ds # dss))" using r(3) e i(2) by (auto intro: list_all2_appendI)
  ultimately show ?case using i(4) by (simp add: algebra_simps)
qed

text \<open>
  Appending batches extends one journal: its events are the drafts, in order, with frozen
  payloads, numbered without gap from the head's next number, each storing the hash of its canonical
  text, which names the hash of the event before it, from the old head to the new one.
\<close>

theorem appended_events_continue_journal:
  assumes "append_batches hash head dss = Inr (es, h)" and "eh_nextRunSeq head = int_num n"
    and "n + int (length (concat dss)) \<le> 2 ^ 53"
  shows "journal.linked hash (eh_headHash head) es (eh_headHash h)
    \<and> list_all2 carries es (concat dss)
    \<and> map pe_runSeq es = map (\<lambda>k. int_num (n + int k)) [0..<length (concat dss)]
    \<and> eh_nextRunSeq h = int_num (n + int (length (concat dss)))"
  using append_batches_effect [OF assms] .

definition draft_sound :: "run_event_draft \<Rightarrow> bool" where
  "draft_sound d \<longleftrightarrow> is_double (ed_schemaVersion d) \<and> json_doubles (ed_payload d)"

lemma json_doubles_drop_proto: "json_doubles v \<Longrightarrow> json_doubles (drop_proto v)"
  by (induction v rule: json_doubles.induct) (auto simp: list_all_iff)

lemma carries_sound:
  assumes "carries e d" and "draft_sound d" and "pe_runSeq e = int_num n" and "\<bar>n\<bar> \<le> 2 ^ 53"
  shows "event_sound e"
proof -
  have "ed_schemaVersion e = ed_schemaVersion (run_event_draft.truncate e)"
    "ed_payload e = ed_payload (run_event_draft.truncate e)" by (simp_all add: run_event_draft.defs)
  with assms show ?thesis
    by (simp add: carries_def event_sound_def draft_sound_def json_doubles_drop_proto)
qed

lemma journal_sound:
  assumes "append_batches hash head dss = Inr (es, h)" and n: "eh_nextRunSeq head = int_num n" "0 \<le> n"
    and le: "n + int (length (concat dss)) \<le> 2 ^ 53" and d: "list_all draft_sound (concat dss)"
  shows "list_all event_sound es"
proof -
  note e = append_batches_effect [OF assms(1) n(1) le]
  then have len: "length es = length (concat dss)" by (auto dest: list_all2_lengthD)
  show ?thesis unfolding list_all_length
  proof (intro allI impI)
    fix k assume k: "k < length es"
    have "carries (es ! k) (concat dss ! k)" using e k by (simp add: list_all2_nthD)
    moreover have "draft_sound (concat dss ! k)" using d k len by (simp add: list_all_length)
    moreover have "map pe_runSeq es ! k = int_num (n + int k)" using e k len by simp
    then have "pe_runSeq (es ! k) = int_num (n + int k)" using k by simp
    ultimately show "event_sound (es ! k)" by (rule carries_sound) (use k len le n(2) in linarith)
  qed
qed

text \<open>
  Property C22. The head of a journal commits to its whole history: two journals that start at the same
  number and end in the same head have event by event the same content (payloads up to the order of
  object entries) and start from the same head hash, unless the hash function collides on one of
  the texts it was given.
\<close>

theorem journal_head_commits_to_history:
  assumes "append_batches hash head dss = Inr (es, h)" and "append_batches hash head' dss' = Inr (es', h)"
    and "eh_nextRunSeq head = int_num n" and "eh_nextRunSeq head' = int_num n" and "0 \<le> n"
    and "n + int (length (concat dss)) \<le> 2 ^ 53" and "n + int (length (concat dss')) \<le> 2 ^ 53"
    and "list_all draft_sound (concat dss)" and "list_all draft_sound (concat dss')"
    and "inj_on hash (journal.texts es \<union> journal.texts es')"
  shows "eh_headHash head = eh_headHash head' \<and> map event_content es = map event_content es'"
proof -
  note a = append_batches_effect [OF assms(1,3,6)] and b = append_batches_effect [OF assms(2,4,7)]
  then have "int_num (n + int (length (concat dss))) = int_num (n + int (length (concat dss')))" by metis
  then have "length (concat dss) = length (concat dss')" by (simp only: js_number.inject of_int_eq_iff)
  then have len: "length es = length es'" using a b by (auto dest!: list_all2_lengthD)
  show ?thesis
    using journal.head_commits [OF _ _ len assms(10)] a b journal_sound [OF assms(1,3,5,6,8)]
      journal_sound [OF assms(2,4,5,7,9)] by blast
qed

section \<open>A small journal\<close>

definition demo_draft :: "string \<Rightarrow> run_event_draft" where
  "demo_draft i = \<lparr>ed_eventId = i, ed_streamType = ''run'', ed_streamId = ''r1'', ed_eventType = ''Started'',
     ed_actorType = ''operator'', ed_actorId = ''op'', ed_correlationId = None, ed_causationId = Some ''c'',
     ed_virtualTime = ''2026-01-01T00:00Z'', ed_occurredAt = ''2026-01-01T00:00Z'',
     ed_recordedAt = ''2026-01-01T00:00Z'', ed_schemaVersion = Num 1, ed_assertionClass = Platform_observed,
     ed_payload = JObject [(''ready'', JBool True)], ed_traceId = None, ed_spanId = None\<rparr>"

definition demo_head :: run_event_head where
  "demo_head = \<lparr>eh_runId = ''r1'', eh_nextRunSeq = Num 1, eh_headHash = ''genesis''\<rparr>"

definition demo_hash :: "string \<Rightarrow> string" where
  "demo_hash s = ''h'' @ s"

lemma demo_event_texts: "js_trim ''e1'' \<noteq> []" "js_trim ''r1'' \<noteq> []" "js_trim ''run'' \<noteq> []"
  "js_trim ''Started'' \<noteq> []" "js_trim ''operator'' \<noteq> []" "js_trim ''op'' \<noteq> []" "js_trim ''genesis'' \<noteq> []"
  "toEpoch ''2026-01-01T00:00Z'' = Inr 1767225600000"
  by code_simp+

lemma demo_hash_text: "js_trim (demo_hash s) \<noteq> []"
  by (simp add: js_trim_empty_iff demo_hash_def is_js_space_def)

lemma demo_event_canonical: "\<exists>t. canonicalJson (eventHashMaterial i (Num 1) p (demo_draft e)) = Inr t"
  by (simp add: eventHashMaterial_def demo_draft_def opt_entry_def sort_key_def)

lemma demo_appended: "\<exists>es h. append_batches demo_hash demo_head [[demo_draft ''e1'']] = Inr (es, h)"
proof -
  have valid: "validateDraft (demo_draft ''e1'') = Inr ()"
    by (simp add: validateDraft_def demo_draft_def requireNonEmpty_def demo_event_texts)
  have payload: "(demo_draft ''e1'')\<lparr>ed_payload := JObject [(''ready'', JBool True)]\<rparr> = demo_draft ''e1''"
    "ed_payload (demo_draft ''e1'') = JObject [(''ready'', JBool True)]"
    by (simp_all add: demo_draft_def)
  have clone: "cloneAndFreezeCanonicalJson (JObject [(''ready'', JBool True)]) = Inr (JObject [(''ready'', JBool True)])"
    by (simp add: clone_canonical_Inr cloneable_def)
  obtain t where t: "canonicalJson (eventHashMaterial ''r1'' (Num 1) ''genesis'' (demo_draft ''e1'')) = Inr t"
    using demo_event_canonical by blast
  show ?thesis
    by (simp add: prepareRunEventAppendBatch_def demo_head_def requireNonEmpty_def demo_event_texts valid payload
        clone t Let_def demo_hash_text)
qed

lemma appended_events_continue_journal_witness:
  "\<exists>es h. append_batches demo_hash demo_head [[demo_draft ''e1'']] = Inr (es, h)
     \<and> journal.linked demo_hash ''genesis'' es (eh_headHash h) \<and> eh_nextRunSeq h = Num 2"
proof -
  obtain es h where a: "append_batches demo_hash demo_head [[demo_draft ''e1'']] = Inr (es, h)"
    using demo_appended by blast
  have n: "eh_nextRunSeq demo_head = int_num 1" "eh_headHash demo_head = ''genesis''" by (simp_all add: demo_head_def)
  from appended_events_continue_journal [OF a n(1)] a n(2) show ?thesis by auto
qed

lemma journal_head_commits_to_history_witness:
  "\<exists>es h. append_batches demo_hash demo_head [[demo_draft ''e1'']] = Inr (es, h) \<and> map event_content es = map event_content es"
proof -
  obtain es h where a: "append_batches demo_hash demo_head [[demo_draft ''e1'']] = Inr (es, h)"
    using demo_appended by blast
  have n: "eh_nextRunSeq demo_head = int_num 1" by (simp add: demo_head_def)
  have d: "list_all draft_sound (concat [[demo_draft ''e1'']])"
    using is_double_int [of 1] by (simp add: draft_sound_def demo_draft_def)
  have inj: "inj_on demo_hash A" for A by (simp add: inj_on_def demo_hash_def)
  from journal_head_commits_to_history [OF a a n n _ _ _ d d inj] a show ?thesis by auto
qed

end
