(* ===== verification/AgentSync.thy ===== *)
theory AgentSync
  imports CanonicalJson HashChain
begin

text \<open>
  \<open>packages/core/src/v2/agent-sync.ts\<close>: what an agent of a run may see, and how it is delivered.
  Disclosures become receipts on a hash chain per agent, delivered in idempotent batches. The
  acknowledgements and the knowledge that follows from them are in \<open>AgentKnowledge\<close>.

  The hash function is an argument of the code; \<open>localeCompare\<close>, whose collation depends on the
  host, is a parameter of the model.
\<close>

section \<open>Data\<close>

record disclosure_grant =
  dg_id :: string
  dg_runId :: string
  dg_runAgentId :: string
  dg_sourceEventId :: string
  dg_sourceRunSeq :: js_number
  dg_grantedRunSeq :: js_number
  dg_revokedRunSeq :: "js_number option"
  dg_viewKind :: string
  dg_resourceType :: string
  dg_resourceId :: string
  dg_resourceVersion :: string
  dg_availableVirtualAt :: string
  dg_schemaVersion :: js_number
  dg_contentHash :: string
  dg_contentSnapshot :: "json option"
  dg_contentBlobRef :: "string option"

record receipt_body =
  ar_id :: string
  ar_disclosureId :: string
  ar_runId :: string
  ar_runAgentId :: string
  ar_agentReceiptSeq :: js_number
  ar_deliveryBatchId :: string
  ar_sourceEventId :: string
  ar_sourceRunSeq :: js_number
  ar_issuedEventId :: string
  ar_issuedRunSeq :: js_number
  ar_viewKind :: string
  ar_resourceType :: string
  ar_resourceId :: string
  ar_resourceVersion :: string
  ar_availableVirtualAt :: string
  ar_issuedVirtualAt :: string
  ar_issuedAt :: string
  ar_schemaVersion :: js_number
  ar_contentHash :: string
  ar_contentSnapshot :: "json option"
  ar_contentBlobRef :: "string option"
  ar_previousReceiptHash :: string

record view_receipt = receipt_body +
  ar_receiptHash :: string

record receipt_chain_head =
  ch_runId :: string
  ch_runAgentId :: string
  ch_lastReceiptSeq :: js_number
  ch_headHash :: string

record delivery_batch =
  db_id :: string
  db_runId :: string
  db_runAgentId :: string
  db_idempotencyKey :: string
  db_requestHash :: string
  db_afterReceiptSeq :: js_number
  db_fromReceiptSeq :: "js_number option"
  db_throughReceiptSeq :: js_number
  db_receiptHeadHash :: string
  db_runCursor :: js_number
  db_hasMore :: bool
  db_receipts :: "view_receipt list"

record issuance_coordinate =
  ic_disclosureId :: string
  ic_receiptId :: string
  ic_issuedEventId :: string
  ic_issuedRunSeq :: js_number

record issue_decision =
  sd_batch :: delivery_batch
  sd_receipts :: "view_receipt list"
  sd_batches :: "delivery_batch list"
  sd_chainHead :: receipt_chain_head
  sd_replayed :: bool

record sync_input =
  si_runId :: string
  si_runAgentId :: string
  si_eligibilityCutoffRunSeq :: js_number
  si_responseRunCursor :: js_number
  si_currentVirtualTime :: string
  si_afterReceiptSeq :: js_number
  si_maxItems :: js_number
  si_idempotencyKey :: string
  si_requestHash :: string
  si_deliveryBatchId :: string
  si_issuedAt :: string
  si_issuedVirtualAt :: string
  si_chainHead :: receipt_chain_head
  si_existingReceipts :: "view_receipt list"
  si_existingBatches :: "delivery_batch list"
  si_disclosures :: "disclosure_grant list"
  si_issuanceCoordinates :: "issuance_coordinate list"

section \<open>Eligible disclosures\<close>

definition receiptHashMaterial :: "'a receipt_body_scheme \<Rightarrow> json" where
  "receiptHashMaterial receipt = JObject
     ([(''id'', JString (ar_id receipt)),
       (''disclosureId'', JString (ar_disclosureId receipt)),
       (''runId'', JString (ar_runId receipt)),
       (''runAgentId'', JString (ar_runAgentId receipt)),
       (''agentReceiptSeq'', JNumber (ar_agentReceiptSeq receipt)),
       (''deliveryBatchId'', JString (ar_deliveryBatchId receipt)),
       (''sourceEventId'', JString (ar_sourceEventId receipt)),
       (''sourceRunSeq'', JNumber (ar_sourceRunSeq receipt)),
       (''issuedEventId'', JString (ar_issuedEventId receipt)),
       (''issuedRunSeq'', JNumber (ar_issuedRunSeq receipt)),
       (''viewKind'', JString (ar_viewKind receipt)),
       (''resourceType'', JString (ar_resourceType receipt)),
       (''resourceId'', JString (ar_resourceId receipt)),
       (''resourceVersion'', JString (ar_resourceVersion receipt)),
       (''availableVirtualAt'', JString (ar_availableVirtualAt receipt)),
       (''issuedVirtualAt'', JString (ar_issuedVirtualAt receipt)),
       (''issuedAt'', JString (ar_issuedAt receipt)),
       (''schemaVersion'', JNumber (ar_schemaVersion receipt)),
       (''contentHash'', JString (ar_contentHash receipt)),
       (''previousReceiptHash'', JString (ar_previousReceiptHash receipt))]
      @ opt_entry ''contentSnapshot'' (\<lambda>v. v) (ar_contentSnapshot receipt)
      @ opt_entry ''contentBlobRef'' JString (ar_contentBlobRef receipt))"

definition assertSyncIdentity :: "string \<Rightarrow> string \<Rightarrow> string \<Rightarrow> string \<Rightarrow> unit result" where
  "assertSyncIdentity expectedRunId expectedRunAgentId actualRunId actualRunAgentId =
     (if expectedRunId \<noteq> actualRunId \<or> expectedRunAgentId \<noteq> actualRunAgentId
      then fail ''SYNC_IDENTITY_MISMATCH'' else Inr ())"

text \<open>A chain of \<open>||\<close> over numeric differences and a final \<open>localeCompare\<close>: the first difference
  that is neither zero nor NaN decides.\<close>

definition truthy :: "js_number \<Rightarrow> bool" where
  "truthy x \<longleftrightarrow> x \<noteq> Num 0 \<and> x \<noteq> NaN"

definition disclosure_after ::
  "(string \<Rightarrow> string \<Rightarrow> js_number) \<Rightarrow> disclosure_grant \<Rightarrow> disclosure_grant \<Rightarrow> bool" where
  "disclosure_after localeCompare l r =
     (let granted = js_sub (dg_grantedRunSeq l) (dg_grantedRunSeq r);
          source = js_sub (dg_sourceRunSeq l) (dg_sourceRunSeq r)
      in js_lt (Num 0) (if truthy granted then granted else if truthy source then source
                        else localeCompare (dg_id l) (dg_id r)))"

text \<open>The callback of the filter: its conjuncts up to the time, the time, which may throw, and the
  test of the ids issued before.\<close>

definition visible_at :: "string \<Rightarrow> string \<Rightarrow> js_number \<Rightarrow> disclosure_grant \<Rightarrow> bool" where
  "visible_at runId runAgentId cutoffRunSeq d \<longleftrightarrow>
     dg_runId d = runId \<and> dg_runAgentId d = runAgentId
     \<and> js_le (dg_sourceRunSeq d) cutoffRunSeq \<and> js_le (dg_grantedRunSeq d) cutoffRunSeq
     \<and> (case dg_revokedRunSeq d of None \<Rightarrow> True | Some s \<Rightarrow> js_lt cutoffRunSeq s)"

definition eligible :: "string \<Rightarrow> string \<Rightarrow> js_number \<Rightarrow> int \<Rightarrow> string set \<Rightarrow> disclosure_grant \<Rightarrow> bool result" where
  "eligible runId runAgentId cutoffRunSeq virtualTime issuedIds d =
     (if \<not> visible_at runId runAgentId cutoffRunSeq d then Inr False
      else and_then (toEpoch (dg_availableVirtualAt d)) (\<lambda>available.
        Inr (available \<le> virtualTime \<and> dg_id d \<notin> issuedIds)))"

definition issued_ids :: "string \<Rightarrow> string \<Rightarrow> view_receipt list \<Rightarrow> string set" where
  "issued_ids runId runAgentId receipts =
     set (map ar_disclosureId (filter (\<lambda>r. ar_runId r = runId \<and> ar_runAgentId r = runAgentId) receipts))"

definition eligibleDisclosuresAt ::
  "(string \<Rightarrow> string \<Rightarrow> js_number) \<Rightarrow> string \<Rightarrow> string \<Rightarrow> js_number \<Rightarrow> string \<Rightarrow> disclosure_grant list \<Rightarrow>
   view_receipt list \<Rightarrow> disclosure_grant list result" where
  "eligibleDisclosuresAt localeCompare runId runAgentId cutoffRunSeq virtualTime disclosures existingReceipts =
     and_then (toEpoch virtualTime) (\<lambda>now.
     and_then (filter_result
         (eligible runId runAgentId cutoffRunSeq now (issued_ids runId runAgentId existingReceipts)) disclosures)
       (\<lambda>ds. Inr (js_sort (disclosure_after localeCompare) ds)))"

section \<open>Issuing a batch\<close>

definition seq_after :: "view_receipt \<Rightarrow> view_receipt \<Rightarrow> bool" where
  "seq_after l r = js_lt (Num 0) (js_sub (ar_agentReceiptSeq l) (ar_agentReceiptSeq r))"

definition assertCurrentReceiptHead :: "receipt_chain_head \<Rightarrow> view_receipt list \<Rightarrow> unit result" where
  "assertCurrentReceiptHead head receipts =
     (let scoped = js_sort seq_after
            (filter (\<lambda>r. ar_runId r = ch_runId head \<and> ar_runAgentId r = ch_runAgentId head) receipts)
      in if scoped = [] then
           (if \<not> js_eq (ch_lastReceiptSeq head) (Num 0) then fail ''RECEIPT_HEAD_CONFLICT'' else Inr ())
         else
           let latest = last scoped in
           if \<not> js_eq (ar_agentReceiptSeq latest) (ch_lastReceiptSeq head) \<or> ar_receiptHash latest \<noteq> ch_headHash head
           then fail ''RECEIPT_HEAD_CONFLICT'' else Inr ())"

text \<open>The receipt of a disclosure before its hash, at a place of the chain.\<close>

definition receipt_without_hash ::
  "sync_input \<Rightarrow> nat \<Rightarrow> disclosure_grant \<Rightarrow> issuance_coordinate \<Rightarrow> json option \<Rightarrow> string \<Rightarrow> receipt_body" where
  "receipt_without_hash i index d c snapshot previousReceiptHash =
     \<lparr>ar_id = ic_receiptId c, ar_disclosureId = dg_id d, ar_runId = si_runId i,
      ar_runAgentId = si_runAgentId i,
      ar_agentReceiptSeq =
        js_add (js_add (ch_lastReceiptSeq (si_chainHead i)) (int_num (int index))) (Num 1),
      ar_deliveryBatchId = si_deliveryBatchId i, ar_sourceEventId = dg_sourceEventId d,
      ar_sourceRunSeq = dg_sourceRunSeq d, ar_issuedEventId = ic_issuedEventId c,
      ar_issuedRunSeq = ic_issuedRunSeq c, ar_viewKind = dg_viewKind d,
      ar_resourceType = dg_resourceType d, ar_resourceId = dg_resourceId d,
      ar_resourceVersion = dg_resourceVersion d, ar_availableVirtualAt = dg_availableVirtualAt d,
      ar_issuedVirtualAt = si_issuedVirtualAt i, ar_issuedAt = si_issuedAt i,
      ar_schemaVersion = dg_schemaVersion d, ar_contentHash = dg_contentHash d,
      ar_contentSnapshot = snapshot, ar_contentBlobRef = dg_contentBlobRef d,
      ar_previousReceiptHash = previousReceiptHash\<rparr>"

definition clone_snapshot :: "json option \<Rightarrow> json option result" where
  "clone_snapshot s = (case s of None \<Rightarrow> Inr None
     | Some v \<Rightarrow> and_then (cloneAndFreezeCanonicalJson v) (\<lambda>w. Inr (Some w)))"

text \<open>The loop over the selected disclosures: the receipts and the last hash.\<close>

fun issue_receipts ::
  "(string \<Rightarrow> string) \<Rightarrow> sync_input \<Rightarrow> nat \<Rightarrow> string \<Rightarrow> disclosure_grant list \<Rightarrow>
   (view_receipt list \<times> string) result" where
  "issue_receipts hashCanonical i index previous [] = Inr ([], previous)"
| "issue_receipts hashCanonical i index previous (d # ds) =
     (case js_map_get (map (\<lambda>c. (ic_disclosureId c, c)) (si_issuanceCoordinates i)) (dg_id d) of
        None \<Rightarrow> fail ''MISSING_RECEIPT_ISSUANCE_COORDINATE''
      | Some c \<Rightarrow>
          if \<not> js_is_integer (ic_issuedRunSeq c) \<or> js_le (ic_issuedRunSeq c) (si_eligibilityCutoffRunSeq i)
             \<or> js_lt (si_responseRunCursor i) (ic_issuedRunSeq c)
          then fail ''INVALID_RECEIPT_ISSUED_RUN_SEQ''
          else if (dg_contentSnapshot d = None) = (dg_contentBlobRef d = None)
          then fail ''INVALID_DISCLOSURE_CONTENT''
          else
            and_then (clone_snapshot (dg_contentSnapshot d)) (\<lambda>snapshot.
            let body = receipt_without_hash i index d c snapshot previous in
            and_then (canonicalJson (receiptHashMaterial body)) (\<lambda>canonical.
            let receiptHash = hashCanonical canonical in
            and_then (requireNonEmpty receiptHash) (\<lambda>_.
            and_then (issue_receipts hashCanonical i (Suc index) receiptHash ds) (\<lambda>rest.
              Inr (receipt_body.extend body (view_receipt.fields receiptHash) # fst rest, snd rest))))))"

text \<open>\<open>xs.slice(0, n)\<close> for an integer \<open>n\<close> that is at least one.\<close>

definition js_take :: "js_number \<Rightarrow> 'a list \<Rightarrow> 'a list" where
  "js_take n xs = (case n of Num q \<Rightarrow> take (nat \<lfloor>q\<rfloor>) xs | _ \<Rightarrow> xs)"

definition issueAgentSyncBatch ::
  "(string \<Rightarrow> string \<Rightarrow> js_number) \<Rightarrow> (string \<Rightarrow> string) \<Rightarrow> sync_input \<Rightarrow> issue_decision result" where
  "issueAgentSyncBatch localeCompare hashCanonical i =
     and_then (requireNonEmpty (si_idempotencyKey i)) (\<lambda>_.
     and_then (requireNonEmpty (si_requestHash i)) (\<lambda>_.
     case find (\<lambda>b. db_runId b = si_runId i \<and> db_runAgentId b = si_runAgentId i
                \<and> db_idempotencyKey b = si_idempotencyKey i) (si_existingBatches i) of
       Some existing \<Rightarrow>
         if db_requestHash existing \<noteq> si_requestHash i then fail ''IDEMPOTENCY_CONFLICT''
         else Inr \<lparr>sd_batch = existing, sd_receipts = si_existingReceipts i,
                sd_batches = si_existingBatches i, sd_chainHead = si_chainHead i, sd_replayed = True\<rparr>
     | None \<Rightarrow>
         and_then (assertSyncIdentity (si_runId i) (si_runAgentId i)
             (ch_runId (si_chainHead i)) (ch_runAgentId (si_chainHead i))) (\<lambda>_.
         and_then (assertCurrentReceiptHead (si_chainHead i) (si_existingReceipts i)) (\<lambda>_.
         if \<not> js_is_integer (si_maxItems i) \<or> js_lt (si_maxItems i) (Num 1) then fail ''INVALID_SYNC_LIMIT''
         else if \<not> js_is_integer (si_afterReceiptSeq i) \<or> js_lt (si_afterReceiptSeq i) (Num 0)
                 \<or> js_lt (ch_lastReceiptSeq (si_chainHead i)) (si_afterReceiptSeq i)
         then fail ''SYNC_CURSOR_OUT_OF_RANGE''
         else if js_lt (si_responseRunCursor i) (si_eligibilityCutoffRunSeq i)
         then fail ''INVALID_SYNC_RUN_CURSOR''
         else
           and_then (toEpoch (si_issuedAt i)) (\<lambda>_.
           and_then (toEpoch (si_issuedVirtualAt i)) (\<lambda>_.
           and_then (requireNonEmpty (si_deliveryBatchId i)) (\<lambda>_.
           and_then (eligibleDisclosuresAt localeCompare (si_runId i) (si_runAgentId i)
               (si_eligibilityCutoffRunSeq i) (si_currentVirtualTime i) (si_disclosures i)
               (si_existingReceipts i)) (\<lambda>eligibles.
           let selected = js_take (si_maxItems i) eligibles;
               coordinateKeys = map ic_disclosureId (si_issuanceCoordinates i)
           in if length (js_set coordinateKeys) \<noteq> length (si_issuanceCoordinates i)
                 \<or> list_ex (\<lambda>k. k \<notin> dg_id ` set selected) coordinateKeys
              then fail ''INVALID_RECEIPT_ISSUANCE_COORDINATES''
              else
                and_then (issue_receipts hashCanonical i 0 (ch_headHash (si_chainHead i)) selected) (\<lambda>issued.
                let receipts = fst issued;
                    headHash = snd issued;
                    through = js_add (ch_lastReceiptSeq (si_chainHead i)) (len_num receipts);
                    batch =
                      \<lparr>db_id = si_deliveryBatchId i, db_runId = si_runId i,
                       db_runAgentId = si_runAgentId i, db_idempotencyKey = si_idempotencyKey i,
                       db_requestHash = si_requestHash i, db_afterReceiptSeq = si_afterReceiptSeq i,
                       db_fromReceiptSeq =
                         (if length receipts = 0 then None
                          else Some (js_add (ch_lastReceiptSeq (si_chainHead i)) (Num 1))),
                       db_throughReceiptSeq = through, db_receiptHeadHash = headHash,
                       db_runCursor = si_responseRunCursor i,
                       db_hasMore = (length eligibles > length receipts), db_receipts = receipts\<rparr>
                in Inr \<lparr>sd_batch = batch, sd_receipts = si_existingReceipts i @ receipts,
                     sd_batches = si_existingBatches i @ [batch],
                     sd_chainHead = \<lparr>ch_runId = si_runId i, ch_runAgentId = si_runAgentId i,
                       ch_lastReceiptSeq = through, ch_headHash = headHash\<rparr>,
                     sd_replayed = False\<rparr>)))))))))"

section \<open>Verifying a chain\<close>

datatype chain_verdict = Valid_chain js_number | Invalid_chain js_number string

fun verify_receipts ::
  "(string \<Rightarrow> string) \<Rightarrow> string \<Rightarrow> js_number \<Rightarrow> view_receipt list \<Rightarrow> chain_verdict result" where
  "verify_receipts hashCanonical previousHash expectedSeq [] =
     Inr (Valid_chain (js_sub expectedSeq (Num 1)))"
| "verify_receipts hashCanonical previousHash expectedSeq (r # rs) =
     (if \<not> js_eq (ar_agentReceiptSeq r) expectedSeq \<or> ar_previousReceiptHash r \<noteq> previousHash
      then Inr (Invalid_chain (js_sub expectedSeq (Num 1)) ''RECEIPT_SEQUENCE_OR_PREVIOUS_HASH_MISMATCH'')
      else and_then (canonicalJson (receiptHashMaterial r)) (\<lambda>canonical.
        if hashCanonical canonical \<noteq> ar_receiptHash r
        then Inr (Invalid_chain (js_sub expectedSeq (Num 1)) ''RECEIPT_HASH_MISMATCH'')
        else verify_receipts hashCanonical (ar_receiptHash r) (js_add expectedSeq (Num 1)) rs))"

definition verifyAgentReceiptChain ::
  "view_receipt list \<Rightarrow> string \<Rightarrow> (string \<Rightarrow> string) \<Rightarrow> chain_verdict result" where
  "verifyAgentReceiptChain receipts genesisHash hashCanonical =
     verify_receipts hashCanonical genesisHash (Num 1) receipts"

section \<open>The receipt chain\<close>

definition receipt_text :: "view_receipt \<Rightarrow> string result" where
  "receipt_text r = canonicalJson (receiptHashMaterial r)"

definition receipt_sound :: "view_receipt \<Rightarrow> bool" where
  "receipt_sound r \<longleftrightarrow> is_double (ar_agentReceiptSeq r) \<and> is_double (ar_sourceRunSeq r)
     \<and> is_double (ar_issuedRunSeq r) \<and> is_double (ar_schemaVersion r)
     \<and> (case ar_contentSnapshot r of None \<Rightarrow> True | Some v \<Rightarrow> json_doubles v)"

definition receipt_content :: "view_receipt \<Rightarrow> receipt_body" where
  "receipt_content r =
     receipt_body.truncate r\<lparr>ar_contentSnapshot := map_option canonical_form (ar_contentSnapshot r)\<rparr>"

definition receipt_entries :: "'a receipt_body_scheme \<Rightarrow> (string \<times> json) list" where
  "receipt_entries r = (case receiptHashMaterial r of JObject es \<Rightarrow> es | _ \<Rightarrow> [])"

definition receipt_entry :: "'a receipt_body_scheme \<Rightarrow> string \<Rightarrow> json option" where
  "receipt_entry r k = map_of (receipt_entries r) k"

lemma receipt_material: "receiptHashMaterial r = JObject (receipt_entries r)"
  by (simp add: receiptHashMaterial_def receipt_entries_def)

lemma receipt_entries_distinct: "distinct (map fst (receipt_entries r))"
  by (simp add: receiptHashMaterial_def receipt_entries_def)

lemma receipt_entry_fixed:
  "receipt_entry r ''id'' = Some (JString (ar_id r))"
  "receipt_entry r ''disclosureId'' = Some (JString (ar_disclosureId r))"
  "receipt_entry r ''runId'' = Some (JString (ar_runId r))"
  "receipt_entry r ''runAgentId'' = Some (JString (ar_runAgentId r))"
  "receipt_entry r ''agentReceiptSeq'' = Some (JNumber (ar_agentReceiptSeq r))"
  "receipt_entry r ''deliveryBatchId'' = Some (JString (ar_deliveryBatchId r))"
  "receipt_entry r ''sourceEventId'' = Some (JString (ar_sourceEventId r))"
  "receipt_entry r ''sourceRunSeq'' = Some (JNumber (ar_sourceRunSeq r))"
  "receipt_entry r ''issuedEventId'' = Some (JString (ar_issuedEventId r))"
  "receipt_entry r ''issuedRunSeq'' = Some (JNumber (ar_issuedRunSeq r))"
  "receipt_entry r ''viewKind'' = Some (JString (ar_viewKind r))"
  "receipt_entry r ''resourceType'' = Some (JString (ar_resourceType r))"
  "receipt_entry r ''resourceId'' = Some (JString (ar_resourceId r))"
  "receipt_entry r ''resourceVersion'' = Some (JString (ar_resourceVersion r))"
  "receipt_entry r ''availableVirtualAt'' = Some (JString (ar_availableVirtualAt r))"
  "receipt_entry r ''issuedVirtualAt'' = Some (JString (ar_issuedVirtualAt r))"
  "receipt_entry r ''issuedAt'' = Some (JString (ar_issuedAt r))"
  "receipt_entry r ''schemaVersion'' = Some (JNumber (ar_schemaVersion r))"
  "receipt_entry r ''contentHash'' = Some (JString (ar_contentHash r))"
  "receipt_entry r ''previousReceiptHash'' = Some (JString (ar_previousReceiptHash r))"
  by (simp_all add: receipt_entry_def receipt_entries_def receiptHashMaterial_def map_add_def)

lemma receipt_entry_optional:
  "receipt_entry r ''contentSnapshot'' = ar_contentSnapshot r"
  "receipt_entry r ''contentBlobRef'' = map_option JString (ar_contentBlobRef r)"
  by (simp_all add: receipt_entry_def receipt_entries_def receiptHashMaterial_def map_add_def option.map_ident
      split: option.splits)

lemma receipt_text_commits:
  assumes "receipt_sound r" and "receipt_sound s" and "receipt_text r = Inr t" and "receipt_text s = Inr t"
  shows "ar_previousReceiptHash r = ar_previousReceiptHash s \<and> receipt_content r = receipt_content s"
proof -
  have doubles: "json_doubles (receiptHashMaterial e)" if "receipt_sound e" for e
    using that by (auto simp: receiptHashMaterial_def receipt_sound_def list_all_iff dest!: snd_opt_entry)
  have "canonical_form (receiptHashMaterial r) = canonical_form (receiptHashMaterial s)"
    using canonical_text_commits assms doubles unfolding receipt_text_def by blast
  then have entry: "map_option canonical_form (receipt_entry r k) = map_option canonical_form (receipt_entry s k)" for k
    unfolding receipt_entry_def receipt_material
    by (rule canonical_entries) (rule receipt_entries_distinct)+
  have opt: "map_option canonical_form (map_option JString a) = map_option canonical_form (map_option JString b)
      \<Longrightarrow> a = b" for a b
    by (cases a; cases b) simp_all
  have "ar_previousReceiptHash r = ar_previousReceiptHash s" "ar_id r = ar_id s"
    "ar_disclosureId r = ar_disclosureId s" "ar_runId r = ar_runId s" "ar_runAgentId r = ar_runAgentId s"
    "ar_agentReceiptSeq r = ar_agentReceiptSeq s" "ar_deliveryBatchId r = ar_deliveryBatchId s"
    using entry [of "''previousReceiptHash''"] entry [of "''id''"] entry [of "''disclosureId''"]
      entry [of "''runId''"] entry [of "''runAgentId''"] entry [of "''agentReceiptSeq''"]
      entry [of "''deliveryBatchId''"]
    by (simp_all only: receipt_entry_fixed) simp_all
  moreover have "ar_sourceEventId r = ar_sourceEventId s" "ar_sourceRunSeq r = ar_sourceRunSeq s"
    "ar_issuedEventId r = ar_issuedEventId s" "ar_issuedRunSeq r = ar_issuedRunSeq s"
    "ar_viewKind r = ar_viewKind s" "ar_resourceType r = ar_resourceType s" "ar_resourceId r = ar_resourceId s"
    using entry [of "''sourceEventId''"] entry [of "''sourceRunSeq''"] entry [of "''issuedEventId''"]
      entry [of "''issuedRunSeq''"] entry [of "''viewKind''"] entry [of "''resourceType''"]
      entry [of "''resourceId''"]
    by (simp_all only: receipt_entry_fixed) simp_all
  moreover have "ar_resourceVersion r = ar_resourceVersion s" "ar_availableVirtualAt r = ar_availableVirtualAt s"
    "ar_issuedVirtualAt r = ar_issuedVirtualAt s" "ar_issuedAt r = ar_issuedAt s"
    "ar_schemaVersion r = ar_schemaVersion s" "ar_contentHash r = ar_contentHash s"
    using entry [of "''resourceVersion''"] entry [of "''availableVirtualAt''"] entry [of "''issuedVirtualAt''"]
      entry [of "''issuedAt''"] entry [of "''schemaVersion''"] entry [of "''contentHash''"]
    by (simp_all only: receipt_entry_fixed) simp_all
  moreover have "map_option canonical_form (ar_contentSnapshot r) = map_option canonical_form (ar_contentSnapshot s)"
    "ar_contentBlobRef r = ar_contentBlobRef s"
    using entry [of "''contentSnapshot''"] entry [of "''contentBlobRef''"] opt
    by (simp_all only: receipt_entry_optional)
  ultimately show ?thesis by (simp add: receipt_content_def receipt_body.defs)
qed

interpretation receipts: hash_chain ar_previousReceiptHash ar_receiptHash receipt_text receipt_sound receipt_content
  by unfold_locales (rule receipt_text_commits)

section \<open>What issuing does\<close>

definition batch_of :: "sync_input \<Rightarrow> delivery_batch option" where
  "batch_of i = find (\<lambda>b. db_runId b = si_runId i \<and> db_runAgentId b = si_runAgentId i
      \<and> db_idempotencyKey b = si_idempotencyKey i) (si_existingBatches i)"

text \<open>The facts of a batch that is not a replay.\<close>

definition issues :: "(string \<Rightarrow> string \<Rightarrow> js_number) \<Rightarrow> (string \<Rightarrow> string) \<Rightarrow> sync_input \<Rightarrow>
    disclosure_grant list \<Rightarrow> view_receipt list \<Rightarrow> string \<Rightarrow> bool" where
  "issues localeCompare hash i eligibles receipts headHash \<longleftrightarrow>
     ch_runId (si_chainHead i) = si_runId i \<and> ch_runAgentId (si_chainHead i) = si_runAgentId i
     \<and> assertCurrentReceiptHead (si_chainHead i) (si_existingReceipts i) = Inr ()
     \<and> eligibleDisclosuresAt localeCompare (si_runId i) (si_runAgentId i) (si_eligibilityCutoffRunSeq i)
         (si_currentVirtualTime i) (si_disclosures i) (si_existingReceipts i) = Inr eligibles
     \<and> issue_receipts hash i 0 (ch_headHash (si_chainHead i)) (js_take (si_maxItems i) eligibles)
         = Inr (receipts, headHash)"

lemma issue_replay:
  "issueAgentSyncBatch lc hash i = Inr d \<Longrightarrow> batch_of i = Some b \<Longrightarrow>
   db_requestHash b = si_requestHash i \<and> sd_batch d = b \<and> sd_receipts d = si_existingReceipts i
   \<and> sd_batches d = si_existingBatches i \<and> sd_chainHead d = si_chainHead i \<and> sd_replayed d"
  by (auto simp: issueAgentSyncBatch_def batch_of_def split: if_splits)

lemma issue_fresh:
  assumes "issueAgentSyncBatch lc hash i = Inr d" and "batch_of i = None"
  shows "\<exists>eligibles receipts headHash. issues lc hash i eligibles receipts headHash
     \<and> sd_receipts d = si_existingReceipts i @ receipts \<and> sd_batches d = si_existingBatches i @ [sd_batch d]
     \<and> db_runId (sd_batch d) = si_runId i \<and> db_runAgentId (sd_batch d) = si_runAgentId i
     \<and> db_idempotencyKey (sd_batch d) = si_idempotencyKey i \<and> db_requestHash (sd_batch d) = si_requestHash i
     \<and> db_receipts (sd_batch d) = receipts
     \<and> db_hasMore (sd_batch d) = (length receipts < length eligibles)
     \<and> sd_chainHead d = \<lparr>ch_runId = si_runId i, ch_runAgentId = si_runAgentId i,
          ch_lastReceiptSeq = js_add (ch_lastReceiptSeq (si_chainHead i)) (len_num receipts),
          ch_headHash = headHash\<rparr>
     \<and> \<not> sd_replayed d"
  using assms
  by (auto simp: issueAgentSyncBatch_def batch_of_def issues_def assertSyncIdentity_def Let_def
      simp del: js_add.simps split: if_splits prod.splits)

lemma issue_nonempty:
  "issueAgentSyncBatch lc hash i = Inr d \<Longrightarrow> js_trim (si_idempotencyKey i) \<noteq> [] \<and> js_trim (si_requestHash i) \<noteq> []"
  by (auto simp: issueAgentSyncBatch_def)

section \<open>Sequences of requests of one agent\<close>

type_synonym sync_state = "receipt_chain_head \<times> view_receipt list \<times> delivery_batch list"

definition with_state :: "sync_state \<Rightarrow> sync_input \<Rightarrow> sync_input" where
  "with_state s q = q\<lparr>si_chainHead := fst s, si_existingReceipts := fst (snd s), si_existingBatches := snd (snd s)\<rparr>"

definition sync_command :: "(string \<Rightarrow> string \<Rightarrow> js_number) \<Rightarrow> (string \<Rightarrow> string) \<Rightarrow>
    sync_state \<Rightarrow> sync_input \<Rightarrow> (sync_state \<times> delivery_batch \<times> bool) result" where
  "sync_command lc hash s q =
     and_then (issueAgentSyncBatch lc hash (with_state s q))
       (\<lambda>d. Inr ((sd_chainHead d, sd_receipts d, sd_batches d), sd_batch d, sd_replayed d))"

definition sync_key :: "sync_input \<Rightarrow> string \<times> string \<times> string" where
  "sync_key q = (si_runId q, si_runAgentId q, si_idempotencyKey q)"

definition batch_key :: "delivery_batch \<Rightarrow> string \<times> string \<times> string" where
  "batch_key b = (db_runId b, db_runAgentId b, db_idempotencyKey b)"

definition sync_well_formed :: "sync_input \<Rightarrow> bool" where
  "sync_well_formed q \<longleftrightarrow> js_trim (si_idempotencyKey q) \<noteq> [] \<and> js_trim (si_requestHash q) \<noteq> []"

lemma with_state_simps [simp]:
  "si_runId (with_state s q) = si_runId q" "si_runAgentId (with_state s q) = si_runAgentId q"
  "si_idempotencyKey (with_state s q) = si_idempotencyKey q" "si_requestHash (with_state s q) = si_requestHash q"
  "si_chainHead (with_state s q) = fst s" "si_existingReceipts (with_state s q) = fst (snd s)"
  "si_existingBatches (with_state s q) = snd (snd s)" "si_disclosures (with_state s q) = si_disclosures q"
  by (simp_all add: with_state_def)

lemma batch_of_key:
  "batch_of (with_state s q) = find (\<lambda>b. batch_key b = sync_key q) (snd (snd s))"
  by (simp add: batch_of_def batch_key_def sync_key_def)

lemma sync_known:
  assumes "sync_well_formed q" and "find (\<lambda>b. batch_key b = sync_key q) (snd (snd s)) = Some r"
  shows "sync_command lc hash s q =
    (if db_requestHash r = si_requestHash q then Inr (s, r, True) else fail ''IDEMPOTENCY_CONFLICT'')"
proof -
  have "batch_of (with_state s q) = Some r" using assms(2) by (simp add: batch_of_key)
  then show ?thesis using assms(1)
    by (simp add: sync_command_def issueAgentSyncBatch_def batch_of_def sync_well_formed_def requireNonEmpty_def)
qed

lemma sync_fresh:
  assumes "find (\<lambda>b. batch_key b = sync_key q) (snd (snd s)) = None" and "sync_command lc hash s q = Inr (s', r, replayed)"
  shows "\<not> replayed \<and> batch_key r = sync_key q \<and> db_requestHash r = si_requestHash q
    \<and> snd (snd s') = snd (snd s) @ [r]"
proof -
  obtain d where d: "issueAgentSyncBatch lc hash (with_state s q) = Inr d"
    "s' = (sd_chainHead d, sd_receipts d, sd_batches d)" "r = sd_batch d" "replayed = sd_replayed d"
    using assms(2) by (auto simp: sync_command_def)
  have "batch_of (with_state s q) = None" using assms(1) by (simp add: batch_of_key)
  from issue_fresh [OF d(1) this] d(2-4) show ?thesis by (auto simp: batch_key_def sync_key_def)
qed

lemma sync_nonempty: "sync_command lc hash s q = Inr a \<Longrightarrow> sync_well_formed q"
  by (auto simp: sync_command_def sync_well_formed_def dest: issue_nonempty)

interpretation sync: idempotent_log "\<lambda>s. snd (snd s)" sync_key batch_key si_requestHash db_requestHash
  "sync_command lc hash" sync_well_formed for lc hash
  by unfold_locales (rule sync_nonempty sync_known sync_fresh; assumption)+

section \<open>Chains verify\<close>

lemma js_sub_one: "\<bar>n\<bar> \<le> 2 ^ 53 \<Longrightarrow> \<bar>n - 1\<bar> \<le> 2 ^ 53 \<Longrightarrow> js_sub (int_num n) (Num 1) = int_num (n - 1)"
  using js_add_int [of n "- 1"] by (simp add: js_sub_def)

lemma verify_step:
  "verify_receipts hash g n (r # rs) = Inr (Valid_chain v) \<longleftrightarrow>
     ar_agentReceiptSeq r = n \<and> n \<noteq> NaN \<and> ar_previousReceiptHash r = g
     \<and> (\<exists>t. receipt_text r = Inr t \<and> ar_receiptHash r = hash t)
     \<and> verify_receipts hash (ar_receiptHash r) (js_add n (Num 1)) rs = Inr (Valid_chain v)"
  by (auto simp: receipt_text_def js_eq_def)

lemma verify_linked:
  assumes "1 \<le> n" and "n + int (length rs) \<le> 2 ^ 53"
  shows "verify_receipts hash g (int_num n) rs = Inr (Valid_chain v) \<longleftrightarrow>
     (\<exists>h. receipts.linked hash g rs h) \<and> map ar_agentReceiptSeq rs = map (\<lambda>k. int_num (n + int k)) [0..<length rs]
     \<and> v = int_num (n - 1 + int (length rs))"
  using assms
proof (induction rs arbitrary: g n)
  case Nil
  then show ?case using js_sub_one [of n] by auto
next
  case (Cons r rs)
  have n: "1 \<le> n + 1" "n + 1 + int (length rs) \<le> 2 ^ 53" using Cons.prems by simp_all
  have add: "js_add (int_num n) (Num 1) = int_num (n + 1)" by (rule js_add_int_one) (use Cons.prems in simp)
  have seqs: "map (\<lambda>k. int_num (n + int k)) [0..<length (r # rs)]
      = int_num n # map (\<lambda>k. int_num (n + 1 + int k)) [0..<length rs]"
    by (rule nth_equalityI) (simp_all add: nth_Cons algebra_simps del: upt_Suc split: nat.splits)
  have last: "n - 1 + int (length (r # rs)) = n + 1 - 1 + int (length rs)" by simp
  show ?case
    unfolding seqs last using Cons.IH [OF n, of "ar_receiptHash r"] add
    by (auto simp: verify_step simp del: js_add.simps of_int_add verify_receipts.simps)
qed

text \<open>What one disclosure contributes.\<close>

definition receipt_for :: "sync_input \<Rightarrow> disclosure_grant \<Rightarrow> view_receipt \<Rightarrow> bool" where
  "receipt_for i d r \<longleftrightarrow>
     ar_disclosureId r = dg_id d \<and> ar_runId r = si_runId i \<and> ar_runAgentId r = si_runAgentId i
     \<and> ar_resourceType r = dg_resourceType d \<and> ar_resourceId r = dg_resourceId d
     \<and> ar_resourceVersion r = dg_resourceVersion d \<and> ar_contentHash r = dg_contentHash d
     \<and> js_lt (si_eligibilityCutoffRunSeq i) (ar_issuedRunSeq r)
     \<and> js_le (ar_issuedRunSeq r) (si_responseRunCursor i)"

lemma receipt_extend_simps [simp]:
  "ar_disclosureId (receipt_body.extend b m) = ar_disclosureId b" "ar_runId (receipt_body.extend b m) = ar_runId b"
  "ar_runAgentId (receipt_body.extend b m) = ar_runAgentId b"
  "ar_agentReceiptSeq (receipt_body.extend b m) = ar_agentReceiptSeq b"
  "ar_issuedRunSeq (receipt_body.extend b m) = ar_issuedRunSeq b"
  "ar_resourceType (receipt_body.extend b m) = ar_resourceType b"
  "ar_resourceId (receipt_body.extend b m) = ar_resourceId b"
  "ar_resourceVersion (receipt_body.extend b m) = ar_resourceVersion b"
  "ar_contentHash (receipt_body.extend b m) = ar_contentHash b"
  "ar_previousReceiptHash (receipt_body.extend b m) = ar_previousReceiptHash b"
  "receiptHashMaterial (receipt_body.extend b m) = receiptHashMaterial b"
  by (simp_all add: receipt_body.defs receiptHashMaterial_def)

lemma receipt_without_hash_simps [simp]:
  "ar_disclosureId (receipt_without_hash i k d c s p) = dg_id d"
  "ar_runId (receipt_without_hash i k d c s p) = si_runId i"
  "ar_runAgentId (receipt_without_hash i k d c s p) = si_runAgentId i"
  "ar_agentReceiptSeq (receipt_without_hash i k d c s p) =
     js_add (js_add (ch_lastReceiptSeq (si_chainHead i)) (int_num (int k))) (Num 1)"
  "ar_issuedRunSeq (receipt_without_hash i k d c s p) = ic_issuedRunSeq c"
  "ar_resourceType (receipt_without_hash i k d c s p) = dg_resourceType d"
  "ar_resourceId (receipt_without_hash i k d c s p) = dg_resourceId d"
  "ar_resourceVersion (receipt_without_hash i k d c s p) = dg_resourceVersion d"
  "ar_contentHash (receipt_without_hash i k d c s p) = dg_contentHash d"
  "ar_previousReceiptHash (receipt_without_hash i k d c s p) = p"
  by (simp_all add: receipt_without_hash_def)

lemma receipt_text_extend [simp]: "receipt_text (receipt_body.extend b m) = canonicalJson (receiptHashMaterial b)"
  by (simp add: receipt_text_def)

lemma receipt_hash_extend [simp]: "ar_receiptHash (receipt_body.extend b (view_receipt.fields h)) = h"
  by (simp add: receipt_body.defs view_receipt.defs)

lemma js_not_le_lt: "js_is_integer x \<Longrightarrow> y \<noteq> NaN \<Longrightarrow> \<not> js_le x y \<Longrightarrow> js_lt y x"
  using js_not_lt [of y x] by (cases x) auto

lemma issue_receipts_effect:
  "issue_receipts hash i index prev ds = Inr (rs, h) \<Longrightarrow>
   si_eligibilityCutoffRunSeq i \<noteq> NaN \<Longrightarrow> si_responseRunCursor i \<noteq> NaN \<Longrightarrow>
   receipts.linked hash prev rs h \<and> list_all2 (receipt_for i) ds rs
   \<and> map ar_agentReceiptSeq rs = map (\<lambda>k. js_add (js_add (ch_lastReceiptSeq (si_chainHead i)) (int_num (int k))) (Num 1))
       [index..<index + length ds]"
proof (induction ds arbitrary: index prev rs)
  case Nil
  then show ?case by simp
next
  case (Cons d ds)
  from Cons.prems(1) obtain c snapshot t rs' where c:
      "js_is_integer (ic_issuedRunSeq c)" "\<not> js_le (ic_issuedRunSeq c) (si_eligibilityCutoffRunSeq i)"
      "\<not> js_lt (si_responseRunCursor i) (ic_issuedRunSeq c)"
    and t: "canonicalJson (receiptHashMaterial (receipt_without_hash i index d c snapshot prev)) = Inr t"
    and rest: "issue_receipts hash i (Suc index) (hash t) ds = Inr (rs', h)"
    and rs: "rs = receipt_body.extend (receipt_without_hash i index d c snapshot prev) (view_receipt.fields (hash t)) # rs'"
    by (auto simp: Let_def split: option.splits if_splits)
  have "js_lt (si_eligibilityCutoffRunSeq i) (ic_issuedRunSeq c)" by (rule js_not_le_lt [OF c(1) Cons.prems(2) c(2)])
  moreover have "js_le (ic_issuedRunSeq c) (si_responseRunCursor i)"
    using js_not_lt c(1,3) Cons.prems(3) by (cases "ic_issuedRunSeq c") auto
  ultimately have "receipt_for i d (hd rs)"
    using rs by (simp add: receipt_for_def)
  moreover have "[index..<index + length (d # ds)] = index # [Suc index..<Suc index + length ds]" by (simp add: upt_rec)
  ultimately show ?case using Cons.IH [OF rest Cons.prems(2,3)] rs t
    by (simp del: js_add.simps upt_Suc)
qed

section \<open>Eligibility\<close>

text \<open>What a batch may deliver to its agent, spelt out clause by clause.\<close>

definition deliverable :: "sync_input \<Rightarrow> disclosure_grant \<Rightarrow> bool" where
  "deliverable i d \<longleftrightarrow>
     d \<in> set (si_disclosures i) \<and> dg_runId d = si_runId i \<and> dg_runAgentId d = si_runAgentId i
     \<and> js_le (dg_sourceRunSeq d) (si_eligibilityCutoffRunSeq i)
     \<and> js_le (dg_grantedRunSeq d) (si_eligibilityCutoffRunSeq i)
     \<and> (\<forall>s. dg_revokedRunSeq d = Some s \<longrightarrow> js_lt (si_eligibilityCutoffRunSeq i) s)
     \<and> (\<exists>available now. toEpoch (dg_availableVirtualAt d) = Inr available
          \<and> toEpoch (si_currentVirtualTime i) = Inr now \<and> available \<le> now)
     \<and> \<not> (\<exists>r \<in> set (si_existingReceipts i). ar_runId r = si_runId i \<and> ar_runAgentId r = si_runAgentId i
          \<and> ar_disclosureId r = dg_id d)"

lemma deliverable_iff:
  "deliverable i d \<longleftrightarrow>
     d \<in> set (si_disclosures i) \<and> visible_at (si_runId i) (si_runAgentId i) (si_eligibilityCutoffRunSeq i) d
     \<and> dg_id d \<notin> issued_ids (si_runId i) (si_runAgentId i) (si_existingReceipts i)
     \<and> (\<exists>available now. toEpoch (dg_availableVirtualAt d) = Inr available
          \<and> toEpoch (si_currentVirtualTime i) = Inr now \<and> available \<le> now)"
  by (auto simp: deliverable_def visible_at_def issued_ids_def image_iff split: option.splits)

lemma eligible_True:
  "eligible runId runAgentId cutoff now ids d = Inr True \<longleftrightarrow>
     visible_at runId runAgentId cutoff d \<and> dg_id d \<notin> ids
     \<and> (\<exists>available. toEpoch (dg_availableVirtualAt d) = Inr available \<and> available \<le> now)"
  by (auto simp: eligible_def)

lemma eligible_disclosures_Inr:
  assumes "eligibleDisclosuresAt lc (si_runId i) (si_runAgentId i) (si_eligibilityCutoffRunSeq i)
      (si_currentVirtualTime i) (si_disclosures i) (si_existingReceipts i) = Inr ds"
  shows "set ds = {d. deliverable i d}"
    and "distinct (map dg_id (si_disclosures i)) \<Longrightarrow> distinct (map dg_id ds)"
    and "length ds \<le> length (si_disclosures i)"
  using assms
  by (auto simp: eligibleDisclosuresAt_def filter_result_Inr deliverable_iff eligible_True distinct_map_filter)

lemma js_take_prefix: "\<exists>n. js_take x xs = take n xs"
  by (cases x) (auto simp: js_take_def intro: exI [of _ "length xs"])

lemma issued_from_deliverable:
  assumes "issues lc hash i eligibles rs h" and "si_eligibilityCutoffRunSeq i \<noteq> NaN" and "si_responseRunCursor i \<noteq> NaN"
  shows "\<forall>r \<in> set rs. \<exists>d. deliverable i d \<and> receipt_for i d r"
    and "distinct (map dg_id (si_disclosures i)) \<Longrightarrow> distinct (map ar_disclosureId rs)"
    and "length rs \<le> length (si_disclosures i)"
proof -
  obtain n where n: "js_take (si_maxItems i) eligibles = take n eligibles" using js_take_prefix by metis
  have e: "issue_receipts hash i 0 (ch_headHash (si_chainHead i)) (take n eligibles) = Inr (rs, h)"
    using assms(1) n by (simp add: issues_def)
  note elig = eligible_disclosures_Inr [of lc i eligibles]
  have el: "eligibleDisclosuresAt lc (si_runId i) (si_runAgentId i) (si_eligibilityCutoffRunSeq i)
      (si_currentVirtualTime i) (si_disclosures i) (si_existingReceipts i) = Inr eligibles"
    using assms(1) by (simp add: issues_def)
  have all2: "list_all2 (receipt_for i) (take n eligibles) rs"
    using issue_receipts_effect [OF e assms(2,3)] by blast
  then have ids: "map ar_disclosureId rs = map dg_id (take n eligibles)"
    by (induction rule: list_all2_induct) (simp_all add: receipt_for_def)
  show "\<forall>r \<in> set rs. \<exists>d. deliverable i d \<and> receipt_for i d r"
  proof
    fix r assume "r \<in> set rs"
    then obtain k where k: "k < length rs" "r = rs ! k" by (auto simp: in_set_conv_nth)
    then have len: "k < length (take n eligibles)" using list_all2_lengthD [OF all2] by simp
    then have "take n eligibles ! k \<in> set eligibles" by (meson in_set_takeD nth_mem)
    then have "deliverable i (take n eligibles ! k)" using elig(1) [OF el] by simp
    moreover have "receipt_for i (take n eligibles ! k) r" using list_all2_nthD [OF all2 len] k(2) by simp
    ultimately show "\<exists>d. deliverable i d \<and> receipt_for i d r" by blast
  qed
  show "distinct (map ar_disclosureId rs)" if "distinct (map dg_id (si_disclosures i))"
    unfolding ids using elig(2) [OF el that] by (simp add: distinct_take flip: take_map)
  show "length rs \<le> length (si_disclosures i)"
    using list_all2_lengthD [OF all2] elig(3) [OF el] by simp
qed

section \<open>The chain of an agent under a sequence of requests\<close>

definition own_receipts :: "sync_state \<Rightarrow> view_receipt list" where
  "own_receipts s = filter (\<lambda>r. ar_runId r = ch_runId (fst s) \<and> ar_runAgentId r = ch_runAgentId (fst s)) (fst (snd s))"

definition chain_state :: "(string \<Rightarrow> string) \<Rightarrow> string \<Rightarrow> sync_state \<Rightarrow> bool" where
  "chain_state hash genesis s \<longleftrightarrow>
     receipts.linked hash genesis (own_receipts s) (ch_headHash (fst s))
     \<and> map ar_agentReceiptSeq (own_receipts s) = map (\<lambda>k. int_num (1 + int k)) [0..<length (own_receipts s)]
     \<and> ch_lastReceiptSeq (fst s) = len_num (own_receipts s)
     \<and> distinct (map ar_disclosureId (own_receipts s))"

definition sane_request :: "sync_input \<Rightarrow> bool" where
  "sane_request q \<longleftrightarrow> si_eligibilityCutoffRunSeq q \<noteq> NaN \<and> si_responseRunCursor q \<noteq> NaN
     \<and> distinct (map dg_id (si_disclosures q))"

lemma sync_cases:
  assumes "sync_command lc hash s q = Inr (s', b, replayed)"
  shows "(replayed \<and> s' = s) \<or>
    (\<not> replayed \<and> (\<exists>eligibles rs h. issues lc hash (with_state s q) eligibles rs h
       \<and> fst (snd s') = fst (snd s) @ rs \<and> db_receipts b = rs
       \<and> fst s' = \<lparr>ch_runId = si_runId q, ch_runAgentId = si_runAgentId q,
            ch_lastReceiptSeq = js_add (ch_lastReceiptSeq (fst s)) (len_num rs), ch_headHash = h\<rparr>))"
proof -
  obtain d where d: "issueAgentSyncBatch lc hash (with_state s q) = Inr d"
    "s' = (sd_chainHead d, sd_receipts d, sd_batches d)" "b = sd_batch d" "replayed = sd_replayed d"
    using assms by (auto simp: sync_command_def)
  show ?thesis
  proof (cases "batch_of (with_state s q)")
    case None
    from issue_fresh [OF d(1) None] d(2-4) show ?thesis by auto
  next
    case (Some r)
    from issue_replay [OF d(1) Some] d(2-4) show ?thesis by (simp add: prod_eq_iff)
  qed
qed

lemma chain_step:
  assumes "chain_state hash genesis s" and "sync_command lc hash s q = Inr (s', b, replayed)" and "sane_request q"
    and "int (length (own_receipts s)) + int (length (si_disclosures q)) < 2 ^ 53"
  shows "chain_state hash genesis s'
    \<and> int (length (own_receipts s')) \<le> int (length (own_receipts s)) + int (length (si_disclosures q))"
  using sync_cases [OF assms(2)]
proof (elim disjE conjE exE)
  assume "s' = s"
  then show ?thesis using assms(1) by simp
next
  fix eligibles rs h
  assume i: "issues lc hash (with_state s q) eligibles rs h" and s': "fst (snd s') = fst (snd s) @ rs"
    and head: "fst s' = \<lparr>ch_runId = si_runId q, ch_runAgentId = si_runAgentId q,
            ch_lastReceiptSeq = js_add (ch_lastReceiptSeq (fst s)) (len_num rs), ch_headHash = h\<rparr>"
  let ?i = "with_state s q" and ?n = "length (own_receipts s)"
  have sane: "si_eligibilityCutoffRunSeq ?i \<noteq> NaN" "si_responseRunCursor ?i \<noteq> NaN" "distinct (map dg_id (si_disclosures ?i))"
    using assms(3) by (simp_all add: sane_request_def with_state_def)
  note from_d = issued_from_deliverable [OF i sane(1,2)]
  obtain n where n: "issue_receipts hash ?i 0 (ch_headHash (fst s)) (take n eligibles) = Inr (rs, h)"
    using i js_take_prefix [of "si_maxItems ?i" eligibles] by (auto simp: issues_def)
  note effect = issue_receipts_effect [OF n sane(1,2)]
  have len: "length rs = length (take n eligibles)" using effect by (auto dest: list_all2_lengthD)
  have ids: "ch_runId (fst s) = si_runId q" "ch_runAgentId (fst s) = si_runAgentId q"
    using i by (auto simp: issues_def)
  have rs_own: "filter (\<lambda>r. ar_runId r = si_runId q \<and> ar_runAgentId r = si_runAgentId q) rs = rs"
    using from_d(1) by (auto simp: receipt_for_def filter_id_conv)
  then have own: "own_receipts s' = own_receipts s @ rs" using s' head ids by (simp add: own_receipts_def)
  have bound: "int ?n + int (length rs) < 2 ^ 53" using assms(4) from_d(3) by simp
  have last: "ch_lastReceiptSeq (fst s) = int_num (int ?n)" using assms(1) by (simp add: chain_state_def)
  have seq: "js_add (js_add (int_num (int ?n)) (int_num (int k))) (Num 1) = int_num (1 + (int ?n + int k))"
    if "k < length rs" for k
  proof -
    have "js_add (int_num (int ?n)) (int_num (int k)) = int_num (int ?n + int k)"
      by (rule js_add_int) (use that bound in linarith)
    moreover have "js_add (int_num (int ?n + int k)) (Num 1) = int_num (int ?n + int k + 1)"
      by (rule js_add_int_one) (use that bound in linarith)
    ultimately show ?thesis by (simp only: add.commute)
  qed
  have "map ar_agentReceiptSeq rs = map (\<lambda>k. int_num (1 + (int ?n + int k))) [0..<length rs]"
    using effect last len seq by (simp del: js_add.simps)
  also have "\<dots> = map (\<lambda>k. int_num (1 + int k)) [?n..<?n + length rs]"
    by (rule nth_equalityI) simp_all
  finally have seqs: "map ar_agentReceiptSeq (own_receipts s') =
      map (\<lambda>k. int_num (1 + int k)) [0..<length (own_receipts s')]"
    using assms(1) own by (simp add: chain_state_def upt_add_eq_append [of 0])
  have "receipts.linked hash genesis (own_receipts s') h"
    using assms(1) effect own by (auto simp: chain_state_def receipts.linked_append)
  moreover have "js_add (int_num (int ?n)) (len_num rs) = len_num (own_receipts s')"
    using js_add_int [of "int ?n" "int (length rs)"] bound own by (simp del: js_add.simps)
  moreover have "set (map ar_disclosureId rs) \<inter> set (map ar_disclosureId (own_receipts s)) = {}"
  proof -
    have "ar_disclosureId r \<notin> set (map ar_disclosureId (own_receipts s))" if r: "r \<in> set rs" for r
    proof -
      obtain d where "deliverable ?i d" "receipt_for ?i d r" using from_d(1) r by blast
      then show ?thesis by (simp add: deliverable_iff receipt_for_def issued_ids_def own_receipts_def ids)
    qed
    then show ?thesis by auto
  qed
  then have "distinct (map ar_disclosureId (own_receipts s'))"
    using own assms(1) from_d(2) [OF sane(3)] by (auto simp: chain_state_def)
  ultimately show ?thesis
    using seqs head last own bound from_d(3) by (simp add: chain_state_def del: js_add.simps)
qed

section \<open>Properties\<close>

abbreviation sync_run :: "(string \<Rightarrow> string \<Rightarrow> js_number) \<Rightarrow> (string \<Rightarrow> string) \<Rightarrow>
    sync_state \<Rightarrow> sync_input list \<Rightarrow> sync_state result" where
  "sync_run lc hash \<equiv> run_commands (\<lambda>s q. and_then (sync_command lc hash s q) (\<lambda>a. Inr (fst a)))"

definition new_agent :: "string \<Rightarrow> string \<Rightarrow> string \<Rightarrow> sync_state" where
  "new_agent runId runAgentId genesis =
     (\<lparr>ch_runId = runId, ch_runAgentId = runAgentId, ch_lastReceiptSeq = Num 0, ch_headHash = genesis\<rparr>, [], [])"

lemma chain_run:
  "sync_run lc hash s qs = Inr s' \<Longrightarrow> chain_state hash genesis s \<Longrightarrow> list_all sane_request qs \<Longrightarrow>
   int (length (own_receipts s)) + int (length (concat (map si_disclosures qs))) < 2 ^ 53 \<Longrightarrow>
   chain_state hash genesis s' \<and> int (length (own_receipts s')) < 2 ^ 53"
proof (induction qs arbitrary: s)
  case Nil
  then show ?case by simp
next
  case (Cons q qs)
  then obtain s1 b r where s1: "sync_command lc hash s q = Inr (s1, b, r)" "sync_run lc hash s1 qs = Inr s'"
    by auto
  have "int (length (own_receipts s)) + int (length (si_disclosures q)) < 2 ^ 53" "sane_request q"
    using Cons.prems(3,4) by simp_all
  from chain_step [OF Cons.prems(2) s1(1) this(2,1)] show ?case
    using Cons.IH [OF s1(2)] Cons.prems(3,4) by simp
qed

lemma new_agent_chain: "chain_state hash genesis (new_agent runId runAgentId genesis)"
  by (simp add: chain_state_def own_receipts_def new_agent_def)

lemma chain_verifies:
  assumes "chain_state hash genesis s" and "int (length (own_receipts s)) < 2 ^ 53"
  shows "verifyAgentReceiptChain (own_receipts s) genesis hash = Inr (Valid_chain (ch_lastReceiptSeq (fst s)))"
proof -
  have "verify_receipts hash genesis (int_num 1) (own_receipts s) = Inr (Valid_chain (ch_lastReceiptSeq (fst s)))"
    using assms by (subst verify_linked) (auto simp: chain_state_def)
  then show ?thesis by (simp add: verifyAgentReceiptChain_def)
qed

text \<open>
  Property C12. Whatever requests an agent makes, its receipts form a chain that the verifier accepts up
  to the last number of its head, and no disclosure was issued to it twice.
\<close>

theorem issued_chain_verifies:
  assumes "sync_run lc hash (new_agent runId runAgentId genesis) qs = Inr s" and "list_all sane_request qs"
    and "int (length (concat (map si_disclosures qs))) < 2 ^ 53"
  shows "verifyAgentReceiptChain (own_receipts s) genesis hash = Inr (Valid_chain (ch_lastReceiptSeq (fst s)))
    \<and> distinct (map ar_disclosureId (own_receipts s))"
proof -
  have "own_receipts (new_agent runId runAgentId genesis) = []" by (simp add: own_receipts_def new_agent_def)
  then have "chain_state hash genesis s \<and> int (length (own_receipts s)) < 2 ^ 53"
    using chain_run [OF assms(1) new_agent_chain assms(2)] assms(3) by simp
  then show ?thesis using chain_verifies [of hash genesis s] by (simp add: chain_state_def)
qed

text \<open>
  Property C15. A batch delivers nothing an agent may not see: each receipt issued by a request that is
  not a replay belongs to a disclosure granted to this agent in this run, whose source and grant lie
  at or before the cutoff, not revoked by then, available by the current virtual time and not issued
  to the agent before; and the receipt is issued after the cutoff and no later than the response
  cursor.
\<close>

theorem only_visible_disclosures_issued:
  assumes "sync_command lc hash s q = Inr (s', b, False)" and "sane_request q" and "r \<in> set (db_receipts b)"
  shows "\<exists>d. deliverable (with_state s q) d \<and> receipt_for (with_state s q) d r"
proof -
  obtain eligibles h where "issues lc hash (with_state s q) eligibles (db_receipts b) h"
    using sync_cases [OF assms(1)] by auto
  from issued_from_deliverable(1) [OF this] assms(2,3) show ?thesis
    by (simp add: sane_request_def with_state_def)
qed

text \<open>
  Requests are idempotent: a request that was answered is answered again with the same
  batch and without effect, however many other requests came in between, and a different request
  under the same key is refused.
\<close>

theorem sync_requests_idempotent:
  assumes "sync_command lc hash s q = Inr (s1, b, replayed)" and "sync_run lc hash s1 qs = Inr s2"
    and "sync_key q' = sync_key q" and "si_requestHash q' \<noteq> si_requestHash q" and "sync_well_formed q'"
  shows "sync_command lc hash s2 q = Inr (s2, b, True) \<and> sync_command lc hash s2 q' = fail ''IDEMPOTENCY_CONFLICT''"
  using sync.retry [OF assms(1,2)] sync.conflict [OF assms] by blast

lemma linked_last: "receipts.linked hash g rs h \<Longrightarrow> rs \<noteq> [] \<Longrightarrow> h = ar_receiptHash (last rs)"
  by (induction rs arbitrary: g) (auto split: if_splits)

text \<open>
  A verified chain commits to its receipts: two chains that verify up to the same number and
  end in the same hash hold the same receipts (snapshots up to the order of object entries) and start
  from the same genesis hash, unless the hash function collides on one of their texts.
\<close>

theorem verified_chain_commits:
  assumes "verifyAgentReceiptChain rs g hash = Inr (Valid_chain v)"
    and "verifyAgentReceiptChain ss g' hash = Inr (Valid_chain v)"
    and "rs \<noteq> []" and "ss \<noteq> []" and "ar_receiptHash (last rs) = ar_receiptHash (last ss)"
    and "int (length rs) < 2 ^ 53" and "int (length ss) < 2 ^ 53"
    and "list_all receipt_sound rs" and "list_all receipt_sound ss"
    and "inj_on hash (receipts.texts rs \<union> receipts.texts ss)"
  shows "g = g' \<and> map receipt_content rs = map receipt_content ss"
proof -
  have "verify_receipts hash g (int_num 1) rs = Inr (Valid_chain v)"
    "verify_receipts hash g' (int_num 1) ss = Inr (Valid_chain v)"
    using assms(1,2) by (simp_all add: verifyAgentReceiptChain_def)
  moreover have "1 + int (length rs) \<le> 2 ^ 53" "1 + int (length ss) \<le> 2 ^ 53" using assms(6,7) by linarith+
  ultimately obtain h h' where h: "receipts.linked hash g rs h" "receipts.linked hash g' ss h'"
    and v: "v = int_num (1 - 1 + int (length rs))" "v = int_num (1 - 1 + int (length ss))"
    using verify_linked [of 1 rs hash g v] verify_linked [of 1 ss hash g' v] by auto
  then have "length rs = length ss" by simp
  moreover have "h = h'" using linked_last [OF h(1)] linked_last [OF h(2)] assms(3,4,5) by simp
  ultimately show ?thesis using receipts.head_commits [OF h(1)] h(2) assms(8-10) by blast
qed

section \<open>A small chain\<close>

definition demo_disclosure :: disclosure_grant where
  "demo_disclosure = \<lparr>dg_id = ''d1'', dg_runId = ''r1'', dg_runAgentId = ''a1'', dg_sourceEventId = ''e1'',
     dg_sourceRunSeq = Num 1, dg_grantedRunSeq = Num 2, dg_revokedRunSeq = None, dg_viewKind = ''full'',
     dg_resourceType = ''fact'', dg_resourceId = ''f1'', dg_resourceVersion = ''1'',
     dg_availableVirtualAt = ''2026-01-01T00:00Z'', dg_schemaVersion = Num 1, dg_contentHash = ''c'',
     dg_contentSnapshot = None, dg_contentBlobRef = Some ''blob''\<rparr>"

definition demo_sync :: sync_input where
  "demo_sync = \<lparr>si_runId = ''r1'', si_runAgentId = ''a1'', si_eligibilityCutoffRunSeq = Num 3,
     si_responseRunCursor = Num 4, si_currentVirtualTime = ''2026-01-01T00:00Z'', si_afterReceiptSeq = Num 0,
     si_maxItems = Num 5, si_idempotencyKey = ''k'', si_requestHash = ''q'', si_deliveryBatchId = ''b1'',
     si_issuedAt = ''2026-01-01T00:00Z'', si_issuedVirtualAt = ''2026-01-01T00:00Z'',
     si_chainHead = \<lparr>ch_runId = [], ch_runAgentId = [], ch_lastReceiptSeq = Num 0, ch_headHash = []\<rparr>,
     si_existingReceipts = [], si_existingBatches = [], si_disclosures = [demo_disclosure],
     si_issuanceCoordinates =
       [\<lparr>ic_disclosureId = ''d1'', ic_receiptId = ''p1'', ic_issuedEventId = ''e2'', ic_issuedRunSeq = Num 4\<rparr>]\<rparr>"

definition demo_receipt_hash :: "string \<Rightarrow> string" where
  "demo_receipt_hash s = ''h'' @ s"

lemma demo_receipt_hash_facts: "js_trim (demo_receipt_hash s) \<noteq> []" "inj_on demo_receipt_hash A"
  by (simp_all add: js_trim_empty_iff demo_receipt_hash_def is_js_space_def inj_on_def)

lemma demo_sync_texts: "js_trim ''k'' \<noteq> []" "js_trim ''q'' \<noteq> []" "js_trim ''b1'' \<noteq> []"
  "toEpoch ''2026-01-01T00:00Z'' = Inr 1767225600000"
  by code_simp+

abbreviation demo_collation :: "string \<Rightarrow> string \<Rightarrow> js_number" where
  "demo_collation \<equiv> \<lambda>l r. Num 0"

definition demo_agent :: sync_state where
  "demo_agent = new_agent ''r1'' ''a1'' ''genesis''"

lemma demo_receipt_canonical:
  "\<exists>t. canonicalJson (receiptHashMaterial (receipt_without_hash i 0 demo_disclosure
      \<lparr>ic_disclosureId = ''d1'', ic_receiptId = ''p1'', ic_issuedEventId = ''e2'', ic_issuedRunSeq = Num 4\<rparr> None p)) = Inr t"
  if "ch_lastReceiptSeq (si_chainHead i) = Num 0"
  using that by (simp add: receiptHashMaterial_def receipt_without_hash_def demo_disclosure_def opt_entry_def sort_key_def)

lemma demo_eligible: "eligibleDisclosuresAt demo_collation ''r1'' ''a1'' (Num 3) ''2026-01-01T00:00Z'' [demo_disclosure] []
    = Inr [demo_disclosure]"
  by (simp add: eligibleDisclosuresAt_def eligible_def visible_at_def issued_ids_def demo_disclosure_def demo_sync_texts)

lemma demo_issued:
  "\<exists>r h. issue_receipts demo_receipt_hash (with_state demo_agent demo_sync) 0 ''genesis'' [demo_disclosure] = Inr ([r], h)
     \<and> ar_runId r = ''r1'' \<and> ar_runAgentId r = ''a1'' \<and> receipt_sound r"
proof -
  let ?i = "with_state demo_agent demo_sync"
  have i: "ch_lastReceiptSeq (si_chainHead ?i) = Num 0" by (simp add: demo_agent_def new_agent_def)
  obtain t where t: "canonicalJson (receiptHashMaterial (receipt_without_hash ?i 0 demo_disclosure
      \<lparr>ic_disclosureId = ''d1'', ic_receiptId = ''p1'', ic_issuedEventId = ''e2'', ic_issuedRunSeq = Num 4\<rparr>
      None ''genesis'')) = Inr t"
    using demo_receipt_canonical [OF i] by blast
  have d: "dg_id demo_disclosure = ''d1''" "dg_contentSnapshot demo_disclosure = None"
    "dg_contentBlobRef demo_disclosure = Some ''blob''" by (simp_all add: demo_disclosure_def)
  have q: "si_issuanceCoordinates ?i =
      [\<lparr>ic_disclosureId = ''d1'', ic_receiptId = ''p1'', ic_issuedEventId = ''e2'', ic_issuedRunSeq = Num 4\<rparr>]"
    "si_eligibilityCutoffRunSeq ?i = Num 3" "si_responseRunCursor ?i = Num 4"
    by (simp_all add: with_state_def demo_sync_def)
  let ?b = "receipt_without_hash ?i 0 demo_disclosure
      \<lparr>ic_disclosureId = ''d1'', ic_receiptId = ''p1'', ic_issuedEventId = ''e2'', ic_issuedRunSeq = Num 4\<rparr>
      None ''genesis''"
  have "receipt_sound (receipt_body.extend ?b m)" for m
    using is_double_int [of 1] is_double_int [of 4] i
    by (simp add: receipt_sound_def receipt_without_hash_def receipt_body.defs demo_disclosure_def)
  then show ?thesis
    by (simp add: q d js_map_get_def clone_snapshot_def t Let_def requireNonEmpty_def demo_receipt_hash_facts)
      (simp add: demo_sync_def)
qed

lemma demo_synced:
  "\<exists>s b r. sync_command demo_collation demo_receipt_hash demo_agent demo_sync = Inr (s, b, False)
     \<and> db_receipts b = [r] \<and> own_receipts s = [r] \<and> receipt_sound r"
proof -
  obtain r h where "issue_receipts demo_receipt_hash (with_state demo_agent demo_sync) 0 ''genesis''
      [demo_disclosure] = Inr ([r], h)" "ar_runId r = ''r1'' \<and> ar_runAgentId r = ''a1'' \<and> receipt_sound r"
    using demo_issued by blast
  then show ?thesis
    by (simp add: sync_command_def issueAgentSyncBatch_def with_state_def demo_sync_def demo_agent_def new_agent_def
        requireNonEmpty_def demo_sync_texts assertSyncIdentity_def assertCurrentReceiptHead_def demo_eligible
        js_take_def Let_def own_receipts_def)
      (simp add: demo_disclosure_def)
qed

lemma demo_sane: "sane_request demo_sync"
  by (simp add: sane_request_def demo_sync_def)

lemma issued_chain_verifies_witness:
  "\<exists>s r. sync_run demo_collation demo_receipt_hash demo_agent [demo_sync] = Inr s \<and> own_receipts s = [r]
     \<and> verifyAgentReceiptChain [r] ''genesis'' demo_receipt_hash = Inr (Valid_chain (ch_lastReceiptSeq (fst s)))"
proof -
  obtain s b r where s: "sync_command demo_collation demo_receipt_hash demo_agent demo_sync = Inr (s, b, False)"
    "own_receipts s = [r]" using demo_synced by blast
  then have run: "sync_run demo_collation demo_receipt_hash demo_agent [demo_sync] = Inr s" by simp
  have "verifyAgentReceiptChain (own_receipts s) ''genesis'' demo_receipt_hash = Inr (Valid_chain (ch_lastReceiptSeq (fst s)))
      \<and> distinct (map ar_disclosureId (own_receipts s))"
    by (rule issued_chain_verifies [OF run [unfolded demo_agent_def]]) (use demo_sane in \<open>simp_all add: demo_sync_def\<close>)
  with run s(2) show ?thesis by auto
qed

lemma only_visible_disclosures_issued_witness:
  "\<exists>s b r d. sync_command demo_collation demo_receipt_hash demo_agent demo_sync = Inr (s, b, False)
     \<and> r \<in> set (db_receipts b) \<and> deliverable (with_state demo_agent demo_sync) d"
proof -
  obtain s b r where s: "sync_command demo_collation demo_receipt_hash demo_agent demo_sync = Inr (s, b, False)"
    "db_receipts b = [r]" using demo_synced by blast
  then have "r \<in> set (db_receipts b)" by simp
  from only_visible_disclosures_issued [OF s(1) demo_sane this] s(1) this show ?thesis by blast
qed

lemma sync_requests_idempotent_witness:
  "\<exists>s b. sync_command demo_collation demo_receipt_hash demo_agent demo_sync = Inr (s, b, False)
     \<and> sync_command demo_collation demo_receipt_hash s demo_sync = Inr (s, b, True)"
proof -
  obtain s b r where s: "sync_command demo_collation demo_receipt_hash demo_agent demo_sync = Inr (s, b, False)"
    using demo_synced by blast
  have "sync_run demo_collation demo_receipt_hash s [] = Inr s" by simp
  from sync_requests_idempotent [OF s this, of "demo_sync\<lparr>si_requestHash := ''k''\<rparr>"] s show ?thesis
    by (simp add: demo_sync_def sync_key_def sync_well_formed_def demo_sync_texts)
qed

lemma verified_chain_commits_witness:
  "\<exists>s r. sync_run demo_collation demo_receipt_hash demo_agent [demo_sync] = Inr s \<and> own_receipts s = [r]
     \<and> map receipt_content [r] = map receipt_content (own_receipts s)"
proof -
  obtain s b r where s: "sync_command demo_collation demo_receipt_hash demo_agent demo_sync = Inr (s, b, False)"
    "own_receipts s = [r]" "receipt_sound r" using demo_synced by blast
  then have run: "sync_run demo_collation demo_receipt_hash demo_agent [demo_sync] = Inr s" by simp
  have "chain_state demo_receipt_hash ''genesis'' s"
    using chain_step [OF new_agent_chain s(1) [unfolded demo_agent_def] demo_sane]
    by (simp add: own_receipts_def new_agent_def demo_sync_def)
  then have v: "verifyAgentReceiptChain [r] ''genesis'' demo_receipt_hash = Inr (Valid_chain (ch_lastReceiptSeq (fst s)))"
    using chain_verifies s(2) by fastforce
  have "''genesis'' = ''genesis'' \<and> map receipt_content [r] = map receipt_content [r]"
    by (rule verified_chain_commits [OF v v]) (simp_all add: s(3) demo_receipt_hash_facts)
  with run s(2) show ?thesis by auto
qed

end
