(* ===== verification/AgentKnowledge.thy ===== *)
theory AgentKnowledge
  imports AgentSync
begin

text \<open>
  The rest of \<open>packages/core/src/v2/agent-sync.ts\<close>: an agent acknowledges a prefix of its receipt
  chain, and its knowledge at a point of the run is what it wrote itself and what it was issued or
  acknowledged by then.
\<close>

section \<open>Data\<close>

record view_acknowledgement =
  ak_id :: string
  ak_runId :: string
  ak_runAgentId :: string
  ak_deliveryBatchId :: string
  ak_throughReceiptSeq :: js_number
  ak_acknowledgedHeadHash :: string
  ak_acknowledgedEventId :: string
  ak_acknowledgedRunSeq :: js_number
  ak_acknowledgedAt :: string
  ak_commandReceiptId :: string
  ak_idempotencyKey :: string
  ak_requestHash :: string

record authored_fact =
  af_id :: string
  af_runId :: string
  af_runAgentId :: string
  af_acceptedRunSeq :: js_number
  af_resourceType :: string
  af_resourceId :: string
  af_resourceVersion :: string

datatype provenance = Authored | Issued | Acknowledged

record knowledge_item =
  ki_resourceType :: string
  ki_resourceId :: string
  ki_resourceVersion :: string
  ki_evidenceRunSeq :: js_number
  ki_provenance :: provenance

section \<open>Acknowledging\<close>

record ack_input =
  ai_runId :: string
  ai_runAgentId :: string
  ai_deliveryBatchId :: string
  ai_throughReceiptSeq :: js_number
  ai_acknowledgedHeadHash :: string
  ai_acknowledgementId :: string
  ai_acknowledgedEventId :: string
  ai_acknowledgedRunSeq :: js_number
  ai_acknowledgedAt :: string
  ai_commandReceiptId :: string
  ai_idempotencyKey :: string
  ai_requestHash :: string
  ai_receipts :: "view_receipt list"
  ai_existingAcknowledgements :: "view_acknowledgement list"

text \<open>\<open>reduce((maximum, a) => Math.max(maximum, a.throughReceiptSeq), 0)\<close> over an agent's
  acknowledgements.\<close>

definition acknowledged_through :: "(view_acknowledgement \<Rightarrow> bool) \<Rightarrow> view_acknowledgement list \<Rightarrow> js_number" where
  "acknowledged_through p aks = foldl (\<lambda>m a. js_max m (ak_throughReceiptSeq a)) (Num 0) (filter p aks)"

record ack_decision =
  ad_acknowledgement :: view_acknowledgement
  ad_acknowledgements :: "view_acknowledgement list"
  ad_replayed :: bool

definition appendAgentViewAcknowledgement :: "ack_input \<Rightarrow> ack_decision result" where
  "appendAgentViewAcknowledgement i =
     and_then (requireNonEmpty (ai_idempotencyKey i)) (\<lambda>_.
     and_then (requireNonEmpty (ai_requestHash i)) (\<lambda>_.
     case find (\<lambda>a. ak_runId a = ai_runId i \<and> ak_runAgentId a = ai_runAgentId i
                \<and> ak_idempotencyKey a = ai_idempotencyKey i) (ai_existingAcknowledgements i) of
       Some existing \<Rightarrow>
         if ak_requestHash existing \<noteq> ai_requestHash i then fail ''IDEMPOTENCY_CONFLICT''
         else Inr \<lparr>ad_acknowledgement = existing,
                ad_acknowledgements = ai_existingAcknowledgements i, ad_replayed = True\<rparr>
     | None \<Rightarrow>
         (case find (\<lambda>r. ar_runId r = ai_runId i \<and> ar_runAgentId r = ai_runAgentId i
                \<and> js_eq (ar_agentReceiptSeq r) (ai_throughReceiptSeq i)) (ai_receipts i) of
            None \<Rightarrow> fail ''ACKNOWLEDGEMENT_RECEIPT_OUT_OF_RANGE''
          | Some receipt \<Rightarrow>
              if ar_receiptHash receipt \<noteq> ai_acknowledgedHeadHash i then fail ''ACKNOWLEDGEMENT_HEAD_MISMATCH''
              else if ar_deliveryBatchId receipt \<noteq> ai_deliveryBatchId i
              then fail ''ACKNOWLEDGEMENT_BATCH_MISMATCH''
              else if js_lt (ai_throughReceiptSeq i)
                   (acknowledged_through (\<lambda>a. ak_runId a = ai_runId i \<and> ak_runAgentId a = ai_runAgentId i)
                      (ai_existingAcknowledgements i))
              then fail ''ACKNOWLEDGEMENT_REGRESSION''
              else if \<not> js_is_integer (ai_acknowledgedRunSeq i)
                      \<or> js_lt (ai_acknowledgedRunSeq i) (ar_issuedRunSeq receipt)
              then fail ''INVALID_ACKNOWLEDGED_RUN_SEQ''
              else
                and_then (toEpoch (ai_acknowledgedAt i)) (\<lambda>_.
                let acknowledgement =
                  \<lparr>ak_id = ai_acknowledgementId i, ak_runId = ai_runId i, ak_runAgentId = ai_runAgentId i,
                   ak_deliveryBatchId = ai_deliveryBatchId i, ak_throughReceiptSeq = ai_throughReceiptSeq i,
                   ak_acknowledgedHeadHash = ai_acknowledgedHeadHash i,
                   ak_acknowledgedEventId = ai_acknowledgedEventId i,
                   ak_acknowledgedRunSeq = ai_acknowledgedRunSeq i,
                   ak_acknowledgedAt = ai_acknowledgedAt i, ak_commandReceiptId = ai_commandReceiptId i,
                   ak_idempotencyKey = ai_idempotencyKey i, ak_requestHash = ai_requestHash i\<rparr>
                in Inr \<lparr>ad_acknowledgement = acknowledgement,
                     ad_acknowledgements = ai_existingAcknowledgements i @ [acknowledgement],
                     ad_replayed = False\<rparr>))))"

section \<open>Knowledge\<close>

datatype delivery_semantics = On_issue | On_acknowledgement

definition item_key :: "knowledge_item \<Rightarrow> string" where
  "item_key k = ki_resourceType k @ CHR 0x00 # ki_resourceId k @ CHR 0x00 # ki_resourceVersion k"

text \<open>The filter with its set of keys seen.\<close>

fun first_of_each :: "string set \<Rightarrow> knowledge_item list \<Rightarrow> knowledge_item list" where
  "first_of_each seen [] = []"
| "first_of_each seen (k # ks) =
     (if item_key k \<in> seen then first_of_each seen ks
      else k # first_of_each (insert (item_key k) seen) ks)"

definition authored_item :: "authored_fact \<Rightarrow> knowledge_item" where
  "authored_item f = \<lparr>ki_resourceType = af_resourceType f, ki_resourceId = af_resourceId f,
     ki_resourceVersion = af_resourceVersion f, ki_evidenceRunSeq = af_acceptedRunSeq f,
     ki_provenance = Authored\<rparr>"

definition received_item :: "delivery_semantics \<Rightarrow> view_receipt \<Rightarrow> knowledge_item" where
  "received_item sem r = \<lparr>ki_resourceType = ar_resourceType r, ki_resourceId = ar_resourceId r,
     ki_resourceVersion = ar_resourceVersion r, ki_evidenceRunSeq = ar_issuedRunSeq r,
     ki_provenance = (if sem = On_issue then Issued else Acknowledged)\<rparr>"

definition authored_by :: "string \<Rightarrow> string \<Rightarrow> js_number \<Rightarrow> authored_fact \<Rightarrow> bool" where
  "authored_by runId runAgentId cutoff f \<longleftrightarrow>
     af_runId f = runId \<and> af_runAgentId f = runAgentId \<and> js_le (af_acceptedRunSeq f) cutoff"

definition acknowledged_by :: "string \<Rightarrow> string \<Rightarrow> js_number \<Rightarrow> view_acknowledgement \<Rightarrow> bool" where
  "acknowledged_by runId runAgentId cutoff a \<longleftrightarrow>
     ak_runId a = runId \<and> ak_runAgentId a = runAgentId \<and> js_le (ak_acknowledgedRunSeq a) cutoff"

definition received_by ::
  "delivery_semantics \<Rightarrow> string \<Rightarrow> string \<Rightarrow> js_number \<Rightarrow> js_number \<Rightarrow> view_receipt \<Rightarrow> bool" where
  "received_by sem runId runAgentId cutoff through r \<longleftrightarrow>
     ar_runId r = runId \<and> ar_runAgentId r = runAgentId \<and> js_le (ar_issuedRunSeq r) cutoff
     \<and> (sem = On_issue \<or> js_le (ar_agentReceiptSeq r) through)"

definition agentKnowledgeAt ::
  "string \<Rightarrow> string \<Rightarrow> js_number \<Rightarrow> delivery_semantics \<Rightarrow> authored_fact list \<Rightarrow> view_receipt list \<Rightarrow>
   view_acknowledgement list \<Rightarrow> knowledge_item list" where
  "agentKnowledgeAt runId runAgentId cutoff sem facts receipts acknowledgements =
     (let authored = map authored_item
            (js_sort (\<lambda>l r. js_lt (Num 0) (js_sub (af_acceptedRunSeq l) (af_acceptedRunSeq r)))
              (filter (authored_by runId runAgentId cutoff) facts));
          through = acknowledged_through (acknowledged_by runId runAgentId cutoff) acknowledgements;
          received = map (received_item sem)
            (js_sort seq_after (filter (received_by sem runId runAgentId cutoff through) receipts))
      in first_of_each {} (authored @ received))"


section \<open>Maxima\<close>

lemma js_max_bounds:
  "a \<noteq> NaN \<Longrightarrow> b \<noteq> NaN \<Longrightarrow> js_max a b \<noteq> NaN \<and> js_le a (js_max a b) \<and> js_le b (js_max a b)"
  by (cases a; cases b) (auto simp: js_max_def js_le_def js_eq_def)

lemma js_max_cases: "js_max a b = a \<or> js_max a b = b \<or> js_max a b = NaN"
  by (auto simp: js_max_def)

lemma foldl_max_bounds:
  "m \<noteq> NaN \<Longrightarrow> list_all (\<lambda>x. f x \<noteq> NaN) xs \<Longrightarrow>
   foldl (\<lambda>m x. js_max m (f x)) m xs \<noteq> NaN \<and> js_le m (foldl (\<lambda>m x. js_max m (f x)) m xs)
   \<and> (\<forall>x \<in> set xs. js_le (f x) (foldl (\<lambda>m x. js_max m (f x)) m xs))"
proof (induction xs arbitrary: m)
  case Nil
  then show ?case by (simp add: js_le_refl)
next
  case (Cons x xs)
  then have "js_max m (f x) \<noteq> NaN" "js_le m (js_max m (f x))" "js_le (f x) (js_max m (f x))"
    using js_max_bounds by simp_all
  with Cons.IH [of "js_max m (f x)"] Cons.prems show ?case by (auto intro: js_le_trans)
qed

lemma foldl_max_attained:
  "foldl (\<lambda>m x. js_max m (f x)) m xs \<in> insert NaN (insert m (f ` set xs))"
proof (induction xs arbitrary: m)
  case (Cons x xs)
  have "foldl (\<lambda>m x. js_max m (f x)) (js_max m (f x)) xs \<in> insert NaN (insert (js_max m (f x)) (f ` set xs))"
    by (rule Cons.IH)
  with js_max_cases [of m "f x"] show ?case by auto
qed simp

lemma acknowledged_through_bounds:
  "list_all (\<lambda>a. ak_throughReceiptSeq a \<noteq> NaN) (filter p aks) \<Longrightarrow>
   acknowledged_through p aks \<noteq> NaN \<and> js_le (Num 0) (acknowledged_through p aks)
   \<and> (\<forall>a \<in> set (filter p aks). js_le (ak_throughReceiptSeq a) (acknowledged_through p aks))"
  unfolding acknowledged_through_def by (rule foldl_max_bounds) simp_all

lemma acknowledged_through_attained:
  "acknowledged_through p aks = NaN \<or> acknowledged_through p aks = Num 0
   \<or> (\<exists>a \<in> set aks. p a \<and> acknowledged_through p aks = ak_throughReceiptSeq a)"
  using foldl_max_attained [of ak_throughReceiptSeq "Num 0" "filter p aks"]
  unfolding acknowledged_through_def by auto

section \<open>Acknowledgement requests\<close>

definition ack_command ::
  "view_acknowledgement list \<Rightarrow> ack_input \<Rightarrow> (view_acknowledgement list \<times> view_acknowledgement \<times> bool) result" where
  "ack_command s q =
     and_then (appendAgentViewAcknowledgement (q\<lparr>ai_existingAcknowledgements := s\<rparr>))
       (\<lambda>d. Inr (ad_acknowledgements d, ad_acknowledgement d, ad_replayed d))"

definition ack_key :: "ack_input \<Rightarrow> string \<times> string \<times> string" where
  "ack_key q = (ai_runId q, ai_runAgentId q, ai_idempotencyKey q)"

definition acknowledgement_key :: "view_acknowledgement \<Rightarrow> string \<times> string \<times> string" where
  "acknowledgement_key a = (ak_runId a, ak_runAgentId a, ak_idempotencyKey a)"

definition ack_well_formed :: "ack_input \<Rightarrow> bool" where
  "ack_well_formed q \<longleftrightarrow> js_trim (ai_idempotencyKey q) \<noteq> [] \<and> js_trim (ai_requestHash q) \<noteq> []"

lemma ack_nonempty: "ack_command s q = Inr a \<Longrightarrow> ack_well_formed q"
  by (auto simp: ack_command_def appendAgentViewAcknowledgement_def ack_well_formed_def)

lemma ack_known:
  assumes "ack_well_formed q" and "find (\<lambda>a. acknowledgement_key a = ack_key q) s = Some r"
  shows "ack_command s q =
    (if ak_requestHash r = ai_requestHash q then Inr (s, r, True) else fail ''IDEMPOTENCY_CONFLICT'')"
proof -
  have "find (\<lambda>a. ak_runId a = ai_runId q \<and> ak_runAgentId a = ai_runAgentId q
      \<and> ak_idempotencyKey a = ai_idempotencyKey q) s = Some r"
    using assms(2) by (simp add: acknowledgement_key_def ack_key_def)
  then show ?thesis using assms(1)
    by (simp add: ack_command_def appendAgentViewAcknowledgement_def ack_well_formed_def requireNonEmpty_def)
qed

text \<open>A new acknowledgement names a receipt of the agent by number, hash and batch, and does not fall
  behind the acknowledgements before it.\<close>

lemma ack_fresh_effect:
  assumes "find (\<lambda>a. acknowledgement_key a = ack_key q) s = None" and "ack_command s q = Inr (s', r, replayed)"
  shows "\<not> replayed \<and> s' = s @ [r] \<and> acknowledgement_key r = ack_key q \<and> ak_requestHash r = ai_requestHash q
    \<and> (\<exists>receipt \<in> set (ai_receipts q). ar_runId receipt = ak_runId r \<and> ar_runAgentId receipt = ak_runAgentId r
         \<and> js_eq (ar_agentReceiptSeq receipt) (ak_throughReceiptSeq r)
         \<and> ar_receiptHash receipt = ak_acknowledgedHeadHash r \<and> ar_deliveryBatchId receipt = ak_deliveryBatchId r
         \<and> \<not> js_lt (ak_acknowledgedRunSeq r) (ar_issuedRunSeq receipt))
    \<and> \<not> js_lt (ak_throughReceiptSeq r)
         (acknowledged_through (\<lambda>a. ak_runId a = ak_runId r \<and> ak_runAgentId a = ak_runAgentId r) s)"
proof -
  have "find (\<lambda>a. ak_runId a = ai_runId q \<and> ak_runAgentId a = ai_runAgentId q
      \<and> ak_idempotencyKey a = ai_idempotencyKey q) s = None"
    using assms(1) by (simp add: acknowledgement_key_def ack_key_def)
  with assms(2) show ?thesis
    by (auto simp: ack_command_def appendAgentViewAcknowledgement_def acknowledgement_key_def ack_key_def
        Let_def split: option.splits dest!: find_SomeD)
qed

interpretation acks: idempotent_log "\<lambda>s. s" ack_key acknowledgement_key ai_requestHash ak_requestHash
  ack_command ack_well_formed
  by unfold_locales (use ack_nonempty ack_known ack_fresh_effect in blast)+

abbreviation ack_run :: "view_acknowledgement list \<Rightarrow> ack_input list \<Rightarrow> view_acknowledgement list result" where
  "ack_run \<equiv> run_commands (\<lambda>s q. and_then (ack_command s q) (\<lambda>a. Inr (fst a)))"

section \<open>Properties of acknowledgements\<close>

definition receipt_numbered :: "ack_input \<Rightarrow> bool" where
  "receipt_numbered q \<longleftrightarrow> list_all (\<lambda>r. ar_agentReceiptSeq r \<noteq> NaN) (ai_receipts q)"

definition acks_in_order :: "view_acknowledgement list \<Rightarrow> bool" where
  "acks_in_order s \<longleftrightarrow> list_all (\<lambda>a. ak_throughReceiptSeq a \<noteq> NaN) s
     \<and> sorted_wrt (\<lambda>a b. ak_runId a = ak_runId b \<and> ak_runAgentId a = ak_runAgentId b \<longrightarrow>
         js_le (ak_throughReceiptSeq a) (ak_throughReceiptSeq b)) s"

lemma ack_cases:
  assumes "ack_command s q = Inr (s', r, replayed)"
  obtains "s' = s" | "find (\<lambda>a. acknowledgement_key a = ack_key q) s = None" "s' = s @ [r]"
proof (cases "find (\<lambda>a. acknowledgement_key a = ack_key q) s")
  case None
  then show ?thesis using ack_fresh_effect [OF None assms] that by blast
next
  case (Some a)
  then show ?thesis using ack_known [OF ack_nonempty [OF assms] Some] assms that by (auto split: if_splits)
qed

lemma acks_in_order_step:
  assumes "acks_in_order s" and "ack_command s q = Inr (s', r, replayed)"
  shows "acks_in_order s'"
  using assms(2)
proof (cases rule: ack_cases)
  case 1
  then show ?thesis using assms(1) by simp
next
  case 2
  let ?own = "\<lambda>a. ak_runId a = ak_runId r \<and> ak_runAgentId a = ak_runAgentId r"
  note fresh = ack_fresh_effect [OF 2(1) assms(2)]
  then have r: "ak_throughReceiptSeq r \<noteq> NaN" by (auto simp: js_eq_def)
  have "list_all (\<lambda>a. ak_throughReceiptSeq a \<noteq> NaN) (filter ?own s)"
    using assms(1) by (auto simp: acks_in_order_def list_all_iff)
  note bounds = acknowledged_through_bounds [OF this]
  have "js_le (acknowledged_through ?own s) (ak_throughReceiptSeq r)"
    using fresh bounds js_not_lt [OF r, of "acknowledged_through ?own s"] by blast
  then have "js_le (ak_throughReceiptSeq a) (ak_throughReceiptSeq r)" if "a \<in> set s" "?own a" for a
    using bounds that by (auto intro: js_le_trans)
  then show ?thesis using assms(1) r 2(2) by (auto simp: acks_in_order_def sorted_wrt_append)
qed

text \<open>
  An agent's acknowledged position never moves back: in every log of acknowledgements that
  requests build up, the positions of one agent of one run are in ascending order.
\<close>

theorem acknowledgements_never_regress:
  assumes "ack_run [] qs = Inr s"
  shows "sorted_wrt (\<lambda>a b. ak_runId a = ak_runId b \<and> ak_runAgentId a = ak_runAgentId b \<longrightarrow>
      js_le (ak_throughReceiptSeq a) (ak_throughReceiptSeq b)) s"
proof -
  have "acks_in_order s"
    by (rule run_commands_invariant [OF assms, where P = acks_in_order])
      (auto simp: acks_in_order_def [of "[]"] intro: acks_in_order_step)
  then show ?thesis by (simp add: acks_in_order_def)
qed

section \<open>Properties of knowledge\<close>

lemma first_of_each_keys: "item_key ` set (first_of_each seen ks) = item_key ` set ks - seen"
  by (induction seen ks rule: first_of_each.induct) auto

lemma first_of_each_distinct: "distinct (map item_key (first_of_each seen ks))"
proof (induction seen ks rule: first_of_each.induct)
  case (2 seen k ks)
  have "item_key k \<notin> item_key ` set (first_of_each (insert (item_key k) seen) ks)"
    by (simp add: first_of_each_keys)
  with 2 show ?case by auto
qed simp

lemma first_of_each_subset: "set (first_of_each seen ks) \<subseteq> set ks"
  by (induction seen ks rule: first_of_each.induct) auto

definition knowledge_sources ::
  "string \<Rightarrow> string \<Rightarrow> js_number \<Rightarrow> delivery_semantics \<Rightarrow> authored_fact list \<Rightarrow> view_receipt list \<Rightarrow>
   view_acknowledgement list \<Rightarrow> knowledge_item set" where
  "knowledge_sources runId runAgentId cutoff sem facts receipts aks =
     authored_item ` {f \<in> set facts. authored_by runId runAgentId cutoff f}
     \<union> received_item sem ` {r \<in> set receipts. received_by sem runId runAgentId cutoff
          (acknowledged_through (acknowledged_by runId runAgentId cutoff) aks) r}"

lemma knowledge_from_sources:
  "set (agentKnowledgeAt runId a c sem facts receipts aks) \<subseteq> knowledge_sources runId a c sem facts receipts aks"
  using first_of_each_subset by (fastforce simp: agentKnowledgeAt_def knowledge_sources_def Let_def)

lemma knowledge_keys:
  "item_key ` set (agentKnowledgeAt runId a c sem facts receipts aks) =
   item_key ` knowledge_sources runId a c sem facts receipts aks"
  by (simp add: agentKnowledgeAt_def knowledge_sources_def Let_def first_of_each_keys image_Un)

text \<open>
  Property C35. What an agent knows is justified and listed once: each item was authored by the agent
  itself by the cutoff, or stems from one of its own receipts issued by the cutoff, which under the
  acknowledging semantics lies within a position the agent had acknowledged by the cutoff; and no
  resource version is listed twice.
\<close>

theorem knowledge_is_justified:
  assumes "list_all (\<lambda>r. js_lt (Num 0) (ar_agentReceiptSeq r)) receipts"
  shows "distinct (map item_key (agentKnowledgeAt runId a c sem facts receipts aks))
    \<and> (\<forall>k \<in> set (agentKnowledgeAt runId a c sem facts receipts aks).
         (\<exists>f \<in> set facts. authored_by runId a c f \<and> k = authored_item f)
         \<or> (\<exists>r \<in> set receipts. k = received_item sem r \<and> ar_runId r = runId \<and> ar_runAgentId r = a
              \<and> js_le (ar_issuedRunSeq r) c
              \<and> (sem = On_issue \<or> (\<exists>ack \<in> set aks. acknowledged_by runId a c ack
                    \<and> js_le (ar_agentReceiptSeq r) (ak_throughReceiptSeq ack)))))"
proof (intro conjI ballI)
  let ?K = "agentKnowledgeAt runId a c sem facts receipts aks"
  let ?through = "acknowledged_through (acknowledged_by runId a c) aks"
  show "distinct (map item_key ?K)"
    by (simp add: agentKnowledgeAt_def Let_def first_of_each_distinct)
  fix k assume "k \<in> set ?K"
  then have "k \<in> knowledge_sources runId a c sem facts receipts aks" using knowledge_from_sources by blast
  then consider f where "f \<in> set facts" "authored_by runId a c f" "k = authored_item f"
    | r where "r \<in> set receipts" "received_by sem runId a c ?through r" "k = received_item sem r"
    by (auto simp: knowledge_sources_def)
  then show "(\<exists>f \<in> set facts. authored_by runId a c f \<and> k = authored_item f)
         \<or> (\<exists>r \<in> set receipts. k = received_item sem r \<and> ar_runId r = runId \<and> ar_runAgentId r = a
              \<and> js_le (ar_issuedRunSeq r) c
              \<and> (sem = On_issue \<or> (\<exists>ack \<in> set aks. acknowledged_by runId a c ack
                    \<and> js_le (ar_agentReceiptSeq r) (ak_throughReceiptSeq ack))))"
  proof cases
    case 2
    have "js_lt (Num 0) (ar_agentReceiptSeq r)" using assms 2(1) by (simp add: list_all_iff)
    then have "\<not> js_le (ar_agentReceiptSeq r) (Num 0)" by (meson js_le_lt_trans js_lt_irrefl)
    then have "sem = On_issue \<or> (\<exists>ack \<in> set aks. acknowledged_by runId a c ack
        \<and> js_le (ar_agentReceiptSeq r) (ak_throughReceiptSeq ack))"
      using 2(2) acknowledged_through_attained [of "acknowledged_by runId a c" aks]
      by (auto simp: received_by_def)
    with 2 show ?thesis by (auto simp: received_by_def)
  qed blast
qed

text \<open>
  Knowledge only grows as the run goes on: every resource version known at a cutoff is
  known at each later one.
\<close>

theorem knowledge_grows:
  assumes "js_le c c'" and "list_all (\<lambda>a. ak_throughReceiptSeq a \<noteq> NaN) aks"
  shows "item_key ` set (agentKnowledgeAt runId a c sem facts receipts aks) \<subseteq>
    item_key ` set (agentKnowledgeAt runId a c' sem facts receipts aks)"
proof -
  let ?t = "\<lambda>c. acknowledged_through (acknowledged_by runId a c) aks"
  have acked: "acknowledged_by runId a c x \<Longrightarrow> acknowledged_by runId a c' x" for x
    using assms(1) by (auto simp: acknowledged_by_def intro: js_le_trans)
  have bounds: "?t c \<noteq> NaN" "js_le (Num 0) (?t c')"
    "\<forall>x \<in> set aks. acknowledged_by runId a c' x \<longrightarrow> js_le (ak_throughReceiptSeq x) (?t c')"
    using acknowledged_through_bounds [of "acknowledged_by runId a c" aks]
      acknowledged_through_bounds [of "acknowledged_by runId a c'" aks] assms(2)
    by (auto simp: list_all_iff)
  have "js_le (?t c) (?t c')"
    using acknowledged_through_attained [of "acknowledged_by runId a c" aks] bounds acked by auto
  then have "received_by sem runId a c (?t c) r \<Longrightarrow> received_by sem runId a c' (?t c') r" for r
    using assms(1) by (auto simp: received_by_def intro: js_le_trans)
  moreover have "authored_by runId a c f \<Longrightarrow> authored_by runId a c' f" for f
    using assms(1) by (auto simp: authored_by_def intro: js_le_trans)
  ultimately have "knowledge_sources runId a c sem facts receipts aks \<subseteq>
      knowledge_sources runId a c' sem facts receipts aks"
    by (auto simp: knowledge_sources_def)
  then show ?thesis unfolding knowledge_keys by (rule image_mono)
qed

section \<open>A small example\<close>

definition demo_received :: view_receipt where
  "demo_received = \<lparr>ar_id = ''p1'', ar_disclosureId = ''d1'', ar_runId = ''r1'', ar_runAgentId = ''a1'',
     ar_agentReceiptSeq = Num 1, ar_deliveryBatchId = ''b1'', ar_sourceEventId = ''e1'', ar_sourceRunSeq = Num 1,
     ar_issuedEventId = ''e2'', ar_issuedRunSeq = Num 4, ar_viewKind = ''full'', ar_resourceType = ''fact'',
     ar_resourceId = ''f1'', ar_resourceVersion = ''1'', ar_availableVirtualAt = ''2026-01-01T00:00Z'',
     ar_issuedVirtualAt = ''2026-01-01T00:00Z'', ar_issuedAt = ''2026-01-01T00:00Z'', ar_schemaVersion = Num 1,
     ar_contentHash = ''c'', ar_contentSnapshot = None, ar_contentBlobRef = Some ''blob'',
     ar_previousReceiptHash = ''genesis'', ar_receiptHash = ''h1''\<rparr>"

definition demo_ack :: ack_input where
  "demo_ack = \<lparr>ai_runId = ''r1'', ai_runAgentId = ''a1'', ai_deliveryBatchId = ''b1'', ai_throughReceiptSeq = Num 1,
     ai_acknowledgedHeadHash = ''h1'', ai_acknowledgementId = ''k1'', ai_acknowledgedEventId = ''e3'',
     ai_acknowledgedRunSeq = Num 5, ai_acknowledgedAt = ''2026-01-01T00:00Z'', ai_commandReceiptId = ''c1'',
     ai_idempotencyKey = ''k'', ai_requestHash = ''q'', ai_receipts = [demo_received],
     ai_existingAcknowledgements = []\<rparr>"

definition demo_acknowledged :: view_acknowledgement where
  "demo_acknowledged = \<lparr>ak_id = ''k1'', ak_runId = ''r1'', ak_runAgentId = ''a1'', ak_deliveryBatchId = ''b1'',
     ak_throughReceiptSeq = Num 1, ak_acknowledgedHeadHash = ''h1'', ak_acknowledgedEventId = ''e3'',
     ak_acknowledgedRunSeq = Num 5, ak_acknowledgedAt = ''2026-01-01T00:00Z'', ak_commandReceiptId = ''c1'',
     ak_idempotencyKey = ''k'', ak_requestHash = ''q''\<rparr>"

lemma demo_ack_run: "ack_run [] [demo_ack] = Inr [demo_acknowledged]"
  by (simp add: ack_command_def appendAgentViewAcknowledgement_def demo_ack_def demo_received_def
      demo_acknowledged_def requireNonEmpty_def demo_sync_texts acknowledged_through_def Let_def)

lemma acknowledgements_never_regress_witness:
  "sorted_wrt (\<lambda>a b. ak_runId a = ak_runId b \<and> ak_runAgentId a = ak_runAgentId b \<longrightarrow>
      js_le (ak_throughReceiptSeq a) (ak_throughReceiptSeq b)) [demo_acknowledged]"
  by (rule acknowledgements_never_regress [OF demo_ack_run])

lemma knowledge_is_justified_witness:
  "agentKnowledgeAt ''r1'' ''a1'' (Num 5) On_acknowledgement [] [demo_received] [demo_acknowledged]
     = [received_item On_acknowledgement demo_received]
   \<and> (\<exists>ack \<in> set [demo_acknowledged]. js_le (ar_agentReceiptSeq demo_received) (ak_throughReceiptSeq ack))"
proof -
  have k: "agentKnowledgeAt ''r1'' ''a1'' (Num 5) On_acknowledgement [] [demo_received] [demo_acknowledged]
     = [received_item On_acknowledgement demo_received]"
    by (simp add: agentKnowledgeAt_def acknowledged_through_def acknowledged_by_def received_by_def
        demo_received_def demo_acknowledged_def js_max_def Let_def)
  have "list_all (\<lambda>r. js_lt (Num 0) (ar_agentReceiptSeq r)) [demo_received]" by (simp add: demo_received_def)
  from knowledge_is_justified [OF this, of "''r1''" "''a1''" "Num 5" On_acknowledgement "[]" "[demo_acknowledged]"]
  show ?thesis unfolding k by (auto simp: received_item_def demo_received_def)
qed

lemma knowledge_grows_witness:
  "item_key ` set (agentKnowledgeAt ''r1'' ''a1'' (Num 3) On_issue [] [demo_received] []) \<subseteq>
   item_key ` set (agentKnowledgeAt ''r1'' ''a1'' (Num 4) On_issue [] [demo_received] [])"
  by (rule knowledge_grows) simp_all

end
