(* ===== verification/Episode.thy ===== *)
theory Episode
  imports Shared
begin

text \<open>
  \<open>packages/core/src/index.ts\<close>, first part: the life cycle of an episode of the first version of the
  platform, in which a participant observes released information, submits a plan, has it evaluated
  and advances in virtual time.

  This module parses timestamps with \<open>Date.parse\<close> alone, whose result on text outside the ISO format
  depends on the host. It is a parameter \<open>date_parse\<close>: the milliseconds, or none for NaN.
\<close>

section \<open>Data\<close>

datatype episode_state =
    Waiting_for_submission | Evaluation_queued | Evaluating | Feedback_available | Completed_episode

record episode =
  ep_id :: string
  ep_scenarioVersionId :: string
  ep_participantVersionId :: string
  ep_state :: episode_state
  ep_stageIndex :: js_number
  ep_virtualTime :: string
  ep_version :: js_number
  ep_observedInformationIds :: "string list"

record information_item =
  ii_id :: string
  ii_eventTime :: string
  ii_observedTime :: string
  ii_ingestedTime :: string
  ii_releasedTime :: string

record source_release =
  sr_sourceId :: string
  sr_flowM3s :: js_number
  sr_evidenceRefs :: "string list"

record section_flow =
  sf_sectionId :: string
  sf_flowM3s :: js_number

record plan_submission =
  ps_stage :: js_number
  ps_sourceReleases :: "source_release list"
  ps_expectedSectionFlows :: "section_flow list"
  ps_isFinal :: bool

datatype verdict = Pass | Partial | Fail_verdict

type_synonym date_parser = "string \<Rightarrow> int option"

section \<open>Operations\<close>

definition assertVersion :: "episode \<Rightarrow> js_number \<Rightarrow> unit result" where
  "assertVersion episode expectedVersion =
     (if \<not> js_eq (ep_version episode) expectedVersion then fail ''EPISODE_VERSION_CONFLICT'' else Inr ())"

definition assertState :: "episode \<Rightarrow> episode_state \<Rightarrow> unit result" where
  "assertState episode expected =
     (if ep_state episode \<noteq> expected then fail ''EPISODE_STATE_CONFLICT'' else Inr ())"

definition parse_epoch :: "date_parser \<Rightarrow> string \<Rightarrow> int result" where
  "parse_epoch date_parse v =
     (case date_parse v of None \<Rightarrow> fail ''INVALID_TIMESTAMP'' | Some e \<Rightarrow> Inr e)"

text \<open>\<open>nextEpisode(episode, { state, version: episode.version + 1 })\<close>, the change most operations make.\<close>

definition nextEpisode :: "episode \<Rightarrow> episode_state \<Rightarrow> episode" where
  "nextEpisode episode state = episode\<lparr>ep_state := state, ep_version := js_add (ep_version episode) (Num 1)\<rparr>"

definition createEpisode :: "date_parser \<Rightarrow> string \<Rightarrow> string \<Rightarrow> string \<Rightarrow> string \<Rightarrow> episode result" where
  "createEpisode date_parse ident scenarioVersionId participantVersionId replayStartAt =
     and_then (parse_epoch date_parse replayStartAt) (\<lambda>_.
       Inr \<lparr>ep_id = ident, ep_scenarioVersionId = scenarioVersionId,
            ep_participantVersionId = participantVersionId, ep_state = Waiting_for_submission,
            ep_stageIndex = Num 0, ep_virtualTime = replayStartAt, ep_version = Num 1,
            ep_observedInformationIds = []\<rparr>)"

definition released :: "date_parser \<Rightarrow> int \<Rightarrow> information_item \<Rightarrow> bool result" where
  "released date_parse virtualTime item =
     and_then (parse_epoch date_parse (ii_eventTime item)) (\<lambda>eventTime.
     and_then (parse_epoch date_parse (ii_observedTime item)) (\<lambda>observedTime.
     and_then (parse_epoch date_parse (ii_ingestedTime item)) (\<lambda>ingestedTime.
     and_then (parse_epoch date_parse (ii_releasedTime item)) (\<lambda>releasedTime.
       if eventTime > observedTime \<or> observedTime > ingestedTime \<or> ingestedTime > releasedTime
       then fail ''INVALID_INFORMATION_TIMELINE''
       else Inr (releasedTime \<le> virtualTime)))))"

definition releaseInformation :: "date_parser \<Rightarrow> episode \<Rightarrow> information_item list \<Rightarrow> information_item list result" where
  "releaseInformation date_parse episode items =
     and_then (parse_epoch date_parse (ep_virtualTime episode)) (\<lambda>virtualTime.
       filter_result (released date_parse virtualTime) items)"

definition recordObservation :: "episode \<Rightarrow> string list \<Rightarrow> episode result" where
  "recordObservation episode informationIds =
     and_then (assertState episode Waiting_for_submission) (\<lambda>_.
       let observed = js_set (ep_observedInformationIds episode @ informationIds) in
       if length observed = length (ep_observedInformationIds episode) then Inr episode
       else Inr (episode\<lparr>ep_observedInformationIds := observed,
                        ep_version := js_add (ep_version episode) (Num 1)\<rparr>))"

text \<open>The loop over the releases of a submission, with the sources seen so far.\<close>

fun check_releases :: "string set \<Rightarrow> string set \<Rightarrow> source_release list \<Rightarrow> unit result" where
  "check_releases observed sourceIds [] = Inr ()"
| "check_releases observed sourceIds (release # releases) =
     (if \<not> js_is_finite (sr_flowM3s release) \<or> js_lt (sr_flowM3s release) (Num 0)
      then fail ''INVALID_ALLOCATION_VOLUME''
      else if sr_sourceId release \<in> sourceIds then fail ''DUPLICATE_ALLOCATION''
      else and_then
        (for_each (\<lambda>ref. if ref \<notin> observed then fail ''EVIDENCE_NOT_OBSERVED'' else Inr ())
          (sr_evidenceRefs release))
        (\<lambda>_. check_releases observed (insert (sr_sourceId release) sourceIds) releases))"

definition queueSubmission :: "episode \<Rightarrow> plan_submission \<Rightarrow> js_number \<Rightarrow> episode result" where
  "queueSubmission episode submission expectedVersion =
     and_then (assertVersion episode expectedVersion) (\<lambda>_.
     and_then (assertState episode Waiting_for_submission) (\<lambda>_.
       if length (ps_sourceReleases submission) = 0 then fail ''EMPTY_SUBMISSION''
       else
         let expectedStage = js_add (ep_stageIndex episode) (Num 1) in
         if \<not> js_eq (ps_stage submission) expectedStage then fail ''SUBMISSION_STAGE_CONFLICT''
         else if js_eq (ps_stage submission) (Num 1) \<and> ps_isFinal submission
              \<or> js_eq (ps_stage submission) (Num 2) \<and> \<not> ps_isFinal submission
         then fail ''SUBMISSION_FINALITY_INVALID''
         else and_then
           (check_releases (set (ep_observedInformationIds episode)) {} (ps_sourceReleases submission))
           (\<lambda>_. Inr (nextEpisode episode Evaluation_queued))))"

definition startEvaluation :: "episode \<Rightarrow> js_number \<Rightarrow> episode result" where
  "startEvaluation episode expectedVersion =
     and_then (assertVersion episode expectedVersion) (\<lambda>_.
     and_then (assertState episode Evaluation_queued) (\<lambda>_. Inr (nextEpisode episode Evaluating)))"

definition publishFeedback :: "episode \<Rightarrow> js_number \<Rightarrow> episode result" where
  "publishFeedback episode expectedVersion =
     and_then (assertVersion episode expectedVersion) (\<lambda>_.
     and_then (assertState episode Evaluating) (\<lambda>_. Inr (nextEpisode episode Feedback_available)))"

definition reopenEpisodeForRevision :: "episode \<Rightarrow> js_number \<Rightarrow> episode result" where
  "reopenEpisodeForRevision episode expectedVersion =
     and_then (assertVersion episode expectedVersion) (\<lambda>_.
     and_then (assertState episode Feedback_available) (\<lambda>_. Inr (nextEpisode episode Waiting_for_submission)))"

definition advanceEpisode :: "date_parser \<Rightarrow> episode \<Rightarrow> js_number \<Rightarrow> string \<Rightarrow> episode result" where
  "advanceEpisode date_parse episode expectedVersion nextCheckpoint =
     and_then (assertVersion episode expectedVersion) (\<lambda>_.
     and_then (assertState episode Feedback_available) (\<lambda>_.
     and_then (parse_epoch date_parse (ep_virtualTime episode)) (\<lambda>currentTime.
     and_then (parse_epoch date_parse nextCheckpoint) (\<lambda>nextTime.
       if nextTime \<le> currentTime then fail ''VIRTUAL_TIME_NOT_MONOTONIC''
       else Inr ((nextEpisode episode Waiting_for_submission)
              \<lparr>ep_stageIndex := js_add (ep_stageIndex episode) (Num 1), ep_virtualTime := nextCheckpoint\<rparr>)))))"

definition completeEpisode :: "episode \<Rightarrow> js_number \<Rightarrow> bool \<Rightarrow> verdict \<Rightarrow> episode result" where
  "completeEpisode episode expectedVersion isFinal v =
     and_then (assertVersion episode expectedVersion) (\<lambda>_.
     and_then (assertState episode Feedback_available) (\<lambda>_.
       if \<not> isFinal \<or> v \<noteq> Pass then fail ''EPISODE_NOT_FINALIZABLE''
       else Inr (nextEpisode episode Completed_episode)))"

section \<open>Commands\<close>

text \<open>The commands that name the version they were decided on; recording an observation does not.\<close>

datatype episode_command =
    Queue plan_submission js_number | Start_evaluation js_number | Publish_feedback js_number
  | Reopen js_number | Advance js_number string | Complete js_number bool verdict

fun episode_command_version :: "episode_command \<Rightarrow> js_number" where
  "episode_command_version (Queue s v) = v"
| "episode_command_version (Start_evaluation v) = v"
| "episode_command_version (Publish_feedback v) = v"
| "episode_command_version (Reopen v) = v"
| "episode_command_version (Advance v t) = v"
| "episode_command_version (Complete v f r) = v"

fun exec_episode :: "date_parser \<Rightarrow> episode \<Rightarrow> episode_command \<Rightarrow> episode result" where
  "exec_episode dp e (Queue s v) = queueSubmission e s v"
| "exec_episode dp e (Start_evaluation v) = startEvaluation e v"
| "exec_episode dp e (Publish_feedback v) = publishFeedback e v"
| "exec_episode dp e (Reopen v) = reopenEpisodeForRevision e v"
| "exec_episode dp e (Advance v t) = advanceEpisode dp e v t"
| "exec_episode dp e (Complete v f r) = completeEpisode e v f r"

datatype episode_event = Decide episode_command | Observe "string list"

fun episode_step :: "date_parser \<Rightarrow> episode \<Rightarrow> episode_event \<Rightarrow> episode result" where
  "episode_step dp e (Decide c) = exec_episode dp e c"
| "episode_step dp e (Observe ids) = recordObservation e ids"

text \<open>The edges of the life cycle.\<close>

inductive episode_edge :: "episode_state \<Rightarrow> episode_command \<Rightarrow> episode_state \<Rightarrow> bool" where
  "episode_edge Waiting_for_submission (Queue s v) Evaluation_queued"
| "episode_edge Evaluation_queued (Start_evaluation v) Evaluating"
| "episode_edge Evaluating (Publish_feedback v) Feedback_available"
| "episode_edge Feedback_available (Reopen v) Waiting_for_submission"
| "episode_edge Feedback_available (Advance v t) Waiting_for_submission"
| "episode_edge Feedback_available (Complete v True Pass) Completed_episode"

inductive_simps episode_edge_simps [simp]:
  "episode_edge a (Queue s v) b" "episode_edge a (Start_evaluation v) b" "episode_edge a (Publish_feedback v) b"
  "episode_edge a (Reopen v) b" "episode_edge a (Advance v t) b" "episode_edge a (Complete v f r) b"

lemma assertVersion_Inr [simp]: "assertVersion e v = Inr u \<longleftrightarrow> js_eq (ep_version e) v"
  by (simp add: assertVersion_def)

lemma assertState_Inr [simp]: "assertState e s = Inr u \<longleftrightarrow> ep_state e = s"
  by (simp add: assertState_def)

lemma parse_epoch_Inr [simp]: "parse_epoch dp v = Inr e \<longleftrightarrow> dp v = Some e"
  by (simp add: parse_epoch_def split: option.splits)

lemma nextEpisode_simps [simp]:
  "ep_state (nextEpisode e s) = s" "ep_version (nextEpisode e s) = js_add (ep_version e) (Num 1)"
  "ep_stageIndex (nextEpisode e s) = ep_stageIndex e" "ep_virtualTime (nextEpisode e s) = ep_virtualTime e"
  "ep_observedInformationIds (nextEpisode e s) = ep_observedInformationIds e"
  by (simp_all add: nextEpisode_def)

lemmas episode_operation_defs =
  queueSubmission_def startEvaluation_def publishFeedback_def reopenEpisodeForRevision_def advanceEpisode_def
  completeEpisode_def

lemma exec_episode_effect:
  assumes "exec_episode dp e c = Inr e'"
  shows "js_eq (ep_version e) (episode_command_version c) \<and> ep_version e' = js_add (ep_version e) (Num 1)
    \<and> episode_edge (ep_state e) c (ep_state e')
    \<and> ep_observedInformationIds e' = ep_observedInformationIds e"
  using assms by (cases c) (auto simp: episode_operation_defs Let_def simp del: js_add.simps)

interpretation episode_agg: versioned_aggregate ep_version episode_command_version "exec_episode dp" for dp
  by unfold_locales (use exec_episode_effect in blast)+

section \<open>Properties\<close>

definition release_ok :: "string set \<Rightarrow> source_release \<Rightarrow> bool" where
  "release_ok observed r \<longleftrightarrow>
     js_is_finite (sr_flowM3s r) \<and> \<not> js_lt (sr_flowM3s r) (Num 0) \<and> set (sr_evidenceRefs r) \<subseteq> observed"

lemma check_releases_Inr:
  "check_releases observed ids rs = Inr u \<longleftrightarrow>
     list_all (release_ok observed) rs \<and> distinct (map sr_sourceId rs) \<and> sr_sourceId ` set rs \<inter> ids = {}"
  by (induction rs arbitrary: ids) (auto simp: release_ok_def subset_iff)

text \<open>
  A plan is queued exactly when it names the current version of an episode that waits for
  it, is not empty, is for the next stage with the finality of that stage, and each source appears
  once with a finite, non-negative flow and evidence the participant has observed.
\<close>

theorem submission_queued_iff:
  "queueSubmission e s v = Inr e' \<longleftrightarrow>
     js_eq (ep_version e) v \<and> ep_state e = Waiting_for_submission \<and> ps_sourceReleases s \<noteq> []
     \<and> js_eq (ps_stage s) (js_add (ep_stageIndex e) (Num 1))
     \<and> (case ps_stage s of Num n \<Rightarrow> (n = 1 \<longrightarrow> \<not> ps_isFinal s) \<and> (n = 2 \<longrightarrow> ps_isFinal s) | _ \<Rightarrow> True)
     \<and> distinct (map sr_sourceId (ps_sourceReleases s))
     \<and> list_all (release_ok (set (ep_observedInformationIds e))) (ps_sourceReleases s)
     \<and> e' = nextEpisode e Evaluation_queued"
proof -
  have stage: "\<not> (js_eq n (Num 1) \<and> f \<or> js_eq n (Num 2) \<and> \<not> f) \<longleftrightarrow>
      (case n of Num n \<Rightarrow> (n = 1 \<longrightarrow> \<not> f) \<and> (n = 2 \<longrightarrow> f) | _ \<Rightarrow> True)" for n f
    by (cases n) (auto simp: js_eq_def)
  show ?thesis unfolding stage [symmetric]
    by (simp add: queueSubmission_def check_releases_Inr Let_def del: js_add.simps) blast
qed

definition demo_episode :: episode where
  "demo_episode = \<lparr>ep_id = ''e'', ep_scenarioVersionId = ''s'', ep_participantVersionId = ''p'',
     ep_state = Waiting_for_submission, ep_stageIndex = Num 0, ep_virtualTime = ''t0'', ep_version = Num 1,
     ep_observedInformationIds = [''i1'']\<rparr>"

definition demo_plan :: plan_submission where
  "demo_plan = \<lparr>ps_stage = Num 1, ps_sourceReleases = [\<lparr>sr_sourceId = ''guanting'', sr_flowM3s = Num 3,
     sr_evidenceRefs = [''i1'']\<rparr>], ps_expectedSectionFlows = [], ps_isFinal = False\<rparr>"

lemma submission_queued_iff_witness: "queueSubmission demo_episode demo_plan (Num 1) = Inr (nextEpisode demo_episode Evaluation_queued)"
  unfolding submission_queued_iff by (simp add: demo_episode_def demo_plan_def release_ok_def)

text \<open>The virtual time along a history.\<close>

fun is_advance :: "episode_event \<Rightarrow> bool" where
  "is_advance (Decide (Advance v t)) = True"
| "is_advance _ = False"

lemma episode_step_time:
  assumes "episode_step dp e ev = Inr e'" and "dp (ep_virtualTime e) = Some a"
  shows "\<exists>b. dp (ep_virtualTime e') = Some b \<and> (if is_advance ev then a < b else b = a)"
proof (cases ev)
  case (Decide c)
  with assms show ?thesis
    by (cases c) (auto simp: episode_operation_defs Let_def simp del: js_add.simps)
next
  case (Observe ids)
  with assms show ?thesis by (auto simp: recordObservation_def Let_def split: if_splits)
qed

lemma episode_run_time:
  "run_commands (episode_step dp) e evs = Inr e' \<Longrightarrow> dp (ep_virtualTime e) = Some a \<Longrightarrow>
   \<exists>b. dp (ep_virtualTime e') = Some b \<and> a + int (length (filter is_advance evs)) \<le> b"
proof (induction evs arbitrary: e a)
  case Nil
  then show ?case by simp
next
  case (Cons ev evs)
  then obtain e1 where e1: "episode_step dp e ev = Inr e1" "run_commands (episode_step dp) e1 evs = Inr e'" by auto
  obtain b where b: "dp (ep_virtualTime e1) = Some b" "if is_advance ev then a < b else b = a"
    using episode_step_time [OF e1(1) Cons.prems(2)] by blast
  with Cons.IH [OF e1(2) b(1)] show ?case by fastforce
qed

definition on_timeline :: "date_parser \<Rightarrow> int \<Rightarrow> information_item \<Rightarrow> bool" where
  "on_timeline dp now item \<longleftrightarrow>
     (\<exists>ev ob ing rel. dp (ii_eventTime item) = Some ev \<and> dp (ii_observedTime item) = Some ob
        \<and> dp (ii_ingestedTime item) = Some ing \<and> dp (ii_releasedTime item) = Some rel
        \<and> ev \<le> ob \<and> ob \<le> ing \<and> ing \<le> rel \<and> rel \<le> now)"

lemma released_True: "released dp now item = Inr True \<longleftrightarrow> on_timeline dp now item"
  by (auto simp: released_def on_timeline_def)

lemma releaseInformation_Inr:
  assumes "releaseInformation dp e items = Inr rs"
  shows "\<exists>now. dp (ep_virtualTime e) = Some now \<and> rs = filter (on_timeline dp now) items"
  using assms by (auto simp: releaseInformation_def filter_result_Inr released_True)

text \<open>
  Information is released in time and stays released: what a participant gets at a virtual
  time lies, with all four of its times in order, at or before it, and whatever happens to the episode
  afterwards, a later release of the same items still contains it; the virtual time itself only moves
  forward, by each advance.
\<close>

theorem released_information_stays_released:
  assumes "releaseInformation dp e items = Inr rs" and "run_commands (episode_step dp) e evs = Inr e'"
    and "releaseInformation dp e' items = Inr rs'"
  shows "\<exists>now later. dp (ep_virtualTime e) = Some now \<and> dp (ep_virtualTime e') = Some later
    \<and> now + int (length (filter is_advance evs)) \<le> later
    \<and> list_all (on_timeline dp now) rs \<and> rs = filter (on_timeline dp now) rs'"
proof -
  obtain now where now: "dp (ep_virtualTime e) = Some now" "rs = filter (on_timeline dp now) items"
    using releaseInformation_Inr [OF assms(1)] by blast
  obtain later where later: "dp (ep_virtualTime e') = Some later" "rs' = filter (on_timeline dp later) items"
    using releaseInformation_Inr [OF assms(3)] by blast
  have le: "now + int (length (filter is_advance evs)) \<le> later"
    using episode_run_time [OF assms(2) now(1)] later(1) by simp
  then have "on_timeline dp now i \<Longrightarrow> on_timeline dp later i" for i
    by (fastforce simp: on_timeline_def)
  then have "filter (on_timeline dp now) (filter (on_timeline dp later) items) = filter (on_timeline dp now) items"
    by (auto intro: filter_cong)
  with now later le show ?thesis by (auto simp: list_all_iff)
qed

definition demo_clock :: date_parser where
  "demo_clock t = (if t = ''t0'' then Some 10 else if t = ''t1'' then Some 20 else None)"

definition demo_items :: "information_item list" where
  "demo_items = [\<lparr>ii_id = ''i1'', ii_eventTime = ''t0'', ii_observedTime = ''t0'', ii_ingestedTime = ''t0'', ii_releasedTime = ''t0''\<rparr>,
     \<lparr>ii_id = ''i2'', ii_eventTime = ''t0'', ii_observedTime = ''t0'', ii_ingestedTime = ''t0'', ii_releasedTime = ''t1''\<rparr>]"

lemma released_information_stays_released_witness:
  "\<exists>rs. releaseInformation demo_clock demo_episode demo_items = Inr rs \<and> list_all (on_timeline demo_clock 10) rs"
proof -
  let ?e = "demo_episode\<lparr>ep_state := Feedback_available\<rparr>"
  obtain rs where rs: "releaseInformation demo_clock ?e demo_items = Inr rs"
    by (simp add: releaseInformation_def demo_episode_def demo_items_def released_def parse_epoch_def demo_clock_def)
  obtain e' where e': "run_commands (episode_step demo_clock) ?e [Decide (Advance (Num 1) ''t1'')] = Inr e'"
    "ep_virtualTime e' = ''t1''"
    by (simp add: advanceEpisode_def demo_episode_def demo_clock_def parse_epoch_def assertVersion_def assertState_def)
  obtain rs' where "releaseInformation demo_clock e' demo_items = Inr rs'"
    using e'(2) by (simp add: releaseInformation_def demo_items_def released_def parse_epoch_def demo_clock_def)
  from released_information_stays_released [OF rs e'(1) this] rs show ?thesis
    by (auto simp: demo_episode_def demo_clock_def releaseInformation_def)
qed

end
