(* ===== verification/WaterEvaluation.thy ===== *)
theory WaterEvaluation
  imports Episode
begin

text \<open>
  \<open>packages/core/src/index.ts\<close>, second part: the evaluation of a water allocation plan. The flows, the
  deviations and the scores are computed in doubles, operation by operation as in the code; the
  decimal literals \<open>1e-9\<close>, \<open>0.01\<close> and \<open>0.1\<close> are the doubles nearest to them. The model identifies
  \<open>-0\<close> with \<open>0\<close>, so it describes the code for target minimums other than \<open>-0\<close>.
\<close>

section \<open>Data\<close>

record source_constraint =
  sc_sourceId :: string
  sc_maximumFlowM3s :: js_number

record section_target =
  st_sectionId :: string
  st_minimumFlowM3s :: js_number

record transfer_model =
  tm_guantingToSanjiadian :: js_number
  tm_sanjiadianToLugouqiao :: js_number
  tm_lugouqiaoToCuizhihuiying :: js_number
  tm_cuizhihuiyingToQujiadian :: js_number

record evidence_timestamp =
  et_informationId :: string
  et_accessedVirtualTime :: string

record evaluation_metrics =
  em_constraintCompliance :: js_number
  em_ecologicalCoverage :: js_number
  em_modelAccuracy :: js_number
  em_evidenceCoverage :: js_number
  em_timeTravelViolations :: js_number
  em_totalScore :: js_number

record evaluation_result =
  er_verdict :: verdict
  er_metrics :: evaluation_metrics

record evaluation_input =
  ev_submission :: plan_submission
  ev_sources :: "source_constraint list"
  ev_sectionTargets :: "section_target list"
  ev_transferModel :: transfer_model
  ev_totalReleaseLimitM3s :: js_number
  ev_evidenceTimestamps :: "evidence_timestamp list"
  ev_submittedVirtualTime :: string

section \<open>Operations\<close>

definition number_epsilon :: js_number where
  "number_epsilon = Num (1 / 2 ^ 52)"

definition roundMetric :: "js_number \<Rightarrow> js_number" where
  "roundMetric v = js_div (js_round (js_mul (js_add v number_epsilon) (Num 10000))) (Num 10000)"

definition or_default :: "js_number option \<Rightarrow> js_number \<Rightarrow> js_number" where
  "or_default v d = (case v of None \<Rightarrow> d | Some x \<Rightarrow> x)"

definition release_of :: "plan_submission \<Rightarrow> string \<Rightarrow> js_number" where
  "release_of s sourceId =
     or_default (js_map_get (map (\<lambda>r. (sr_sourceId r, sr_flowM3s r)) (ps_sourceReleases s)) sourceId) (Num 0)"

text \<open>The flows at the four sections, in the order of the map that holds them.\<close>

definition computed_flows :: "plan_submission \<Rightarrow> transfer_model \<Rightarrow> (string \<times> js_number) list" where
  "computed_flows s m =
     (let sanjiadian = js_mul (tm_guantingToSanjiadian m) (release_of s ''guanting'');
          lugouqiao = js_mul (tm_sanjiadianToLugouqiao m) (js_add sanjiadian (release_of s ''south-water''));
          cuizhihuiying =
            js_mul (tm_lugouqiaoToCuizhihuiying m) (js_add lugouqiao (release_of s ''reclaimed-lower''));
          qujiadian = js_mul (tm_cuizhihuiyingToQujiadian m) cuizhihuiying
      in [(''sanjiadian'', sanjiadian), (''lugouqiao'', lugouqiao),
          (''cuizhihuiying'', cuizhihuiying), (''qujiadian'', qujiadian)])"

definition source_limits_satisfied :: "plan_submission \<Rightarrow> source_constraint list \<Rightarrow> bool" where
  "source_limits_satisfied s sources =
     list_all (\<lambda>c. js_le (Num 0) (release_of s (sc_sourceId c))
                   \<and> js_le (release_of s (sc_sourceId c)) (sc_maximumFlowM3s c)) sources"

definition total_release :: "plan_submission \<Rightarrow> js_number" where
  "total_release s = foldl (\<lambda>acc r. js_add acc (sr_flowM3s r)) (Num 0) (ps_sourceReleases s)"

definition step_satisfied :: "plan_submission \<Rightarrow> bool" where
  "step_satisfied s =
     list_all (\<lambda>r. js_lt (js_abs (js_sub (js_mul (sr_flowM3s r) (Num 10)) (js_round (js_mul (sr_flowM3s r) (Num 10)))))
                     (round_double (1 / 10 ^ 9))) (ps_sourceReleases s)"

definition maximum_deviation :: "plan_submission \<Rightarrow> (string \<times> js_number) list \<Rightarrow> js_number" where
  "maximum_deviation s flows =
     (let expected = map (\<lambda>f. (sf_sectionId f, sf_flowM3s f)) (ps_expectedSectionFlows s);
          deviations = map (\<lambda>(sectionId, computed). js_abs (js_sub (or_default (js_map_get expected sectionId) NaN) computed)) flows
      in if list_ex (\<lambda>d. d = NaN) deviations then PosInf
         else foldl js_max NegInf (deviations @ [Num 0]))"

definition constraint_compliance :: "bool list \<Rightarrow> js_number" where
  "constraint_compliance checks = js_div (len_num (filter (\<lambda>b. b) checks)) (Num 4)"

definition target_ratio :: "(string \<times> js_number) list \<Rightarrow> section_target \<Rightarrow> js_number" where
  "target_ratio flows t =
     js_min (Num 1) (js_div (or_default (js_map_get flows (st_sectionId t)) (Num 0)) (st_minimumFlowM3s t))"

definition ecological_coverage :: "(string \<times> js_number) list \<Rightarrow> section_target list \<Rightarrow> js_number" where
  "ecological_coverage flows targets =
     (if length targets = 0 then Num 1
      else js_div (foldl (\<lambda>acc t. js_add acc (target_ratio flows t)) (Num 0) targets) (len_num targets))"

definition model_accuracy :: "js_number \<Rightarrow> js_number" where
  "model_accuracy maximumDeviation =
     (if js_is_finite maximumDeviation
      then js_max (Num 0) (js_sub (Num 1) (js_div maximumDeviation (round_double (1 / 10))))
      else Num 0)"

definition evidence_coverage :: "plan_submission \<Rightarrow> js_number" where
  "evidence_coverage s =
     (if length (ps_sourceReleases s) = 0 then Num 0
      else js_div (len_num (filter (\<lambda>r. length (sr_evidenceRefs r) > 0) (ps_sourceReleases s)))
             (len_num (ps_sourceReleases s)))"

definition time_travel :: "date_parser \<Rightarrow> plan_submission \<Rightarrow> int \<Rightarrow> evidence_timestamp \<Rightarrow> bool result" where
  "time_travel date_parse s submittedVirtualTime t =
     (if et_informationId t \<notin> set (concat (map sr_evidenceRefs (ps_sourceReleases s))) then Inr False
      else and_then (parse_epoch date_parse (et_accessedVirtualTime t)) (\<lambda>accessed.
        Inr (accessed > submittedVirtualTime)))"

definition evaluateWaterAllocationPlan :: "date_parser \<Rightarrow> evaluation_input \<Rightarrow> evaluation_result result" where
  "evaluateWaterAllocationPlan date_parse i =
     (let s = ev_submission i in
      and_then (parse_epoch date_parse (ev_submittedVirtualTime i)) (\<lambda>submittedVirtualTime.
      let flows = computed_flows s (ev_transferModel i);
          maximumDeviation = maximum_deviation s flows;
          constraintCompliance = constraint_compliance
            [source_limits_satisfied s (ev_sources i),
             js_le (total_release s) (ev_totalReleaseLimitM3s i),
             step_satisfied s,
             js_le maximumDeviation (round_double (1 / 100))];
          ecologicalCoverage = ecological_coverage flows (ev_sectionTargets i);
          modelAccuracy = model_accuracy maximumDeviation;
          evidenceCoverage = evidence_coverage s
      in and_then (filter_result (time_travel date_parse s submittedVirtualTime) (ev_evidenceTimestamps i))
        (\<lambda>violations.
         let timeTravelViolations = len_num violations;
             totalScore =
               js_add (js_add (js_add (js_mul constraintCompliance (Num 40)) (js_mul ecologicalCoverage (Num 40)))
                 (js_mul evidenceCoverage (Num 10)))
                 (js_mul (if js_eq timeTravelViolations (Num 0) then Num 1 else Num 0) (Num 10));
             feasible = js_eq timeTravelViolations (Num 0) \<and> js_eq constraintCompliance (Num 1)
               \<and> js_eq ecologicalCoverage (Num 1) \<and> js_eq evidenceCoverage (Num 1)
         in Inr \<lparr>er_verdict =
                   (if feasible then Pass
                    else if js_lt (Num 0) timeTravelViolations \<or> js_lt constraintCompliance (Num 1)
                    then Fail_verdict else Partial),
                 er_metrics =
                   \<lparr>em_constraintCompliance = roundMetric constraintCompliance,
                    em_ecologicalCoverage = roundMetric ecologicalCoverage,
                    em_modelAccuracy = roundMetric modelAccuracy,
                    em_evidenceCoverage = roundMetric evidenceCoverage,
                    em_timeTravelViolations = timeTravelViolations,
                    em_totalScore = roundMetric totalScore\<rparr>\<rparr>)))"

section \<open>Averages\<close>

text \<open>A proportion is one only when it is complete.\<close>

lemma proportion_one:
  assumes "k \<le> n" and "0 < n" and "n \<le> 2 ^ 53"
  shows "js_div (int_num k) (int_num n) = Num 1 \<longleftrightarrow> k = n"
proof
  assume one: "js_div (int_num k) (int_num n) = Num 1"
  show "k = n"
  proof (rule ccontr)
    assume "k \<noteq> n"
    let ?r = "1 - 1 / 2 ^ 53 :: rat"
    have rep: "representable ?r" by (rule representableI [of _ "2 ^ 53 - 1" "- 53"]) (simp_all add: power_int_minus)
    have "of_int k \<le> (of_int n - 1 :: rat)" using \<open>k \<noteq> n\<close> assms(1) by linarith
    moreover have n: "0 < (of_int n :: rat)" "of_int n \<le> (2 ^ 53 :: rat)"
      using assms(2,3) by (simp, metis of_int_le_iff of_int_numeral of_int_power)
    ultimately have "of_int k / of_int n \<le> ?r"
      by (simp add: field_simps)
    then have "at_most (js_div (int_num k) (int_num n)) ?r"
      by (intro at_most_div [OF _ n(1) _ rep]) (simp_all add: at_most_def)
    with one show False by simp
  qed
next
  assume "k = n"
  then show "js_div (int_num k) (int_num n) = Num 1" using assms(2) by simp
qed

lemma all_constraints:
  "js_eq (constraint_compliance [a, b, c, d]) (Num 1) \<longleftrightarrow> a \<and> b \<and> c \<and> d"
proof -
  have "js_div (int_num k) (Num 4) = Num 1 \<longleftrightarrow> k = 4" if "k \<le> 4" for k
    using proportion_one [of k 4] that by simp
  from this [of 0] this [of 1] this [of 2] this [of 3] this [of 4] show ?thesis
    by (cases a; cases b; cases c; cases d) (simp_all add: constraint_compliance_def js_eq_def)
qed

lemma all_evidenced:
  assumes "int (length (ps_sourceReleases s)) \<le> 2 ^ 53"
  shows "js_eq (evidence_coverage s) (Num 1) \<longleftrightarrow>
     ps_sourceReleases s \<noteq> [] \<and> list_all (\<lambda>r. sr_evidenceRefs r \<noteq> []) (ps_sourceReleases s)"
proof -
  let ?f = "filter (\<lambda>r. length (sr_evidenceRefs r) > 0) (ps_sourceReleases s)"
  have "length ?f = length (ps_sourceReleases s) \<longleftrightarrow> list_all (\<lambda>r. sr_evidenceRefs r \<noteq> []) (ps_sourceReleases s)"
  proof
    assume len: "length ?f = length (ps_sourceReleases s)"
    show "list_all (\<lambda>r. sr_evidenceRefs r \<noteq> []) (ps_sourceReleases s)" unfolding list_all_iff
    proof
      fix r assume "r \<in> set (ps_sourceReleases s)"
      then show "sr_evidenceRefs r \<noteq> []"
        using len length_filter_less [of r "ps_sourceReleases s" "\<lambda>r. length (sr_evidenceRefs r) > 0"] by auto
    qed
  qed (simp add: list_all_iff filter_id_conv [THEN iffD2])
  moreover have "int (length ?f) \<le> int (length (ps_sourceReleases s))" by simp
  ultimately show ?thesis
    using proportion_one [of "int (length ?f)" "int (length (ps_sourceReleases s))"] assms
    by (auto simp: evidence_coverage_def js_eq_def simp del: js_div.simps)
qed

text \<open>The sum of the target ratios, none above one: a target that falls short shows in the sum.\<close>

definition shortfall :: rat where
  "shortfall = 1 / 2 ^ 40"

lemma target_ratio_at_most: "at_most (target_ratio flows t) 1"
  by (cases "js_div (or_default (js_map_get flows (st_sectionId t)) (Num 0)) (st_minimumFlowM3s t)")
    (auto simp: target_ratio_def js_min_def)

lemma representable_short: "n \<le> 2 ^ 13 \<Longrightarrow> representable (of_nat n - (if b then shortfall else 0))"
proof -
  assume n: "n \<le> 2 ^ 13"
  then have "int n * 2 ^ 40 \<le> 2 ^ 13 * 2 ^ 40" by (intro mult_right_mono) simp_all
  moreover have "0 \<le> int n * 2 ^ 40" by simp
  moreover have "(2 :: int) ^ 13 * 2 ^ 40 = 2 ^ 53" by simp
  moreover have "(1 :: int) \<le> 2 ^ 53" by simp
  ultimately have "\<bar>int n * 2 ^ 40 - (if b then 1 else 0)\<bar> \<le> 2 ^ 53"
    by (simp only: abs_le_iff split: if_split) linarith
  then show ?thesis
    by (intro representableI [of _ "int n * 2 ^ 40 - (if b then 1 else 0)" "- 40"])
      (simp_all add: shortfall_def power_int_minus field_simps)
qed

lemma ratio_sum_at_most:
  "at_most acc (of_nat m - (if b then shortfall else 0)) \<Longrightarrow> m + length ts \<le> 2 ^ 13 \<Longrightarrow>
   at_most (foldl (\<lambda>acc t. js_add acc (target_ratio flows t)) acc ts)
     (of_nat (m + length ts) -
       (if b \<or> list_ex (\<lambda>t. at_most (target_ratio flows t) (1 - shortfall)) ts then shortfall else 0))"
proof (induction ts arbitrary: acc m b)
  case Nil
  then show ?case by simp
next
  case (Cons t ts)
  let ?low = "at_most (target_ratio flows t) (1 - shortfall)"
  have n: "Suc m \<le> 2 ^ 13" using Cons.prems(2) by simp
  have pos: "0 < shortfall" "shortfall < 1" by (simp_all add: shortfall_def)
  have "(of_nat (Suc m) :: rat) \<le> of_nat (2 ^ 13)" using n by (simp only: of_nat_le_iff)
  then have small: "\<bar>of_nat (Suc m) - (if b \<or> ?low then shortfall else 0)\<bar> \<le> (2 ^ 53 :: rat)"
    using pos by auto
  have q: "at_most (target_ratio flows t) (1 - (if ?low then shortfall else 0))"
    using target_ratio_at_most [of flows t] by simp
  have "at_most (js_add acc (target_ratio flows t)) (of_nat (Suc m) - (if b \<or> ?low then shortfall else 0))"
    by (rule at_most_add [OF Cons.prems(1) q _ representable_short [OF n] small]) (use pos in auto)
  from Cons.IH [OF this] Cons.prems(2) show ?case by (simp add: disj_assoc)
qed

lemma coverage_at_most_one:
  assumes "length ts \<le> 2 ^ 13"
  shows "at_most (ecological_coverage flows ts) 1"
proof (cases "ts = []")
  case False
  have "at_most (foldl (\<lambda>acc t. js_add acc (target_ratio flows t)) (Num 0) ts) (of_nat (length ts))"
    using ratio_sum_at_most [of "Num 0" 0 False ts flows] assms
    by (auto elim!: at_most_mono simp: shortfall_def split: if_splits)
  moreover have "representable 1" using representable_int [of 1] by simp
  ultimately show ?thesis using False
    by (auto simp: ecological_coverage_def intro!: at_most_div simp del: js_div.simps)
qed (simp add: ecological_coverage_def)

lemma covered_targets:
  assumes "js_eq (ecological_coverage flows ts) (Num 1)" and "length ts \<le> 2 ^ 13" and "t \<in> set ts"
  shows "\<not> at_most (target_ratio flows t) (1 - shortfall)"
proof
  assume low: "at_most (target_ratio flows t) (1 - shortfall)"
  let ?n = "of_nat (length ts) :: rat" and ?r = "1 - 1 / 2 ^ 53 :: rat"
  have n: "0 < ?n" "?n \<le> of_nat (2 ^ 13)"
    using assms(2,3) by (auto simp only: of_nat_le_iff) (cases ts; simp)
  have "at_most (foldl (\<lambda>acc t. js_add acc (target_ratio flows t)) (Num 0) ts) (?n - shortfall)"
    using ratio_sum_at_most [of "Num 0" 0 False ts flows] assms(2,3) low by (auto simp: list_ex_iff split: if_splits)
  moreover have "(?n - shortfall) / ?n \<le> ?r"
    using n by (simp add: field_simps shortfall_def)
  moreover have "representable ?r"
    by (rule representableI [of _ "2 ^ 53 - 1" "- 53"]) (simp_all add: power_int_minus)
  ultimately have "at_most (ecological_coverage flows ts) ?r"
    using n(1) assms(3) by (auto simp: ecological_coverage_def intro!: at_most_div simp del: js_div.simps)
  with assms(1) show False by (auto dest!: js_eq_imp_eq)
qed

section \<open>Properties\<close>

text \<open>What the evaluation computes, piece by piece.\<close>

definition total_score :: "js_number \<Rightarrow> js_number \<Rightarrow> js_number \<Rightarrow> bool \<Rightarrow> js_number" where
  "total_score compliance coverage evidence clean =
     js_add (js_add (js_add (js_mul compliance (Num 40)) (js_mul coverage (Num 40))) (js_mul evidence (Num 10)))
       (js_mul (if clean then Num 1 else Num 0) (Num 10))"

definition checks_of :: "evaluation_input \<Rightarrow> bool list" where
  "checks_of i =
     [source_limits_satisfied (ev_submission i) (ev_sources i),
      js_le (total_release (ev_submission i)) (ev_totalReleaseLimitM3s i),
      step_satisfied (ev_submission i),
      js_le (maximum_deviation (ev_submission i) (computed_flows (ev_submission i) (ev_transferModel i)))
        (round_double (1 / 100))]"

definition coverage_of :: "evaluation_input \<Rightarrow> js_number" where
  "coverage_of i = ecological_coverage (computed_flows (ev_submission i) (ev_transferModel i)) (ev_sectionTargets i)"

lemma evaluation_eq:
  "evaluateWaterAllocationPlan dp i =
     and_then (parse_epoch dp (ev_submittedVirtualTime i)) (\<lambda>now.
     and_then (filter_result (time_travel dp (ev_submission i) now) (ev_evidenceTimestamps i)) (\<lambda>late.
       Inr \<lparr>er_verdict =
             (if js_eq (len_num late) (Num 0) \<and> js_eq (constraint_compliance (checks_of i)) (Num 1)
                 \<and> js_eq (coverage_of i) (Num 1) \<and> js_eq (evidence_coverage (ev_submission i)) (Num 1)
              then Pass
              else if js_lt (Num 0) (len_num late) \<or> js_lt (constraint_compliance (checks_of i)) (Num 1)
              then Fail_verdict else Partial),
            er_metrics =
             \<lparr>em_constraintCompliance = roundMetric (constraint_compliance (checks_of i)),
              em_ecologicalCoverage = roundMetric (coverage_of i),
              em_modelAccuracy = roundMetric (model_accuracy
                (maximum_deviation (ev_submission i) (computed_flows (ev_submission i) (ev_transferModel i)))),
              em_evidenceCoverage = roundMetric (evidence_coverage (ev_submission i)),
              em_timeTravelViolations = len_num late,
              em_totalScore = roundMetric (total_score (constraint_compliance (checks_of i)) (coverage_of i)
                (evidence_coverage (ev_submission i)) (js_eq (len_num late) (Num 0)))\<rparr>\<rparr>))"
  unfolding evaluateWaterAllocationPlan_def checks_of_def coverage_of_def total_score_def Let_def ..

lemma evaluation_parts:
  assumes "evaluateWaterAllocationPlan dp i = Inr r"
  shows "\<exists>now late. dp (ev_submittedVirtualTime i) = Some now
    \<and> filter_result (time_travel dp (ev_submission i) now) (ev_evidenceTimestamps i) = Inr late
    \<and> em_constraintCompliance (er_metrics r) = roundMetric (constraint_compliance (checks_of i))
    \<and> em_ecologicalCoverage (er_metrics r) = roundMetric (coverage_of i)
    \<and> em_evidenceCoverage (er_metrics r) = roundMetric (evidence_coverage (ev_submission i))
    \<and> em_totalScore (er_metrics r) = roundMetric (total_score (constraint_compliance (checks_of i)) (coverage_of i)
         (evidence_coverage (ev_submission i)) (late = []))
    \<and> (er_verdict r = Pass \<longleftrightarrow> late = [] \<and> js_eq (constraint_compliance (checks_of i)) (Num 1)
         \<and> js_eq (coverage_of i) (Num 1) \<and> js_eq (evidence_coverage (ev_submission i)) (Num 1))"
proof -
  obtain now late where parts: "dp (ev_submittedVirtualTime i) = Some now"
    "filter_result (time_travel dp (ev_submission i) now) (ev_evidenceTimestamps i) = Inr late"
    using assms unfolding evaluation_eq by auto
  have zero: "js_eq (len_num late) (Num 0) \<longleftrightarrow> late = []" by simp
  have "parse_epoch dp (ev_submittedVirtualTime i) = Inr now" using parts(1) by simp
  from assms [unfolded evaluation_eq this parts(2) and_then_Inr zero] parts show ?thesis
    by (intro exI [of _ now] exI [of _ late]) (auto split: if_splits)
qed

text \<open>
  Property C34. A plan that passes is feasible: every source stays within its limit and the releases
  within the total, each release is evidenced, no evidence was accessed after the submission, and
  every target section gets at least its minimum up to a relative shortfall below 2^-40, which the
  rounding of the average can hide.
\<close>

theorem passing_plan_is_feasible:
  assumes "evaluateWaterAllocationPlan dp i = Inr r" and "er_verdict r = Pass"
    and "length (ev_sectionTargets i) \<le> 2 ^ 13" and "int (length (ps_sourceReleases (ev_submission i))) \<le> 2 ^ 53"
  shows "(\<forall>c \<in> set (ev_sources i). js_le (Num 0) (release_of (ev_submission i) (sc_sourceId c))
            \<and> js_le (release_of (ev_submission i) (sc_sourceId c)) (sc_maximumFlowM3s c))
    \<and> js_le (total_release (ev_submission i)) (ev_totalReleaseLimitM3s i)
    \<and> (\<forall>s \<in> set (ps_sourceReleases (ev_submission i)). sr_evidenceRefs s \<noteq> [])
    \<and> (\<forall>t \<in> set (ev_evidenceTimestamps i). \<forall>s \<in> set (ps_sourceReleases (ev_submission i)).
         et_informationId t \<in> set (sr_evidenceRefs s) \<longrightarrow>
         (\<exists>accessed now. dp (et_accessedVirtualTime t) = Some accessed
            \<and> dp (ev_submittedVirtualTime i) = Some now \<and> accessed \<le> now))
    \<and> (\<forall>t \<in> set (ev_sectionTargets i).
         \<not> at_most (target_ratio (computed_flows (ev_submission i) (ev_transferModel i)) t) (1 - 1 / 2 ^ 40))"
proof -
  obtain now late where now: "dp (ev_submittedVirtualTime i) = Some now"
    and late: "filter_result (time_travel dp (ev_submission i) now) (ev_evidenceTimestamps i) = Inr late"
    and pass: "late = []" "js_eq (constraint_compliance (checks_of i)) (Num 1)" "js_eq (coverage_of i) (Num 1)"
      "js_eq (evidence_coverage (ev_submission i)) (Num 1)"
    using evaluation_parts [OF assms(1)] assms(2) by blast
  have checks: "source_limits_satisfied (ev_submission i) (ev_sources i)"
    "js_le (total_release (ev_submission i)) (ev_totalReleaseLimitM3s i)"
    using pass(2) unfolding checks_of_def all_constraints by blast+
  have evidenced: "list_all (\<lambda>r. sr_evidenceRefs r \<noteq> []) (ps_sourceReleases (ev_submission i))"
    using pass(4) all_evidenced [OF assms(4)] by blast
  have times: "\<exists>accessed now. dp (et_accessedVirtualTime t) = Some accessed
            \<and> dp (ev_submittedVirtualTime i) = Some now \<and> accessed \<le> now"
    if t: "t \<in> set (ev_evidenceTimestamps i)" "s \<in> set (ps_sourceReleases (ev_submission i))"
      "et_informationId t \<in> set (sr_evidenceRefs s)" for t s
  proof -
    have "filter (\<lambda>x. time_travel dp (ev_submission i) now x = Inr True) (ev_evidenceTimestamps i) = []"
      and "succeeds (time_travel dp (ev_submission i) now t)"
      using late t(1) pass(1) by (auto simp: filter_result_Inr)
    then have "succeeds (time_travel dp (ev_submission i) now t)" "time_travel dp (ev_submission i) now t \<noteq> Inr True"
      using t(1) by (auto simp: filter_empty_conv)
    moreover have "et_informationId t \<in> set (concat (map sr_evidenceRefs (ps_sourceReleases (ev_submission i))))"
      using t by auto
    moreover from this have "time_travel dp (ev_submission i) now t =
        and_then (parse_epoch dp (et_accessedVirtualTime t)) (\<lambda>accessed. Inr (accessed > now))"
      by (simp add: time_travel_def)
    ultimately show ?thesis using now by (auto simp: succeeds_iff)
  qed
  have targets: "\<not> at_most (target_ratio (computed_flows (ev_submission i) (ev_transferModel i)) t) (1 - 1 / 2 ^ 40)"
    if "t \<in> set (ev_sectionTargets i)" for t
    using covered_targets [OF pass(3) [unfolded coverage_of_def] assms(3) that] by (simp add: shortfall_def)
  show ?thesis
    using checks evidenced times targets by (auto simp: source_limits_satisfied_def list_all_iff)
qed

lemma rounded_at_most:
  assumes "at_most v (of_int b)" and "1 \<le> b" and "b \<le> 100"
  shows "at_most (roundMetric v) (of_int b)"
proof -
  have b: "(1::rat) \<le> of_int b" "of_int b \<le> (100::rat)"
    using assms(2,3) by simp_all
  have r1: "representable (of_int b + 1 / 2 ^ 40)"
    by (rule representableI [of _ "b * 2 ^ 40 + 1" "- 40"]) (use assms(2,3) in \<open>simp_all add: power_int_minus field_simps\<close>)
  have r2: "representable (of_int b * 10000 + 1 / 2 ^ 20)"
    by (rule representableI [of _ "b * 10000 * 2 ^ 20 + 1" "- 20"])
      (use assms(2,3) in \<open>simp_all add: power_int_minus field_simps\<close>)
  have "at_most (js_add v number_epsilon) (of_int b + 1 / 2 ^ 40)"
    by (rule at_most_add [OF assms(1), of _ "1 / 2 ^ 52"]) (use b r1 in \<open>simp_all add: number_epsilon_def\<close>)
  then have "at_most (js_mul (js_add v number_epsilon) (Num 10000)) (of_int b * 10000 + 1 / 2 ^ 20)"
    by (rule at_most_mul) (use b r2 in \<open>simp_all add: field_simps\<close>)
  then have "at_most (js_round (js_mul (js_add v number_epsilon) (Num 10000))) (of_int (b * 10000))"
  proof (cases rule: at_most_cases)
    case (3 x)
    have "\<lfloor>x + 1 / 2\<rfloor> \<le> b * 10000"
      using 3(2) by (simp add: floor_le_iff)
    with 3 show ?thesis by (metis at_most_simps(1) js_round.simps(1) of_int_le_iff)
  qed simp_all
  then show ?thesis unfolding roundMetric_def
    by (rule at_most_div) (use b assms(2,3) representable_int [of b] in simp_all)
qed

lemma compliance_at_most_one: "at_most (constraint_compliance [a, b, c, d]) 1"
proof -
  have "at_most (len_num (filter (\<lambda>b. b) [a, b, c, d])) 4"
    using length_filter_le [of "\<lambda>b. b" "[a, b, c, d]"] by (simp del: filter.simps)
  moreover have "representable 1" using representable_int [of 1] by simp
  ultimately show ?thesis unfolding constraint_compliance_def
    by (intro at_most_div [where p = 4]) simp_all
qed

lemma evidence_at_most_one: "at_most (evidence_coverage s) 1"
proof (cases "ps_sourceReleases s = []")
  case False
  let ?n = "length (ps_sourceReleases s)"
  have "at_most (len_num (filter (\<lambda>r. length (sr_evidenceRefs r) > 0) (ps_sourceReleases s))) (of_nat ?n)" by simp
  moreover have "representable 1" using representable_int [of 1] by simp
  ultimately show ?thesis using False
    by (auto simp: evidence_coverage_def intro!: at_most_div [where p = "of_nat ?n"] simp del: js_div.simps)
qed (simp add: evidence_coverage_def)

text \<open>
  Scores keep to their scale: whenever the evaluation returns, the compliance, the
  ecological and the evidence coverage are at most 1 and the total score at most 100, or not a
  number, despite every rounding on the way.
\<close>

theorem scores_within_scale:
  assumes "evaluateWaterAllocationPlan dp i = Inr r" and "length (ev_sectionTargets i) \<le> 2 ^ 13"
  shows "at_most (em_constraintCompliance (er_metrics r)) 1 \<and> at_most (em_ecologicalCoverage (er_metrics r)) 1
    \<and> at_most (em_evidenceCoverage (er_metrics r)) 1 \<and> at_most (em_totalScore (er_metrics r)) 100"
proof -
  let ?c = "constraint_compliance (checks_of i)" and ?e = "evidence_coverage (ev_submission i)"
  have c: "at_most ?c 1" unfolding checks_of_def by (rule compliance_at_most_one)
  have v: "at_most (coverage_of i) 1" unfolding coverage_of_def by (rule coverage_at_most_one [OF assms(2)])
  have e: "at_most ?e 1" by (rule evidence_at_most_one)
  have rep: "representable 40" "representable 80" "representable 10" "representable 90" "representable 100"
    using representable_int [of 40] representable_int [of 80] representable_int [of 10] representable_int [of 90]
      representable_int [of 100] by simp_all
  have t: "at_most (total_score ?c (coverage_of i) ?e clean) 100" for clean
    unfolding total_score_def
    by (rule at_most_add [where p = 90 and q = 10] at_most_add [where p = 80 and q = 10]
        at_most_add [where p = 40 and q = 40] at_most_mul [OF c] at_most_mul [OF v] at_most_mul [OF e]
        at_most_mul [where p = 1] | use rep in \<open>simp; fail\<close>)+
  show ?thesis
    using evaluation_parts [OF assms(1)] rounded_at_most [of _ 1] rounded_at_most [of _ 100] c v e t by auto
qed

section \<open>A plan that passes\<close>

definition demo_evaluation :: evaluation_input where
  "demo_evaluation = \<lparr>ev_submission = \<lparr>ps_stage = Num 1,
       ps_sourceReleases = [\<lparr>sr_sourceId = ''guanting'', sr_flowM3s = Num 4, sr_evidenceRefs = [''i1'']\<rparr>],
       ps_expectedSectionFlows = [\<lparr>sf_sectionId = ''sanjiadian'', sf_flowM3s = Num 4\<rparr>,
         \<lparr>sf_sectionId = ''lugouqiao'', sf_flowM3s = Num 4\<rparr>, \<lparr>sf_sectionId = ''cuizhihuiying'', sf_flowM3s = Num 4\<rparr>,
         \<lparr>sf_sectionId = ''qujiadian'', sf_flowM3s = Num 4\<rparr>],
       ps_isFinal = False\<rparr>,
     ev_sources = [\<lparr>sc_sourceId = ''guanting'', sc_maximumFlowM3s = Num 10\<rparr>],
     ev_sectionTargets = [\<lparr>st_sectionId = ''sanjiadian'', st_minimumFlowM3s = Num 4\<rparr>],
     ev_transferModel = \<lparr>tm_guantingToSanjiadian = Num 1, tm_sanjiadianToLugouqiao = Num 1,
       tm_lugouqiaoToCuizhihuiying = Num 1, tm_cuizhihuiyingToQujiadian = Num 1\<rparr>,
     ev_totalReleaseLimitM3s = Num 100,
     ev_evidenceTimestamps = [\<lparr>et_informationId = ''i1'', et_accessedVirtualTime = ''t0''\<rparr>],
     ev_submittedVirtualTime = ''t1''\<rparr>"

lemma tolerance_positive: "0 < x \<Longrightarrow> 1 / 2 ^ 53 \<le> x \<Longrightarrow> js_lt (Num 0) (round_double x)"
proof -
  assume x: "0 < x" "1 / 2 ^ 53 \<le> x"
  have "representable (1 / 2 ^ 53)" by (rule representableI [of _ 1 "- 53"]) (simp_all add: power_int_minus)
  then have "round_double (1 / 2 ^ 53) = Num (1 / 2 ^ 53)" by (rule round_double_exact) simp
  then have "js_le (Num (1 / 2 ^ 53)) (round_double x)" using round_double_mono [OF x(2)] by simp
  then show ?thesis by (rule js_lt_le_trans [rotated]) simp
qed

lemma demo_passes: "\<exists>r. evaluateWaterAllocationPlan demo_clock demo_evaluation = Inr r \<and> er_verdict r = Pass"
proof -
  have tol: "js_lt (Num 0) (round_double (1 / 10 ^ 9))" "js_lt (Num 0) (round_double (1 / 100))"
    by (rule tolerance_positive; simp)+
  then have tol': "js_le (Num 0) (round_double (1 / 100))" by (simp add: js_le_def)
  have flows: "computed_flows (ev_submission demo_evaluation) (ev_transferModel demo_evaluation) =
      [(''sanjiadian'', Num 4), (''lugouqiao'', Num 4), (''cuizhihuiying'', Num 4), (''qujiadian'', Num 4)]"
    by (simp add: computed_flows_def demo_evaluation_def release_of_def or_default_def js_map_get_def Let_def)
  have "maximum_deviation (ev_submission demo_evaluation)
      [(''sanjiadian'', Num 4), (''lugouqiao'', Num 4), (''cuizhihuiying'', Num 4), (''qujiadian'', Num 4)] = Num 0"
    by (simp add: maximum_deviation_def demo_evaluation_def or_default_def js_map_get_def js_sub_def js_max_def
        Let_def)
  moreover have "\<lfloor>81 / 2 :: rat\<rfloor> = 40" by (rule floor_unique) simp_all
  ultimately have checks: "checks_of demo_evaluation = [True, True, True, True]"
    using tol tol' unfolding checks_of_def flows
    by (simp add: demo_evaluation_def source_limits_satisfied_def release_of_def or_default_def js_map_get_def
        total_release_def step_satisfied_def js_sub_def)
  have cover: "coverage_of demo_evaluation = Num 1" unfolding coverage_of_def flows
    by (simp add: ecological_coverage_def demo_evaluation_def target_ratio_def or_default_def js_map_get_def js_min_def)
  have evid: "evidence_coverage (ev_submission demo_evaluation) = Num 1"
    by (simp add: evidence_coverage_def demo_evaluation_def)
  have "constraint_compliance [True, True, True, True] = Num 1" by (simp add: constraint_compliance_def)
  then show ?thesis unfolding evaluation_eq checks cover evid
    by (simp add: demo_evaluation_def demo_clock_def parse_epoch_def time_travel_def)
qed

lemma passing_plan_is_feasible_witness:
  "js_le (release_of (ev_submission demo_evaluation) ''guanting'') (Num 10)"
proof -
  obtain r where r: "evaluateWaterAllocationPlan demo_clock demo_evaluation = Inr r" "er_verdict r = Pass"
    using demo_passes by blast
  from passing_plan_is_feasible [OF r] show ?thesis by (simp add: demo_evaluation_def)
qed

lemma scores_within_scale_witness:
  "\<exists>r. evaluateWaterAllocationPlan demo_clock demo_evaluation = Inr r \<and> at_most (em_totalScore (er_metrics r)) 100"
proof -
  obtain r where r: "evaluateWaterAllocationPlan demo_clock demo_evaluation = Inr r" using demo_passes by blast
  from scores_within_scale [OF r] r show ?thesis by (simp add: demo_evaluation_def)
qed

end
