(* ===== verification/TransitionPolicy.thy ===== *)
theory TransitionPolicy
  imports Shared
begin

text \<open>
  The contract of a transition table, as the operation and the ingestion policy of \<open>data-core\<close> use
  it: each status lists its destinations, a context may allow more, and a transition returns the
  destination or throws. A status that lists nothing is final. A table that climbs a rank cannot be
  followed for ever.
\<close>

locale transition_policy =
  fixes destinations :: "'s \<Rightarrow> 's list" and extra :: "'c \<Rightarrow> 's \<Rightarrow> 's \<Rightarrow> bool"
    and transition :: "'c \<Rightarrow> 's \<Rightarrow> 's \<Rightarrow> 's result" and final :: "'s \<Rightarrow> bool"
  assumes transition_iff:
      "transition c a b = Inr d \<longleftrightarrow> d = b \<and> (b \<in> set (destinations a) \<or> extra c a b)"
    and final_iff: "final a \<longleftrightarrow> (\<forall>b. b \<notin> set (destinations a) \<and> (\<forall>c. \<not> extra c a b))"
begin

lemma final_stays: "final a \<Longrightarrow> run_commands (transition c) a path = Inr b \<Longrightarrow> path = [] \<and> b = a"
  by (cases path) (auto simp: transition_iff final_iff)

lemma final_refuses: "final a \<Longrightarrow> \<not> succeeds (transition c a b)"
  by (auto simp: succeeds_iff transition_iff final_iff)

lemma run_ends: "run_commands (transition c) a path = Inr b \<Longrightarrow> b = last (a # path)"
  by (induction path arbitrary: a) (auto simp: transition_iff)

end

locale ranked_policy = transition_policy +
  fixes rank :: "'s \<Rightarrow> nat"
  assumes climbs: "b \<in> set (destinations a) \<or> extra c a b \<Longrightarrow> rank a < rank b"
begin

lemma run_climbs: "run_commands (transition c) a path = Inr b \<Longrightarrow> rank a + length path \<le> rank b"
proof (induction path arbitrary: a)
  case Nil
  then show ?case by simp
next
  case (Cons d path)
  then have "transition c a d = Inr d" "run_commands (transition c) d path = Inr b"
    by (auto simp: transition_iff)
  then have "rank a < rank d" "rank d + length path \<le> rank b"
    using Cons.IH climbs [of d a c] by (auto simp: transition_iff)
  then show ?case by simp
qed

lemma no_return: "run_commands (transition c) a path = Inr a \<Longrightarrow> path = []"
  using run_climbs [of c a path a] by simp

end

end
