(* ===== verification/Ingestion.thy ===== *)
theory Ingestion
  imports TransitionPolicy
begin

text \<open>\<open>packages/data-core/src/ingestion/index.ts\<close>: the states of an ingestion and the table of the moves
  between them.\<close>

datatype ingestion_state =
    I_RECEIVED | I_QUARANTINED | I_SECURITY_SCANNED | I_FINGERPRINTED | I_PROFILED | I_CLASSIFIED
  | I_SCHEMA_MAPPED | I_SEMANTIC_MAPPED | I_VALIDATED | I_SPATIOTEMPORAL_ALIGNED | I_REVIEW_REQUIRED
  | I_APPROVED | I_REJECTED | I_COMMITTED | I_PROJECTING | I_PUBLISHED | I_FAILED | I_CANCELLED

fun INGESTION_TRANSITION_POLICY :: "ingestion_state \<Rightarrow> ingestion_state list" where
  "INGESTION_TRANSITION_POLICY I_RECEIVED = [I_QUARANTINED, I_FAILED, I_CANCELLED]"
| "INGESTION_TRANSITION_POLICY I_QUARANTINED = [I_SECURITY_SCANNED, I_FAILED, I_CANCELLED]"
| "INGESTION_TRANSITION_POLICY I_SECURITY_SCANNED = [I_FINGERPRINTED, I_REJECTED, I_FAILED, I_CANCELLED]"
| "INGESTION_TRANSITION_POLICY I_FINGERPRINTED = [I_PROFILED, I_FAILED, I_CANCELLED]"
| "INGESTION_TRANSITION_POLICY I_PROFILED = [I_CLASSIFIED, I_FAILED, I_CANCELLED]"
| "INGESTION_TRANSITION_POLICY I_CLASSIFIED = [I_SCHEMA_MAPPED, I_FAILED, I_CANCELLED]"
| "INGESTION_TRANSITION_POLICY I_SCHEMA_MAPPED = [I_SEMANTIC_MAPPED, I_FAILED, I_CANCELLED]"
| "INGESTION_TRANSITION_POLICY I_SEMANTIC_MAPPED = [I_VALIDATED, I_FAILED, I_CANCELLED]"
| "INGESTION_TRANSITION_POLICY I_VALIDATED = [I_SPATIOTEMPORAL_ALIGNED, I_REJECTED, I_FAILED, I_CANCELLED]"
| "INGESTION_TRANSITION_POLICY I_SPATIOTEMPORAL_ALIGNED = [I_REVIEW_REQUIRED, I_APPROVED, I_FAILED, I_CANCELLED]"
| "INGESTION_TRANSITION_POLICY I_REVIEW_REQUIRED = [I_APPROVED, I_REJECTED, I_FAILED, I_CANCELLED]"
| "INGESTION_TRANSITION_POLICY I_APPROVED = [I_COMMITTED, I_FAILED, I_CANCELLED]"
| "INGESTION_TRANSITION_POLICY I_REJECTED = []"
| "INGESTION_TRANSITION_POLICY I_COMMITTED = [I_PROJECTING, I_FAILED]"
| "INGESTION_TRANSITION_POLICY I_PROJECTING = [I_PUBLISHED, I_FAILED]"
| "INGESTION_TRANSITION_POLICY I_PUBLISHED = []"
| "INGESTION_TRANSITION_POLICY I_FAILED = []"
| "INGESTION_TRANSITION_POLICY I_CANCELLED = []"

definition canTransitionIngestionState :: "ingestion_state \<Rightarrow> ingestion_state \<Rightarrow> bool" where
  "canTransitionIngestionState from to \<longleftrightarrow> to \<in> set (INGESTION_TRANSITION_POLICY from)"

definition transitionIngestionState :: "ingestion_state \<Rightarrow> ingestion_state \<Rightarrow> ingestion_state result" where
  "transitionIngestionState from to =
     (if \<not> canTransitionIngestionState from to then fail ''INVALID_INGESTION_TRANSITION'' else Inr to)"

lemma transitionIngestion_Inr [simp]:
  "transitionIngestionState a b = Inr d \<longleftrightarrow> d = b \<and> b \<in> set (INGESTION_TRANSITION_POLICY a)"
  by (auto simp: transitionIngestionState_def canTransitionIngestionState_def)

fun ingestion_rank :: "ingestion_state \<Rightarrow> nat" where
  "ingestion_rank I_RECEIVED = 0"
| "ingestion_rank I_QUARANTINED = 1"
| "ingestion_rank I_SECURITY_SCANNED = 2"
| "ingestion_rank I_FINGERPRINTED = 3"
| "ingestion_rank I_PROFILED = 4"
| "ingestion_rank I_CLASSIFIED = 5"
| "ingestion_rank I_SCHEMA_MAPPED = 6"
| "ingestion_rank I_SEMANTIC_MAPPED = 7"
| "ingestion_rank I_VALIDATED = 8"
| "ingestion_rank I_SPATIOTEMPORAL_ALIGNED = 9"
| "ingestion_rank I_REVIEW_REQUIRED = 10"
| "ingestion_rank I_APPROVED = 11"
| "ingestion_rank I_COMMITTED = 12"
| "ingestion_rank I_PROJECTING = 13"
| "ingestion_rank _ = 14"

definition ingestion_final :: "ingestion_state \<Rightarrow> bool" where
  "ingestion_final s \<longleftrightarrow> s \<in> {I_REJECTED, I_PUBLISHED, I_FAILED, I_CANCELLED}"

lemma ingestion_climbs: "b \<in> set (INGESTION_TRANSITION_POLICY a) \<Longrightarrow> ingestion_rank a < ingestion_rank b"
  by (cases a) auto

lemma ingestion_final_iff: "ingestion_final a \<longleftrightarrow> set (INGESTION_TRANSITION_POLICY a) = {}"
  by (cases a) (auto simp: ingestion_final_def)

interpretation ingestion: ranked_policy INGESTION_TRANSITION_POLICY "\<lambda>(c :: unit) a b. False"
  "\<lambda>c. transitionIngestionState" ingestion_final ingestion_rank
  by unfold_locales (auto simp: ingestion_final_iff dest: ingestion_climbs)

section \<open>The way to publication\<close>

text \<open>The paths to \<open>PUBLISHED\<close> of at most a given length, enumerated over the table.\<close>

fun published_paths :: "nat \<Rightarrow> ingestion_state \<Rightarrow> ingestion_state list list" where
  "published_paths 0 s = (if s = I_PUBLISHED then [[]] else [])"
| "published_paths (Suc n) s =
     (if s = I_PUBLISHED then [[]] else [])
     @ concat (map (\<lambda>b. map (\<lambda>p. b # p) (published_paths n b)) (INGESTION_TRANSITION_POLICY s))"

lemma published_paths_complete:
  "run_commands transitionIngestionState s p = Inr I_PUBLISHED \<and> length p \<le> n \<longleftrightarrow> p \<in> set (published_paths n s)"
proof (induction n arbitrary: s p)
  case 0
  then show ?case by (cases p) auto
next
  case (Suc n)
  show ?case
  proof (cases p)
    case (Cons b q)
    with Suc [of b q] show ?thesis by auto
  qed auto
qed

text \<open>
  There is one way to publication: an ingestion that started as received is published
  exactly when it went through quarantine, security scan, fingerprint, profile, classification, both
  mappings, validation and alignment, then, after an optional review, approval, commit and
  projection, in this order.
\<close>

theorem published_through_pipeline:
  "run_commands transitionIngestionState I_RECEIVED path = Inr I_PUBLISHED \<longleftrightarrow>
   (\<exists>review \<in> {[], [I_REVIEW_REQUIRED]}.
      path = [I_QUARANTINED, I_SECURITY_SCANNED, I_FINGERPRINTED, I_PROFILED, I_CLASSIFIED, I_SCHEMA_MAPPED,
              I_SEMANTIC_MAPPED, I_VALIDATED, I_SPATIOTEMPORAL_ALIGNED] @ review
             @ [I_APPROVED, I_COMMITTED, I_PROJECTING, I_PUBLISHED])"
proof -
  have "published_paths 14 I_RECEIVED =
      [[I_QUARANTINED, I_SECURITY_SCANNED, I_FINGERPRINTED, I_PROFILED, I_CLASSIFIED, I_SCHEMA_MAPPED,
        I_SEMANTIC_MAPPED, I_VALIDATED, I_SPATIOTEMPORAL_ALIGNED, I_REVIEW_REQUIRED, I_APPROVED, I_COMMITTED,
        I_PROJECTING, I_PUBLISHED],
       [I_QUARANTINED, I_SECURITY_SCANNED, I_FINGERPRINTED, I_PROFILED, I_CLASSIFIED, I_SCHEMA_MAPPED,
        I_SEMANTIC_MAPPED, I_VALIDATED, I_SPATIOTEMPORAL_ALIGNED, I_APPROVED, I_COMMITTED,
        I_PROJECTING, I_PUBLISHED]]"
    by code_simp
  moreover have "run_commands transitionIngestionState I_RECEIVED path = Inr I_PUBLISHED \<longleftrightarrow>
      path \<in> set (published_paths 14 I_RECEIVED)"
    using published_paths_complete [of I_RECEIVED path 14] ingestion.run_climbs [of I_RECEIVED path I_PUBLISHED]
    by auto
  ultimately show ?thesis by auto
qed

lemma published_through_pipeline_witness:
  "run_commands transitionIngestionState I_RECEIVED [I_QUARANTINED, I_SECURITY_SCANNED, I_FINGERPRINTED, I_PROFILED,
     I_CLASSIFIED, I_SCHEMA_MAPPED, I_SEMANTIC_MAPPED, I_VALIDATED, I_SPATIOTEMPORAL_ALIGNED, I_APPROVED,
     I_COMMITTED, I_PROJECTING, I_PUBLISHED] = Inr I_PUBLISHED"
  unfolding published_through_pipeline by simp

text \<open>
  Property C40. An ingestion ends: no history of moves from the start is longer than fourteen, and none
  leaves a rejected, published, failed or cancelled ingestion.
\<close>

theorem ingestion_terminates:
  assumes "run_commands transitionIngestionState s path = Inr s'"
  shows "length path \<le> 14 \<and> (ingestion_final s \<longrightarrow> path = []) \<and> (s' = s \<longrightarrow> path = [])"
proof -
  have "ingestion_rank s' \<le> 14" by (cases s') simp_all
  then show ?thesis
    using ingestion.run_climbs [OF assms] ingestion.final_stays [OF _ assms] ingestion.no_return assms by auto
qed

lemma ingestion_terminates_witness:
  "run_commands transitionIngestionState I_RECEIVED [I_QUARANTINED, I_FAILED] = Inr I_FAILED
   \<and> length [I_QUARANTINED, I_FAILED] \<le> 14"
  using ingestion_terminates [of I_RECEIVED "[I_QUARANTINED, I_FAILED]" I_FAILED] by simp

end
