(* ===== verification/Operations.thy ===== *)
theory Operations
  imports TransitionPolicy
begin

text \<open>\<open>packages/data-core/src/operation/index.ts\<close>: the statuses of an operation, the table of the moves
  between them, and the one move that only an upload session may make.\<close>

datatype operation_status =
    O_PENDING | O_RUNNING | O_WAITING_INPUT | O_WAITING_REVIEW | O_SUCCEEDED | O_FAILED | O_CANCELLED

fun OPERATION_TRANSITION_POLICY :: "operation_status \<Rightarrow> operation_status list" where
  "OPERATION_TRANSITION_POLICY O_PENDING = [O_RUNNING, O_WAITING_INPUT, O_WAITING_REVIEW, O_FAILED, O_CANCELLED]"
| "OPERATION_TRANSITION_POLICY O_RUNNING = [O_WAITING_INPUT, O_WAITING_REVIEW, O_SUCCEEDED, O_FAILED, O_CANCELLED]"
| "OPERATION_TRANSITION_POLICY O_WAITING_INPUT = [O_RUNNING, O_WAITING_REVIEW, O_FAILED, O_CANCELLED]"
| "OPERATION_TRANSITION_POLICY O_WAITING_REVIEW = [O_RUNNING, O_WAITING_INPUT, O_SUCCEEDED, O_FAILED, O_CANCELLED]"
| "OPERATION_TRANSITION_POLICY O_SUCCEEDED = []"
| "OPERATION_TRANSITION_POLICY O_FAILED = []"
| "OPERATION_TRANSITION_POLICY O_CANCELLED = []"

text \<open>The context is the capability id, when there is one.\<close>

definition isUploadCompletionTransition :: "operation_status \<Rightarrow> operation_status \<Rightarrow> string option \<Rightarrow> bool" where
  "isUploadCompletionTransition from to capabilityId \<longleftrightarrow>
     capabilityId = Some ''data.uploadSession.create'' \<and> from = O_WAITING_INPUT \<and> to = O_SUCCEEDED"

definition canTransitionOperationStatus :: "operation_status \<Rightarrow> operation_status \<Rightarrow> string option \<Rightarrow> bool" where
  "canTransitionOperationStatus from to capabilityId \<longleftrightarrow>
     to \<in> set (OPERATION_TRANSITION_POLICY from) \<or> isUploadCompletionTransition from to capabilityId"

definition transitionOperationStatus ::
  "operation_status \<Rightarrow> operation_status \<Rightarrow> string option \<Rightarrow> operation_status result" where
  "transitionOperationStatus from to capabilityId =
     (if \<not> canTransitionOperationStatus from to capabilityId then fail ''INVALID_OPERATION_TRANSITION'' else Inr to)"

definition operation_final :: "operation_status \<Rightarrow> bool" where
  "operation_final s \<longleftrightarrow> s \<in> {O_SUCCEEDED, O_FAILED, O_CANCELLED}"

abbreviation operation_step :: "string option \<Rightarrow> operation_status \<Rightarrow> operation_status \<Rightarrow> operation_status result" where
  "operation_step capabilityId from to \<equiv> transitionOperationStatus from to capabilityId"

lemma transitionOperation_Inr [simp]:
  "transitionOperationStatus a b c = Inr d \<longleftrightarrow>
     d = b \<and> (b \<in> set (OPERATION_TRANSITION_POLICY a) \<or> isUploadCompletionTransition a b c)"
  by (auto simp: transitionOperationStatus_def canTransitionOperationStatus_def)

interpretation operations: transition_policy OPERATION_TRANSITION_POLICY
  "\<lambda>c a b. isUploadCompletionTransition a b c" operation_step operation_final
proof
  show "operation_final a \<longleftrightarrow> (\<forall>b. b \<notin> set (OPERATION_TRANSITION_POLICY a)
      \<and> (\<forall>c. \<not> isUploadCompletionTransition a b c))" for a
    by (cases a) (auto simp: operation_final_def isUploadCompletionTransition_def)
qed simp

text \<open>
  An operation succeeds only after it ran or was reviewed, unless it completes an upload
  session that waited for its input; and once it has succeeded, failed or been cancelled, nothing moves
  it again.
\<close>

theorem operation_succeeds_after_work:
  assumes "run_commands (operation_step c) O_PENDING path = Inr O_SUCCEEDED"
  shows "(O_RUNNING \<in> set path \<or> O_WAITING_REVIEW \<in> set path
          \<or> c = Some ''data.uploadSession.create'' \<and> O_WAITING_INPUT \<in> set path)
    \<and> (\<forall>further b. run_commands (operation_step c) O_SUCCEEDED further = Inr b \<longrightarrow> further = [])"
proof
  have "path \<noteq> []" using assms by auto
  then obtain p b where p: "path = p @ [b]" by (metis rev_exhaust)
  then obtain s where s: "run_commands (operation_step c) O_PENDING p = Inr s" "operation_step c s b = Inr O_SUCCEEDED"
    using assms by (auto simp: run_commands_append)
  have "s = last (O_PENDING # p)" by (rule operations.run_ends [OF s(1)])
  then have "s = O_PENDING \<or> s \<in> set p" by (metis last_ConsL last_ConsR last_in_set)
  moreover have "s \<in> {O_RUNNING, O_WAITING_REVIEW} \<or> s = O_WAITING_INPUT \<and> c = Some ''data.uploadSession.create''"
    using s(2) by (cases s) (auto simp: isUploadCompletionTransition_def)
  ultimately show "O_RUNNING \<in> set path \<or> O_WAITING_REVIEW \<in> set path
          \<or> c = Some ''data.uploadSession.create'' \<and> O_WAITING_INPUT \<in> set path"
    using p by auto
next
  show "\<forall>further b. run_commands (operation_step c) O_SUCCEEDED further = Inr b \<longrightarrow> further = []"
    using operations.final_stays [of O_SUCCEEDED c] by (auto simp: operation_final_def)
qed

lemma operation_succeeds_after_work_witness:
  "run_commands (operation_step None) O_PENDING [O_WAITING_INPUT, O_RUNNING, O_SUCCEEDED] = Inr O_SUCCEEDED
   \<and> O_RUNNING \<in> set [O_WAITING_INPUT, O_RUNNING, O_SUCCEEDED]"
proof -
  have run: "run_commands (operation_step None) O_PENDING [O_WAITING_INPUT, O_RUNNING, O_SUCCEEDED] = Inr O_SUCCEEDED"
    by simp
  from operation_succeeds_after_work [OF this] run show ?thesis by simp
qed

end
