(* ===== verification/Security.thy ===== *)
theory Security
  imports Prelude
begin

text \<open>\<open>packages/data-core/src/security/index.ts\<close>: security levels, their maximum over the sources of a
  derived record, and the guard against lowering a level.\<close>

datatype security_level = L0_PUBLIC | L1_INTERNAL | L2_RESTRICTED | L3_CONFIDENTIAL

fun SECURITY_RANK :: "security_level \<Rightarrow> nat" where
  "SECURITY_RANK L0_PUBLIC = 0"
| "SECURITY_RANK L1_INTERNAL = 1"
| "SECURITY_RANK L2_RESTRICTED = 2"
| "SECURITY_RANK L3_CONFIDENTIAL = 3"

text \<open>The levels are ordered by their rank.\<close>

lemma SECURITY_RANK_inj: "SECURITY_RANK a = SECURITY_RANK b \<Longrightarrow> a = b"
  by (cases a; cases b) simp_all

instantiation security_level :: linorder
begin

definition less_eq_security_level :: "security_level \<Rightarrow> security_level \<Rightarrow> bool" where
  "less_eq_security_level a b \<longleftrightarrow> SECURITY_RANK a \<le> SECURITY_RANK b"

definition less_security_level :: "security_level \<Rightarrow> security_level \<Rightarrow> bool" where
  "less_security_level a b \<longleftrightarrow> SECURITY_RANK a < SECURITY_RANK b"

instance
  by standard (auto simp: less_eq_security_level_def less_security_level_def intro: SECURITY_RANK_inj)

end

definition maximumSecurityLevel :: "security_level list \<Rightarrow> security_level result" where
  "maximumSecurityLevel levels =
     (case levels of
        [] \<Rightarrow> fail ''INVALID_SECURITY_LEVEL_SET''
      | first # remaining \<Rightarrow>
          Inr (foldl (\<lambda>maximum level. if SECURITY_RANK level > SECURITY_RANK maximum then level else maximum)
            first remaining))"

definition inheritSecurityLevel :: "security_level list \<Rightarrow> security_level option \<Rightarrow> security_level result" where
  "inheritSecurityLevel sourceLevels requestedLevel =
     and_then (maximumSecurityLevel sourceLevels) (\<lambda>inherited.
       case requestedLevel of
         None \<Rightarrow> Inr inherited
       | Some requested \<Rightarrow> maximumSecurityLevel [inherited, requested])"

definition assertSecurityLevelNotLowered :: "security_level \<Rightarrow> security_level \<Rightarrow> security_level result" where
  "assertSecurityLevelNotLowered inheritedLevel proposedLevel =
     (if SECURITY_RANK proposedLevel < SECURITY_RANK inheritedLevel then fail ''SECURITY_LEVEL_DOWNGRADE''
      else Inr proposedLevel)"

lemma security_fold:
  "foldl (\<lambda>maximum level. if SECURITY_RANK level > SECURITY_RANK maximum then level else maximum) m ls
   = Max (insert m (set ls))"
proof (induction ls arbitrary: m)
  case Nil
  then show ?case by simp
next
  case (Cons l ls)
  have "(if SECURITY_RANK l > SECURITY_RANK m then l else m) = max m l"
    by (auto simp: max_def less_eq_security_level_def intro: SECURITY_RANK_inj)
  moreover have "Max (insert (max m l) (set ls)) = Max (insert m (insert l (set ls)))"
    by (cases "set ls = {}") (simp_all add: max.assoc max.commute max.left_commute)
  ultimately show ?case using Cons.IH [of "max m l"] by simp
qed

lemma maximum_Max: "maximumSecurityLevel ls = (if ls = [] then fail ''INVALID_SECURITY_LEVEL_SET'' else Inr (Max (set ls)))"
  by (cases ls) (simp_all add: maximumSecurityLevel_def security_fold)

text \<open>
  A derived record inherits the least level that is not below any of its sources nor below
  the requested one: inheritance fails only without sources, does not depend on their order or
  repetition, and its result is one that the guard against lowering accepts for every source.
\<close>

theorem inherited_level_is_least_upper_bound:
  "inheritSecurityLevel sources requested = Inr l \<longleftrightarrow>
     sources \<noteq> [] \<and> (\<forall>s \<in> set sources \<union> set_option requested. assertSecurityLevelNotLowered s l = Inr l)
     \<and> (\<forall>m. (\<forall>s \<in> set sources \<union> set_option requested. s \<le> m) \<longrightarrow> l \<le> m)"
proof -
  have guard: "assertSecurityLevelNotLowered s m = Inr m \<longleftrightarrow> s \<le> m" for s m
    by (auto simp: assertSecurityLevelNotLowered_def less_eq_security_level_def)
  have "inheritSecurityLevel sources requested = Inr l \<longleftrightarrow>
      sources \<noteq> [] \<and> l = Max (set sources \<union> set_option requested)"
    by (cases requested) (auto simp: inheritSecurityLevel_def maximum_Max max.commute)
  also have "\<dots> \<longleftrightarrow> sources \<noteq> [] \<and> (\<forall>s \<in> set sources \<union> set_option requested. s \<le> l)
      \<and> (\<forall>m. (\<forall>s \<in> set sources \<union> set_option requested. s \<le> m) \<longrightarrow> l \<le> m)"
  proof (cases "sources = []")
    case False
    let ?S = "set sources \<union> set_option requested"
    have S: "finite ?S" "?S \<noteq> {}" using False by simp_all
    have "l = Max ?S \<longleftrightarrow> (\<forall>s \<in> ?S. s \<le> l) \<and> (\<forall>m. (\<forall>s \<in> ?S. s \<le> m) \<longrightarrow> l \<le> m)"
      using Max_ge [OF S(1)] Max_in [OF S] by (meson antisym)
    with False show ?thesis by simp
  qed simp
  finally show ?thesis by (simp only: guard)
qed

lemma inherited_level_is_least_upper_bound_witness:
  "inheritSecurityLevel [L1_INTERNAL, L2_RESTRICTED] (Some L0_PUBLIC) = Inr L2_RESTRICTED"
  unfolding inherited_level_is_least_upper_bound
  by (auto simp: assertSecurityLevelNotLowered_def less_eq_security_level_def)

end
