(* ===== verification/Publication.thy ===== *)
theory Publication
  imports Ingestion
begin

text \<open>\<open>packages/data-core/src/publication/index.ts\<close>: whether a version may be published, with every
  reason that speaks against it.\<close>

datatype projection_status = Pj_PENDING | Pj_RUNNING | Pj_SUCCEEDED | Pj_FAILED

record projection_result =
  pr_projectionId :: string
  pr_status :: projection_status

datatype acceptance_status =
    Ac_PENDING | Ac_PASSED | Ac_CONDITIONALLY_PASSED | Ac_CORRECTION_REQUIRED | Ac_ARCHIVED_ONLY | Ac_REJECTED

datatype publication_block_reason =
    INGESTION_NOT_PROJECTING | AUTHORITATIVE_VERSION_NOT_COMMITTED | QUALITY_GATE_FAILED
  | ACCEPTANCE_NOT_ELIGIBLE | PROJECTIONS_MISSING | DUPLICATE_PROJECTION | PROJECTIONS_INCOMPLETE

record publication_input =
  pu_ingestionState :: ingestion_state
  pu_authoritativeVersionCommitted :: bool
  pu_qualityGatePassed :: bool
  pu_acceptanceStatus :: acceptance_status
  pu_projections :: "projection_result list"

record publication_decision =
  pd_eligible :: bool
  pd_reasons :: "publication_block_reason list"

definition ELIGIBLE_ACCEPTANCE_STATUSES :: "acceptance_status set" where
  "ELIGIBLE_ACCEPTANCE_STATUSES = {Ac_PASSED, Ac_CONDITIONALLY_PASSED}"

text \<open>The loop that looks for a repeated id.\<close>

fun duplicate_projection :: "string set \<Rightarrow> bool \<Rightarrow> projection_result list \<Rightarrow> bool" where
  "duplicate_projection ids duplicate [] = duplicate"
| "duplicate_projection ids duplicate (p # ps) =
     duplicate_projection (insert (pr_projectionId p) ids)
       (if pr_projectionId p \<in> ids then True else duplicate) ps"

definition evaluatePublicationEligibility :: "publication_input \<Rightarrow> publication_decision" where
  "evaluatePublicationEligibility i =
     (let reasons =
        (if pu_ingestionState i \<noteq> I_PROJECTING then [INGESTION_NOT_PROJECTING] else [])
        @ (if \<not> pu_authoritativeVersionCommitted i then [AUTHORITATIVE_VERSION_NOT_COMMITTED] else [])
        @ (if \<not> pu_qualityGatePassed i then [QUALITY_GATE_FAILED] else [])
        @ (if pu_acceptanceStatus i \<notin> ELIGIBLE_ACCEPTANCE_STATUSES then [ACCEPTANCE_NOT_ELIGIBLE] else [])
        @ (if length (pu_projections i) = 0 then [PROJECTIONS_MISSING]
           else
             (if duplicate_projection {} False (pu_projections i) then [DUPLICATE_PROJECTION] else [])
             @ (if list_ex (\<lambda>p. pr_status p \<noteq> Pj_SUCCEEDED) (pu_projections i)
                then [PROJECTIONS_INCOMPLETE] else []))
      in \<lparr>pd_eligible = (length reasons = 0), pd_reasons = reasons\<rparr>)"

lemma duplicate_projection_iff:
  "duplicate_projection ids b ps \<longleftrightarrow>
     b \<or> \<not> distinct (map pr_projectionId ps) \<or> pr_projectionId ` set ps \<inter> ids \<noteq> {}"
  by (induction ps arbitrary: ids b) auto

text \<open>
  A version is eligible for publication exactly when its ingestion, one that came the whole
  way through the pipeline, is projecting, the authoritative version is committed, the quality gate
  passed, it was accepted, at least conditionally, and there are projections, all succeeded and each
  with its own id; otherwise some reason is given.
\<close>

theorem publication_eligible_iff:
  "pd_eligible (evaluatePublicationEligibility i) \<longleftrightarrow>
     canTransitionIngestionState (pu_ingestionState i) I_PUBLISHED
     \<and> pu_authoritativeVersionCommitted i \<and> pu_qualityGatePassed i
     \<and> pu_acceptanceStatus i \<in> {Ac_PASSED, Ac_CONDITIONALLY_PASSED}
     \<and> pu_projections i \<noteq> [] \<and> distinct (map pr_projectionId (pu_projections i))
     \<and> list_all (\<lambda>p. pr_status p = Pj_SUCCEEDED) (pu_projections i)"
proof -
  have "canTransitionIngestionState s I_PUBLISHED \<longleftrightarrow> s = I_PROJECTING" for s
    by (cases s) (simp_all add: canTransitionIngestionState_def)
  then show ?thesis
    by (auto simp: evaluatePublicationEligibility_def ELIGIBLE_ACCEPTANCE_STATUSES_def duplicate_projection_iff
        list_ex_iff list_all_iff Let_def)
qed

end
