(* ===== verification/Quality.thy ===== *)
theory Quality
  imports JsNumber
begin

text \<open>
  \<open>packages/data-core/src/quality/index.ts\<close>: the quality gate. The score is the weight of the passed
  checks over the weight of the applicable ones, summed and divided in doubles and rounded to six
  decimals; the gate passes at a minimum score when no blocking check failed or was skipped.
\<close>

section \<open>Data\<close>

datatype quality_check_status = Q_PASSED | Q_FAILED | Q_SKIPPED

record quality_check =
  qc_ruleId :: string
  qc_status :: quality_check_status
  qc_weight :: js_number
  qc_blocking :: "bool option"

record quality_input =
  qi_checks :: "quality_check list"
  qi_minimumPassingScore :: js_number

datatype quality_grade = Grade_A | Grade_B | Grade_C

record quality_decision =
  qd_score :: js_number
  qd_grade :: quality_grade
  qd_passed :: bool
  qd_failedRuleIds :: "string list"
  qd_blockingRuleIds :: "string list"

section \<open>Operations\<close>

text \<open>The thresholds are the doubles nearest to 0.9 and 0.75.\<close>

definition qualityGradeFor :: "js_number \<Rightarrow> quality_grade" where
  "qualityGradeFor score =
     (if js_le (round_double (9 / 10)) score then Grade_A
      else if js_le (round_double (3 / 4)) score then Grade_B else Grade_C)"

text \<open>The loop of the validation: the number of applicable checks, or the error.\<close>

fun count_applicable :: "string set \<Rightarrow> quality_check list \<Rightarrow> nat result" where
  "count_applicable ids [] = Inr 0"
| "count_applicable ids (c # cs) =
     (if js_trim (qc_ruleId c) = [] then fail ''INVALID_QUALITY_GATE_INPUT''
      else if qc_ruleId c \<in> ids then fail ''INVALID_QUALITY_GATE_INPUT''
      else if \<not> js_is_finite (qc_weight c) \<or> js_le (qc_weight c) (Num 0) then fail ''INVALID_QUALITY_GATE_INPUT''
      else and_then (count_applicable (insert (qc_ruleId c) ids) cs)
        (\<lambda>n. Inr (if qc_status c \<noteq> Q_SKIPPED then Suc n else n)))"

definition validateQualityGateInput :: "quality_input \<Rightarrow> unit result" where
  "validateQualityGateInput i =
     (if \<not> js_is_finite (qi_minimumPassingScore i) \<or> js_le (qi_minimumPassingScore i) (Num 0)
         \<or> js_lt (Num 1) (qi_minimumPassingScore i)
      then fail ''INVALID_QUALITY_GATE_INPUT''
      else and_then (count_applicable {} (qi_checks i)) (\<lambda>applicableCheckCount.
        if applicableCheckCount = 0 then fail ''INVALID_QUALITY_GATE_INPUT'' else Inr ()))"

definition stableScore :: "js_number \<Rightarrow> js_number \<Rightarrow> js_number" where
  "stableScore passedWeight applicableWeight =
     js_div (js_round (js_mul (js_div passedWeight applicableWeight) (Num 1000000))) (Num 1000000)"

text \<open>The loop over the checks: the weights, the failed and the blocking rules so far.\<close>

fun weigh_checks ::
  "quality_check list \<Rightarrow> js_number \<Rightarrow> js_number \<Rightarrow> string list \<Rightarrow> string list \<Rightarrow>
   js_number \<times> js_number \<times> string list \<times> string list" where
  "weigh_checks [] passed applicable failed blocking = (passed, applicable, failed, blocking)"
| "weigh_checks (c # cs) passed applicable failed blocking =
     (let blocking' = (if qc_blocking c = Some True \<and> qc_status c \<noteq> Q_PASSED
                       then blocking @ [qc_ruleId c] else blocking) in
      case qc_status c of
        Q_SKIPPED \<Rightarrow> weigh_checks cs passed applicable failed blocking'
      | Q_PASSED \<Rightarrow>
          weigh_checks cs (js_add passed (qc_weight c)) (js_add applicable (qc_weight c)) failed blocking'
      | Q_FAILED \<Rightarrow>
          weigh_checks cs passed (js_add applicable (qc_weight c)) (failed @ [qc_ruleId c]) blocking')"

definition evaluateQualityGate :: "quality_input \<Rightarrow> quality_decision result" where
  "evaluateQualityGate i =
     and_then (validateQualityGateInput i) (\<lambda>_.
       case weigh_checks (qi_checks i) (Num 0) (Num 0) [] [] of
         (passedWeight, applicableWeight, failedRuleIds, blockingRuleIds) \<Rightarrow>
           let score = stableScore passedWeight applicableWeight in
           Inr \<lparr>qd_score = score, qd_grade = qualityGradeFor score,
                qd_passed = (js_le (qi_minimumPassingScore i) score \<and> length blockingRuleIds = 0),
                qd_failedRuleIds = failedRuleIds, qd_blockingRuleIds = blockingRuleIds\<rparr>)"

section \<open>Weights\<close>

text \<open>A sum of positive doubles: positive, and never NaN.\<close>

fun nonneg :: "js_number \<Rightarrow> bool" where
  "nonneg (Num x) = (0 \<le> x)"
| "nonneg PosInf = True"
| "nonneg _ = False"

lemma nonneg_round: "0 \<le> x \<Longrightarrow> nonneg (round_double x)"
  using round_double_mono [of 0 x] by (cases "round_double x") (auto simp: js_le_def js_eq_def)

lemma nonneg_add: "nonneg a \<Longrightarrow> nonneg b \<Longrightarrow> nonneg (js_add a b)"
  by (cases a; cases b) (auto intro: nonneg_round)

lemma js_add_mono: "nonneg a \<Longrightarrow> nonneg b \<Longrightarrow> js_le a a' \<Longrightarrow> nonneg a' \<Longrightarrow> js_le (js_add a b) (js_add a' b)"
proof (cases a; cases a'; cases b)
  fix x y z
  assume "a = Num x" "a' = Num y" "b = Num z" "js_le a a'"
  then show "js_le (js_add a b) (js_add a' b)" using round_double_mono [of "x + z" "y + z"] by simp
next
  fix x z
  assume "a = Num x" "a' = PosInf" "b = Num z"
  then show "js_le (js_add a b) (js_add a' b)"
    by (cases "round_double (x + z)") (use round_double_not_NaN [of "x + z"] in \<open>auto simp: js_le_def js_eq_def\<close>)
qed (auto simp: js_le_def js_eq_def)


lemma js_le_add: "is_double a \<Longrightarrow> nonneg a \<Longrightarrow> nonneg b \<Longrightarrow> js_le a (js_add a b)"
proof (cases a; cases b)
  fix x y
  assume "a = Num x" "b = Num y" "is_double a" "nonneg b"
  then show "js_le a (js_add a b)" using round_double_mono [of x "x + y"] by (simp add: is_double_def)
qed (auto simp: js_le_def js_eq_def)

lemma nonneg_not_NaN: "nonneg a \<Longrightarrow> a \<noteq> NaN"
  by auto

lemma is_double_add [simp]: "is_double (js_add a b)"
  by (cases a; cases b) (simp_all add: is_double_def [of NaN] is_double_def [of PosInf] is_double_def [of NegInf])

text \<open>The two sums of the loop on their own, and the lists it collects.\<close>

fun passed_sum :: "js_number \<Rightarrow> quality_check list \<Rightarrow> js_number" where
  "passed_sum p [] = p"
| "passed_sum p (c # cs) = passed_sum (if qc_status c = Q_PASSED then js_add p (qc_weight c) else p) cs"

fun applicable_sum :: "js_number \<Rightarrow> quality_check list \<Rightarrow> js_number" where
  "applicable_sum a [] = a"
| "applicable_sum a (c # cs) =
     applicable_sum (if qc_status c = Q_SKIPPED then a else js_add a (qc_weight c)) cs"

definition blocks :: "quality_check \<Rightarrow> bool" where
  "blocks c \<longleftrightarrow> qc_blocking c = Some True \<and> qc_status c \<noteq> Q_PASSED"

lemma weigh_checks_parts:
  "weigh_checks cs p a f b = (passed_sum p cs, applicable_sum a cs,
     f @ map qc_ruleId (filter (\<lambda>c. qc_status c = Q_FAILED) cs), b @ map qc_ruleId (filter blocks cs))"
  by (induction cs arbitrary: p a f b) (auto simp: Let_def blocks_def split: quality_check_status.splits)

lemma evaluateQualityGate_Inr:
  "evaluateQualityGate i = Inr d \<longleftrightarrow> validateQualityGateInput i = Inr () \<and>
     d = (let score = stableScore (passed_sum (Num 0) (qi_checks i)) (applicable_sum (Num 0) (qi_checks i)) in
       \<lparr>qd_score = score, qd_grade = qualityGradeFor score,
        qd_passed = (js_le (qi_minimumPassingScore i) score \<and> \<not> (\<exists>c \<in> set (qi_checks i). blocks c)),
        qd_failedRuleIds = map qc_ruleId (filter (\<lambda>c. qc_status c = Q_FAILED) (qi_checks i)),
        qd_blockingRuleIds = map qc_ruleId (filter blocks (qi_checks i))\<rparr>)"
  by (auto simp: evaluateQualityGate_def weigh_checks_parts Let_def filter_empty_conv)

definition weighty :: "quality_check list \<Rightarrow> bool" where
  "weighty cs \<longleftrightarrow> (\<forall>c \<in> set cs. nonneg (qc_weight c))"

lemma weighty_simps [simp]:
  "weighty []" "weighty (c # cs) \<longleftrightarrow> nonneg (qc_weight c) \<and> weighty cs"
  by (auto simp: weighty_def)

lemma count_applicable_weighty: "count_applicable ids cs = Inr n \<Longrightarrow> weighty cs"
proof (induction cs arbitrary: ids n)
  case (Cons c cs)
  then show ?case by (cases "qc_weight c") (auto split: if_splits)
qed simp

lemma validate_weighty: "validateQualityGateInput i = Inr () \<Longrightarrow> weighty (qi_checks i)"
  by (auto simp: validateQualityGateInput_def dest: count_applicable_weighty)

lemma sums_ordered:
  "weighty cs \<Longrightarrow> is_double a \<Longrightarrow> nonneg p \<Longrightarrow> nonneg a \<Longrightarrow> js_le p a \<Longrightarrow>
   nonneg (passed_sum p cs) \<and> nonneg (applicable_sum a cs) \<and> js_le (passed_sum p cs) (applicable_sum a cs)"
proof (induction cs arbitrary: p a)
  case (Cons c cs)
  have step: "nonneg (js_add p (qc_weight c))" "nonneg (js_add a (qc_weight c))"
      "js_le (js_add p (qc_weight c)) (js_add a (qc_weight c))" "js_le p (js_add a (qc_weight c))"
    using Cons.prems by (auto intro: nonneg_add js_add_mono js_le_trans js_le_add)
  with Cons.IH [of "js_add a (qc_weight c)" "js_add p (qc_weight c)"] Cons.IH [of "js_add a (qc_weight c)" p]
    Cons.IH [of a p] Cons.prems
  show ?case by (cases "qc_status c") simp_all
qed simp

section \<open>Scores\<close>

lemma js_le_infinite [simp]:
  "js_le a PosInf \<longleftrightarrow> a \<noteq> NaN" "js_le NegInf a \<longleftrightarrow> a \<noteq> NaN"
  "js_le PosInf a \<longleftrightarrow> a = PosInf" "js_le a NegInf \<longleftrightarrow> a = NegInf"
  by (cases a; auto simp: js_le_def js_eq_def)+

lemma js_mul_mono: "js_le a b \<Longrightarrow> 0 < k \<Longrightarrow> js_le (js_mul a (Num k)) (js_mul b (Num k))"
proof (cases a; cases b)
  fix x y
  assume "a = Num x" "b = Num y" "js_le a b" "0 < k"
  then show "js_le (js_mul a (Num k)) (js_mul b (Num k))" using round_double_mono [of "x * k" "y * k"] by simp
qed (auto simp: js_signed_inf_def)

lemma js_div_mono: "js_le a b \<Longrightarrow> 0 < k \<Longrightarrow> js_le (js_div a (Num k)) (js_div b (Num k))"
proof (cases a; cases b)
  fix x y
  assume "a = Num x" "b = Num y" "js_le a b" "0 < k"
  then show "js_le (js_div a (Num k)) (js_div b (Num k))"
    using round_double_mono [of "x / k" "y / k"] by (simp add: divide_right_mono)
qed (auto simp: js_signed_inf_def)

lemma js_round_mono: "js_le a b \<Longrightarrow> js_le (js_round a) (js_round b)"
proof (cases a; cases b)
  fix x y
  assume "a = Num x" "b = Num y" "js_le a b"
  then show "js_le (js_round a) (js_round b)" using floor_mono [of "x + 1 / 2" "y + 1 / 2"] by simp
qed (auto simp: js_le_def js_eq_def)

lemma stableScore_mono:
  assumes "js_le (js_div p (Num y)) (js_div q (Num y))"
  shows "js_le (stableScore p (Num y)) (stableScore q (Num y))"
  unfolding stableScore_def
  by (rule js_div_mono [OF js_round_mono [OF js_mul_mono [OF assms]]]) simp_all

text \<open>A score above zero is the score of a finite sum of applicable weights.\<close>

lemma positive_score:
  assumes "nonneg p" "js_le p a" "js_lt (Num 0) (stableScore p a)"
  obtains x y where "p = Num x" "a = Num y" "0 < y" "0 \<le> x" "x \<le> y"
proof (cases p; cases a)
  fix x y
  assume n: "p = Num x" "a = Num y"
  show thesis
  proof (cases "y = 0")
    case True
    with n assms show thesis by (simp add: stableScore_def js_signed_inf_def)
  qed (use n assms that in auto)
next
  fix x
  assume n: "p = Num x" "a = PosInf"
  have "\<lfloor>1 / 2 :: rat\<rfloor> = 0" by (rule floor_unique) simp_all
  with n assms show thesis by (simp add: stableScore_def)
qed (use assms in \<open>auto simp: stableScore_def js_le_def js_eq_def\<close>)

definition nonneg_or_NaN :: "js_number \<Rightarrow> bool" where
  "nonneg_or_NaN a \<longleftrightarrow> nonneg a \<or> a = NaN"

lemma nonneg_div: "nonneg_or_NaN a \<Longrightarrow> nonneg_or_NaN b \<Longrightarrow> nonneg_or_NaN (js_div a b)"
  by (cases a; cases b) (auto simp: nonneg_or_NaN_def js_signed_inf_def sgn_if intro: nonneg_round)

lemma nonneg_mul: "nonneg_or_NaN a \<Longrightarrow> 0 < k \<Longrightarrow> nonneg_or_NaN (js_mul a (Num k))"
  by (cases a) (auto simp: nonneg_or_NaN_def js_signed_inf_def intro: nonneg_round)

lemma nonneg_js_round: "nonneg_or_NaN a \<Longrightarrow> nonneg_or_NaN (js_round a)"
  by (cases a) (auto simp: nonneg_or_NaN_def)

lemma stableScore_sign: "nonneg p \<Longrightarrow> nonneg a \<Longrightarrow> nonneg_or_NaN (stableScore p a)"
  unfolding stableScore_def
  by (intro nonneg_div nonneg_js_round nonneg_mul) (simp_all add: nonneg_or_NaN_def)

lemma stableScore_bounds:
  assumes "0 < y" "0 \<le> x" "x \<le> y"
  shows "js_le (Num 0) (stableScore (Num x) (Num y)) \<and> js_le (stableScore (Num x) (Num y)) (Num 1)"
proof -
  have half: "\<lfloor>1 / 2 :: rat\<rfloor> = 0" by (rule floor_unique) simp_all
  have big: "\<lfloor>2000001 / 2 :: rat\<rfloor> = 1000000" by (rule floor_unique) simp_all
  have "js_le (Num 0) (round_double (x / y))" "js_le (round_double (x / y)) (Num 1)"
    using assms round_double_mono [of 0 "x / y"] round_double_mono [of "x / y" 1] by simp_all
  then have "js_le (js_div (Num 0) (Num 1)) (js_div (Num x) (Num y))"
      "js_le (js_div (Num x) (Num y)) (js_div (Num 1) (Num 1))" using assms by simp_all
  then have "js_le (stableScore (Num 0) (Num y)) (stableScore (Num x) (Num y))"
      "js_le (stableScore (Num x) (Num y)) (stableScore (Num y) (Num y))"
    using assms by (intro stableScore_mono; simp)+
  moreover have "stableScore (Num 0) (Num y) = Num 0" using assms half by (simp add: stableScore_def)
  moreover have "stableScore (Num y) (Num y) = Num 1" using assms big by (simp add: stableScore_def)
  ultimately show ?thesis by simp
qed

section \<open>Properties\<close>

text \<open>A check whose outcome is the same, or has turned from failed into passed.\<close>

definition improves :: "quality_check \<Rightarrow> quality_check \<Rightarrow> bool" where
  "improves c c' \<longleftrightarrow> c' = c \<or> qc_status c = Q_FAILED \<and> c' = c\<lparr>qc_status := Q_PASSED\<rparr>"

lemma improves_facts:
  "improves c c' \<Longrightarrow> qc_ruleId c' = qc_ruleId c" "improves c c' \<Longrightarrow> qc_weight c' = qc_weight c"
  "improves c c' \<Longrightarrow> qc_status c' = Q_SKIPPED \<longleftrightarrow> qc_status c = Q_SKIPPED"
  "improves c c' \<Longrightarrow> blocks c' \<Longrightarrow> blocks c"
  "improves c c' \<Longrightarrow> qc_status c = Q_PASSED \<Longrightarrow> qc_status c' = Q_PASSED"
  by (auto simp: improves_def blocks_def)

lemma improved_count: "list_all2 improves cs cs' \<Longrightarrow> count_applicable ids cs' = count_applicable ids cs"
  by (induction cs cs' arbitrary: ids rule: list_all2_induct) (simp_all add: improves_facts)

lemma improved_applicable: "list_all2 improves cs cs' \<Longrightarrow> applicable_sum a cs' = applicable_sum a cs"
  by (induction cs cs' arbitrary: a rule: list_all2_induct) (simp_all add: improves_facts)

lemma improved_blocks:
  "list_all2 improves cs cs' \<Longrightarrow> \<exists>c \<in> set cs'. blocks c \<Longrightarrow> \<exists>c \<in> set cs. blocks c"
  by (induction cs cs' rule: list_all2_induct) (auto dest: improves_facts)

lemma improved_passed:
  "list_all2 improves cs cs' \<Longrightarrow> weighty cs \<Longrightarrow> is_double q \<Longrightarrow> nonneg p \<Longrightarrow> nonneg q \<Longrightarrow> js_le p q \<Longrightarrow>
   js_le (passed_sum p cs) (passed_sum q cs')"
proof (induction cs cs' arbitrary: p q rule: list_all2_induct)
  case (Cons c cs c' cs')
  have up: "js_le p (js_add q (qc_weight c))" "js_le (js_add p (qc_weight c)) (js_add q (qc_weight c))"
      "nonneg (js_add p (qc_weight c))" "nonneg (js_add q (qc_weight c))"
    using Cons.prems by (auto intro: nonneg_add js_add_mono js_le_trans js_le_add)
  show ?case
  proof (cases "qc_status c' = Q_PASSED")
    case True
    with Cons up show ?thesis by (cases "qc_status c = Q_PASSED") (simp_all add: improves_facts)
  next
    case False
    then have "qc_status c \<noteq> Q_PASSED" using Cons.hyps(1) improves_facts(5) by blast
    with False Cons show ?thesis by simp
  qed
qed simp

lemma gate_sums:
  assumes "validateQualityGateInput i = Inr ()"
  defines "p \<equiv> passed_sum (Num 0) (qi_checks i)" and "a \<equiv> applicable_sum (Num 0) (qi_checks i)"
  shows "nonneg p \<and> nonneg a \<and> js_le p a"
  unfolding p_def a_def by (rule sums_ordered) (use validate_weighty [OF assms(1)] in \<open>simp_all add: is_double_def\<close>)

lemma minimum_positive:
  "validateQualityGateInput i = Inr () \<Longrightarrow> js_le (qi_minimumPassingScore i) s \<Longrightarrow> js_lt (Num 0) s"
  by (cases "qi_minimumPassingScore i"; cases s) (auto simp: validateQualityGateInput_def split: if_splits)

text \<open>
  The quality gate is monotone: when it passes, it still passes after failed checks have
  turned into passed ones, with a score that is not lower, despite the roundings of the sums and of
  the quotient.
\<close>

theorem quality_gate_monotone:
  assumes "evaluateQualityGate i = Inr d" and "qd_passed d" and "list_all2 improves (qi_checks i) cs"
  shows "\<exists>d'. evaluateQualityGate (i\<lparr>qi_checks := cs\<rparr>) = Inr d' \<and> qd_passed d' \<and> js_le (qd_score d) (qd_score d')"
proof -
  let ?p = "passed_sum (Num 0) (qi_checks i)" and ?a = "applicable_sum (Num 0) (qi_checks i)"
    and ?q = "passed_sum (Num 0) cs" and ?i = "i\<lparr>qi_checks := cs\<rparr>"
  have v: "validateQualityGateInput i = Inr ()" and s: "qd_score d = stableScore ?p ?a"
    and pass: "js_le (qi_minimumPassingScore i) (stableScore ?p ?a)" "\<not> (\<exists>c \<in> set (qi_checks i). blocks c)"
    using assms(1,2) by (auto simp: evaluateQualityGate_Inr Let_def)
  have v': "validateQualityGateInput ?i = Inr ()"
    using v improved_count [OF assms(3)] by (simp add: validateQualityGateInput_def)
  have a': "applicable_sum (Num 0) cs = ?a" by (rule improved_applicable [OF assms(3)])
  have pq: "js_le ?p ?q"
    by (rule improved_passed [OF assms(3) validate_weighty [OF v]]) (simp_all add: is_double_def)
  obtain x y where n: "?p = Num x" "?a = Num y" "0 < y" "0 \<le> x" "x \<le> y"
    using positive_score [of ?p ?a] gate_sums [OF v] minimum_positive [OF v pass(1)] by metis
  have q: "js_le ?q (Num y)" using gate_sums [OF v'] a' n(2) by simp
  obtain z where z: "?q = Num z" "x \<le> z" using pq q n(1) by (cases ?q) auto
  have "js_le (stableScore ?p ?a) (stableScore ?q ?a)" unfolding n(2)
    by (rule stableScore_mono) (use n z round_double_mono [of "x / y" "z / y"] in \<open>simp add: divide_right_mono\<close>)
  with v' a' pass s improved_blocks [OF assms(3)] show ?thesis
    by (auto simp: evaluateQualityGate_Inr Let_def intro: js_le_trans)
qed

definition demo_gate :: quality_input where
  "demo_gate = \<lparr>qi_checks =
     [\<lparr>qc_ruleId = ''schema'', qc_status = Q_PASSED, qc_weight = Num 1, qc_blocking = Some True\<rparr>,
      \<lparr>qc_ruleId = ''freshness'', qc_status = Q_FAILED, qc_weight = Num 1, qc_blocking = None\<rparr>],
    qi_minimumPassingScore = Num (1 / 2)\<rparr>"

lemma half_is_double: "round_double (1 / 2) = Num (1 / 2)"
  by (rule round_double_exact) (auto intro: representableI [of _ 1 "- 1"] simp: power_int_minus)

lemma demo_gate_passes: "\<exists>d. evaluateQualityGate demo_gate = Inr d \<and> qd_passed d"
proof -
  have "\<lfloor>1000001 / 2 :: rat\<rfloor> = 500000" by (rule floor_unique) simp_all
  then have "stableScore (Num 1) (Num 2) = Num (1 / 2)" by (simp add: stableScore_def half_is_double)
  then show ?thesis
    by (simp add: evaluateQualityGate_Inr Let_def demo_gate_def validateQualityGateInput_def js_trim_def
        is_js_space_def blocks_def)
qed

lemma quality_gate_monotone_witness:
  "\<exists>d. evaluateQualityGate (demo_gate\<lparr>qi_checks := map (qc_status_update (\<lambda>_. Q_PASSED)) (qi_checks demo_gate)\<rparr>) = Inr d
    \<and> qd_passed d"
proof -
  have "list_all2 improves (qi_checks demo_gate) (map (qc_status_update (\<lambda>_. Q_PASSED)) (qi_checks demo_gate))"
    by (simp add: demo_gate_def improves_def)
  then show ?thesis using demo_gate_passes quality_gate_monotone [of demo_gate] by blast
qed

text \<open>
  A decision means what it says: the score is between 0 and 1, or not a number; the
  gate passes exactly when the score reaches the minimum and every blocking check has passed; the
  failed rules are those of the failed checks, and a failed blocking check is reported as blocking.
\<close>

theorem quality_decision_meaning:
  assumes "evaluateQualityGate i = Inr d"
  shows "(qd_score d = NaN \<or> js_le (Num 0) (qd_score d) \<and> js_le (qd_score d) (Num 1))
    \<and> (qd_passed d \<longleftrightarrow> js_le (qi_minimumPassingScore i) (qd_score d)
         \<and> (\<forall>c \<in> set (qi_checks i). qc_blocking c = Some True \<longrightarrow> qc_status c = Q_PASSED))
    \<and> set (qd_failedRuleIds d) = qc_ruleId ` {c \<in> set (qi_checks i). qc_status c = Q_FAILED}
    \<and> set (qd_blockingRuleIds d) = qc_ruleId ` {c \<in> set (qi_checks i). blocks c}"
proof -
  let ?p = "passed_sum (Num 0) (qi_checks i)" and ?a = "applicable_sum (Num 0) (qi_checks i)"
  have v: "validateQualityGateInput i = Inr ()" using assms by (simp add: evaluateQualityGate_Inr)
  have "stableScore ?p ?a = NaN \<or> js_le (Num 0) (stableScore ?p ?a) \<and> js_le (stableScore ?p ?a) (Num 1)"
  proof (cases "js_lt (Num 0) (stableScore ?p ?a)")
    case True
    then obtain x y where "?p = Num x" "?a = Num y" "0 < y" "0 \<le> x" "x \<le> y"
      using positive_score [of ?p ?a] gate_sums [OF v] by metis
    then show ?thesis using stableScore_bounds by simp
  next
    case False
    have "nonneg_or_NaN (stableScore ?p ?a)" using gate_sums [OF v] stableScore_sign by blast
    with False show ?thesis by (cases "stableScore ?p ?a") (auto simp: nonneg_or_NaN_def)
  qed
  then show ?thesis using assms by (auto simp: evaluateQualityGate_Inr Let_def blocks_def)
qed

lemma quality_decision_meaning_witness:
  "\<exists>d. evaluateQualityGate demo_gate = Inr d \<and> qd_passed d
    \<and> (\<forall>c \<in> set (qi_checks demo_gate). qc_blocking c = Some True \<longrightarrow> qc_status c = Q_PASSED)"
  using demo_gate_passes quality_decision_meaning [of demo_gate] by blast

text \<open>
  The weights are only required to be finite one by one. When their sum overflows, the score of a
  gate where every check has passed is not a number, and the gate refuses.
\<close>

definition heavy_gate :: quality_input where
  "heavy_gate = \<lparr>qi_checks =
     [\<lparr>qc_ruleId = ''a'', qc_status = Q_PASSED, qc_weight = Num (2 ^ 1023), qc_blocking = None\<rparr>,
      \<lparr>qc_ruleId = ''b'', qc_status = Q_PASSED, qc_weight = Num (2 ^ 1023), qc_blocking = None\<rparr>],
    qi_minimumPassingScore = Num 1\<rparr>"

lemma overflowing_weights_refuse:
  "\<exists>d. evaluateQualityGate heavy_gate = Inr d \<and> qd_score d = NaN \<and> \<not> qd_passed d"
proof -
  have r: "round_rat (2 ^ k) = 2 ^ k" for k
    by (rule round_rat_exact) (rule representableI [of _ 1 "int k"]; simp)
  have one: "round_double (2 ^ 1023) = Num (2 ^ 1023)"
    unfolding round_double_def Let_def r by simp
  have two: "round_double (2 ^ 1024) = PosInf"
    unfolding round_double_def Let_def r by simp
  have v: "validateQualityGateInput heavy_gate = Inr ()"
    by (simp add: heavy_gate_def validateQualityGateInput_def js_trim_def is_js_space_def)
  have "passed_sum (Num 0) (qi_checks heavy_gate) = PosInf"
      "applicable_sum (Num 0) (qi_checks heavy_gate) = PosInf"
    using one two by (simp_all add: heavy_gate_def)
  then show ?thesis using v by (simp add: evaluateQualityGate_Inr Let_def stableScore_def)
qed

end
