(* ===== verification/Decimals.thy ===== *)
theory Decimals
  imports NumberText
begin

text \<open>
  The exact decimals of \<open>packages/data-core/src/reconciliation.ts\<close>: a coefficient of arbitrary size
  (\<open>bigint\<close>, here \<open>int\<close>) with a number of decimal places. \<open>decimal\<close> reads one from a cell,
  \<open>decimalText\<close> writes it in one canonical form, \<open>convert\<close> applies a linear unit conversion.
  The meaning of a decimal is a rational number; all three operations are exact on it.
\<close>

section \<open>Cells\<close>

text \<open>
  A cell of a record has the type \<open>unknown\<close>. What the code distinguishes: strings, numbers, and
  everything else; an absent field and one that is explicitly \<open>undefined\<close> are both \<open>None\<close>.
\<close>

datatype cell = Cell_string string | Cell_number js_number | Cell_other

text \<open>\<open>String(value)\<close> where the code reaches it: a string, or a number that is finite and, if integral,
  safe.\<close>

definition js_is_safe_integer :: "js_number \<Rightarrow> bool" where
  "js_is_safe_integer a \<longleftrightarrow> js_is_integer a \<and> js_le (js_abs a) (Num (2 ^ 53 - 1))"

definition cell_text :: "cell option \<Rightarrow> string option" where
  "cell_text v =
     (case v of
        Some (Cell_string s) \<Rightarrow> Some s
      | Some (Cell_number a) \<Rightarrow>
          (if \<not> js_is_finite a \<or> js_is_integer a \<and> \<not> js_is_safe_integer a then None
           else case a of Num x \<Rightarrow> Some (number_text x) | _ \<Rightarrow> None)
      | _ \<Rightarrow> None)"

section \<open>Reading and writing\<close>

record dec =
  dec_coefficient :: int
  dec_scale :: nat

text \<open>The groups of the pattern: the sign, the digits before and after the point, the exponent.\<close>

definition take_sign :: "string \<Rightarrow> string \<times> string" where
  "take_sign s = (case s of c # t \<Rightarrow> if c = CHR ''+'' \<or> c = CHR ''-'' then ([c], t) else ([], s) | [] \<Rightarrow> ([], []))"

definition match_exponent :: "string \<Rightarrow> (string \<times> string) option option" where
  "match_exponent s =
     (case s of
        [] \<Rightarrow> Some None
      | c # t \<Rightarrow>
          if c = CHR ''e'' \<or> c = CHR ''E'' then
            (let (sign, ds) = take_sign t
             in if list_all is_digit ds \<and> 1 \<le> length ds \<and> length ds \<le> 3 then Some (Some (sign, ds)) else None)
          else None)"

definition match_decimal :: "string \<Rightarrow> (string \<times> string \<times> string \<times> (string \<times> string) option) option" where
  "match_decimal s =
     (let (sign, t) = take_sign s;
          whole = takeWhile is_digit t;
          u = dropWhile is_digit t;
          (fraction, v) = (case u of c # w \<Rightarrow> if c = CHR ''.'' then (takeWhile is_digit w, dropWhile is_digit w)
                                              else ([], u) | [] \<Rightarrow> ([], []))
      in if whole = [] \<and> fraction = [] then None
         else case match_exponent v of None \<Rightarrow> None | Some e \<Rightarrow> Some (sign, whole, fraction, e))"

definition signed_value :: "string \<times> string \<Rightarrow> int" where
  "signed_value sd = (if fst sd = ''-'' then - digits_value (snd sd) else digits_value (snd sd))"

definition decimal :: "cell option \<Rightarrow> dec option" where
  "decimal v =
     (case cell_text v of
        None \<Rightarrow> None
      | Some text \<Rightarrow>
          if length text > 128 then None
          else case match_decimal text of
            None \<Rightarrow> None
          | Some (sign, whole, fraction, e) \<Rightarrow>
              let exponent = (case e of None \<Rightarrow> 0 | Some sd \<Rightarrow> signed_value sd) in
              if \<bar>exponent\<bar> > 100 then None
              else
                let coefficient = signed_value (sign, (if whole = [] then ''0'' else whole) @ fraction);
                    scale = int (length fraction) - exponent
                in if scale < 0 then Some \<lparr>dec_coefficient = coefficient * 10 ^ nat (- scale), dec_scale = 0\<rparr>
                   else Some \<lparr>dec_coefficient = coefficient, dec_scale = nat scale\<rparr>)"

text \<open>The loop that drops trailing zeros; \<open>/\<close> and \<open>%\<close> of \<open>bigint\<close> truncate, which agrees on multiples
  of ten.\<close>

fun strip_zeros :: "int \<Rightarrow> nat \<Rightarrow> int \<times> nat" where
  "strip_zeros c 0 = (c, 0)"
| "strip_zeros c (Suc n) = (if c mod 10 = 0 then strip_zeros (c div 10) n else (c, Suc n))"

definition pad_start :: "nat \<Rightarrow> string \<Rightarrow> string" where
  "pad_start n s = replicate (n - length s) CHR ''0'' @ s"

definition decimalText :: "dec \<Rightarrow> string" where
  "decimalText d =
     (if dec_coefficient d = 0 then ''0''
      else
        let (coefficient, scale) = strip_zeros (dec_coefficient d) (dec_scale d);
            sign = (if coefficient < 0 then ''-'' else []);
            digits = pad_start (scale + 1) (nat_text (nat \<bar>coefficient\<bar>))
        in sign @ (if scale \<noteq> 0
                   then take (length digits - scale) digits @ ''.'' @ drop (length digits - scale) digits
                   else digits))"

definition convert :: "dec \<Rightarrow> dec \<Rightarrow> dec \<Rightarrow> dec" where
  "convert v factor off =
     (let scale = max (dec_scale v + dec_scale factor) (dec_scale off)
      in \<lparr>dec_coefficient =
            dec_coefficient v * dec_coefficient factor * 10 ^ (scale - dec_scale v - dec_scale factor)
              + dec_coefficient off * 10 ^ (scale - dec_scale off),
          dec_scale = scale\<rparr>)"

section \<open>Meaning\<close>

definition dec_value :: "dec \<Rightarrow> rat" where
  "dec_value d = of_int (dec_coefficient d) / 10 ^ dec_scale d"

text \<open>The canonical decimal of a value: no trailing zero after the point.\<close>

definition reduced :: "int \<Rightarrow> nat \<Rightarrow> bool" where
  "reduced c n \<longleftrightarrow> n = 0 \<or> c mod 10 \<noteq> 0"

lemma convert_exact: "dec_value (convert v factor off) = dec_value v * dec_value factor + dec_value off"
proof -
  define s where "s = max (dec_scale v + dec_scale factor) (dec_scale off)"
  have a: "s = (s - dec_scale v - dec_scale factor) + (dec_scale v + dec_scale factor)"
    and b: "s = (s - dec_scale off) + dec_scale off" by (simp_all add: s_def)
  have "x * 10 ^ (s - dec_scale v - dec_scale factor) / 10 ^ s = x / 10 ^ (dec_scale v + dec_scale factor)" for x :: rat
    by (subst (2) a) (simp add: power_add)
  moreover have "x * 10 ^ (s - dec_scale off) / 10 ^ s = x / 10 ^ dec_scale off" for x :: rat
    by (subst (2) b) (simp add: power_add)
  ultimately show ?thesis
    by (simp add: convert_def dec_value_def add_divide_distrib power_add flip: s_def)
qed

lemma strip_zeros_value:
  "strip_zeros c n = (c', n') \<Longrightarrow> of_int c' / 10 ^ n' = (of_int c / 10 ^ n :: rat) \<and> reduced c' n' \<and> n' \<le> n"
proof (induction c n rule: strip_zeros.induct)
  case (2 c n)
  show ?case
  proof (cases "c mod 10 = 0")
    case True
    then have "c = 10 * (c div 10)" by presburger
    then have "(of_int c :: rat) = 10 * of_int (c div 10)" by (metis of_int_mult of_int_numeral)
    with True 2 show ?thesis by auto
  qed (use 2 in \<open>auto simp: reduced_def\<close>)
qed (auto simp: reduced_def)

lemma reduced_unique:
  assumes "reduced c m" and "reduced d n" and "(of_int c / 10 ^ m :: rat) = of_int d / 10 ^ n"
  shows "c = d \<and> m = n"
proof -
  have le: False if c: "reduced c m" "(of_int c / 10 ^ m :: rat) = of_int d / 10 ^ n" "n < m" for c d m n
  proof -
    have m: "m = (m - n) + n" using c(3) by simp
    have "(of_int c :: rat) = of_int d * 10 ^ (m - n)"
      using c(2) by (subst (asm) m) (simp add: power_add field_simps)
    then have "(of_int c :: rat) = of_int (d * 10 ^ (m - n))" by simp
    then have "c = d * 10 ^ (m - n)" by (simp only: of_int_eq_iff)
    moreover obtain k where "m - n = Suc k" using c(3) by (metis Suc_diff_Suc)
    ultimately show False using c(1,3) by (simp add: reduced_def)
  qed
  have "m = n" using le [OF assms(1,3)] le [OF assms(2) assms(3) [symmetric]] by (meson linorder_neqE_nat)
  with assms(3) show ?thesis by simp
qed

section \<open>Round trip\<close>

definition canonical_dec :: "dec \<Rightarrow> int \<times> nat" where
  "canonical_dec d = strip_zeros (dec_coefficient d) (dec_scale d)"

lemma strip_zeros_zero [simp]: "strip_zeros 0 n = (0, 0)"
  by (induction n) simp_all

lemma canonical_dec_eq_iff: "canonical_dec d = canonical_dec e \<longleftrightarrow> dec_value d = dec_value e"
proof -
  obtain c m c' n where s: "canonical_dec d = (c, m)" "canonical_dec e = (c', n)" by fastforce
  have "of_int c / 10 ^ m = dec_value d" "reduced c m" "of_int c' / 10 ^ n = dec_value e" "reduced c' n"
    using strip_zeros_value [OF s(1) [unfolded canonical_dec_def]]
      strip_zeros_value [OF s(2) [unfolded canonical_dec_def]] by (simp_all add: dec_value_def)
  then show ?thesis using s reduced_unique [of c m c' n] by fastforce
qed

text \<open>The three parts that \<open>decimalText\<close> writes.\<close>

definition layout_digits :: "int \<Rightarrow> nat \<Rightarrow> string" where
  "layout_digits c n = pad_start (n + 1) (nat_text (nat \<bar>c\<bar>))"

definition layout_whole :: "int \<Rightarrow> nat \<Rightarrow> string" where
  "layout_whole c n = take (length (layout_digits c n) - n) (layout_digits c n)"

definition layout_fraction :: "int \<Rightarrow> nat \<Rightarrow> string" where
  "layout_fraction c n = drop (length (layout_digits c n) - n) (layout_digits c n)"

definition layout_sign :: "int \<Rightarrow> string" where
  "layout_sign c = (if c < 0 then ''-'' else [])"

lemma is_digit_zero [simp]: "is_digit CHR ''0''"
  by (simp add: is_digit_def)

lemma layout_digits_facts:
  "list_all is_digit (layout_digits c n)" "n < length (layout_digits c n)" "digits_value (layout_digits c n) = \<bar>c\<bar>"
  using nat_text_digits [of "nat \<bar>c\<bar>"]
  by (auto simp: layout_digits_def pad_start_def list_all_iff digits_value_zeros_left nat_text_value)

lemma layout_parts:
  "layout_whole c n @ layout_fraction c n = layout_digits c n"
  "layout_whole c n \<noteq> []" "length (layout_fraction c n) = n"
  "list_all is_digit (layout_whole c n)" "list_all is_digit (layout_fraction c n)"
  using layout_digits_facts(1) [of c n] layout_digits_facts(2) [of n c]
  by (auto simp: layout_whole_def layout_fraction_def list_all_iff dest: in_set_takeD in_set_dropD)

lemma decimalText_layout:
  assumes "canonical_dec d = (c, n)"
  shows "decimalText d = layout_sign c @ layout_whole c n @ (if n = 0 then [] else ''.'' @ layout_fraction c n)"
proof (cases "dec_coefficient d = 0")
  case True
  then have "c = 0" "n = 0" using assms by (simp_all add: canonical_dec_def)
  moreover have "nat_text 0 = ''0''" by (simp add: nat_text.simps [of 0]) code_simp
  ultimately show ?thesis using True
    by (simp add: decimalText_def layout_sign_def layout_whole_def layout_digits_def pad_start_def)
next
  case False
  have s: "strip_zeros (dec_coefficient d) (dec_scale d) = (c, n)" using assms by (simp add: canonical_dec_def)
  show ?thesis
    using False layout_parts(1) [of c 0]
    unfolding decimalText_def s layout_whole_def layout_fraction_def layout_sign_def layout_digits_def Let_def
    by simp
qed

lemma digits_no_sign: "list_all is_digit s \<Longrightarrow> s \<noteq> [] \<Longrightarrow> take_sign (s @ t) = ([], s @ t)"
  by (cases s) (auto simp: take_sign_def is_digit_def)

lemma match_layout:
  "match_decimal (layout_sign c @ layout_whole c n @ (if n = 0 then [] else ''.'' @ layout_fraction c n))
     = Some (layout_sign c, layout_whole c n, layout_fraction c n, None)"
proof -
  let ?w = "layout_whole c n" and ?f = "layout_fraction c n"
  let ?t = "?w @ (if n = 0 then [] else ''.'' @ ?f)"
  note p = layout_parts(2-5) [of c n]
  have sign: "take_sign (layout_sign c @ ?t) = (layout_sign c, ?t)"
    using digits_no_sign [OF p(3,1)] by (simp add: layout_sign_def) (simp add: take_sign_def)
  have whole: "takeWhile is_digit ?t = ?w" "dropWhile is_digit ?t = (if n = 0 then [] else ''.'' @ ?f)"
    using takeWhile_digits [OF p(3), of "CHR ''.''" ?f] takeWhile_digits_all [OF p(3)] by simp_all
  have frac: "takeWhile is_digit ?f = ?f" "dropWhile is_digit ?f = []" using takeWhile_digits_all [OF p(4)] by simp_all
  show ?thesis
    using p(1,2) unfolding match_decimal_def sign Let_def prod.case whole
    by (cases "n = 0") (simp_all add: frac match_exponent_def)
qed

lemma decimalText_inj: "decimalText d = decimalText e \<longleftrightarrow> dec_value d = dec_value e"
proof -
  obtain c m c' n where s: "canonical_dec d = (c, m)" "canonical_dec e = (c', n)" by fastforce
  have "c = c' \<and> m = n" if "decimalText d = decimalText e"
  proof -
    have "layout_sign c = layout_sign c' \<and> layout_whole c m = layout_whole c' n \<and> layout_fraction c m = layout_fraction c' n"
      using that match_layout [of c m] match_layout [of c' n] by (simp add: decimalText_layout [OF s(1)] decimalText_layout [OF s(2)])
    then have sign: "c < 0 \<longleftrightarrow> c' < 0" and digits: "layout_digits c m = layout_digits c' n" and "m = n"
      using layout_parts(1) [of c m] layout_parts(1) [of c' n] layout_parts(3) [of c m] layout_parts(3) [of c' n]
      by (auto simp: layout_sign_def split: if_splits)
    moreover have "\<bar>c\<bar> = \<bar>c'\<bar>" using digits layout_digits_facts(3) [of c m] layout_digits_facts(3) [of c' n] by simp
    ultimately show ?thesis by linarith
  qed
  then have "decimalText d = decimalText e \<longleftrightarrow> canonical_dec d = canonical_dec e"
    using s decimalText_layout by fastforce
  then show ?thesis by (simp add: canonical_dec_eq_iff)
qed

lemma decimal_of_text:
  assumes "length (decimalText d) \<le> 128"
  shows "\<exists>e. decimal (Some (Cell_string (decimalText d))) = Some e \<and> dec_value e = dec_value d"
proof -
  obtain c n where s: "canonical_dec d = (c, n)" by fastforce
  have v: "signed_value (layout_sign c, layout_whole c n @ layout_fraction c n) = c"
    using layout_digits_facts(3) [of c n] layout_parts(1) [of c n] by (auto simp: signed_value_def layout_sign_def)
  have "decimal (Some (Cell_string (decimalText d))) = Some \<lparr>dec_coefficient = c, dec_scale = n\<rparr>"
    using assms match_layout [of c n] v layout_parts(2,3) [of c n]
    by (simp add: decimal_def cell_text_def decimalText_layout [OF s] Let_def)
  moreover have "of_int c / 10 ^ n = dec_value d"
    using strip_zeros_value [OF s [unfolded canonical_dec_def]] by (simp add: dec_value_def)
  ultimately show ?thesis by (simp add: dec_value_def)
qed

text \<open>
  Property C39. Decimals are exact and their text is canonical: a unit conversion computes value times factor
  plus offset without rounding, two decimals are written alike exactly when they are equal numbers,
  and the text, when it is within the accepted length, reads back as the same number.
\<close>

theorem decimal_text_canonical:
  "dec_value (convert v factor off) = dec_value v * dec_value factor + dec_value off
   \<and> (decimalText d = decimalText e \<longleftrightarrow> dec_value d = dec_value e)
   \<and> (length (decimalText d) \<le> 128 \<longrightarrow>
        (\<exists>b. decimal (Some (Cell_string (decimalText d))) = Some b \<and> dec_value b = dec_value d))"
  using convert_exact decimalText_inj decimal_of_text by blast

lemma decimal_text_canonical_witness:
  "\<exists>b. decimal (Some (Cell_string (decimalText \<lparr>dec_coefficient = - 50, dec_scale = 2\<rparr>))) = Some b
     \<and> dec_value b = - (1 / 2)"
proof -
  have "length (decimalText \<lparr>dec_coefficient = - 50, dec_scale = 2\<rparr>) \<le> 128"
    by (simp add: decimalText_def numeral_2_eq_2 pad_start_def nat_text.simps [of 5])
  then show ?thesis
    using decimal_text_canonical [of _ _ _ "\<lparr>dec_coefficient = - 50, dec_scale = 2\<rparr>"] by (simp add: dec_value_def)
qed

end
