(* ===== verification/Instants.thy ===== *)
theory Instants
  imports NumberText
begin

text \<open>
  \<open>instant\<close> of \<open>packages/data-core/src/reconciliation.ts\<close>: a time key in microseconds since the start
  of the year 1, computed with calendar arithmetic of its own and an integer of arbitrary size. It is
  related to \<open>toEpoch\<close> of the exercise core, which relies on the host's \<open>Date.parse\<close>: on the
  timestamps that both read, they denote the same moment.
\<close>

section \<open>Reading\<close>

text \<open>The optional group of one to six digits after the point.\<close>

definition take_micros :: "string \<Rightarrow> (string option \<times> string) option" where
  "take_micros s =
     (case take_char (CHR ''.'') s of
        None \<Rightarrow> Some (None, s)
      | Some t \<Rightarrow>
          (let ds = takeWhile is_digit t
           in if ds = [] \<or> 6 < length ds then None else Some (Some ds, drop (length ds) t)))"

definition instant_match :: "string \<Rightarrow> iso_fields option" where
  "instant_match s =
     do { (y, s) \<leftarrow> take_digits 4 s; s \<leftarrow> take_char (CHR ''-'') s;
          (mo, s) \<leftarrow> take_digits 2 s; s \<leftarrow> take_char (CHR ''-'') s;
          (d, s) \<leftarrow> take_digits 2 s; s \<leftarrow> take_char (CHR ''T'') s;
          (h, s) \<leftarrow> take_digits 2 s; s \<leftarrow> take_char (CHR '':'') s;
          (mi, s) \<leftarrow> take_digits 2 s; s \<leftarrow> take_char (CHR '':'') s;
          (sec, s) \<leftarrow> take_digits 2 s;
          (fr, s) \<leftarrow> take_micros s;
          off \<leftarrow> take_offset s;
          Some \<lparr>iso_year = y, iso_month = mo, iso_day = d, iso_hour = h, iso_minute = mi,
                iso_second = Some sec, iso_fraction = fr, iso_offset = off\<rparr> }"

text \<open>The table of the months, as the code builds it.\<close>

definition month_lengths :: "int \<Rightarrow> int list" where
  "month_lengths year =
     (let leap = year mod 4 = 0 \<and> (year mod 100 \<noteq> 0 \<or> year mod 400 = 0)
      in [31, if leap then 29 else 28, 31, 30, 31, 30, 31, 31, 30, 31, 30, 31])"

definition instant_valid :: "iso_fields \<Rightarrow> bool" where
  "instant_valid f =
     (let year = digits_value (iso_year f); month = digits_value (iso_month f);
          day = digits_value (iso_day f)
      in \<not> (year < 1 \<or> month < 1 \<or> month > 12 \<or> day < 1 \<or> day > month_lengths year ! nat (month - 1)
        \<or> digits_value (iso_hour f) > 23 \<or> digits_value (iso_minute f) > 59 \<or> second_value f > 59))"

text \<open>The offset in minutes, or nothing when it is out of range.\<close>

definition instant_offset :: "iso_fields \<Rightarrow> int option" where
  "instant_offset f =
     (if iso_offset f = ''Z'' then Some 0
      else
        let h = offset_hour f; mi = offset_minute f
        in if h > 14 \<or> mi > 59 \<or> h = 14 \<and> mi \<noteq> 0 then None
           else Some ((h * 60 + mi) * (if take 1 (iso_offset f) = ''-'' then - 1 else 1)))"

definition instant_days :: "int \<Rightarrow> int \<Rightarrow> int \<Rightarrow> int" where
  "instant_days year month day =
     (let y = year - 1
      in y * 365 + y div 4 - y div 100 + y div 400 + sum_list (take (nat (month - 1)) (month_lengths year)) + day - 1)"

definition fraction_micros :: "string option \<Rightarrow> int" where
  "fraction_micros f = (case f of None \<Rightarrow> 0 | Some ds \<Rightarrow> digits_value (ds @ replicate (6 - length ds) CHR ''0''))"

definition int_text :: "int \<Rightarrow> string" where
  "int_text n = (if n < 0 then ''-'' else []) @ nat_text (nat \<bar>n\<bar>)"

definition instant_micros :: "iso_fields \<Rightarrow> int \<Rightarrow> int" where
  "instant_micros f off =
     (instant_days (digits_value (iso_year f)) (digits_value (iso_month f)) (digits_value (iso_day f)) * 86400
        + digits_value (iso_hour f) * 3600 + digits_value (iso_minute f) * 60 + second_value f - off * 60) * 1000000
     + fraction_micros (iso_fraction f)"

definition instant :: "string \<Rightarrow> string option" where
  "instant s =
     (case instant_match s of
        None \<Rightarrow> None
      | Some f \<Rightarrow>
          if \<not> instant_valid f then None
          else case instant_offset f of None \<Rightarrow> None | Some off \<Rightarrow> Some (int_text (instant_micros f off)))"

section \<open>Agreement with the clock of the exercise core\<close>

lemma int_text_inj: "int_text m = int_text n \<longleftrightarrow> m = n"
proof
  have head: "hd (nat_text k) \<noteq> CHR ''-''" for k
    using nat_text_digits [of k] nat_text_not_Nil [of k] by (cases "nat_text k") (auto simp: is_digit_def)
  assume eq: "int_text m = int_text n"
  have "m < 0 \<longleftrightarrow> n < 0"
    using eq head [of "nat \<bar>m\<bar>"] head [of "nat \<bar>n\<bar>"]
    by (cases "m < 0"; cases "n < 0") (auto simp: int_text_def dest: arg_cong [where f = hd])
  moreover from this have "nat_text (nat \<bar>m\<bar>) = nat_text (nat \<bar>n\<bar>)"
    using eq by (simp add: int_text_def split: if_splits)
  then have "nat \<bar>m\<bar> = nat \<bar>n\<bar>" by (rule nat_text_inj)
  ultimately show "m = n" by linarith
qed simp

lemma take_micros_fraction: "take_micros s = Some (fr, t) \<Longrightarrow> take_fraction s = (fr, t)"
  by (auto simp: take_micros_def take_fraction_def Let_def split: option.splits if_splits)

lemma take_micros_digits: "take_micros s = Some (Some ds, t) \<Longrightarrow> list_all is_digit ds \<and> ds \<noteq> [] \<and> length ds \<le> 6"
  by (auto simp: take_micros_def Let_def list_all_iff split: option.splits if_splits dest: set_takeWhileD)

lemma instant_match_iso: "instant_match s = Some f \<Longrightarrow> iso_match s = Some f"
proof -
  have seconds: "take_seconds v = (Some ds, fr, x)"
    if "take_char CHR '':'' v = Some t" "take_digits 2 t = Some (ds, u)" "take_micros u = Some (fr, x)" for v t ds u fr x
    using that take_micros_fraction [OF that(3)] by (simp add: take_seconds_def)
  assume "instant_match s = Some f"
  then obtain y s1 s2 mo s3 s4 d s5 s6 h s7 s8 mi s9 s10 sec s11 fr s12 off where
    m: "take_digits 4 s = Some (y, s1)" "take_char (CHR ''-'') s1 = Some s2" "take_digits 2 s2 = Some (mo, s3)"
      "take_char (CHR ''-'') s3 = Some s4" "take_digits 2 s4 = Some (d, s5)" "take_char (CHR ''T'') s5 = Some s6"
      "take_digits 2 s6 = Some (h, s7)" "take_char (CHR '':'') s7 = Some s8" "take_digits 2 s8 = Some (mi, s9)"
      "take_char (CHR '':'') s9 = Some s10" "take_digits 2 s10 = Some (sec, s11)" "take_micros s11 = Some (fr, s12)"
      "take_offset s12 = Some off"
    and f: "f = \<lparr>iso_year = y, iso_month = mo, iso_day = d, iso_hour = h, iso_minute = mi,
                iso_second = Some sec, iso_fraction = fr, iso_offset = off\<rparr>"
    unfolding instant_match_def by (auto simp: Option.bind_eq_Some_conv split: prod.splits)
  show "iso_match s = Some f" unfolding iso_match_def by (simp add: m f seconds [OF m(10-12)])
qed

lemma instant_match_fraction:
  "instant_match s = Some f \<Longrightarrow> iso_fraction f = Some ds \<Longrightarrow> list_all is_digit ds \<and> ds \<noteq> [] \<and> length ds \<le> 6"
  by (auto simp: instant_match_def Option.bind_eq_Some_conv dest!: take_micros_digits split: prod.splits)

lemma month_table:
  assumes "1 \<le> m" and "m \<le> 12"
  shows "month_lengths y ! nat (m - 1) = maximumDay y m
    \<and> sum_list (take (nat (m - 1)) (month_lengths y)) = days_before_month y m"
  using months_cases [OF assms] unfolding insert_iff empty_iff
  by (elim disjE FalseE; simp add: month_lengths_def maximumDay_def leapYear_def days_before_month_table Let_def)

lemma instant_days_epoch:
  assumes "1 \<le> m" and "m \<le> 12"
  shows "instant_days y m d = epoch_day y m d + 719162"
proof -
  have "(y - 1) div 4 = (y + 3) div 4 - 1" "(y - 1) div 100 = (y + 99) div 100 - 1"
      "(y - 1) div 400 = (y + 399) div 400 - 1"
    using div_add_self2 [of 4 "y - 1"] div_add_self2 [of 100 "y - 1"] div_add_self2 [of 400 "y - 1"] by (simp_all add: add.commute)
  then show ?thesis
    by (simp add: instant_days_def epoch_day_def days_before_year_def conjunct2 [OF month_table [OF assms]] Let_def)
qed

lemma digits_value_concat: "digits_value (a @ b) = digits_value a * 10 ^ length b + digits_value b"
proof (induction b rule: rev_induct)
  case (snoc c b)
  then show ?case using digits_value_snoc [of "a @ b" c] digits_value_snoc [of b c] by simp
qed (simp add: digits_value_def)

lemma micros_of_millis:
  assumes "list_all is_digit ds" and "ds \<noteq> []" and "length ds \<le> 6"
  shows "fraction_micros (Some ds) div 1000 = fraction_millis (Some ds)"
proof -
  let ?p = "ds @ replicate (6 - length ds) CHR ''0''"
  have digits: "list_all is_digit ?p" using assms(1) by (auto simp: list_all_iff is_digit_def)
  have len: "length ?p = 6" using assms(3) by simp
  have "take 3 ?p = take 3 (ds @ ''00'')"
    using assms(2,3) by (cases ds; cases "tl ds"; cases "tl (tl ds)") (auto simp: eval_nat_numeral)
  moreover have "digits_value ?p = digits_value (take 3 ?p) * 1000 + digits_value (drop 3 ?p)"
    using digits_value_concat [of "take 3 ?p" "drop 3 ?p"] len unfolding append_take_drop_id length_drop by simp
  moreover have "0 \<le> digits_value (drop 3 ?p)" "digits_value (drop 3 ?p) < 10 ^ length (drop 3 ?p)"
    by (rule digits_value_bounds; use digits in \<open>auto simp: list_all_iff dest: in_set_dropD\<close>)+
  ultimately show ?thesis using len by (simp add: fraction_micros_def fraction_millis_def del: take_append drop_append)
qed

lemma fraction_micros_bounds:
  assumes "instant_match s = Some f"
  shows "fraction_micros (iso_fraction f) div 1000 = fraction_millis (iso_fraction f)"
  using micros_of_millis instant_match_fraction [OF assms]
  by (cases "iso_fraction f") (auto simp: fraction_micros_def fraction_millis_def)

lemma instant_epoch:
  assumes "instant s = Some t"
  shows "\<exists>e sub. toEpoch s = Inr e \<and> 0 \<le> sub \<and> sub < 1000 \<and> t = int_text ((e + 62135596800000) * 1000 + sub)"
proof -
  obtain f off where f: "instant_match s = Some f" "instant_valid f" "instant_offset f = Some off"
    and t: "t = int_text (instant_micros f off)"
    using assms by (auto simp: instant_def split: option.splits if_splits)
  let ?y = "digits_value (iso_year f)" and ?mo = "digits_value (iso_month f)" and ?d = "digits_value (iso_day f)"
  have month: "1 \<le> ?mo" "?mo \<le> 12" using f(2) by (simp_all add: instant_valid_def Let_def)
  note days = instant_days_epoch [OF month, of ?y ?d]
  have offs: "off = offset_sign f * (offset_hour f * 60 + offset_minute f)" "offset_hour f \<le> 23" "offset_minute f \<le> 59"
    using f(3) by (auto simp: instant_offset_def offset_sign_def offset_hour_def offset_minute_def Let_def split: if_splits)
  then have valid: "fields_valid f"
    using f(2) conjunct1 [OF month_table [OF month]] by (simp add: instant_valid_def fields_valid_def Let_def)
  define e where "e = utc_millis ?y ?mo ?d (digits_value (iso_hour f)) (digits_value (iso_minute f)) (second_value f)
      (fraction_millis (iso_fraction f)) - off * 60000"
  have "toEpoch s = Inr e"
    using valid offs(1) by (simp add: toEpoch_def date_parse_iso_def instant_match_iso [OF f(1)] e_def)
  moreover have "instant_micros f off = (e + 62135596800000) * 1000 + fraction_micros (iso_fraction f) mod 1000"
  proof -
    have "fraction_micros (iso_fraction f)
        = fraction_millis (iso_fraction f) * 1000 + fraction_micros (iso_fraction f) mod 1000"
      using fraction_micros_bounds [OF f(1)] by (metis div_mult_mod_eq)
    then show ?thesis unfolding instant_micros_def e_def utc_millis_def days by (simp add: algebra_simps)
  qed
  ultimately show ?thesis using t by (intro exI [of _ e] exI [of _ "fraction_micros (iso_fraction f) mod 1000"]) simp
qed

text \<open>
  The two clocks of the program agree: every time key of the reconciliation is, up to the
  fixed distance of the two epochs and less than a millisecond, the moment the exercise core computes
  for the same timestamp; so timestamps with one key are one moment, whatever their offsets.
\<close>

theorem time_keys_agree_with_epoch:
  assumes "instant s = Some t"
  shows "\<exists>e sub. toEpoch s = Inr e \<and> 0 \<le> sub \<and> sub < 1000 \<and> t = int_text ((e + 62135596800000) * 1000 + sub)
    \<and> (\<forall>s'. instant s' = Some t \<longrightarrow> toEpoch s' = Inr e)"
proof -
  obtain e sub where e: "toEpoch s = Inr e" "0 \<le> sub" "sub < 1000" "t = int_text ((e + 62135596800000) * 1000 + sub)"
    using instant_epoch [OF assms] by blast
  moreover have "toEpoch s' = Inr e" if s': "instant s' = Some t" for s'
  proof -
    obtain e' sub' where e': "toEpoch s' = Inr e'" "0 \<le> sub'" "sub' < 1000"
        "t = int_text ((e' + 62135596800000) * 1000 + sub')"
      using instant_epoch [OF s'] by blast
    then have "(e + 62135596800000) * 1000 + sub = (e' + 62135596800000) * 1000 + sub'"
      using e(4) int_text_inj by metis
    moreover have "((e + 62135596800000) * 1000 + sub) div 1000 = e + 62135596800000"
        "((e' + 62135596800000) * 1000 + sub') div 1000 = e' + 62135596800000"
      using e(2,3) e'(2,3) by simp_all
    ultimately have "e = e'" by simp
    with e'(1) show ?thesis by simp
  qed
  ultimately show ?thesis by blast
qed

lemma time_keys_agree_with_epoch_witness:
  "\<exists>e sub. toEpoch ''2024-02-29T23:30:00.25-01:30'' = Inr e \<and> 0 \<le> sub \<and> sub < 1000
    \<and> instant ''2024-02-29T23:30:00.25-01:30'' = Some (int_text ((e + 62135596800000) * 1000 + sub))"
proof -
  have "case instant_match ''2024-02-29T23:30:00.25-01:30'' of None \<Rightarrow> False
      | Some f \<Rightarrow> instant_valid f \<and> instant_offset f \<noteq> None" by code_simp
  then have "instant ''2024-02-29T23:30:00.25-01:30'' \<noteq> None" by (auto simp: instant_def split: option.splits)
  then show ?thesis using time_keys_agree_with_epoch by blast
qed

end
