(* ===== verification/Reconciliation.thy ===== *)
theory Reconciliation
  imports CanonicalText Decimals Instants
begin

text \<open>
  \<open>reconcileObservations\<close> of \<open>packages/data-core/src/reconciliation.ts\<close>: the observations of two
  files are grouped by their key, measure and unit, and each group is classified. The groups are
  objects that the code reaches both through the list \<open>groups\<close> and through the map \<open>byKey\<close>; the
  model keeps the list and lets the map hold positions in it.

  Counters are natural numbers: the guard at the start keeps them below 50001. Unicode normalisation
  to NFC is the identity on the code units of the model.
\<close>

section \<open>Data\<close>

datatype side = Left_file | Right_file

record reconciliation_record =
  rr_recordId :: string
  rr_index :: js_number
  rr_values :: "string \<Rightarrow> cell option"

datatype binding = Bind_field string | Bind_literal string

record mapping =
  mp_valueField :: string
  mp_measure :: binding
  mp_unit :: binding

datatype key_type = Key_text | Key_decimal | Key_time

record plan_key =
  pk_leftField :: string
  pk_rightField :: string
  pk_type :: key_type
  pk_trim :: bool

record unit_conversion =
  uc_from :: string
  uc_to :: string
  uc_factor :: string
  uc_offset :: string

datatype conflict_policy = Preserve | Right_revises_left

record reconciliation_plan =
  rp_keys :: "plan_key list"
  rp_left :: mapping
  rp_right :: mapping
  rp_unitConversions :: "unit_conversion list"
  rp_conflictPolicy :: conflict_policy

datatype group_status = UNCHANGED | LEFT_ONLY | ADDED | REVISED | CONFLICT | INCOMPLETE

record group_member =
  gm_side :: side
  gm_recordId :: string
  gm_index :: js_number
  gm_value :: "string option"

record obs_group =
  og_groupIndex :: nat
  og_keys :: "string list"
  og_measure :: "string option"
  og_unit :: "string option"
  og_status :: group_status
  og_selectedRecordId :: "string option"
  og_value :: "string option"
  og_memberCount :: nat
  og_members :: "group_member list"

datatype file_relation = FORMAT_COPY_CANDIDATE | OVERLAP | REVISION | DISJOINT | UNRESOLVED

record reconciliation_summary =
  rs_parsedRecordCount :: nat
  rs_candidateObservationCount :: "nat option"
  rs_duplicateRecordCount :: nat
  rs_unchangedCount :: nat
  rs_leftOnlyCount :: nat
  rs_addedCount :: nat
  rs_revisedCount :: nat
  rs_conflictCount :: nat
  rs_incompleteRecordCount :: nat
  rs_relation :: file_relation

section \<open>Reading one record\<close>

definition cell_trimmed_text :: "cell option \<Rightarrow> bool \<Rightarrow> string option" where
  "cell_trimmed_text v trim =
     (case cell_text v of
        None \<Rightarrow> None
      | Some s \<Rightarrow>
          let result = (if trim then js_trim s else s)
          in if js_trim result \<noteq> [] \<and> length result \<le> 512 then Some result else None)"

definition binding_text :: "binding \<Rightarrow> reconciliation_record \<Rightarrow> string option" where
  "binding_text b r =
     (case b of
        Bind_literal l \<Rightarrow> cell_trimmed_text (Some (Cell_string l)) False
      | Bind_field f \<Rightarrow> cell_trimmed_text (rr_values r f) False)"

definition key_value :: "side \<Rightarrow> reconciliation_record \<Rightarrow> plan_key \<Rightarrow> string option" where
  "key_value side r key =
     (case cell_trimmed_text (rr_values r (if side = Left_file then pk_leftField key else pk_rightField key))
             (pk_trim key) of
        None \<Rightarrow> None
      | Some raw \<Rightarrow>
          (case pk_type key of
             Key_text \<Rightarrow> Some raw
           | Key_time \<Rightarrow> instant raw
           | Key_decimal \<Rightarrow> map_option decimalText (decimal (Some (Cell_string raw)))))"

text \<open>The unit and the value after the conversion of the unit, if there is one.\<close>

definition converted ::
  "reconciliation_plan \<Rightarrow> string option \<Rightarrow> dec option \<Rightarrow> (string option \<times> dec option) result" where
  "converted plan unit_text v =
     (case (find (\<lambda>c. Some (uc_from c) = unit_text) (rp_unitConversions plan), v) of
        (Some c, Some d) \<Rightarrow>
          (case (decimal (Some (Cell_string (uc_factor c))), decimal (Some (Cell_string (uc_offset c)))) of
             (Some factor, Some off) \<Rightarrow>
               if dec_coefficient factor \<le> 0 then fail ''INVALID_CONVERSION''
               else Inr (Some (uc_to c), Some (convert d factor off))
           | _ \<Rightarrow> fail ''INVALID_CONVERSION'')
      | _ \<Rightarrow> Inr (unit_text, v))"

record reading =
  rd_keys :: "string option list"
  rd_measure :: "string option"
  rd_unit :: "string option"
  rd_value :: "string option"
  rd_incomplete :: bool

definition read_record ::
  "reconciliation_plan \<Rightarrow> side \<Rightarrow> reconciliation_record \<Rightarrow> reading result" where
  "read_record plan side r =
     (let keys = map (key_value side r) (rp_keys plan);
          mapping = (if side = Left_file then rp_left plan else rp_right plan);
          measure = binding_text (mp_measure mapping) r
      in and_then
           (converted plan (binding_text (mp_unit mapping) r) (decimal (rr_values r (mp_valueField mapping))))
           (\<lambda>(unit_text, v).
             let normalized = map_option decimalText v
             in Inr \<lparr>rd_keys = keys, rd_measure = measure, rd_unit = unit_text, rd_value = normalized,
                     rd_incomplete = (None \<in> set keys \<or> measure = None \<or> unit_text = None \<or> normalized = None
                       \<or> rr_values r ''__kind'' \<noteq> None)\<rparr>))"

text \<open>\<open>JSON.stringify([keys, measure, unit])\<close> of a complete record.\<close>

definition json_array :: "string list \<Rightarrow> string" where
  "json_array ts = ''['' @ comma_join ts @ '']''"

definition reading_signature :: "reading \<Rightarrow> string option" where
  "reading_signature d =
     (if rd_incomplete d then None
      else Some (json_array [json_array (map (\<lambda>k. json_quote (the k)) (rd_keys d)),
                             json_quote (the (rd_measure d)), json_quote (the (rd_unit d))]))"

section \<open>Grouping\<close>

record grouping =
  gp_groups :: "obs_group list"
  gp_byKey :: "string \<Rightarrow> nat option"
  gp_incompleteRecordCount :: nat

definition new_group :: "nat \<Rightarrow> side \<Rightarrow> reading \<Rightarrow> obs_group" where
  "new_group n side d =
     \<lparr>og_groupIndex = n, og_keys = map (\<lambda>k. case k of None \<Rightarrow> [] | Some t \<Rightarrow> t) (rd_keys d),
      og_measure = rd_measure d, og_unit = rd_unit d,
      og_status = (if rd_incomplete d then INCOMPLETE else if side = Left_file then LEFT_ONLY else ADDED),
      og_selectedRecordId = None, og_value = None, og_memberCount = 0, og_members = []\<rparr>"

definition add_member :: "group_member \<Rightarrow> obs_group \<Rightarrow> obs_group" where
  "add_member m g = g\<lparr>og_members := og_members g @ [m], og_memberCount := og_memberCount g + 1\<rparr>"

definition member_of :: "side \<Rightarrow> reconciliation_record \<Rightarrow> reading \<Rightarrow> group_member" where
  "member_of side r d =
     \<lparr>gm_side = side, gm_recordId = rr_recordId r, gm_index = rr_index r, gm_value = rd_value d\<rparr>"

text \<open>The group of a reading: the known one of its signature, or a new one.\<close>

definition place_member :: "side \<Rightarrow> reading \<Rightarrow> group_member \<Rightarrow> grouping \<Rightarrow> grouping" where
  "place_member side d m st =
     (let signature = reading_signature d;
          known = (case signature of None \<Rightarrow> None | Some s \<Rightarrow> gp_byKey st s);
          i = (case known of None \<Rightarrow> length (gp_groups st) | Some j \<Rightarrow> j);
          groups = (case known of None \<Rightarrow> gp_groups st @ [new_group i side d] | Some _ \<Rightarrow> gp_groups st);
          byKey = (case (known, signature) of (None, Some s) \<Rightarrow> (gp_byKey st)(s \<mapsto> i) | _ \<Rightarrow> gp_byKey st)
      in \<lparr>gp_groups = groups[i := add_member m (groups ! i)], gp_byKey = byKey,
          gp_incompleteRecordCount = gp_incompleteRecordCount st + (if rd_incomplete d then 1 else 0)\<rparr>)"

fun group_records ::
  "reconciliation_plan \<Rightarrow> side \<Rightarrow> reconciliation_record list \<Rightarrow> grouping \<Rightarrow> grouping result" where
  "group_records plan side [] st = Inr st"
| "group_records plan side (r # rs) st =
     and_then (read_record plan side r) (\<lambda>d.
       group_records plan side rs (place_member side d (member_of side r d) st))"

section \<open>Classification\<close>

definition values_of :: "side \<Rightarrow> obs_group \<Rightarrow> string option list" where
  "values_of s g = js_set (map gm_value (filter (\<lambda>m. gm_side m = s) (og_members g)))"

definition classify_group :: "conflict_policy \<Rightarrow> obs_group \<Rightarrow> obs_group" where
  "classify_group policy g =
     (if og_status g = INCOMPLETE then g
      else
        let l = filter (\<lambda>m. gm_side m = Left_file) (og_members g);
            r = filter (\<lambda>m. gm_side m = Right_file) (og_members g);
            lv = values_of Left_file g; rv = values_of Right_file g;
            vals = js_set (map gm_value (og_members g));
            first = (\<lambda>ms. if ms = [] then None else Some (hd ms));
            (status, selected) =
              (if length vals = 1
               then (if l \<noteq> [] \<and> r \<noteq> [] then UNCHANGED else if l \<noteq> [] then LEFT_ONLY else ADDED,
                     if l \<noteq> [] then first l else first r)
               else if policy = Right_revises_left \<and> length lv = 1 \<and> length rv = 1 then (REVISED, first r)
               else (CONFLICT, None))
        in g\<lparr>og_status := status, og_selectedRecordId := map_option gm_recordId selected,
             og_value := Option.bind selected gm_value\<rparr>)"

definition duplicates_in :: "obs_group \<Rightarrow> nat" where
  "duplicates_in g =
     (if og_status g = INCOMPLETE then 0 else length (og_members g) - length (js_set (map gm_value (og_members g))))"

definition count_status :: "group_status \<Rightarrow> obs_group list \<Rightarrow> nat" where
  "count_status s gs = length (filter (\<lambda>g. og_status g = s) gs)"

definition relation_of :: "bool \<Rightarrow> nat \<Rightarrow> nat \<Rightarrow> nat \<Rightarrow> nat \<Rightarrow> file_relation" where
  "relation_of unresolved revised unchanged leftOnly added =
     (if unresolved then UNRESOLVED
      else if revised \<noteq> 0 then REVISION
      else if unchanged > 0 \<and> leftOnly = 0 \<and> added = 0 then FORMAT_COPY_CANDIDATE
      else if unchanged \<noteq> 0 then OVERLAP else DISJOINT)"

text \<open>The second half of the function: the groups are classified and counted.\<close>

definition summarise ::
  "conflict_policy \<Rightarrow> nat \<Rightarrow> obs_group list \<Rightarrow> nat \<Rightarrow> reconciliation_summary \<times> obs_group list" where
  "summarise policy parsed raw incomplete =
     (let groups = map (classify_group policy) raw;
          duplicateRecordCount = sum_list (map duplicates_in raw);
          unchangedCount = count_status UNCHANGED groups; leftOnlyCount = count_status LEFT_ONLY groups;
          addedCount = count_status ADDED groups; revisedCount = count_status REVISED groups;
          conflictCount = count_status CONFLICT groups;
          unresolved = (conflictCount > 0 \<or> incomplete > 0)
      in (\<lparr>rs_parsedRecordCount = parsed,
           rs_candidateObservationCount = (if unresolved then None else Some (length groups)),
           rs_duplicateRecordCount = duplicateRecordCount, rs_unchangedCount = unchangedCount,
           rs_leftOnlyCount = leftOnlyCount, rs_addedCount = addedCount, rs_revisedCount = revisedCount,
           rs_conflictCount = conflictCount, rs_incompleteRecordCount = incomplete,
           rs_relation = relation_of unresolved revisedCount unchangedCount leftOnlyCount addedCount\<rparr>,
          groups))"

definition reconcileObservations ::
  "reconciliation_plan \<Rightarrow> reconciliation_record list \<Rightarrow> reconciliation_record list \<Rightarrow>
   (reconciliation_summary \<times> obs_group list) result" where
  "reconcileObservations plan left right =
     (if length left + length right > 50000 then fail ''RECONCILIATION_LIMIT''
      else
        and_then (group_records plan Left_file left \<lparr>gp_groups = [], gp_byKey = Map.empty, gp_incompleteRecordCount = 0\<rparr>) (\<lambda>st.
        and_then (group_records plan Right_file right st) (\<lambda>st.
          Inr (summarise (rp_conflictPolicy plan) (length left + length right) (gp_groups st)
                 (gp_incompleteRecordCount st)))))"

section \<open>The grouping as a stable group-by\<close>

text \<open>
  What the loop has read: for every record its side, its reading and its member. A tag names the group of
  an entry: the signature of a complete one, the position of an incomplete one.
\<close>

record entry =
  en_side :: side
  en_reading :: reading
  en_member :: group_member

datatype tag = Sig string | Lone nat

definition tag_of :: "nat \<Rightarrow> entry \<Rightarrow> tag" where
  "tag_of k e = (case reading_signature (en_reading e) of Some s \<Rightarrow> Sig s | None \<Rightarrow> Lone k)"

fun tagged :: "nat \<Rightarrow> entry list \<Rightarrow> (tag \<times> entry) list" where
  "tagged k [] = []"
| "tagged k (e # es) = (tag_of k e, e) # tagged (Suc k) es"

definition slots :: "entry list \<Rightarrow> tag list" where
  "slots es = js_set (map fst (tagged 0 es))"

definition entries_of :: "entry list \<Rightarrow> tag \<Rightarrow> entry list" where
  "entries_of es t = map snd (filter (\<lambda>p. fst p = t) (tagged 0 es))"

text \<open>The group that collects some entries, before it is classified.\<close>

definition collected :: "nat \<Rightarrow> entry list \<Rightarrow> obs_group" where
  "collected j es = fold add_member (map en_member es) (new_group j (en_side (hd es)) (en_reading (hd es)))"

definition groups_model :: "entry list \<Rightarrow> grouping \<Rightarrow> bool" where
  "groups_model es st \<longleftrightarrow>
     length (gp_groups st) = length (slots es)
     \<and> (\<forall>j < length (slots es). gp_groups st ! j = collected j (entries_of es (slots es ! j)))
     \<and> (\<forall>s j. gp_byKey st s = Some j \<longleftrightarrow> j < length (slots es) \<and> slots es ! j = Sig s)
     \<and> gp_incompleteRecordCount st = length (filter (\<lambda>e. rd_incomplete (en_reading e)) es)"

lemma js_set_from_append:
  "js_set_from acc (xs @ [x]) = (if x \<in> set acc \<union> set xs then js_set_from acc xs else js_set_from acc xs @ [x])"
  by (induction xs arbitrary: acc) auto

lemma js_set_snoc: "js_set (xs @ [x]) = (if x \<in> set xs then js_set xs else js_set xs @ [x])"
  by (simp add: js_set_def js_set_from_append)

lemma tagged_append: "tagged k (es @ [e]) = tagged k es @ [(tag_of (k + length es) e, e)]"
  by (induction es arbitrary: k) simp_all

lemma slots_snoc:
  "slots (es @ [e]) = (if tag_of (length es) e \<in> set (slots es) then slots es else slots es @ [tag_of (length es) e])"
  by (simp add: slots_def tagged_append js_set_snoc)

lemma entries_snoc:
  "entries_of (es @ [e]) t = (if tag_of (length es) e = t then entries_of es t @ [e] else entries_of es t)"
  by (simp add: entries_of_def tagged_append)

lemma lone_tags: "Lone n \<in> set (map fst (tagged k es)) \<Longrightarrow> k \<le> n \<and> n < k + length es"
  by (induction es arbitrary: k) (fastforce simp: tag_of_def split: option.splits)+

lemma entries_not_Nil: "t \<in> set (slots es) \<longleftrightarrow> entries_of es t \<noteq> []"
  by (force simp: slots_def entries_of_def filter_empty_conv)

lemma slots_distinct: "distinct (slots es)"
  by (simp add: slots_def)

lemma collected_snoc: "es \<noteq> [] \<Longrightarrow> collected j (es @ [e]) = add_member (en_member e) (collected j es)"
  by (simp add: collected_def)

abbreviation place_entry :: "entry \<Rightarrow> grouping \<Rightarrow> grouping" where
  "place_entry e \<equiv> place_member (en_side e) (en_reading e) (en_member e)"

lemma tag_of_Sig: "tag_of k e = Sig s \<longleftrightarrow> reading_signature (en_reading e) = Some s"
  by (auto simp: tag_of_def split: option.splits)

lemma groups_modelD:
  assumes "groups_model es st"
  shows "length (gp_groups st) = length (slots es)"
    and "\<And>j. j < length (slots es) \<Longrightarrow> gp_groups st ! j = collected j (entries_of es (slots es ! j))"
    and "\<And>s j. gp_byKey st s = Some j \<longleftrightarrow> j < length (slots es) \<and> slots es ! j = Sig s"
    and "gp_incompleteRecordCount st = length (filter (\<lambda>e. rd_incomplete (en_reading e)) es)"
  using assms by (auto simp: groups_model_def)

text \<open>An entry whose tag is known joins its group.\<close>

lemma groups_model_known:
  assumes model: "groups_model es st" and known: "tag_of (length es) e \<in> set (slots es)"
  shows "groups_model (es @ [e]) (place_entry e st)"
proof -
  let ?t = "tag_of (length es) e"
  note len = groups_modelD(1) [OF model] and nth = groups_modelD(2) [OF model]
  obtain i where i: "i < length (slots es)" "slots es ! i = ?t" using known by (metis in_set_conv_nth)
  have "Lone (length es) \<notin> set (slots es)" using lone_tags [of "length es" 0 es] by (simp add: slots_def) blast
  then have "?t \<noteq> Lone (length es)" using known by metis
  then obtain s where s: "reading_signature (en_reading e) = Some s" "?t = Sig s"
    by (auto simp: tag_of_def split: option.splits)
  have byKey: "gp_byKey st s = Some i" using groups_modelD(3) [OF model] i s(2) by simp
  have slots': "slots (es @ [e]) = slots es" using known by (simp add: slots_snoc)
  have inc: "\<not> rd_incomplete (en_reading e)" using s(1) by (auto simp: reading_signature_def split: if_splits)
  have "(gp_groups st)[i := add_member (en_member e) (gp_groups st ! i)] ! j
      = collected j (entries_of (es @ [e]) (slots es ! j))" if j: "j < length (slots es)" for j
  proof (cases "j = i")
    case True
    then show ?thesis using i nth [OF i(1)] len known entries_not_Nil [of ?t es]
      by (simp add: entries_snoc collected_snoc)
  next
    case False
    then have "?t \<noteq> slots es ! j" using i j nth_eq_iff_index_eq [OF slots_distinct] by metis
    with False nth [OF j] show ?thesis by (simp add: entries_snoc)
  qed
  then show ?thesis
    using len groups_modelD(3,4) [OF model] inc unfolding groups_model_def slots'
    by (simp add: place_member_def s(1) byKey Let_def)
qed

text \<open>An entry with a new tag opens a group.\<close>

lemma groups_model_new:
  assumes model: "groups_model es st" and new: "tag_of (length es) e \<notin> set (slots es)"
  shows "groups_model (es @ [e]) (place_entry e st)"
proof -
  let ?t = "tag_of (length es) e" and ?n = "length (slots es)"
  note len = groups_modelD(1) [OF model] and nth = groups_modelD(2) [OF model] and key = groups_modelD(3) [OF model]
  have slots': "slots (es @ [e]) = slots es @ [?t]" using new by (simp add: slots_snoc)
  have none: "entries_of es ?t = []" using new entries_not_Nil by blast
  have absent: "gp_byKey st s = None" if "reading_signature (en_reading e) = Some s" for s
    using new key tag_of_Sig [of "length es" e s] that by (metis not_None_eq nth_mem)
  then have unknown: "(case reading_signature (en_reading e) of None \<Rightarrow> None | Some s \<Rightarrow> gp_byKey st s) = None"
    by (simp split: option.splits)
  have groups': "gp_groups (place_entry e st) = gp_groups st @ [collected ?n [e]]"
    using len by (simp add: place_member_def unknown Let_def collected_def list_update_append nth_append)
  have "(gp_groups st @ [collected ?n [e]]) ! j = collected j (entries_of (es @ [e]) ((slots es @ [?t]) ! j))"
    if j: "j < Suc ?n" for j
  proof (cases "j = ?n")
    case True
    then show ?thesis using len none by (simp add: nth_append entries_snoc)
  next
    case False
    then have j': "j < ?n" using j by simp
    then have "?t \<noteq> slots es ! j" using new by (metis nth_mem)
    then show ?thesis using len j' nth [OF j'] by (simp add: nth_append entries_snoc)
  qed
  moreover have "gp_byKey (place_entry e st) s = Some j \<longleftrightarrow> j < Suc ?n \<and> (slots es @ [?t]) ! j = Sig s" for s j
  proof -
    have "gp_byKey (place_entry e st) s
        = (if reading_signature (en_reading e) = Some s then Some ?n else gp_byKey st s)"
      using len absent by (simp add: place_member_def unknown Let_def split: option.splits)
    then show ?thesis using key [of s j] absent [of s] tag_of_Sig [of "length es" e s] less_Suc_eq [of j ?n]
      by (auto simp: nth_append split: if_splits)
  qed
  moreover have "gp_incompleteRecordCount (place_entry e st)
      = length (filter (\<lambda>e. rd_incomplete (en_reading e)) (es @ [e]))"
    using groups_modelD(4) [OF model] by (simp add: place_member_def Let_def)
  ultimately show ?thesis using len unfolding groups_model_def slots' groups' by simp
qed

lemma groups_model_step: "groups_model es st \<Longrightarrow> groups_model (es @ [e]) (place_entry e st)"
  using groups_model_known groups_model_new by blast

text \<open>What the two loops have read.\<close>

definition entry_of :: "reconciliation_plan \<Rightarrow> side \<Rightarrow> reconciliation_record \<Rightarrow> entry result" where
  "entry_of plan side r = and_then (read_record plan side r) (\<lambda>d.
     Inr \<lparr>en_side = side, en_reading = d, en_member = member_of side r d\<rparr>)"

lemma group_records_model:
  "group_records plan side rs st = Inr st' \<Longrightarrow> groups_model es st \<Longrightarrow>
   \<exists>es'. map_result (entry_of plan side) rs = Inr es' \<and> groups_model (es @ es') st'"
proof (induction rs arbitrary: es st)
  case (Cons r rs)
  from Cons.prems(1) obtain d where d: "read_record plan side r = Inr d"
      "group_records plan side rs (place_member side d (member_of side r d) st) = Inr st'" by auto
  let ?e = "\<lparr>en_side = side, en_reading = d, en_member = member_of side r d\<rparr>"
  have "groups_model (es @ [?e]) (place_member side d (member_of side r d) st)"
    using groups_model_step [OF Cons.prems(2), of ?e] by simp
  from Cons.IH [OF d(2) this] d(1) show ?case by (auto simp: entry_of_def)
qed simp

section \<open>What the groups are\<close>

text \<open>The observation of a complete entry: its key, measure and unit.\<close>

definition observation :: "entry \<Rightarrow> (string option list \<times> string option \<times> string option) option" where
  "observation e = (let d = en_reading e in
     if rd_incomplete d then None else Some (rd_keys d, rd_measure d, rd_unit d))"

definition entry_wf :: "entry \<Rightarrow> bool" where
  "entry_wf e \<longleftrightarrow> (let d = en_reading e in
     rd_incomplete d \<or> None \<notin> set (rd_keys d) \<and> rd_measure d \<noteq> None \<and> rd_unit d \<noteq> None \<and> gm_value (en_member e) \<noteq> None)"

lemma read_record_parts: "read_record plan side r = Inr d \<Longrightarrow>
    rd_incomplete d \<or> None \<notin> set (rd_keys d) \<and> rd_measure d \<noteq> None \<and> rd_unit d \<noteq> None \<and> rd_value d \<noteq> None"
  by (auto simp: read_record_def Let_def)

lemma entry_of_wf: "entry_of plan side r = Inr e \<Longrightarrow> entry_wf e"
  by (auto simp: entry_of_def entry_wf_def member_of_def dest!: read_record_parts)

lemma entries_wf: "map_result (entry_of plan side) rs = Inr es \<Longrightarrow> e \<in> set es \<Longrightarrow> entry_wf e \<and> en_side e = side"
proof (induction rs arbitrary: es)
  case (Cons r rs)
  then show ?case using entry_of_wf [of plan side r] by (auto simp: entry_of_def)
qed simp

lemma signature_json:
  "canonicalJson (JArray [JArray (map (\<lambda>k. JString (the k)) ks), JString m, JString u])
     = Inr (json_array [json_array (map (\<lambda>k. json_quote (the k)) ks), json_quote m, json_quote u])"
proof -
  have "map_result canonicalJson (map (\<lambda>k. JString (the k)) ks) = Inr (map (\<lambda>k. json_quote (the k)) ks)"
    by (induction ks) simp_all
  then show ?thesis by (simp add: json_array_def del: comma_join.simps)
qed

lemma map_the_inj:
  assumes "inj g"
  shows "None \<notin> set xs \<Longrightarrow> None \<notin> set ys \<Longrightarrow> map (\<lambda>k. g (the k)) xs = map (\<lambda>k. g (the k)) ys \<Longrightarrow> xs = ys"
proof (induction xs arbitrary: ys)
  case (Cons x xs)
  then obtain y ys' where y: "ys = y # ys'" by (cases ys) simp_all
  then have "the x = the y" using Cons.prems(3) by (simp add: inj_eq [OF assms])
  then have "x = y" using Cons.prems(1,2) y by (cases x; cases y) auto
  moreover have "xs = ys'" by (rule Cons.IH) (use Cons.prems y in simp_all)
  ultimately show ?case using y by simp
qed simp

lemma signature_observation:
  assumes "entry_wf e" and "entry_wf e'" and "reading_signature (en_reading e) = Some s"
  shows "reading_signature (en_reading e') = Some s \<longleftrightarrow> observation e' = observation e"
proof -
  let ?d = "en_reading e" and ?d' = "en_reading e'"
  let ?j = "\<lambda>d. JArray [JArray (map (\<lambda>k. JString (the k)) (rd_keys d)), JString (the (rd_measure d)), JString (the (rd_unit d))]"
  have c: "\<not> rd_incomplete ?d" using assms(3) by (auto simp: reading_signature_def split: if_splits)
  have parts: "None \<notin> set (rd_keys d)" "rd_measure d \<noteq> None" "rd_unit d \<noteq> None"
    if "entry_wf f" "\<not> rd_incomplete (en_reading f)" "d = en_reading f" for f d
    using that by (simp_all add: entry_wf_def Let_def)
  have canon: "canonicalJson (?j d) = Inr s" if "reading_signature d = Some s" for d
    using that unfolding signature_json by (simp add: reading_signature_def split: if_splits)
  have doubles: "json_doubles (?j d)" for d by (simp add: list_all_iff)
  have form: "canonical_form (?j d) = ?j d" for d by simp
  show ?thesis
  proof
    assume s': "reading_signature ?d' = Some s"
    then have c': "\<not> rd_incomplete ?d'" by (auto simp: reading_signature_def split: if_splits)
    have "canonical_form (?j ?d) = canonical_form (?j ?d')"
      by (rule canonical_text_commits [OF canon [OF assms(3)] canon [OF s'] doubles doubles])
    then have "map (\<lambda>k. JString (the k)) (rd_keys ?d) = map (\<lambda>k. JString (the k)) (rd_keys ?d')"
        "the (rd_measure ?d) = the (rd_measure ?d')" "the (rd_unit ?d) = the (rd_unit ?d')"
      unfolding form by simp_all
    moreover from this(1) have "rd_keys ?d = rd_keys ?d'"
      by (rule map_the_inj [OF _ parts(1) [OF assms(1) c refl] parts(1) [OF assms(2) c' refl], rotated]) (simp add: inj_def)
    ultimately show "observation e' = observation e"
      using c c' parts(2,3) [OF assms(1) c refl] parts(2,3) [OF assms(2) c' refl]
      by (auto simp: observation_def Let_def)
  next
    assume "observation e' = observation e"
    then show "reading_signature ?d' = Some s"
      using c assms(3) by (auto simp: observation_def Let_def reading_signature_def split: if_splits)
  qed
qed

lemma collected_facts:
  "og_members (collected j es) = map en_member es" "og_groupIndex (collected j es) = j"
  "og_memberCount (collected j es) = length es"
  "og_status (collected j es) = INCOMPLETE \<longleftrightarrow> rd_incomplete (en_reading (hd es))"
proof -
  have f: "og_members (fold add_member ms g) = og_members g @ ms
      \<and> og_groupIndex (fold add_member ms g) = og_groupIndex g \<and> og_status (fold add_member ms g) = og_status g
      \<and> og_memberCount (fold add_member ms g) = og_memberCount g + length ms" for ms g
    by (induction ms arbitrary: g) (simp_all add: add_member_def)
  show "og_members (collected j es) = map en_member es" "og_groupIndex (collected j es) = j"
    "og_memberCount (collected j es) = length es"
    "og_status (collected j es) = INCOMPLETE \<longleftrightarrow> rd_incomplete (en_reading (hd es))"
    by (simp_all add: collected_def f new_group_def)
qed

lemma classify_facts [simp]:
  "og_members (classify_group p g) = og_members g" "og_groupIndex (classify_group p g) = og_groupIndex g"
  "og_memberCount (classify_group p g) = og_memberCount g"
  "og_status (classify_group p g) = INCOMPLETE \<longleftrightarrow> og_status g = INCOMPLETE"
  by (auto simp: classify_group_def Let_def split: if_splits)

lemma mset_by_tag:
  "distinct ts \<Longrightarrow> mset (concat (map (\<lambda>t. filter (\<lambda>x. f x = t) xs) ts)) = mset (filter (\<lambda>x. f x \<in> set ts) xs)"
proof (induction ts)
  case (Cons t ts)
  have "mset (filter (\<lambda>x. f x \<in> set (t # ts)) xs) = mset (filter (\<lambda>x. f x = t) xs) + mset (filter (\<lambda>x. f x \<in> set ts) xs)"
    using Cons.prems by (induction xs) auto
  with Cons show ?case by simp
qed simp

lemma members_once:
  "mset (concat (map (\<lambda>t. map en_member (entries_of es t)) (slots es))) = mset (map en_member es)"
proof -
  have snd: "map snd (tagged k es) = es" for k by (induction es arbitrary: k) simp_all
  have "mset (concat (map (\<lambda>t. filter (\<lambda>p. fst p = t) (tagged 0 es)) (slots es))) = mset (tagged 0 es)"
    unfolding mset_by_tag [OF slots_distinct] by (simp add: slots_def filter_id_conv)
  then have "image_mset (en_member \<circ> snd) (mset (concat (map (\<lambda>t. filter (\<lambda>p. fst p = t) (tagged 0 es)) (slots es))))
      = mset (map en_member (map snd (tagged 0 es)))" by (metis map_map mset_map)
  then show ?thesis unfolding snd by (simp add: entries_of_def map_concat comp_def flip: mset_map)
qed

lemma tagged_Sig: "(Sig s, e) \<in> set (tagged k es) \<Longrightarrow> e \<in> set es \<and> reading_signature (en_reading e) = Some s"
  by (induction es arbitrary: k) (auto simp: tag_of_def split: option.splits)

lemma entries_of_Sig: "entries_of es (Sig s) = filter (\<lambda>e. reading_signature (en_reading e) = Some s) es"
proof -
  have "map snd (filter (\<lambda>p. fst p = Sig s) (tagged k es)) = filter (\<lambda>e. reading_signature (en_reading e) = Some s) es" for k
    by (induction es arbitrary: k) (simp_all add: tag_of_Sig)
  then show ?thesis by (simp add: entries_of_def)
qed

lemma entries_of_Lone:
  assumes "Lone n \<in> set (slots es)"
  shows "\<exists>e \<in> set es. reading_signature (en_reading e) = None \<and> entries_of es (Lone n) = [e]"
proof -
  have lone: "Lone n \<in> set (map fst (tagged k es)) \<Longrightarrow>
      \<exists>e \<in> set es. reading_signature (en_reading e) = None \<and> map snd (filter (\<lambda>p. fst p = Lone n) (tagged k es)) = [e]" for k
  proof (induction es arbitrary: k)
    case (Cons e es)
    show ?case
    proof (cases "tag_of k e = Lone n")
      case True
      then have n: "n = k" "reading_signature (en_reading e) = None" by (auto simp: tag_of_def split: option.splits)
      then have "Lone n \<notin> set (map fst (tagged (Suc k) es))" using lone_tags [of n "Suc k" es] by auto
      then have "filter (\<lambda>p. fst p = Lone n) (tagged (Suc k) es) = []" by (auto simp: filter_empty_conv image_iff)
      with True n show ?thesis by auto
    next
      case False
      then have "Lone n \<in> set (map fst (tagged (Suc k) es))" using Cons.prems by simp
      from Cons.IH [OF this] False show ?thesis by auto
    qed
  qed simp
  from assms show ?thesis by (simp add: slots_def entries_of_def lone del: set_map)
qed

text \<open>One group, as the loop leaves it.\<close>

definition group_of_observation :: "entry list \<Rightarrow> obs_group \<Rightarrow> bool" where
  "group_of_observation es g \<longleftrightarrow>
     (if og_status g = INCOMPLETE then \<exists>e \<in> set es. observation e = None \<and> og_members g = [en_member e]
      else \<exists>e \<in> set es. observation e \<noteq> None
        \<and> og_members g = map en_member (filter (\<lambda>f. observation f = observation e) es))"

lemma signature_None: "reading_signature (en_reading e) = None \<longleftrightarrow> observation e = None"
  by (simp add: reading_signature_def observation_def Let_def)

lemma slot_group:
  assumes wf: "\<forall>e \<in> set es. entry_wf e" and t: "t \<in> set (slots es)"
  shows "group_of_observation es (collected j (entries_of es t))"
proof (cases t)
  case (Sig s)
  have e: "entries_of es t = filter (\<lambda>e. reading_signature (en_reading e) = Some s) es"
    unfolding Sig by (rule entries_of_Sig)
  moreover have "entries_of es t \<noteq> []" using t entries_not_Nil by blast
  ultimately obtain f where f: "f \<in> set es" "reading_signature (en_reading f) = Some s" "hd (entries_of es t) = f"
    using hd_in_set [of "entries_of es t"] by auto
  have "filter (\<lambda>e. reading_signature (en_reading e) = Some s) es = filter (\<lambda>e. observation e = observation f) es"
    using wf f(1,2) by (intro filter_cong) (auto simp: signature_observation)
  moreover have "observation f \<noteq> None" using f(2) signature_None [of f] by simp
  moreover have "\<not> rd_incomplete (en_reading f)" using f(2) by (auto simp: reading_signature_def split: if_splits)
  ultimately show ?thesis using e f by (auto simp: group_of_observation_def collected_facts)
next
  case (Lone n)
  then obtain e where e: "e \<in> set es" "reading_signature (en_reading e) = None" "entries_of es t = [e]"
    using entries_of_Lone t by metis
  then have "rd_incomplete (en_reading e)" by (simp add: reading_signature_def split: if_splits)
  then show ?thesis using e signature_None [of e] by (auto simp: group_of_observation_def collected_facts)
qed

text \<open>The groups before their classification.\<close>

definition raw_groups :: "entry list \<Rightarrow> obs_group list" where
  "raw_groups es = map (\<lambda>j. collected j (entries_of es (slots es ! j))) [0..<length (slots es)]"

lemma groups_model_raw: "groups_model es st \<Longrightarrow> gp_groups st = raw_groups es"
  unfolding raw_groups_def by (rule nth_equalityI) (simp_all add: groups_modelD(1,2))

lemma reconcile_Inr:
  assumes "reconcileObservations plan left right = Inr out"
  obtains ls rs where
    "map_result (entry_of plan Left_file) left = Inr ls" "map_result (entry_of plan Right_file) right = Inr rs"
    "out = summarise (rp_conflictPolicy plan) (length (ls @ rs)) (raw_groups (ls @ rs))
       (length (filter (\<lambda>e. rd_incomplete (en_reading e)) (ls @ rs)))"
proof -
  let ?st0 = "\<lparr>gp_groups = [], gp_byKey = Map.empty, gp_incompleteRecordCount = 0\<rparr>"
  obtain st1 st2 where st: "group_records plan Left_file left ?st0 = Inr st1" "group_records plan Right_file right st1 = Inr st2"
    and out: "out = summarise (rp_conflictPolicy plan) (length left + length right) (gp_groups st2) (gp_incompleteRecordCount st2)"
    using assms by (auto simp: reconcileObservations_def)
  have "groups_model [] ?st0" by (simp add: groups_model_def slots_def)
  from group_records_model [OF st(1) this] obtain ls
    where ls: "map_result (entry_of plan Left_file) left = Inr ls" "groups_model ls st1" by auto
  from group_records_model [OF st(2) ls(2)] obtain rs
    where rs: "map_result (entry_of plan Right_file) right = Inr rs" "groups_model (ls @ rs) st2" by auto
  have "length (ls @ rs) = length left + length right"
    using map_result_length [OF ls(1)] map_result_length [OF rs(1)] by simp
  then show thesis using that [OF ls(1) rs(1)] groups_model_raw [OF rs(2)] groups_modelD(4) [OF rs(2)] out by simp
qed

lemma raw_group_member_lists: "map og_members (raw_groups es) = map (\<lambda>t. map en_member (entries_of es t)) (slots es)"
  unfolding raw_groups_def by (rule nth_equalityI) (simp_all add: collected_facts)

lemma raw_groups_sound: "\<forall>e \<in> set es. entry_wf e \<Longrightarrow> g \<in> set (raw_groups es) \<Longrightarrow> group_of_observation es g"
  by (auto simp: raw_groups_def intro: slot_group)

lemma classify_group_of_observation: "group_of_observation es (classify_group p g) \<longleftrightarrow> group_of_observation es g"
  unfolding group_of_observation_def classify_facts ..

lemma reconciled_entries:
  assumes "reconcileObservations plan left right = Inr (s, gs)"
    and "map_result (entry_of plan Left_file) left = Inr ls" and "map_result (entry_of plan Right_file) right = Inr rs"
  shows "(s, gs) = summarise (rp_conflictPolicy plan) (length (ls @ rs)) (raw_groups (ls @ rs))
      (length (filter (\<lambda>e. rd_incomplete (en_reading e)) (ls @ rs)))"
    and "\<forall>e \<in> set (ls @ rs). entry_wf e"
  using reconcile_Inr [OF assms(1)] assms(2,3) entries_wf [OF assms(2)] entries_wf [OF assms(3)] by auto

section \<open>Properties\<close>

text \<open>
  Property C26. The groups are the observations: whenever the reconciliation returns, every record of
  both files is a member of exactly one group; each complete group holds, in the order of the files, all
  records with one key, measure and unit, each incomplete record stands alone in an incomplete group;
  and the groups carry their position and the number of their members.
\<close>

theorem groups_are_observations:
  assumes "reconcileObservations plan left right = Inr (s, gs)"
    and "map_result (entry_of plan Left_file) left = Inr ls" and "map_result (entry_of plan Right_file) right = Inr rs"
  shows "mset (concat (map og_members gs)) = mset (map en_member (ls @ rs))
    \<and> (\<forall>g \<in> set gs. group_of_observation (ls @ rs) g)
    \<and> (\<forall>j < length gs. og_groupIndex (gs ! j) = j \<and> og_memberCount (gs ! j) = length (og_members (gs ! j)))"
proof -
  let ?es = "ls @ rs"
  note r = reconciled_entries [OF assms]
  have gs: "gs = map (classify_group (rp_conflictPolicy plan)) (raw_groups ?es)"
    using r(1) by (simp add: summarise_def Let_def)
  have "map og_members gs = map og_members (raw_groups ?es)" by (simp add: gs comp_def)
  then have "mset (concat (map og_members gs)) = mset (map en_member ?es)"
    unfolding raw_group_member_lists by (simp only: members_once)
  moreover have "\<forall>g \<in> set gs. group_of_observation ?es g"
    using raw_groups_sound [OF r(2)] unfolding gs set_map by (simp only: ball_simps classify_group_of_observation) blast
  moreover have "\<forall>j < length gs. og_groupIndex (gs ! j) = j \<and> og_memberCount (gs ! j) = length (og_members (gs ! j))"
    unfolding gs raw_groups_def by (simp add: collected_facts)
  ultimately show ?thesis by blast
qed

definition demo_plan :: reconciliation_plan where
  "demo_plan = \<lparr>rp_keys = [\<lparr>pk_leftField = ''site'', pk_rightField = ''site'', pk_type = Key_text, pk_trim = True\<rparr>],
     rp_left = \<lparr>mp_valueField = ''v'', mp_measure = Bind_literal ''flow'', mp_unit = Bind_literal ''l''\<rparr>,
     rp_right = \<lparr>mp_valueField = ''v'', mp_measure = Bind_literal ''flow'', mp_unit = Bind_literal ''l''\<rparr>,
     rp_unitConversions = [], rp_conflictPolicy = Preserve\<rparr>"

definition demo_record :: "string \<Rightarrow> string \<Rightarrow> reconciliation_record" where
  "demo_record rid v = \<lparr>rr_recordId = rid, rr_index = Num 1,
     rr_values = [''site'' \<mapsto> Cell_string ''s'', ''v'' \<mapsto> Cell_string v]\<rparr>"

definition demo_reading :: reading where
  "demo_reading = \<lparr>rd_keys = [Some ''s''], rd_measure = Some ''flow'', rd_unit = Some ''l'', rd_value = Some ''1'',
     rd_incomplete = False\<rparr>"

lemma demo_readings:
  "read_record demo_plan Left_file (demo_record ''a'' ''1.0'') = Inr demo_reading"
  "read_record demo_plan Right_file (demo_record ''b'' ''1'') = Inr demo_reading"
  by code_simp+

lemma demo_entries:
  "map_result (entry_of demo_plan Left_file) [demo_record ''a'' ''1.0'']
     = Inr [\<lparr>en_side = Left_file, en_reading = demo_reading, en_member = member_of Left_file (demo_record ''a'' ''1.0'') demo_reading\<rparr>]"
  "map_result (entry_of demo_plan Right_file) [demo_record ''b'' ''1'']
     = Inr [\<lparr>en_side = Right_file, en_reading = demo_reading, en_member = member_of Right_file (demo_record ''b'' ''1'') demo_reading\<rparr>]"
  by (simp_all add: entry_of_def demo_readings)

lemma demo_reconciled:
  "\<exists>s g. reconcileObservations demo_plan [demo_record ''a'' ''1.0''] [demo_record ''b'' ''1''] = Inr (s, [g])
     \<and> og_status g = UNCHANGED \<and> rs_relation s = FORMAT_COPY_CANDIDATE"
proof -
  obtain sg where sg: "reading_signature demo_reading = Some sg"
    by (simp add: reading_signature_def demo_reading_def)
  let ?l = "member_of Left_file (demo_record ''a'' ''1.0'') demo_reading"
  let ?r = "member_of Right_file (demo_record ''b'' ''1'') demo_reading"
  let ?g = "new_group 0 Left_file demo_reading"
  have inc: "\<not> rd_incomplete demo_reading" by (simp add: demo_reading_def)
  have one: "place_member Left_file demo_reading ?l \<lparr>gp_groups = [], gp_byKey = Map.empty, gp_incompleteRecordCount = 0\<rparr>
      = \<lparr>gp_groups = [add_member ?l ?g], gp_byKey = [sg \<mapsto> 0], gp_incompleteRecordCount = 0\<rparr>"
    by (simp add: place_member_def sg inc)
  have two: "place_member Right_file demo_reading ?r
        \<lparr>gp_groups = [add_member ?l ?g], gp_byKey = [sg \<mapsto> 0], gp_incompleteRecordCount = 0\<rparr>
      = \<lparr>gp_groups = [add_member ?r (add_member ?l ?g)], gp_byKey = [sg \<mapsto> 0], gp_incompleteRecordCount = 0\<rparr>"
    by (simp add: place_member_def sg inc)
  have status: "og_status (classify_group Preserve (add_member ?r (add_member ?l ?g))) = UNCHANGED"
    by (simp add: classify_group_def new_group_def add_member_def member_of_def inc js_set_def)
  have "reconcileObservations demo_plan [demo_record ''a'' ''1.0''] [demo_record ''b'' ''1'']
      = Inr (summarise (rp_conflictPolicy demo_plan) 2 [add_member ?r (add_member ?l ?g)] 0)"
    by (simp add: reconcileObservations_def demo_readings one two numeral_2_eq_2)
  then show ?thesis
    by (simp add: summarise_def count_status_def status relation_of_def demo_plan_def [THEN arg_cong [of _ _ rp_conflictPolicy]])
qed

lemma groups_are_observations_witness:
  "\<exists>s g. reconcileObservations demo_plan [demo_record ''a'' ''1.0''] [demo_record ''b'' ''1''] = Inr (s, [g])
     \<and> length (og_members g) = 2"
proof -
  obtain s g where r: "reconcileObservations demo_plan [demo_record ''a'' ''1.0''] [demo_record ''b'' ''1''] = Inr (s, [g])"
    using demo_reconciled by blast
  from groups_are_observations [OF r demo_entries]
  have "mset (og_members g) = mset [member_of Left_file (demo_record ''a'' ''1.0'') demo_reading,
      member_of Right_file (demo_record ''b'' ''1'') demo_reading]" by simp
  from arg_cong [OF this, of size] r show ?thesis by simp
qed

definition on_side :: "side \<Rightarrow> obs_group \<Rightarrow> group_member list" where
  "on_side s g = filter (\<lambda>m. gm_side m = s) (og_members g)"

definition agree :: "group_member list \<Rightarrow> bool" where
  "agree ms \<longleftrightarrow> ms \<noteq> [] \<and> (\<forall>m \<in> set ms. \<forall>m' \<in> set ms. gm_value m = gm_value m')"

lemma one_value: "length (js_set (map gm_value ms)) = 1 \<longleftrightarrow> agree ms"
proof -
  have "card (gm_value ` set ms) = 1 \<longleftrightarrow> agree ms"
  proof
    assume "agree ms"
    then have "gm_value ` set ms = {gm_value (hd ms)}"
      using hd_in_set [of ms] unfolding agree_def by blast
    then show "card (gm_value ` set ms) = 1" by simp
  next
    assume "card (gm_value ` set ms) = 1"
    then obtain v where v: "gm_value ` set ms = {v}" by (auto simp: card_1_singleton_iff)
    then have "ms \<noteq> []" "\<forall>m \<in> set ms. gm_value m = v" by auto
    then show "agree ms" by (simp add: agree_def)
  qed
  then show ?thesis by (simp add: length_js_set)
qed

lemma classify_complete:
  assumes "og_status g \<noteq> INCOMPLETE" and "og_members g \<noteq> []" and h_def: "h = classify_group p g"
  shows "(og_status h = UNCHANGED \<longleftrightarrow> agree (og_members g) \<and> on_side Left_file g \<noteq> [] \<and> on_side Right_file g \<noteq> [])
    \<and> (og_status h = LEFT_ONLY \<longleftrightarrow> agree (og_members g) \<and> on_side Right_file g = [])
    \<and> (og_status h = ADDED \<longleftrightarrow> agree (og_members g) \<and> on_side Left_file g = [])
    \<and> (og_status h = REVISED \<longleftrightarrow> \<not> agree (og_members g) \<and> p = Right_revises_left
         \<and> agree (on_side Left_file g) \<and> agree (on_side Right_file g))
    \<and> (if og_status h = CONFLICT then og_selectedRecordId h = None \<and> og_value h = None
       else \<exists>m \<in> set (og_members g). og_selectedRecordId h = Some (gm_recordId m) \<and> og_value h = gm_value m
         \<and> (og_status h = REVISED \<longrightarrow> gm_side m = Right_file))"
proof -
  have none: "on_side Left_file g = [] \<Longrightarrow> on_side Right_file g \<noteq> []"
    using assms(2) by (cases "og_members g"; cases "gm_side (hd (og_members g))") (auto simp: on_side_def)
  have sub: "agree (og_members g) \<Longrightarrow> on_side s g \<noteq> [] \<Longrightarrow> agree (on_side s g)" for s by (auto simp: agree_def on_side_def)
  have hd: "on_side s g \<noteq> [] \<Longrightarrow> hd (on_side s g) \<in> set (og_members g) \<and> gm_side (hd (on_side s g)) = s" for s
    using hd_in_set [of "on_side s g"] by (auto simp: on_side_def)
  have ne: "agree (on_side s g) \<Longrightarrow> on_side s g \<noteq> []" for s by (auto simp: agree_def)
  have h: "h = (let l = on_side Left_file g; r = on_side Right_file g;
      first = (\<lambda>ms. if ms = [] then None else Some (hd ms));
      (status, selected) =
              (if agree (og_members g)
               then (if l \<noteq> [] \<and> r \<noteq> [] then UNCHANGED else if l \<noteq> [] then LEFT_ONLY else ADDED,
                     if l \<noteq> [] then first l else first r)
               else if p = Right_revises_left \<and> agree l \<and> agree r then (REVISED, first r)
               else (CONFLICT, None))
        in g\<lparr>og_status := status, og_selectedRecordId := map_option gm_recordId selected,
             og_value := Option.bind selected gm_value\<rparr>)"
    using assms(1) unfolding h_def classify_group_def values_of_def one_value on_side_def Let_def by simp
  consider "agree (og_members g)" "on_side Left_file g \<noteq> []" | "agree (og_members g)" "on_side Left_file g = []"
    | "\<not> agree (og_members g)" by blast
  then show ?thesis
  proof cases
    case 1
    then show ?thesis using hd [of Left_file] by (auto simp: h Let_def)
  next
    case 2
    then show ?thesis using hd [of Right_file] none by (auto simp: h Let_def)
  next
    case 3
    then show ?thesis using hd [of Right_file] ne [of Right_file] by (auto simp: h Let_def)
  qed
qed

text \<open>
  Property C25. No disagreement is decided silently: a complete group counts as unchanged, present on one
  side only, or revised exactly when all its values agree, or, under the revising policy, when the values of
  either file agree among themselves; then the selected value is that of one of its records, for a
  revision of the right file; every other group is a conflict without a selected value.
\<close>

theorem selection_is_justified:
  assumes "reconcileObservations plan left right = Inr (s, gs)" and "g \<in> set gs" and "og_status g \<noteq> INCOMPLETE"
  shows "(og_status g = UNCHANGED \<longleftrightarrow> agree (og_members g) \<and> on_side Left_file g \<noteq> [] \<and> on_side Right_file g \<noteq> [])
    \<and> (og_status g = LEFT_ONLY \<longleftrightarrow> agree (og_members g) \<and> on_side Right_file g = [])
    \<and> (og_status g = ADDED \<longleftrightarrow> agree (og_members g) \<and> on_side Left_file g = [])
    \<and> (og_status g = REVISED \<longleftrightarrow> \<not> agree (og_members g) \<and> rp_conflictPolicy plan = Right_revises_left
         \<and> agree (on_side Left_file g) \<and> agree (on_side Right_file g))
    \<and> (if og_status g = CONFLICT then og_selectedRecordId g = None \<and> og_value g = None
       else \<exists>m \<in> set (og_members g). og_selectedRecordId g = Some (gm_recordId m) \<and> og_value g = gm_value m
         \<and> (og_status g = REVISED \<longrightarrow> gm_side m = Right_file))"
proof -
  obtain ls rs where e: "map_result (entry_of plan Left_file) left = Inr ls" "map_result (entry_of plan Right_file) right = Inr rs"
    using reconcile_Inr [OF assms(1)] by metis
  note r = reconciled_entries [OF assms(1) e]
  obtain g0 where g0: "g0 \<in> set (raw_groups (ls @ rs))" "g = classify_group (rp_conflictPolicy plan) g0"
    using r(1) assms(2) by (auto simp: summarise_def Let_def)
  have inc: "og_status g0 \<noteq> INCOMPLETE" using assms(3) g0(2) by simp
  have ne: "og_members g0 \<noteq> []"
    using raw_groups_sound [OF r(2) g0(1)] inc by (auto simp: group_of_observation_def filter_empty_conv)
  have same: "og_members g = og_members g0" "on_side d g = on_side d g0" for d unfolding g0(2) on_side_def by simp_all
  show ?thesis unfolding same by (rule classify_complete [OF inc ne g0(2)])
qed

lemma selection_is_justified_witness:
  "\<exists>s g. reconcileObservations demo_plan [demo_record ''a'' ''1.0''] [demo_record ''b'' ''1''] = Inr (s, [g])
     \<and> agree (og_members g) \<and> (\<exists>m \<in> set (og_members g). og_value g = gm_value m)"
proof -
  obtain s g where r: "reconcileObservations demo_plan [demo_record ''a'' ''1.0''] [demo_record ''b'' ''1''] = Inr (s, [g])"
      "og_status g = UNCHANGED" using demo_reconciled by blast
  from selection_is_justified [OF r(1), of g] r(2) have "agree (og_members g)" "\<exists>m \<in> set (og_members g). og_value g = gm_value m"
    by auto
  with r(1) show ?thesis by blast
qed

lemma count_status_total:
  "length gs = count_status UNCHANGED gs + count_status LEFT_ONLY gs + count_status ADDED gs + count_status REVISED gs
     + count_status CONFLICT gs + count_status INCOMPLETE gs"
proof (induction gs)
  case (Cons g gs)
  then show ?case by (cases "og_status g") (simp_all add: count_status_def)
qed (simp add: count_status_def)

lemma count_status_zero: "count_status s gs = 0 \<longleftrightarrow> (\<forall>g \<in> set gs. og_status g \<noteq> s)"
  by (auto simp: count_status_def filter_empty_conv)

lemma revised_two_values:
  assumes "\<not> agree (og_members g)" and "agree (on_side Left_file g)" and "agree (on_side Right_file g)"
  shows "length (js_set (map gm_value (og_members g))) = 2"
proof -
  let ?v = "\<lambda>s. gm_value (hd (on_side s g))"
  have side: "agree (on_side s g)" for s using assms(2,3) by (cases s) simp_all
  then have hd: "hd (on_side s g) \<in> set (on_side s g)" for s by (simp add: agree_def)
  have all: "gm_value m = ?v (gm_side m)" if "m \<in> set (og_members g)" for m
  proof -
    have "m \<in> set (on_side (gm_side m) g)" using that by (simp add: on_side_def)
    then show ?thesis using side [of "gm_side m"] hd [of "gm_side m"] unfolding agree_def by blast
  qed
  have "set (on_side s g) \<subseteq> set (og_members g)" for s by (auto simp: on_side_def)
  then have mem: "?v s \<in> gm_value ` set (og_members g)" for s using hd by blast
  have sides: "gm_side m = Left_file \<or> gm_side m = Right_file" for m by (cases "gm_side m") simp_all
  have eq: "gm_value ` set (og_members g) = {?v Left_file, ?v Right_file}"
  proof
    show "gm_value ` set (og_members g) \<subseteq> {?v Left_file, ?v Right_file}"
      using all sides by (metis image_subsetI insertCI)
  qed (use mem in blast)
  have "?v Left_file \<noteq> ?v Right_file"
  proof
    assume same: "?v Left_file = ?v Right_file"
    then have "gm_value m = ?v Left_file" if "m \<in> set (og_members g)" for m using all [OF that] sides [of m] by metis
    moreover have "og_members g \<noteq> []" using assms(2) by (auto simp: agree_def on_side_def)
    ultimately have "agree (og_members g)" unfolding agree_def by metis
    with assms(1) show False by blast
  qed
  then show ?thesis by (simp add: length_js_set eq)
qed

lemma members_counted:
  assumes "og_status g \<noteq> INCOMPLETE" and "og_members g \<noteq> []" and "og_status (classify_group p g) \<noteq> CONFLICT"
  shows "length (og_members g) = 1 + duplicates_in g + (if og_status (classify_group p g) = REVISED then 1 else 0)"
proof -
  note c = classify_complete [OF assms(1,2) refl, of p]
  have le: "length (js_set (map gm_value (og_members g))) \<le> length (og_members g)"
    using card_length [of "map gm_value (og_members g)"] by (simp add: length_js_set)
  show ?thesis
  proof (cases "og_status (classify_group p g) = REVISED")
    case True
    then have "length (js_set (map gm_value (og_members g))) = 2" using c revised_two_values [of g] by blast
    with True le assms(1) show ?thesis by (simp add: duplicates_in_def)
  next
    case False
    then have "agree (og_members g)" using c assms(1,3) by (cases "og_status (classify_group p g)") auto
    then have "length (js_set (map gm_value (og_members g))) = 1" by (simp only: one_value)
    with False le assms(1) show ?thesis by (simp add: duplicates_in_def)
  qed
qed

lemma all_members_counted:
  "\<forall>g \<in> set gs. og_status g \<noteq> INCOMPLETE \<and> og_members g \<noteq> [] \<and> og_status (classify_group p g) \<noteq> CONFLICT \<Longrightarrow>
   length (concat (map og_members gs)) =
     length gs + sum_list (map duplicates_in gs) + count_status REVISED (map (classify_group p) gs)"
proof (induction gs)
  case (Cons g gs)
  then show ?case using members_counted [of g p] by (simp add: count_status_def)
qed (simp add: count_status_def)

lemma lone_slot: "e \<in> set es \<Longrightarrow> reading_signature (en_reading e) = None \<Longrightarrow> \<exists>n. Lone n \<in> set (map fst (tagged k es))"
proof (induction es arbitrary: k)
  case (Cons f es)
  show ?case
  proof (cases "f = e")
    case False
    then obtain n where "Lone n \<in> set (map fst (tagged (Suc k) es))" using Cons.IH [of "Suc k"] Cons.prems False by auto
    then show ?thesis by auto
  qed (use Cons.prems in \<open>auto simp: tag_of_def\<close>)
qed simp

lemma incomplete_group_iff:
  assumes "\<forall>e \<in> set es. entry_wf e"
  shows "(\<exists>g \<in> set (raw_groups es). og_status g = INCOMPLETE) \<longleftrightarrow> (\<exists>e \<in> set es. rd_incomplete (en_reading e))"
proof
  assume "\<exists>g \<in> set (raw_groups es). og_status g = INCOMPLETE"
  then obtain g where "g \<in> set (raw_groups es)" "og_status g = INCOMPLETE" by blast
  then obtain e where "e \<in> set es" "observation e = None"
    using raw_groups_sound [OF assms, of g] by (auto simp: group_of_observation_def)
  then show "\<exists>e \<in> set es. rd_incomplete (en_reading e)" by (auto simp: observation_def Let_def split: if_splits)
next
  assume "\<exists>e \<in> set es. rd_incomplete (en_reading e)"
  then obtain e where "e \<in> set es" "reading_signature (en_reading e) = None" by (auto simp: reading_signature_def)
  then obtain n where n: "Lone n \<in> set (slots es)" using lone_slot [of e es 0] by (auto simp: slots_def)
  then obtain f where f: "reading_signature (en_reading f) = None" "entries_of es (Lone n) = [f]"
    using entries_of_Lone by blast
  obtain j where j: "j < length (slots es)" "slots es ! j = Lone n" using n by (metis in_set_conv_nth)
  have "collected j (entries_of es (slots es ! j)) \<in> set (raw_groups es)" using j(1) by (auto simp: raw_groups_def)
  moreover have "og_status (collected j (entries_of es (slots es ! j))) = INCOMPLETE"
    using f unfolding j(2) by (simp add: collected_facts reading_signature_def split: if_splits)
  ultimately show "\<exists>g \<in> set (raw_groups es). og_status g = INCOMPLETE" by blast
qed

lemma resolved_members:
  assumes "\<forall>e \<in> set es. entry_wf e"
    and "count_status CONFLICT (map (classify_group p) (raw_groups es)) = 0"
    and "count_status INCOMPLETE (map (classify_group p) (raw_groups es)) = 0"
  shows "length es = length (raw_groups es) + sum_list (map duplicates_in (raw_groups es))
      + count_status REVISED (map (classify_group p) (raw_groups es))"
proof -
  have "\<forall>g \<in> set (raw_groups es). og_status (classify_group p g) \<noteq> CONFLICT \<and> og_status g \<noteq> INCOMPLETE"
    using assms(2,3) by (auto simp: count_status_zero)
  moreover have "og_members g \<noteq> []" if "g \<in> set (raw_groups es)" for g
    using raw_groups_sound [OF assms(1) that] by (auto simp: group_of_observation_def filter_empty_conv split: if_splits)
  ultimately have "length (concat (map og_members (raw_groups es))) = length (raw_groups es)
      + sum_list (map duplicates_in (raw_groups es)) + count_status REVISED (map (classify_group p) (raw_groups es))"
    by (intro all_members_counted) simp
  moreover have "length (concat (map og_members (raw_groups es))) = length es"
    unfolding raw_group_member_lists using arg_cong [OF members_once [of es], of size] by simp
  ultimately show ?thesis by simp
qed

text \<open>
  The summary accounts for every record: the files relate in an unresolved way exactly when some
  group is in conflict or incomplete, and then no number of observations is given; otherwise there are
  as many observations as groups, every group is unchanged, one-sided or revised, and the parsed
  records are one per observation, the duplicates, and one more per revision; and two files are
  called copies of each other exactly when each group is unchanged and there is one.
\<close>

theorem summary_accounts_for_records:
  assumes "reconcileObservations plan left right = Inr (s, gs)"
  shows "rs_parsedRecordCount s = length left + length right
    \<and> (rs_relation s = UNRESOLVED \<longleftrightarrow> (\<exists>g \<in> set gs. og_status g \<in> {CONFLICT, INCOMPLETE}))
    \<and> rs_candidateObservationCount s = (if rs_relation s = UNRESOLVED then None else Some (length gs))
    \<and> (rs_relation s \<noteq> UNRESOLVED \<longrightarrow>
         rs_parsedRecordCount s = length gs + rs_duplicateRecordCount s + rs_revisedCount s
         \<and> length gs = rs_unchangedCount s + rs_leftOnlyCount s + rs_addedCount s + rs_revisedCount s)
    \<and> (rs_relation s = FORMAT_COPY_CANDIDATE \<longleftrightarrow> gs \<noteq> [] \<and> (\<forall>g \<in> set gs. og_status g = UNCHANGED))"
proof -
  obtain ls rs where e: "map_result (entry_of plan Left_file) left = Inr ls" "map_result (entry_of plan Right_file) right = Inr rs"
    using reconcile_Inr [OF assms] by metis
  let ?es = "ls @ rs" and ?p = "rp_conflictPolicy plan"
  let ?raw = "raw_groups ?es" and ?inc = "length (filter (\<lambda>e. rd_incomplete (en_reading e)) (ls @ rs))"
  note r = reconciled_entries [OF assms e]
  have n: "length ?es = length left + length right"
    using map_result_length [OF e(1)] map_result_length [OF e(2)] by simp
  have gs: "gs = map (classify_group ?p) ?raw"
    and s: "rs_parsedRecordCount s = length ?es" "rs_duplicateRecordCount s = sum_list (map duplicates_in ?raw)"
      "rs_unchangedCount s = count_status UNCHANGED gs" "rs_leftOnlyCount s = count_status LEFT_ONLY gs"
      "rs_addedCount s = count_status ADDED gs" "rs_revisedCount s = count_status REVISED gs"
    and rel: "rs_relation s = relation_of (count_status CONFLICT gs > 0 \<or> ?inc > 0) (count_status REVISED gs)
        (count_status UNCHANGED gs) (count_status LEFT_ONLY gs) (count_status ADDED gs)"
    and cand: "rs_candidateObservationCount s = (if count_status CONFLICT gs > 0 \<or> ?inc > 0 then None else Some (length gs))"
    using r(1) by (simp_all add: summarise_def Let_def)
  have "?inc > 0 \<longleftrightarrow> (\<exists>e \<in> set ?es. rd_incomplete (en_reading e))" by (auto simp: filter_empty_conv)
  also have "\<dots> \<longleftrightarrow> count_status INCOMPLETE gs > 0"
    unfolding incomplete_group_iff [OF r(2), symmetric] using count_status_zero [of INCOMPLETE gs] by (auto simp: gs)
  finally have inc: "?inc > 0 \<longleftrightarrow> count_status INCOMPLETE gs > 0" .
  have unres: "rs_relation s = UNRESOLVED \<longleftrightarrow> count_status CONFLICT gs > 0 \<or> count_status INCOMPLETE gs > 0"
    unfolding rel inc by (simp add: relation_of_def)
  have parsed: "length ?es = length gs + sum_list (map duplicates_in ?raw) + count_status REVISED gs"
    if "rs_relation s \<noteq> UNRESOLVED"
    using that unres resolved_members [OF r(2), of ?p] by (simp add: gs)
  have total: "length gs = count_status UNCHANGED gs + count_status LEFT_ONLY gs + count_status ADDED gs
      + count_status REVISED gs + count_status CONFLICT gs + count_status INCOMPLETE gs" by (rule count_status_total)
  have "rs_relation s = FORMAT_COPY_CANDIDATE \<longleftrightarrow>
      length gs = count_status UNCHANGED gs \<and> count_status UNCHANGED gs > 0"
    unfolding rel inc using total by (auto simp: relation_of_def)
  also have "\<dots> \<longleftrightarrow> gs \<noteq> [] \<and> (\<forall>g \<in> set gs. og_status g = UNCHANGED)"
    using length_filter_less [of _ gs "\<lambda>g. og_status g = UNCHANGED"] by (fastforce simp: count_status_def filter_id_conv)
  finally have copy: "rs_relation s = FORMAT_COPY_CANDIDATE \<longleftrightarrow> gs \<noteq> [] \<and> (\<forall>g \<in> set gs. og_status g = UNCHANGED)" .
  have ex: "(\<exists>g \<in> set gs. og_status g \<in> {CONFLICT, INCOMPLETE}) \<longleftrightarrow>
      count_status CONFLICT gs > 0 \<or> count_status INCOMPLETE gs > 0"
    using count_status_zero [of CONFLICT gs] count_status_zero [of INCOMPLETE gs] by auto
  show ?thesis unfolding s n [symmetric] copy ex unres [symmetric]
    using parsed total unres inc cand by (auto simp: n)
qed

lemma summary_accounts_for_records_witness:
  "\<exists>s gs. reconcileObservations demo_plan [demo_record ''a'' ''1.0''] [demo_record ''b'' ''1''] = Inr (s, gs)
     \<and> rs_parsedRecordCount s = 2 \<and> rs_candidateObservationCount s = Some 1"
proof -
  obtain s g where r: "reconcileObservations demo_plan [demo_record ''a'' ''1.0''] [demo_record ''b'' ''1''] = Inr (s, [g])"
      "rs_relation s = FORMAT_COPY_CANDIDATE" using demo_reconciled by blast
  from summary_accounts_for_records [OF r(1)] r show ?thesis by auto
qed

end
