(* ===== verification/ExplorationPath.thy ===== *)
theory ExplorationPath
  imports Shared
begin

text \<open>
  \<open>packages/data-core/src/exploration-path.ts\<close>: breadth-first search for a directed path in a bounded
  graph. The queue is an array that is never shortened: \<open>index\<close> walks through it while the loop pushes
  at its end. The search stops because a node is pushed at most once.
\<close>

section \<open>Data\<close>

record graph_edge =
  ge_id :: string
  ge_source :: string
  ge_target :: string

record exploration_graph =
  xg_nodes :: "string list"
  xg_edges :: "graph_edge list"

record path_request =
  pr_from :: string
  pr_to :: string
  pr_maxDepth :: js_number

record path_result =
  px_found :: bool
  px_nodeIds :: "string list"
  px_edgeIds :: "string list"

record queue_item =
  qi_id :: string
  qi_nodeIds :: "string list"
  qi_edgeIds :: "string list"

section \<open>Search\<close>

text \<open>The edges of a node between known nodes, sorted by their ids.\<close>

definition adjacent :: "exploration_graph \<Rightarrow> string \<Rightarrow> graph_edge list" where
  "adjacent g s =
     js_sort (\<lambda>a b. ge_id b < ge_id a)
       (filter (\<lambda>e. ge_source e \<in> set (xg_nodes g) \<and> ge_target e \<in> set (xg_nodes g) \<and> ge_source e = s) (xg_edges g))"

definition push_item :: "queue_item \<Rightarrow> graph_edge \<Rightarrow> queue_item" where
  "push_item current e =
     \<lparr>qi_id = ge_target e, qi_nodeIds = qi_nodeIds current @ [ge_target e],
      qi_edgeIds = qi_edgeIds current @ [ge_id e]\<rparr>"

fun push_edges ::
  "queue_item \<Rightarrow> graph_edge list \<Rightarrow> queue_item list \<Rightarrow> string set \<Rightarrow> queue_item list \<times> string set" where
  "push_edges current [] queue visited = (queue, visited)"
| "push_edges current (e # es) queue visited =
     (if ge_target e \<notin> visited
      then push_edges current es (queue @ [push_item current e]) (insert (ge_target e) visited)
      else push_edges current es queue visited)"

definition absent :: path_result where
  "absent = \<lparr>px_found = False, px_nodeIds = [], px_edgeIds = []\<rparr>"

definition unvisited :: "exploration_graph \<Rightarrow> string set \<Rightarrow> nat" where
  "unvisited g visited = card (set (xg_nodes g) - visited)"

lemma push_edges_measure:
  "\<forall>e \<in> set es. ge_target e \<in> set (xg_nodes g) \<Longrightarrow> push_edges current es queue visited = (queue', visited') \<Longrightarrow>
   unvisited g visited' + length queue' = unvisited g visited + length queue"
proof (induction es arbitrary: queue visited)
  case (Cons e es)
  show ?case
  proof (cases "ge_target e \<in> visited")
    case False
    have "unvisited g (insert (ge_target e) visited) = card (set (xg_nodes g) - visited - {ge_target e})"
      unfolding unvisited_def by (rule arg_cong [where f = card]) auto
    also have "\<dots> + 1 = unvisited g visited"
      using False Cons.prems(1) by (simp add: unvisited_def card_Diff_singleton card_gt_0_iff) (metis DiffI Suc_pred card_gt_0_iff empty_iff finite_Diff finite_set)
    finally show ?thesis using Cons False by fastforce
  qed (use Cons in auto)
qed simp

lemma adjacent_set: "e \<in> set (adjacent g s) \<longleftrightarrow>
    e \<in> set (xg_edges g) \<and> ge_source e = s \<and> ge_source e \<in> set (xg_nodes g) \<and> ge_target e \<in> set (xg_nodes g)"
  by (auto simp: adjacent_def)

function search_path ::
  "exploration_graph \<Rightarrow> path_request \<Rightarrow> queue_item list \<Rightarrow> nat \<Rightarrow> string set \<Rightarrow> path_result" where
  "search_path g req queue index visited =
     (if index < length queue then
        let current = queue ! index in
        if qi_id current = pr_to req
        then \<lparr>px_found = True, px_nodeIds = qi_nodeIds current, px_edgeIds = qi_edgeIds current\<rparr>
        else if js_le (pr_maxDepth req) (len_num (qi_edgeIds current))
        then search_path g req queue (Suc index) visited
        else search_path g req (fst (push_edges current (adjacent g (qi_id current)) queue visited)) (Suc index)
               (snd (push_edges current (adjacent g (qi_id current)) queue visited))
      else absent)"
  by pat_completeness auto
termination
proof (relation "measure (\<lambda>(g, req, queue, index, visited). unvisited g visited + length queue - index)")
  fix g :: exploration_graph and req :: path_request and queue index visited and current :: queue_item
  let ?p = "push_edges current (adjacent g (qi_id current)) queue visited"
  assume "index < length queue"
  moreover have "unvisited g (snd ?p) + length (fst ?p) = unvisited g visited + length queue"
    by (rule push_edges_measure [where current = current]) (auto simp: adjacent_set)
  ultimately show "((g, req, fst ?p, Suc index, snd ?p), g, req, queue, index, visited)
      \<in> measure (\<lambda>(g, req, queue, index, visited). unvisited g visited + length queue - index)" by simp
qed simp_all

declare search_path.simps [simp del]

definition findExplorationPath :: "exploration_graph \<Rightarrow> path_request \<Rightarrow> path_result" where
  "findExplorationPath g req =
     (if pr_from req \<notin> set (xg_nodes g) \<or> pr_to req \<notin> set (xg_nodes g) then absent
      else search_path g req [\<lparr>qi_id = pr_from req, qi_nodeIds = [pr_from req], qi_edgeIds = []\<rparr>] 0 {pr_from req})"

section \<open>Walks\<close>

definition usable :: "exploration_graph \<Rightarrow> graph_edge \<Rightarrow> bool" where
  "usable g e \<longleftrightarrow> e \<in> set (xg_edges g) \<and> ge_source e \<in> set (xg_nodes g) \<and> ge_target e \<in> set (xg_nodes g)"

fun walk :: "exploration_graph \<Rightarrow> graph_edge list \<Rightarrow> string \<Rightarrow> string \<Rightarrow> bool" where
  "walk g [] u v \<longleftrightarrow> u = v \<and> u \<in> set (xg_nodes g)"
| "walk g (e # es) u v \<longleftrightarrow> usable g e \<and> ge_source e = u \<and> walk g es (ge_target e) v"

lemma walk_snoc: "walk g (es @ [e]) u v \<longleftrightarrow> walk g es u (ge_source e) \<and> usable g e \<and> ge_target e = v"
  by (induction es arbitrary: u) (auto simp: usable_def)

definition depth :: "queue_item \<Rightarrow> nat" where
  "depth it = length (qi_edgeIds it)"

definition item_ok :: "exploration_graph \<Rightarrow> string \<Rightarrow> queue_item \<Rightarrow> bool" where
  "item_ok g start it \<longleftrightarrow> (\<exists>es. walk g es start (qi_id it) \<and> qi_edgeIds it = map ge_id es
     \<and> qi_nodeIds it = start # map ge_target es)"

lemma push_item_ok:
  "item_ok g start it \<Longrightarrow> usable g e \<Longrightarrow> ge_source e = qi_id it \<Longrightarrow> item_ok g start (push_item it e)"
proof -
  assume "item_ok g start it" "usable g e" "ge_source e = qi_id it"
  then obtain es where "walk g es start (qi_id it)" "qi_edgeIds it = map ge_id es"
      "qi_nodeIds it = start # map ge_target es" by (auto simp: item_ok_def)
  with \<open>usable g e\<close> \<open>ge_source e = qi_id it\<close> show "item_ok g start (push_item it e)"
    unfolding item_ok_def by (intro exI [of _ "es @ [e]"]) (simp add: push_item_def walk_snoc)
qed

lemma depth_push [simp]: "depth (push_item it e) = Suc (depth it)" "qi_id (push_item it e) = ge_target e"
  by (simp_all add: depth_def push_item_def)

section \<open>Invariant of the search\<close>

text \<open>The edges whose targets are new, each target once.\<close>

fun fresh_edges :: "graph_edge list \<Rightarrow> string set \<Rightarrow> graph_edge list" where
  "fresh_edges [] visited = []"
| "fresh_edges (e # es) visited =
     (if ge_target e \<notin> visited then e # fresh_edges es (insert (ge_target e) visited) else fresh_edges es visited)"

lemma push_edges_fresh:
  "push_edges it es queue visited =
     (queue @ map (push_item it) (fresh_edges es visited), visited \<union> ge_target ` set (fresh_edges es visited))"
  by (induction es arbitrary: queue visited) auto

lemma fresh_edges_facts:
  "set (fresh_edges es visited) \<subseteq> set es"
  "ge_target ` set es \<subseteq> visited \<union> ge_target ` set (fresh_edges es visited)"
  "distinct (map ge_target (fresh_edges es visited)) \<and> ge_target ` set (fresh_edges es visited) \<inter> visited = {}"
proof (induction es arbitrary: visited)
  case (Cons e es)
  {
    case 1
    show ?case using Cons(1) [of visited] Cons(1) [of "insert (ge_target e) visited"] by auto
  next
    case 2
    show ?case using Cons(2) [of visited] Cons(2) [of "insert (ge_target e) visited"] by auto
  next
    case 3
    show ?case using Cons(3) [of visited] Cons(3) [of "insert (ge_target e) visited"] by auto
  }
qed simp_all

definition bfs_inv ::
  "exploration_graph \<Rightarrow> path_request \<Rightarrow> nat \<Rightarrow> queue_item list \<Rightarrow> nat \<Rightarrow> string set \<Rightarrow> bool" where
  "bfs_inv g req d queue index visited \<longleftrightarrow>
     (\<forall>it \<in> set queue. item_ok g (pr_from req) it \<and> depth it \<le> d)
     \<and> visited = qi_id ` set queue \<and> distinct (map qi_id queue)
     \<and> queue \<noteq> [] \<and> qi_id (queue ! 0) = pr_from req \<and> depth (queue ! 0) = 0
     \<and> sorted (map depth queue)
     \<and> (index < length queue \<longrightarrow> (\<forall>it \<in> set queue. depth it \<le> Suc (depth (queue ! index))))
     \<and> (\<forall>i < index. i < length queue \<longrightarrow> qi_id (queue ! i) \<noteq> pr_to req \<and>
          (depth (queue ! i) < d \<longrightarrow> (\<forall>e. usable g e \<longrightarrow> ge_source e = qi_id (queue ! i) \<longrightarrow>
             (\<exists>it \<in> set queue. qi_id it = ge_target e \<and> depth it \<le> Suc (depth (queue ! i))))))"

lemma bfs_invD:
  assumes "bfs_inv g req d queue index visited"
  shows "\<And>it. it \<in> set queue \<Longrightarrow> item_ok g (pr_from req) it" and "\<And>it. it \<in> set queue \<Longrightarrow> depth it \<le> d"
    and "visited = qi_id ` set queue" and "distinct (map qi_id queue)" and "sorted (map depth queue)"
    and "queue \<noteq> []" and "qi_id (queue ! 0) = pr_from req" and "depth (queue ! 0) = 0"
    and "\<And>it. index < length queue \<Longrightarrow> it \<in> set queue \<Longrightarrow> depth it \<le> Suc (depth (queue ! index))"
    and "\<And>i. i < index \<Longrightarrow> i < length queue \<Longrightarrow> qi_id (queue ! i) \<noteq> pr_to req"
    and "\<And>i e. i < index \<Longrightarrow> i < length queue \<Longrightarrow> depth (queue ! i) < d \<Longrightarrow> usable g e \<Longrightarrow>
      ge_source e = qi_id (queue ! i) \<Longrightarrow> \<exists>it \<in> set queue. qi_id it = ge_target e \<and> depth it \<le> Suc (depth (queue ! i))"
  using assms unfolding bfs_inv_def by blast+

lemma depth_at: "bfs_inv g req d queue index visited \<Longrightarrow> i \<le> j \<Longrightarrow> j < length queue \<Longrightarrow> depth (queue ! i) \<le> depth (queue ! j)"
  using bfs_invD(5) sorted_nth_mono [of "map depth queue" i j] by fastforce

text \<open>An item too deep to expand is passed over.\<close>

lemma bfs_inv_skip:
  assumes inv: "bfs_inv g req d queue index visited" and i: "index < length queue"
    and cur: "qi_id (queue ! index) \<noteq> pr_to req" "\<not> depth (queue ! index) < d"
  shows "bfs_inv g req d queue (Suc index) visited"
proof -
  note D = bfs_invD [OF inv]
  have "depth it \<le> Suc (depth (queue ! Suc index))" if "Suc index < length queue" "it \<in> set queue" for it
    using D(9) [OF i that(2)] depth_at [OF inv _ that(1), of index] by simp
  with D cur show ?thesis unfolding bfs_inv_def less_Suc_eq by blast
qed

lemma bfs_inv_expand:
  assumes inv: "bfs_inv g req d queue index visited" and i: "index < length queue"
    and cur: "qi_id (queue ! index) \<noteq> pr_to req" "depth (queue ! index) < d"
    and p: "(queue', visited') = push_edges (queue ! index) (adjacent g (qi_id (queue ! index))) queue visited"
  shows "bfs_inv g req d queue' (Suc index) visited'"
proof -
  let ?cur = "queue ! index" and ?es = "adjacent g (qi_id (queue ! index))"
  note D = bfs_invD [OF inv]
  let ?new = "map (push_item ?cur) (fresh_edges ?es visited)"
  have q: "queue' = queue @ ?new" "visited' = visited \<union> ge_target ` set (fresh_edges ?es visited)"
    using p by (simp_all add: push_edges_fresh)
  note F = fresh_edges_facts [of ?es visited]
  have curq: "?cur \<in> set queue" using i by simp
  have old: "depth it \<le> Suc (depth ?cur)" if "it \<in> set queue" for it using D(9) [OF i that] .
  have new: "item_ok g (pr_from req) it \<and> depth it = Suc (depth ?cur)" if it: "it \<in> set ?new" for it
  proof -
    obtain e where e: "e \<in> set (fresh_edges ?es visited)" "it = push_item ?cur e" using it by auto
    then have "e \<in> set ?es" using F(1) by blast
    then have "usable g e" "ge_source e = qi_id ?cur" by (auto simp: adjacent_set usable_def)
    then show ?thesis using push_item_ok [OF D(1) [OF curq]] e(2) by simp
  qed
  have nth: "queue' ! j = queue ! j" if "j < length queue" for j using that by (simp add: q nth_append)
  have bound: "depth it \<le> Suc (depth ?cur)" if it: "it \<in> set queue'" for it
  proof (cases "it \<in> set queue")
    case False
    then have "it \<in> set ?new" using it by (simp add: q)
    then show ?thesis using new by simp
  qed (rule old)
  have reach: "\<exists>it \<in> set queue'. qi_id it = ge_target e \<and> depth it \<le> Suc (depth ?cur)"
    if "usable g e" "ge_source e = qi_id ?cur" for e
  proof -
    have "e \<in> set ?es" using that by (simp add: adjacent_set usable_def)
    then have "ge_target e \<in> visited \<union> ge_target ` set (fresh_edges ?es visited)" using F(2) by blast
    then have "\<exists>it \<in> set queue'. qi_id it = ge_target e" unfolding D(3) q by force
    then show ?thesis using bound by blast
  qed
  have "sorted (map (\<lambda>e. Suc (depth ?cur)) xs)" for xs :: "graph_edge list" by (induction xs) auto
  then have "sorted (map depth queue')"
    using D(5) old unfolding q by (simp add: sorted_append comp_def)
  moreover have "depth it \<le> Suc (depth (queue' ! Suc index))" if "Suc index < length queue'" "it \<in> set queue'" for it
  proof -
    have "depth ?cur \<le> depth (queue' ! Suc index)"
      using calculation that(1) sorted_nth_mono [of "map depth queue'" index "Suc index"] nth [OF i] by simp
    moreover have "depth it \<le> Suc (depth ?cur)" by (rule bound [OF that(2)])
    ultimately show ?thesis by simp
  qed
  moreover have "distinct (map qi_id queue')"
    using D(3,4) F(3) unfolding q by (auto simp: comp_def)
  moreover have "\<forall>it \<in> set queue'. item_ok g (pr_from req) it \<and> depth it \<le> d"
    using D(1,2) new cur(2) unfolding q by fastforce
  moreover have "visited' = qi_id ` set queue'" using D(3) unfolding q by force
  moreover have "\<forall>j < Suc index. j < length queue' \<longrightarrow> qi_id (queue' ! j) \<noteq> pr_to req \<and>
      (depth (queue' ! j) < d \<longrightarrow> (\<forall>e. usable g e \<longrightarrow> ge_source e = qi_id (queue' ! j) \<longrightarrow>
         (\<exists>it \<in> set queue'. qi_id it = ge_target e \<and> depth it \<le> Suc (depth (queue' ! j)))))"
  proof (intro allI impI)
    fix j assume j: "j < Suc index" "j < length queue'"
    then have jq: "j < length queue" using i by simp
    show "qi_id (queue' ! j) \<noteq> pr_to req \<and>
      (depth (queue' ! j) < d \<longrightarrow> (\<forall>e. usable g e \<longrightarrow> ge_source e = qi_id (queue' ! j) \<longrightarrow>
         (\<exists>it \<in> set queue'. qi_id it = ge_target e \<and> depth it \<le> Suc (depth (queue' ! j)))))"
      unfolding nth [OF jq] using D(10,11) [of j] jq j(1) cur(1) reach q(1) less_Suc_eq [of j index]
      by (metis Un_iff set_append)
  qed
  moreover have "queue' \<noteq> [] \<and> qi_id (queue' ! 0) = pr_from req \<and> depth (queue' ! 0) = 0"
    using D(6-8) unfolding q by (simp add: nth_append)
  ultimately show ?thesis unfolding bfs_inv_def by blast
qed

section \<open>Shortest paths\<close>

text \<open>
  Along every walk from the start, either the queue holds its end at no greater depth, or an item is still
  waiting that is no deeper, or the walk is longer than the bound.
\<close>

lemma walk_in_queue:
  assumes inv: "bfs_inv g req d queue index visited"
  shows "walk g es (pr_from req) x \<Longrightarrow>
    (\<exists>it \<in> set queue. qi_id it = x \<and> depth it \<le> length es)
    \<or> (\<exists>j. index \<le> j \<and> j < length queue \<and> depth (queue ! j) \<le> length es) \<or> d < length es"
proof (induction es arbitrary: x rule: rev_induct)
  case Nil
  have "queue ! 0 \<in> set queue" using bfs_invD(6) [OF inv] by simp
  then show ?case using Nil bfs_invD(7,8) [OF inv] by auto
next
  case (snoc e es)
  then have e: "walk g es (pr_from req) (ge_source e)" "usable g e" "ge_target e = x" by (simp_all add: walk_snoc)
  from snoc.IH [OF e(1)] consider
      it where "it \<in> set queue" "qi_id it = ge_source e" "depth it \<le> length es"
    | j where "index \<le> j" "j < length queue" "depth (queue ! j) \<le> length es" | "d < length es" by blast
  then show ?case
  proof cases
    case 1
    then obtain j where j: "j < length queue" "queue ! j = it" by (metis in_set_conv_nth)
    show ?thesis
    proof (cases "j < index \<and> depth it < d")
      case True
      then obtain it' where "it' \<in> set queue" "qi_id it' = x" "depth it' \<le> Suc (depth it)"
        using bfs_invD(11) [OF inv, of j e] j 1(2) e(2,3) by auto
      with 1(3) show ?thesis by fastforce
    next
      case False
      with 1(3) j show ?thesis by (cases "index \<le> j") auto
    qed
  next
    case 2
    then have "depth (queue ! j) \<le> length (es @ [e])" by simp
    with 2(1,2) show ?thesis by blast
  qed simp
qed

definition shortest_answer :: "exploration_graph \<Rightarrow> path_request \<Rightarrow> nat \<Rightarrow> path_result \<Rightarrow> bool" where
  "shortest_answer g req d r \<longleftrightarrow>
     (px_found r \<longleftrightarrow> (\<exists>es. walk g es (pr_from req) (pr_to req) \<and> length es \<le> d))
     \<and> (px_found r \<longrightarrow> (\<exists>es. walk g es (pr_from req) (pr_to req) \<and> px_edgeIds r = map ge_id es
          \<and> px_nodeIds r = pr_from req # map ge_target es
          \<and> (\<forall>es'. walk g es' (pr_from req) (pr_to req) \<longrightarrow> length es \<le> length es')))"

lemma found_is_shortest:
  assumes inv: "bfs_inv g req d queue index visited" and i: "index < length queue"
    and cur: "qi_id (queue ! index) = pr_to req"
  shows "shortest_answer g req d
    \<lparr>px_found = True, px_nodeIds = qi_nodeIds (queue ! index), px_edgeIds = qi_edgeIds (queue ! index)\<rparr>"
proof -
  let ?cur = "queue ! index"
  have curq: "?cur \<in> set queue" using i by simp
  then obtain es where es: "walk g es (pr_from req) (pr_to req)" "qi_edgeIds ?cur = map ge_id es"
      "qi_nodeIds ?cur = pr_from req # map ge_target es"
    using bfs_invD(1) [OF inv curq] cur by (auto simp: item_ok_def)
  then have len: "length es = depth ?cur" by (simp add: depth_def)
  have "length es \<le> d" using bfs_invD(2) [OF inv curq] len by simp
  moreover have "length es \<le> length es'" if w: "walk g es' (pr_from req) (pr_to req)" for es'
  proof -
    consider it where "it \<in> set queue" "qi_id it = pr_to req" "depth it \<le> length es'"
      | j where "index \<le> j" "j < length queue" "depth (queue ! j) \<le> length es'" | "d < length es'"
      using walk_in_queue [OF inv w] by blast
    then show ?thesis
    proof cases
      case 1
      then have "it = ?cur" using curq cur bfs_invD(4) [OF inv] by (metis distinct_map inj_onD)
      with 1(3) len show ?thesis by simp
    next
      case 2
      with depth_at [OF inv 2(1,2)] len show ?thesis by simp
    next
      case 3
      with \<open>length es \<le> d\<close> show ?thesis by simp
    qed
  qed
  ultimately show ?thesis using es unfolding shortest_answer_def by auto
qed

lemma exhausted_is_absent:
  assumes inv: "bfs_inv g req d queue index visited" and i: "\<not> index < length queue"
  shows "shortest_answer g req d absent"
proof -
  have False if w: "walk g es (pr_from req) (pr_to req)" "length es \<le> d" for es
  proof -
    obtain it where "it \<in> set queue" "qi_id it = pr_to req" using walk_in_queue [OF inv w(1)] w(2) i by auto
    then obtain j where "j < length queue" "qi_id (queue ! j) = pr_to req" by (metis in_set_conv_nth)
    then show False using bfs_invD(10) [OF inv, of j] i by simp
  qed
  then show ?thesis by (auto simp: shortest_answer_def absent_def)
qed

lemma search_path_shortest:
  "pr_maxDepth req = int_num (int d) \<Longrightarrow> bfs_inv g req d queue index visited \<Longrightarrow>
   shortest_answer g req d (search_path g req queue index visited)"
proof (induction g req queue index visited rule: search_path.induct)
  case (1 g req queue index visited)
  let ?cur = "queue ! index"
  let ?p = "push_edges ?cur (adjacent g (qi_id ?cur)) queue visited"
  have deep: "js_le (pr_maxDepth req) (len_num (qi_edgeIds ?cur)) \<longleftrightarrow> \<not> depth ?cur < d"
    using "1.prems"(1) by (auto simp: depth_def)
  show ?case
  proof (cases "index < length queue")
    case i: True
    show ?thesis
    proof (cases "qi_id ?cur = pr_to req")
      case True
      then show ?thesis using found_is_shortest [OF "1.prems"(2) i] i by (simp add: search_path.simps [of g req queue] Let_def)
    next
      case new: False
      show ?thesis
      proof (cases "depth ?cur < d")
        case True
        then have "bfs_inv g req d (fst ?p) (Suc index) (snd ?p)"
          using bfs_inv_expand [OF "1.prems"(2) i new] by simp
        then have "shortest_answer g req d (search_path g req (fst ?p) (Suc index) (snd ?p))"
          using "1.IH"(2) "1.prems"(1) i new True deep by simp
        with True i new deep show ?thesis by (simp add: search_path.simps [of g req queue] Let_def)
      next
        case False
        then have "shortest_answer g req d (search_path g req queue (Suc index) visited)"
          using "1.IH"(1) "1.prems"(1) bfs_inv_skip [OF "1.prems"(2) i new] i new deep by simp
        with False i new deep show ?thesis by (simp add: search_path.simps [of g req queue] Let_def)
      qed
    qed
  next
    case False
    then show ?thesis using exhausted_is_absent [OF "1.prems"(2)] by (simp add: search_path.simps [of g req queue])
  qed
qed

text \<open>
  Property C31. The search answers with a shortest path: between known nodes it finds a path exactly when
  one of at most the given number of edges exists, and the path it returns is a walk of the graph
  from the start to the goal that no other walk undercuts.
\<close>

theorem path_is_shortest:
  assumes "pr_maxDepth req = int_num (int d)"
  shows "shortest_answer g req d (findExplorationPath g req)"
proof (cases "pr_from req \<in> set (xg_nodes g) \<and> pr_to req \<in> set (xg_nodes g)")
  case True
  let ?root = "\<lparr>qi_id = pr_from req, qi_nodeIds = [pr_from req], qi_edgeIds = []\<rparr>"
  have "item_ok g (pr_from req) ?root" using True unfolding item_ok_def by (intro exI [of _ "[]"]) simp
  then have "bfs_inv g req d [?root] 0 {pr_from req}" by (simp add: bfs_inv_def depth_def)
  with True search_path_shortest [where req = req, OF assms] show ?thesis by (simp add: findExplorationPath_def)
next
  case False
  have "u \<in> set (xg_nodes g) \<and> v \<in> set (xg_nodes g)" if "walk g es u v" for es u v
    using that by (induction es arbitrary: u) (auto simp: usable_def)
  with False show ?thesis by (auto simp: findExplorationPath_def shortest_answer_def absent_def)
qed

definition demo_graph :: exploration_graph where
  "demo_graph = \<lparr>xg_nodes = [''a'', ''b'', ''c''],
     xg_edges = [\<lparr>ge_id = ''1'', ge_source = ''a'', ge_target = ''b''\<rparr>, \<lparr>ge_id = ''2'', ge_source = ''b'', ge_target = ''c''\<rparr>,
       \<lparr>ge_id = ''3'', ge_source = ''c'', ge_target = ''a''\<rparr>]\<rparr>"

lemma path_is_shortest_witness:
  "px_found (findExplorationPath demo_graph \<lparr>pr_from = ''a'', pr_to = ''c'', pr_maxDepth = Num 2\<rparr>)
   \<and> \<not> px_found (findExplorationPath demo_graph \<lparr>pr_from = ''c'', pr_to = ''b'', pr_maxDepth = Num 0\<rparr>)"
proof -
  let ?r1 = "\<lparr>pr_from = ''a'', pr_to = ''c'', pr_maxDepth = Num 2\<rparr>"
  let ?r2 = "\<lparr>pr_from = ''c'', pr_to = ''b'', pr_maxDepth = Num 0\<rparr>"
  have "\<exists>es. walk demo_graph es ''a'' ''c'' \<and> length es \<le> 2"
    by (rule exI [of _ "[\<lparr>ge_id = ''1'', ge_source = ''a'', ge_target = ''b''\<rparr>, \<lparr>ge_id = ''2'', ge_source = ''b'', ge_target = ''c''\<rparr>]"])
      (simp add: demo_graph_def usable_def)
  moreover have "shortest_answer demo_graph ?r1 2 (findExplorationPath demo_graph ?r1)" by (rule path_is_shortest) simp
  ultimately have "px_found (findExplorationPath demo_graph ?r1)" by (simp add: shortest_answer_def)
  moreover have "shortest_answer demo_graph ?r2 0 (findExplorationPath demo_graph ?r2)" by (rule path_is_shortest) simp
  then have "\<not> px_found (findExplorationPath demo_graph ?r2)" by (auto simp: shortest_answer_def)
  ultimately show ?thesis by blast
qed

end
