(* ===== verification/IntakeAssessment.thy ===== *)
theory IntakeAssessment
  imports NumberText
begin

text \<open>
  \<open>assessIntake\<close> of \<open>packages/data-core/src/intake-assessment.ts\<close>: the assessment of a declared source
  against the facts found in it. The findings are collected in the order in which the code adds them.
\<close>

section \<open>Data\<close>

datatype intake_kind = TABLE | GIS | DOCUMENT | REGISTRATION | INTERFACE
datatype intake_target = DATASET | DESCRIPTION_PAGE | DOWNLOAD_FILE | QUERY_INTERFACE
datatype intake_entry = UNCHECKED | VALID | UNREACHABLE
datatype intake_access =
  Ac_UNKNOWN | Ac_PUBLIC | Ac_LOGIN_REQUIRED | Ac_APPLICATION_REQUIRED | Ac_AUTHORIZED | Ac_RESTRICTED
datatype acquisition =
  REGISTERED_ONLY | DOWNLOAD_CANDIDATE | ORIGINAL_ACQUIRED | PARTIAL_ACQUIRED | REMOTE_QUERY_REPORTED | Aq_FAILED
datatype coverage = Cv_UNKNOWN | Cv_COMPLETE | Cv_PARTIAL | Cv_SAMPLE | Cv_EMPTY | Cv_NOT_A_DATASET
datatype intake_failure =
  Fl_LOGIN_REQUIRED | Fl_FORBIDDEN | Fl_RATE_LIMITED | Fl_TEMPORARY | Fl_NOT_FOUND | Fl_APPLICATION_REQUIRED

record intake_measure =
  im_field :: string
  im_unit :: "string option"

record intake_metadata =
  md_source :: "string option"
  md_authorization :: "string option"
  md_businessKeys :: "string list option"
  md_timeField :: "string option"
  md_measures :: "intake_measure list option"
  md_locator :: "string option"

record self_check =
  sk_ruleVersion :: string
  sk_sourceHash :: string
  sk_model :: "string option"

record intake_declaration =
  id_kind :: intake_kind
  id_target :: intake_target
  id_expectedSourceHash :: string
  id_entry :: intake_entry
  id_access :: intake_access
  id_acquisition :: acquisition
  id_coverage :: coverage
  id_failure :: "intake_failure option"
  id_metadata :: intake_metadata
  id_selfCheck :: "self_check option"

datatype content_status = St_READY | St_EMPTY | St_PARTIAL | St_UNSUPPORTED | St_INVALID | St_RESTRICTED | St_MANIFEST

record source_facts =
  sf_sourceHash :: string
  sf_mediaType :: string
  sf_status :: "content_status option"
  sf_columns :: "string list"
  sf_featureCount :: "js_number option"
  sf_reason :: "string option"

datatype finding_code =
  SOURCE_CHANGED | SELF_CHECK_STALE | MODEL_NOT_VALIDATED | SOURCE_UNKNOWN | AUTHORIZATION_UNKNOWN
| UNIT_UNKNOWN | BUSINESS_KEY_UNKNOWN | FIELD_NOT_FOUND | TIME_ROLE_UNKNOWN | CRS_UNVERIFIED
| LOCATOR_UNKNOWN | TARGET_NOT_ACQUIRED | TARGET_CONTENT_UNVERIFIED | REMOTE_QUERY_UNVERIFIED
| CONTENT_NOT_PARSED | PARTIAL_CONTENT

datatype severity = WARNING | NEEDS_INFORMATION

record finding =
  fd_code :: finding_code
  fd_path :: string
  fd_severity :: severity

datatype use_state = CHECKS_PASSED | Us_NEEDS_INFORMATION | NOT_APPLICABLE

record intake_uses =
  us_map :: use_state
  us_calculation :: use_state
  us_join :: use_state
  us_citation :: use_state

datatype next_action =
  PARSE_SAVED_ORIGINAL | REQUEST_ACCESS | RETRY_LATER | COMPLETE_METADATA | REVIEW_EVIDENCE | ACQUIRE_ORIGINAL

record intake_result =
  ir_sourceHash :: string
  ir_target :: intake_target
  ir_access :: intake_access
  ir_entry :: intake_entry
  ir_acquisition :: acquisition
  ir_coverage :: coverage
  ir_nextAction :: next_action
  ir_uses :: intake_uses
  ir_findings :: "finding list"

section \<open>Strings\<close>

text \<open>\<open>toLowerCase\<close> on the code units of the model, and \<open>includes\<close>.\<close>

definition js_lower_char :: "char \<Rightarrow> char" where
  "js_lower_char c =
     (let n = of_char c :: nat
      in if 65 \<le> n \<and> n \<le> 90 \<or> 192 \<le> n \<and> n \<le> 222 \<and> n \<noteq> 215 then char_of (n + 32) else c)"

definition js_lower :: "string \<Rightarrow> string" where
  "js_lower s = map js_lower_char s"

fun js_includes :: "string \<Rightarrow> string \<Rightarrow> bool" where
  "js_includes [] p = (p = [])"
| "js_includes (c # s) p = (take (length p) (c # s) = p \<or> js_includes s p)"

text \<open>The truth value of an optional or nullable text.\<close>

definition truthy :: "string option \<Rightarrow> bool" where
  "truthy s \<longleftrightarrow> (case s of None \<Rightarrow> False | Some t \<Rightarrow> t \<noteq> [])"

section \<open>Assessment\<close>

definition finding_if :: "bool \<Rightarrow> finding_code \<Rightarrow> string \<Rightarrow> severity \<Rightarrow> finding list" where
  "finding_if b c p s = (if b then [\<lparr>fd_code = c, fd_path = p, fd_severity = s\<rparr>] else [])"

definition indexed_path :: "string \<Rightarrow> nat \<Rightarrow> string \<Rightarrow> string" where
  "indexed_path pre i post = pre @ nat_text i @ post"

text \<open>\<open>hasField\<close>: whether the column exists, and the finding when it does not.\<close>

definition hasField :: "source_facts \<Rightarrow> string \<Rightarrow> string \<Rightarrow> bool \<times> finding list" where
  "hasField facts field path =
     (field \<in> set (sf_columns facts), finding_if (field \<notin> set (sf_columns facts)) FIELD_NOT_FOUND path NEEDS_INFORMATION)"

definition key_check :: "source_facts \<Rightarrow> nat \<times> string \<Rightarrow> bool \<times> finding list" where
  "key_check facts ik = hasField facts (snd ik) (indexed_path ''metadata.businessKeys.'' (fst ik) [])"

definition measure_check :: "source_facts \<Rightarrow> nat \<times> intake_measure \<Rightarrow> bool \<times> finding list" where
  "measure_check facts im =
     (let unit_missing = finding_if (\<not> truthy (im_unit (snd im))) UNIT_UNKNOWN
            (indexed_path ''metadata.measures.'' (fst im) ''.unit'') NEEDS_INFORMATION;
          field = hasField facts (im_field (snd im)) (indexed_path ''metadata.measures.'' (fst im) ''.field'')
      in (fst field \<and> truthy (im_unit (snd im)), unit_missing @ snd field))"

definition general_findings :: "intake_declaration \<Rightarrow> source_facts \<Rightarrow> finding list" where
  "general_findings input facts =
     finding_if (id_expectedSourceHash input \<noteq> sf_sourceHash facts) SOURCE_CHANGED ''expectedSourceHash'' NEEDS_INFORMATION
     @ (case id_selfCheck input of
          None \<Rightarrow> []
        | Some k \<Rightarrow>
            finding_if (sk_ruleVersion k \<noteq> ''wiser.intake.v1'' \<or> sk_sourceHash k \<noteq> sf_sourceHash facts)
              SELF_CHECK_STALE ''selfCheck'' WARNING
            @ finding_if (truthy (sk_model k)) MODEL_NOT_VALIDATED ''selfCheck.model'' WARNING)
     @ finding_if (\<not> truthy (md_source (id_metadata input))) SOURCE_UNKNOWN ''metadata.source'' NEEDS_INFORMATION
     @ finding_if (\<not> truthy (md_authorization (id_metadata input))) AUTHORIZATION_UNKNOWN ''metadata.authorization'' NEEDS_INFORMATION"

definition content_parsed :: "source_facts \<Rightarrow> bool" where
  "content_parsed facts \<longleftrightarrow> sf_status facts \<in> {Some St_READY, Some St_EMPTY, Some St_PARTIAL}"

definition content_findings :: "source_facts \<Rightarrow> finding list" where
  "content_findings facts =
     finding_if (\<not> content_parsed facts) CONTENT_NOT_PARSED ''facts.status'' NEEDS_INFORMATION
     @ finding_if (sf_status facts = Some St_PARTIAL) PARTIAL_CONTENT ''facts.status'' WARNING"

text \<open>The checks of a table: the states for join and calculation, and the findings.\<close>

definition table_checks ::
  "intake_declaration \<Rightarrow> source_facts \<Rightarrow> bool \<Rightarrow> use_state \<times> use_state \<times> finding list" where
  "table_checks input facts base =
     (let metadata = id_metadata input;
          keys = (case md_businessKeys metadata of None \<Rightarrow> [] | Some ks \<Rightarrow> ks);
          keyResults = map (key_check facts) (enumerate 0 keys);
          keysValid = list_all fst keyResults;
          timeResult = (case md_timeField metadata of None \<Rightarrow> (False, []) | Some f \<Rightarrow> hasField facts f ''metadata.time.field'');
          timeValid = fst timeResult;
          measures = (case md_measures metadata of None \<Rightarrow> [] | Some ms \<Rightarrow> ms);
          measureResults = map (measure_check facts) (enumerate 0 measures);
          measuresValid = list_all fst measureResults;
          findings =
            finding_if (keys = []) BUSINESS_KEY_UNKNOWN ''metadata.businessKeys'' NEEDS_INFORMATION
            @ concat (map snd keyResults)
            @ finding_if (md_timeField metadata = None) TIME_ROLE_UNKNOWN ''metadata.time'' NEEDS_INFORMATION
            @ snd timeResult
            @ finding_if (measures = []) UNIT_UNKNOWN ''metadata.measures'' NEEDS_INFORMATION
            @ concat (map snd measureResults)
      in (if base \<and> content_parsed facts \<and> length keys > 0 \<and> keysValid \<and> timeValid
          then CHECKS_PASSED else Us_NEEDS_INFORMATION,
          if base \<and> content_parsed facts \<and> length measures > 0 \<and> measuresValid \<and> timeValid
          then CHECKS_PASSED else Us_NEEDS_INFORMATION,
          findings))"

definition gis_valid :: "source_facts \<Rightarrow> bool" where
  "gis_valid facts \<longleftrightarrow> js_lt (Num 0) (case sf_featureCount facts of None \<Rightarrow> Num 0 | Some n \<Rightarrow> n)
     \<and> sf_reason facts \<noteq> Some ''UNKNOWN_CRS'' \<and> sf_reason facts \<noteq> Some ''CONFLICTING_CRS''"

definition page_only :: "intake_declaration \<Rightarrow> source_facts \<Rightarrow> bool" where
  "page_only input facts \<longleftrightarrow> id_target input = DATASET
     \<and> (js_includes (js_lower (sf_mediaType facts)) ''html''
        \<or> sf_reason facts \<in> {Some ''LOGIN_PAGE'', Some ''INTRODUCTION_PAGE''})"

text \<open>The acquisition state that the facts allow, and the findings on the way.\<close>

definition acquisition_checks :: "intake_declaration \<Rightarrow> source_facts \<Rightarrow> acquisition \<times> finding list" where
  "acquisition_checks input facts =
     (let notTarget = (page_only input facts \<and> id_acquisition input \<in> {ORIGINAL_ACQUIRED, PARTIAL_ACQUIRED});
          a1 = (if notTarget then REGISTERED_ONLY else id_acquisition input);
          unverified = (id_target input = DATASET \<and> sf_status facts = Some St_INVALID
            \<and> a1 \<in> {ORIGINAL_ACQUIRED, PARTIAL_ACQUIRED});
          a2 = (if unverified then REGISTERED_ONLY else a1);
          a3 = (if a2 \<in> {ORIGINAL_ACQUIRED, PARTIAL_ACQUIRED} \<and> id_coverage input \<in> {Cv_SAMPLE, Cv_PARTIAL}
                then PARTIAL_ACQUIRED else a2)
      in (a3, finding_if notTarget TARGET_NOT_ACQUIRED ''acquisition'' NEEDS_INFORMATION
            @ finding_if unverified TARGET_CONTENT_UNVERIFIED ''facts.status'' NEEDS_INFORMATION
            @ finding_if (a2 = REMOTE_QUERY_REPORTED) REMOTE_QUERY_UNVERIFIED ''acquisition'' WARNING))"

definition next_action_for ::
  "intake_declaration \<Rightarrow> source_facts \<Rightarrow> acquisition \<Rightarrow> finding list \<Rightarrow> next_action" where
  "next_action_for input facts acq findings =
     (let saved = (acq = ORIGINAL_ACQUIRED \<or> acq = PARTIAL_ACQUIRED);
          accessFailed = (acq = Aq_FAILED
            \<and> id_failure input \<in> {Some Fl_LOGIN_REQUIRED, Some Fl_FORBIDDEN, Some Fl_APPLICATION_REQUIRED})
      in if \<not> saved \<and> (accessFailed \<or> id_access input \<in> {Ac_APPLICATION_REQUIRED, Ac_LOGIN_REQUIRED, Ac_RESTRICTED})
         then REQUEST_ACCESS
         else if acq = Aq_FAILED \<and> id_failure input \<in> {Some Fl_RATE_LIMITED, Some Fl_TEMPORARY} then RETRY_LATER
         else if saved \<and> sf_status facts = None then PARSE_SAVED_ORIGINAL
         else if \<not> saved then ACQUIRE_ORIGINAL
         else if list_ex (\<lambda>f. fd_severity f = NEEDS_INFORMATION) findings then COMPLETE_METADATA
         else REVIEW_EVIDENCE)"

definition assessIntake :: "intake_declaration \<Rightarrow> source_facts \<Rightarrow> intake_result" where
  "assessIntake input facts =
     (let metadata = id_metadata input;
          base = (id_expectedSourceHash input = sf_sourceHash facts \<and> truthy (md_source metadata)
            \<and> truthy (md_authorization metadata));
          (join, calculation, tableFindings) =
            (if id_kind input = TABLE then table_checks input facts base else (NOT_APPLICABLE, NOT_APPLICABLE, []));
          mapUse = (if id_kind input = GIS
            then (if base \<and> content_parsed facts \<and> gis_valid facts then CHECKS_PASSED else Us_NEEDS_INFORMATION)
            else NOT_APPLICABLE);
          citation = (if base \<and> truthy (md_locator metadata) then CHECKS_PASSED else Us_NEEDS_INFORMATION);
          (acq, acquisitionFindings) = acquisition_checks input facts;
          findings = general_findings input facts @ content_findings facts @ tableFindings
            @ finding_if (id_kind input = GIS \<and> \<not> gis_valid facts) CRS_UNVERIFIED ''facts.featureCount'' NEEDS_INFORMATION
            @ finding_if (\<not> truthy (md_locator metadata)) LOCATOR_UNKNOWN ''metadata.locator'' NEEDS_INFORMATION
            @ acquisitionFindings
      in \<lparr>ir_sourceHash = sf_sourceHash facts, ir_target = id_target input, ir_access = id_access input,
          ir_entry = id_entry input, ir_acquisition = acq, ir_coverage = id_coverage input,
          ir_nextAction = next_action_for input facts acq findings,
          ir_uses = \<lparr>us_map = mapUse, us_calculation = calculation, us_join = join, us_citation = citation\<rparr>,
          ir_findings = findings\<rparr>)"

section \<open>Properties\<close>

definition needs_information :: "finding list \<Rightarrow> bool" where
  "needs_information fs \<longleftrightarrow> (\<exists>f \<in> set fs. fd_severity f = NEEDS_INFORMATION)"

lemma needs_information_simps [simp]:
  "\<not> needs_information []"
  "needs_information (fs @ gs) \<longleftrightarrow> needs_information fs \<or> needs_information gs"
  "needs_information (finding_if b c p s) \<longleftrightarrow> b \<and> s = NEEDS_INFORMATION"
  "needs_information (concat fss) \<longleftrightarrow> (\<exists>fs \<in> set fss. needs_information fs)"
  by (auto simp: needs_information_def finding_if_def)

lemma check_needs_information [simp]:
  "needs_information (snd (hasField facts f p)) \<longleftrightarrow> \<not> fst (hasField facts f p)"
  "needs_information (snd (key_check facts ik)) \<longleftrightarrow> \<not> fst (key_check facts ik)"
  "needs_information (snd (measure_check facts im)) \<longleftrightarrow> \<not> fst (measure_check facts im)"
  by (auto simp: hasField_def key_check_def measure_check_def Let_def)

lemma table_needs_information:
  assumes "table_checks input facts base = (join, calculation, fs)" and "base" and "content_parsed facts"
    and "\<not> needs_information fs"
  shows "join = CHECKS_PASSED \<and> calculation = CHECKS_PASSED"
  using assms by (cases "md_timeField (id_metadata input)") (auto simp: table_checks_def Let_def list_all_iff)

lemma acquisition_checks_state:
  "acquisition_checks input facts = (acq, fs) \<Longrightarrow> acq \<in> {ORIGINAL_ACQUIRED, PARTIAL_ACQUIRED} \<Longrightarrow>
   id_acquisition input \<in> {ORIGINAL_ACQUIRED, PARTIAL_ACQUIRED}
   \<and> \<not> page_only input facts \<and> \<not> (id_target input = DATASET \<and> sf_status facts = Some St_INVALID)
   \<and> (acq = ORIGINAL_ACQUIRED \<longrightarrow> id_acquisition input = ORIGINAL_ACQUIRED \<and> id_coverage input \<notin> {Cv_SAMPLE, Cv_PARTIAL})"
  by (auto simp: acquisition_checks_def Let_def split: if_splits)

lemma length_finding_if: "length (finding_if b c p s) \<le> 1"
  by (simp add: finding_if_def)

lemma length_checks:
  "length (snd (hasField facts f p)) \<le> 1" "length (snd (key_check facts ik)) \<le> 1"
  "length (snd (measure_check facts im)) \<le> 2"
  by (auto simp: hasField_def key_check_def measure_check_def finding_if_def Let_def)

lemma length_concat_le: "\<forall>xs \<in> set xss. length xs \<le> k \<Longrightarrow> length (concat xss) \<le> k * length xss"
  by (induction xss) auto

lemma length_all_checks:
  "length (concat (map snd (map (key_check facts) (enumerate 0 ks)))) \<le> length ks"
  "length (concat (map snd (map (measure_check facts) (enumerate 0 ms)))) \<le> 2 * length ms"
proof -
  have "length (concat (map snd (map (key_check facts) (enumerate 0 ks)))) \<le> 1 * length (map snd (map (key_check facts) (enumerate 0 ks)))"
    by (rule length_concat_le) (use length_checks(2) in force)
  then show "length (concat (map snd (map (key_check facts) (enumerate 0 ks)))) \<le> length ks" by simp
  have "length (concat (map snd (map (measure_check facts) (enumerate 0 ms))))
      \<le> 2 * length (map snd (map (measure_check facts) (enumerate 0 ms)))"
    by (rule length_concat_le) (use length_checks(3) in force)
  then show "length (concat (map snd (map (measure_check facts) (enumerate 0 ms)))) \<le> 2 * length ms" by simp
qed

lemma length_table_findings:
  assumes "table_checks input facts base = (join, calculation, fs)"
    and "length (case md_businessKeys (id_metadata input) of None \<Rightarrow> [] | Some ks \<Rightarrow> ks) \<le> 16"
    and "length (case md_measures (id_metadata input) of None \<Rightarrow> [] | Some ms \<Rightarrow> ms) \<le> 32"
  shows "length fs \<le> 84"
proof -
  define ks where "ks = (case md_businessKeys (id_metadata input) of None \<Rightarrow> [] | Some ks \<Rightarrow> ks)"
  define ms where "ms = (case md_measures (id_metadata input) of None \<Rightarrow> [] | Some ms \<Rightarrow> ms)"
  define tr where "tr = (case md_timeField (id_metadata input) of None \<Rightarrow> (False, [])
      | Some f \<Rightarrow> hasField facts f ''metadata.time.field'')"
  have fs: "fs = finding_if (ks = []) BUSINESS_KEY_UNKNOWN ''metadata.businessKeys'' NEEDS_INFORMATION
      @ concat (map snd (map (key_check facts) (enumerate 0 ks)))
      @ finding_if (md_timeField (id_metadata input) = None) TIME_ROLE_UNKNOWN ''metadata.time'' NEEDS_INFORMATION
      @ snd tr
      @ finding_if (ms = []) UNIT_UNKNOWN ''metadata.measures'' NEEDS_INFORMATION
      @ concat (map snd (map (measure_check facts) (enumerate 0 ms)))"
    using assms(1) by (simp add: table_checks_def Let_def ks_def ms_def tr_def)
  have "length (snd tr) \<le> 1" using length_checks(1) by (simp add: tr_def split: option.splits)
  moreover have "length ks \<le> 16" "length ms \<le> 32" using assms(2,3) by (simp_all add: ks_def ms_def)
  moreover note length_all_checks(1) [of facts ks] length_all_checks(2) [of facts ms]
    length_finding_if [of "ks = []" BUSINESS_KEY_UNKNOWN "''metadata.businessKeys''" NEEDS_INFORMATION]
    length_finding_if [of "md_timeField (id_metadata input) = None" TIME_ROLE_UNKNOWN "''metadata.time''" NEEDS_INFORMATION]
    length_finding_if [of "ms = []" UNIT_UNKNOWN "''metadata.measures''" NEEDS_INFORMATION]
  ultimately show ?thesis unfolding fs length_append by linarith
qed

lemma assessIntake_parts:
  fixes input facts
  defines "base \<equiv> id_expectedSourceHash input = sf_sourceHash facts \<and> truthy (md_source (id_metadata input))
      \<and> truthy (md_authorization (id_metadata input))"
  assumes "acquisition_checks input facts = (acq, acqFindings)"
    and "(if id_kind input = TABLE then table_checks input facts base else (NOT_APPLICABLE, NOT_APPLICABLE, []))
      = (join, calculation, tableFindings)"
  defines "fs \<equiv> general_findings input facts @ content_findings facts @ tableFindings
      @ finding_if (id_kind input = GIS \<and> \<not> gis_valid facts) CRS_UNVERIFIED ''facts.featureCount'' NEEDS_INFORMATION
      @ finding_if (\<not> truthy (md_locator (id_metadata input))) LOCATOR_UNKNOWN ''metadata.locator'' NEEDS_INFORMATION
      @ acqFindings"
  shows "ir_findings (assessIntake input facts) = fs" "ir_acquisition (assessIntake input facts) = acq"
    "ir_nextAction (assessIntake input facts) = next_action_for input facts acq fs"
    "ir_uses (assessIntake input facts) = \<lparr>us_map = (if id_kind input = GIS
        then (if base \<and> content_parsed facts \<and> gis_valid facts then CHECKS_PASSED else Us_NEEDS_INFORMATION)
        else NOT_APPLICABLE), us_calculation = calculation, us_join = join,
      us_citation = (if base \<and> truthy (md_locator (id_metadata input)) then CHECKS_PASSED else Us_NEEDS_INFORMATION)\<rparr>"
  using assms(2,3) unfolding base_def fs_def by (simp_all add: assessIntake_def Let_def)

text \<open>
  An assessment that sends a source on to the review of its evidence has found everything it
  asks for: the original was declared acquired, wholly or in part, and no fact speaks against it, its content
  hash is the expected one and its content parsed, and every use that applies to its kind passed
  its checks; in any assessment the acquisition is never raised above the declared one.
\<close>

theorem review_only_with_complete_evidence:
  assumes "ir_nextAction (assessIntake input facts) = REVIEW_EVIDENCE"
  shows "sf_sourceHash facts = id_expectedSourceHash input \<and> content_parsed facts
    \<and> us_map (ir_uses (assessIntake input facts)) = (if id_kind input = GIS then CHECKS_PASSED else NOT_APPLICABLE)
    \<and> us_join (ir_uses (assessIntake input facts)) = (if id_kind input = TABLE then CHECKS_PASSED else NOT_APPLICABLE)
    \<and> us_calculation (ir_uses (assessIntake input facts)) = (if id_kind input = TABLE then CHECKS_PASSED else NOT_APPLICABLE)
    \<and> us_citation (ir_uses (assessIntake input facts)) = CHECKS_PASSED
    \<and> id_acquisition input \<in> {ORIGINAL_ACQUIRED, PARTIAL_ACQUIRED} \<and> \<not> page_only input facts
    \<and> (ir_acquisition (assessIntake input facts) = ORIGINAL_ACQUIRED \<longrightarrow> id_acquisition input = ORIGINAL_ACQUIRED)"
proof -
  let ?base = "id_expectedSourceHash input = sf_sourceHash facts \<and> truthy (md_source (id_metadata input))
      \<and> truthy (md_authorization (id_metadata input))"
  obtain acq af where a: "acquisition_checks input facts = (acq, af)" by fastforce
  obtain join calc tf where t: "(if id_kind input = TABLE then table_checks input facts ?base
      else (NOT_APPLICABLE, NOT_APPLICABLE, [])) = (join, calc, tf)" by (metis prod_cases3)
  note parts = assessIntake_parts [OF a t]
  let ?fs = "ir_findings (assessIntake input facts)"
  have "next_action_for input facts acq ?fs = REVIEW_EVIDENCE" using assms unfolding parts(3) parts(1) .
  then have saved: "acq \<in> {ORIGINAL_ACQUIRED, PARTIAL_ACQUIRED}" and none: "\<not> needs_information ?fs"
    by (auto simp: next_action_for_def Let_def needs_information_def list_ex_iff split: if_splits)
  have base: ?base and parsed: "content_parsed facts" and loc: "truthy (md_locator (id_metadata input))"
    and gis: "id_kind input = GIS \<longrightarrow> gis_valid facts" and tab: "\<not> needs_information tf"
    using none unfolding parts(1) by (simp_all add: general_findings_def content_findings_def)
  have "id_kind input = TABLE \<longrightarrow> join = CHECKS_PASSED \<and> calc = CHECKS_PASSED"
    using table_needs_information [of input facts ?base join calc tf] t base parsed tab by auto
  moreover have "id_kind input \<noteq> TABLE \<longrightarrow> join = NOT_APPLICABLE \<and> calc = NOT_APPLICABLE" using t by auto
  ultimately show ?thesis
    using acquisition_checks_state [OF a saved] base parsed loc gis unfolding parts(2,4) by auto
qed

definition demo_declaration :: intake_declaration where
  "demo_declaration = \<lparr>id_kind = GIS, id_target = DATASET, id_expectedSourceHash = ''h'', id_entry = VALID,
     id_access = Ac_PUBLIC, id_acquisition = ORIGINAL_ACQUIRED, id_coverage = Cv_COMPLETE, id_failure = None,
     id_metadata = \<lparr>md_source = Some ''s'', md_authorization = Some ''a'', md_businessKeys = None, md_timeField = None,
       md_measures = None, md_locator = Some ''l''\<rparr>, id_selfCheck = None\<rparr>"

definition demo_facts :: source_facts where
  "demo_facts = \<lparr>sf_sourceHash = ''h'', sf_mediaType = ''text/csv'', sf_status = Some St_READY, sf_columns = [],
     sf_featureCount = Some (Num 3), sf_reason = None\<rparr>"

lemma review_only_with_complete_evidence_witness:
  "us_map (ir_uses (assessIntake demo_declaration demo_facts)) = CHECKS_PASSED"
proof -
  have "\<not> page_only demo_declaration demo_facts"
    by (simp add: page_only_def demo_declaration_def demo_facts_def js_lower_def) code_simp
  then have "ir_nextAction (assessIntake demo_declaration demo_facts) = REVIEW_EVIDENCE"
    by (simp add: assessIntake_def demo_declaration_def demo_facts_def general_findings_def content_findings_def
        content_parsed_def gis_valid_def acquisition_checks_def next_action_for_def finding_if_def truthy_def Let_def)
  from review_only_with_complete_evidence [OF this] show ?thesis by (simp add: demo_declaration_def)
qed

text \<open>
  The result keeps to its own contract: for a declaration of at most 16 business keys and 32
  measures there are never more than the 128 findings that the result's schema admits.
\<close>

theorem findings_bounded:
  assumes "length (case md_businessKeys (id_metadata input) of None \<Rightarrow> [] | Some ks \<Rightarrow> ks) \<le> 16"
    and "length (case md_measures (id_metadata input) of None \<Rightarrow> [] | Some ms \<Rightarrow> ms) \<le> 32"
  shows "length (ir_findings (assessIntake input facts)) \<le> 128"
proof -
  let ?base = "id_expectedSourceHash input = sf_sourceHash facts \<and> truthy (md_source (id_metadata input))
      \<and> truthy (md_authorization (id_metadata input))"
  obtain acq af where a: "acquisition_checks input facts = (acq, af)" by fastforce
  obtain join calc tf where t: "(if id_kind input = TABLE then table_checks input facts ?base
      else (NOT_APPLICABLE, NOT_APPLICABLE, [])) = (join, calc, tf)" by (metis prod_cases3)
  have "length tf \<le> 84" using length_table_findings [OF _ assms] t by (auto split: if_splits)
  moreover have "length af \<le> 3" using a by (auto simp: acquisition_checks_def Let_def finding_if_def)
  moreover have "length (general_findings input facts) \<le> 5"
    by (auto simp: general_findings_def finding_if_def split: option.splits)
  moreover have "length (content_findings facts) \<le> 2" by (simp add: content_findings_def finding_if_def)
  ultimately show ?thesis
    using length_finding_if [of "id_kind input = GIS \<and> \<not> gis_valid facts" CRS_UNVERIFIED]
      length_finding_if [of "\<not> truthy (md_locator (id_metadata input))" LOCATOR_UNKNOWN]
    unfolding assessIntake_parts(1) [OF a t] by (simp add: finding_if_def)
qed

lemma findings_bounded_witness:
  "length (ir_findings (assessIntake demo_declaration demo_facts)) \<le> 128"
  by (rule findings_bounded) (simp_all add: demo_declaration_def)

end
