(* ===== verification/ExplorationReadiness.thy ===== *)
theory ExplorationReadiness
  imports IntakeAssessment Quality
begin

text \<open>
  \<open>packages/data-core/src/exploration-readiness.ts\<close>: which views of a resource are ready, from the
  results of its analysis. Counts are summed as doubles.
\<close>

datatype readiness =
  Rd_NOT_PARSED | Rd_READY | Rd_PARTIAL | Rd_UNSUPPORTED | Rd_INVALID | Rd_RESTRICTED
| Rd_METADATA_ONLY | Rd_EMPTY | Rd_NO_SPATIAL_DATA | Rd_CRS_UNVERIFIED

record analysis_asset =
  aa_status :: content_status
  aa_reason :: "string option"
  aa_recordCount :: "js_number option"
  aa_featureCount :: "js_number option"

record readiness_facts =
  rf_analyzed :: bool
  rf_partial :: bool
  rf_assets :: "analysis_asset list"
  rf_legacyRecordCount :: js_number
  rf_legacyFeatureCount :: js_number

record readiness_answer =
  ra_records :: readiness
  ra_spatial :: readiness
  ra_recordCount :: "js_number option"
  ra_featureCount :: "js_number option"

text \<open>\<open>x || null\<close> and \<open>x ?? 0\<close> on numbers.\<close>

definition or_null :: "js_number \<Rightarrow> js_number option" where
  "or_null x = (if x = Num 0 \<or> x = NaN then None else Some x)"

definition or_zero :: "js_number option \<Rightarrow> js_number" where
  "or_zero x = (case x of None \<Rightarrow> Num 0 | Some n \<Rightarrow> n)"

definition legacy_readiness :: "js_number \<Rightarrow> readiness" where
  "legacy_readiness n = (if js_lt (Num 0) n then Rd_READY else Rd_NOT_PARSED)"

definition counted_assets :: "readiness_facts \<Rightarrow> analysis_asset list" where
  "counted_assets facts =
     filter (\<lambda>a. aa_status a \<noteq> St_MANIFEST \<and> aa_reason a \<noteq> Some ''FORMAT_COMPANION'') (rf_assets facts)"

definition sum_counts :: "(analysis_asset \<Rightarrow> js_number option) \<Rightarrow> analysis_asset list \<Rightarrow> js_number" where
  "sum_counts field assets = foldl (\<lambda>s a. js_add s (or_zero (field a))) (Num 0) assets"

definition unavailable :: "analysis_asset list \<Rightarrow> readiness" where
  "unavailable assets =
     (if list_all (\<lambda>a. aa_status a = St_INVALID) assets then Rd_INVALID
      else if list_all (\<lambda>a. aa_status a = St_RESTRICTED) assets then Rd_RESTRICTED else Rd_UNSUPPORTED)"

definition calculateExplorationReadiness :: "readiness_facts \<Rightarrow> readiness_answer" where
  "calculateExplorationReadiness facts =
     (if \<not> rf_analyzed facts then
        \<lparr>ra_records = legacy_readiness (rf_legacyRecordCount facts), ra_spatial = legacy_readiness (rf_legacyFeatureCount facts),
         ra_recordCount = or_null (rf_legacyRecordCount facts), ra_featureCount = or_null (rf_legacyFeatureCount facts)\<rparr>
      else
        let assets = counted_assets facts in
        if length assets = 0 then
          \<lparr>ra_records = Rd_METADATA_ONLY, ra_spatial = Rd_METADATA_ONLY, ra_recordCount = None, ra_featureCount = None\<rparr>
        else
          let parsed = filter (\<lambda>a. aa_recordCount a \<noteq> None) assets;
              recordCount = (if parsed \<noteq> [] then Some (sum_counts aa_recordCount parsed) else None);
              featureCount = (if parsed \<noteq> [] then Some (sum_counts aa_featureCount parsed) else None);
              records = (case recordCount of
                  None \<Rightarrow> unavailable assets
                | Some n \<Rightarrow> if rf_partial facts then Rd_PARTIAL else if js_eq n (Num 0) then Rd_EMPTY else Rd_READY);
              spatial = (if js_lt (Num 0) (or_zero featureCount) then (if rf_partial facts then Rd_PARTIAL else Rd_READY)
                else if list_ex (\<lambda>a. aa_reason a \<in> {Some ''UNKNOWN_CRS'', Some ''TRANSFORM_UNAVAILABLE''}) assets
                then Rd_CRS_UNVERIFIED
                else (case recordCount of None \<Rightarrow> unavailable assets | Some _ \<Rightarrow> Rd_NO_SPATIAL_DATA))
          in \<lparr>ra_records = records, ra_spatial = spatial, ra_recordCount = recordCount, ra_featureCount = featureCount\<rparr>)"

section \<open>Properties\<close>

lemma js_add_comm: "js_add a b = js_add b a"
  by (cases a; cases b) (simp_all add: add.commute)

lemma js_add_mono2:
  assumes "nonneg a" "nonneg b" "nonneg c" "nonneg d" "js_le a c" "js_le b d"
  shows "js_le (js_add a b) (js_add c d)"
  using js_add_mono [of a b c] js_add_mono [of b c d] assms js_add_comm [of c b] js_add_comm [of c d] js_le_trans by metis

definition counts_consistent :: "analysis_asset \<Rightarrow> bool" where
  "counts_consistent a \<longleftrightarrow> nonneg (or_zero (aa_featureCount a)) \<and> nonneg (or_zero (aa_recordCount a))
     \<and> js_le (or_zero (aa_featureCount a)) (or_zero (aa_recordCount a))"

lemma sums_ordered_counts:
  assumes "\<forall>a \<in> set assets. counts_consistent a"
  shows "nonneg (sum_counts aa_featureCount assets) \<and> nonneg (sum_counts aa_recordCount assets)
    \<and> js_le (sum_counts aa_featureCount assets) (sum_counts aa_recordCount assets)"
proof -
  have key: "nonneg (foldl (\<lambda>s a. js_add s (or_zero (aa_featureCount a))) f assets)
      \<and> nonneg (foldl (\<lambda>s a. js_add s (or_zero (aa_recordCount a))) r assets)
      \<and> js_le (foldl (\<lambda>s a. js_add s (or_zero (aa_featureCount a))) f assets)
           (foldl (\<lambda>s a. js_add s (or_zero (aa_recordCount a))) r assets)"
    if "nonneg f" "nonneg r" "js_le f r" for f r
    using that assms
  proof (induction assets arbitrary: f r)
    case (Cons a assets)
    then have "counts_consistent a" by simp
    then have "nonneg (js_add f (or_zero (aa_featureCount a)))" "nonneg (js_add r (or_zero (aa_recordCount a)))"
        "js_le (js_add f (or_zero (aa_featureCount a))) (js_add r (or_zero (aa_recordCount a)))"
      using Cons.prems(1-3) by (simp_all add: counts_consistent_def nonneg_add js_add_mono2)
    from Cons.IH [OF this] Cons.prems(4) show ?case by simp
  qed simp
  show ?thesis unfolding sum_counts_def by (rule key) simp_all
qed

text \<open>
  A map is never offered without records: when the analysis counted no more features than records
  in each asset, spatial data that is ready, or partial, comes with records that are ready, or partial,
  in the same way, and with at least as many of them.
\<close>

theorem spatial_data_has_records:
  assumes "rf_analyzed facts" and "\<forall>a \<in> set (rf_assets facts). counts_consistent a"
    and "ra_spatial (calculateExplorationReadiness facts) = v" and "v \<in> {Rd_READY, Rd_PARTIAL}"
  shows "ra_records (calculateExplorationReadiness facts) = v
    \<and> (\<exists>n m. ra_featureCount (calculateExplorationReadiness facts) = Some n
         \<and> ra_recordCount (calculateExplorationReadiness facts) = Some m \<and> js_lt (Num 0) n \<and> js_le n m)"
proof -
  let ?assets = "counted_assets facts"
  let ?parsed = "filter (\<lambda>a. aa_recordCount a \<noteq> None) ?assets"
  let ?f = "sum_counts aa_featureCount ?parsed" and ?r = "sum_counts aa_recordCount ?parsed"
  have sums: "js_le ?f ?r" using sums_ordered_counts [of ?parsed] assms(2) by (simp add: counted_assets_def)
  have un: "unavailable ?assets \<notin> {Rd_READY, Rd_PARTIAL}" by (simp add: unavailable_def)
  have spatial: "?assets \<noteq> [] \<and> ?parsed \<noteq> [] \<and> js_lt (Num 0) ?f"
    using assms(1,3,4) un by (auto simp: calculateExplorationReadiness_def Let_def or_zero_def split: if_splits)
  then have "js_lt (Num 0) ?r" using sums js_lt_le_trans by blast
  then have "\<not> js_eq ?r (Num 0)" by (auto simp: js_eq_def)
  then show ?thesis
    using assms(1,3) spatial sums by (auto simp: calculateExplorationReadiness_def Let_def or_zero_def split: if_splits)
qed

definition demo_readiness :: readiness_facts where
  "demo_readiness = \<lparr>rf_analyzed = True, rf_partial = False,
     rf_assets = [\<lparr>aa_status = St_READY, aa_reason = None, aa_recordCount = Some (Num 2), aa_featureCount = Some (Num 1)\<rparr>],
     rf_legacyRecordCount = Num 0, rf_legacyFeatureCount = Num 0\<rparr>"

lemma spatial_data_has_records_witness: "ra_records (calculateExplorationReadiness demo_readiness) = Rd_READY"
proof -
  have "ra_spatial (calculateExplorationReadiness demo_readiness) = Rd_READY"
    by (simp add: calculateExplorationReadiness_def demo_readiness_def counted_assets_def sum_counts_def or_zero_def Let_def)
  then show ?thesis
    using spatial_data_has_records [of demo_readiness Rd_READY]
    by (simp add: demo_readiness_def counts_consistent_def or_zero_def)
qed

end
