(* ===== verification/KnowledgeRelations.thy ===== *)
theory KnowledgeRelations
  imports JsonText
begin

text \<open>
  \<open>packages/data-core/src/knowledge-relations.ts\<close>: candidate relations are checked against the registry of
  predicates and grouped by subject, predicate and object; the evidence of a group is collected.

  The rows of the model are the results of the schema's \<open>parse\<close>, a library call that returns equal values
  when it is applied to its own results. \<open>JSON.stringify\<close> of an entity, of the attributes and of an item of
  evidence is the text of the value whose entries come in the order of the schema. An \<open>Error\<close> without
  a code is modelled by its message.
\<close>

section \<open>Data\<close>

datatype entity_kind =
  ENTERPRISE | MONITORING_POINT | INDICATOR_RECORD | RIVER_REACH | BASIN | EXTERNAL_ENTITY | PERSON
| ORGANIZATION | CLAIM | EVENT | DOCUMENT_ENTITY | OBSERVATION | POLICY | MODEL_RUN | PLACE

fun kind_text :: "entity_kind \<Rightarrow> string" where
  "kind_text ENTERPRISE = ''ENTERPRISE''"
| "kind_text MONITORING_POINT = ''MONITORING_POINT''"
| "kind_text INDICATOR_RECORD = ''INDICATOR_RECORD''"
| "kind_text RIVER_REACH = ''RIVER_REACH''"
| "kind_text BASIN = ''BASIN''"
| "kind_text EXTERNAL_ENTITY = ''EXTERNAL_ENTITY''"
| "kind_text PERSON = ''PERSON''"
| "kind_text ORGANIZATION = ''ORGANIZATION''"
| "kind_text CLAIM = ''CLAIM''"
| "kind_text EVENT = ''EVENT''"
| "kind_text DOCUMENT_ENTITY = ''DOCUMENT''"
| "kind_text OBSERVATION = ''OBSERVATION''"
| "kind_text POLICY = ''POLICY''"
| "kind_text MODEL_RUN = ''MODEL_RUN''"
| "kind_text PLACE = ''PLACE''"

datatype predicate =
  HAS_DECLARED_MONITORING_POINT | HAS_REPORTED_INDICATOR | FLOWS_TO | BELONGS_TO_BASIN
| CANDIDATE_RECEIVING_WATER | IDENTITY_MATCH | EXPRESSES_CLAIM | REPORTS_CLAIM | ABOUT_ENTITY
| OBSERVES_ENTITY | OCCURRED_IN | CITES_SOURCE | DERIVED_FROM | APPLIES_TO | USES_DATA

fun predicate_text :: "predicate \<Rightarrow> string" where
  "predicate_text HAS_DECLARED_MONITORING_POINT = ''HAS_DECLARED_MONITORING_POINT''"
| "predicate_text HAS_REPORTED_INDICATOR = ''HAS_REPORTED_INDICATOR''"
| "predicate_text FLOWS_TO = ''FLOWS_TO''"
| "predicate_text BELONGS_TO_BASIN = ''BELONGS_TO_BASIN''"
| "predicate_text CANDIDATE_RECEIVING_WATER = ''CANDIDATE_RECEIVING_WATER''"
| "predicate_text IDENTITY_MATCH = ''IDENTITY_MATCH''"
| "predicate_text EXPRESSES_CLAIM = ''EXPRESSES_CLAIM''"
| "predicate_text REPORTS_CLAIM = ''REPORTS_CLAIM''"
| "predicate_text ABOUT_ENTITY = ''ABOUT_ENTITY''"
| "predicate_text OBSERVES_ENTITY = ''OBSERVES_ENTITY''"
| "predicate_text OCCURRED_IN = ''OCCURRED_IN''"
| "predicate_text CITES_SOURCE = ''CITES_SOURCE''"
| "predicate_text DERIVED_FROM = ''DERIVED_FROM''"
| "predicate_text APPLIES_TO = ''APPLIES_TO''"
| "predicate_text USES_DATA = ''USES_DATA''"

record entity_reference =
  er_dataItemId :: string
  er_versionId :: string
  er_mappingVersion :: string
  er_entityKey :: string

record relation_entity =
  re_key :: string
  re_label :: string
  re_kind :: entity_kind
  re_externalId :: "string option"
  re_reference :: "entity_reference option"

record evidence_source =
  es_dataItemId :: string
  es_versionId :: string
  es_analysisId :: string
  es_recordId :: string

record relation_evidence =
  rv_assetId :: string
  rv_sourceHash :: string
  rv_locator :: string
  rv_excerpt :: "string option"
  rv_supports :: bool
  rv_source :: "evidence_source option"

datatype record_nature =
  EXPERT_VIEW | REPORTED_OBSERVATION | PLANNING_TARGET | SIMULATION | HISTORICAL_EVENT
| INSTITUTIONAL_RECOMMENDATION | SOURCE_RELATION | Nature_UNKNOWN

fun nature_text :: "record_nature \<Rightarrow> string" where
  "nature_text EXPERT_VIEW = ''EXPERT_VIEW''"
| "nature_text REPORTED_OBSERVATION = ''REPORTED_OBSERVATION''"
| "nature_text PLANNING_TARGET = ''PLANNING_TARGET''"
| "nature_text SIMULATION = ''SIMULATION''"
| "nature_text HISTORICAL_EVENT = ''HISTORICAL_EVENT''"
| "nature_text INSTITUTIONAL_RECOMMENDATION = ''INSTITUTIONAL_RECOMMENDATION''"
| "nature_text SOURCE_RELATION = ''SOURCE_RELATION''"
| "nature_text Nature_UNKNOWN = ''UNKNOWN''"

datatype time_role =
  STATEMENT_TIME | PUBLICATION_TIME | OBSERVATION_TIME | EVENT_TIME | VALIDITY_PERIOD | Time_UNKNOWN

fun time_role_text :: "time_role \<Rightarrow> string" where
  "time_role_text STATEMENT_TIME = ''STATEMENT_TIME''"
| "time_role_text PUBLICATION_TIME = ''PUBLICATION_TIME''"
| "time_role_text OBSERVATION_TIME = ''OBSERVATION_TIME''"
| "time_role_text EVENT_TIME = ''EVENT_TIME''"
| "time_role_text VALIDITY_PERIOD = ''VALIDITY_PERIOD''"
| "time_role_text Time_UNKNOWN = ''UNKNOWN''"

record relation_context =
  rc_recordNature :: record_nature
  rc_timeRole :: time_role
  rc_validFrom :: "string option"
  rc_validTo :: "string option"
  rc_locationRole :: string
  rc_applicability :: string

record relation_qualifiers =
  rq_measure :: "string option"
  rq_reportedValue :: "string option"
  rq_reportedLimit :: "string option"
  rq_unit :: "string option"
  rq_observedAt :: "string option"
  rq_missing :: bool
  rq_spatialScope :: "string option"
  rq_limitations :: "string list"
  rq_reportedConclusion :: "string option"
  rq_context :: "relation_context option"

record relation_candidate =
  rl_subject :: relation_entity
  rl_predicate :: predicate
  rl_object :: relation_entity
  rl_qualifiers :: relation_qualifiers
  rl_generationMethod :: string
  rl_generationModel :: "string option"
  rl_evidence :: "relation_evidence list"
  rl_supersedesId :: "string option"

section \<open>Texts\<close>

definition nullable :: "string option \<Rightarrow> json" where
  "nullable s = (case s of None \<Rightarrow> JNull | Some t \<Rightarrow> JString t)"

definition reference_json :: "entity_reference \<Rightarrow> json" where
  "reference_json r = JObject
     [(''dataItemId'', JString (er_dataItemId r)), (''versionId'', JString (er_versionId r)),
      (''mappingVersion'', JString (er_mappingVersion r)), (''entityKey'', JString (er_entityKey r))]"

definition entity_json :: "relation_entity \<Rightarrow> json" where
  "entity_json e = JObject
     ([(''key'', JString (re_key e)), (''label'', JString (re_label e)), (''kind'', JString (kind_text (re_kind e))),
       (''externalId'', nullable (re_externalId e))]
      @ opt_entry ''reference'' reference_json (re_reference e))"

definition source_json :: "evidence_source \<Rightarrow> json" where
  "source_json s = JObject
     [(''dataItemId'', JString (es_dataItemId s)), (''versionId'', JString (es_versionId s)),
      (''analysisId'', JString (es_analysisId s)), (''recordId'', JString (es_recordId s))]"

definition evidence_json :: "relation_evidence \<Rightarrow> json" where
  "evidence_json e = JObject
     ([(''assetId'', JString (rv_assetId e)), (''sourceHash'', JString (rv_sourceHash e)),
       (''locator'', JString (rv_locator e)), (''excerpt'', nullable (rv_excerpt e)),
       (''polarity'', JString (if rv_supports e then ''SUPPORTS'' else ''CONTRADICTS''))]
      @ opt_entry ''source'' source_json (rv_source e))"

definition context_json :: "relation_context \<Rightarrow> json" where
  "context_json c = JObject
     [(''recordNature'', JString (nature_text (rc_recordNature c))), (''timeRole'', JString (time_role_text (rc_timeRole c))),
      (''validFrom'', nullable (rc_validFrom c)), (''validTo'', nullable (rc_validTo c)),
      (''locationRole'', JString (rc_locationRole c)), (''applicability'', JString (rc_applicability c))]"

definition qualifiers_json :: "relation_qualifiers \<Rightarrow> json" where
  "qualifiers_json q = JObject
     ([(''measure'', nullable (rq_measure q)), (''reportedValue'', nullable (rq_reportedValue q)),
       (''reportedLimit'', nullable (rq_reportedLimit q)), (''unit'', nullable (rq_unit q)),
       (''observedAt'', nullable (rq_observedAt q)), (''missing'', JBool (rq_missing q)),
       (''spatialScope'', nullable (rq_spatialScope q)), (''limitations'', JArray (map JString (rq_limitations q))),
       (''reportedConclusion'', nullable (rq_reportedConclusion q))]
      @ opt_entry ''context'' context_json (rq_context q))"

text \<open>The candidate without its evidence.\<close>

definition attributes_json :: "relation_candidate \<Rightarrow> json" where
  "attributes_json c = JObject
     [(''subject'', entity_json (rl_subject c)), (''predicate'', JString (predicate_text (rl_predicate c))),
      (''object'', entity_json (rl_object c)), (''qualifiers'', qualifiers_json (rl_qualifiers c)),
      (''generation'', JObject [(''method'', JString (rl_generationMethod c)), (''model'', nullable (rl_generationModel c))]),
      (''supersedesId'', nullable (rl_supersedesId c))]"

definition identity_json :: "relation_candidate \<Rightarrow> json" where
  "identity_json c = JArray [JString (re_key (rl_subject c)), JString (predicate_text (rl_predicate c)),
     JString (re_key (rl_object c))]"

section \<open>Checks\<close>

fun entity_consistency :: "(string \<Rightarrow> string option) \<Rightarrow> relation_entity list \<Rightarrow> unit result" where
  "entity_consistency seen [] = Inr ()"
| "entity_consistency seen (e # es) =
     (let value = json_text (entity_json e)
      in if (case seen (re_key e) of None \<Rightarrow> False | Some old \<Rightarrow> old \<noteq> value)
         then fail ''Conflicting source entity''
         else entity_consistency (seen(re_key e \<mapsto> value)) es)"

definition assertRelationEntityConsistency :: "relation_entity list \<Rightarrow> unit result" where
  "assertRelationEntityConsistency es = entity_consistency Map.empty es"

text \<open>The registry: the kinds of the subject, and those of the object unless any is allowed.\<close>

fun KNOWLEDGE_RELATION_RULES :: "predicate \<Rightarrow> (entity_kind list \<times> entity_kind list option) option" where
  "KNOWLEDGE_RELATION_RULES IDENTITY_MATCH =
     Some ([PERSON, ORGANIZATION, ENTERPRISE, MONITORING_POINT, RIVER_REACH, BASIN, PLACE, EXTERNAL_ENTITY], None)"
| "KNOWLEDGE_RELATION_RULES EXPRESSES_CLAIM = Some ([PERSON, ORGANIZATION], Some [CLAIM])"
| "KNOWLEDGE_RELATION_RULES REPORTS_CLAIM = Some ([DOCUMENT_ENTITY], Some [CLAIM])"
| "KNOWLEDGE_RELATION_RULES ABOUT_ENTITY = Some ([CLAIM, EVENT, DOCUMENT_ENTITY, POLICY, MODEL_RUN], None)"
| "KNOWLEDGE_RELATION_RULES OBSERVES_ENTITY =
     Some ([OBSERVATION], Some [MONITORING_POINT, RIVER_REACH, BASIN, PLACE, ENTERPRISE, EXTERNAL_ENTITY])"
| "KNOWLEDGE_RELATION_RULES OCCURRED_IN = Some ([EVENT], Some [RIVER_REACH, BASIN, PLACE])"
| "KNOWLEDGE_RELATION_RULES CITES_SOURCE = Some ([DOCUMENT_ENTITY, CLAIM], Some [DOCUMENT_ENTITY])"
| "KNOWLEDGE_RELATION_RULES DERIVED_FROM =
     Some ([DOCUMENT_ENTITY, CLAIM, OBSERVATION, MODEL_RUN], Some [DOCUMENT_ENTITY, OBSERVATION, MODEL_RUN, EXTERNAL_ENTITY])"
| "KNOWLEDGE_RELATION_RULES APPLIES_TO = Some ([POLICY, CLAIM], None)"
| "KNOWLEDGE_RELATION_RULES USES_DATA = Some ([MODEL_RUN], Some [DOCUMENT_ENTITY, OBSERVATION, EXTERNAL_ENTITY])"
| "KNOWLEDGE_RELATION_RULES _ = None"

definition legacyKinds :: "entity_kind list" where
  "legacyKinds = [ENTERPRISE, MONITORING_POINT, INDICATOR_RECORD, RIVER_REACH, BASIN, EXTERNAL_ENTITY]"

definition check_references :: "relation_candidate \<Rightarrow> unit result" where
  "check_references row =
     (if rl_predicate row = IDENTITY_MATCH then
        (case (re_reference (rl_subject row), re_reference (rl_object row)) of
           (Some a, Some b) \<Rightarrow>
             if json_text (reference_json a) = json_text (reference_json b)
                \<or> re_kind (rl_subject row) \<noteq> re_kind (rl_object row)
                \<or> map_option rc_recordNature (rq_context (rl_qualifiers row)) \<noteq> Some SOURCE_RELATION
             then fail ''Identity match requires distinct source references, equal kinds and source context''
             else Inr ()
         | _ \<Rightarrow> fail ''Identity match requires distinct source references, equal kinds and source context'')
      else if re_reference (rl_subject row) \<noteq> None \<or> re_reference (rl_object row) \<noteq> None
      then fail ''Only identity matches may reference another source entity''
      else Inr ())"

definition check_rule :: "relation_candidate \<Rightarrow> unit result" where
  "check_rule row =
     (case KNOWLEDGE_RELATION_RULES (rl_predicate row) of
        None \<Rightarrow>
          if re_kind (rl_subject row) \<notin> set legacyKinds \<or> re_kind (rl_object row) \<notin> set legacyKinds
          then fail ''Extended entities require a registered knowledge predicate'' else Inr ()
      | Some (subjects, objects) \<Rightarrow>
          (case rq_context (rl_qualifiers row) of
             None \<Rightarrow> fail ''Knowledge relation requires explicit context''
           | Some context \<Rightarrow>
               if re_kind (rl_subject row) \<notin> set subjects
                  \<or> (case objects of None \<Rightarrow> False | Some ks \<Rightarrow> re_kind (rl_object row) \<notin> set ks)
               then fail ''Invalid knowledge relation endpoint types''
               else if rc_recordNature context \<noteq> REPORTED_OBSERVATION \<and> rc_timeRole context = OBSERVATION_TIME
               then fail ''Non-observation cannot use observation time''
               else if rl_predicate row = OBSERVES_ENTITY \<and> rc_recordNature context \<noteq> REPORTED_OBSERVATION
               then fail ''Observed relation requires reported observation''
               else Inr ()))"

definition assertTypedRelation :: "relation_candidate \<Rightarrow> unit result" where
  "assertTypedRelation row = and_then (check_references row) (\<lambda>_. check_rule row)"

section \<open>Grouping\<close>

record relation_group =
  rg_base :: string
  rg_candidate :: relation_candidate
  rg_evidence :: "(string \<times> relation_evidence) list"

definition put_evidence :: "relation_evidence list \<Rightarrow> (string \<times> relation_evidence) list \<Rightarrow> (string \<times> relation_evidence) list" where
  "put_evidence items es = fold (\<lambda>e. map_put (json_text (evidence_json e)) e) items es"

definition group_row ::
  "relation_candidate \<Rightarrow> (string \<times> relation_group) list \<Rightarrow> (string \<times> relation_group) list result" where
  "group_row row grouped =
     (let identity = json_text (identity_json row);
          base = json_text (attributes_json row)
      in case map_of grouped identity of
           None \<Rightarrow>
             (let evidence = put_evidence (rl_evidence row) []
              in if length evidence > 64 then fail ''Too many evidence locations''
                 else Inr (map_put identity \<lparr>rg_base = base, rg_candidate = row, rg_evidence = evidence\<rparr> grouped))
         | Some existing \<Rightarrow>
             if rg_base existing \<noteq> base then fail ''Conflicting relation candidate''
             else
               (let evidence = put_evidence (rl_evidence row) (rg_evidence existing)
                in if length evidence > 64 then fail ''Too many evidence locations''
                   else Inr (map_put identity (existing\<lparr>rg_evidence := evidence\<rparr>) grouped)))"

fun group_rows ::
  "relation_candidate list \<Rightarrow> (string \<times> relation_group) list \<Rightarrow> (string \<times> relation_group) list result" where
  "group_rows [] grouped = Inr grouped"
| "group_rows (row # rows) grouped = and_then (group_row row grouped) (group_rows rows)"

definition groupRelationCandidates :: "relation_candidate list \<Rightarrow> (string \<times> relation_candidate) list result" where
  "groupRelationCandidates rows =
     and_then (for_each assertTypedRelation rows) (\<lambda>_.
     and_then (assertRelationEntityConsistency (concat (map (\<lambda>r. [rl_subject r, rl_object r]) rows))) (\<lambda>_.
     and_then (group_rows rows []) (\<lambda>grouped.
       Inr (map (\<lambda>(identity, g). (identity, (rg_candidate g)\<lparr>rl_evidence :=
                  map snd (js_sort (\<lambda>a b. fst b < fst a) (rg_evidence g))\<rparr>))
              (js_sort (\<lambda>a b. fst b < fst a) grouped)))))"

section \<open>The texts determine the values\<close>

lemma kind_text_inj: "kind_text a = kind_text b \<longleftrightarrow> a = b"
  by (cases a; cases b; simp)

lemma predicate_text_inj: "predicate_text a = predicate_text b \<longleftrightarrow> a = b"
  by (cases a; cases b; simp)

lemma nature_text_inj: "nature_text a = nature_text b \<longleftrightarrow> a = b"
  by (cases a; cases b; simp)

lemma time_role_text_inj: "time_role_text a = time_role_text b \<longleftrightarrow> a = b"
  by (cases a; cases b; simp)

lemma nullable_inj [simp]: "nullable a = nullable b \<longleftrightarrow> a = b"
  by (auto simp: nullable_def split: option.splits)

lemma opt_entry_inj: "opt_entry k f a = opt_entry k f b \<longleftrightarrow> map_option f a = map_option f b"
  by (cases a; cases b) (auto simp: opt_entry_def)

lemma reference_json_inj: "reference_json a = reference_json b \<longleftrightarrow> a = b"
  by (cases a; cases b) (auto simp: reference_json_def)

lemma map_option_inj: "(\<And>x y. f x = f y \<longleftrightarrow> x = y) \<Longrightarrow> map_option f a = map_option f b \<longleftrightarrow> a = b"
  by (cases a; cases b) auto

lemma entity_json_inj: "entity_json a = entity_json b \<longleftrightarrow> a = b"
  by (cases a; cases b)
    (auto simp: entity_json_def kind_text_inj opt_entry_inj map_option_inj [OF reference_json_inj])

lemma source_json_inj: "source_json a = source_json b \<longleftrightarrow> a = b"
  by (cases a; cases b) (auto simp: source_json_def)

lemma evidence_json_inj: "evidence_json a = evidence_json b \<longleftrightarrow> a = b"
  by (cases a; cases b)
    (auto simp: evidence_json_def opt_entry_inj map_option_inj [OF source_json_inj] split: if_splits)

lemma context_json_inj: "context_json a = context_json b \<longleftrightarrow> a = b"
  by (cases a; cases b) (auto simp: context_json_def nature_text_inj time_role_text_inj)

lemma map_JString_inj: "map JString xs = map JString ys \<longleftrightarrow> xs = ys"
  by (simp add: inj_map_eq_map inj_def)

lemma qualifiers_json_inj: "qualifiers_json a = qualifiers_json b \<longleftrightarrow> a = b"
  by (cases a; cases b)
    (auto simp: qualifiers_json_def map_JString_inj opt_entry_inj map_option_inj [OF context_json_inj])

lemma attributes_json_inj: "attributes_json a = attributes_json b \<longleftrightarrow> a = b\<lparr>rl_evidence := rl_evidence a\<rparr>"
  by (cases a; cases b)
    (auto simp: attributes_json_def entity_json_inj predicate_text_inj qualifiers_json_inj)

lemma identity_json_inj: "identity_json a = identity_json b \<longleftrightarrow>
    re_key (rl_subject a) = re_key (rl_subject b) \<and> rl_predicate a = rl_predicate b
    \<and> re_key (rl_object a) = re_key (rl_object b)"
  by (auto simp: identity_json_def predicate_text_inj)

lemma plain_nullable [simp]: "plain_json (nullable s)"
  by (simp add: nullable_def split: option.splits)

lemma plain_opt_entry [simp]: "list_all (\<lambda>e. plain_json (snd e)) (opt_entry k f v) \<longleftrightarrow> (\<forall>x. v = Some x \<longrightarrow> plain_json (f x))"
  by (auto simp: opt_entry_def split: option.splits)

lemma plain_texts [simp]:
  "plain_json (reference_json r)" "plain_json (entity_json e)" "plain_json (source_json s)" "plain_json (evidence_json v)"
  "plain_json (context_json c)" "plain_json (qualifiers_json q)" "plain_json (attributes_json a)" "plain_json (identity_json a)"
proof -
  show r: "plain_json (reference_json r)" for r by (simp add: reference_json_def)
  show e: "plain_json (entity_json e)" for e by (simp add: entity_json_def r)
  show s: "plain_json (source_json s)" for s by (simp add: source_json_def)
  show "plain_json (evidence_json v)" by (simp add: evidence_json_def s)
  show c: "plain_json (context_json c)" for c by (simp add: context_json_def)
  have "list_all plain_json (map JString xs)" for xs by (simp add: list_all_iff)
  then show q: "plain_json (qualifiers_json q)" for q by (simp add: qualifiers_json_def c)
  show "plain_json (attributes_json a)" by (simp add: attributes_json_def e q)
  show "plain_json (identity_json a)" by (simp add: identity_json_def)
qed

abbreviation evidence_text :: "relation_evidence \<Rightarrow> string" where
  "evidence_text e \<equiv> json_text (evidence_json e)"

abbreviation identity_text :: "relation_candidate \<Rightarrow> string" where
  "identity_text r \<equiv> json_text (identity_json r)"

abbreviation attributes_text :: "relation_candidate \<Rightarrow> string" where
  "attributes_text r \<equiv> json_text (attributes_json r)"

lemma text_injs:
  "evidence_text a = evidence_text b \<longleftrightarrow> a = b"
  "json_text (entity_json e) = json_text (entity_json f) \<longleftrightarrow> e = f"
  "json_text (reference_json r) = json_text (reference_json s) \<longleftrightarrow> r = s"
  "attributes_text c = attributes_text d \<longleftrightarrow> c = d\<lparr>rl_evidence := rl_evidence c\<rparr>"
  by (simp_all add: json_text_inj evidence_json_inj entity_json_inj reference_json_inj attributes_json_inj)

end
