(* ===== verification/KnowledgeGroups.thy ===== *)
theory KnowledgeGroups
  imports KnowledgeRelations
begin

text \<open>
  What \<open>groupRelationCandidates\<close> promises: the rows it accepts are consistent with one another, and the
  result depends on the set of rows only.
\<close>

section \<open>Maps keyed by the text of their values\<close>

text \<open>A map whose keys are the texts of its values is the set of its values.\<close>

definition keyed_by :: "('v \<Rightarrow> 'k) \<Rightarrow> ('k \<times> 'v) list \<Rightarrow> bool" where
  "keyed_by f es \<longleftrightarrow> distinct (map fst es) \<and> (\<forall>e \<in> set es. fst e = f (snd e))"

lemma keyed_by_put:
  assumes "keyed_by f es" and "inj f"
  shows "keyed_by f (map_put (f v) v es)" and "snd ` set (map_put (f v) v es) = insert v (snd ` set es)"
proof -
  have d: "distinct (map fst es)" and k: "\<forall>e \<in> set es. fst e = f (snd e)" using assms(1) by (auto simp: keyed_by_def)
  show "keyed_by f (map_put (f v) v es)" using d k by (auto simp: keyed_by_def set_map_put)
  have "snd e = v" if "e \<in> set es" "fst e = f v" for e using that k assms(2) by (simp add: inj_eq)
  then show "snd ` set (map_put (f v) v es) = insert v (snd ` set es)" using d by (force simp: set_map_put)
qed

lemma keyed_by_fold:
  assumes "inj f" and "keyed_by f es"
  shows "keyed_by f (fold (\<lambda>v. map_put (f v) v) vs es)
    \<and> snd ` set (fold (\<lambda>v. map_put (f v) v) vs es) = snd ` set es \<union> set vs"
  using assms(2) by (induction vs arbitrary: es) (simp_all add: keyed_by_put [OF _ assms(1)])

lemma keyed_by_map: "keyed_by f es \<Longrightarrow> map fst es = map f (map snd es)"
  by (auto simp: keyed_by_def)

lemma keyed_by_distinct: "keyed_by f es \<Longrightarrow> distinct (map snd es)"
  by (metis keyed_by_map keyed_by_def distinct_map)

lemma keyed_by_length: "keyed_by f es \<Longrightarrow> length es = card (snd ` set es)"
  using keyed_by_distinct [of f es] distinct_card [of "map snd es"] by simp

lemma inj_evidence_text: "inj evidence_text"
  by (auto simp: inj_def text_injs)

section \<open>Entities\<close>

lemma entity_consistency_iff:
  "entity_consistency seen es = Inr u \<longleftrightarrow>
     (\<forall>e \<in> set es. \<forall>f \<in> set es. re_key e = re_key f \<longrightarrow> e = f)
     \<and> (\<forall>e \<in> set es. \<forall>t. seen (re_key e) = Some t \<longrightarrow> t = json_text (entity_json e))"
proof (induction es arbitrary: seen)
  case (Cons e es)
  then show ?case by (auto simp: Let_def text_injs split: option.splits)
qed simp

definition entities_of :: "relation_candidate set \<Rightarrow> relation_entity set" where
  "entities_of R = rl_subject ` R \<union> rl_object ` R"

lemma consistent_entities:
  "assertRelationEntityConsistency (concat (map (\<lambda>r. [rl_subject r, rl_object r]) rows)) = Inr u \<longleftrightarrow>
     (\<forall>e \<in> entities_of (set rows). \<forall>f \<in> entities_of (set rows). re_key e = re_key f \<longrightarrow> e = f)"
proof -
  have "set (concat (map (\<lambda>r. [rl_subject r, rl_object r]) rows)) = entities_of (set rows)"
    by (auto simp: entities_of_def)
  then show ?thesis by (simp add: assertRelationEntityConsistency_def entity_consistency_iff del: set_concat)
qed

section \<open>The groups\<close>

definition evidence_of :: "relation_candidate set \<Rightarrow> string \<Rightarrow> relation_evidence set" where
  "evidence_of R i = (\<Union>r \<in> {r \<in> R. identity_text r = i}. set (rl_evidence r))"

text \<open>Rows of one identity differ in nothing but their evidence, and there is not too much of it.\<close>

definition consistent_at :: "relation_candidate set \<Rightarrow> string \<Rightarrow> bool" where
  "consistent_at R i \<longleftrightarrow>
     (\<forall>a \<in> R. \<forall>b \<in> R. identity_text a = i \<longrightarrow> identity_text b = i \<longrightarrow> attributes_text a = attributes_text b)
     \<and> card (evidence_of R i) \<le> 64"

lemma finite_evidence_of [simp]: "finite R \<Longrightarrow> finite (evidence_of R i)"
  by (simp add: evidence_of_def)

lemma evidence_of_mono: "R \<subseteq> S \<Longrightarrow> evidence_of R i \<subseteq> evidence_of S i"
  by (auto simp: evidence_of_def)

lemma consistent_at_mono:
  assumes "consistent_at S i" and "R \<subseteq> S" and "finite S"
  shows "consistent_at R i"
proof -
  have "card (evidence_of R i) \<le> card (evidence_of S i)"
    using assms by (intro card_mono evidence_of_mono) simp_all
  with assms(1,2) show ?thesis by (auto simp: consistent_at_def)
qed

lemma evidence_of_insert:
  "evidence_of (insert r R) i = (if identity_text r = i then set (rl_evidence r) \<union> evidence_of R i else evidence_of R i)"
  by (auto simp: evidence_of_def)

lemma consistent_at_other: "identity_text r \<noteq> i \<Longrightarrow> consistent_at (insert r R) i \<longleftrightarrow> consistent_at R i"
  by (simp add: consistent_at_def evidence_of_insert)

definition group_ok :: "relation_candidate set \<Rightarrow> string \<Rightarrow> relation_group \<Rightarrow> bool" where
  "group_ok R i g \<longleftrightarrow>
     rg_candidate g \<in> R \<and> identity_text (rg_candidate g) = i \<and> rg_base g = attributes_text (rg_candidate g)
     \<and> keyed_by evidence_text (rg_evidence g) \<and> snd ` set (rg_evidence g) = evidence_of R i \<and> consistent_at R i"

definition grouped_inv :: "relation_candidate set \<Rightarrow> (string \<times> relation_group) list \<Rightarrow> bool" where
  "grouped_inv R grouped \<longleftrightarrow>
     finite R \<and> distinct (map fst grouped) \<and> fst ` set grouped = identity_text ` R
     \<and> (\<forall>e \<in> set grouped. group_ok R (fst e) (snd e))"

lemma group_row_step:
  assumes inv: "grouped_inv R grouped"
  shows "if consistent_at (insert row R) (identity_text row)
    then \<exists>g'. group_row row grouped = Inr g' \<and> grouped_inv (insert row R) g'
    else \<forall>g'. group_row row grouped \<noteq> Inr g'"
proof -
  let ?i = "identity_text row" and ?R = "insert row R"
  have fin: "finite R" and d: "distinct (map fst grouped)" and keys: "fst ` set grouped = identity_text ` R"
    and ok: "\<And>e. e \<in> set grouped \<Longrightarrow> group_ok R (fst e) (snd e)"
    using inv by (auto simp: grouped_inv_def)
  have others: "group_ok ?R i g" if "group_ok R i g" "i \<noteq> ?i" for i g
    using that consistent_at_other [of row i R] by (simp add: group_ok_def evidence_of_insert)
  have put: "grouped_inv ?R (map_put ?i g grouped)" if placed: "group_ok ?R ?i g" for g
  proof -
    have "group_ok ?R (fst e) (snd e)" if e: "e \<in> set (map_put ?i g grouped)" for e
    proof (cases "fst e = ?i")
      case True
      then have "snd e = g" using e d by (auto simp: set_map_put)
      with placed True show ?thesis by simp
    next
      case False
      then have "e \<in> set grouped" using e d by (auto simp: set_map_put)
      with False ok others show ?thesis by blast
    qed
    moreover have "fst ` set (map_put ?i g grouped) = identity_text ` ?R" using keys by simp
    ultimately show ?thesis using d fin unfolding grouped_inv_def by simp
  qed
  have evidence: "keyed_by evidence_text (put_evidence (rl_evidence row) es)
      \<and> snd ` set (put_evidence (rl_evidence row) es) = snd ` set es \<union> set (rl_evidence row)"
    if "keyed_by evidence_text es" for es
    using keyed_by_fold [OF inj_evidence_text that] by (simp add: put_evidence_def)
  show ?thesis
  proof (cases "map_of grouped ?i")
    case None
    then have new: "?i \<notin> identity_text ` R" using keys by (metis map_of_eq_None_iff)
    then have none: "evidence_of R ?i = {}" unfolding evidence_of_def by (force simp: image_iff)
    let ?es = "put_evidence (rl_evidence row) []"
    have es: "keyed_by evidence_text ?es" "snd ` set ?es = evidence_of ?R ?i"
      using evidence [of "[]"] none by (auto simp: keyed_by_def evidence_of_insert)
    have c: "consistent_at ?R ?i \<longleftrightarrow> length ?es \<le> 64"
      using new es keyed_by_length [OF es(1)] by (auto simp: consistent_at_def image_iff)
    show ?thesis
    proof (cases "length ?es \<le> 64")
      case True
      with c es None put [of "\<lparr>rg_base = attributes_text row, rg_candidate = row, rg_evidence = ?es\<rparr>"]
      show ?thesis by (simp add: group_row_def Let_def group_ok_def)
    next
      case False
      with c None show ?thesis by (simp add: group_row_def Let_def)
    qed
  next
    case (Some g)
    then have g: "group_ok R ?i g" using ok [of "(?i, g)"] by (auto dest: map_of_SomeD)
    let ?es = "put_evidence (rl_evidence row) (rg_evidence g)"
    have es: "keyed_by evidence_text ?es" "snd ` set ?es = evidence_of ?R ?i"
      using evidence [of "rg_evidence g"] g by (auto simp: group_ok_def evidence_of_insert)
    have same: "attributes_text a = rg_base g" if "a \<in> R" "identity_text a = ?i" for a
      using that g unfolding group_ok_def consistent_at_def by metis
    have g': "rg_candidate g \<in> R" "identity_text (rg_candidate g) = ?i" "rg_base g = attributes_text (rg_candidate g)"
      using g unfolding group_ok_def by blast+
    have agree: "(\<forall>a \<in> ?R. \<forall>b \<in> ?R. identity_text a = ?i \<longrightarrow> identity_text b = ?i \<longrightarrow> attributes_text a = attributes_text b)
        \<longleftrightarrow> rg_base g = attributes_text row"
      using same g' by (metis insert_iff)
    have c: "consistent_at ?R ?i \<longleftrightarrow> rg_base g = attributes_text row \<and> length ?es \<le> 64"
      unfolding consistent_at_def agree using es(2) keyed_by_length [OF es(1)] by simp
    show ?thesis
    proof (cases "consistent_at ?R ?i")
      case True
      with c es g Some put [of "g\<lparr>rg_evidence := ?es\<rparr>"]
      show ?thesis by (simp add: group_row_def Let_def group_ok_def)
    next
      case False
      with c Some show ?thesis by (auto simp: group_row_def Let_def)
    qed
  qed
qed

lemma group_rows_inv:
  "grouped_inv R grouped \<Longrightarrow>
   if \<forall>r \<in> set rows. consistent_at (R \<union> set rows) (identity_text r)
   then \<exists>g'. group_rows rows grouped = Inr g' \<and> grouped_inv (R \<union> set rows) g'
   else \<forall>g'. group_rows rows grouped \<noteq> Inr g'"
proof (induction rows arbitrary: R grouped)
  case (Cons row rows)
  have fin: "finite R" using Cons.prems by (simp add: grouped_inv_def)
  have u: "R \<union> set (row # rows) = insert row R \<union> set rows" by auto
  show ?case
  proof (cases "consistent_at (insert row R) (identity_text row)")
    case True
    then obtain g' where g': "group_row row grouped = Inr g'" "grouped_inv (insert row R) g'"
      using group_row_step [OF Cons.prems, of row] by auto
    have run: "group_rows (row # rows) grouped = group_rows rows g'" using g'(1) by simp
    note IH = Cons.IH [OF g'(2), folded u]
    show ?thesis
    proof (cases "\<forall>r \<in> set rows. consistent_at (R \<union> set (row # rows)) (identity_text r)")
      case True
      with IH obtain g'' where g'': "group_rows rows g' = Inr g''" "grouped_inv (R \<union> set (row # rows)) g''"
        by auto
      have "identity_text row \<in> fst ` set g''" using g''(2) by (simp add: grouped_inv_def)
      then obtain e where "e \<in> set g''" "identity_text row = fst e" by blast
      then have "consistent_at (R \<union> set (row # rows)) (identity_text row)"
        using g''(2) unfolding grouped_inv_def group_ok_def by metis
      with True have "\<forall>r \<in> set (row # rows). consistent_at (R \<union> set (row # rows)) (identity_text r)" by simp
      with g'' run show ?thesis by (metis (no_types, lifting))
    next
      case False
      with IH run show ?thesis by auto
    qed
  next
    case False
    then have "\<not> consistent_at (R \<union> set (row # rows)) (identity_text row)"
      using consistent_at_mono [of _ _ "insert row R"] fin by (metis (no_types, lifting) Un_upper1 finite_insert finite_set finite_Un u)
    moreover have "group_rows (row # rows) grouped \<noteq> Inr g" for g
      using False group_row_step [OF Cons.prems, of row] by auto
    ultimately show ?thesis by auto
  qed
qed simp

section \<open>The result\<close>

text \<open>What a caller may rely on: which sets of rows are accepted, and which list of groups is returned.\<close>

definition admissible :: "relation_candidate set \<Rightarrow> bool" where
  "admissible R \<longleftrightarrow>
     (\<forall>r \<in> R. assertTypedRelation r = Inr ())
     \<and> (\<forall>e \<in> entities_of R. \<forall>f \<in> entities_of R. re_key e = re_key f \<longrightarrow> e = f)
     \<and> (\<forall>r \<in> R. consistent_at R (identity_text r))"

definition is_grouping :: "relation_candidate set \<Rightarrow> (string \<times> relation_candidate) list \<Rightarrow> bool" where
  "is_grouping R gs \<longleftrightarrow>
     sorted_wrt (\<lambda>a b. fst a < fst b) gs \<and> fst ` set gs = identity_text ` R
     \<and> (\<forall>(i, c) \<in> set gs. set (rl_evidence c) = evidence_of R i
          \<and> sorted_wrt (\<lambda>a b. evidence_text a < evidence_text b) (rl_evidence c)
          \<and> (\<forall>r \<in> R. identity_text r = i \<longrightarrow> c = r\<lparr>rl_evidence := rl_evidence c\<rparr>))"

lemma strict_of_distinct:
  "sorted_wrt (\<lambda>x y. \<not> f y < (f x :: 'k :: linorder)) xs \<Longrightarrow> distinct (map f xs) \<Longrightarrow> sorted_wrt (\<lambda>x y. f x < f y) xs"
  by (induction xs) (auto simp: not_less less_le)

lemma sort_by_key:
  fixes es :: "(string \<times> 'v) list"
  assumes "distinct (map fst es)"
  shows "sorted_wrt (\<lambda>a b. fst a < fst b) (js_sort (\<lambda>a b. fst b < fst a) es)"
proof -
  let ?s = "js_sort (\<lambda>a b :: string \<times> 'v. fst b < fst a) es"
  have "sorted_wrt (\<lambda>x y. \<not> fst y < fst x) ?s"
    by (rule js_sort_sorted [of UNIV]) (auto simp: consistent_on_def)
  moreover have "distinct (map fst ?s)" using assms by simp
  ultimately show ?thesis by (rule strict_of_distinct)
qed

lemma strictly_sorted_unique:
  assumes "sorted_wrt (\<lambda>a b. f a < (f b :: 'k :: linorder)) xs" and "sorted_wrt (\<lambda>a b. f a < f b) ys" and "set xs = set ys"
  shows "xs = ys"
  using assms
proof (induction xs arbitrary: ys)
  case (Cons x xs)
  then obtain y ys' where ys: "ys = y # ys'" by (cases ys) auto
  have "x = y"
  proof (rule ccontr)
    assume "x \<noteq> y"
    then have "x \<in> set ys'" "y \<in> set xs" using Cons.prems(3) ys by auto
    then have "f x < f y" "f y < f x" using Cons.prems(1,2) ys by auto
    then show False by simp
  qed
  moreover have "set xs = set ys'"
  proof -
    have "x \<notin> set xs" "y \<notin> set ys'" using Cons.prems(1,2) ys by auto
    with \<open>x = y\<close> Cons.prems(3) ys show ?thesis by (simp add: insert_ident)
  qed
  ultimately show ?case using Cons.IH [of ys'] Cons.prems(1,2) ys by simp
qed simp

lemma grouping_keys: "is_grouping R gs \<Longrightarrow> fst ` set gs = identity_text ` R"
  by (simp only: is_grouping_def)

lemma grouping_unique:
  assumes "is_grouping R gs" and "is_grouping R gs'"
  shows "gs = gs'"
proof -
  have sub: "set hs \<subseteq> set hs'" if h: "is_grouping R hs" and h': "is_grouping R hs'" for hs hs'
  proof
    fix e assume "e \<in> set hs"
    obtain i c where e: "e = (i, c)" "(i, c) \<in> set hs" using \<open>e \<in> set hs\<close> by (metis surj_pair)
    note keys = grouping_keys [OF h] grouping_keys [OF h']
    then have "i \<in> identity_text ` R" using e(2) by (metis fst_conv imageI)
    then obtain r where r: "r \<in> R" "identity_text r = i" by blast
    have "i \<in> fst ` set hs'" using keys(2) r by (metis imageI)
    then obtain c' where c': "(i, c') \<in> set hs'" by (metis imageE prod.collapse)
    have c: "set (rl_evidence c) = evidence_of R i" "sorted_wrt (\<lambda>a b. evidence_text a < evidence_text b) (rl_evidence c)"
        "c = r\<lparr>rl_evidence := rl_evidence c\<rparr>"
      using h e(2) r unfolding is_grouping_def by auto
    have "set (rl_evidence c') = evidence_of R i" "sorted_wrt (\<lambda>a b. evidence_text a < evidence_text b) (rl_evidence c')"
        "c' = r\<lparr>rl_evidence := rl_evidence c'\<rparr>"
      using h' c' r unfolding is_grouping_def by auto
    with c have "rl_evidence c = rl_evidence c'" using strictly_sorted_unique [of evidence_text] by metis
    with c(3) \<open>c' = _\<close> e c' show "e \<in> set hs'" by metis
  qed
  show ?thesis using sub [OF assms] sub [OF assms(2,1)] assms
    by (intro strictly_sorted_unique [of fst]) (auto simp: is_grouping_def)
qed

definition finish_group :: "string \<times> relation_group \<Rightarrow> string \<times> relation_candidate" where
  "finish_group e = (fst e, (rg_candidate (snd e))\<lparr>rl_evidence :=
     map snd (js_sort (\<lambda>a b. fst b < fst a) (rg_evidence (snd e)))\<rparr>)"

lemma groupRelationCandidates_eq:
  "groupRelationCandidates rows =
     and_then (for_each assertTypedRelation rows) (\<lambda>_.
     and_then (assertRelationEntityConsistency (concat (map (\<lambda>r. [rl_subject r, rl_object r]) rows))) (\<lambda>_.
     and_then (group_rows rows []) (\<lambda>grouped. Inr (map finish_group (js_sort (\<lambda>a b. fst b < fst a) grouped)))))"
  by (simp add: groupRelationCandidates_def finish_group_def [abs_def] case_prod_beta')

lemma sorted_evidence:
  assumes "keyed_by evidence_text es"
  shows "sorted_wrt (\<lambda>a b. evidence_text a < evidence_text b) (map snd (js_sort (\<lambda>a b. fst b < fst a) es))"
proof -
  let ?s = "js_sort (\<lambda>a b. fst b < fst a) es"
  have "sorted_wrt (\<lambda>a b. fst a < fst b) ?s" using assms by (intro sort_by_key) (simp add: keyed_by_def)
  moreover have "\<And>e. e \<in> set ?s \<Longrightarrow> fst e = evidence_text (snd e)" using assms by (simp add: keyed_by_def)
  ultimately have "sorted_wrt (\<lambda>a b. evidence_text (snd a) < evidence_text (snd b)) ?s"
    by (metis (no_types, lifting) sorted_wrt_mono_rel)
  then show ?thesis by (simp add: sorted_wrt_map)
qed

lemma finished_grouping:
  assumes "grouped_inv R grouped"
  shows "is_grouping R (map finish_group (js_sort (\<lambda>a b. fst b < fst a) grouped))"
proof -
  let ?gs = "map finish_group (js_sort (\<lambda>a b. fst b < fst a) grouped)"
  have fst: "fst (finish_group e) = fst e" for e by (simp add: finish_group_def)
  have d: "distinct (map fst grouped)" and keys: "fst ` set grouped = identity_text ` R"
    and ok: "\<And>e. e \<in> set grouped \<Longrightarrow> group_ok R (fst e) (snd e)"
    using assms unfolding grouped_inv_def by blast+
  have "sorted_wrt (\<lambda>a b. fst a < fst b) ?gs" using sort_by_key [OF d] by (simp add: sorted_wrt_map fst)
  moreover have "fst ` set ?gs = identity_text ` R" using keys by (simp add: image_image fst)
  moreover have "set (rl_evidence c) = evidence_of R i
      \<and> sorted_wrt (\<lambda>a b. evidence_text a < evidence_text b) (rl_evidence c)
      \<and> (\<forall>r \<in> R. identity_text r = i \<longrightarrow> c = r\<lparr>rl_evidence := rl_evidence c\<rparr>)" if ic: "(i, c) \<in> set ?gs" for i c
  proof -
    obtain g where g: "(i, g) \<in> set grouped"
        and c: "c = (rg_candidate g)\<lparr>rl_evidence := map snd (js_sort (\<lambda>a b. fst b < fst a) (rg_evidence g))\<rparr>"
      using ic by (auto simp: finish_group_def)
    have gok: "group_ok R i g" using ok [OF g] by simp
    have "c = r\<lparr>rl_evidence := rl_evidence c\<rparr>" if r: "r \<in> R" "identity_text r = i" for r
    proof -
      have "attributes_text r = attributes_text (rg_candidate g)"
        using gok r unfolding group_ok_def consistent_at_def by metis
      then have "r = (rg_candidate g)\<lparr>rl_evidence := rl_evidence r\<rparr>" by (simp only: text_injs)
      with c show ?thesis by (metis relation_candidate.surjective relation_candidate.update_convs(7))
    qed
    with gok c sorted_evidence show ?thesis by (simp add: group_ok_def)
  qed
  ultimately show ?thesis unfolding is_grouping_def by blast
qed

lemma grouping_iff:
  "groupRelationCandidates rows = Inr gs \<longleftrightarrow> admissible (set rows) \<and> is_grouping (set rows) gs"
proof (cases "\<forall>r \<in> set rows. consistent_at (set rows) (identity_text r)")
  case True
  have "grouped_inv {} []" by (simp add: grouped_inv_def)
  from group_rows_inv [OF this, of rows] True
  obtain grouped where g: "group_rows rows [] = Inr grouped" "grouped_inv (set rows) grouped" by auto
  from finished_grouping [OF g(2)] have
    "is_grouping (set rows) gs \<longleftrightarrow> map finish_group (js_sort (\<lambda>a b. fst b < fst a) grouped) = gs"
    using grouping_unique by blast
  with True g(1) show ?thesis by (auto simp: groupRelationCandidates_eq admissible_def consistent_entities)
next
  case False
  have "grouped_inv {} []" by (simp add: grouped_inv_def)
  from group_rows_inv [OF this, of rows] False have "group_rows rows [] \<noteq> Inr g" for g by (simp split: if_splits)
  with False show ?thesis by (auto simp: groupRelationCandidates_eq admissible_def)
qed

section \<open>Properties\<close>

lemma typed_irrespective_of_evidence: "assertTypedRelation (r\<lparr>rl_evidence := es\<rparr>) = assertTypedRelation r"
proof -
  have same: "rl_subject (r\<lparr>rl_evidence := es\<rparr>) = rl_subject r" "rl_object (r\<lparr>rl_evidence := es\<rparr>) = rl_object r"
    "rl_predicate (r\<lparr>rl_evidence := es\<rparr>) = rl_predicate r" "rl_qualifiers (r\<lparr>rl_evidence := es\<rparr>) = rl_qualifiers r"
    by simp_all
  show ?thesis unfolding assertTypedRelation_def check_references_def check_rule_def same by (rule refl)
qed

lemma identity_irrespective_of_evidence: "identity_json (r\<lparr>rl_evidence := es\<rparr>) = identity_json r"
  by (simp add: identity_json_def)

text \<open>Every group is one of the rows with the collected evidence.\<close>

lemma grouping_member:
  assumes "is_grouping R gs" and "(i, c) \<in> set gs"
  shows "identity_text c = i \<and> (\<exists>r \<in> R. identity_text r = i \<and> c = r\<lparr>rl_evidence := rl_evidence c\<rparr>)"
proof -
  have "i \<in> identity_text ` R" using grouping_keys [OF assms(1)] assms(2) by (metis fst_conv imageI)
  then obtain r where r: "r \<in> R" "identity_text r = i" by blast
  then have "c = r\<lparr>rl_evidence := rl_evidence c\<rparr>" using assms unfolding is_grouping_def by blast
  with r show ?thesis by (metis identity_irrespective_of_evidence)
qed

lemma regrouping_evidence:
  assumes "is_grouping R gs" and "(i, c) \<in> set gs"
  shows "evidence_of (snd ` set gs) i = evidence_of R i" and "\<And>d. d \<in> snd ` set gs \<Longrightarrow> identity_text d = i \<Longrightarrow> d = c"
proof -
  have s: "sorted_wrt (\<lambda>a b. fst a < fst b) gs" using assms(1) by (simp only: is_grouping_def)
  then have "sorted_wrt (<) (map fst gs)" by (simp add: sorted_wrt_map)
  then have "distinct (map fst gs)" by (simp add: strict_sorted_iff)
  then show same: "d = c" if "d \<in> snd ` set gs" "identity_text d = i" for d
    using that assms grouping_member by (metis (no_types, lifting) eq_key_imp_eq_value imageE prod.collapse)
  have "{d \<in> snd ` set gs. identity_text d = i} = {c}"
    using same grouping_member [OF assms] assms(2) by (auto intro: rev_image_eqI)
  then have "evidence_of (snd ` set gs) i = set (rl_evidence c)" by (simp add: evidence_of_def)
  then show "evidence_of (snd ` set gs) i = evidence_of R i" using assms unfolding is_grouping_def by blast
qed

lemma regrouping:
  assumes "admissible R" and "is_grouping R gs"
  shows "admissible (snd ` set gs) \<and> is_grouping (snd ` set gs) gs"
proof -
  let ?R = "snd ` set gs"
  note m = grouping_member [OF assms(2)] and ev = regrouping_evidence [OF assms(2)]
  have row: "\<exists>r \<in> R. c = r\<lparr>rl_evidence := rl_evidence c\<rparr>" if "c \<in> ?R" for c using that m by fastforce
  then have typed: "\<forall>c \<in> ?R. assertTypedRelation c = Inr ()"
    using assms(1) typed_irrespective_of_evidence unfolding admissible_def by metis
  have "rl_subject c \<in> entities_of R \<and> rl_object c \<in> entities_of R" if "c \<in> ?R" for c
  proof -
    obtain r where r: "r \<in> R" "c = r\<lparr>rl_evidence := rl_evidence c\<rparr>" using row [OF \<open>c \<in> ?R\<close>] by blast
    have "rl_subject c = rl_subject r" "rl_object c = rl_object r" by (subst r(2), simp)+
    with r(1) show ?thesis by (simp add: entities_of_def)
  qed
  then have "entities_of ?R \<subseteq> entities_of R" unfolding entities_of_def [of ?R] by blast
  then have entities: "\<forall>e \<in> entities_of ?R. \<forall>f \<in> entities_of ?R. re_key e = re_key f \<longrightarrow> e = f"
    using assms(1) unfolding admissible_def by blast
  have consistent: "consistent_at ?R (identity_text c)" if c: "c \<in> ?R" for c
  proof -
    obtain i where i: "(i, c) \<in> set gs" using c by auto
    obtain r where r: "r \<in> R" "identity_text r = i" using m [OF i] by blast
    have "card (evidence_of R i) \<le> 64" using assms(1) r unfolding admissible_def consistent_at_def by blast
    with m [OF i] ev [OF i] show ?thesis unfolding consistent_at_def by metis
  qed
  have "fst ` set gs = identity_text ` ?R" using m by (force simp: image_iff)
  moreover have "set (rl_evidence c) = evidence_of ?R i
      \<and> sorted_wrt (\<lambda>a b. evidence_text a < evidence_text b) (rl_evidence c)
      \<and> (\<forall>r \<in> ?R. identity_text r = i \<longrightarrow> c = r\<lparr>rl_evidence := rl_evidence c\<rparr>)" if i: "(i, c) \<in> set gs" for i c
  proof -
    have "set (rl_evidence c) = evidence_of R i \<and> sorted_wrt (\<lambda>a b. evidence_text a < evidence_text b) (rl_evidence c)"
      using assms(2) i unfolding is_grouping_def by blast
    moreover have "c = r\<lparr>rl_evidence := rl_evidence c\<rparr>" if "r \<in> ?R" "identity_text r = i" for r
      using ev(2) [OF i that] by simp
    ultimately show ?thesis using ev(1) [OF i] by simp
  qed
  ultimately have "is_grouping ?R gs" using assms(2) unfolding is_grouping_def by blast
  with typed entities consistent show ?thesis unfolding admissible_def by blast
qed

text \<open>
  Property C27. The groups are a function of the set of rows: the rows are accepted exactly when every
  one obeys the registry, each entity key names one entity, rows with the same subject, predicate and
  object differ in their evidence only, and no group collects more than 64 items of evidence; the result
  then lists each such relation once, in the order of the identities, with the evidence of all
  its rows, in the order of their texts and without repetition.
\<close>

theorem groups_collect_evidence:
  "groupRelationCandidates rows = Inr gs \<longleftrightarrow> admissible (set rows) \<and> is_grouping (set rows) gs"
  by (rule grouping_iff)

text \<open>
  Grouping is stable: rows in another order or repeated are grouped alike, and the groups
  of a result, grouped again, are the same groups.
\<close>

theorem grouping_is_stable:
  assumes "groupRelationCandidates rows = Inr gs" and "set rows' = set rows"
  shows "groupRelationCandidates rows' = Inr gs \<and> groupRelationCandidates (map snd gs) = Inr gs"
  using assms regrouping [of "set rows" gs] by (simp add: grouping_iff)

definition river_reach :: "string \<Rightarrow> relation_entity" where
  "river_reach k = \<lparr>re_key = k, re_label = k, re_kind = RIVER_REACH, re_externalId = None, re_reference = None\<rparr>"

definition flows_to :: "relation_evidence list \<Rightarrow> relation_candidate" where
  "flows_to evidence =
     \<lparr>rl_subject = river_reach ''a'', rl_predicate = FLOWS_TO, rl_object = river_reach ''b'',
      rl_qualifiers = \<lparr>rq_measure = None, rq_reportedValue = None, rq_reportedLimit = None, rq_unit = None,
        rq_observedAt = None, rq_missing = False, rq_spatialScope = None, rq_limitations = [],
        rq_reportedConclusion = None, rq_context = None\<rparr>,
      rl_generationMethod = ''SOURCE_TABLE'', rl_generationModel = None, rl_evidence = evidence, rl_supersedesId = None\<rparr>"

definition page :: "string \<Rightarrow> relation_evidence" where
  "page l = \<lparr>rv_assetId = ''x'', rv_sourceHash = ''h'', rv_locator = l, rv_excerpt = None, rv_supports = True, rv_source = None\<rparr>"

lemma grouping_is_stable_witness:
  "\<exists>gs. groupRelationCandidates [flows_to [page ''2''], flows_to [page ''1'', page ''2'']] = Inr gs
     \<and> groupRelationCandidates [flows_to [page ''1'', page ''2''], flows_to [page ''2'']] = Inr gs
     \<and> groupRelationCandidates (map snd gs) = Inr gs
     \<and> map (map rv_locator \<circ> rl_evidence \<circ> snd) gs = [[''1'', ''2'']]"
proof -
  let ?rows = "[flows_to [page ''2''], flows_to [page ''1'', page ''2'']]"
  have "(case groupRelationCandidates ?rows of Inl e \<Rightarrow> False
      | Inr gs \<Rightarrow> map (map rv_locator \<circ> rl_evidence \<circ> snd) gs = [[''1'', ''2'']])"
    by code_simp
  then obtain gs where "groupRelationCandidates ?rows = Inr gs" "map (map rv_locator \<circ> rl_evidence \<circ> snd) gs = [[''1'', ''2'']]"
    by (auto split: sum.splits)
  with grouping_is_stable [of ?rows gs "[flows_to [page ''1'', page ''2''], flows_to [page ''2'']]"] show ?thesis by force
qed

end
