(* ===== verification/BusinessQuery.thy ===== *)
theory BusinessQuery
  imports KnowledgeGroups Timestamps
begin

text \<open>
  \<open>packages/data-core/src/business-query.ts\<close>: which relations a business query shows, by kind and period, and
  which of several revisions of a relation is the current one.

  A moment is a number of milliseconds. The code accepts a calendar text only when \<open>Date.parse\<close> succeeds and
  the date written again is the text; what is accepted is therefore a date of the calendar, however
  lenient the parser is with others.
\<close>

section \<open>Periods\<close>

definition all_digits :: "nat \<Rightarrow> string \<Rightarrow> bool" where
  "all_digits n s \<longleftrightarrow> length s = n \<and> list_all is_digit s"

text \<open>\<open>[1-9]\d{3}\<close>.\<close>

definition is_year :: "string \<Rightarrow> bool" where
  "is_year s \<longleftrightarrow> all_digits 4 s \<and> hd s \<noteq> CHR ''0''"

text \<open>\<open>[1-9]\d{3}-\d{2}\<close> and \<open>[1-9]\d{3}-\d{2}-\d{2}\<close>.\<close>

definition is_month :: "string \<Rightarrow> bool" where
  "is_month s \<longleftrightarrow> length s = 7 \<and> is_year (take 4 s) \<and> s ! 4 = CHR ''-'' \<and> all_digits 2 (drop 5 s)"

definition is_date :: "string \<Rightarrow> bool" where
  "is_date s \<longleftrightarrow> length s = 10 \<and> is_month (take 7 s) \<and> s ! 7 = CHR ''-'' \<and> all_digits 2 (drop 8 s)"

definition day_millis :: "int \<Rightarrow> int \<Rightarrow> int \<Rightarrow> int" where
  "day_millis y m d = epoch_day y m d * 86400000"

definition day :: "string \<Rightarrow> int option" where
  "day s =
     (if \<not> is_date s then None
      else
        let y = digits_value (take 4 s); m = digits_value (take 2 (drop 5 s)); d = digits_value (drop 8 s)
        in if valid_date y m d then Some (day_millis y m d) else None)"

text \<open>\<open>setUTCMonth(getUTCMonth() + 1)\<close> on the first day of a month.\<close>

definition next_month :: "int \<Rightarrow> int \<Rightarrow> int" where
  "next_month y m = (if m = 12 then day_millis (y + 1) 1 1 else day_millis y (m + 1) 1)"

text \<open>The fraction that may follow the seconds, and the closing \<open>Z\<close>: \<open>(?:\.\d{1,3})?Z\<close>.\<close>

definition instant_tail :: "string \<Rightarrow> string option option" where
  "instant_tail s =
     (if s = ''Z'' then Some None
      else if s \<noteq> [] \<and> hd s = CHR ''.'' \<and> last s = CHR ''Z'' \<and> list_all is_digit (butlast (tl s))
              \<and> length (butlast (tl s)) \<in> {1, 2, 3}
      then Some (Some (butlast (tl s))) else None)"

definition is_clock :: "string \<Rightarrow> bool" where
  "is_clock s \<longleftrightarrow> length s = 9 \<and> s ! 0 = CHR ''T'' \<and> all_digits 2 (take 2 (drop 1 s)) \<and> s ! 3 = CHR '':''
     \<and> all_digits 2 (take 2 (drop 4 s)) \<and> s ! 6 = CHR '':'' \<and> all_digits 2 (drop 7 s)"

definition instant_of_text :: "string \<Rightarrow> int option" where
  "instant_of_text s =
     (case (day (take 10 s), instant_tail (drop 19 s)) of
        (Some d, Some fraction) \<Rightarrow>
          if \<not> is_clock (take 9 (drop 10 s)) then None
          else
            let h = digits_value (take 2 (drop 11 s)); mi = digits_value (take 2 (drop 14 s)); se = digits_value (take 2 (drop 17 s))
            in if h \<le> 23 \<and> mi \<le> 59 \<and> se \<le> 59
               then Some (d + ((h * 60 + mi) * 60 + se) * 1000 + fraction_millis fraction) else None
      | _ \<Rightarrow> None)"

definition sourceTime :: "string option \<Rightarrow> (int \<times> int) option" where
  "sourceTime value =
     (case value of
        None \<Rightarrow> None
      | Some s \<Rightarrow>
          if s = [] then None
          else if is_year s
          then Some (day_millis (digits_value s) 1 1, day_millis (digits_value s) 12 31 + 86400000 - 1)
          else if is_month s
          then map_option (\<lambda>start. (start, next_month (digits_value (take 4 s)) (digits_value (drop 5 s)) - 1)) (day (s @ ''-01''))
          else case day s of
                 Some full \<Rightarrow> Some (full, full + 86400000 - 1)
               | None \<Rightarrow> map_option (\<lambda>t. (t, t)) (instant_of_text s))"

section \<open>Rows and filters\<close>

datatype relation_status = PENDING_REVIEW | APPROVED | REJECTED | CORRECTION_REQUIRED

record relation_assertion =
  as_dataItemId :: string
  as_versionId :: string
  as_assertionId :: string
  as_version :: int
  as_mappingVersion :: string
  as_candidate :: relation_candidate
  as_status :: relation_status

record relation_filters =
  rf_kind :: "entity_kind option"  \<comment> \<open>\<open>None\<close> for \<open>ALL\<close>\<close>
  rf_timeRole :: "time_role option"
  rf_from :: "string option"
  rf_to :: "string option"
  rf_includeUndated :: bool

definition period :: "relation_assertion \<Rightarrow> (int \<times> int) option" where
  "period row =
     (let q = rl_qualifiers (as_candidate row)
      in case rq_context q of
           None \<Rightarrow> None
         | Some c \<Rightarrow>
             if rc_timeRole c = Time_UNKNOWN then None
             else if rc_validFrom c = None \<and> rc_validTo c = None \<and> rc_timeRole c = OBSERVATION_TIME
             then sourceTime (rq_observedAt q)
             else case (sourceTime (rc_validFrom c), sourceTime (rc_validTo c)) of
                    (Some start, Some end) \<Rightarrow> if snd end < fst start then None else Some (fst start, snd end)
                  | _ \<Rightarrow> None)"

text \<open>
  The bounds of the period asked for: \<open>None\<close> stands for the infinities. A date that \<open>day\<close> does not
  read is \<open>null\<close>, which counts as the number zero.
\<close>

definition day_or_zero :: "string \<Rightarrow> int" where
  "day_or_zero s = (case day s of None \<Rightarrow> 0 | Some d \<Rightarrow> d)"

definition filter_start :: "relation_filters \<Rightarrow> int option" where
  "filter_start f = map_option day_or_zero (rf_from f)"

definition filter_end :: "relation_filters \<Rightarrow> int option" where
  "filter_end f = map_option (\<lambda>s. day_or_zero s + 86400000 - 1) (rf_to f)"

definition matches_kind :: "relation_filters \<Rightarrow> relation_assertion \<Rightarrow> bool" where
  "matches_kind f row \<longleftrightarrow>
     (case rf_kind f of None \<Rightarrow> True
      | Some k \<Rightarrow> re_kind (rl_subject (as_candidate row)) = k \<or> re_kind (rl_object (as_candidate row)) = k)
     \<and> (case rf_timeRole f of None \<Rightarrow> True
        | Some r \<Rightarrow> (case rq_context (rl_qualifiers (as_candidate row)) of None \<Rightarrow> Time_UNKNOWN | Some c \<Rightarrow> rc_timeRole c) = r)"

definition row_kept :: "relation_filters \<Rightarrow> relation_assertion \<Rightarrow> bool" where
  "row_kept f row \<longleftrightarrow>
     matches_kind f row
     \<and> (if rf_from f = None \<and> rf_to f = None then True
        else case period row of
               None \<Rightarrow> rf_includeUndated f
             | Some i \<Rightarrow> (case filter_end f of None \<Rightarrow> True | Some e \<Rightarrow> fst i \<le> e)
                       \<and> (case filter_start f of None \<Rightarrow> True | Some s \<Rightarrow> s \<le> snd i))"

text \<open>Rows without a period are counted once they have passed the tests of kind and role.\<close>

definition filterRelationRows :: "relation_assertion list \<Rightarrow> relation_filters \<Rightarrow> relation_assertion list \<times> nat" where
  "filterRelationRows rows f =
     (filter (row_kept f) rows, length (filter (\<lambda>row. matches_kind f row \<and> period row = None) rows))"

section \<open>Revisions\<close>

definition revises :: "relation_assertion \<Rightarrow> relation_assertion \<Rightarrow> bool" where
  "revises next previous \<longleftrightarrow>
     as_assertionId previous \<noteq> as_assertionId next \<and> as_dataItemId previous = as_dataItemId next
     \<and> as_status previous = as_status next \<and> as_status next \<in> {APPROVED, PENDING_REVIEW}
     \<and> re_key (rl_subject (as_candidate previous)) = re_key (rl_subject (as_candidate next))
     \<and> re_key (rl_object (as_candidate previous)) = re_key (rl_object (as_candidate next))
     \<and> rl_predicate (as_candidate previous) = rl_predicate (as_candidate next)"

definition add_link ::
  "(string \<Rightarrow> relation_assertion option) \<Rightarrow> relation_assertion \<Rightarrow> (string \<times> string) list \<Rightarrow> (string \<times> string) list" where
  "add_link byId next links =
     (case byId (case rl_supersedesId (as_candidate next) of None \<Rightarrow> [] | Some i \<Rightarrow> i) of
        None \<Rightarrow> links
      | Some previous \<Rightarrow>
          if revises next previous then map_put (as_assertionId next) (as_assertionId previous) links else links)"

definition revision_links :: "relation_assertion list \<Rightarrow> (string \<times> string) list" where
  "revision_links rows = fold (add_link (js_map_get (map (\<lambda>r. (as_assertionId r, r)) rows))) rows []"

text \<open>The walk along the links, until they end or come back to a node of the path.\<close>

definition link_nodes :: "(string \<times> string) list \<Rightarrow> string set" where
  "link_nodes links = fst ` set links \<union> snd ` set links"

function follow :: "(string \<times> string) list \<Rightarrow> string list \<Rightarrow> string option \<Rightarrow> string list \<times> string option" where
  "follow links path None = (path, None)"
| "follow links path (Some i) =
     (if i \<in> set path then (path, Some i) else follow links (path @ [i]) (map_of links i))"
  by pat_completeness auto
termination
proof (relation "measure (\<lambda>(links, path, i). card (link_nodes links - set path) + (if i = None then 0 else 1))")
  fix links :: "(string \<times> string) list" and path :: "string list" and i :: string
  assume new: "i \<notin> set path"
  have fin: "finite (link_nodes links - set path)" by (simp add: link_nodes_def)
  show "((links, path @ [i], map_of links i), links, path, Some i)
      \<in> measure (\<lambda>(links, path, i). card (link_nodes links - set path) + (if i = None then 0 else 1))"
  proof (cases "map_of links i")
    case None
    have "card (link_nodes links - set (path @ [i])) \<le> card (link_nodes links - set path)"
      by (rule card_mono [OF fin]) auto
    with None show ?thesis by simp
  next
    case (Some j)
    then have "i \<in> link_nodes links - set path" using new by (force simp: link_nodes_def dest: map_of_SomeD)
    then have "card (link_nodes links - set (path @ [i])) < card (link_nodes links - set path)"
      by (intro psubset_card_mono [OF fin]) auto
    with Some show ?thesis by simp
  qed
qed simp

text \<open>\<open>path.slice(seen.get(id))\<close>: the part of the path from the node on.\<close>

definition cycle_from :: "(string \<times> string) list \<Rightarrow> string \<Rightarrow> string list" where
  "cycle_from links first =
     (case follow links [] (Some first) of
        (path, None) \<Rightarrow> []
      | (path, Some i) \<Rightarrow> dropWhile (\<lambda>x. x \<noteq> i) path)"

definition link_cycles :: "(string \<times> string) list \<Rightarrow> string set" where
  "link_cycles links = (\<Union>first \<in> fst ` set links. set (cycle_from links first))"

definition count_successor :: "string set \<Rightarrow> string \<times> string \<Rightarrow> (string \<times> nat) list \<Rightarrow> (string \<times> nat) list" where
  "count_successor cycles = (\<lambda>(next, previous) counts.
     if next \<notin> cycles \<and> previous \<notin> cycles
     then map_put previous ((case map_of counts previous of None \<Rightarrow> 0 | Some n \<Rightarrow> n) + 1) counts else counts)"

record revision_view =
  rw_items :: "relation_assertion list"
  rw_hiddenCount :: nat
  rw_branchCount :: nat
  rw_deferred :: bool

datatype revision_mode = Mode_all | Mode_current

definition selectRelationRevisions :: "relation_assertion list \<Rightarrow> revision_mode \<Rightarrow> bool \<Rightarrow> revision_view" where
  "selectRelationRevisions rows mode loaded =
     (let deferred = mode = Mode_current \<and> \<not> loaded
      in if mode = Mode_all \<or> deferred
         then \<lparr>rw_items = rows, rw_hiddenCount = 0, rw_branchCount = 0, rw_deferred = deferred\<rparr>
         else
           let links = revision_links rows;
               cycles = link_cycles links;
               successors = fold (count_successor cycles) links [];
               items = filter (\<lambda>r. as_assertionId r \<notin> fst ` set successors) rows
           in \<lparr>rw_items = items, rw_hiddenCount = length rows - length items,
               rw_branchCount = length (filter (\<lambda>n. 1 < n) (map snd successors)), rw_deferred = False\<rparr>)"

section \<open>Cycles\<close>

definition link_relation :: "(string \<times> string) list \<Rightarrow> (string \<times> string) set" where
  "link_relation links = {(n, p). map_of links n = Some p}"

lemma link_relation_iff [simp]: "(n, p) \<in> link_relation links \<longleftrightarrow> map_of links n = Some p"
  by (simp add: link_relation_def)

text \<open>A path whose nodes are linked one to the next, and the last to the given one.\<close>

fun linked :: "(string \<times> string) list \<Rightarrow> string list \<Rightarrow> string option \<Rightarrow> bool" where
  "linked links [] r \<longleftrightarrow> True"
| "linked links [x] r \<longleftrightarrow> map_of links x = r"
| "linked links (x # y # ys) r \<longleftrightarrow> map_of links x = Some y \<and> linked links (y # ys) r"

lemma linked_snoc: "linked links xs (Some i) \<Longrightarrow> linked links (xs @ [i]) (map_of links i)"
  by (induction links xs "Some i" rule: linked.induct) auto

lemma linked_suffix: "linked links (xs @ ys) r \<Longrightarrow> linked links ys r"
proof (induction xs)
  case (Cons x xs)
  then show ?case by (cases "xs @ ys") auto
qed simp

lemma follow_linked:
  "follow links path i = (path', r) \<Longrightarrow> linked links path i \<Longrightarrow>
   linked links path' r \<and> (\<exists>xs. path' = path @ xs) \<and> (\<forall>j. r = Some j \<longrightarrow> j \<in> set path')"
proof (induction links path i rule: follow.induct)
  case (2 links path i)
  show ?case
  proof (cases "i \<in> set path")
    case False
    then have "follow links (path @ [i]) (map_of links i) = (path', r)" using "2.prems"(1) by simp
    from "2.IH" [OF False this linked_snoc [OF "2.prems"(2)]] show ?thesis by auto
  qed (use 2 in auto)
qed auto

lemma linked_reach:
  "linked links (x # xs) r \<Longrightarrow> y \<in> set (x # xs) \<Longrightarrow>
   (x, y) \<in> (link_relation links)\<^sup>* \<and> (\<forall>i. r = Some i \<longrightarrow> (y, i) \<in> (link_relation links)\<^sup>+)"
proof (induction xs arbitrary: x y)
  case (Cons z zs)
  have xz: "(x, z) \<in> link_relation links" and l: "linked links (z # zs) r" using Cons.prems(1) by simp_all
  have z: "\<forall>i. r = Some i \<longrightarrow> (z, i) \<in> (link_relation links)\<^sup>+" using Cons.IH [OF l, of z] by simp
  show ?case
  proof (cases "y = x")
    case True
    with xz z show ?thesis by (auto intro: trancl_into_trancl2)
  next
    case False
    then have "y \<in> set (z # zs)" using Cons.prems(2) by auto
    from Cons.IH [OF l this] xz show ?thesis by (auto intro: converse_rtrancl_into_rtrancl)
  qed
qed (auto intro: r_into_trancl)

lemma linked_closed:
  "linked links (x # xs) (Some i) \<Longrightarrow> y \<in> set (x # xs) \<Longrightarrow> map_of links y = Some z \<Longrightarrow> z \<in> insert i (set (x # xs))"
proof (induction xs arbitrary: x)
  case (Cons a as)
  then show ?case by (cases "y = x") auto
qed auto

text \<open>What a node on a cycle reaches lies on the cycle.\<close>

lemma cycle_returns:
  assumes "(x, x) \<in> (link_relation links)\<^sup>+" and "(x, y) \<in> (link_relation links)\<^sup>*"
  shows "(y, x) \<in> (link_relation links)\<^sup>+"
  using assms(2)
proof (induction rule: rtrancl_induct)
  case (step y z)
  obtain w where "(y, w) \<in> link_relation links" "(w, x) \<in> (link_relation links)\<^sup>*" using tranclD [OF step.IH] by blast
  then have "(z, x) \<in> (link_relation links)\<^sup>*" using step.hyps(2) by simp
  then show ?case using assms(1) by (rule rtrancl_trancl_trancl)
qed (rule assms(1))

lemma dropWhile_at: "i \<in> set path \<Longrightarrow> \<exists>pre rest. path = pre @ i # rest \<and> dropWhile (\<lambda>x. x \<noteq> i) path = i # rest"
proof (induction path)
  case (Cons a path)
  show ?case
  proof (cases "a = i")
    case False
    then obtain pre rest where "path = pre @ i # rest" "dropWhile (\<lambda>x. x \<noteq> i) path = i # rest" using Cons by auto
    with False show ?thesis by (intro exI [of _ "a # pre"] exI [of _ rest]) simp
  qed auto
qed simp

lemma cycle_from_sound:
  assumes "y \<in> set (cycle_from links first)"
  shows "(y, y) \<in> (link_relation links)\<^sup>+"
proof -
  obtain path r where f: "follow links [] (Some first) = (path, r)" by fastforce
  then obtain i where r: "r = Some i" using assms by (cases r) (simp_all add: cycle_from_def)
  then have l: "linked links path (Some i)" "i \<in> set path" using follow_linked [OF f] by simp_all
  obtain pre rest where p: "path = pre @ i # rest" and rest: "dropWhile (\<lambda>x. x \<noteq> i) path = i # rest"
    using dropWhile_at [OF l(2)] by blast
  have "linked links (i # rest) (Some i)" by (rule linked_suffix) (use l(1) p in simp)
  moreover have "y \<in> set (i # rest)" using assms f r rest by (simp add: cycle_from_def)
  ultimately have "(y, i) \<in> (link_relation links)\<^sup>+" "(i, y) \<in> (link_relation links)\<^sup>*"
    using linked_reach by blast+
  then show ?thesis by (rule trancl_rtrancl_trancl)
qed

lemma cycle_from_complete:
  assumes c: "(x, x) \<in> (link_relation links)\<^sup>+"
  shows "x \<in> set (cycle_from links x)"
proof -
  let ?E = "link_relation links"
  obtain path r where f: "follow links [] (Some x) = (path, r)" by fastforce
  have l: "linked links path r" "\<forall>j. r = Some j \<longrightarrow> j \<in> set path" using follow_linked [OF f] by simp_all
  have "follow links [x] (map_of links x) = (path, r)" using f by simp
  then obtain xs where path: "path = x # xs" using follow_linked [of links "[x]"] by fastforce
  have last: "(x, last path) \<in> ?E\<^sup>*" "map_of links (last path) = r"
  proof -
    show "(x, last path) \<in> ?E\<^sup>*" using linked_reach [of links x xs r "last path"] l(1) path by simp
    have "butlast path @ [last path] = path" using path by (intro append_butlast_last_id) simp
    then have "linked links [last path] r" using linked_suffix [of links "butlast path" "[last path]" r] l(1) by metis
    then show "map_of links (last path) = r" by simp
  qed
  obtain z where "(last path, z) \<in> ?E" using tranclD [OF cycle_returns [OF c last(1)]] by blast
  then obtain i where r: "r = Some i" using last(2) by simp
  have i: "i \<in> set path" using l(2) r by blast
  obtain pre rest where p: "path = pre @ i # rest" and rest: "dropWhile (\<lambda>x. x \<noteq> i) path = i # rest"
    using dropWhile_at [OF i] by blast
  have li: "linked links (i # rest) (Some i)" by (rule linked_suffix [of _ pre]) (use l(1) p r in simp)
  have xs: "linked links (x # xs) r" "i \<in> set (x # xs)" using l(1) i unfolding path by blast+
  have "(x, i) \<in> ?E\<^sup>*" using linked_reach [OF xs] by blast
  from trancl_into_rtrancl [OF cycle_returns [OF c this]] have "(i, x) \<in> ?E\<^sup>*" .
  moreover have "y \<in> set (i # rest)" if "(i, y) \<in> ?E\<^sup>*" for y
    using that
  proof (induction rule: rtrancl_induct)
    case (step y z)
    have "map_of links y = Some z" using step.hyps(2) by simp
    from linked_closed [OF li step.IH this] show ?case by auto
  qed simp
  ultimately have "x \<in> set (i # rest)" by blast
  then show ?thesis using f r rest by (simp add: cycle_from_def)
qed

text \<open>The code's cycles are the nodes on cycles of the links.\<close>

lemma link_cycles_iff: "x \<in> link_cycles links \<longleftrightarrow> (x, x) \<in> (link_relation links)\<^sup>+"
proof
  assume "x \<in> link_cycles links"
  then show "(x, x) \<in> (link_relation links)\<^sup>+" using cycle_from_sound by (auto simp: link_cycles_def)
next
  assume c: "(x, x) \<in> (link_relation links)\<^sup>+"
  then obtain y where "(x, y) \<in> link_relation links" using tranclD by fast
  then have "x \<in> fst ` set links" by (force dest: map_of_SomeD)
  with cycle_from_complete [OF c] show "x \<in> link_cycles links" by (auto simp: link_cycles_def)
qed

section \<open>The current view\<close>

definition revision_relation :: "relation_assertion list \<Rightarrow> (string \<times> string) set" where
  "revision_relation rows = link_relation (revision_links rows)"

lemma links_fold_distinct: "distinct (map fst links) \<Longrightarrow> distinct (map fst (fold (add_link byId) rows links))"
  by (induction rows arbitrary: links) (auto simp: add_link_def split: option.splits)

lemma distinct_revision_links [simp]: "distinct (map fst (revision_links rows))"
  by (simp add: revision_links_def links_fold_distinct)

lemma links_fold_rows:
  "map_of (fold (add_link byId) rows links) n = Some p \<Longrightarrow>
   map_of links n = Some p \<or> (\<exists>next \<in> set rows. \<exists>previous k. byId k = Some previous \<and> revises next previous
      \<and> as_assertionId next = n \<and> as_assertionId previous = p)"
proof (induction rows arbitrary: links)
  case (Cons r rows)
  from Cons.IH [of "add_link byId r links"] Cons.prems show ?case
    by (auto simp: add_link_def split: option.splits if_splits)
qed simp

text \<open>A link leads from one row to another that it revises.\<close>

lemma revision_relation_rows:
  assumes "(n, p) \<in> revision_relation rows"
  shows "\<exists>next \<in> set rows. \<exists>previous \<in> set rows. revises next previous \<and> as_assertionId next = n \<and> as_assertionId previous = p"
proof -
  have "map_of (revision_links rows) n = Some p" using assms by (simp add: revision_relation_def)
  then obtain next_row previous k where r: "next_row \<in> set rows" "revises next_row previous" "as_assertionId next_row = n"
    "as_assertionId previous = p" and k: "js_map_get (map (\<lambda>r. (as_assertionId r, r)) rows) k = Some previous"
    unfolding revision_links_def using links_fold_rows [of "js_map_get (map (\<lambda>r. (as_assertionId r, r)) rows)" rows "[]" n p]
    by auto
  have "previous \<in> set rows" using js_map_get_mem [OF k] by auto
  with r show ?thesis by blast
qed

lemma successors_fold:
  "fst ` set (fold (count_successor cycles) links counts) =
     fst ` set counts \<union> {p. \<exists>n. (n, p) \<in> set links \<and> n \<notin> cycles \<and> p \<notin> cycles}"
proof (induction links arbitrary: counts)
  case (Cons l links)
  obtain n p where "l = (n, p)" by fastforce
  with Cons show ?case by (cases "n \<notin> cycles \<and> p \<notin> cycles") (auto simp: count_successor_def)
qed simp

text \<open>A row is superseded when a row off the cycles revises it, and it is off the cycles too.\<close>

definition superseded_by :: "relation_assertion list \<Rightarrow> (string \<times> string) set" where
  "superseded_by rows = {(n, p) \<in> revision_relation rows.
     (n, n) \<notin> (revision_relation rows)\<^sup>+ \<and> (p, p) \<notin> (revision_relation rows)\<^sup>+}"

lemma current_items:
  "set (rw_items (selectRelationRevisions rows Mode_current True)) =
     {r \<in> set rows. \<nexists>n. (n, as_assertionId r) \<in> superseded_by rows}"
proof -
  let ?links = "revision_links rows"
  have in_links: "(n, p) \<in> set ?links \<longleftrightarrow> (n, p) \<in> revision_relation rows" for n p
    by (simp add: revision_relation_def)
  have "fst ` set (fold (count_successor (link_cycles ?links)) ?links []) = {p. \<exists>n. (n, p) \<in> superseded_by rows}"
    by (simp add: successors_fold in_links superseded_by_def link_cycles_iff flip: revision_relation_def)
  then show ?thesis by (auto simp: selectRelationRevisions_def Let_def)
qed

lemma superseded_wf: "wf (superseded_by rows)"
proof (rule finite_acyclic_wf)
  have "superseded_by rows \<subseteq> set (revision_links rows)"
    by (auto simp: superseded_by_def revision_relation_def dest: map_of_SomeD)
  then show "finite (superseded_by rows)" by (rule finite_subset) simp
  have "x = y \<longrightarrow> False" if "(x, y) \<in> (superseded_by rows)\<^sup>+" for x y
  proof -
    have "(x, y) \<in> (revision_relation rows)\<^sup>+" by (rule trancl_mono [OF that]) (auto simp: superseded_by_def)
    moreover have "(x, x) \<notin> (revision_relation rows)\<^sup>+" using tranclD [OF that] by (auto simp: superseded_by_def)
    ultimately show ?thesis by auto
  qed
  then show "acyclic (superseded_by rows)" by (auto simp: acyclic_def)
qed

lemma revision_links_agree:
  assumes "distinct (map as_assertionId rows)" and "(n, p) \<in> revision_relation rows"
    and "v \<in> set rows" "as_assertionId v = n" and "r \<in> set rows" "as_assertionId r = p"
  shows "revises v r"
proof -
  obtain v' r' where "v' \<in> set rows" "r' \<in> set rows" "revises v' r'" "as_assertionId v' = n" "as_assertionId r' = p"
    using revision_relation_rows [OF assms(2)] by blast
  moreover from this have "v' = v" "r' = r"
    using assms(1,3-6) by (metis distinct_map inj_onD)+
  ultimately show ?thesis by simp
qed

text \<open>What a revision may not change.\<close>

definition same_matter :: "relation_assertion \<Rightarrow> relation_assertion \<Rightarrow> bool" where
  "same_matter v r \<longleftrightarrow>
     as_dataItemId v = as_dataItemId r \<and> as_status v = as_status r
     \<and> re_key (rl_subject (as_candidate v)) = re_key (rl_subject (as_candidate r))
     \<and> re_key (rl_object (as_candidate v)) = re_key (rl_object (as_candidate r))
     \<and> rl_predicate (as_candidate v) = rl_predicate (as_candidate r)"

lemma superseded_reaches_current:
  assumes d: "distinct (map as_assertionId rows)"
  shows "r \<in> set rows \<Longrightarrow> as_assertionId r = p \<Longrightarrow>
    \<exists>v \<in> set (rw_items (selectRelationRevisions rows Mode_current True)).
       (as_assertionId v, p) \<in> (revision_relation rows)\<^sup>* \<and> same_matter v r"
proof (induction p arbitrary: r rule: wf_induct_rule [OF superseded_wf [of rows]])
  case (1 p)
  show ?case
  proof (cases "\<exists>n. (n, p) \<in> superseded_by rows")
    case False
    then have "r \<in> set (rw_items (selectRelationRevisions rows Mode_current True))"
      using "1.prems" by (auto simp: current_items)
    then show ?thesis using "1.prems" by (auto simp: same_matter_def)
  next
    case True
    then obtain n where n: "(n, p) \<in> superseded_by rows" by blast
    then have e: "(n, p) \<in> revision_relation rows" by (simp add: superseded_by_def)
    then obtain w where w: "w \<in> set rows" "as_assertionId w = n" using revision_relation_rows by blast
    have "revises w r" using revision_links_agree [OF d e w] "1.prems" by blast
    then have m: "same_matter w r" by (simp add: revises_def same_matter_def)
    obtain v where "v \<in> set (rw_items (selectRelationRevisions rows Mode_current True))"
      "(as_assertionId v, n) \<in> (revision_relation rows)\<^sup>*" "same_matter v w"
      using "1.IH" [OF n w] by blast
    then show ?thesis using m e by (intro bexI [of _ v]) (auto simp: same_matter_def intro: rtrancl_into_rtrancl)
  qed
qed

text \<open>
  Property C30. The current view loses no relation: for every row there is a visible row that has the same item,
  status, subject, predicate and object and that revises it, directly or through a chain of revisions
  (or is the row itself). In particular the cycles that bad data can contain hide nothing.
\<close>

lemma current_view_loses_no_relation:
  assumes "distinct (map as_assertionId rows)" and "r \<in> set rows"
  shows "\<exists>v \<in> set (rw_items (selectRelationRevisions rows Mode_current True)).
    (as_assertionId v, as_assertionId r) \<in> (revision_relation rows)\<^sup>* \<and> same_matter v r"
  by (rule superseded_reaches_current [OF assms refl])

definition revision_row :: "string \<Rightarrow> string option \<Rightarrow> relation_assertion" where
  "revision_row i previous =
     \<lparr>as_dataItemId = ''item'', as_versionId = ''v'', as_assertionId = i, as_version = 1, as_mappingVersion = ''m'',
      as_candidate = (flows_to []) \<lparr>rl_supersedesId := previous\<rparr>, as_status = APPROVED\<rparr>"

lemma current_view_loses_no_relation_witness:
  "let rows = [revision_row ''a'' None, revision_row ''b'' (Some ''a''), revision_row ''c'' (Some ''b''),
               revision_row ''d'' (Some ''e''), revision_row ''e'' (Some ''d'')]
   in (\<exists>v \<in> set (rw_items (selectRelationRevisions rows Mode_current True)).
        (as_assertionId v, ''a'') \<in> (revision_relation rows)\<^sup>* \<and> same_matter v (revision_row ''a'' None))
    \<and> map as_assertionId (rw_items (selectRelationRevisions rows Mode_current True)) = [''c'', ''d'', ''e'']"
proof -
  let ?rows = "[revision_row ''a'' None, revision_row ''b'' (Some ''a''), revision_row ''c'' (Some ''b''),
               revision_row ''d'' (Some ''e''), revision_row ''e'' (Some ''d'')]"
  have "distinct (map as_assertionId ?rows)" "revision_row ''a'' None \<in> set ?rows" by (simp_all add: revision_row_def)
  from current_view_loses_no_relation [OF this]
  have "\<exists>v \<in> set (rw_items (selectRelationRevisions ?rows Mode_current True)).
        (as_assertionId v, ''a'') \<in> (revision_relation ?rows)\<^sup>* \<and> same_matter v (revision_row ''a'' None)"
    by (simp add: revision_row_def)
  moreover have "map as_assertionId (rw_items (selectRelationRevisions ?rows Mode_current True)) = [''c'', ''d'', ''e'']"
    by code_simp
  ultimately show ?thesis by (simp only: Let_def)
qed

section \<open>Intervals\<close>

lemma day_of_date: "day s = Some t \<Longrightarrow> \<exists>y m d. valid_date y m d \<and> t = day_millis y m d"
  by (auto simp: day_def Let_def split: if_splits)

lemma is_month_parts:
  assumes "is_month s"
  shows "take 4 (s @ ''-01'') = take 4 s" and "take 2 (drop 5 (s @ ''-01'')) = drop 5 s" and "drop 8 (s @ ''-01'') = ''01''"
  using assms by (simp_all add: is_month_def)

lemma month_start:
  assumes "is_month s" and "day (s @ ''-01'') = Some t"
  shows "t = day_millis (digits_value (take 4 s)) (digits_value (drop 5 s)) 1"
    and "valid_date (digits_value (take 4 s)) (digits_value (drop 5 s)) 1"
proof -
  have "digits_value ''01'' = 1" by code_simp
  then show "t = day_millis (digits_value (take 4 s)) (digits_value (drop 5 s)) 1"
    and "valid_date (digits_value (take 4 s)) (digits_value (drop 5 s)) 1"
    using assms(2) unfolding day_def Let_def is_month_parts [OF assms(1)] by (simp_all split: if_splits)
qed

lemma next_month_later:
  assumes "valid_date y m 1"
  shows "day_millis y m 1 < next_month y m"
proof -
  have "epoch_day y m 1 < epoch_day (y + 1) 1 1"
    by (rule epoch_day_less [OF assms]) (simp_all add: valid_date_def maximumDay_def)
  moreover have "epoch_day y m 1 < epoch_day y (m + 1) 1" if "m \<noteq> 12"
  proof (rule epoch_day_less [OF assms])
    show "valid_date y (m + 1) 1" using assms that by (auto simp: valid_date_def maximumDay_def)
  qed simp
  ultimately show ?thesis by (auto simp: next_month_def day_millis_def)
qed

lemma year_ordered: "day_millis y 1 1 \<le> day_millis y 12 31 + 86400000 - 1"
proof -
  have "epoch_day y 1 1 < epoch_day y 12 31"
    by (rule epoch_day_less) (simp_all add: valid_date_def maximumDay_def)
  then show ?thesis by (simp add: day_millis_def)
qed

lemma sourceTime_ordered: "sourceTime v = Some (a, b) \<Longrightarrow> a \<le> b"
proof -
  assume v: "sourceTime v = Some (a, b)"
  then obtain s where s: "v = Some s" "s \<noteq> []" by (cases v) (auto simp: sourceTime_def split: if_splits)
  consider (year) "is_year s" | (month) "\<not> is_year s" "is_month s" | (day_or_instant) "\<not> is_year s" "\<not> is_month s" by blast
  then show "a \<le> b"
  proof cases
    case year
    with v s have "a = day_millis (digits_value s) 1 1" "b = day_millis (digits_value s) 12 31 + 86400000 - 1"
      by (simp_all add: sourceTime_def)
    with year_ordered show ?thesis by simp
  next
    case month
    with v s have d: "day (s @ ''-01'') = Some a" and b: "b = next_month (digits_value (take 4 s)) (digits_value (drop 5 s)) - 1"
      by (auto simp: sourceTime_def)
    show ?thesis using next_month_later [OF month_start(2) [OF month(2) d]] month_start(1) [OF month(2) d] b by simp
  next
    case day_or_instant
    with v s show ?thesis by (auto simp: sourceTime_def split: option.splits)
  qed
qed

lemma period_ordered: "period row = Some (a, b) \<Longrightarrow> a \<le> b"
  unfolding period_def Let_def
  by (auto split: option.splits if_splits dest: sourceTime_ordered)

text \<open>
  A relation with a known period is kept exactly when some moment of its period lies in the period
  asked for, whatever the precision of its source (a year, a month, a day or an instant).
\<close>

lemma dated_relation_kept_iff_overlap:
  assumes "matches_kind f row" and "period row = Some (a, b)"
    and "\<And>s e. filter_start f = Some s \<Longrightarrow> filter_end f = Some e \<Longrightarrow> s \<le> e"
  shows "row_kept f row \<longleftrightarrow>
    (\<exists>t. a \<le> t \<and> t \<le> b \<and> (\<forall>s. filter_start f = Some s \<longrightarrow> s \<le> t) \<and> (\<forall>e. filter_end f = Some e \<longrightarrow> t \<le> e))"
proof (cases "filter_start f")
  case None
  then have "rf_from f = None" by (simp add: filter_start_def)
  then show ?thesis using assms(1,2) period_ordered [OF assms(2)] None
    by (cases "filter_end f") (auto simp: row_kept_def filter_end_def)
next
  case (Some s)
  then have "rf_from f \<noteq> None" by (auto simp: filter_start_def)
  then show ?thesis
    using assms(1,2) assms(3) [OF Some] period_ordered [OF assms(2)] Some
    by (cases "filter_end f") (auto simp: row_kept_def intro!: exI [of _ "max a s"])
qed

definition august_filter :: relation_filters where
  "august_filter = \<lparr>rf_kind = None, rf_timeRole = None, rf_from = Some ''2024-08-15'', rf_to = Some ''2024-08-20'', rf_includeUndated = False\<rparr>"

definition august_row :: relation_assertion where
  "august_row = (revision_row ''a'' None)
     \<lparr>as_candidate := (flows_to []) \<lparr>rl_qualifiers := (rl_qualifiers (flows_to []))
        \<lparr>rq_context := Some \<lparr>rc_recordNature = REPORTED_OBSERVATION, rc_timeRole = OBSERVATION_TIME,
           rc_validFrom = Some ''2024-08'', rc_validTo = Some ''2024-08'', rc_locationRole = '''', rc_applicability = ''''\<rparr>\<rparr>\<rparr>\<rparr>"

lemma dated_relation_kept_iff_overlap_witness: "row_kept august_filter august_row"
proof -
  have p: "period august_row = Some (1722470400000, 1725148799999)" by code_simp
  have s: "filter_start august_filter = Some 1723680000000" and e: "filter_end august_filter = Some 1724198399999" by code_simp+
  have "matches_kind august_filter august_row" by code_simp
  from dated_relation_kept_iff_overlap [OF this p] show ?thesis using s e by (auto intro: exI [of _ 1723680000000])
qed

text \<open>A year before the thousandth is no date of a filter, and stands for the first of January 1970.\<close>

lemma early_filter_date: "day_or_zero ''0999-12-31'' = 0 \<and> day_or_zero ''1970-01-01'' = 0"
  by code_simp

end
