(* ===== verification/ResourceAccess.thy ===== *)
theory ResourceAccess
  imports Timestamps
begin

text \<open>
  Who may use which resource, \<open>resource-access-policy.ts\<close> and \<open>resource-access-scope.ts\<close> of
  \<open>packages/platform-auth/src\<close> with the data of \<open>packages/platform-contracts/src\<close>: the decision on one request,
  and the scope of permissions that is compiled for a principal and valid until a deadline.

  The schemas check shapes (identifiers, patterns of timestamps, sizes) by a library; these checks are a
  parameter \<open>shape\<close>, and the refinements that the repository adds are modelled. An \<open>unknown\<close> input is a
  value of the schema's type. A timestamp has the pattern of \<open>Timestamps\<close>; \<open>Date.parse\<close> yields a number or
  \<open>NaN\<close>, with which no comparison holds.
\<close>

section \<open>Moments\<close>

type_synonym moment = "int option"

abbreviation parse_moment :: "string \<Rightarrow> moment" where
  "parse_moment \<equiv> date_parse_iso"

fun earlier :: "moment \<Rightarrow> moment \<Rightarrow> bool" where
  "earlier (Some a) (Some b) \<longleftrightarrow> a < b"
| "earlier _ _ \<longleftrightarrow> False"

fun not_later :: "moment \<Rightarrow> moment \<Rightarrow> bool" where
  "not_later (Some a) (Some b) \<longleftrightarrow> a \<le> b"
| "not_later _ _ \<longleftrightarrow> False"

section \<open>Resources, grants and limits\<close>

datatype access_action = SOURCE_DISCOVER | CONTENT_READ | ORIGINAL_READ | RESULT_EXPORT | EXTERNAL_DIRECTORY

definition action_options :: "access_action list" where
  "action_options = [SOURCE_DISCOVER, CONTENT_READ, ORIGINAL_READ, RESULT_EXPORT, EXTERNAL_DIRECTORY]"

fun action_text :: "access_action \<Rightarrow> string" where
  "action_text SOURCE_DISCOVER = ''source.discover''"
| "action_text CONTENT_READ = ''content.read''"
| "action_text ORIGINAL_READ = ''original.read''"
| "action_text RESULT_EXPORT = ''result.export''"
| "action_text EXTERNAL_DIRECTORY = ''external.directory''"

lemma action_text_inj: "action_text a = action_text b \<longleftrightarrow> a = b"
  by (cases a; cases b; simp)

datatype resource_reference =
  Version_reference (ref_dataItemId: string) (ref_versionId: string)
| External_source_reference (ref_sourceId: string)

fun resourceAccessReferenceKey :: "resource_reference \<Rightarrow> string" where
  "resourceAccessReferenceKey (Version_reference d v) = ''version:'' @ d @ '':'' @ v"
| "resourceAccessReferenceKey (External_source_reference s) = ''external-source:'' @ s"

datatype grant_status = Active_grant | Revoked_grant

record access_grant =
  ag_id :: string
  ag_tenantId :: string
  ag_projectId :: string
  ag_actorId :: string
  ag_purpose :: string
  ag_packageId :: string
  ag_packageVersion :: int
  ag_presetId :: string
  ag_presetVersion :: int
  ag_resources :: "resource_reference list"
  ag_actions :: "access_action list"
  ag_startsAt :: string
  ag_expiresAt :: string
  ag_status :: grant_status

record policy_limit =
  pl_id :: string
  pl_version :: int
  pl_tenantId :: string
  pl_projectId :: string
  pl_resource :: resource_reference
  pl_allowedActions :: "access_action list"
  pl_managementRoles :: "string list"
  pl_licenseBasis :: string
  pl_status :: grant_status
  pl_startsAt :: string
  pl_expiresAt :: string
  pl_maxGrantDays :: int

text \<open>The refinements of the schemas.\<close>

definition grant_refined :: "access_grant \<Rightarrow> bool" where
  "grant_refined g \<longleftrightarrow>
     \<not> not_later (parse_moment (ag_expiresAt g)) (parse_moment (ag_startsAt g))
     \<and> length (js_set (ag_actions g)) = length (ag_actions g)
     \<and> length (js_set (map resourceAccessReferenceKey (ag_resources g))) = length (map resourceAccessReferenceKey (ag_resources g))"

definition limit_refined :: "policy_limit \<Rightarrow> bool" where
  "limit_refined l \<longleftrightarrow>
     length (js_set (pl_allowedActions l)) = length (pl_allowedActions l)
     \<and> length (js_set (pl_managementRoles l)) = length (pl_managementRoles l)
     \<and> earlier (parse_moment (pl_startsAt l)) (parse_moment (pl_expiresAt l))"

definition grants_refined :: "access_grant list \<Rightarrow> bool" where
  "grants_refined gs \<longleftrightarrow> list_all grant_refined gs \<and> length (js_set (map ag_id gs)) = length gs"

definition limits_refined :: "policy_limit list \<Rightarrow> bool" where
  "limits_refined ls \<longleftrightarrow>
     list_all limit_refined ls
     \<and> length (js_set (map (\<lambda>l. resourceAccessReferenceKey (pl_resource l)) ls)) = length ls"

section \<open>The decision on a request\<close>

datatype access_mode = Legacy_mode | Managed_mode

record access_evaluation =
  ae_mode :: access_mode
  ae_tenantId :: string
  ae_projectId :: string
  ae_actorId :: string
  ae_purpose :: string
  ae_resource :: resource_reference
  ae_action :: access_action
  ae_now :: string
  ae_baseAllowed :: bool
  ae_resourceAvailable :: bool
  ae_providerAllowed :: bool
  ae_grants :: "access_grant list"

datatype access_reason =
  INVALID_POLICY | BASE_DENIED | RESOURCE_UNAVAILABLE | PROVIDER_DENIED | LEGACY_ACCESS | NO_GRANT | GRANTED

record access_decision =
  ad_allowed :: bool
  ad_reason :: access_reason
  ad_grantIds :: "string list"
  ad_validUntil :: "string option"

definition evaluation_accepted :: "(access_evaluation \<Rightarrow> bool) \<Rightarrow> access_evaluation \<Rightarrow> bool" where
  "evaluation_accepted shape input \<longleftrightarrow> shape input \<and> grants_refined (ae_grants input)"

definition denied :: "access_reason \<Rightarrow> access_decision" where
  "denied reason = \<lparr>ad_allowed = False, ad_reason = reason, ad_grantIds = [], ad_validUntil = None\<rparr>"

definition grant_matches :: "access_evaluation \<Rightarrow> access_grant \<Rightarrow> bool" where
  "grant_matches policy grant \<longleftrightarrow>
     ag_tenantId grant = ae_tenantId policy \<and> ag_projectId grant = ae_projectId policy
     \<and> ag_actorId grant = ae_actorId policy \<and> ag_purpose grant = ae_purpose policy
     \<and> ag_status grant = Active_grant
     \<and> not_later (parse_moment (ag_startsAt grant)) (parse_moment (ae_now policy))
     \<and> earlier (parse_moment (ae_now policy)) (parse_moment (ag_expiresAt grant))
     \<and> ae_action policy \<in> set (ag_actions grant)
     \<and> list_ex (\<lambda>r. resourceAccessReferenceKey r = resourceAccessReferenceKey (ae_resource policy)) (ag_resources grant)"

text \<open>The expiry that comes first; of equal ones the first in the list.\<close>

definition earliest_expiry :: "access_grant list \<Rightarrow> string" where
  "earliest_expiry matching =
     foldl (\<lambda>first g. if earlier (parse_moment (ag_expiresAt g)) (parse_moment first) then ag_expiresAt g else first)
       (ag_expiresAt (hd matching)) matching"

definition evaluateResourceAccess :: "(access_evaluation \<Rightarrow> bool) \<Rightarrow> access_evaluation \<Rightarrow> access_decision" where
  "evaluateResourceAccess shape policy =
     (if \<not> evaluation_accepted shape policy then denied INVALID_POLICY
      else if \<not> ae_baseAllowed policy then denied BASE_DENIED
      else if \<not> ae_resourceAvailable policy then denied RESOURCE_UNAVAILABLE
      else if \<not> ae_providerAllowed policy then denied PROVIDER_DENIED
      else if ae_mode policy = Legacy_mode
      then \<lparr>ad_allowed = True, ad_reason = LEGACY_ACCESS, ad_grantIds = [], ad_validUntil = None\<rparr>
      else
        let matching = filter (grant_matches policy) (ae_grants policy)
        in if matching = [] then denied NO_GRANT
           else \<lparr>ad_allowed = True, ad_reason = GRANTED, ad_grantIds = js_sort (\<lambda>a b. b < a) (map ag_id matching),
                 ad_validUntil = Some (earliest_expiry matching)\<rparr>)"

section \<open>The compiled scope\<close>

record delegator_input =
  di_actorId :: string
  di_grants :: "access_grant list"

record scope_input =
  cs_limits :: "policy_limit list option"
  cs_mode :: access_mode
  cs_tenantId :: string
  cs_projectId :: string
  cs_actorId :: string
  cs_purpose :: string
  cs_now :: string
  cs_grants :: "access_grant list"
  cs_delegator :: "delegator_input option"

datatype access_scope =
  Legacy_scope
| Managed_scope (scope_permissions: "access_action \<Rightarrow> resource_reference list") (scope_validUntil: "string option")

definition scope_input_accepted :: "(scope_input \<Rightarrow> bool) \<Rightarrow> scope_input \<Rightarrow> bool" where
  "scope_input_accepted shape input \<longleftrightarrow>
     shape input \<and> grants_refined (cs_grants input)
     \<and> (case cs_limits input of None \<Rightarrow> True | Some ls \<Rightarrow> limits_refined ls)
     \<and> (case cs_delegator input of None \<Rightarrow> True | Some d \<Rightarrow> grants_refined (di_grants d))"

definition restrictDeadline :: "moment \<Rightarrow> string option \<Rightarrow> string \<Rightarrow> string option" where
  "restrictDeadline now deadline value =
     (if earlier now (parse_moment value)
         \<and> (case deadline of None \<Rightarrow> True | Some d \<Rightarrow> earlier (parse_moment value) (parse_moment d))
      then Some value else deadline)"

text \<open>The deadline so far, and the resources found for each action.\<close>

type_synonym collected = "string option \<times> (access_action \<Rightarrow> (string \<times> resource_reference) list)"

definition collect_resource ::
  "scope_input \<Rightarrow> moment \<Rightarrow> access_action \<Rightarrow> resource_reference \<Rightarrow> collected \<Rightarrow> collected" where
  "collect_resource policy now action resource = (\<lambda>(deadline, maps).
     let key = resourceAccessReferenceKey resource;
         found = maps(action := map_put key resource (maps action))
     in case cs_limits policy of
          None \<Rightarrow> (deadline, found)
        | Some limits \<Rightarrow>
            (case js_map_get (map (\<lambda>l. (resourceAccessReferenceKey (pl_resource l), l)) limits) key of
               None \<Rightarrow> (deadline, maps)
             | Some limit \<Rightarrow>
                 if pl_tenantId limit \<noteq> cs_tenantId policy \<or> pl_projectId limit \<noteq> cs_projectId policy
                    \<or> pl_status limit \<noteq> Active_grant \<or> action \<notin> set (pl_allowedActions limit)
                 then (deadline, maps)
                 else
                   let deadline = restrictDeadline now deadline (pl_startsAt limit);
                       deadline = restrictDeadline now deadline (pl_expiresAt limit)
                   in if earlier now (parse_moment (pl_startsAt limit)) \<or> not_later (parse_moment (pl_expiresAt limit)) now
                      then (deadline, maps) else (deadline, found)))"

definition collect_grant :: "scope_input \<Rightarrow> moment \<Rightarrow> string \<Rightarrow> access_grant \<Rightarrow> collected \<Rightarrow> collected" where
  "collect_grant policy now actorId grant = (\<lambda>(deadline, maps).
     if ag_status grant \<noteq> Active_grant \<or> ag_tenantId grant \<noteq> cs_tenantId policy
        \<or> ag_projectId grant \<noteq> cs_projectId policy \<or> ag_actorId grant \<noteq> actorId
        \<or> ag_purpose grant \<noteq> cs_purpose policy
     then (deadline, maps)
     else
       let deadline = restrictDeadline now deadline (ag_startsAt grant);
           deadline = restrictDeadline now deadline (ag_expiresAt grant)
       in if earlier now (parse_moment (ag_startsAt grant)) \<or> not_later (parse_moment (ag_expiresAt grant)) now
          then (deadline, maps)
          else fold (\<lambda>action. fold (collect_resource policy now action) (ag_resources grant)) (ag_actions grant)
                 (deadline, maps))"

definition collect_grants :: "scope_input \<Rightarrow> moment \<Rightarrow> string \<Rightarrow> access_grant list \<Rightarrow> string option \<Rightarrow> collected" where
  "collect_grants policy now actorId grants deadline =
     fold (collect_grant policy now actorId) grants (deadline, \<lambda>_. [])"

definition compileResourceAccessScope ::
  "(scope_input \<Rightarrow> bool) \<Rightarrow> (string \<Rightarrow> string \<Rightarrow> bool) \<Rightarrow> scope_input \<Rightarrow> access_scope option" where
  "compileResourceAccessScope shape locale_after policy =
     (if \<not> scope_input_accepted shape policy then None
      else if cs_mode policy = Legacy_mode then Some Legacy_scope
      else
        let now = parse_moment (cs_now policy);
            (deadline, subject) = collect_grants policy now (cs_actorId policy) (cs_grants policy) None;
            (deadline, delegator) =
              (case cs_delegator policy of
                 None \<Rightarrow> (deadline, None)
               | Some d \<Rightarrow> (let (deadline, maps) = collect_grants policy now (di_actorId d) (di_grants d) deadline
                           in (deadline, Some maps)));
            permissions = (\<lambda>action.
              map snd (js_sort (\<lambda>a b. locale_after (fst a) (fst b))
                (filter (\<lambda>e. case delegator of None \<Rightarrow> True | Some maps \<Rightarrow> fst e \<in> fst ` set (maps action))
                  (subject action))))
        in if list_all (\<lambda>action. length (permissions action) \<le> 1000) action_options
           then Some (Managed_scope permissions deadline) else None)"

section \<open>Nothing changes before the deadline\<close>

lemma earlier_iff: "earlier a b \<longleftrightarrow> (\<exists>x y. a = Some x \<and> b = Some y \<and> x < y)"
  by (cases a; cases b) auto

lemma not_later_iff: "not_later a b \<longleftrightarrow> (\<exists>x y. a = Some x \<and> b = Some y \<and> x \<le> y)"
  by (cases a; cases b) auto

definition before_deadline :: "int \<Rightarrow> string option \<Rightarrow> bool" where
  "before_deadline t deadline \<longleftrightarrow> (case deadline of None \<Rightarrow> True | Some d \<Rightarrow> earlier (Some t) (parse_moment d))"

lemma before_deadline_None [simp]: "before_deadline t None"
  by (simp add: before_deadline_def)

text \<open>A later moment before the resulting deadline sees the value on the same side.\<close>

lemma restrictDeadline_later:
  assumes "t \<le> t'" and "before_deadline t' (restrictDeadline (Some t) d v)"
  shows "restrictDeadline (Some t') d v = restrictDeadline (Some t) d v" and "before_deadline t' d"
    and "earlier (Some t') (parse_moment v) \<longleftrightarrow> earlier (Some t) (parse_moment v)"
    and "not_later (parse_moment v) (Some t') \<longleftrightarrow> not_later (parse_moment v) (Some t)"
proof -
  have "before_deadline t' d \<and> (earlier (Some t') (parse_moment v) \<longleftrightarrow> earlier (Some t) (parse_moment v))"
    using assms by (cases d; cases "parse_moment v")
      (auto simp: restrictDeadline_def before_deadline_def earlier_iff split: if_splits)
  then show d: "before_deadline t' d" and e: "earlier (Some t') (parse_moment v) \<longleftrightarrow> earlier (Some t) (parse_moment v)"
    by blast+
  show "restrictDeadline (Some t') d v = restrictDeadline (Some t) d v" unfolding restrictDeadline_def e ..
  show "not_later (parse_moment v) (Some t') \<longleftrightarrow> not_later (parse_moment v) (Some t)"
    using e by (cases "parse_moment v") auto
qed

text \<open>Steps that agree at two moments, as far as the deadline goes that they leave.\<close>

definition agree_until :: "int \<Rightarrow> (collected \<Rightarrow> collected) \<Rightarrow> (collected \<Rightarrow> collected) \<Rightarrow> bool" where
  "agree_until t' f f' \<longleftrightarrow>
     (\<forall>st. before_deadline t' (fst (f st)) \<longrightarrow> f' st = f st \<and> before_deadline t' (fst st))"

lemma agree_until_fold:
  assumes "\<And>x. x \<in> set xs \<Longrightarrow> agree_until t' (f x) (f' x)"
  shows "agree_until t' (fold f xs) (fold f' xs)"
  using assms
proof (induction xs)
  case Nil
  then show ?case by (simp add: agree_until_def)
next
  case (Cons x xs)
  have x: "agree_until t' (f x) (f' x)" and xs: "agree_until t' (fold f xs) (fold f' xs)"
    using Cons by simp_all
  show ?case unfolding agree_until_def
  proof (intro allI impI)
    fix st assume "before_deadline t' (fst (fold f (x # xs) st))"
    then have "before_deadline t' (fst (fold f xs (f x st)))" by simp
    then have t: "fold f' xs (f x st) = fold f xs (f x st)" "before_deadline t' (fst (f x st))"
      using xs unfolding agree_until_def by blast+
    then have "f' x st = f x st" "before_deadline t' (fst st)" using x unfolding agree_until_def by blast+
    with t show "fold f' (x # xs) st = fold f (x # xs) st \<and> before_deadline t' (fst st)" by simp
  qed
qed

lemma collect_resource_later:
  assumes "t \<le> t'"
  shows "agree_until t' (collect_resource p (Some t) a r) (collect_resource p (Some t') a r)"
  unfolding agree_until_def
proof (intro allI impI)
  fix st :: collected
  obtain d m where st: "st = (d, m)" by (cases st)
  assume b: "before_deadline t' (fst (collect_resource p (Some t) a r st))"
  show "collect_resource p (Some t') a r st = collect_resource p (Some t) a r st \<and> before_deadline t' (fst st)"
  proof (cases "cs_limits p")
    case None
    with b st show ?thesis by (simp add: collect_resource_def Let_def)
  next
    case (Some limits)
    let ?get = "js_map_get (map (\<lambda>l. (resourceAccessReferenceKey (pl_resource l), l)) limits) (resourceAccessReferenceKey r)"
    show ?thesis
    proof (cases ?get)
      case None
      with b st Some show ?thesis by (simp add: collect_resource_def Let_def)
    next
      case (Some l)
      let ?skip = "pl_tenantId l \<noteq> cs_tenantId p \<or> pl_projectId l \<noteq> cs_projectId p
          \<or> pl_status l \<noteq> Active_grant \<or> a \<notin> set (pl_allowedActions l)"
      show ?thesis
      proof (cases ?skip)
        case True
        with b st \<open>cs_limits p = Some limits\<close> Some show ?thesis by (simp add: collect_resource_def Let_def)
      next
        case False
        let ?d1 = "restrictDeadline (Some t) d (pl_startsAt l)"
        let ?d2 = "restrictDeadline (Some t) ?d1 (pl_expiresAt l)"
        have "before_deadline t' ?d2"
          using b st \<open>cs_limits p = Some limits\<close> Some False by (simp add: collect_resource_def Let_def split: if_splits)
        note e = restrictDeadline_later [OF assms this]
        note s = restrictDeadline_later [OF assms e(2)]
        show ?thesis using st \<open>cs_limits p = Some limits\<close> Some False
          by (simp add: collect_resource_def Let_def e s)
      qed
    qed
  qed
qed

lemma collect_grant_later:
  assumes "t \<le> t'"
  shows "agree_until t' (collect_grant p (Some t) actor g) (collect_grant p (Some t') actor g)"
  unfolding agree_until_def
proof (intro allI impI)
  fix st :: collected
  obtain d m where st: "st = (d, m)" by (cases st)
  assume b: "before_deadline t' (fst (collect_grant p (Some t) actor g st))"
  let ?skip = "ag_status g \<noteq> Active_grant \<or> ag_tenantId g \<noteq> cs_tenantId p
      \<or> ag_projectId g \<noteq> cs_projectId p \<or> ag_actorId g \<noteq> actor \<or> ag_purpose g \<noteq> cs_purpose p"
  let ?step = "\<lambda>u. fold (\<lambda>a. fold (collect_resource p (Some u) a) (ag_resources g)) (ag_actions g)"
  have fold: "agree_until t' (?step t) (?step t')"
    by (intro agree_until_fold collect_resource_later assms)
  show "collect_grant p (Some t') actor g st = collect_grant p (Some t) actor g st \<and> before_deadline t' (fst st)"
  proof (cases ?skip)
    case True
    with b st show ?thesis by (simp add: collect_grant_def Let_def)
  next
    case False
    let ?d1 = "restrictDeadline (Some t) d (ag_startsAt g)"
    let ?d2 = "restrictDeadline (Some t) ?d1 (ag_expiresAt g)"
    have inactive: "earlier (Some t) (parse_moment (ag_startsAt g)) \<or> not_later (parse_moment (ag_expiresAt g)) (Some t)
        \<Longrightarrow> before_deadline t' ?d2"
      using b st False by (simp add: collect_grant_def Let_def)
    have active: "before_deadline t' (fst (?step t (?d2, m)))"
      if "\<not> (earlier (Some t) (parse_moment (ag_startsAt g)) \<or> not_later (parse_moment (ag_expiresAt g)) (Some t))"
      using b st False that by (simp add: collect_grant_def Let_def split: if_splits)
    have d2: "before_deadline t' ?d2"
      using inactive active fold unfolding agree_until_def by (metis fst_conv)
    note e = restrictDeadline_later [OF assms d2]
    note s = restrictDeadline_later [OF assms e(2)]
    have "\<not> (earlier (Some t) (parse_moment (ag_startsAt g)) \<or> not_later (parse_moment (ag_expiresAt g)) (Some t))
        \<Longrightarrow> ?step t' (?d2, m) = ?step t (?d2, m)"
      using active fold unfolding agree_until_def by blast
    with st False show ?thesis by (simp add: collect_grant_def Let_def e s)
  qed
qed

lemma collect_grants_later:
  assumes "t \<le> t'" and "before_deadline t' (fst (collect_grants p (Some t) actor gs d))"
  shows "collect_grants p (Some t') actor gs d = collect_grants p (Some t) actor gs d \<and> before_deadline t' d"
proof -
  have "agree_until t' (fold (collect_grant p (Some t) actor) gs) (fold (collect_grant p (Some t') actor) gs)"
    by (intro agree_until_fold collect_grant_later assms(1))
  with assms(2) show ?thesis unfolding agree_until_def collect_grants_def by auto
qed

section \<open>What a scope permits\<close>

definition limit_admits :: "scope_input \<Rightarrow> moment \<Rightarrow> access_action \<Rightarrow> string \<Rightarrow> bool" where
  "limit_admits p now a k \<longleftrightarrow>
     (case cs_limits p of None \<Rightarrow> True
      | Some limits \<Rightarrow>
          (\<exists>l. js_map_get (map (\<lambda>l. (resourceAccessReferenceKey (pl_resource l), l)) limits) k = Some l
             \<and> pl_tenantId l = cs_tenantId p \<and> pl_projectId l = cs_projectId p \<and> pl_status l = Active_grant
             \<and> a \<in> set (pl_allowedActions l)
             \<and> \<not> earlier now (parse_moment (pl_startsAt l)) \<and> \<not> not_later (parse_moment (pl_expiresAt l)) now))"

definition grant_in_force :: "scope_input \<Rightarrow> moment \<Rightarrow> string \<Rightarrow> access_grant \<Rightarrow> bool" where
  "grant_in_force p now actor g \<longleftrightarrow>
     ag_status g = Active_grant \<and> ag_tenantId g = cs_tenantId p \<and> ag_projectId g = cs_projectId p
     \<and> ag_actorId g = actor \<and> ag_purpose g = cs_purpose p
     \<and> \<not> earlier now (parse_moment (ag_startsAt g)) \<and> \<not> not_later (parse_moment (ag_expiresAt g)) now"

text \<open>An actor holds an action on a resource: a grant in force lists both, and the resource's limit admits it.\<close>

definition holds_permission :: "scope_input \<Rightarrow> moment \<Rightarrow> string \<Rightarrow> access_grant list \<Rightarrow> access_action \<Rightarrow> string \<Rightarrow> bool" where
  "holds_permission p now actor gs a k \<longleftrightarrow>
     (\<exists>g \<in> set gs. grant_in_force p now actor g \<and> a \<in> set (ag_actions g)
        \<and> k \<in> resourceAccessReferenceKey ` set (ag_resources g)) \<and> limit_admits p now a k"

definition found_keys :: "collected \<Rightarrow> access_action \<Rightarrow> string set" where
  "found_keys st a = fst ` set (snd st a)"

lemma found_keys_resource:
  "found_keys (collect_resource p now b r st) a =
     (if a = b \<and> limit_admits p now b (resourceAccessReferenceKey r)
      then insert (resourceAccessReferenceKey r) (found_keys st a) else found_keys st a)"
  by (cases st) (auto simp: collect_resource_def limit_admits_def found_keys_def Let_def split: option.splits)

lemma found_keys_resources:
  "found_keys (fold (collect_resource p now b) rs st) a =
     found_keys st a \<union> {k \<in> resourceAccessReferenceKey ` set rs. a = b \<and> limit_admits p now b k}"
  by (induction rs arbitrary: st) (auto simp: found_keys_resource)

lemma found_keys_actions:
  "found_keys (fold (\<lambda>b. fold (collect_resource p now b) rs) as st) a =
     found_keys st a \<union> {k \<in> resourceAccessReferenceKey ` set rs. a \<in> set as \<and> limit_admits p now a k}"
  by (induction as arbitrary: st) (auto simp: found_keys_resources)

lemma found_keys_same [simp]: "found_keys (d, m) = found_keys (d', m)"
  by (simp add: found_keys_def fun_eq_iff)

lemma found_keys_grant:
  "found_keys (collect_grant p now actor g st) a =
     found_keys st a \<union> {k. grant_in_force p now actor g \<and> a \<in> set (ag_actions g)
        \<and> k \<in> resourceAccessReferenceKey ` set (ag_resources g) \<and> limit_admits p now a k}"
proof -
  obtain d m where st: "st = (d, m)" by (cases st)
  have "found_keys (d', m) a = found_keys st a" for d' by (simp add: st found_keys_def)
  then show ?thesis
    by (auto simp: st collect_grant_def grant_in_force_def Let_def found_keys_actions)
qed

lemma holds_permission_Nil: "\<not> holds_permission p now actor [] a k"
  by (simp add: holds_permission_def)

lemma holds_permission_Cons:
  "holds_permission p now actor (g # gs) a k \<longleftrightarrow>
     grant_in_force p now actor g \<and> a \<in> set (ag_actions g)
       \<and> k \<in> resourceAccessReferenceKey ` set (ag_resources g) \<and> limit_admits p now a k
     \<or> holds_permission p now actor gs a k"
  unfolding holds_permission_def by auto

lemma found_keys_grants:
  "found_keys (collect_grants p now actor gs d) a = {k. holds_permission p now actor gs a k}"
proof -
  have "found_keys (fold (collect_grant p now actor) gs st) a =
      found_keys st a \<union> {k. holds_permission p now actor gs a k}" for st
    by (induction gs arbitrary: st) (auto simp: found_keys_grant holds_permission_Cons holds_permission_Nil)
  moreover have "found_keys (d, \<lambda>_. []) a = {}" by (simp add: found_keys_def)
  ultimately show ?thesis by (simp add: collect_grants_def)
qed

text \<open>Every entry carries a reference with its key.\<close>

definition keyed_entries :: "collected \<Rightarrow> bool" where
  "keyed_entries st \<longleftrightarrow> (\<forall>a. distinct (map fst (snd st a)) \<and> (\<forall>e \<in> set (snd st a). fst e = resourceAccessReferenceKey (snd e)))"

lemma keyed_entries_put:
  "keyed_entries (d, m) \<Longrightarrow> keyed_entries (d', m(a := map_put (resourceAccessReferenceKey r) r (m a)))"
  unfolding keyed_entries_def by (simp add: set_map_put) (metis fst_conv snd_conv)

lemma keyed_entries_resource: "keyed_entries st \<Longrightarrow> keyed_entries (collect_resource p now b r st)"
proof -
  assume k: "keyed_entries st"
  obtain d m where st: "st = (d, m)" by (cases st)
  have "keyed_entries (d', m)" for d' using k by (simp add: st keyed_entries_def)
  with k show ?thesis
    by (auto simp: st collect_resource_def Let_def split: option.splits intro: keyed_entries_put)
qed

lemma keyed_entries_fold: "(\<And>x st. keyed_entries st \<Longrightarrow> keyed_entries (f x st)) \<Longrightarrow> keyed_entries st \<Longrightarrow> keyed_entries (fold f xs st)"
  by (induction xs arbitrary: st) simp_all

lemma keyed_entries_grant: "keyed_entries st \<Longrightarrow> keyed_entries (collect_grant p now actor g st)"
proof -
  assume k: "keyed_entries st"
  obtain d m where st: "st = (d, m)" by (cases st)
  have "keyed_entries (d', m)" for d' using k by (simp add: st keyed_entries_def)
  then show ?thesis
    by (auto simp: st collect_grant_def Let_def intro!: keyed_entries_fold keyed_entries_resource)
qed

lemma keyed_entries_grants: "keyed_entries (collect_grants p now actor gs d)"
  unfolding collect_grants_def by (intro keyed_entries_fold keyed_entries_grant) (simp_all add: keyed_entries_def)

section \<open>The scope as a whole\<close>

lemma compiled_managed:
  assumes "compileResourceAccessScope shape after p = Some (Managed_scope perms until)"
  shows "scope_input_accepted shape p \<and> cs_mode p = Managed_mode
    \<and> (let now = parse_moment (cs_now p); s = collect_grants p now (cs_actorId p) (cs_grants p) None in
        case cs_delegator p of
          None \<Rightarrow> until = fst s \<and> (\<forall>a. perms a = map snd (js_sort (\<lambda>x y. after (fst x) (fst y)) (snd s a)))
        | Some d \<Rightarrow> (let r = collect_grants p now (di_actorId d) (di_grants d) (fst s) in
            until = fst r \<and> (\<forall>a. perms a = map snd (js_sort (\<lambda>x y. after (fst x) (fst y))
              (filter (\<lambda>e. fst e \<in> found_keys r a) (snd s a))))))"
proof -
  have "cs_mode p = Managed_mode" using assms
    by (cases "cs_mode p") (auto simp: compileResourceAccessScope_def split: if_splits)
  with assms show ?thesis
    by (auto simp: compileResourceAccessScope_def Let_def found_keys_def split: if_splits prod.splits option.splits)
qed

text \<open>The permissions a principal should have at its moment, and those of the delegator behind it.\<close>

definition entitled :: "scope_input \<Rightarrow> access_action \<Rightarrow> string \<Rightarrow> bool" where
  "entitled p a k \<longleftrightarrow>
     holds_permission p (parse_moment (cs_now p)) (cs_actorId p) (cs_grants p) a k
     \<and> (\<forall>d. cs_delegator p = Some d \<longrightarrow>
          holds_permission p (parse_moment (cs_now p)) (di_actorId d) (di_grants d) a k)"

lemma scope_keys:
  assumes "compileResourceAccessScope shape after p = Some (Managed_scope perms until)"
  shows "resourceAccessReferenceKey ` set (perms a) = {k. entitled p a k}"
proof -
  let ?now = "parse_moment (cs_now p)"
  let ?s = "collect_grants p ?now (cs_actorId p) (cs_grants p) None"
  have keys: "resourceAccessReferenceKey ` snd ` A = fst ` A" if "A \<subseteq> set (snd ?s a)" for A
  proof -
    have "resourceAccessReferenceKey (snd e) = fst e" if "e \<in> set (snd ?s a)" for e
      using keyed_entries_grants [of p ?now "cs_actorId p" "cs_grants p" None] that
      unfolding keyed_entries_def by metis
    with \<open>A \<subseteq> _\<close> show ?thesis unfolding image_image by (intro image_cong) blast+
  qed
  show ?thesis
  proof (cases "cs_delegator p")
    case None
    then have "set (perms a) = snd ` set (snd ?s a)" using compiled_managed [OF assms] by (simp add: Let_def)
    then have "resourceAccessReferenceKey ` set (perms a) = found_keys ?s a" by (simp add: keys found_keys_def)
    with None show ?thesis by (simp add: found_keys_grants entitled_def)
  next
    case (Some d)
    let ?r = "collect_grants p ?now (di_actorId d) (di_grants d) (fst ?s)"
    have "set (perms a) = snd ` {e \<in> set (snd ?s a). fst e \<in> found_keys ?r a}"
      using compiled_managed [OF assms] Some by (simp add: Let_def)
    then have "resourceAccessReferenceKey ` set (perms a) = fst ` {e \<in> set (snd ?s a). fst e \<in> found_keys ?r a}"
      by (simp add: keys)
    also have "\<dots> = found_keys ?s a \<inter> found_keys ?r a" by (auto simp: found_keys_def)
    finally show ?thesis using Some by (auto simp: found_keys_grants entitled_def)
  qed
qed

text \<open>The deadline lies ahead.\<close>

definition ahead :: "moment \<Rightarrow> string option \<Rightarrow> bool" where
  "ahead now deadline \<longleftrightarrow> (\<forall>d. deadline = Some d \<longrightarrow> earlier now (parse_moment d))"

lemma ahead_restrict: "ahead now d \<Longrightarrow> ahead now (restrictDeadline now d v)"
  by (simp add: ahead_def restrictDeadline_def)

lemma ahead_fold: "(\<And>x st. ahead now (fst st) \<Longrightarrow> ahead now (fst (f x st))) \<Longrightarrow> ahead now (fst st) \<Longrightarrow> ahead now (fst (fold f xs st))"
  by (induction xs arbitrary: st) simp_all

lemma ahead_resource: "ahead now (fst st) \<Longrightarrow> ahead now (fst (collect_resource p now a r st))"
  by (cases st) (simp add: collect_resource_def Let_def ahead_restrict split: option.splits)

lemma ahead_grant: "ahead now (fst st) \<Longrightarrow> ahead now (fst (collect_grant p now actor g st))"
  by (cases st) (auto simp: collect_grant_def Let_def ahead_restrict intro!: ahead_fold ahead_resource)

lemma ahead_grants: "ahead now d \<Longrightarrow> ahead now (fst (collect_grants p now actor gs d))"
  unfolding collect_grants_def by (intro ahead_fold ahead_grant) simp_all

text \<open>The clock is not part of what the collection reads of the policy.\<close>

lemma collect_clock [simp]: "collect_grants (p\<lparr>cs_now := n\<rparr>) = collect_grants p"
proof -
  have same: "cs_limits (p\<lparr>cs_now := n\<rparr>) = cs_limits p" "cs_tenantId (p\<lparr>cs_now := n\<rparr>) = cs_tenantId p"
    "cs_projectId (p\<lparr>cs_now := n\<rparr>) = cs_projectId p" "cs_purpose (p\<lparr>cs_now := n\<rparr>) = cs_purpose p"
    by simp_all
  have resource: "collect_resource (p\<lparr>cs_now := n\<rparr>) = collect_resource p"
    unfolding collect_resource_def same ..
  have "collect_grant (p\<lparr>cs_now := n\<rparr>) = collect_grant p"
    unfolding collect_grant_def same resource ..
  then show ?thesis by (intro ext) (simp add: collect_grants_def)
qed

section \<open>Properties\<close>

text \<open>
  Property C20. A compiled scope stays right until its deadline: the deadline lies in the future, and
  the scope compiled from the same grants and limits at any moment before the deadline, where the schema accepts
  the input with the new clock, is the same, with the same permissions and the same deadline.
\<close>

theorem scope_valid_until_deadline:
  assumes "compileResourceAccessScope shape after p = Some (Managed_scope perms until)"
    and "parse_moment (cs_now p) = Some t" and "parse_moment n = Some t'" and "t \<le> t'"
    and "before_deadline t' until" and "shape (p\<lparr>cs_now := n\<rparr>)"
  shows "before_deadline t until
    \<and> compileResourceAccessScope shape after (p\<lparr>cs_now := n\<rparr>) = Some (Managed_scope perms until)"
proof -
  let ?s = "collect_grants p (Some t) (cs_actorId p) (cs_grants p) None"
  note c = compiled_managed [OF assms(1)]
  have accepted: "scope_input_accepted shape (p\<lparr>cs_now := n\<rparr>)"
    using c assms(6) by (simp add: scope_input_accepted_def)
  have a: "ahead (Some t) (fst ?s)" by (rule ahead_grants) (simp add: ahead_def)
  show ?thesis
  proof (cases "cs_delegator p")
    case None
    then have "until = fst ?s" using c assms(2) by (simp add: Let_def)
    with a have "before_deadline t until" by (auto simp: ahead_def before_deadline_def split: option.splits)
    moreover have "collect_grants p (Some t') (cs_actorId p) (cs_grants p) None = ?s"
      using collect_grants_later [OF assms(4)] assms(5) \<open>until = fst ?s\<close> by simp
    ultimately show ?thesis using assms(1-3) accepted None c
      by (simp add: compileResourceAccessScope_def Let_def split: if_splits)
  next
    case (Some d)
    let ?r = "collect_grants p (Some t) (di_actorId d) (di_grants d) (fst ?s)"
    have "until = fst ?r" using c assms(2) Some by (simp add: Let_def)
    moreover have "ahead (Some t) (fst ?r)" by (rule ahead_grants [OF a])
    ultimately have "before_deadline t until" by (auto simp: ahead_def before_deadline_def split: option.splits)
    moreover have r: "collect_grants p (Some t') (di_actorId d) (di_grants d) (fst ?s) = ?r" "before_deadline t' (fst ?s)"
      using collect_grants_later [OF assms(4)] assms(5) \<open>until = fst ?r\<close> by simp_all
    moreover have s: "collect_grants p (Some t') (cs_actorId p) (cs_grants p) None = ?s"
      using collect_grants_later [OF assms(4)] r(2) by simp
    moreover have "compileResourceAccessScope shape after (p\<lparr>cs_now := n\<rparr>) = compileResourceAccessScope shape after p"
    proof -
      obtain x1 x2 where x: "?s = (x1, x2)" by fastforce
      obtain y1 y2 where y: "collect_grants p (Some t) (di_actorId d) (di_grants d) x1 = (y1, y2)" by fastforce
      have "collect_grants p (Some t') (di_actorId d) (di_grants d) x1 = (y1, y2)" using r(1) x y by simp
      with s x y accepted Some c show ?thesis
        by (simp add: compileResourceAccessScope_def assms(2,3) Let_def)
    qed
    ultimately show ?thesis using assms(1) by simp
  qed
qed

text \<open>
  Property C19. A scope permits exactly what was granted: an action on a resource is in it if and only if
  the principal has a grant in force that lists both, under a limit that admits the action now where
  limits are given, and, for a delegated principal, if the delegator has too.
\<close>

theorem scope_permits_exactly:
  assumes "compileResourceAccessScope shape after p = Some (Managed_scope perms until)"
  shows "(\<exists>r \<in> set (perms a). resourceAccessReferenceKey r = k) \<longleftrightarrow> entitled p a k"
proof -
  have "(\<exists>r \<in> set (perms a). resourceAccessReferenceKey r = k) \<longleftrightarrow> k \<in> resourceAccessReferenceKey ` set (perms a)"
    by auto
  then show ?thesis by (simp add: scope_keys [OF assms])
qed

definition sample_grant :: access_grant where
  "sample_grant = \<lparr>ag_id = ''g'', ag_tenantId = ''t'', ag_projectId = ''p'', ag_actorId = ''a'', ag_purpose = ''review'',
     ag_packageId = ''k'', ag_packageVersion = 1, ag_presetId = ''s'', ag_presetVersion = 1,
     ag_resources = [External_source_reference ''gauges''], ag_actions = [CONTENT_READ],
     ag_startsAt = ''2024-01-01T00:00:00Z'', ag_expiresAt = ''2024-02-01T00:00:00Z'', ag_status = Active_grant\<rparr>"

definition sample_scope_input :: scope_input where
  "sample_scope_input = \<lparr>cs_limits = None, cs_mode = Managed_mode, cs_tenantId = ''t'', cs_projectId = ''p'',
     cs_actorId = ''a'', cs_purpose = ''review'', cs_now = ''2024-01-10T00:00:00Z'', cs_grants = [sample_grant],
     cs_delegator = None\<rparr>"

lemma sample_scope:
  "compileResourceAccessScope (\<lambda>_. True) (\<lambda>a b. b < a) sample_scope_input =
     Some (Managed_scope (\<lambda>a. if a = CONTENT_READ then [External_source_reference ''gauges''] else [])
       (Some ''2024-02-01T00:00:00Z''))"
proof -
  have m: "parse_moment ''2024-01-01T00:00:00Z'' = Some 1704067200000" "parse_moment ''2024-02-01T00:00:00Z'' = Some 1706745600000"
    "parse_moment ''2024-01-10T00:00:00Z'' = Some 1704844800000"
    by code_simp+
  show ?thesis
    by (simp add: compileResourceAccessScope_def sample_scope_input_def sample_grant_def scope_input_accepted_def m
        grants_refined_def grant_refined_def collect_grants_def collect_grant_def restrictDeadline_def collect_resource_def
        action_options_def fun_eq_iff)
qed

lemma scope_valid_until_deadline_witness:
  "compileResourceAccessScope (\<lambda>_. True) (\<lambda>a b. b < a) (sample_scope_input\<lparr>cs_now := ''2024-01-31T23:59:59Z''\<rparr>) =
     compileResourceAccessScope (\<lambda>_. True) (\<lambda>a b. b < a) sample_scope_input"
proof -
  have "parse_moment (cs_now sample_scope_input) = Some 1704844800000" "parse_moment ''2024-01-31T23:59:59Z'' = Some 1706745599000"
    "before_deadline 1706745599000 (Some ''2024-02-01T00:00:00Z'')"
    by code_simp+
  from scope_valid_until_deadline [OF sample_scope this(1,2) _ this(3)] show ?thesis by (simp add: sample_scope)
qed

lemma scope_permits_exactly_witness:
  "entitled sample_scope_input CONTENT_READ ''external-source:gauges''
     \<and> \<not> entitled sample_scope_input RESULT_EXPORT ''external-source:gauges''"
  using scope_permits_exactly [OF sample_scope, of CONTENT_READ "''external-source:gauges''"]
    scope_permits_exactly [OF sample_scope, of RESULT_EXPORT "''external-source:gauges''"] by simp

end
