(* ===== verification/ResourceDecision.thy ===== *)
theory ResourceDecision
  imports ResourceAccess
begin

text \<open>
  The decision on one request: until when it stands, and that it agrees with the compiled scope, which
  the code computes along another way.
\<close>

lemma earliest_expiry_fold:
  assumes "earlier (Some t) (parse_moment
    (foldl (\<lambda>first g. if earlier (parse_moment (ag_expiresAt g)) (parse_moment first) then ag_expiresAt g else first) e gs))"
  shows "earlier (Some t) (parse_moment e)
    \<and> (\<forall>g \<in> set gs. parse_moment (ag_expiresAt g) \<noteq> None \<longrightarrow> earlier (Some t) (parse_moment (ag_expiresAt g)))"
  using assms
proof (induction gs arbitrary: e)
  case (Cons g gs)
  let ?e = "if earlier (parse_moment (ag_expiresAt g)) (parse_moment e) then ag_expiresAt g else e"
  have "earlier (Some t) (parse_moment ?e)" and gs: "\<forall>g \<in> set gs. parse_moment (ag_expiresAt g) \<noteq> None \<longrightarrow>
      earlier (Some t) (parse_moment (ag_expiresAt g))"
    using Cons.IH [of ?e] Cons.prems by simp_all
  then have "earlier (Some t) (parse_moment e)
      \<and> (parse_moment (ag_expiresAt g) \<noteq> None \<longrightarrow> earlier (Some t) (parse_moment (ag_expiresAt g)))"
    by (cases "parse_moment (ag_expiresAt g)"; cases "parse_moment e") (auto split: if_splits)
  with gs show ?case by simp
qed simp

lemma earliest_expiry_member:
  assumes "gs \<noteq> []"
  shows "\<exists>g \<in> set gs. earliest_expiry gs = ag_expiresAt g"
proof -
  let ?f = "\<lambda>first g. if earlier (parse_moment (ag_expiresAt g)) (parse_moment first) then ag_expiresAt g else first"
  have "foldl ?f e hs \<in> insert e (ag_expiresAt ` set hs)" for e hs
  proof (induction hs arbitrary: e)
    case (Cons h hs)
    show ?case
    proof (cases "earlier (parse_moment (ag_expiresAt h)) (parse_moment e)")
      case True
      then show ?thesis using Cons.IH [of "ag_expiresAt h"] by auto
    next
      case False
      then show ?thesis using Cons.IH [of e] by auto
    qed
  qed simp
  then have "earliest_expiry gs \<in> insert (ag_expiresAt (hd gs)) (ag_expiresAt ` set gs)" unfolding earliest_expiry_def .
  moreover have "ag_expiresAt (hd gs) \<in> ag_expiresAt ` set gs" using assms by simp
  ultimately have "earliest_expiry gs \<in> ag_expiresAt ` set gs" by (simp only: insert_absorb)
  then show ?thesis by blast
qed

lemma granted_iff:
  "ad_reason (evaluateResourceAccess shape p) = GRANTED \<longleftrightarrow>
     evaluation_accepted shape p \<and> ae_baseAllowed p \<and> ae_resourceAvailable p \<and> ae_providerAllowed p
     \<and> ae_mode p = Managed_mode \<and> (\<exists>g \<in> set (ae_grants p). grant_matches p g)"
  by (cases "ae_mode p") (auto simp: evaluateResourceAccess_def denied_def Let_def filter_empty_conv)

lemma granted_until:
  assumes "ad_reason (evaluateResourceAccess shape p) = GRANTED"
  shows "ad_allowed (evaluateResourceAccess shape p)
    \<and> ad_validUntil (evaluateResourceAccess shape p) = Some (earliest_expiry (filter (grant_matches p) (ae_grants p)))"
  using assms unfolding granted_iff by (auto simp: evaluateResourceAccess_def Let_def filter_empty_conv)

text \<open>
  A granted decision holds until its deadline: the deadline lies ahead, and the same request
  at any moment before it, where the schema accepts the input with the new clock, is granted again.
\<close>

theorem decision_holds_until_deadline:
  assumes "ad_reason (evaluateResourceAccess shape p) = GRANTED"
    and "ad_validUntil (evaluateResourceAccess shape p) = Some until"
    and "parse_moment (ae_now p) = Some t" and "parse_moment n = Some t'" and "t \<le> t'"
    and "earlier (Some t') (parse_moment until)" and "shape (p\<lparr>ae_now := n\<rparr>)"
  shows "earlier (Some t) (parse_moment until)
    \<and> ad_reason (evaluateResourceAccess shape (p\<lparr>ae_now := n\<rparr>)) = GRANTED"
proof -
  let ?m = "filter (grant_matches p) (ae_grants p)"
  note a = assms(1)[unfolded granted_iff]
  have until: "until = earliest_expiry ?m" using granted_until [OF assms(1)] assms(2) by simp
  obtain g where g: "g \<in> set (ae_grants p)" "grant_matches p g" using a by blast
  have "parse_moment (ag_expiresAt g) \<noteq> None" using g(2) by (auto simp: grant_matches_def earlier_iff)
  moreover have "g \<in> set ?m" using g by simp
  ultimately have e: "earlier (Some t') (parse_moment (ag_expiresAt g))"
    using earliest_expiry_fold [of t' "ag_expiresAt (hd ?m)" ?m] assms(6) until unfolding earliest_expiry_def by blast
  have "grant_matches (p\<lparr>ae_now := n\<rparr>) g"
    using g(2) e assms(3-5) by (auto simp: grant_matches_def not_later_iff)
  moreover have "evaluation_accepted shape (p\<lparr>ae_now := n\<rparr>)" using a assms(7) by (simp add: evaluation_accepted_def)
  ultimately have "ad_reason (evaluateResourceAccess shape (p\<lparr>ae_now := n\<rparr>)) = GRANTED"
    using a g(1) unfolding granted_iff by auto
  moreover have "earlier (Some t) (parse_moment until)"
  proof -
    have "?m \<noteq> []" using g by (auto simp: filter_empty_conv)
    then obtain h where "h \<in> set ?m" "until = ag_expiresAt h" using until earliest_expiry_member by metis
    then show ?thesis using assms(3) by (simp add: grant_matches_def)
  qed
  ultimately show ?thesis by blast
qed

text \<open>A request that is made under the policy that a scope is compiled from: the same context, clock and grants.\<close>

definition made_under :: "scope_input \<Rightarrow> access_evaluation \<Rightarrow> bool" where
  "made_under p q \<longleftrightarrow> ae_mode q = cs_mode p \<and> ae_tenantId q = cs_tenantId p \<and> ae_projectId q = cs_projectId p
     \<and> ae_actorId q = cs_actorId p \<and> ae_purpose q = cs_purpose p \<and> ae_now q = cs_now p \<and> ae_grants q = cs_grants p"

definition moments_known :: "scope_input \<Rightarrow> bool" where
  "moments_known p \<longleftrightarrow> parse_moment (cs_now p) \<noteq> None
     \<and> (\<forall>g \<in> set (cs_grants p). parse_moment (ag_startsAt g) \<noteq> None \<and> parse_moment (ag_expiresAt g) \<noteq> None)"

definition in_scope :: "(access_action \<Rightarrow> resource_reference list) \<Rightarrow> access_evaluation \<Rightarrow> bool" where
  "in_scope perms q \<longleftrightarrow> resourceAccessReferenceKey (ae_resource q) \<in> resourceAccessReferenceKey ` set (perms (ae_action q))"

text \<open>
  Property C29. The two ways to authorise agree. Take a scope that is compiled without limits and without a
  delegator, from timestamps that denote moments, as those of the schema's pattern do, and a request made
  under the same policy. The first gate that is closed gives the reason of a refusal: the schema, the base
  decision, the resource, the provider. With all of them open the request is granted exactly when its
  resource is in the scope of its action.
\<close>

theorem decision_agrees_with_scope:
  assumes "compileResourceAccessScope shape after p = Some (Managed_scope perms until)"
    and "cs_limits p = None" and "cs_delegator p = None" and "moments_known p" and "made_under p q"
  shows "ad_reason (evaluateResourceAccess shape' q) =
      (if \<not> shape' q then INVALID_POLICY else if \<not> ae_baseAllowed q then BASE_DENIED
       else if \<not> ae_resourceAvailable q then RESOURCE_UNAVAILABLE else if \<not> ae_providerAllowed q then PROVIDER_DENIED
       else if in_scope perms q then GRANTED else NO_GRANT)
    \<and> (ad_allowed (evaluateResourceAccess shape' q) \<longleftrightarrow>
         shape' q \<and> ae_baseAllowed q \<and> ae_resourceAvailable q \<and> ae_providerAllowed q \<and> in_scope perms q)"
proof -
  let ?k = "resourceAccessReferenceKey (ae_resource q)" and ?a = "ae_action q"
  have m: "ae_mode q = Managed_mode" "scope_input_accepted shape p"
    using compiled_managed [OF assms(1)] assms(5) by (auto simp: made_under_def)
  then have accepted: "evaluation_accepted shape' q \<longleftrightarrow> shape' q"
    using assms(5) by (simp add: evaluation_accepted_def scope_input_accepted_def made_under_def)
  have "grant_matches q g \<longleftrightarrow> grant_in_force p (parse_moment (cs_now p)) (cs_actorId p) g \<and> ?a \<in> set (ag_actions g)
      \<and> ?k \<in> resourceAccessReferenceKey ` set (ag_resources g)" if "g \<in> set (cs_grants p)" for g
    using assms(4,5) that
    by (auto simp: grant_matches_def grant_in_force_def made_under_def moments_known_def list_ex_iff image_iff
        eq_commute [of ?k])
  then have "(\<exists>g \<in> set (cs_grants p). grant_matches q g) \<longleftrightarrow> entitled p ?a ?k"
    using assms(2,3) by (auto simp: entitled_def holds_permission_def limit_admits_def)
  then have "filter (grant_matches q) (ae_grants q) = [] \<longleftrightarrow> \<not> in_scope perms q"
    using assms(5) scope_keys [OF assms(1)] by (auto simp: filter_empty_conv in_scope_def made_under_def)
  then show ?thesis using accepted m(1) by (simp add: evaluateResourceAccess_def Let_def denied_def)
qed

text \<open>The request for one action on one resource under a policy, with all gates open.\<close>

definition sample_request :: "scope_input \<Rightarrow> access_action \<Rightarrow> resource_reference \<Rightarrow> access_evaluation" where
  "sample_request p action resource =
     \<lparr>ae_mode = Managed_mode, ae_tenantId = cs_tenantId p, ae_projectId = cs_projectId p, ae_actorId = cs_actorId p,
      ae_purpose = cs_purpose p, ae_resource = resource, ae_action = action, ae_now = cs_now p,
      ae_baseAllowed = True, ae_resourceAvailable = True, ae_providerAllowed = True, ae_grants = cs_grants p\<rparr>"

lemma decision_holds_until_deadline_witness:
  "ad_reason (evaluateResourceAccess (\<lambda>_. True)
      ((sample_request sample_scope_input CONTENT_READ (External_source_reference ''gauges''))
        \<lparr>ae_now := ''2024-01-31T23:59:59Z''\<rparr>)) = GRANTED"
proof -
  let ?q = "sample_request sample_scope_input CONTENT_READ (External_source_reference ''gauges'')"
  have "ad_reason (evaluateResourceAccess (\<lambda>_. True) ?q) = GRANTED"
    "ad_validUntil (evaluateResourceAccess (\<lambda>_. True) ?q) = Some ''2024-02-01T00:00:00Z''"
    "parse_moment (ae_now ?q) = Some 1704844800000" "parse_moment ''2024-01-31T23:59:59Z'' = Some 1706745599000"
    "earlier (Some 1706745599000) (parse_moment ''2024-02-01T00:00:00Z'')"
    by code_simp+
  from decision_holds_until_deadline [OF this(1-4) _ this(5)] show ?thesis by simp
qed

lemma decision_agrees_with_scope_witness:
  "ad_reason (evaluateResourceAccess (\<lambda>_. True)
     (sample_request sample_scope_input CONTENT_READ (External_source_reference ''gauges''))) = GRANTED
   \<and> ad_reason (evaluateResourceAccess (\<lambda>_. True)
     ((sample_request sample_scope_input CONTENT_READ (External_source_reference ''gauges''))\<lparr>ae_baseAllowed := False\<rparr>)) = BASE_DENIED"
proof -
  let ?q = "sample_request sample_scope_input CONTENT_READ (External_source_reference ''gauges'')"
  have "cs_limits sample_scope_input = None" "cs_delegator sample_scope_input = None" by (simp_all add: sample_scope_input_def)
  moreover have "moments_known sample_scope_input" unfolding moments_known_def by code_simp
  moreover have "made_under sample_scope_input ?q" "made_under sample_scope_input (?q\<lparr>ae_baseAllowed := False\<rparr>)"
    by (simp_all add: made_under_def sample_request_def sample_scope_input_def)
  ultimately show ?thesis
    using decision_agrees_with_scope [OF sample_scope, of ?q "\<lambda>_. True"]
      decision_agrees_with_scope [OF sample_scope, of "?q\<lparr>ae_baseAllowed := False\<rparr>" "\<lambda>_. True"]
    by (simp add: sample_request_def in_scope_def)
qed

end
