(* ===== verification/ResourceGrantDiff.thy ===== *)
theory ResourceGrantDiff
  imports ResourceAccess JsonText
begin

text \<open>
  \<open>packages/platform-auth/src/resource-grant-diff.ts\<close>: what a proposed grant would add to the grants that are
  there, counted by action. For each resource the windows of the present grants are clipped to the
  proposed one, sorted and swept.
\<close>

section \<open>The comparison\<close>

record grant_window =
  gw_id :: string
  gw_resources :: "resource_reference list"
  gw_actions :: "access_action list"
  gw_startsAt :: string
  gw_expiresAt :: string

record grant_diff_input =
  gi_resources :: "resource_reference list"
  gi_actions :: "access_action list"
  gi_startsAt :: string
  gi_expiresAt :: string
  gi_grants :: "grant_window list"

record action_difference =
  df_action :: access_action
  df_added :: nat
  df_extended :: nat
  df_retained :: nat

record grant_difference =
  gd_added :: nat
  gd_extended :: nat
  gd_retained :: nat
  gd_removed :: nat
  gd_byAction :: "action_difference list"

definition grant_interval :: "string \<Rightarrow> string \<Rightarrow> (int \<times> int) result" where
  "grant_interval start end =
     (case (parse_moment start, parse_moment end) of
        (Some a, Some b) \<Rightarrow> if b \<le> a then fail ''Invalid grant interval'' else Inr (a, b)
      | _ \<Rightarrow> fail ''Invalid grant interval'')"

definition pair_text :: "string \<Rightarrow> access_action \<Rightarrow> string" where
  "pair_text key action = json_text (JArray [JString key, JString (action_text action)])"

type_synonym ranges = "(int \<times> int) list"

definition push_range :: "string \<Rightarrow> int \<times> int \<Rightarrow> (string \<times> ranges) list \<Rightarrow> (string \<times> ranges) list" where
  "push_range pair window windows =
     map_put pair ((case map_of windows pair of None \<Rightarrow> [] | Some rs \<Rightarrow> rs) @ [window]) windows"

definition push_action ::
  "access_action list \<Rightarrow> int \<times> int \<Rightarrow> string \<Rightarrow> access_action \<Rightarrow> (string \<times> ranges) list \<Rightarrow> (string \<times> ranges) list" where
  "push_action actions window key action windows =
     (if action \<notin> set actions then windows else push_range (pair_text key action) window windows)"

definition push_resource ::
  "string list \<Rightarrow> access_action list \<Rightarrow> int \<times> int \<Rightarrow> access_action list \<Rightarrow> resource_reference \<Rightarrow>
   (string \<times> ranges) list \<Rightarrow> (string \<times> ranges) list" where
  "push_resource wanted actions window granted ref windows =
     (let key = resourceAccessReferenceKey ref
      in if key \<notin> set wanted then windows else fold (push_action actions window key) granted windows)"

fun grant_windows ::
  "string list \<Rightarrow> access_action list \<Rightarrow> int \<times> int \<Rightarrow> grant_window list \<Rightarrow> (string \<times> ranges) list \<Rightarrow>
   (string \<times> ranges) list result" where
  "grant_windows wanted actions period [] windows = Inr windows"
| "grant_windows wanted actions period (grant # grants) windows =
     and_then (grant_interval (gw_startsAt grant) (gw_expiresAt grant)) (\<lambda>(since, till).
       if snd period \<le> since \<or> till \<le> fst period then grant_windows wanted actions period grants windows
       else grant_windows wanted actions period grants
         (fold (push_resource wanted actions (max (fst period) since, min (snd period) till) (gw_actions grant))
            (gw_resources grant) windows))"

text \<open>The sweep, which breaks off at the first gap.\<close>

fun sweep :: "int \<Rightarrow> ranges \<Rightarrow> int" where
  "sweep covered [] = covered"
| "sweep covered ((a, b) # rs) = (if covered < a then covered else sweep (max covered b) rs)"

definition range_after :: "int \<times> int \<Rightarrow> int \<times> int \<Rightarrow> bool" where
  "range_after x y \<longleftrightarrow> (let d = fst x - fst y in 0 < (if d \<noteq> 0 then d else snd x - snd y))"

datatype pair_state = Pair_added | Pair_extended | Pair_retained

definition pair_state :: "(string \<times> ranges) list \<Rightarrow> int \<times> int \<Rightarrow> access_action \<Rightarrow> string \<Rightarrow> pair_state" where
  "pair_state windows period action key =
     (case map_of windows (pair_text key action) of
        None \<Rightarrow> Pair_added
      | Some [] \<Rightarrow> Pair_added
      | Some ranges \<Rightarrow>
          if snd period \<le> sweep (fst period) (js_sort range_after ranges) then Pair_retained else Pair_extended)"

definition action_difference :: "(string \<times> ranges) list \<Rightarrow> int \<times> int \<Rightarrow> string list \<Rightarrow> access_action \<Rightarrow> action_difference" where
  "action_difference windows period wanted action =
     (let states = map (pair_state windows period action) wanted
      in \<lparr>df_action = action, df_added = length (filter (\<lambda>s. s = Pair_added) states),
          df_extended = length (filter (\<lambda>s. s = Pair_extended) states),
          df_retained = length (filter (\<lambda>s. s = Pair_retained) states)\<rparr>)"

definition resourceGrantDiff :: "grant_diff_input \<Rightarrow> grant_difference result" where
  "resourceGrantDiff input =
     and_then (grant_interval (gi_startsAt input) (gi_expiresAt input)) (\<lambda>period.
       let wanted = js_set (map resourceAccessReferenceKey (gi_resources input))
       in and_then (grant_windows wanted (gi_actions input) period (gi_grants input) []) (\<lambda>windows.
            let byAction = map (action_difference windows period wanted) (gi_actions input)
            in Inr \<lparr>gd_added = sum_list (map df_added byAction), gd_extended = sum_list (map df_extended byAction),
                    gd_retained = sum_list (map df_retained byAction), gd_removed = 0, gd_byAction = byAction\<rparr>))"

section \<open>The windows\<close>

lemma pair_text_inj [simp]: "pair_text k a = pair_text k' a' \<longleftrightarrow> k = k' \<and> a = a'"
  unfolding pair_text_def by (subst json_text_inj) (auto simp: action_text_inj)

definition ranges_of :: "(string \<times> ranges) list \<Rightarrow> string \<Rightarrow> (int \<times> int) set" where
  "ranges_of windows pair = (case map_of windows pair of None \<Rightarrow> {} | Some rs \<Rightarrow> set rs)"

lemma ranges_of_push:
  "ranges_of (push_range p r ws) q = (if q = p then insert r (ranges_of ws q) else ranges_of ws q)"
  by (auto simp: ranges_of_def push_range_def split: option.splits)

lemma ranges_of_actions:
  "ranges_of (fold (push_action actions r k) as ws) (pair_text k' a) =
     ranges_of ws (pair_text k' a) \<union> (if k' = k \<and> a \<in> set as \<and> a \<in> set actions then {r} else {})"
  by (induction as arbitrary: ws) (auto simp: push_action_def ranges_of_push)

lemma ranges_of_resources:
  "ranges_of (fold (push_resource wanted actions r as) refs ws) (pair_text k a) =
     ranges_of ws (pair_text k a)
     \<union> (if k \<in> resourceAccessReferenceKey ` set refs \<and> k \<in> set wanted \<and> a \<in> set as \<and> a \<in> set actions then {r} else {})"
  by (induction refs arbitrary: ws) (auto simp: push_resource_def ranges_of_actions Let_def)

text \<open>A present grant covers a moment for a resource and an action.\<close>

definition window_covers :: "grant_window \<Rightarrow> string \<Rightarrow> access_action \<Rightarrow> int \<Rightarrow> bool" where
  "window_covers g k a t \<longleftrightarrow>
     k \<in> resourceAccessReferenceKey ` set (gw_resources g) \<and> a \<in> set (gw_actions g)
     \<and> (\<exists>since till. grant_interval (gw_startsAt g) (gw_expiresAt g) = Inr (since, till) \<and> since \<le> t \<and> t < till)"

lemma grant_windows_cover:
  assumes "grant_windows wanted actions (s, e) gs ws = Inr ws'" and "k \<in> set wanted" and "a \<in> set actions"
    and "s \<le> t" and "t < e"
  shows "(\<exists>r \<in> ranges_of ws' (pair_text k a). fst r \<le> t \<and> t < snd r) \<longleftrightarrow>
    (\<exists>r \<in> ranges_of ws (pair_text k a). fst r \<le> t \<and> t < snd r) \<or> (\<exists>g \<in> set gs. window_covers g k a t)"
  using assms(1)
proof (induction gs arbitrary: ws)
  case (Cons g gs)
  obtain since till where i: "grant_interval (gw_startsAt g) (gw_expiresAt g) = Inr (since, till)"
    using Cons.prems by (auto split: prod.splits)
  let ?ws = "if e \<le> since \<or> till \<le> s then ws
      else fold (push_resource wanted actions (max s since, min e till) (gw_actions g)) (gw_resources g) ws"
  have "grant_windows wanted actions (s, e) gs ?ws = Inr ws'" using Cons.prems i by (auto split: if_splits)
  note IH = Cons.IH [OF this]
  have "(\<exists>r \<in> ranges_of ?ws (pair_text k a). fst r \<le> t \<and> t < snd r) \<longleftrightarrow>
      (\<exists>r \<in> ranges_of ws (pair_text k a). fst r \<le> t \<and> t < snd r) \<or> window_covers g k a t"
    using i assms(2-5) by (auto simp: ranges_of_resources window_covers_def)
  with IH show ?case by auto
qed simp

section \<open>The sweep\<close>

lemma sweep_ge: "c \<le> sweep c rs"
  by (induction c rs rule: sweep.induct) (auto intro: order_trans [OF max.cobounded1])

lemma sweep_covers:
  "c \<le> t \<Longrightarrow> t < sweep c rs \<Longrightarrow> \<exists>r \<in> set rs. fst r \<le> t \<and> t < snd r"
proof (induction c rs rule: sweep.induct)
  case (2 c a b rs)
  show ?case
  proof (cases "max c b \<le> t")
    case True
    with 2 show ?thesis by (auto split: if_splits)
  next
    case False
    with 2 show ?thesis by (auto split: if_splits)
  qed
qed simp

lemma sweep_stops:
  "sorted_wrt (\<lambda>x y. fst x \<le> fst y) rs \<Longrightarrow> r \<in> set rs \<Longrightarrow> \<not> (fst r \<le> sweep c rs \<and> sweep c rs < snd r)"
proof (induction c rs rule: sweep.induct)
  case (2 c a b rs)
  show ?case
  proof (cases "c < a")
    case True
    with 2 show ?thesis by auto
  next
    case False
    then have s: "sweep c ((a, b) # rs) = sweep (max c b) rs" by simp
    show ?thesis
    proof (cases "r = (a, b)")
      case True
      then show ?thesis using sweep_ge [of "max c b" rs] s by simp
    next
      case rs: False
      with 2 False s show ?thesis by simp
    qed
  qed
qed simp

lemma sorted_ranges: "sorted_wrt (\<lambda>x y. fst x \<le> fst y) (js_sort range_after rs)"
proof -
  have "consistent_on UNIV range_after" by (auto simp: consistent_on_def range_after_def Let_def split: if_splits)
  from js_sort_sorted [OF this, of rs] show ?thesis
    by (rule sorted_wrt_mono_rel [rotated]) (auto simp: range_after_def Let_def split: if_splits)
qed

text \<open>The sweep reaches the end exactly when every moment lies in some range.\<close>

lemma sweep_complete:
  "e \<le> sweep s (js_sort range_after rs) \<longleftrightarrow> (\<forall>t. s \<le> t \<and> t < e \<longrightarrow> (\<exists>r \<in> set rs. fst r \<le> t \<and> t < snd r))"
proof
  assume "e \<le> sweep s (js_sort range_after rs)"
  then show "\<forall>t. s \<le> t \<and> t < e \<longrightarrow> (\<exists>r \<in> set rs. fst r \<le> t \<and> t < snd r)"
    using sweep_covers [of s _ "js_sort range_after rs"] by auto
next
  let ?c = "sweep s (js_sort range_after rs)"
  assume all: "\<forall>t. s \<le> t \<and> t < e \<longrightarrow> (\<exists>r \<in> set rs. fst r \<le> t \<and> t < snd r)"
  have "\<not> (\<exists>r \<in> set rs. fst r \<le> ?c \<and> ?c < snd r)" using sweep_stops [OF sorted_ranges] by auto
  with all have "\<not> (s \<le> ?c \<and> ?c < e)" by blast
  then show "e \<le> ?c" using sweep_ge [of s] by simp
qed

section \<open>Property\<close>

text \<open>The ranges of a pair are never empty ones, inside the proposed period.\<close>

lemma grant_windows_ranges:
  "grant_windows wanted actions (s, e) gs ws = Inr ws' \<Longrightarrow> s < e \<Longrightarrow>
   \<forall>r \<in> ranges_of ws (pair_text k a). s \<le> fst r \<and> fst r < snd r \<and> snd r \<le> e \<Longrightarrow>
   \<forall>r \<in> ranges_of ws' (pair_text k a). s \<le> fst r \<and> fst r < snd r \<and> snd r \<le> e"
proof (induction gs arbitrary: ws)
  case (Cons g gs)
  obtain l h where i: "grant_interval (gw_startsAt g) (gw_expiresAt g) = Inr (l, h)"
    using Cons.prems(1) by (auto split: prod.splits)
  let ?ws = "if e \<le> l \<or> h \<le> s then ws
      else fold (push_resource wanted actions (max s l, min e h) (gw_actions g)) (gw_resources g) ws"
  have run: "grant_windows wanted actions (s, e) gs ?ws = Inr ws'" using Cons.prems(1) i by (auto split: if_splits)
  have "l < h" using i by (auto simp: grant_interval_def split: option.splits if_splits)
  then have "\<forall>r \<in> ranges_of ?ws (pair_text k a). s \<le> fst r \<and> fst r < snd r \<and> snd r \<le> e"
    using Cons.prems(2,3) by (auto simp: ranges_of_resources)
  then show ?case by (rule Cons.IH [OF run Cons.prems(2)])
qed simp

definition covered_at :: "grant_diff_input \<Rightarrow> access_action \<Rightarrow> string \<Rightarrow> int \<Rightarrow> bool" where
  "covered_at input a k t \<longleftrightarrow> (\<exists>g \<in> set (gi_grants input). window_covers g k a t)"

lemma pair_state_iff:
  assumes run: "grant_windows wanted (gi_actions input) (s, e) (gi_grants input) [] = Inr ws" and "s < e"
    and "k \<in> set wanted" and "a \<in> set (gi_actions input)"
  shows "pair_state ws (s, e) a k = Pair_added \<longleftrightarrow> (\<forall>t. s \<le> t \<and> t < e \<longrightarrow> \<not> covered_at input a k t)"
    and "pair_state ws (s, e) a k = Pair_retained \<longleftrightarrow> (\<forall>t. s \<le> t \<and> t < e \<longrightarrow> covered_at input a k t)"
proof -
  let ?R = "ranges_of ws (pair_text k a)"
  have none: "ranges_of [] (pair_text k a) = {}" by (simp add: ranges_of_def)
  have cov: "(\<exists>r \<in> ?R. fst r \<le> t \<and> t < snd r) \<longleftrightarrow> covered_at input a k t" if "s \<le> t" "t < e" for t
    using grant_windows_cover [OF run assms(3,4) that] none by (simp add: covered_at_def)
  have inside: "\<forall>r \<in> ?R. s \<le> fst r \<and> fst r < snd r \<and> snd r \<le> e"
    by (rule grant_windows_ranges [OF run assms(2)]) (simp add: none)
  have empty: "?R = {} \<longleftrightarrow> (\<forall>t. s \<le> t \<and> t < e \<longrightarrow> \<not> covered_at input a k t)"
  proof
    assume "?R = {}"
    then show "\<forall>t. s \<le> t \<and> t < e \<longrightarrow> \<not> covered_at input a k t" using cov by blast
  next
    assume n: "\<forall>t. s \<le> t \<and> t < e \<longrightarrow> \<not> covered_at input a k t"
    have "False" if "r \<in> ?R" for r
    proof -
      have r: "s \<le> fst r \<and> fst r < snd r \<and> snd r \<le> e" using inside that by blast
      then have "fst r < e" by linarith
      then have "\<not> (\<exists>q \<in> ?R. fst q \<le> fst r \<and> fst r < snd q)" using cov [of "fst r"] n r by blast
      then show False using that r by blast
    qed
    then show "?R = {}" by blast
  qed
  show "pair_state ws (s, e) a k = Pair_added \<longleftrightarrow> (\<forall>t. s \<le> t \<and> t < e \<longrightarrow> \<not> covered_at input a k t)"
    unfolding empty [symmetric] by (auto simp: pair_state_def ranges_of_def split: option.splits list.splits)
  have all: "(\<forall>t. s \<le> t \<and> t < e \<longrightarrow> (\<exists>r \<in> ?R. fst r \<le> t \<and> t < snd r)) \<longleftrightarrow> (\<forall>t. s \<le> t \<and> t < e \<longrightarrow> covered_at input a k t)"
    using cov by blast
  show "pair_state ws (s, e) a k = Pair_retained \<longleftrightarrow> (\<forall>t. s \<le> t \<and> t < e \<longrightarrow> covered_at input a k t)"
  proof (cases "?R = {}")
    case True
    then have "pair_state ws (s, e) a k = Pair_added"
      by (auto simp: pair_state_def ranges_of_def split: option.splits list.splits)
    moreover have "\<not> covered_at input a k s" using True empty \<open>s < e\<close> by simp
    ultimately show ?thesis using \<open>s < e\<close> by auto
  next
    case False
    then obtain rs where rs: "map_of ws (pair_text k a) = Some rs" "rs \<noteq> []" "?R = set rs"
      by (auto simp: ranges_of_def split: option.splits)
    then have "pair_state ws (s, e) a k = Pair_retained \<longleftrightarrow> e \<le> sweep s (js_sort range_after rs)"
      by (auto simp: pair_state_def split: list.splits)
    then show ?thesis by (simp only: sweep_complete all [unfolded rs(3)])
  qed
qed

lemma pair_counts:
  assumes "distinct ks"
  shows "length (filter (\<lambda>s. s = v) (map f ks)) = card {k \<in> set ks. f k = v}"
  using assms by (simp add: filter_map comp_def distinct_card [symmetric])

lemma pair_states_total:
  "length (filter (\<lambda>s. s = Pair_added) xs) + length (filter (\<lambda>s. s = Pair_extended) xs)
     + length (filter (\<lambda>s. s = Pair_retained) xs) = length xs"
proof (induction xs)
  case (Cons x xs)
  then show ?case by (cases x) simp_all
qed simp

text \<open>
  Property C28. The difference measures real coverage: for each action of a proposed grant a resource counts
  as added exactly when no present grant gives the action on it at any moment of the proposed period, as
  retained exactly when at every moment some present grant does, and otherwise as extended; the three
  counts add up to the proposed resources, and the totals are the sums over the actions.
\<close>

theorem diff_measures_coverage:
  assumes "resourceGrantDiff input = Inr d"
  shows "\<exists>s e. grant_interval (gi_startsAt input) (gi_expiresAt input) = Inr (s, e)
    \<and> map df_action (gd_byAction d) = gi_actions input
    \<and> (\<forall>x \<in> set (gd_byAction d). let K = resourceAccessReferenceKey ` set (gi_resources input) in
         df_added x = card {k \<in> K. \<forall>t. s \<le> t \<and> t < e \<longrightarrow> \<not> covered_at input (df_action x) k t}
         \<and> df_retained x = card {k \<in> K. \<forall>t. s \<le> t \<and> t < e \<longrightarrow> covered_at input (df_action x) k t}
         \<and> df_added x + df_extended x + df_retained x = card K)
    \<and> gd_added d = sum_list (map df_added (gd_byAction d)) \<and> gd_extended d = sum_list (map df_extended (gd_byAction d))
    \<and> gd_retained d = sum_list (map df_retained (gd_byAction d))"
proof -
  let ?wanted = "js_set (map resourceAccessReferenceKey (gi_resources input))"
  obtain s e ws where i: "grant_interval (gi_startsAt input) (gi_expiresAt input) = Inr (s, e)"
    and run: "grant_windows ?wanted (gi_actions input) (s, e) (gi_grants input) [] = Inr ws"
    and d: "gd_byAction d = map (action_difference ws (s, e) ?wanted) (gi_actions input)"
      "gd_added d = sum_list (map df_added (gd_byAction d))" "gd_extended d = sum_list (map df_extended (gd_byAction d))"
      "gd_retained d = sum_list (map df_retained (gd_byAction d))"
    using assms by (auto simp: resourceGrantDiff_def Let_def)
  have "s < e" using i by (auto simp: grant_interval_def split: option.splits if_splits)
  let ?K = "resourceAccessReferenceKey ` set (gi_resources input)"
  have "df_added x = card {k \<in> ?K. \<forall>t. s \<le> t \<and> t < e \<longrightarrow> \<not> covered_at input (df_action x) k t}
      \<and> df_retained x = card {k \<in> ?K. \<forall>t. s \<le> t \<and> t < e \<longrightarrow> covered_at input (df_action x) k t}
      \<and> df_added x + df_extended x + df_retained x = card ?K" if x: "x \<in> set (gd_byAction d)" for x
  proof -
    obtain a where a: "a \<in> set (gi_actions input)" "x = action_difference ws (s, e) ?wanted a" using x d(1) by auto
    have "df_added x + df_extended x + df_retained x = card ?K"
      using pair_states_total [of "map (pair_state ws (s, e) a) ?wanted"]
      by (simp add: a(2) action_difference_def Let_def length_js_set)
    moreover have "{k \<in> ?K. pair_state ws (s, e) a k = Pair_added} = {k \<in> ?K. \<forall>t. s \<le> t \<and> t < e \<longrightarrow> \<not> covered_at input a k t}"
      "{k \<in> ?K. pair_state ws (s, e) a k = Pair_retained} = {k \<in> ?K. \<forall>t. s \<le> t \<and> t < e \<longrightarrow> covered_at input a k t}"
      using pair_state_iff [OF run \<open>s < e\<close> _ a(1)] by auto
    moreover have "df_action x = a" by (simp add: a(2) action_difference_def Let_def)
    moreover have "df_added x = card {k \<in> ?K. pair_state ws (s, e) a k = Pair_added}"
      "df_retained x = card {k \<in> ?K. pair_state ws (s, e) a k = Pair_retained}"
      using pair_counts [of ?wanted Pair_added "pair_state ws (s, e) a"] pair_counts [of ?wanted Pair_retained "pair_state ws (s, e) a"]
      by (simp_all add: a(2) action_difference_def Let_def)
    ultimately show ?thesis by simp
  qed
  moreover have "map df_action (gd_byAction d) = gi_actions input"
    by (simp add: d(1) comp_def action_difference_def Let_def)
  ultimately show ?thesis using i d(2-4) by (intro exI [of _ s] exI [of _ e]) (simp only: Let_def, blast)
qed

lemma diff_measures_coverage_witness:
  "\<exists>d. resourceGrantDiff \<lparr>gi_resources = [External_source_reference ''a'', External_source_reference ''b''],
       gi_actions = [CONTENT_READ], gi_startsAt = ''2024-01-01T00:00:00Z'', gi_expiresAt = ''2024-03-01T00:00:00Z'',
       gi_grants = [\<lparr>gw_id = ''g'', gw_resources = [External_source_reference ''a''], gw_actions = [CONTENT_READ],
         gw_startsAt = ''2024-01-01T00:00:00Z'', gw_expiresAt = ''2024-02-01T00:00:00Z''\<rparr>]\<rparr> = Inr d
     \<and> gd_added d = sum_list (map df_added (gd_byAction d)) \<and> map df_action (gd_byAction d) = [CONTENT_READ]
     \<and> gd_added d = 1 \<and> gd_extended d = 1"
proof -
  let ?i = "\<lparr>gi_resources = [External_source_reference ''a'', External_source_reference ''b''],
       gi_actions = [CONTENT_READ], gi_startsAt = ''2024-01-01T00:00:00Z'', gi_expiresAt = ''2024-03-01T00:00:00Z'',
       gi_grants = [\<lparr>gw_id = ''g'', gw_resources = [External_source_reference ''a''], gw_actions = [CONTENT_READ],
         gw_startsAt = ''2024-01-01T00:00:00Z'', gw_expiresAt = ''2024-02-01T00:00:00Z''\<rparr>]\<rparr>"
  have "(case resourceGrantDiff ?i of Inl e \<Rightarrow> False | Inr d \<Rightarrow> gd_added d = 1 \<and> gd_extended d = 1)" by code_simp
  then obtain d where d: "resourceGrantDiff ?i = Inr d" "gd_added d = 1" "gd_extended d = 1"
    by (auto split: sum.splits)
  with diff_measures_coverage [OF d(1)] show ?thesis by auto
qed

end
