(* ===== verification/ResourceAdministration.thy ===== *)
theory ResourceAdministration
  imports ResourceAccess JsonText
begin

text \<open>
  Who may hand out resources, \<open>resource-policy-limits.ts\<close> and \<open>resource-management-policy.ts\<close> of
  \<open>packages/platform-auth/src\<close>: the gate on a proposed grant, and the permits that stand for a passed gate until
  they are used once.

  The identity of a permit object, by which the code's \<open>WeakMap\<close> finds its state, is a number that is
  never used again. A deadline that the code writes as ISO text and parses again is the moment it denotes;
  \<open>Date.now()\<close> is an
  argument, once for each call. The snapshot that the database returns, the hash of the fingerprint and the
  shape checks of the schema library are parameters.
\<close>

section \<open>The gate\<close>

record administration_evaluation =
  av_tenantId :: string
  av_projectId :: string
  av_baseAllowed :: bool
  av_roles :: "string list"
  av_now :: string
  av_startsAt :: string
  av_expiresAt :: string
  av_resources :: "resource_reference list"
  av_actions :: "access_action list"
  av_limits :: "policy_limit list"

definition administration_accepted :: "(administration_evaluation \<Rightarrow> bool) \<Rightarrow> administration_evaluation \<Rightarrow> bool" where
  "administration_accepted shape p \<longleftrightarrow>
     shape p
     \<and> length (js_set (map resourceAccessReferenceKey (av_resources p))) = length (av_resources p)
     \<and> length (js_set (av_actions p)) = length (av_actions p)
     \<and> limits_refined (av_limits p)
     \<and> earlier (parse_moment (av_startsAt p)) (parse_moment (av_expiresAt p))"

definition limit_for :: "policy_limit list \<Rightarrow> resource_reference \<Rightarrow> policy_limit option" where
  "limit_for limits ref =
     js_map_get (map (\<lambda>l. (resourceAccessReferenceKey (pl_resource l), l)) limits) (resourceAccessReferenceKey ref)"

fun lasts_at_most :: "moment \<Rightarrow> moment \<Rightarrow> int \<Rightarrow> bool" where
  "lasts_at_most (Some start) (Some end) ms \<longleftrightarrow> end - start \<le> ms"
| "lasts_at_most _ _ _ \<longleftrightarrow> False"

text \<open>The conditions on a limit that both gates share.\<close>

definition limit_manageable ::
  "policy_limit \<Rightarrow> string \<Rightarrow> string \<Rightarrow> moment \<Rightarrow> string list \<Rightarrow> access_action list \<Rightarrow> bool" where
  "limit_manageable limit tenantId projectId now roles actions \<longleftrightarrow>
     pl_tenantId limit = tenantId \<and> pl_projectId limit = projectId \<and> pl_status limit = Active_grant
     \<and> not_later (parse_moment (pl_startsAt limit)) now \<and> earlier now (parse_moment (pl_expiresAt limit))
     \<and> list_ex (\<lambda>role. role \<in> set roles) (pl_managementRoles limit)
     \<and> list_all (\<lambda>action. action \<in> set (pl_allowedActions limit)) actions"

definition canAdministerResources :: "(administration_evaluation \<Rightarrow> bool) \<Rightarrow> administration_evaluation \<Rightarrow> bool" where
  "canAdministerResources shape p \<longleftrightarrow>
     administration_accepted shape p \<and> av_baseAllowed p
     \<and> (let now = parse_moment (av_now p); start = parse_moment (av_startsAt p); end = parse_moment (av_expiresAt p)
        in \<not> not_later end now
           \<and> list_all (\<lambda>ref. case limit_for (av_limits p) ref of
                 None \<Rightarrow> False
               | Some limit \<Rightarrow>
                   limit_manageable limit (av_tenantId p) (av_projectId p) now (av_roles p) (av_actions p)
                   \<and> not_later (parse_moment (pl_startsAt limit)) start
                   \<and> not_later end (parse_moment (pl_expiresAt limit))
                   \<and> lasts_at_most start end (pl_maxGrantDays limit * 86400000))
               (av_resources p))"

section \<open>Permits\<close>

record request_principal =
  rp_actorType :: string
  rp_actorId :: string
  rp_authUserId :: "string option"
  rp_sessionId :: "string option"
  rp_authenticationMethod :: string

record request_authorization =
  ra_tenantId :: string
  ra_projectId :: string
  ra_roles :: "string list"
  ra_scopes :: "string list"
  ra_purpose :: string
  ra_maxSecurityLevel :: string
  ra_authzVersion :: js_number

record request_context =
  rx_principal :: request_principal
  rx_authorization :: request_authorization

text \<open>The default order of \<open>Array.prototype.sort\<close> on strings.\<close>

definition sort_texts :: "string list \<Rightarrow> string list" where
  "sort_texts xs = js_sort (\<lambda>a b. b < a) xs"

text \<open>An undefined element of an array is written as \<open>null\<close>.\<close>

definition undefined_as_null :: "string option \<Rightarrow> json" where
  "undefined_as_null v = (case v of None \<Rightarrow> JNull | Some s \<Rightarrow> JString s)"

definition binding_json :: "request_context \<Rightarrow> resource_reference list \<Rightarrow> access_action list \<Rightarrow> json" where
  "binding_json context resources actions =
     (let a = rx_authorization context; p = rx_principal context
      in JArray [JString (rp_actorType p), JString (rp_actorId p), undefined_as_null (rp_authUserId p),
        undefined_as_null (rp_sessionId p), JString (rp_authenticationMethod p), JString (ra_tenantId a),
        JString (ra_projectId a), JString (ra_purpose a), JNumber (ra_authzVersion a), JString (ra_maxSecurityLevel a),
        JArray (map JString (sort_texts (ra_roles a))), JArray (map JString (sort_texts (ra_scopes a))),
        JArray (map JString (sort_texts (map resourceAccessReferenceKey resources))),
        JArray (map JString (sort_texts (map action_text actions)))])"

definition permit_binding :: "request_context \<Rightarrow> resource_reference list \<Rightarrow> access_action list \<Rightarrow> string" where
  "permit_binding context resources actions = json_text (binding_json context resources actions)"

record permit =
  pm_identity :: nat
  pm_policyFingerprint :: string

record permit_state =
  ps_binding :: string
  ps_validUntil :: int

record permit_store =
  store_next :: nat
  store_permits :: "nat \<Rightarrow> permit_state option"

definition issueResourceManagementPermit ::
  "int \<Rightarrow> request_context \<Rightarrow> resource_reference list \<Rightarrow> access_action list \<Rightarrow> moment \<Rightarrow> string \<Rightarrow> permit_store \<Rightarrow>
   (permit \<times> permit_store) result" where
  "issueResourceManagementPermit clock context resources actions deadline policyFingerprint store =
     (case deadline of
        None \<Rightarrow> fail ''RangeError''
      | Some d \<Rightarrow>
          Inr (\<lparr>pm_identity = store_next store, pm_policyFingerprint = policyFingerprint\<rparr>,
               \<lparr>store_next = Suc (store_next store),
                store_permits = (store_permits store)(store_next store \<mapsto>
                  \<lparr>ps_binding = permit_binding context resources actions, ps_validUntil = min d (clock + 5000)\<rparr>)\<rparr>))"

text \<open>Whatever comes of it, the permit is gone.\<close>

definition consumeResourceManagementPermit ::
  "int \<Rightarrow> permit option \<Rightarrow> request_context \<Rightarrow> resource_reference list \<Rightarrow> access_action list \<Rightarrow> permit_store \<Rightarrow>
   int option \<times> permit_store" where
  "consumeResourceManagementPermit clock permit context resources actions store =
     (case permit of
        None \<Rightarrow> (None, store)
      | Some key \<Rightarrow>
          (case store_permits store (pm_identity key) of
             None \<Rightarrow> None
           | Some state \<Rightarrow>
               if ps_validUntil state \<le> clock \<or> ps_binding state \<noteq> permit_binding context resources actions
               then None else Some (ps_validUntil state),
           store\<lparr>store_permits := (store_permits store)(pm_identity key := None)\<rparr>))"

section \<open>The policy in force\<close>

record authority_snapshot =
  as_mode :: access_mode
  as_tenantId :: string
  as_projectId :: string
  as_actorId :: string
  as_purpose :: string
  as_now :: string
  as_limits :: "policy_limit list option"

record grant_period =
  gp_startsAt :: string
  gp_expiresAt :: string

definition management_allowed ::
  "(administration_evaluation \<Rightarrow> bool) \<Rightarrow> request_context \<Rightarrow> authority_snapshot \<Rightarrow> policy_limit list \<Rightarrow>
   resource_reference list \<Rightarrow> access_action list \<Rightarrow> grant_period option \<Rightarrow> bool" where
  "management_allowed shape context snapshot limits resources actions period =
     (let auth = rx_authorization context;
          baseAllowed = list_ex (\<lambda>s. s = ''platform.membership.manage'' \<or> s = ''platform.access.approve'') (ra_scopes auth)
      in case period of
           Some w \<Rightarrow>
             canAdministerResources shape
               \<lparr>av_tenantId = ra_tenantId auth, av_projectId = ra_projectId auth, av_baseAllowed = baseAllowed,
                av_roles = ra_roles auth, av_now = as_now snapshot, av_startsAt = gp_startsAt w,
                av_expiresAt = gp_expiresAt w, av_resources = resources, av_actions = actions, av_limits = limits\<rparr>
         | None \<Rightarrow>
             baseAllowed \<and> list_all (\<lambda>ref. case limit_for limits ref of
                 None \<Rightarrow> False
               | Some limit \<Rightarrow> limit_manageable limit (ra_tenantId auth) (ra_projectId auth)
                   (parse_moment (as_now snapshot)) (ra_roles auth) actions) resources)"

text \<open>The fingerprint names the limits by resource, identifier and version.\<close>

definition policy_fingerprint ::
  "(string \<Rightarrow> string) \<Rightarrow> (string \<Rightarrow> string \<Rightarrow> bool) \<Rightarrow> policy_limit list \<Rightarrow> string" where
  "policy_fingerprint sha256 locale_after selected =
     sha256 (json_text (JArray (map (\<lambda>(key, id, version). JArray [JString key, JString id, JNumber (int_num version)])
       (js_sort (\<lambda>a b. locale_after (fst a) (fst b))
         (map (\<lambda>l. (resourceAccessReferenceKey (pl_resource l), pl_id l, pl_version l)) selected)))))"

text \<open>\<open>Math.min\<close> of moments, which is \<open>NaN\<close> when one of them is.\<close>

fun moment_min :: "moment \<Rightarrow> moment list \<Rightarrow> moment" where
  "moment_min m [] = m"
| "moment_min m (x # xs) =
     moment_min (case (m, x) of (Some a, Some b) \<Rightarrow> Some (min a b) | _ \<Rightarrow> None) xs"

definition assertResourceManagementPolicy ::
  "(administration_evaluation \<Rightarrow> bool) \<Rightarrow> (string \<Rightarrow> string) \<Rightarrow> (string \<Rightarrow> string \<Rightarrow> bool) \<Rightarrow> int \<Rightarrow> int \<Rightarrow>
   request_context \<Rightarrow> authority_snapshot option \<Rightarrow> resource_reference list \<Rightarrow> access_action list \<Rightarrow> grant_period option \<Rightarrow> permit_store \<Rightarrow>
   (permit \<times> permit_store) result" where
  "assertResourceManagementPolicy shape sha256 locale_after clock clock' context loaded resources actions period store =
     (case loaded of
        None \<Rightarrow> fail ''RESOURCE_UNAVAILABLE''
      | Some snapshot \<Rightarrow>
          let auth = rx_authorization context
          in case as_limits snapshot of
               None \<Rightarrow> fail ''RESOURCE_UNAVAILABLE''
             | Some limits \<Rightarrow>
                 if as_mode snapshot \<noteq> Managed_mode \<or> as_tenantId snapshot \<noteq> ra_tenantId auth
                    \<or> as_projectId snapshot \<noteq> ra_projectId auth
                    \<or> as_actorId snapshot \<noteq> rp_actorId (rx_principal context) \<or> as_purpose snapshot \<noteq> ra_purpose auth
                 then fail ''RESOURCE_UNAVAILABLE''
                 else if \<not> management_allowed shape context snapshot limits resources actions period
                 then fail ''RESOURCE_UNAVAILABLE''
                 else
                   let wanted = js_set (map resourceAccessReferenceKey resources);
                       selected = filter (\<lambda>l. resourceAccessReferenceKey (pl_resource l) \<in> set wanted) limits;
                       validUntil = moment_min (Some (clock + 5000))
                         (map_option (\<lambda>n. n + 5000) (parse_moment (as_now snapshot))
                          # map (\<lambda>l. parse_moment (pl_expiresAt l)) selected)
                   in case validUntil of
                        None \<Rightarrow> fail ''RangeError''
                      | Some d \<Rightarrow> issueResourceManagementPermit clock' context resources actions (Some d)
                          (policy_fingerprint sha256 locale_after selected) store)"

section \<open>Permits are used once\<close>

datatype permit_command =
  Issue int request_context "resource_reference list" "access_action list" moment string
| Consume int "permit option" request_context "resource_reference list" "access_action list"

datatype permit_outcome = Issued "permit result" | Consumed "int option"

fun permit_step :: "permit_command \<Rightarrow> permit_store \<Rightarrow> permit_outcome \<times> permit_store" where
  "permit_step (Issue clock x rs as deadline fp) store =
     (case issueResourceManagementPermit clock x rs as deadline fp store of
        Inl e \<Rightarrow> (Issued (Inl e), store) | Inr (p, store') \<Rightarrow> (Issued (Inr p), store'))"
| "permit_step (Consume clock p x rs as) store =
     (let (r, store') = consumeResourceManagementPermit clock p x rs as store in (Consumed r, store'))"

text \<open>Histories, the last step first.\<close>

inductive permit_history :: "(permit_command \<times> permit_outcome) list \<Rightarrow> permit_store \<Rightarrow> bool" where
  start: "permit_history [] \<lparr>store_next = 0, store_permits = \<lambda>_. None\<rparr>"
| step: "permit_history h store \<Longrightarrow> permit_step c store = (r, store') \<Longrightarrow> permit_history ((c, r) # h) store'"

inductive_cases permit_history_ConsE: "permit_history ((c, r) # h) store"

fun redeems :: "nat \<Rightarrow> permit_command \<times> permit_outcome \<Rightarrow> bool" where
  "redeems i (Consume clock (Some k) x rs as, Consumed (Some u)) \<longleftrightarrow> pm_identity k = i"
| "redeems i _ \<longleftrightarrow> False"

text \<open>The step that issued a permit, with what it stands for.\<close>

definition issues_permit :: "nat \<Rightarrow> string \<Rightarrow> int \<Rightarrow> permit_command \<times> permit_outcome \<Rightarrow> bool" where
  "issues_permit i bound until e \<longleftrightarrow>
     (\<exists>clock x rs as d fp k. e = (Issue clock x rs as (Some d) fp, Issued (Inr k)) \<and> pm_identity k = i
        \<and> bound = permit_binding x rs as \<and> until = min d (clock + 5000))"

definition store_inv :: "(permit_command \<times> permit_outcome) list \<Rightarrow> permit_store \<Rightarrow> bool" where
  "store_inv h store \<longleftrightarrow>
     (\<forall>i st. store_permits store i = Some st \<longrightarrow>
        i < store_next store \<and> (\<exists>e \<in> set h. issues_permit i (ps_binding st) (ps_validUntil st) e)
        \<and> (\<forall>e \<in> set h. \<not> redeems i e))
     \<and> (\<forall>i. \<forall>e \<in> set h. redeems i e \<longrightarrow> i < store_next store)"

text \<open>What a redemption shows of the store before it.\<close>

lemma redeemed_step:
  assumes "permit_step (Consume clock (Some k) x rs as) store = (Consumed (Some u), store')"
  shows "\<exists>st. store_permits store (pm_identity k) = Some st \<and> ps_binding st = permit_binding x rs as
    \<and> ps_validUntil st = u \<and> clock < u"
  using assms by (auto simp: consumeResourceManagementPermit_def split: option.splits if_splits)

lemma store_inv_step:
  assumes "store_inv h store" and "permit_step c store = (r, store')"
  shows "store_inv ((c, r) # h) store'"
proof (cases c)
  case (Issue clock x rs as deadline fp)
  show ?thesis
  proof (cases deadline)
    case None
    then have "r = Issued (fail ''RangeError'')" "store' = store"
      using assms(2) Issue by (simp_all add: issueResourceManagementPermit_def fail_def)
    with assms(1) Issue show ?thesis by (fastforce simp: store_inv_def)
  next
    case (Some d)
    let ?st = "\<lparr>ps_binding = permit_binding x rs as, ps_validUntil = min d (clock + 5000)\<rparr>"
    let ?k = "\<lparr>pm_identity = store_next store, pm_policyFingerprint = fp\<rparr>"
    have r: "r = Issued (Inr ?k)" and s: "store_next store' = Suc (store_next store)"
      "store_permits store' = (store_permits store)(store_next store \<mapsto> ?st)"
      using assms(2) Issue Some by (auto simp: issueResourceManagementPermit_def)
    have "issues_permit (store_next store) (ps_binding ?st) (ps_validUntil ?st) (c, r)"
      using Issue Some r by (auto simp: issues_permit_def)
    moreover have "\<not> redeems i (c, r)" for i using Issue by simp
    moreover have "\<forall>e \<in> set h. \<not> redeems (store_next store) e" using assms(1) by (auto simp: store_inv_def)
    ultimately show ?thesis using assms(1) unfolding store_inv_def s
      by (simp add: less_Suc_eq)
  qed
next
  case (Consume clock p x rs as)
  show ?thesis
  proof (cases p)
    case None
    then have "store' = store" "r = Consumed None"
      using assms(2) Consume by (simp_all add: consumeResourceManagementPermit_def)
    with assms(1) Consume None show ?thesis by (fastforce simp: store_inv_def)
  next
    case (Some k)
    have s: "store_next store' = store_next store" "store_permits store' = (store_permits store)(pm_identity k := None)"
      using assms(2) Consume Some by (auto simp: consumeResourceManagementPermit_def)
    have "redeems i (c, r) \<longrightarrow> i = pm_identity k \<and> i < store_next store" for i
    proof
      assume "redeems i (c, r)"
      then obtain u where "i = pm_identity k" "r = Consumed (Some u)"
        using Consume Some by (cases r rule: permit_outcome.exhaust) (auto elim: redeems.elims)
      with redeemed_step [of clock k x rs as store u store'] assms Consume Some
      show "i = pm_identity k \<and> i < store_next store" by (auto simp: store_inv_def)
    qed
    with assms(1) show ?thesis unfolding store_inv_def s by auto
  qed
qed

lemma history_inv: "permit_history h store \<Longrightarrow> store_inv h store"
  by (induction rule: permit_history.induct) (simp_all add: store_inv_step, simp add: store_inv_def)

lemma history_suffix: "permit_history (after @ h) store \<Longrightarrow> \<exists>store'. permit_history h store'"
  by (induction after arbitrary: store) (auto elim: permit_history_ConsE)

lemma redemption:
  assumes "permit_history ((Consume c (Some k) x rs as, Consumed (Some u)) # h) store"
  shows "(\<exists>e \<in> set h. issues_permit (pm_identity k) (permit_binding x rs as) u e) \<and> c < u
    \<and> (\<forall>e \<in> set h. \<not> redeems (pm_identity k) e)"
proof -
  obtain s where s: "permit_history h s" "permit_step (Consume c (Some k) x rs as) s = (Consumed (Some u), store)"
    using assms by (auto elim: permit_history_ConsE)
  obtain st where st: "store_permits s (pm_identity k) = Some st" "ps_binding st = permit_binding x rs as"
    "ps_validUntil st = u" "c < u" using redeemed_step [OF s(2)] by blast
  moreover have "(\<exists>e \<in> set h. issues_permit (pm_identity k) (ps_binding st) (ps_validUntil st) e)
      \<and> (\<forall>e \<in> set h. \<not> redeems (pm_identity k) e)"
    using history_inv [OF s(1)] st(1) unfolding store_inv_def by metis
  ultimately show ?thesis by simp
qed

text \<open>
  Property C21. A permit is used once, for what it was issued for, in time: whatever permits are issued
  and presented in whatever order and at whatever clock readings, a successful use was preceded by the issue
  of that permit for the same context, resources and actions, comes before the permit's end, at most
  five seconds after the issue, and no other use of the permit, before or after it, succeeds.
\<close>

theorem permit_single_use:
  assumes "permit_history (after @ (Consume c (Some k) x rs as, Consumed (Some u)) # before) store"
  shows "(\<exists>e \<in> set before. issues_permit (pm_identity k) (permit_binding x rs as) u e) \<and> c < u
    \<and> (\<forall>e \<in> set after \<union> set before. \<not> redeems (pm_identity k) e)"
proof -
  let ?e = "(Consume c (Some k) x rs as, Consumed (Some u))"
  obtain s where s: "permit_history (?e # before) s" using history_suffix [OF assms] by blast
  have "\<not> redeems (pm_identity k) e" if e: "e \<in> set after" for e
  proof
    assume "redeems (pm_identity k) e"
    then obtain c' k' x' rs' as' u' where e': "e = (Consume c' (Some k') x' rs' as', Consumed (Some u'))"
      "pm_identity k' = pm_identity k" by (auto elim: redeems.elims)
    obtain a b where "after = a @ e # b" using e by (meson split_list)
    then have "permit_history (a @ e # (b @ ?e # before)) store" using assms by simp
    then obtain s' where "permit_history (e # (b @ ?e # before)) s'" using history_suffix by blast
    then have "\<not> redeems (pm_identity k) ?e" using redemption e' by fastforce
    then show False by simp
  qed
  with redemption [OF s] show ?thesis by blast
qed

section \<open>What may be administered takes effect\<close>

text \<open>A grant of a scope's input that carries out what the gate was asked for.\<close>

definition carries_out :: "scope_input \<Rightarrow> administration_evaluation \<Rightarrow> access_grant \<Rightarrow> bool" where
  "carries_out p e g \<longleftrightarrow>
     g \<in> set (cs_grants p) \<and> ag_status g = Active_grant
     \<and> ag_tenantId g = cs_tenantId p \<and> ag_projectId g = cs_projectId p
     \<and> ag_actorId g = cs_actorId p \<and> ag_purpose g = cs_purpose p
     \<and> cs_tenantId p = av_tenantId e \<and> cs_projectId p = av_projectId e
     \<and> ag_resources g = av_resources e \<and> ag_actions g = av_actions e
     \<and> ag_startsAt g = av_startsAt e \<and> ag_expiresAt g = av_expiresAt e"

lemma administered_limit:
  assumes "canAdministerResources shape e" and "r \<in> set (av_resources e)"
  obtains l where "limit_for (av_limits e) r = Some l"
    and "pl_tenantId l = av_tenantId e" "pl_projectId l = av_projectId e" "pl_status l = Active_grant"
    and "set (av_actions e) \<subseteq> set (pl_allowedActions l)"
    and "not_later (parse_moment (pl_startsAt l)) (parse_moment (av_startsAt e))"
    and "not_later (parse_moment (av_expiresAt e)) (parse_moment (pl_expiresAt l))"
  using assms by (fastforce simp: canAdministerResources_def list_all_iff Let_def limit_manageable_def split: option.splits)

text \<open>
  A grant that passes the gate works: as long as the limits it was checked against stand, at every
  moment of its period the scope compiled for its holder contains each of its actions on each of its
  resources. No limit that the gate admitted takes part of the grant back.
\<close>

theorem administered_grant_takes_effect:
  assumes "canAdministerResources shape e" and "carries_out p e g" and "cs_limits p = Some (av_limits e)"
    and "cs_delegator p = None" and "not_later (parse_moment (av_startsAt e)) (parse_moment (cs_now p))"
    and "earlier (parse_moment (cs_now p)) (parse_moment (av_expiresAt e))"
    and "compileResourceAccessScope shape' after p = Some (Managed_scope perms until)"
    and "a \<in> set (av_actions e)" and "r \<in> set (av_resources e)"
  shows "resourceAccessReferenceKey r \<in> resourceAccessReferenceKey ` set (perms a)"
proof -
  let ?now = "parse_moment (cs_now p)"
  obtain l where l: "limit_for (av_limits e) r = Some l" "pl_tenantId l = av_tenantId e" "pl_projectId l = av_projectId e"
    "pl_status l = Active_grant" "set (av_actions e) \<subseteq> set (pl_allowedActions l)"
    "not_later (parse_moment (pl_startsAt l)) (parse_moment (av_startsAt e))"
    "not_later (parse_moment (av_expiresAt e)) (parse_moment (pl_expiresAt l))"
    using administered_limit [OF assms(1,9)] by blast
  have "grant_in_force p ?now (cs_actorId p) g"
    using assms(2,5,6) by (auto simp: carries_out_def grant_in_force_def earlier_iff not_later_iff)
  moreover have "limit_admits p ?now a (resourceAccessReferenceKey r)"
    using l assms(2,3,5,6,8) by (auto simp: limit_admits_def limit_for_def carries_out_def earlier_iff not_later_iff)
  ultimately have "entitled p a (resourceAccessReferenceKey r)"
    using assms(2,4,8,9) unfolding entitled_def holds_permission_def carries_out_def by force
  then show ?thesis by (simp add: scope_keys [OF assms(7)])
qed

section \<open>Witnesses\<close>

definition sample_context :: request_context where
  "sample_context =
     \<lparr>rx_principal = \<lparr>rp_actorType = ''human'', rp_actorId = ''a'', rp_authUserId = None, rp_sessionId = None,
        rp_authenticationMethod = ''supabase_jwt''\<rparr>,
      rx_authorization = \<lparr>ra_tenantId = ''t'', ra_projectId = ''p'', ra_roles = [''manager''], ra_scopes = [],
        ra_purpose = ''review'', ra_maxSecurityLevel = ''L1_INTERNAL'', ra_authzVersion = int_num 1\<rparr>\<rparr>"

definition sample_permit :: permit where
  "sample_permit = \<lparr>pm_identity = 0, pm_policyFingerprint = ''f''\<rparr>"

lemma permit_single_use_witness:
  "\<exists>store. permit_history [(Consume 100 (Some sample_permit) sample_context [] [], Consumed (Some 5000)),
       (Issue 0 sample_context [] [] (Some 9000) ''f'', Issued (Inr sample_permit))] store
     \<and> issues_permit 0 (permit_binding sample_context [] []) 5000
         (Issue 0 sample_context [] [] (Some 9000) ''f'', Issued (Inr sample_permit))"
proof -
  let ?s0 = "\<lparr>store_next = 0, store_permits = \<lambda>_. None\<rparr>"
  let ?issue = "Issue 0 sample_context [] [] (Some 9000) ''f''"
  let ?s1 = "snd (permit_step ?issue ?s0)"
  let ?use = "Consume 100 (Some sample_permit) sample_context [] []"
  have "permit_history [] ?s0" by (rule permit_history.start)
  then have "permit_history [(?issue, Issued (Inr sample_permit))] ?s1"
    by (rule permit_history.step) (simp add: issueResourceManagementPermit_def sample_permit_def)
  then have h: "permit_history [(?use, Consumed (Some 5000)), (?issue, Issued (Inr sample_permit))] (snd (permit_step ?use ?s1))"
    by (rule permit_history.step)
      (simp add: issueResourceManagementPermit_def consumeResourceManagementPermit_def sample_permit_def)
  moreover have "pm_identity sample_permit = 0" by (simp add: sample_permit_def)
  ultimately show ?thesis using permit_single_use [of "[]", simplified, OF h] by auto
qed

definition sample_limit :: policy_limit where
  "sample_limit = \<lparr>pl_id = ''l'', pl_version = 1, pl_tenantId = ''t'', pl_projectId = ''p'',
     pl_resource = External_source_reference ''gauges'', pl_allowedActions = [CONTENT_READ],
     pl_managementRoles = [''manager''], pl_licenseBasis = ''contract'', pl_status = Active_grant,
     pl_startsAt = ''2024-01-01T00:00:00Z'', pl_expiresAt = ''2025-01-01T00:00:00Z'', pl_maxGrantDays = 90\<rparr>"

definition sample_administration :: administration_evaluation where
  "sample_administration = \<lparr>av_tenantId = ''t'', av_projectId = ''p'', av_baseAllowed = True, av_roles = [''manager''],
     av_now = ''2024-01-05T00:00:00Z'', av_startsAt = ''2024-01-01T00:00:00Z'', av_expiresAt = ''2024-02-01T00:00:00Z'',
     av_resources = [External_source_reference ''gauges''], av_actions = [CONTENT_READ], av_limits = [sample_limit]\<rparr>"

lemma administered_grant_takes_effect_witness:
  "\<exists>perms until. compileResourceAccessScope (\<lambda>_. True) (\<lambda>a b. b < a)
       (sample_scope_input\<lparr>cs_limits := Some [sample_limit]\<rparr>) = Some (Managed_scope perms until)
     \<and> resourceAccessReferenceKey (External_source_reference ''gauges'') \<in> resourceAccessReferenceKey ` set (perms CONTENT_READ)"
proof -
  let ?p = "sample_scope_input\<lparr>cs_limits := Some [sample_limit]\<rparr>"
  have "(case compileResourceAccessScope (\<lambda>_. True) (\<lambda>a b. b < a) ?p of
      Some (Managed_scope perms until) \<Rightarrow> True | _ \<Rightarrow> False)" by code_simp
  then obtain perms until where c: "compileResourceAccessScope (\<lambda>_. True) (\<lambda>a b. b < a) ?p = Some (Managed_scope perms until)"
    by (auto split: option.splits access_scope.splits)
  have "canAdministerResources (\<lambda>_. True) sample_administration" by code_simp
  moreover have "carries_out ?p sample_administration sample_grant"
    by (simp add: carries_out_def sample_scope_input_def sample_administration_def sample_grant_def)
  moreover have "cs_limits ?p = Some (av_limits sample_administration)" "cs_delegator ?p = None"
    by (simp_all add: sample_scope_input_def sample_administration_def)
  moreover have "not_later (parse_moment (av_startsAt sample_administration)) (parse_moment (cs_now ?p))"
    "earlier (parse_moment (cs_now ?p)) (parse_moment (av_expiresAt sample_administration))" by code_simp+
  moreover have "CONTENT_READ \<in> set (av_actions sample_administration)"
    "External_source_reference ''gauges'' \<in> set (av_resources sample_administration)"
    by (simp_all add: sample_administration_def)
  ultimately show ?thesis using administered_grant_takes_effect [OF _ _ _ _ _ _ c] c by blast
qed

section \<open>What a binding says\<close>

lemma sort_texts_eq: "sort_texts xs = sort_texts ys \<Longrightarrow> mset xs = mset ys"
  unfolding sort_texts_def by (metis mset_js_sort)

lemma plain_undefined [simp]: "plain_json (undefined_as_null v)"
  by (simp add: undefined_as_null_def split: option.splits)

lemma undefined_as_null_inj [simp]: "undefined_as_null v = undefined_as_null w \<longleftrightarrow> v = w"
  by (auto simp: undefined_as_null_def split: option.splits)

lemma plain_texts_array [simp]: "list_all plain_json (map JString xs)"
  by (simp add: list_all_iff)

lemma map_JString_eq: "map JString xs = map JString ys \<longleftrightarrow> xs = ys"
  by (simp add: inj_map_eq_map inj_def)

lemma permit_binding_commits:
  assumes "permit_binding x rs as = permit_binding y rs' as'"
    and "is_double (ra_authzVersion (rx_authorization x))" "js_is_finite (ra_authzVersion (rx_authorization x))"
    and "is_double (ra_authzVersion (rx_authorization y))" "js_is_finite (ra_authzVersion (rx_authorization y))"
  shows "rx_principal x = rx_principal y
    \<and> ra_tenantId (rx_authorization x) = ra_tenantId (rx_authorization y)
    \<and> ra_projectId (rx_authorization x) = ra_projectId (rx_authorization y)
    \<and> ra_purpose (rx_authorization x) = ra_purpose (rx_authorization y)
    \<and> mset (ra_scopes (rx_authorization x)) = mset (ra_scopes (rx_authorization y))
    \<and> mset (map resourceAccessReferenceKey rs) = mset (map resourceAccessReferenceKey rs')
    \<and> mset (map action_text as) = mset (map action_text as')"
proof -
  have "plain_json (binding_json x rs as)" "plain_json (binding_json y rs' as')"
    using assms(2-5) by (simp_all add: binding_json_def Let_def)
  then have "binding_json x rs as = binding_json y rs' as'" using assms(1) by (simp add: permit_binding_def json_text_inj)
  then show ?thesis
    by (auto simp: binding_json_def Let_def map_JString_eq simp del: mset_map
        intro: sort_texts_eq request_principal.equality)
qed

end
