(* ===== verification/IsoText.thy ===== *)
theory IsoText
  imports Timestamps NumberText
begin

text \<open>
  \<open>Date.prototype.toISOString\<close>: the text of a moment in milliseconds, which the services write into everything
  they store. It is the inverse of \<open>toEpoch\<close> on the years with four digits.
\<close>

section \<open>Digits of a fixed width\<close>

fun padded :: "nat \<Rightarrow> int \<Rightarrow> string" where
  "padded 0 n = []"
| "padded (Suc w) n = padded w (n div 10) @ [char_of (48 + nat (n mod 10))]"

lemma length_padded [simp]: "length (padded w n) = w"
  by (induction w n rule: padded.induct) simp_all

lemma padded_digit: "is_digit (char_of (48 + nat (n mod 10)))" "digit_value (char_of (48 + nat (n mod 10))) = n mod 10"
proof -
  have "nat (n mod 10) < 10" by (simp add: nat_less_iff)
  then show "is_digit (char_of (48 + nat (n mod 10)))" "digit_value (char_of (48 + nat (n mod 10))) = n mod 10"
    by (simp_all add: is_digit_def digit_value_def)
qed

lemma padded_digits [simp]: "list_all is_digit (padded w n)"
  by (induction w n rule: padded.induct) (simp_all add: padded_digit)

lemma padded_value: "digits_value (padded w n) = n mod 10 ^ w"
proof (induction w n rule: padded.induct)
  case (2 w n)
  have "n mod (10 * 10 ^ w) = 10 * (n div 10 mod 10 ^ w) + n mod 10"
    using mod_mult2_eq' [of n 10 "10 ^ w"] by simp
  with 2 show ?case by (simp add: digits_value_snoc padded_digit)
qed (simp add: digits_value_def)

lemma padded_value_small: "0 \<le> n \<Longrightarrow> n < 10 ^ w \<Longrightarrow> digits_value (padded w n) = n"
  by (simp add: padded_value)

section \<open>The date of a day\<close>

text \<open>Days are counted from the first of January of the year zero.\<close>

definition year_of_day :: "int \<Rightarrow> int" where
  "year_of_day n =
     (let y = n * 400 div 146097
      in if n < days_before_year y then y - 1 else if days_before_year (y + 1) \<le> n then y + 1 else y)"

definition month_of_day :: "int \<Rightarrow> int \<Rightarrow> int" where
  "month_of_day y r =
     (case find (\<lambda>m. days_before_month y m \<le> r) [12, 11, 10, 9, 8, 7, 6, 5, 4, 3, 2, 1] of Some m \<Rightarrow> m | None \<Rightarrow> 1)"

lemma days_before_year_estimate:
  "146097 * y - 396 \<le> 400 * days_before_year y" "400 * days_before_year y \<le> 146097 * y + 699"
proof -
  have "400 * days_before_year y = 146000 * y + 400 * ((y + 3) div 4) - 400 * ((y + 99) div 100) + 400 * ((y + 399) div 400)"
    by (simp add: days_before_year_def)
  moreover have "100 * y \<le> 400 * ((y + 3) div 4)" "400 * ((y + 3) div 4) \<le> 100 * y + 300"
    "4 * y \<le> 400 * ((y + 99) div 100)" "400 * ((y + 99) div 100) \<le> 4 * y + 396"
    "y \<le> 400 * ((y + 399) div 400)" "400 * ((y + 399) div 400) \<le> y + 399"
    by linarith+
  ultimately show "146097 * y - 396 \<le> 400 * days_before_year y" "400 * days_before_year y \<le> 146097 * y + 699" by linarith+
qed

lemma year_of_day:
  "days_before_year (year_of_day n) \<le> n" "n < days_before_year (year_of_day n + 1)"
proof -
  define y where "y = n * 400 div 146097"
  have y: "146097 * y \<le> n * 400" "n * 400 < 146097 * (y + 1)" 
  proof -
    obtain q where "n * 400 = 146097 * y + q" "0 \<le> q" "q < 146097"
      using that [of "n * 400 mod 146097"] unfolding y_def by simp
    then show "146097 * y \<le> n * 400" "n * 400 < 146097 * (y + 1)" by (simp_all only: distrib_left mult_1_right)
  qed
  have "days_before_year (y - 1) \<le> n" "n < days_before_year (y + 2)"
    using y days_before_year_estimate(2) [of "y - 1"] days_before_year_estimate(1) [of "y + 2"] by simp_all
  moreover have "days_before_year (y + 1 + 1) = days_before_year (y + 2)" by (simp add: add.assoc)
  ultimately show "days_before_year (year_of_day n) \<le> n" "n < days_before_year (year_of_day n + 1)"
    by (simp_all add: year_of_day_def Let_def flip: y_def)
qed

lemma month_of_day_steps:
  "month_of_day y r =
     (let k = maximumDay y 2 in
      if 306 + k \<le> r then 12 else if 276 + k \<le> r then 11 else if 245 + k \<le> r then 10 else if 215 + k \<le> r then 9
      else if 184 + k \<le> r then 8 else if 153 + k \<le> r then 7 else if 123 + k \<le> r then 6 else if 92 + k \<le> r then 5
      else if 62 + k \<le> r then 4 else if 31 + k \<le> r then 3 else if 31 \<le> r then 2 else 1)"
  by (simp add: month_of_day_def days_before_month_table Let_def)

lemma maximumDay_table:
  "maximumDay y 1 = 31" "maximumDay y 3 = 31" "maximumDay y 4 = 30" "maximumDay y 5 = 31" "maximumDay y 6 = 30"
  "maximumDay y 7 = 31" "maximumDay y 8 = 31" "maximumDay y 9 = 30" "maximumDay y 10 = 31" "maximumDay y 11 = 30" "maximumDay y 12 = 31"
  by (simp_all add: maximumDay_def)

lemma month_of_day:
  assumes "0 \<le> r" and "r < year_length y"
  shows "1 \<le> month_of_day y r \<and> month_of_day y r \<le> 12 \<and> days_before_month y (month_of_day y r) \<le> r
    \<and> r < days_before_month y (month_of_day y r) + maximumDay y (month_of_day y r)"
proof -
  define k where "k = maximumDay y 2"
  have r: "r < 337 + k" using assms(2) by (simp add: k_def year_length_def maximumDay_def split: if_splits)
  have k: "28 \<le> k" by (simp add: k_def maximumDay_ge)
  note steps = month_of_day_steps [of y r, folded k_def, unfolded Let_def]
  have pick: ?thesis if "month_of_day y r = m" "1 \<le> m" "m \<le> 12" "days_before_month y m \<le> r" "r < days_before_month y m + maximumDay y m" for m
    using that by simp
  note table = days_before_month_table [of y, folded k_def] maximumDay_table k_def [symmetric]
  consider "0 \<le> r" "r < 31"
    | "31 \<le> r" "r < 31 + k"
    | "31 + k \<le> r" "r < 62 + k"
    | "62 + k \<le> r" "r < 92 + k"
    | "92 + k \<le> r" "r < 123 + k"
    | "123 + k \<le> r" "r < 153 + k"
    | "153 + k \<le> r" "r < 184 + k"
    | "184 + k \<le> r" "r < 215 + k"
    | "215 + k \<le> r" "r < 245 + k"
    | "245 + k \<le> r" "r < 276 + k"
    | "276 + k \<le> r" "r < 306 + k"
    | "306 + k \<le> r" "r < 337 + k"
    using assms(1) r unfolding not_le [symmetric] by blast
  then show ?thesis
  proof cases
    case 1
    then have "month_of_day y r = 1" using k by (simp add: steps)
    then show ?thesis by (rule pick) (use 1 k in \<open>simp_all add: table\<close>)
  next
    case 2
    then have "month_of_day y r = 2" using k by (simp add: steps)
    then show ?thesis by (rule pick) (use 2 k in \<open>simp_all add: table\<close>)
  next
    case 3
    then have "month_of_day y r = 3" using k by (simp add: steps)
    then show ?thesis by (rule pick) (use 3 k in \<open>simp_all add: table\<close>)
  next
    case 4
    then have "month_of_day y r = 4" using k by (simp add: steps)
    then show ?thesis by (rule pick) (use 4 k in \<open>simp_all add: table\<close>)
  next
    case 5
    then have "month_of_day y r = 5" using k by (simp add: steps)
    then show ?thesis by (rule pick) (use 5 k in \<open>simp_all add: table\<close>)
  next
    case 6
    then have "month_of_day y r = 6" using k by (simp add: steps)
    then show ?thesis by (rule pick) (use 6 k in \<open>simp_all add: table\<close>)
  next
    case 7
    then have "month_of_day y r = 7" using k by (simp add: steps)
    then show ?thesis by (rule pick) (use 7 k in \<open>simp_all add: table\<close>)
  next
    case 8
    then have "month_of_day y r = 8" using k by (simp add: steps)
    then show ?thesis by (rule pick) (use 8 k in \<open>simp_all add: table\<close>)
  next
    case 9
    then have "month_of_day y r = 9" using k by (simp add: steps)
    then show ?thesis by (rule pick) (use 9 k in \<open>simp_all add: table\<close>)
  next
    case 10
    then have "month_of_day y r = 10" using k by (simp add: steps)
    then show ?thesis by (rule pick) (use 10 k in \<open>simp_all add: table\<close>)
  next
    case 11
    then have "month_of_day y r = 11" using k by (simp add: steps)
    then show ?thesis by (rule pick) (use 11 k in \<open>simp_all add: table\<close>)
  next
    case 12
    then have "month_of_day y r = 12" using k by (simp add: steps)
    then show ?thesis by (rule pick) (use 12 k in \<open>simp_all add: table\<close>)
  qed
qed

section \<open>The text\<close>

definition year_text :: "int \<Rightarrow> string" where
  "year_text y = (if 0 \<le> y \<and> y \<le> 9999 then padded 4 y else (if y < 0 then ''-'' else ''+'') @ padded 6 \<bar>y\<bar>)"

definition toISOString :: "int \<Rightarrow> string" where
  "toISOString t =
     (let n = t div 86400000 + 719528; ms = t mod 86400000;
          y = year_of_day n; r = n - days_before_year y; m = month_of_day y r; d = r - days_before_month y m + 1
      in year_text y @ ''-'' @ padded 2 m @ ''-'' @ padded 2 d @ ''T''
         @ padded 2 (ms div 3600000) @ '':'' @ padded 2 (ms div 60000 mod 60) @ '':'' @ padded 2 (ms div 1000 mod 60)
         @ ''.'' @ padded 3 (ms mod 1000) @ ''Z'')"

lemma take_digits_padded [simp]: "take_digits w (padded w n @ s) = Some (padded w n, s)"
  by (simp add: take_digits_def)

lemma iso_match_text:
  "iso_match (padded 4 y @ ''-'' @ padded 2 m @ ''-'' @ padded 2 d @ ''T'' @ padded 2 h @ '':'' @ padded 2 mi @ '':''
     @ padded 2 s @ ''.'' @ padded 3 ms @ ''Z'') =
   Some \<lparr>iso_year = padded 4 y, iso_month = padded 2 m, iso_day = padded 2 d, iso_hour = padded 2 h, iso_minute = padded 2 mi,
     iso_second = Some (padded 2 s), iso_fraction = Some (padded 3 ms), iso_offset = ''Z''\<rparr>"
proof -
  have f: "take_fraction (''.'' @ padded 3 ms @ ''Z'') = (Some (padded 3 ms), ''Z'')"
  proof -
    have "takeWhile is_digit (padded 3 ms @ ''Z'') = padded 3 ms"
      using takeWhile_digits [of "padded 3 ms" "CHR ''Z''" "[]"] by (simp add: is_digit_def del: padded.simps)
    moreover have "padded 3 ms \<noteq> []" using length_padded [of 3 ms] by fastforce
    ultimately show ?thesis by (simp add: take_fraction_def Let_def del: padded.simps)
  qed
  show ?thesis
    using f by (simp add: iso_match_def take_seconds_def take_offset_def del: padded.simps)
qed

lemma toISOString_epoch: "toISOString 0 = ''1970-01-01T00:00:00.000Z''"
  by code_simp

text \<open>The years that are written with four digits: 0000 to 9999.\<close>

definition four_digit_years :: "int set" where
  "four_digit_years = {-62167219200000 ..< 253402300800000}"

lemma year_of_day_range:
  assumes "t \<in> four_digit_years"
  shows "0 \<le> year_of_day (t div 86400000 + 719528) \<and> year_of_day (t div 86400000 + 719528) \<le> 9999"
proof -
  let ?n = "t div 86400000 + 719528"
  have n: "0 \<le> ?n" "?n < days_before_year 10000" using assms by (auto simp: four_digit_years_def days_before_year_def)
  have "0 \<le> year_of_day ?n"
  proof (rule ccontr)
    assume "\<not> 0 \<le> year_of_day ?n"
    then have "days_before_year (year_of_day ?n + 1) \<le> days_before_year 0" by (intro days_before_year_mono) simp
    with year_of_day(2) [of ?n] n(1) show False by (simp add: days_before_year_def)
  qed
  moreover have "year_of_day ?n \<le> 9999"
  proof (rule ccontr)
    assume "\<not> year_of_day ?n \<le> 9999"
    then have "days_before_year 10000 \<le> days_before_year (year_of_day ?n)" by (intro days_before_year_mono) simp
    with year_of_day(1) [of ?n] n(2) show False by simp
  qed
  ultimately show ?thesis ..
qed

text \<open>
  The text of a moment reads back as the moment, so that what the services store compares by
  \<open>toEpoch\<close> as the clock did.
\<close>

lemma key_millis_list: "key_millis [y, mo, d, h, mi, s, ms] = utc_millis y mo d h mi s ms"
  by (simp add: key_millis_def eval_nat_numeral)

lemma clock_sum:
  "(ms::int) = ((h * 60 + mi) * 60 + s) * 1000 + z \<Longrightarrow> t = a * 86400000 + ms \<Longrightarrow> (((a * 24 + h) * 60 + mi) * 60 + s) * 1000 + z = t"
  by simp

lemma toEpoch_toISOString:
  assumes "t \<in> four_digit_years"
  shows "toEpoch (toISOString t) = Inr t"
proof -
  define n where "n = t div 86400000 + 719528"
  define ms where "ms = t mod 86400000"
  define y where "y = year_of_day n"
  define r where "r = n - days_before_year y"
  define m where "m = month_of_day y r"
  define d where "d = r - days_before_month y m + 1"
  have yr: "0 \<le> y" "y \<le> 9999" using year_of_day_range [OF assms] by (simp_all add: y_def n_def)
  have r: "0 \<le> r" "r < year_length y"
    using year_of_day [of n] days_before_year_step [of y] by (simp_all add: r_def flip: y_def)
  have m: "1 \<le> m" "m \<le> 12" "1 \<le> d" "d \<le> maximumDay y m"
    using month_of_day [OF r] by (simp_all add: m_def [symmetric] d_def)
  have d31: "d < 100" using m(4) by (simp add: maximumDay_def split: if_splits)
  have ms: "0 \<le> ms" "ms < 86400000" by (simp_all add: ms_def)
  let ?f = "\<lparr>iso_year = padded 4 y, iso_month = padded 2 m, iso_day = padded 2 d, iso_hour = padded 2 (ms div 3600000),
     iso_minute = padded 2 (ms div 60000 mod 60), iso_second = Some (padded 2 (ms div 1000 mod 60)),
     iso_fraction = Some (padded 3 (ms mod 1000)), iso_offset = ''Z''\<rparr>"
  have match: "iso_match (toISOString t) = Some ?f"
    unfolding toISOString_def Let_def n_def [symmetric] ms_def [symmetric] y_def [symmetric] r_def [symmetric]
      m_def [symmetric] d_def [symmetric] year_text_def
    using yr iso_match_text by simp
  have v: "digits_value (padded 4 y) = y" "digits_value (padded 2 m) = m" "digits_value (padded 2 d) = d"
    "digits_value (padded 2 (ms div 3600000)) = ms div 3600000"
    "digits_value (padded 2 (ms div 60000 mod 60)) = ms div 60000 mod 60"
    "digits_value (padded 2 (ms div 1000 mod 60)) = ms div 1000 mod 60"
    using yr m d31 ms by (simp_all add: padded_value)
  have fr: "fraction_millis (Some (padded 3 (ms mod 1000))) = ms mod 1000"
    by (simp add: fraction_millis_def padded_value del: padded.simps)
  have hms: "ms div 3600000 < 24" "ms div 60000 mod 60 < 60" "ms div 1000 mod 60 < 60" using ms by simp_all
  have valid: "fields_valid ?f"
    using yr m hms by (simp add: fields_valid_def Let_def v second_value_def offset_hour_def offset_minute_def not_less del: padded.simps) (use hms in linarith)
  have "key_millis (calendar_key ?f) - offset_millis ?f = t"
  proof -
    have e: "epoch_day y m d = t div 86400000" by (simp add: epoch_day_def d_def r_def n_def)
    have "ms = ((ms div 3600000 * 60 + ms div 60000 mod 60) * 60 + ms div 1000 mod 60) * 1000 + ms mod 1000"
    proof -
      have "ms div 1000 = ms div 60000 * 60 + ms div 1000 mod 60" "ms div 60000 = ms div 3600000 * 60 + ms div 60000 mod 60"
        using zdiv_zmult2_eq [of 60 ms 1000] zdiv_zmult2_eq [of 60 ms 60000] by simp_all
      moreover have "ms = ms div 1000 * 1000 + ms mod 1000" by simp
      ultimately show ?thesis by (metis (no_types, lifting))
    qed
    from clock_sum [OF this, of t "t div 86400000"]
    have sum: "utc_millis y m d (ms div 3600000) (ms div 60000 mod 60) (ms div 1000 mod 60) (ms mod 1000) = t"
      unfolding utc_millis_def e by (simp add: ms_def)
    have "key_millis (calendar_key ?f) = utc_millis y m d (ms div 3600000) (ms div 60000 mod 60) (ms div 1000 mod 60) (ms mod 1000)"
      unfolding calendar_key_def iso_fields.simps v second_value_def option.case fr key_millis_list ..
    with sum show ?thesis by (simp add: offset_millis_def offset_hour_def offset_minute_def)
  qed
  with match valid show ?thesis by (auto simp: toEpoch_Inr_iff)
qed

end
