(* ===== verification/ServiceState.thy ===== *)
theory ServiceState
  imports IsoText JsonText Shared
begin

text \<open>
  The surroundings of the service of \<open>apps/api/src/v2-in-memory-service.ts\<close> and the way its methods change state.

  A method works on a mutable state and may throw half-way. It is an action: a function from a state to a result
  and the state at that point. What a method has changed before it throws stays changed, as in the program.

  The constructor takes a factory of identifiers, a clock and a factory of lease tokens. Each is a sequence, of
  which the state counts the elements used. The hexadecimal digest of \<open>node:crypto\<close> is a function.
  Texts of the service that are shown to people come in English and in Chinese; the Chinese one lies outside of the
  code units of the model and is given by a function of the English one. The methods return resolved
  promises, and throw before they return one: the model leaves the promise out.
\<close>

section \<open>Actions\<close>

type_synonym ('s, 'a) action = "'s \<Rightarrow> 'a result \<times> 's"

definition give :: "'a \<Rightarrow> ('s, 'a) action" where
  "give x = (\<lambda>s. (Inr x, s))"

definition throw :: "string \<Rightarrow> ('s, 'a) action" where
  "throw c = (\<lambda>s. (fail c, s))"

definition after :: "('s, 'a) action \<Rightarrow> ('a \<Rightarrow> ('s, 'b) action) \<Rightarrow> ('s, 'b) action" where
  "after m f = (\<lambda>s. case m s of (Inl e, s') \<Rightarrow> (Inl e, s') | (Inr x, s') \<Rightarrow> f x s')"

text \<open>A call of a function that may throw and changes nothing.\<close>

definition call :: "'a result \<Rightarrow> ('s, 'a) action" where
  "call r = (\<lambda>s. (r, s))"

definition reading :: "('s \<Rightarrow> 'a) \<Rightarrow> ('s, 'a) action" where
  "reading f = (\<lambda>s. (Inr (f s), s))"

definition changing :: "('s \<Rightarrow> 's) \<Rightarrow> ('s, unit) action" where
  "changing f = (\<lambda>s. (Inr (), f s))"

definition throw_if :: "bool \<Rightarrow> string \<Rightarrow> ('s, unit) action" where
  "throw_if b c = (if b then throw c else give ())"

fun perform_each :: "('a \<Rightarrow> ('s, unit) action) \<Rightarrow> 'a list \<Rightarrow> ('s, unit) action" where
  "perform_each f [] = give ()"
| "perform_each f (x # xs) = after (f x) (\<lambda>_. perform_each f xs)"

named_theorems action_simps \<open>evaluation of actions\<close>

lemma action_run [action_simps]:
  "give x s = (Inr x, s)" "throw c s = (fail c, s)" "call r s = (r, s)" "reading f s = (Inr (f s), s)"
  "changing g s = (Inr (), g s)" "throw_if b c s = (if b then fail c else Inr (), s)"
  by (simp_all add: give_def throw_def call_def reading_def changing_def throw_if_def)

lemma after_run [action_simps]:
  "after m f s = (case m s of (Inl e, s') \<Rightarrow> (Inl e, s') | (Inr x, s') \<Rightarrow> f x s')"
  by (simp add: after_def)

lemma after_cong [fundef_cong]:
  "m s = m' s \<Longrightarrow> (\<And>x s'. m' s = (Inr x, s') \<Longrightarrow> f x s' = f' x s') \<Longrightarrow> after m f s = after m' f' s"
  by (auto simp: after_def split: prod.splits sum.splits)

lemma after_Inr: "after m f s = (Inr y, t) \<longleftrightarrow> (\<exists>x u. m s = (Inr x, u) \<and> f x u = (Inr y, t))"
  by (cases "m s"; cases "fst (m s)") (auto simp: after_def)

lemma after_cases:
  "after m f s = (r, t) \<longleftrightarrow> (\<exists>e. r = Inl e \<and> m s = (Inl e, t)) \<or> (\<exists>x u. m s = (Inr x, u) \<and> f x u = (r, t))"
  by (cases "m s"; cases "fst (m s)") (auto simp: after_def)

lemma throw_if_Inr [simp]: "throw_if b c s = (Inr u, t) \<longleftrightarrow> \<not> b \<and> t = s"
  by (auto simp: action_simps)

lemma after_guard: "after (throw_if b c) f s = (if b then (fail c, s) else f () s)"
  by (simp add: action_simps fail_def)

lemma after_reading: "after (reading g) f s = f (g s) s"
  by (simp add: action_simps)

lemma after_changing: "after (changing g) f s = f () (g s)"
  by (simp add: action_simps)

lemma after_give: "after (give x) f = f x"
  by (rule ext) (simp add: action_simps)

lemma after_assoc: "after (after m f) g = after m (\<lambda>x. after (f x) g)"
  by (auto simp: after_def fun_eq_iff split: prod.splits sum.splits)

lemma after_throw: "after (throw c) f s = (fail c, s)"
  by (simp add: action_simps fail_def)

section \<open>What actions preserve\<close>

text \<open>
  A relation between the states before and after that holds of every action, whether it throws or not.
  Invariants are relations of the form "if it held before, it holds after".
\<close>

definition evolves :: "('s \<Rightarrow> 's \<Rightarrow> bool) \<Rightarrow> ('s, 'a) action \<Rightarrow> bool" where
  "evolves R m \<longleftrightarrow> (\<forall>s. R s (snd (m s)))"

definition invariant_of :: "('s \<Rightarrow> bool) \<Rightarrow> 's \<Rightarrow> 's \<Rightarrow> bool" where
  "invariant_of I s t \<longleftrightarrow> (I s \<longrightarrow> I t)"

lemma evolvesI: "(\<And>s r t. m s = (r, t) \<Longrightarrow> R s t) \<Longrightarrow> evolves R m"
  by (simp add: evolves_def) (metis prod.collapse)

lemma evolvesD: "evolves R m \<Longrightarrow> m s = (r, t) \<Longrightarrow> R s t"
  by (auto simp: evolves_def dest: spec [of _ s])

locale evolution =
  fixes R :: "'s \<Rightarrow> 's \<Rightarrow> bool"
  assumes stays: "R s s"
    and goes_on: "R s t \<Longrightarrow> R t u \<Longrightarrow> R s u"
begin

lemma give: "evolves R (give x)"
  by (simp add: evolves_def action_simps stays)

lemma throw: "evolves R (throw c)"
  by (simp add: evolves_def action_simps stays)

lemma call: "evolves R (call r)"
  by (simp add: evolves_def action_simps stays)

lemma reading: "evolves R (reading f)"
  by (simp add: evolves_def action_simps stays)

lemma throw_if: "evolves R (throw_if b c)"
  by (simp add: evolves_def action_simps stays)

lemma after:
  assumes "evolves R m" and "\<And>x. evolves R (f x)"
  shows "evolves R (after m f)"
proof (rule evolvesI)
  fix s r t
  assume "after m f s = (r, t)"
  then consider e where "m s = (Inl e, t)" | x u where "m s = (Inr x, u)" "f x u = (r, t)"
    unfolding after_cases by blast
  then show "R s t"
  proof cases
    case 2
    then show ?thesis using evolvesD [OF assms(1)] evolvesD [OF assms(2)] goes_on by blast
  qed (rule evolvesD [OF assms(1)])
qed

text \<open>The continuation need only be considered on results that the first action gives.\<close>

lemma after_given:
  assumes "evolves R m" and "\<And>s x u r t. m s = (Inr x, u) \<Longrightarrow> f x u = (r, t) \<Longrightarrow> R s t"
  shows "evolves R (after m f)"
proof (rule evolvesI)
  fix s r t
  assume "after m f s = (r, t)"
  then show "R s t" unfolding after_cases using assms(2) evolvesD [OF assms(1)] by blast
qed

lemma changing: "(\<And>s. R s (g s)) \<Longrightarrow> evolves R (changing g)"
  by (simp add: evolves_def action_simps)

lemma perform_each: "(\<And>x. evolves R (f x)) \<Longrightarrow> evolves R (perform_each f xs)"
  by (induction xs) (simp_all add: give after)

lemma if_action: "evolves R m \<Longrightarrow> evolves R n \<Longrightarrow> evolves R (if b then m else n)"
  by simp

lemma option_action: "evolves R m \<Longrightarrow> (\<And>x. evolves R (f x)) \<Longrightarrow> evolves R (case y of None \<Rightarrow> m | Some x \<Rightarrow> f x)"
  by (cases y) simp_all

lemma let_action: "(\<And>x. evolves R (f x)) \<Longrightarrow> evolves R (let x = y in f x)"
  by (simp add: Let_def)

lemmas rules = give throw call reading throw_if after perform_each if_action option_action let_action

end

interpretation invariants: evolution "invariant_of I"
  by unfold_locales (auto simp: invariant_of_def)

section \<open>Surroundings\<close>

record localized =
  lt_zh :: string
  lt_en :: string

record environment =
  env_idFactory :: "nat \<Rightarrow> string"
  env_now :: "nat \<Rightarrow> int"
  env_leaseTokenFactory :: "nat \<Rightarrow> string"
  env_sha256 :: "string \<Rightarrow> string"
  env_chinese :: "string \<Rightarrow> string"

record ticks =
  tk_ids :: nat
  tk_clock :: nat
  tk_tokens :: nat

definition next_id :: "environment \<Rightarrow> ('x ticks_scheme, string) action" where
  "next_id E = (\<lambda>s. (Inr (env_idFactory E (tk_ids s)), s\<lparr>tk_ids := tk_ids s + 1\<rparr>))"

definition next_token :: "environment \<Rightarrow> ('x ticks_scheme, string) action" where
  "next_token E = (\<lambda>s. (Inr (env_leaseTokenFactory E (tk_tokens s)), s\<lparr>tk_tokens := tk_tokens s + 1\<rparr>))"

definition timestamp :: "environment \<Rightarrow> ('x ticks_scheme, string) action" where
  "timestamp E = (\<lambda>s. (Inr (toISOString (env_now E (tk_clock s))), s\<lparr>tk_clock := tk_clock s + 1\<rparr>))"

definition bilingual :: "environment \<Rightarrow> string \<Rightarrow> localized" where
  "bilingual E s = \<lparr>lt_zh = env_chinese E s, lt_en = s\<rparr>"

section \<open>Hashes\<close>

text \<open>
  The order of the entries of an object: names that are array indices come first, in the order of
  their numbers, then the others as they were added.
\<close>

definition is_index :: "string \<Rightarrow> bool" where
  "is_index k \<longleftrightarrow> k \<noteq> [] \<and> list_all is_digit k \<and> (hd k = CHR ''0'' \<longrightarrow> k = ''0'') \<and> digits_value k < 4294967295"

definition entry_order :: "(string \<times> 'a) list \<Rightarrow> (string \<times> 'a) list" where
  "entry_order es = sort_key (digits_value \<circ> fst) (filter (is_index \<circ> fst) es) @ filter (Not \<circ> is_index \<circ> fst) es"

function canonicalize :: "json \<Rightarrow> json" where
  "canonicalize JNull = JNull"
| "canonicalize (JBool b) = JBool b"
| "canonicalize (JNumber x) = JNumber x"
| "canonicalize (JString s) = JString s"
| "canonicalize (JArray xs) = JArray (map canonicalize xs)"
| "canonicalize (JObject es) = JObject (entry_order (map (\<lambda>e. (fst e, canonicalize (snd e))) (sort_key fst es)))"
  by pat_completeness auto
termination
  by (relation "measure size") (auto simp: json_entry_size less_Suc_eq_le size_list_estimation')

definition hash :: "environment \<Rightarrow> json \<Rightarrow> string" where
  "hash E v = ''sha256:'' @ env_sha256 E (json_text (canonicalize v))"

definition ZERO_HASH :: string where
  "ZERO_HASH = ''sha256:'' @ replicate 64 CHR ''0''"

text \<open>Two values have one hash when their canonical forms are equal, or when the digest collides on their texts.\<close>

definition hash_collides :: "environment \<Rightarrow> json \<Rightarrow> json \<Rightarrow> bool" where
  "hash_collides E v w \<longleftrightarrow>
     json_text (canonicalize v) \<noteq> json_text (canonicalize w)
     \<and> env_sha256 E (json_text (canonicalize v)) = env_sha256 E (json_text (canonicalize w))"

lemma hash_eq_iff: "hash E v = hash E w \<longleftrightarrow> json_text (canonicalize v) = json_text (canonicalize w) \<or> hash_collides E v w"
  by (auto simp: hash_def hash_collides_def)

definition jnat :: "nat \<Rightarrow> json" where
  "jnat n = JNumber (Num (of_nat n))"

definition localized_json :: "localized \<Rightarrow> json" where
  "localized_json t = JObject [(''zh-CN'', JString (lt_zh t)), (''en'', JString (lt_en t))]"

definition strings_json :: "string list \<Rightarrow> json" where
  "strings_json xs = JArray (map JString xs)"

text \<open>\<open>...(x === undefined ? {} : { name: x })\<close>.\<close>

definition optional :: "string \<Rightarrow> ('a \<Rightarrow> json) \<Rightarrow> 'a option \<Rightarrow> (string \<times> json) list" where
  "optional name f x = (case x of None \<Rightarrow> [] | Some v \<Rightarrow> [(name, f v)])"

end
