(* ===== verification/ServiceData.thy ===== *)
theory ServiceData
  imports ServiceState ExerciseRun RunTask RunBarrier Feedback AgentInteraction
begin

text \<open>
  The data of \<open>apps/api/src/v2-in-memory-service.ts\<close>: the objects of \<open>packages/contracts/src/v2.ts\<close> that it returns,
  their JSON, and the records it stores. A JavaScript \<open>Map\<close> is an association list in the order of insertion.
  Fields with one possible value (\<open>simulationOnly\<close>, \<open>primary\<close>, \<open>protocolVersion\<close> and \<open>schemaVersion\<close>) appear in the JSON
  only. A literal type is a string where the code only stores and compares it.
\<close>

section \<open>Scenarios\<close>

datatype scenario_lifecycle = Scenario_DRAFT | Scenario_PUBLISHED | Scenario_RETIRED

datatype validation_status = NOT_VALIDATED | VALID | INVALID

datatype validation_issue = REQUIRED_ROLES_MISSING | DISTINCT_AGENT_QUORUM_INVALID | DUPLICATE_ROLE_SLOT

record role_definition =
  rd_id :: string
  rd_name :: localized
  rd_mission :: localized
  rd_expectedArtifact :: localized

record scenario_validation =
  vn_status :: validation_status
  vn_errors :: "validation_issue list"
  vn_validatedAt :: "string option"

record scenario_version =
  sv_id :: string
  sv_scenarioId :: string
  sv_label :: string
  sv_summary :: localized
  sv_lifecycle :: scenario_lifecycle
  sv_replayStartAt :: string
  sv_requiredRoles :: "role_definition list"
  sv_minDistinctRequiredAgents :: js_number
  sv_contentHash :: "string option"
  sv_validation :: scenario_validation
  sv_version :: js_number
  sv_createdAt :: string
  sv_updatedAt :: string
  sv_publishedAt :: "string option"

record stored_scenario =
  ss_id :: string
  ss_slug :: string
  ss_ownerId :: string
  ss_title :: localized
  ss_description :: localized
  ss_region :: localized
  ss_lifecycle :: scenario_lifecycle
  ss_currentVersionId :: "string option"
  ss_version :: js_number
  ss_versionIds :: "string list"
  ss_updatedAt :: string

record public_scenario =
  pc_id :: string
  pc_slug :: string
  pc_title :: localized
  pc_description :: localized
  pc_region :: localized
  pc_lifecycle :: scenario_lifecycle
  pc_currentVersionId :: string
  pc_publishedVersionCount :: nat
  pc_requiredRoleCount :: nat
  pc_minDistinctRequiredAgents :: js_number

record public_version =
  pv_id :: string
  pv_scenarioId :: string
  pv_label :: string
  pv_summary :: localized
  pv_lifecycle :: scenario_lifecycle
  pv_replayStartAt :: string
  pv_requiredRoles :: "role_definition list"
  pv_minDistinctRequiredAgents :: js_number
  pv_contentHash :: string
  pv_publishedAt :: string

record manage_scenario =
  mg_id :: string
  mg_slug :: string
  mg_title :: localized
  mg_description :: localized
  mg_region :: localized
  mg_lifecycle :: scenario_lifecycle
  mg_currentVersionId :: "string option"
  mg_publishedVersionCount :: nat
  mg_requiredRoleCount :: nat
  mg_minDistinctRequiredAgents :: js_number
  mg_ownerId :: string
  mg_version :: js_number
  mg_draftVersionCount :: nat
  mg_latestValidationStatus :: validation_status
  mg_updatedAt :: string

record create_scenario =
  cs_slug :: string
  cs_title :: localized
  cs_description :: localized
  cs_region :: localized

record create_scenario_version =
  cv_expectedScenarioVersion :: js_number
  cv_label :: string
  cv_summary :: localized
  cv_replayStartAt :: string
  cv_minDistinctRequiredAgents :: js_number
  cv_requiredRoles :: "role_definition list"

definition role_json :: "role_definition \<Rightarrow> json" where
  "role_json r = JObject [(''id'', JString (rd_id r)), (''name'', localized_json (rd_name r)),
     (''mission'', localized_json (rd_mission r)), (''expectedArtifact'', localized_json (rd_expectedArtifact r))]"

definition create_scenario_json :: "create_scenario \<Rightarrow> json" where
  "create_scenario_json i = JObject [(''slug'', JString (cs_slug i)), (''title'', localized_json (cs_title i)),
     (''description'', localized_json (cs_description i)), (''region'', localized_json (cs_region i)),
     (''simulationOnly'', JBool True)]"

definition create_scenario_version_json :: "create_scenario_version \<Rightarrow> json" where
  "create_scenario_version_json i = JObject [(''expectedScenarioVersion'', JNumber (cv_expectedScenarioVersion i)),
     (''label'', JString (cv_label i)), (''summary'', localized_json (cv_summary i)),
     (''replayStartAt'', JString (cv_replayStartAt i)),
     (''minDistinctRequiredAgents'', JNumber (cv_minDistinctRequiredAgents i)),
     (''requiredRoles'', JArray (map role_json (cv_requiredRoles i)))]"

definition version_command_json :: "js_number \<Rightarrow> json" where
  "version_command_json v = JObject [(''expectedVersion'', JNumber v)]"

section \<open>Agents\<close>

datatype agent_lifecycle = Agent_ACTIVE | Agent_SUSPENDED | Agent_REVOKED

datatype agent_version_lifecycle = Version_PUBLISHED | Version_RETIRED

record agent_identity =
  ag_id :: string
  ag_ownerId :: string
  ag_displayName :: localized
  ag_description :: localized
  ag_lifecycle :: agent_lifecycle
  ag_version :: js_number
  ag_createdAt :: string
  ag_updatedAt :: string

record agent_content =
  ac_providerKind :: string
  ac_model :: string
  ac_capabilities :: "string list"
  ac_telemetryMode :: string
  ac_skillManifestHash :: string
  ac_toolManifestHash :: string

record agent_version =
  av_id :: string
  av_agentId :: string
  av_content :: agent_content
  av_lifecycle :: agent_version_lifecycle
  av_contentHash :: string
  av_version :: js_number
  av_publishedAt :: string

record stored_agent =
  sa_dto :: agent_identity
  sa_versionIds :: "string list"

record create_agent =
  cg_displayName :: localized
  cg_description :: localized

record create_agent_version =
  cw_expectedAgentVersion :: js_number
  cw_content :: agent_content

definition agent_content_json :: "agent_content \<Rightarrow> (string \<times> json) list" where
  "agent_content_json c =
     [(''providerKind'', JString (ac_providerKind c)), (''model'', JString (ac_model c)),
      (''capabilities'', strings_json (ac_capabilities c)), (''protocolVersion'', JString ''v2''),
      (''telemetryMode'', JString (ac_telemetryMode c)), (''skillManifestHash'', JString (ac_skillManifestHash c)),
      (''toolManifestHash'', JString (ac_toolManifestHash c))]"

definition create_agent_json :: "create_agent \<Rightarrow> json" where
  "create_agent_json i = JObject [(''displayName'', localized_json (cg_displayName i)), (''description'', localized_json (cg_description i))]"

definition create_agent_version_json :: "create_agent_version \<Rightarrow> json" where
  "create_agent_version_json i =
     JObject ((''expectedAgentVersion'', JNumber (cw_expectedAgentVersion i)) # agent_content_json (cw_content i))"

section \<open>Runs\<close>

record run_dto =
  rx_id :: string
  rx_scenarioVersionId :: string
  rx_ownerId :: string
  rx_label :: localized
  rx_mode :: string
  rx_state :: exercise_run_state
  rx_virtualTime :: string
  rx_version :: js_number
  rx_createdAt :: string
  rx_updatedAt :: string
  rx_startedAt :: "string option"

record run_agent =
  rg_id :: string
  rg_runId :: string
  rg_agentVersionId :: string
  rg_instanceKey :: string
  rg_roleSlotId :: string
  rg_state :: string
  rg_version :: js_number
  rg_joinedAt :: string

record stored_run_agent =
  sg_dto :: run_agent
  sg_joinedRunSeq :: nat

record role_assignment =
  ra_id :: string
  ra_runId :: string
  ra_runAgentId :: string
  ra_roleSlotId :: string
  ra_assignedAt :: string
  ra_assignedRunSeq :: nat

record create_run =
  cr_scenarioVersionId :: string
  cr_label :: localized
  cr_mode :: string

record join_run =
  jr_agentVersionId :: string
  jr_instanceKey :: string
  jr_roleSlotId :: string

definition create_run_json :: "create_run \<Rightarrow> json" where
  "create_run_json i = JObject [(''scenarioVersionId'', JString (cr_scenarioVersionId i)), (''label'', localized_json (cr_label i)),
     (''mode'', JString (cr_mode i))]"

definition join_run_json :: "join_run \<Rightarrow> json" where
  "join_run_json i = JObject [(''agentVersionId'', JString (jr_agentVersionId i)), (''instanceKey'', JString (jr_instanceKey i)),
     (''roleSlotId'', JString (jr_roleSlotId i))]"

section \<open>Events\<close>

record event_input =
  ei_streamType :: string
  ei_streamId :: string
  ei_eventType :: string
  ei_actorType :: string
  ei_actorId :: string
  ei_correlationId :: "string option"
  ei_causationId :: "string option"
  ei_assertionClass :: string
  ei_payload :: json

record event_dto =
  ed_eventId :: string
  ed_runId :: string
  ed_runSeq :: nat
  ed_input :: event_input
  ed_virtualTime :: string
  ed_occurredAt :: string
  ed_recordedAt :: string
  ed_payloadHash :: string
  ed_previousHash :: string
  ed_eventHash :: string

text \<open>The object \<open>base\<close> that is hashed: the event without its own hash.\<close>

definition event_json :: "event_dto \<Rightarrow> json" where
  "event_json e = JObject
     ([(''eventId'', JString (ed_eventId e)), (''runId'', JString (ed_runId e)), (''runSeq'', jnat (ed_runSeq e)),
       (''streamType'', JString (ei_streamType (ed_input e))), (''streamId'', JString (ei_streamId (ed_input e))),
       (''eventType'', JString (ei_eventType (ed_input e))), (''actorType'', JString (ei_actorType (ed_input e))),
       (''actorId'', JString (ei_actorId (ed_input e)))]
      @ optional ''correlationId'' JString (ei_correlationId (ed_input e))
      @ optional ''causationId'' JString (ei_causationId (ed_input e))
      @ [(''assertionClass'', JString (ei_assertionClass (ed_input e))), (''payload'', ei_payload (ed_input e)),
         (''virtualTime'', JString (ed_virtualTime e)), (''occurredAt'', JString (ed_occurredAt e)),
         (''recordedAt'', JString (ed_recordedAt e)), (''schemaVersion'', JNumber (Num 1)),
         (''payloadHash'', JString (ed_payloadHash e)), (''previousHash'', JString (ed_previousHash e))])"

section \<open>Tasks, messages and artifacts\<close>

fun task_state_text :: "run_task_state \<Rightarrow> string" where
  "task_state_text s = (case s of
     T_BLOCKED \<Rightarrow> ''BLOCKED'' | T_READY \<Rightarrow> ''READY'' | T_CLAIMED \<Rightarrow> ''CLAIMED'' | T_IN_PROGRESS \<Rightarrow> ''IN_PROGRESS''
   | T_SUBMITTED \<Rightarrow> ''SUBMITTED'' | T_EVALUATING \<Rightarrow> ''EVALUATING'' | T_REWORK_REQUIRED \<Rightarrow> ''REWORK_REQUIRED''
   | T_ACCEPTED \<Rightarrow> ''ACCEPTED'')"

record task_dto =
  td_id :: string
  td_runId :: string
  td_roleSlotId :: string
  td_assignedRunAgentId :: string
  td_definitionKey :: string
  td_title :: localized
  td_objective :: localized
  td_state :: run_task_state
  td_lockVersion :: js_number
  td_claimEpoch :: js_number
  td_claimedByRunAgentId :: "string option"
  td_leaseExpiresAt :: "string option"
  td_createdRunSeq :: nat

definition task_json :: "task_dto \<Rightarrow> json" where
  "task_json t = JObject
     ([(''id'', JString (td_id t)), (''runId'', JString (td_runId t)), (''roleSlotId'', JString (td_roleSlotId t)),
       (''assignedRunAgentId'', JString (td_assignedRunAgentId t)), (''definitionKey'', JString (td_definitionKey t)),
       (''title'', localized_json (td_title t)), (''objective'', localized_json (td_objective t)),
       (''state'', JString (task_state_text (td_state t))), (''lockVersion'', JNumber (td_lockVersion t)),
       (''claimEpoch'', JNumber (td_claimEpoch t)), (''createdRunSeq'', jnat (td_createdRunSeq t))]
      @ optional ''claimedByRunAgentId'' JString (td_claimedByRunAgentId t)
      @ optional ''leaseExpiresAt'' JString (td_leaseExpiresAt t))"

record artifact_reference =
  ar_artifactId :: string
  ar_artifactVersionId :: string
  ar_contentHash :: string

definition artifact_reference_json :: "artifact_reference \<Rightarrow> json" where
  "artifact_reference_json r = JObject [(''artifactId'', JString (ar_artifactId r)),
     (''artifactVersionId'', JString (ar_artifactVersionId r)), (''contentHash'', JString (ar_contentHash r))]"

fun message_kind_text :: "interaction_kind \<Rightarrow> string" where
  "message_kind_text Inform = ''inform''"
| "message_kind_text Request = ''request''"
| "message_kind_text Response = ''response''"
| "message_kind_text Handoff = ''handoff''"

record message_dto =
  me_id :: string
  me_runId :: string
  me_threadId :: string
  me_kind :: interaction_kind
  me_replyToMessageId :: "string option"
  me_senderType :: string
  me_senderId :: string
  me_recipientRunAgentIds :: "string list"
  me_subject :: localized
  me_body :: localized
  me_artifactVersionRefs :: "artifact_reference list"
  me_createdRunSeq :: nat
  me_createdVirtualAt :: string
  me_createdAt :: string

definition message_json :: "message_dto \<Rightarrow> json" where
  "message_json m = JObject
     ([(''id'', JString (me_id m)), (''runId'', JString (me_runId m)), (''threadId'', JString (me_threadId m)),
       (''kind'', JString (message_kind_text (me_kind m)))]
      @ optional ''replyToMessageId'' JString (me_replyToMessageId m)
      @ [(''senderType'', JString (me_senderType m)), (''senderId'', JString (me_senderId m)),
         (''recipientRunAgentIds'', strings_json (me_recipientRunAgentIds m)), (''subject'', localized_json (me_subject m)),
         (''body'', localized_json (me_body m)),
         (''artifactVersionRefs'', JArray (map artifact_reference_json (me_artifactVersionRefs m))),
         (''createdRunSeq'', jnat (me_createdRunSeq m)), (''createdVirtualAt'', JString (me_createdVirtualAt m)),
         (''createdAt'', JString (me_createdAt m))])"

record create_message =
  cm_kind :: interaction_kind
  cm_replyToMessageId :: "string option"
  cm_recipientRunAgentIds :: "string list"
  cm_subject :: localized
  cm_body :: localized
  cm_artifactVersionRefs :: "artifact_reference list"

definition create_message_json :: "create_message \<Rightarrow> json" where
  "create_message_json i = JObject
     ([(''kind'', JString (message_kind_text (cm_kind i)))] @ optional ''replyToMessageId'' JString (cm_replyToMessageId i)
      @ [(''recipientRunAgentIds'', strings_json (cm_recipientRunAgentIds i)), (''subject'', localized_json (cm_subject i)),
         (''body'', localized_json (cm_body i)),
         (''artifactVersionRefs'', JArray (map artifact_reference_json (cm_artifactVersionRefs i)))])"

record artifact_dto =
  at_id :: string
  at_runId :: string
  at_artifactKey :: string
  at_versionId :: string
  at_versionNo :: nat
  at_baseVersionId :: "string option"
  at_artifactType :: string
  at_title :: localized
  at_content :: json
  at_contentHash :: string
  at_authorType :: string
  at_authorId :: string
  at_recipientRunAgentIds :: "string list"
  at_createdRunSeq :: nat
  at_createdAt :: string

definition artifact_json :: "artifact_dto \<Rightarrow> json" where
  "artifact_json a = JObject
     ([(''id'', JString (at_id a)), (''runId'', JString (at_runId a)), (''artifactKey'', JString (at_artifactKey a)),
       (''versionId'', JString (at_versionId a)), (''versionNo'', jnat (at_versionNo a))]
      @ optional ''baseVersionId'' JString (at_baseVersionId a)
      @ [(''artifactType'', JString (at_artifactType a)), (''title'', localized_json (at_title a)), (''content'', at_content a),
         (''contentHash'', JString (at_contentHash a)), (''authorType'', JString (at_authorType a)),
         (''authorId'', JString (at_authorId a)), (''recipientRunAgentIds'', strings_json (at_recipientRunAgentIds a)),
         (''createdRunSeq'', jnat (at_createdRunSeq a)), (''createdAt'', JString (at_createdAt a))])"

record create_artifact =
  ca_artifactKey :: string
  ca_artifactType :: string
  ca_title :: localized
  ca_content :: json
  ca_recipientRunAgentIds :: "string list"

record create_artifact_version =
  cx_baseVersionId :: string
  cx_content :: json
  cx_recipientRunAgentIds :: "string list"

definition create_artifact_json :: "create_artifact \<Rightarrow> json" where
  "create_artifact_json i = JObject [(''artifactKey'', JString (ca_artifactKey i)), (''artifactType'', JString (ca_artifactType i)),
     (''title'', localized_json (ca_title i)), (''content'', ca_content i),
     (''recipientRunAgentIds'', strings_json (ca_recipientRunAgentIds i))]"

definition create_artifact_version_json :: "create_artifact_version \<Rightarrow> json" where
  "create_artifact_version_json i = JObject [(''baseVersionId'', JString (cx_baseVersionId i)), (''content'', cx_content i),
     (''recipientRunAgentIds'', strings_json (cx_recipientRunAgentIds i))]"

end
