(* ===== verification/ServiceRunData.thy ===== *)
theory ServiceRunData
  imports ServiceData
begin

text \<open>
  The data of a run in \<open>apps/api/src/v2-in-memory-service.ts\<close>, continued: submissions, feedback, evaluations and
  receipts, the record that the service stores for a run, and the state of the service as a whole.
\<close>

section \<open>Submissions\<close>

record receipt_reference =
  rr_receiptId :: string
  rr_receiptHash :: string

definition receipt_reference_json :: "receipt_reference \<Rightarrow> json" where
  "receipt_reference_json r = JObject [(''receiptId'', JString (rr_receiptId r)), (''receiptHash'', JString (rr_receiptHash r))]"

record lease_request =
  lr_expectedVersion :: js_number
  lr_claimEpoch :: js_number
  lr_leaseToken :: string

definition lease_request_json :: "lease_request \<Rightarrow> (string \<times> json) list" where
  "lease_request_json i = [(''expectedVersion'', JNumber (lr_expectedVersion i)), (''claimEpoch'', JNumber (lr_claimEpoch i)),
     (''leaseToken'', JString (lr_leaseToken i))]"

record create_submission =
  cu_lease :: lease_request
  cu_submissionType :: string
  cu_targetScope :: string
  cu_payload :: json
  cu_receiptRefs :: "receipt_reference list"
  cu_artifactVersionRefs :: "artifact_reference list"
  cu_revisionOfId :: "string option"
  cu_feedbackActionGrantId :: "string option"
  cu_endorsementRecipientRunAgentIds :: "string list"

definition create_submission_json :: "create_submission \<Rightarrow> json" where
  "create_submission_json i = JObject
     (lease_request_json (cu_lease i)
      @ [(''submissionType'', JString (cu_submissionType i)), (''targetScope'', JString (cu_targetScope i)),
         (''payload'', cu_payload i), (''receiptRefs'', JArray (map receipt_reference_json (cu_receiptRefs i))),
         (''artifactVersionRefs'', JArray (map artifact_reference_json (cu_artifactVersionRefs i)))]
      @ optional ''revisionOfId'' JString (cu_revisionOfId i)
      @ optional ''feedbackActionGrantId'' JString (cu_feedbackActionGrantId i)
      @ [(''endorsementRecipientRunAgentIds'', strings_json (cu_endorsementRecipientRunAgentIds i))])"

text \<open>The schema of a submission: it cites something, its recipients differ, and a revision comes with its grant.\<close>

definition submission_accepted :: "create_submission \<Rightarrow> bool" where
  "submission_accepted i \<longleftrightarrow>
     length (cu_receiptRefs i) + length (cu_artifactVersionRefs i) \<noteq> 0
     \<and> distinct (cu_endorsementRecipientRunAgentIds i)
     \<and> (cu_revisionOfId i = None \<longleftrightarrow> cu_feedbackActionGrantId i = None)"

record submission_dto =
  sd_id :: string
  sd_runId :: string
  sd_taskId :: string
  sd_actorRunAgentId :: string
  sd_targetScope :: string
  sd_roleSlotId :: string
  sd_revisionNo :: nat
  sd_revisionOfId :: "string option"
  sd_submissionType :: string
  sd_payload :: json
  sd_payloadHash :: string
  sd_receiptRefs :: "receipt_reference list"
  sd_artifactVersionRefs :: "artifact_reference list"
  sd_endorsementRecipientRunAgentIds :: "string list"
  sd_submittedVirtualAt :: string
  sd_submittedAt :: string
  sd_createdRunSeq :: nat

definition submission_json :: "submission_dto \<Rightarrow> json" where
  "submission_json s = JObject
     ([(''id'', JString (sd_id s)), (''runId'', JString (sd_runId s)), (''taskId'', JString (sd_taskId s)),
       (''actorRunAgentId'', JString (sd_actorRunAgentId s)), (''targetScope'', JString (sd_targetScope s)),
       (''roleSlotId'', JString (sd_roleSlotId s)), (''revisionNo'', jnat (sd_revisionNo s))]
      @ optional ''revisionOfId'' JString (sd_revisionOfId s)
      @ [(''submissionType'', JString (sd_submissionType s)), (''isFinal'', JBool False), (''payload'', sd_payload s),
         (''payloadHash'', JString (sd_payloadHash s)),
         (''receiptRefs'', JArray (map receipt_reference_json (sd_receiptRefs s))),
         (''artifactVersionRefs'', JArray (map artifact_reference_json (sd_artifactVersionRefs s))),
         (''endorsementRecipientRunAgentIds'', strings_json (sd_endorsementRecipientRunAgentIds s)),
         (''submittedVirtualAt'', JString (sd_submittedVirtualAt s)), (''submittedAt'', JString (sd_submittedAt s)),
         (''createdRunSeq'', jnat (sd_createdRunSeq s))])"

record endorsement_dto =
  en_id :: string
  en_runId :: string
  en_submissionId :: string
  en_endorserRunAgentId :: string
  en_feedbackActionGrantId :: string
  en_endorsedAt :: string
  en_createdRunSeq :: nat

section \<open>Feedback and evaluations\<close>

fun feedback_action_text :: "feedback_action \<Rightarrow> string" where
  "feedback_action_text Revise_task = ''revise_task''"
| "feedback_action_text Resubmit = ''resubmit''"
| "feedback_action_text Endorse = ''endorse''"
| "feedback_action_text Request_clarification = ''request_clarification''"

definition grant_json :: "feedback_grant \<Rightarrow> json" where
  "grant_json g = JObject
     ([(''id'', JString (fg_id g)), (''targetRunAgentId'', JString (fg_targetRunAgentId g)),
       (''targetTaskId'', JString (fg_targetTaskId g)), (''action'', JString (feedback_action_text (fg_action g)))]
      @ optional ''predecessorSubmissionId'' JString (fg_predecessorSubmissionId g)
      @ [(''evaluationId'', JString (fg_evaluationId g)), (''issuedRunSeq'', JNumber (fg_issuedRunSeq g)),
         (''issuedAt'', JString (fg_issuedAt g))]
      @ optional ''expiresVirtualAt'' JString (fg_expiresVirtualAt g) @ optional ''expiresAt'' JString (fg_expiresAt g)
      @ [(''maxUses'', JNumber (fg_maxUses g)), (''usedCount'', JNumber (fg_usedCount g))]
      @ optional ''revokedRunSeq'' JNumber (fg_revokedRunSeq g)
      @ [(''scopeHash'', JString (fg_scopeHash g)), (''version'', JNumber (fg_version g))])"

record feedback_dto =
  fd_id :: string
  fd_runId :: string
  fd_targetScope :: string
  fd_recipientRunAgentIds :: "string list"
  fd_basisType :: string
  fd_summary :: localized
  fd_guidance :: "localized list"
  fd_allowedActions :: "string list"
  fd_subjectSubmissionId :: "string option"
  fd_actionGrants :: "feedback_grant list"  \<comment> \<open>absent when empty\<close>
  fd_createdRunSeq :: nat
  fd_createdAt :: string

definition feedback_json :: "feedback_dto \<Rightarrow> json" where
  "feedback_json f = JObject
     ([(''id'', JString (fd_id f)), (''runId'', JString (fd_runId f)), (''targetScope'', JString (fd_targetScope f)),
       (''recipientRunAgentIds'', strings_json (fd_recipientRunAgentIds f)), (''basisType'', JString (fd_basisType f)),
       (''summary'', localized_json (fd_summary f)), (''guidance'', JArray (map localized_json (fd_guidance f))),
       (''allowedActions'', strings_json (fd_allowedActions f))]
      @ optional ''subjectSubmissionId'' JString (fd_subjectSubmissionId f)
      @ (if fd_actionGrants f = [] then [] else [(''actionGrants'', JArray (map grant_json (fd_actionGrants f)))])
      @ [(''createdRunSeq'', jnat (fd_createdRunSeq f)), (''createdAt'', JString (fd_createdAt f))])"

datatype verdict = Verdict_ACCEPTED | Verdict_REWORK_REQUIRED

datatype evaluation_issue =
  OUTPUT_SCHEMA_TYPE | OUTPUT_SCHEMA_REQUIRED_FIELD | OUTPUT_SCHEMA_MIN_ITEMS | OUTPUT_SCHEMA_ADDITIONAL_PROPERTY
| ARTIFACT_EVIDENCE_REQUIRED

fun verdict_text :: "verdict \<Rightarrow> string" where
  "verdict_text Verdict_ACCEPTED = ''ACCEPTED''"
| "verdict_text Verdict_REWORK_REQUIRED = ''REWORK_REQUIRED''"

fun issue_text :: "evaluation_issue \<Rightarrow> string" where
  "issue_text OUTPUT_SCHEMA_TYPE = ''OUTPUT_SCHEMA_TYPE''"
| "issue_text OUTPUT_SCHEMA_REQUIRED_FIELD = ''OUTPUT_SCHEMA_REQUIRED_FIELD''"
| "issue_text OUTPUT_SCHEMA_MIN_ITEMS = ''OUTPUT_SCHEMA_MIN_ITEMS''"
| "issue_text OUTPUT_SCHEMA_ADDITIONAL_PROPERTY = ''OUTPUT_SCHEMA_ADDITIONAL_PROPERTY''"
| "issue_text ARTIFACT_EVIDENCE_REQUIRED = ''ARTIFACT_EVIDENCE_REQUIRED''"

record evaluation_dto =
  el_id :: string
  el_runId :: string
  el_submissionId :: string
  el_taskId :: string
  el_runAgentId :: string
  el_roleSlotId :: string
  el_targetScope :: string
  el_verdict :: verdict
  el_issueCodes :: "evaluation_issue list"
  el_createdRunSeq :: nat
  el_createdAt :: string

section \<open>Disclosures and receipts\<close>

datatype resource_type = R_task | R_message | R_artifact | R_feedback | R_submission

fun resource_text :: "resource_type \<Rightarrow> string" where
  "resource_text R_task = ''task''"
| "resource_text R_message = ''message''"
| "resource_text R_artifact = ''artifact''"
| "resource_text R_feedback = ''feedback''"
| "resource_text R_submission = ''submission''"

fun view_kind :: "resource_type \<Rightarrow> string" where
  "view_kind R_task = ''task_assignment''"
| "view_kind R_artifact = ''artifact_grant''"
| "view_kind R_message = ''message''"
| "view_kind R_feedback = ''feedback''"
| "view_kind R_submission = ''submission''"

record disclosure =
  di_resourceType :: resource_type
  di_resourceId :: string
  di_resourceVersion :: string
  di_sourceEventId :: string
  di_sourceRunSeq :: nat
  di_contentSnapshot :: json
  di_contentHash :: string

record receipt =
  rc_id :: string
  rc_runId :: string
  rc_runAgentId :: string
  rc_agentReceiptSeq :: nat
  rc_deliveryBatchId :: string
  rc_sourceEventId :: string
  rc_sourceRunSeq :: nat
  rc_issuedEventId :: string
  rc_issuedRunSeq :: nat
  rc_resourceType :: resource_type
  rc_resourceId :: string
  rc_resourceVersion :: string
  rc_availableVirtualAt :: string
  rc_issuedVirtualAt :: string
  rc_issuedAt :: string
  rc_contentSnapshot :: json
  rc_contentHash :: string
  rc_previousReceiptHash :: string
  rc_receiptHash :: string

text \<open>The object \<open>base\<close> that is hashed: the receipt without its own hash.\<close>

definition receipt_json :: "receipt \<Rightarrow> json" where
  "receipt_json r = JObject
     [(''id'', JString (rc_id r)), (''runId'', JString (rc_runId r)), (''runAgentId'', JString (rc_runAgentId r)),
      (''agentReceiptSeq'', jnat (rc_agentReceiptSeq r)), (''deliveryBatchId'', JString (rc_deliveryBatchId r)),
      (''sourceEventId'', JString (rc_sourceEventId r)), (''sourceRunSeq'', jnat (rc_sourceRunSeq r)),
      (''issuedEventId'', JString (rc_issuedEventId r)), (''issuedRunSeq'', jnat (rc_issuedRunSeq r)),
      (''viewKind'', JString (view_kind (rc_resourceType r))), (''resourceType'', JString (resource_text (rc_resourceType r))),
      (''resourceId'', JString (rc_resourceId r)), (''resourceVersion'', JString (rc_resourceVersion r)),
      (''availableVirtualAt'', JString (rc_availableVirtualAt r)), (''issuedVirtualAt'', JString (rc_issuedVirtualAt r)),
      (''issuedAt'', JString (rc_issuedAt r)), (''schemaVersion'', JNumber (Num 1)), (''contentSnapshot'', rc_contentSnapshot r),
      (''contentHash'', JString (rc_contentHash r)), (''previousReceiptHash'', JString (rc_previousReceiptHash r))]"

record acknowledgement =
  ak_throughReceiptSeq :: nat
  ak_headHash :: string
  ak_acknowledgedRunSeq :: nat

record sync_request =
  sq_afterReceiptSeq :: nat
  sq_ack :: "(nat \<times> string) option"
  sq_maxItems :: nat

definition sync_request_json :: "sync_request \<Rightarrow> json" where
  "sync_request_json i = JObject
     ([(''afterReceiptSeq'', jnat (sq_afterReceiptSeq i))]
      @ optional ''ack'' (\<lambda>a. JObject [(''throughReceiptSeq'', jnat (fst a)), (''headHash'', JString (snd a))]) (sq_ack i)
      @ [(''maxItems'', jnat (sq_maxItems i))])"

record sync_batch =
  db_deliveryBatchId :: string
  db_runId :: string
  db_runAgentId :: string
  db_fromReceiptSeq :: "nat option"
  db_throughReceiptSeq :: nat
  db_receiptHeadHash :: string
  db_runCursor :: nat
  db_hasMore :: bool
  db_receipts :: "receipt list"

section \<open>Stored runs and the service\<close>

record stored_run =
  sr_initial :: run_dto
  sr_run :: run_dto
  sr_createdRunSeq :: nat
  sr_runAgents :: "(string \<times> stored_run_agent) list"
  sr_roleAssignments :: "role_assignment list"
  sr_tasks :: "(string \<times> task_dto) list"
  sr_taskStates :: "(string \<times> run_task) list"
  sr_messages :: "(string \<times> message_dto) list"
  sr_artifacts :: "(string \<times> artifact_dto) list"
  sr_artifactVersions :: "(string \<times> artifact_dto) list"
  sr_submissions :: "(string \<times> submission_dto) list"
  sr_endorsements :: "(string \<times> endorsement_dto) list"
  sr_feedback :: "(string \<times> feedback_dto) list"
  sr_actionGrants :: "(string \<times> feedback_grant) list"
  sr_evaluations :: "(string \<times> evaluation_dto) list"
  sr_barriers :: "(string \<times> run_barrier) list"
  sr_eligible :: "(string \<times> disclosure list) list"
  sr_receipts :: "(string \<times> receipt list) list"
  sr_acknowledgements :: "(string \<times> acknowledgement list) list"
  sr_events :: "event_dto list"
  sr_eventHeadHash :: string

record task_lease =
  tl_claimEpoch :: js_number
  tl_leaseToken :: string
  tl_leaseExpiresAt :: string
  tl_maximumLeaseExpiresAt :: string

text \<open>What the methods that change state return, and the idempotency records keep.\<close>

datatype response =
  Scenario_response manage_scenario
| Scenario_version_response scenario_version
| Agent_response agent_identity
| Agent_version_response agent_version
| Run_response run_dto
| Run_agent_response run_agent
| Batch_response sync_batch
| Claim_response task_dto task_lease
| Task_response task_dto
| Submission_response submission_dto task_dto
| Message_response message_dto
| Artifact_response artifact_dto
| Endorsement_response endorsement_dto feedback_grant

record idempotency_record =
  ir_requestHash :: string
  ir_response :: response

record service = ticks +
  svc_scenarios :: "(string \<times> stored_scenario) list"
  svc_scenarioVersions :: "(string \<times> scenario_version) list"
  svc_agents :: "(string \<times> stored_agent) list"
  svc_agentVersions :: "(string \<times> agent_version) list"
  svc_runs :: "(string \<times> stored_run) list"
  svc_idempotency :: "(string \<times> idempotency_record) list"

record principal =
  pr_id :: string
  pr_roles :: "string list option"
  pr_runAgentIds :: "string list option"

section \<open>Idempotency\<close>

definition cache_key :: "string \<Rightarrow> string \<Rightarrow> string \<Rightarrow> string" where
  "cache_key actorId scope key = actorId @ '':'' @ scope @ '':'' @ key"

definition idempotent ::
  "environment \<Rightarrow> string \<Rightarrow> string \<Rightarrow> string \<Rightarrow> json \<Rightarrow> (service, response) action \<Rightarrow> (service, response) action" where
  "idempotent E actorId scope key request operation =
     after (reading (\<lambda>s. map_of (svc_idempotency s) (cache_key actorId scope key))) (\<lambda>previous.
       case previous of
         Some p \<Rightarrow> if ir_requestHash p \<noteq> hash E request then throw ''IDEMPOTENCY_CONFLICT'' else give (ir_response p)
       | None \<Rightarrow>
           after operation (\<lambda>response.
           after (changing (\<lambda>s. s\<lparr>svc_idempotency := map_put (cache_key actorId scope key)
                    \<lparr>ir_requestHash = hash E request, ir_response = response\<rparr> (svc_idempotency s)\<rparr>)) (\<lambda>_.
           give response)))"

end
