(* ===== verification/ScenarioService.thy ===== *)
theory ScenarioService
  imports ServiceRunData
begin

text \<open>
  Scenarios and agents in \<open>apps/api/src/v2-in-memory-service.ts\<close>: authors create scenarios, add versions, validate and
  publish them; participants register agents and their versions. Requests have passed their schemas.
\<close>

section \<open>Lookup\<close>

definition ownedScenario :: "principal \<Rightarrow> string \<Rightarrow> (service, stored_scenario) action" where
  "ownedScenario p scenarioId =
     after (reading (\<lambda>s. map_of (svc_scenarios s) scenarioId)) (\<lambda>found.
       case found of
         None \<Rightarrow> throw ''SCENARIO_NOT_FOUND''
       | Some scenario \<Rightarrow>
           if ss_ownerId scenario \<noteq> pr_id p then throw ''SCENARIO_NOT_FOUND'' else give scenario)"

definition ownedScenarioVersion :: "principal \<Rightarrow> string \<Rightarrow> (service, scenario_version) action" where
  "ownedScenarioVersion p scenarioVersionId =
     after (reading (\<lambda>s. map_of (svc_scenarioVersions s) scenarioVersionId)) (\<lambda>found.
       case found of
         None \<Rightarrow> throw ''SCENARIO_VERSION_NOT_FOUND''
       | Some version \<Rightarrow> after (ownedScenario p (sv_scenarioId version)) (\<lambda>_. give version))"

definition ownedAgent :: "principal \<Rightarrow> string \<Rightarrow> (service, stored_agent) action" where
  "ownedAgent p agentId =
     after (reading (\<lambda>s. map_of (svc_agents s) agentId)) (\<lambda>found.
       case found of
         None \<Rightarrow> throw ''AGENT_NOT_FOUND''
       | Some stored \<Rightarrow> if ag_ownerId (sa_dto stored) \<noteq> pr_id p then throw ''AGENT_NOT_FOUND'' else give stored)"

definition assertDraftScenarioVersion :: "scenario_version \<Rightarrow> (service, unit) action" where
  "assertDraftScenarioVersion version = throw_if (sv_lifecycle version \<noteq> Scenario_DRAFT) ''SCENARIO_STATE_CONFLICT''"

definition assert_version :: "js_number \<Rightarrow> js_number \<Rightarrow> string \<Rightarrow> ('s, unit) action" where
  "assert_version current expected code = throw_if (\<not> js_eq current expected) code"

section \<open>Summaries\<close>

definition stored_versions :: "service \<Rightarrow> stored_scenario \<Rightarrow> scenario_version list" where
  "stored_versions s scenario = List.map_filter (map_of (svc_scenarioVersions s)) (ss_versionIds scenario)"

definition manageScenario :: "service \<Rightarrow> stored_scenario \<Rightarrow> manage_scenario" where
  "manageScenario s scenario =
     (let versions = stored_versions s scenario;
          current = (case ss_currentVersionId scenario of None \<Rightarrow> None | Some i \<Rightarrow> map_of (svc_scenarioVersions s) i)
      in \<lparr>mg_id = ss_id scenario, mg_slug = ss_slug scenario, mg_title = ss_title scenario,
          mg_description = ss_description scenario, mg_region = ss_region scenario, mg_lifecycle = ss_lifecycle scenario,
          mg_currentVersionId = map_option sv_id current,
          mg_publishedVersionCount = length (filter (\<lambda>v. sv_lifecycle v \<noteq> Scenario_DRAFT) versions),
          mg_requiredRoleCount = (case current of None \<Rightarrow> 0 | Some v \<Rightarrow> length (sv_requiredRoles v)),
          mg_minDistinctRequiredAgents = (case current of None \<Rightarrow> Num 0 | Some v \<Rightarrow> sv_minDistinctRequiredAgents v),
          mg_ownerId = ss_ownerId scenario, mg_version = ss_version scenario,
          mg_draftVersionCount = length (filter (\<lambda>v. sv_lifecycle v = Scenario_DRAFT) versions),
          mg_latestValidationStatus = (if versions = [] then NOT_VALIDATED else vn_status (sv_validation (List.last versions))),
          mg_updatedAt = ss_updatedAt scenario\<rparr>)"

text \<open>\<open>None\<close> is the \<open>TypeError\<close> of the assertion \<open>!\<close> on a current version that is not there.\<close>

definition publicScenario :: "service \<Rightarrow> stored_scenario \<Rightarrow> public_scenario option" where
  "publicScenario s scenario =
     (case ss_currentVersionId scenario of
        None \<Rightarrow> None
      | Some i \<Rightarrow>
         map_option (\<lambda>current.
           \<lparr>pc_id = ss_id scenario, pc_slug = ss_slug scenario, pc_title = ss_title scenario,
            pc_description = ss_description scenario, pc_region = ss_region scenario,
            pc_lifecycle = (if ss_lifecycle scenario = Scenario_RETIRED then Scenario_RETIRED else Scenario_PUBLISHED),
            pc_currentVersionId = sv_id current,
            pc_publishedVersionCount = length (filter (\<lambda>i. map_option sv_lifecycle (map_of (svc_scenarioVersions s) i)
                \<noteq> Some Scenario_DRAFT) (ss_versionIds scenario)),
            pc_requiredRoleCount = length (sv_requiredRoles current),
            pc_minDistinctRequiredAgents = sv_minDistinctRequiredAgents current\<rparr>)
           (map_of (svc_scenarioVersions s) i))"

definition publicScenarioVersion :: "scenario_version \<Rightarrow> public_version result" where
  "publicScenarioVersion v =
     (case (sv_contentHash v, sv_publishedAt v) of
        (Some h, Some published) \<Rightarrow>
          if sv_lifecycle v = Scenario_DRAFT then fail ''SCENARIO_VERSION_NOT_FOUND''
          else Inr \<lparr>pv_id = sv_id v, pv_scenarioId = sv_scenarioId v, pv_label = sv_label v, pv_summary = sv_summary v,
             pv_lifecycle = sv_lifecycle v, pv_replayStartAt = sv_replayStartAt v, pv_requiredRoles = sv_requiredRoles v,
             pv_minDistinctRequiredAgents = sv_minDistinctRequiredAgents v, pv_contentHash = h, pv_publishedAt = published\<rparr>
      | _ \<Rightarrow> fail ''SCENARIO_VERSION_NOT_FOUND'')"

section \<open>Queries\<close>

definition is_public :: "stored_scenario \<Rightarrow> bool" where
  "is_public scenario \<longleftrightarrow> ss_lifecycle scenario \<noteq> Scenario_DRAFT \<and> ss_currentVersionId scenario \<noteq> None"

definition listPublicScenarios :: "service \<Rightarrow> public_scenario option list" where
  "listPublicScenarios s = map (publicScenario s) (filter is_public (map snd (svc_scenarios s)))"

definition publicStoredScenario :: "service \<Rightarrow> string \<Rightarrow> stored_scenario result" where
  "publicStoredScenario s scenarioId =
     (case (case map_of (svc_scenarios s) scenarioId of
              Some x \<Rightarrow> Some x
            | None \<Rightarrow> find (\<lambda>x. ss_slug x = scenarioId) (map snd (svc_scenarios s))) of
        None \<Rightarrow> fail ''SCENARIO_NOT_FOUND''
      | Some x \<Rightarrow> if is_public x then Inr x else fail ''SCENARIO_NOT_FOUND'')"

definition getPublicScenario :: "service \<Rightarrow> string \<Rightarrow> (public_scenario option \<times> public_version) result" where
  "getPublicScenario s scenarioId =
     and_then (publicStoredScenario s scenarioId) (\<lambda>scenario.
       case map_of (svc_scenarioVersions s) (case ss_currentVersionId scenario of None \<Rightarrow> [] | Some i \<Rightarrow> i) of
         None \<Rightarrow> fail ''SCENARIO_NOT_FOUND''
       | Some current \<Rightarrow>
           and_then (publicScenarioVersion current) (\<lambda>v. Inr (publicScenario s scenario, v)))"

definition listPublicScenarioVersions :: "service \<Rightarrow> string \<Rightarrow> public_version list result" where
  "listPublicScenarioVersions s scenarioId =
     and_then (publicStoredScenario s scenarioId) (\<lambda>scenario.
       map_result publicScenarioVersion
         (filter (\<lambda>v. sv_lifecycle v \<noteq> Scenario_DRAFT) (stored_versions s scenario)))"

definition getPublicScenarioVersion :: "service \<Rightarrow> string \<Rightarrow> public_version result" where
  "getPublicScenarioVersion s scenarioVersionId =
     (case map_of (svc_scenarioVersions s) scenarioVersionId of
        None \<Rightarrow> fail ''SCENARIO_VERSION_NOT_FOUND''
      | Some v \<Rightarrow> if sv_lifecycle v = Scenario_DRAFT then fail ''SCENARIO_VERSION_NOT_FOUND'' else publicScenarioVersion v)"

definition listManageScenarios :: "service \<Rightarrow> principal \<Rightarrow> manage_scenario list" where
  "listManageScenarios s p = map (manageScenario s) (filter (\<lambda>x. ss_ownerId x = pr_id p) (map snd (svc_scenarios s)))"

definition listAgents :: "service \<Rightarrow> principal \<Rightarrow> agent_identity list" where
  "listAgents s p = filter (\<lambda>a. ag_ownerId a = pr_id p) (map (sa_dto \<circ> snd) (svc_agents s))"

definition getAgentVersion :: "principal \<Rightarrow> string \<Rightarrow> (service, agent_version) action" where
  "getAgentVersion p agentVersionId =
     after (reading (\<lambda>s. map_of (svc_agentVersions s) agentVersionId)) (\<lambda>found.
       case found of
         None \<Rightarrow> throw ''AGENT_VERSION_NOT_FOUND''
       | Some version \<Rightarrow> after (ownedAgent p (av_agentId version)) (\<lambda>_. give version))"

section \<open>Commands\<close>

definition put_scenario :: "stored_scenario \<Rightarrow> service \<Rightarrow> service" where
  "put_scenario x s = s\<lparr>svc_scenarios := map_put (ss_id x) x (svc_scenarios s)\<rparr>"

definition put_version :: "scenario_version \<Rightarrow> service \<Rightarrow> service" where
  "put_version v s = s\<lparr>svc_scenarioVersions := map_put (sv_id v) v (svc_scenarioVersions s)\<rparr>"

definition create_scenario_body ::
  "environment \<Rightarrow> principal \<Rightarrow> create_scenario \<Rightarrow> (service, response) action" where
  "create_scenario_body E p i =
     after (reading (\<lambda>s. list_ex (\<lambda>x. ss_slug x = cs_slug i) (map snd (svc_scenarios s)))) (\<lambda>taken.
     after (throw_if taken ''SCENARIO_STATE_CONFLICT'') (\<lambda>_.
     after (timestamp E) (\<lambda>now.
     after (next_id E) (\<lambda>ident.
       let stored = \<lparr>ss_id = ident, ss_slug = cs_slug i, ss_ownerId = pr_id p, ss_title = cs_title i,
                     ss_description = cs_description i, ss_region = cs_region i, ss_lifecycle = Scenario_DRAFT,
                     ss_currentVersionId = None, ss_version = Num 1, ss_versionIds = [], ss_updatedAt = now\<rparr>
       in after (changing (put_scenario stored)) (\<lambda>_.
          reading (\<lambda>s. Scenario_response (manageScenario s stored)))))))"

definition createScenario :: "environment \<Rightarrow> principal \<Rightarrow> string \<Rightarrow> create_scenario \<Rightarrow> (service, response) action" where
  "createScenario E p idempotencyKey i =
     idempotent E (pr_id p) ''scenario:create'' idempotencyKey (create_scenario_json i)
       (create_scenario_body E p i)"

definition create_version_body ::
  "environment \<Rightarrow> principal \<Rightarrow> string \<Rightarrow> create_scenario_version \<Rightarrow> (service, response) action" where
  "create_version_body E p scenarioId i =
     after (ownedScenario p scenarioId) (\<lambda>scenario.
     after (assert_version (ss_version scenario) (cv_expectedScenarioVersion i) ''SCENARIO_VERSION_CONFLICT'') (\<lambda>_.
     after (timestamp E) (\<lambda>now.
     after (next_id E) (\<lambda>ident.
       let version = \<lparr>sv_id = ident, sv_scenarioId = ss_id scenario, sv_label = cv_label i, sv_summary = cv_summary i,
                      sv_lifecycle = Scenario_DRAFT, sv_replayStartAt = cv_replayStartAt i,
                      sv_requiredRoles = cv_requiredRoles i, sv_minDistinctRequiredAgents = cv_minDistinctRequiredAgents i,
                      sv_contentHash = None,
                      sv_validation = \<lparr>vn_status = NOT_VALIDATED, vn_errors = [], vn_validatedAt = None\<rparr>,
                      sv_version = Num 1, sv_createdAt = now, sv_updatedAt = now, sv_publishedAt = None\<rparr>
       in after (changing (put_version version)) (\<lambda>_.
          after (changing (put_scenario (scenario\<lparr>ss_versionIds := ss_versionIds scenario @ [ident],
                   ss_version := js_add (ss_version scenario) (Num 1), ss_updatedAt := now\<rparr>))) (\<lambda>_.
          give (Scenario_version_response version)))))))"

definition createScenarioVersion ::
  "environment \<Rightarrow> principal \<Rightarrow> string \<Rightarrow> string \<Rightarrow> create_scenario_version \<Rightarrow> (service, response) action" where
  "createScenarioVersion E p scenarioId idempotencyKey i =
     idempotent E (pr_id p) (''scenario:'' @ scenarioId @ '':version:create'') idempotencyKey (create_scenario_version_json i)
       (create_version_body E p scenarioId i)"

text \<open>The errors of the validation, in the order in which the code adds them.\<close>

definition validation_errors :: "scenario_version \<Rightarrow> validation_issue list" where
  "validation_errors v =
     (let roleIds = map rd_id (sv_requiredRoles v)
      in (if length roleIds < 2 then [REQUIRED_ROLES_MISSING] else [])
         @ (if card (set roleIds) \<noteq> length roleIds then [DUPLICATE_ROLE_SLOT] else [])
         @ (if js_lt (sv_minDistinctRequiredAgents v) (Num 2)
               \<or> js_lt (Num (of_nat (card (set roleIds)))) (sv_minDistinctRequiredAgents v)
            then [DISTINCT_AGENT_QUORUM_INVALID] else []))"

definition validate_version_body ::
  "environment \<Rightarrow> principal \<Rightarrow> string \<Rightarrow> js_number \<Rightarrow> (service, response) action" where
  "validate_version_body E p scenarioVersionId expectedVersion =
     after (ownedScenarioVersion p scenarioVersionId) (\<lambda>current.
     after (assertDraftScenarioVersion current) (\<lambda>_.
     after (assert_version (sv_version current) expectedVersion ''SCENARIO_VERSION_CONFLICT'') (\<lambda>_.
     after (timestamp E) (\<lambda>now.
       let errors = validation_errors current;
           version = current\<lparr>
             sv_validation := \<lparr>vn_status = (if length errors = 0 then VALID else INVALID), vn_errors = errors,
                               vn_validatedAt = Some now\<rparr>,
             sv_version := js_add (sv_version current) (Num 1), sv_updatedAt := now\<rparr>
       in after (changing (put_version version)) (\<lambda>_. give (Scenario_version_response version))))))"

definition validateScenarioVersion ::
  "environment \<Rightarrow> principal \<Rightarrow> string \<Rightarrow> string \<Rightarrow> js_number \<Rightarrow> (service, response) action" where
  "validateScenarioVersion E p scenarioVersionId idempotencyKey expectedVersion =
     idempotent E (pr_id p) (''scenario-version:'' @ scenarioVersionId @ '':validate'') idempotencyKey
         (version_command_json expectedVersion)
       (validate_version_body E p scenarioVersionId expectedVersion)"

definition scenario_content_json :: "scenario_version \<Rightarrow> json" where
  "scenario_content_json v = JObject
     [(''scenarioId'', JString (sv_scenarioId v)), (''label'', JString (sv_label v)), (''summary'', localized_json (sv_summary v)),
      (''replayStartAt'', JString (sv_replayStartAt v)), (''requiredRoles'', JArray (map role_json (sv_requiredRoles v))),
      (''minDistinctRequiredAgents'', JNumber (sv_minDistinctRequiredAgents v))]"

definition publish_version_body ::
  "environment \<Rightarrow> principal \<Rightarrow> string \<Rightarrow> js_number \<Rightarrow> (service, response) action" where
  "publish_version_body E p scenarioVersionId expectedVersion =
     after (ownedScenarioVersion p scenarioVersionId) (\<lambda>current.
     after (assertDraftScenarioVersion current) (\<lambda>_.
     after (assert_version (sv_version current) expectedVersion ''SCENARIO_VERSION_CONFLICT'') (\<lambda>_.
     after (throw_if (vn_status (sv_validation current) \<noteq> VALID) ''SCENARIO_STATE_CONFLICT'') (\<lambda>_.
     after (ownedScenario p (sv_scenarioId current)) (\<lambda>scenario.
     after (timestamp E) (\<lambda>now.
       let version = current\<lparr>sv_lifecycle := Scenario_PUBLISHED, sv_contentHash := Some (hash E (scenario_content_json current)),
             sv_version := js_add (sv_version current) (Num 1), sv_updatedAt := now, sv_publishedAt := Some now\<rparr>
       in after (changing (put_version version)) (\<lambda>_.
          after (changing (put_scenario (scenario\<lparr>ss_lifecycle := Scenario_PUBLISHED,
                   ss_currentVersionId := Some (sv_id version), ss_version := js_add (ss_version scenario) (Num 1),
                   ss_updatedAt := now\<rparr>))) (\<lambda>_.
          give (Scenario_version_response version)))))))))"

definition publishScenarioVersion ::
  "environment \<Rightarrow> principal \<Rightarrow> string \<Rightarrow> string \<Rightarrow> js_number \<Rightarrow> (service, response) action" where
  "publishScenarioVersion E p scenarioVersionId idempotencyKey expectedVersion =
     idempotent E (pr_id p) (''scenario-version:'' @ scenarioVersionId @ '':publish'') idempotencyKey
         (version_command_json expectedVersion)
       (publish_version_body E p scenarioVersionId expectedVersion)"

definition create_agent_body ::
  "environment \<Rightarrow> principal \<Rightarrow> create_agent \<Rightarrow> (service, response) action" where
  "create_agent_body E p i =
     after (timestamp E) (\<lambda>now.
     after (next_id E) (\<lambda>ident.
       let agent = \<lparr>ag_id = ident, ag_ownerId = pr_id p, ag_displayName = cg_displayName i,
                    ag_description = cg_description i, ag_lifecycle = Agent_ACTIVE, ag_version = Num 1,
                    ag_createdAt = now, ag_updatedAt = now\<rparr>
       in after (changing (\<lambda>s. s\<lparr>svc_agents := map_put ident \<lparr>sa_dto = agent, sa_versionIds = []\<rparr> (svc_agents s)\<rparr>)) (\<lambda>_.
          give (Agent_response agent))))"

definition createAgent :: "environment \<Rightarrow> principal \<Rightarrow> string \<Rightarrow> create_agent \<Rightarrow> (service, response) action" where
  "createAgent E p idempotencyKey i =
     idempotent E (pr_id p) ''agent:create'' idempotencyKey (create_agent_json i)
       (create_agent_body E p i)"

definition create_agent_version_body ::
  "environment \<Rightarrow> principal \<Rightarrow> string \<Rightarrow> create_agent_version \<Rightarrow> (service, response) action" where
  "create_agent_version_body E p agentId i =
     after (ownedAgent p agentId) (\<lambda>stored.
     after (assert_version (ag_version (sa_dto stored)) (cw_expectedAgentVersion i) ''AGENT_VERSION_CONFLICT'') (\<lambda>_.
     after (throw_if (ag_lifecycle (sa_dto stored) \<noteq> Agent_ACTIVE) ''AGENT_VERSION_CONFLICT'') (\<lambda>_.
     after (timestamp E) (\<lambda>publishedAt.
     after (next_id E) (\<lambda>ident.
       let version = \<lparr>av_id = ident, av_agentId = agentId, av_content = cw_content i, av_lifecycle = Version_PUBLISHED,
             av_contentHash = hash E (JObject ((''agentId'', JString agentId) # agent_content_json (cw_content i))),
             av_version = Num 1, av_publishedAt = publishedAt\<rparr>;
           next = \<lparr>sa_dto = (sa_dto stored)\<lparr>ag_version := js_add (ag_version (sa_dto stored)) (Num 1), ag_updatedAt := publishedAt\<rparr>,
                   sa_versionIds = sa_versionIds stored @ [ident]\<rparr>
       in after (changing (\<lambda>s. s\<lparr>svc_agentVersions := map_put ident version (svc_agentVersions s),
                                  svc_agents := map_put agentId next (svc_agents s)\<rparr>)) (\<lambda>_.
          give (Agent_version_response version)))))))"

definition createAgentVersion ::
  "environment \<Rightarrow> principal \<Rightarrow> string \<Rightarrow> string \<Rightarrow> create_agent_version \<Rightarrow> (service, response) action" where
  "createAgentVersion E p agentId idempotencyKey i =
     idempotent E (pr_id p) (''agent:'' @ agentId @ '':version:create'') idempotencyKey (create_agent_version_json i)
       (create_agent_version_body E p agentId i)"

section \<open>The first scenario\<close>

text \<open>The roles and texts of the seeded scenario are arguments: they are texts in two languages.\<close>

definition DEFAULT_V2_SCENARIO_ID :: string where
  "DEFAULT_V2_SCENARIO_ID = ''jing-jin-ji-yongding-river''"

definition DEFAULT_V2_SCENARIO_VERSION_ID :: string where
  "DEFAULT_V2_SCENARIO_VERSION_ID = ''jjj-yongding-collaboration-2023-v2''"

definition default_role :: "environment \<Rightarrow> string \<Rightarrow> string \<Rightarrow> string \<Rightarrow> string \<Rightarrow> role_definition" where
  "default_role E i n m a = \<lparr>rd_id = i, rd_name = bilingual E n, rd_mission = bilingual E m, rd_expectedArtifact = bilingual E a\<rparr>"

definition defaultRoles :: "environment \<Rightarrow> role_definition list" where
  "defaultRoles E =
     [default_role E ''water-evidence'' ''Water evidence agent''
        ''Curate official flows, provenance, timing, and revisions.'' ''Evidence register and inflow summary'',
      default_role E ''hydraulic-constraints'' ''Hydraulic constraints agent''
        ''Analyze channel, section, loss, and propagation constraints.'' ''Section response and capacity constraints'',
      default_role E ''ecological-target'' ''Ecological target agent''
        ''Analyze target ranges, continuity, and water-quality boundaries.'' ''Ecological target risks and priorities'',
      default_role E ''dispatch-coordination'' ''Dispatch coordination agent''
        ''Coordinate a team submission from three explicitly shared artifacts.'' ''Candidate joint plan and team submission'']"

definition seed_base :: "environment \<Rightarrow> scenario_version" where
  "seed_base E =
     \<lparr>sv_id = DEFAULT_V2_SCENARIO_VERSION_ID, sv_scenarioId = DEFAULT_V2_SCENARIO_ID, sv_label = ''v2.0.0'',
      sv_summary = bilingual E ''2023 Jing-Jin-Ji Yongding four-role joint dispatch exercise'',
      sv_lifecycle = Scenario_PUBLISHED, sv_replayStartAt = ''2023-03-22T07:00:00.000Z'',
      sv_requiredRoles = defaultRoles E, sv_minDistinctRequiredAgents = Num 4, sv_contentHash = None,
      sv_validation = \<lparr>vn_status = VALID, vn_errors = [], vn_validatedAt = Some ''2026-08-20T00:00:00.000Z''\<rparr>,
      sv_version = Num 1, sv_createdAt = ''2026-08-20T00:00:00.000Z'', sv_updatedAt = ''2026-08-20T00:00:00.000Z'',
      sv_publishedAt = Some ''2026-08-20T00:00:00.000Z''\<rparr>"

definition seed_version :: "environment \<Rightarrow> scenario_version" where
  "seed_version E = (let b = seed_base E in b\<lparr>sv_contentHash := Some (hash E (JObject
     ((''id'', JString (sv_id b)) # (case scenario_content_json b of JObject es \<Rightarrow> es | _ \<Rightarrow> []))))\<rparr>)"

definition seed_scenario :: "environment \<Rightarrow> stored_scenario" where
  "seed_scenario E =
     \<lparr>ss_id = DEFAULT_V2_SCENARIO_ID, ss_slug = DEFAULT_V2_SCENARIO_ID, ss_ownerId = ''system'',
      ss_title = bilingual E ''2023 Jing-Jin-Ji Yongding ecological replenishment and multi-source dispatch'',
      ss_description = bilingual E ''A fact-anchored synthetic case for four external agents training in parallel through Skill + HTTP/MCP.'',
      ss_region = \<lparr>lt_zh = env_chinese E ''region'', lt_en = ''Jing-Jin-Ji '' @ [CHR 0xB7] @ '' Yongding River''\<rparr>,
      ss_lifecycle = Scenario_PUBLISHED, ss_currentVersionId = Some DEFAULT_V2_SCENARIO_VERSION_ID, ss_version = Num 1,
      ss_versionIds = [DEFAULT_V2_SCENARIO_VERSION_ID], ss_updatedAt = ''2026-08-20T00:00:00.000Z''\<rparr>"

text \<open>The constructor: empty maps, then \<open>seedYongdingScenario\<close>.\<close>

definition new_service :: "environment \<Rightarrow> service" where
  "new_service E =
     \<lparr>tk_ids = 0, tk_clock = 0, tk_tokens = 0, svc_scenarios = [(DEFAULT_V2_SCENARIO_ID, seed_scenario E)],
      svc_scenarioVersions = [(DEFAULT_V2_SCENARIO_VERSION_ID, seed_version E)], svc_agents = [], svc_agentVersions = [],
      svc_runs = [], svc_idempotency = []\<rparr>"

end
