(* ===== verification/ScenarioAuthoring.thy ===== *)
theory ScenarioAuthoring
  imports ScenarioService
begin

text \<open>
  Facts about the scenarios and agents of the service: that answers of requests are recorded and kept, what becomes of a
  published version, and what readers of the public scenarios find. Identifiers are used once: the factory is \<open>randomUUID\<close>.
\<close>

section \<open>Commands\<close>

datatype authoring_command =
  Create_scenario principal string create_scenario
| Create_version principal string string create_scenario_version
| Validate_version principal string string js_number
| Publish_version principal string string js_number
| Create_agent principal string create_agent
| Create_agent_version principal string string create_agent_version

fun exec_authoring :: "environment \<Rightarrow> authoring_command \<Rightarrow> (service, response) action" where
  "exec_authoring E (Create_scenario p k i) = createScenario E p k i"
| "exec_authoring E (Create_version p n k i) = createScenarioVersion E p n k i"
| "exec_authoring E (Validate_version p n k v) = validateScenarioVersion E p n k v"
| "exec_authoring E (Publish_version p n k v) = publishScenarioVersion E p n k v"
| "exec_authoring E (Create_agent p k i) = createAgent E p k i"
| "exec_authoring E (Create_agent_version p n k i) = createAgentVersion E p n k i"

text \<open>The state after a sequence of commands, of which any may fail.\<close>

definition authored :: "environment \<Rightarrow> service \<Rightarrow> authoring_command list \<Rightarrow> service" where
  "authored E s cs = fold (\<lambda>c s. snd (exec_authoring E c s)) cs s"

lemma authored_simps [simp]:
  "authored E s [] = s" "authored E s (c # cs) = authored E (snd (exec_authoring E c s)) cs"
  "authored E s (cs @ ds) = authored E (authored E s cs) ds"
  by (simp_all add: authored_def)

section \<open>Idempotency\<close>

definition records_kept :: "service \<Rightarrow> service \<Rightarrow> bool" where
  "records_kept s t \<longleftrightarrow> map_of (svc_idempotency s) \<subseteq>\<^sub>m map_of (svc_idempotency t)"

definition same_records :: "service \<Rightarrow> service \<Rightarrow> bool" where
  "same_records s t \<longleftrightarrow> svc_idempotency t = svc_idempotency s"

interpretation records: evolution records_kept
  by unfold_locales (auto simp: records_kept_def intro: map_le_trans)

interpretation untouched: evolution same_records
  by unfold_locales (auto simp: same_records_def)

lemma idempotent_keeps_records:
  assumes "evolves same_records operation"
  shows "evolves records_kept (idempotent E a sc k request operation)"
proof (rule evolvesI)
  fix s r t
  assume run: "idempotent E a sc k request operation s = (r, t)"
  show "records_kept s t"
  proof (cases "map_of (svc_idempotency s) (cache_key a sc k)")
    case (Some p)
    then have "t = s" using run by (auto simp: idempotent_def action_simps split: if_splits)
    then show ?thesis by (simp add: records.stays)
  next
    case None
    obtain r' u where o: "operation s = (r', u)" by fastforce
    have u: "svc_idempotency u = svc_idempotency s" using evolvesD [OF assms o] by (simp add: same_records_def)
    show ?thesis using run None o u
      by (cases r') (auto simp: idempotent_def action_simps records_kept_def map_le_def)
  qed
qed

text \<open>The operation of a request that has been answered is not run again.\<close>

lemma idempotent_recorded:
  assumes "map_of (svc_idempotency s) (cache_key a sc k) = Some p"
  shows "idempotent E a sc k request operation s =
    (if ir_requestHash p \<noteq> hash E request then fail ''IDEMPOTENCY_CONFLICT'' else Inr (ir_response p), s)"
  using assms by (simp add: idempotent_def action_simps)

lemma idempotent_records:
  assumes "idempotent E a sc k request operation s = (Inr r, t)"
  shows "map_of (svc_idempotency t) (cache_key a sc k) = Some \<lparr>ir_requestHash = hash E request, ir_response = r\<rparr>"
proof (cases "map_of (svc_idempotency s) (cache_key a sc k)")
  case (Some p)
  then show ?thesis using assms by (auto simp: idempotent_recorded split: if_splits)
next
  case None
  then show ?thesis using assms by (auto simp: idempotent_def action_simps split: prod.splits sum.splits)
qed

lemma tick_same_records:
  "evolves same_records (timestamp E)" "evolves same_records (next_id E)"
  by (simp_all add: evolves_def same_records_def timestamp_def next_id_def)

lemma bodies_same_records:
  "evolves same_records (create_scenario_body E p i1)"
  "evolves same_records (create_version_body E p n i2)"
  "evolves same_records (validate_version_body E p n v)"
  "evolves same_records (publish_version_body E p n v)"
  "evolves same_records (create_agent_body E p i3)"
  "evolves same_records (create_agent_version_body E p n i4)"
  unfolding create_scenario_body_def create_version_body_def validate_version_body_def publish_version_body_def
    create_agent_body_def create_agent_version_body_def ownedScenarioVersion_def ownedScenario_def ownedAgent_def
    assertDraftScenarioVersion_def assert_version_def
  by (intro untouched.rules tick_same_records untouched.changing; simp add: same_records_def put_scenario_def put_version_def)+

lemma authoring_keeps_records: "evolves records_kept (exec_authoring E c)"
  by (cases c) (simp_all add: createScenario_def createScenarioVersion_def validateScenarioVersion_def
    publishScenarioVersion_def createAgent_def createAgentVersion_def idempotent_keeps_records bodies_same_records)

section \<open>An example\<close>

definition demo_environment :: environment where
  "demo_environment = \<lparr>env_idFactory = (\<lambda>n. replicate (Suc n) CHR ''x''), env_now = (\<lambda>n. 1000 * int n),
     env_leaseTokenFactory = (\<lambda>n. ''wlt_'' @ replicate n CHR ''t''), env_sha256 = (\<lambda>s. s), env_chinese = (\<lambda>s. s)\<rparr>"

definition demo_text :: localized where
  "demo_text = \<lparr>lt_zh = ''t'', lt_en = ''t''\<rparr>"

definition demo_author :: principal where
  "demo_author = \<lparr>pr_id = ''author'', pr_roles = None, pr_runAgentIds = None\<rparr>"

definition demo_role :: "string \<Rightarrow> role_definition" where
  "demo_role i = \<lparr>rd_id = i, rd_name = demo_text, rd_mission = demo_text, rd_expectedArtifact = demo_text\<rparr>"

definition demo_version :: "js_number \<Rightarrow> create_scenario_version" where
  "demo_version q = \<lparr>cv_expectedScenarioVersion = Num 1, cv_label = ''v1'', cv_summary = demo_text,
     cv_replayStartAt = ''2024-01-01T00:00:00Z'', cv_minDistinctRequiredAgents = q,
     cv_requiredRoles = [demo_role ''scout'', demo_role ''judge'']\<rparr>"

definition demo_scenario :: create_scenario where
  "demo_scenario = \<lparr>cs_slug = ''flood'', cs_title = demo_text, cs_description = demo_text, cs_region = demo_text\<rparr>"

text \<open>Evaluation of the examples, with hashes and times left as they are.\<close>

lemmas demo_simps = createScenario_def createScenarioVersion_def validateScenarioVersion_def publishScenarioVersion_def
  create_scenario_body_def create_version_body_def validate_version_body_def publish_version_body_def
  ownedScenario_def ownedScenarioVersion_def assertDraftScenarioVersion_def assert_version_def Let_def action_simps
  idempotent_def cache_key_def next_id_def timestamp_def put_scenario_def put_version_def validation_errors_def
  new_service_def seed_scenario_def seed_version_def seed_base_def DEFAULT_V2_SCENARIO_ID_def DEFAULT_V2_SCENARIO_VERSION_ID_def
  demo_environment_def demo_author_def demo_scenario_def demo_version_def demo_role_def

section \<open>Published versions\<close>

definition used_ids :: "environment \<Rightarrow> service \<Rightarrow> string set" where
  "used_ids E s = env_idFactory E ` {..<tk_ids s} \<union> {DEFAULT_V2_SCENARIO_ID, DEFAULT_V2_SCENARIO_VERSION_ID}"

definition unique_ids :: "environment \<Rightarrow> bool" where
  "unique_ids E \<longleftrightarrow> inj (env_idFactory E)
     \<and> range (env_idFactory E) \<inter> {DEFAULT_V2_SCENARIO_ID, DEFAULT_V2_SCENARIO_VERSION_ID} = {}"

definition version_ok :: "service \<Rightarrow> string \<Rightarrow> scenario_version \<Rightarrow> bool" where
  "version_ok s i v \<longleftrightarrow> sv_id v = i \<and> map_of (svc_scenarios s) (sv_scenarioId v) \<noteq> None
     \<and> (vn_status (sv_validation v) = VALID \<longrightarrow> validation_errors v = [])
     \<and> (sv_lifecycle v \<noteq> Scenario_DRAFT \<longrightarrow> sv_lifecycle v = Scenario_PUBLISHED \<and> vn_status (sv_validation v) = VALID
          \<and> sv_contentHash v \<noteq> None \<and> sv_publishedAt v \<noteq> None)"

definition scenario_ok :: "service \<Rightarrow> string \<Rightarrow> stored_scenario \<Rightarrow> bool" where
  "scenario_ok s i x \<longleftrightarrow> ss_id x = i
     \<and> (case ss_currentVersionId x of None \<Rightarrow> ss_lifecycle x = Scenario_DRAFT
        | Some c \<Rightarrow> ss_lifecycle x = Scenario_PUBLISHED
            \<and> (\<exists>v. map_of (svc_scenarioVersions s) c = Some v \<and> sv_lifecycle v = Scenario_PUBLISHED \<and> sv_scenarioId v = i))"

definition authoring_ok :: "environment \<Rightarrow> service \<Rightarrow> bool" where
  "authoring_ok E s \<longleftrightarrow>
     dom (map_of (svc_scenarios s)) \<union> dom (map_of (svc_scenarioVersions s)) \<subseteq> used_ids E s
     \<and> (\<forall>i v. map_of (svc_scenarioVersions s) i = Some v \<longrightarrow> version_ok s i v)
     \<and> (\<forall>i x. map_of (svc_scenarios s) i = Some x \<longrightarrow> scenario_ok s i x)"

definition keeps_published :: "service \<Rightarrow> service \<Rightarrow> bool" where
  "keeps_published s t \<longleftrightarrow> (\<forall>i v. map_of (svc_scenarioVersions s) i = Some v \<longrightarrow> sv_lifecycle v = Scenario_PUBLISHED \<longrightarrow>
     map_of (svc_scenarioVersions t) i = Some v)"

text \<open>What a command does to the state when it succeeds; when it fails it does nothing.\<close>

definition clocked :: "service \<Rightarrow> service" where
  "clocked s = s\<lparr>tk_clock := tk_clock s + 1\<rparr>"

definition identified :: "service \<Rightarrow> service" where
  "identified s = s\<lparr>tk_ids := tk_ids s + 1\<rparr>"

lemma tick_fields [simp]:
  "svc_scenarios (clocked s) = svc_scenarios s" "svc_scenarioVersions (clocked s) = svc_scenarioVersions s"
  "svc_idempotency (clocked s) = svc_idempotency s" "tk_ids (clocked s) = tk_ids s"
  "svc_scenarios (identified s) = svc_scenarios s" "svc_scenarioVersions (identified s) = svc_scenarioVersions s"
  "svc_idempotency (identified s) = svc_idempotency s" "tk_ids (identified s) = Suc (tk_ids s)"
  by (simp_all add: clocked_def identified_def)

lemma put_fields [simp]:
  "svc_scenarios (put_scenario x s) = map_put (ss_id x) x (svc_scenarios s)"
  "svc_scenarioVersions (put_scenario x s) = svc_scenarioVersions s" "tk_ids (put_scenario x s) = tk_ids s"
  "svc_scenarios (put_version v s) = svc_scenarios s"
  "svc_scenarioVersions (put_version v s) = map_put (sv_id v) v (svc_scenarioVersions s)" "tk_ids (put_version v s) = tk_ids s"
  by (simp_all add: put_scenario_def put_version_def)

lemma tick_run [action_simps]:
  "next_id E s = (Inr (env_idFactory E (tk_ids s)), identified s)"
  "timestamp E s = (Inr (toISOString (env_now E (tk_clock s))), clocked s)"
  by (simp_all add: next_id_def timestamp_def identified_def clocked_def)

lemmas authoring_defs = ownedScenarioVersion_def ownedScenario_def assertDraftScenarioVersion_def assert_version_def Let_def

lemma after_timestamp: "after (timestamp E) f s = f (toISOString (env_now E (tk_clock s))) (clocked s)"
  by (simp add: action_simps)

lemma after_next_id: "after (next_id E) f s = f (env_idFactory E (tk_ids s)) (identified s)"
  by (simp add: action_simps)

lemma last_step: "give x s = (Inr x, s)" "reading g s = (Inr (g s), s)"
  by (simp_all add: action_simps)

lemmas after_steps = after_guard after_reading after_changing after_give after_timestamp after_next_id after_throw last_step

lemma after_ownedScenario:
  "after (ownedScenario p n) f s =
     (case map_of (svc_scenarios s) n of
        None \<Rightarrow> (fail ''SCENARIO_NOT_FOUND'', s)
      | Some x \<Rightarrow> if ss_ownerId x \<noteq> pr_id p then (fail ''SCENARIO_NOT_FOUND'', s) else f x s)"
  by (simp add: ownedScenario_def after_assoc after_steps split: option.splits)

lemma after_ownedScenarioVersion:
  "after (ownedScenarioVersion p n) f s =
     (case map_of (svc_scenarioVersions s) n of
        None \<Rightarrow> (fail ''SCENARIO_VERSION_NOT_FOUND'', s)
      | Some v \<Rightarrow> after (ownedScenario p (sv_scenarioId v)) (\<lambda>_. f v) s)"
  by (simp add: ownedScenarioVersion_def after_assoc after_steps split: option.splits)

lemma create_scenario_outcome:
  assumes "create_scenario_body E p i s = (r, t)" and "t \<noteq> s"
  shows "\<exists>x. t = put_scenario x (identified (clocked s)) \<and> ss_id x = env_idFactory E (tk_ids s)
    \<and> ss_currentVersionId x = None \<and> ss_lifecycle x = Scenario_DRAFT"
  using assms unfolding create_scenario_body_def Let_def after_steps
  by (clarsimp split: if_splits) ((intro exI conjI, rule refl, (simp; fail)+)+)

lemma create_version_outcome:
  assumes "create_version_body E p n i s = (r, t)" and "t \<noteq> s"
  shows "\<exists>x x' v. t = put_scenario x' (put_version v (identified (clocked s)))
    \<and> map_of (svc_scenarios s) n = Some x \<and> ss_id x' = ss_id x
    \<and> ss_currentVersionId x' = ss_currentVersionId x \<and> ss_lifecycle x' = ss_lifecycle x
    \<and> sv_id v = env_idFactory E (tk_ids s) \<and> sv_scenarioId v = ss_id x \<and> sv_lifecycle v = Scenario_DRAFT
    \<and> vn_status (sv_validation v) = NOT_VALIDATED"
  using assms unfolding create_version_body_def assert_version_def Let_def after_ownedScenario after_steps
  by (clarsimp split: if_split_asm option.split_asm) ((intro exI conjI, rule refl, (simp; fail)+)+)

lemma validation_errors_update [simp]:
  "validation_errors (v\<lparr>sv_validation := a, sv_version := b, sv_updatedAt := c\<rparr>) = validation_errors v"
  "validation_errors (v\<lparr>sv_lifecycle := l, sv_contentHash := h, sv_version := b, sv_updatedAt := c, sv_publishedAt := d\<rparr>) =
   validation_errors v"
  by (simp_all add: validation_errors_def)

lemma validate_version_outcome:
  assumes "validate_version_body E p n e s = (r, t)" and "t \<noteq> s"
  shows "\<exists>v v'. t = put_version v' (clocked s) \<and> map_of (svc_scenarioVersions s) n = Some v
    \<and> sv_lifecycle v = Scenario_DRAFT
    \<and> sv_id v' = sv_id v \<and> sv_scenarioId v' = sv_scenarioId v \<and> sv_lifecycle v' = Scenario_DRAFT
    \<and> (vn_status (sv_validation v') = VALID \<longrightarrow> validation_errors v' = [])"
  using assms
  unfolding validate_version_body_def assert_version_def assertDraftScenarioVersion_def Let_def after_ownedScenarioVersion
    after_ownedScenario after_steps
  by (clarsimp split: if_split_asm option.split_asm) ((intro exI conjI, rule refl, (simp; fail)+)+)

lemma publish_version_outcome:
  assumes "publish_version_body E p n e s = (r, t)" and "t \<noteq> s"
  shows "\<exists>v v' x x'. t = put_scenario x' (put_version v' (clocked s))
    \<and> map_of (svc_scenarioVersions s) n = Some v \<and> sv_lifecycle v = Scenario_DRAFT
    \<and> vn_status (sv_validation v) = VALID \<and> validation_errors v' = validation_errors v
    \<and> sv_id v' = sv_id v \<and> sv_scenarioId v' = sv_scenarioId v \<and> sv_lifecycle v' = Scenario_PUBLISHED
    \<and> sv_validation v' = sv_validation v \<and> sv_contentHash v' \<noteq> None \<and> sv_publishedAt v' \<noteq> None
    \<and> map_of (svc_scenarios s) (sv_scenarioId v) = Some x \<and> ss_id x' = ss_id x
    \<and> ss_currentVersionId x' = Some (sv_id v') \<and> ss_lifecycle x' = Scenario_PUBLISHED"
  using assms
  unfolding publish_version_body_def assert_version_def assertDraftScenarioVersion_def Let_def after_ownedScenarioVersion
    after_ownedScenario after_steps
  by (clarsimp split: if_split_asm option.split_asm) ((intro exI conjI, rule refl, (simp; fail)+)+)


section \<open>The invariant\<close>

lemma used_ids_mono: "tk_ids s \<le> tk_ids t \<Longrightarrow> used_ids E s \<subseteq> used_ids E t"
  by (auto simp: used_ids_def)

lemma fresh_id:
  assumes "unique_ids E" and "authoring_ok E s"
  shows "map_of (svc_scenarios s) (env_idFactory E (tk_ids s)) = None"
    and "map_of (svc_scenarioVersions s) (env_idFactory E (tk_ids s)) = None"
    and "env_idFactory E (tk_ids s) \<in> used_ids E (identified u) \<or> tk_ids u \<noteq> tk_ids s"
proof -
  have "env_idFactory E (tk_ids s) \<notin> used_ids E s"
  proof -
    have "env_idFactory E (tk_ids s) \<in> range (env_idFactory E)" by (rule rangeI)
    moreover have "env_idFactory E (tk_ids s) \<notin> env_idFactory E ` {..<tk_ids s}"
      using assms(1) by (auto simp: unique_ids_def dest: injD)
    ultimately show ?thesis using assms(1) by (auto simp: used_ids_def unique_ids_def disjoint_iff simp del: range_eqI rangeI)
  qed
  then show "map_of (svc_scenarios s) (env_idFactory E (tk_ids s)) = None"
    "map_of (svc_scenarioVersions s) (env_idFactory E (tk_ids s)) = None"
    using assms(2) by (auto simp: authoring_ok_def dom_def)
  show "env_idFactory E (tk_ids s) \<in> used_ids E (identified u) \<or> tk_ids u \<noteq> tk_ids s"
    by (auto simp: used_ids_def)
qed

lemma authoring_okD:
  assumes "authoring_ok E s"
  shows "map_of (svc_scenarioVersions s) i = Some v \<Longrightarrow> version_ok s i v"
    and "map_of (svc_scenarios s) i = Some x \<Longrightarrow> scenario_ok s i x"
    and "map_of (svc_scenarioVersions s) i = Some v \<Longrightarrow> i \<in> used_ids E s"
    and "map_of (svc_scenarios s) i = Some x \<Longrightarrow> i \<in> used_ids E s"
  using assms by (auto simp: authoring_ok_def dom_def)

text \<open>Adding or replacing a version or a scenario keeps the invariant.\<close>

lemma put_version_ok:
  assumes ok: "authoring_ok E s" and v: "version_ok s (sv_id v) v" and used: "sv_id v \<in> used_ids E s"
    and new: "\<And>w. map_of (svc_scenarioVersions s) (sv_id v) = Some w \<Longrightarrow> sv_lifecycle w = Scenario_DRAFT"
  shows "authoring_ok E (put_version v s) \<and> keeps_published s (put_version v s)"
proof -
  have "used_ids E (put_version v s) = used_ids E s" by (simp add: used_ids_def)
  moreover have "version_ok (put_version v s) i w = version_ok s i w" for i w by (simp add: version_ok_def)
  moreover have "scenario_ok (put_version v s) i x" if "scenario_ok s i x" for i x
    using that new by (fastforce simp: scenario_ok_def split: option.splits)
  ultimately have "authoring_ok E (put_version v s)"
    using ok v used unfolding authoring_ok_def by (auto split: if_splits)
  then show ?thesis using new by (auto simp: keeps_published_def)
qed

lemma put_scenario_ok:
  assumes ok: "authoring_ok E s" and x: "scenario_ok s (ss_id x) x" and used: "ss_id x \<in> used_ids E s"
  shows "authoring_ok E (put_scenario x s) \<and> keeps_published s (put_scenario x s)"
proof -
  have "used_ids E (put_scenario x s) = used_ids E s" by (simp add: used_ids_def)
  moreover have "version_ok (put_scenario x s) i v" if "version_ok s i v" for i v
    using that by (auto simp: version_ok_def)
  moreover have "scenario_ok (put_scenario x s) i y = scenario_ok s i y" for i y
    by (simp add: scenario_ok_def split: option.split)
  ultimately have "authoring_ok E (put_scenario x s)"
    using ok x used unfolding authoring_ok_def by (auto split: if_splits)
  then show ?thesis by (simp add: keeps_published_def)
qed

lemma tick_ok:
  assumes "authoring_ok E s"
  shows "authoring_ok E (clocked s) \<and> keeps_published s (clocked s)"
    and "authoring_ok E (identified s) \<and> keeps_published s (identified s)"
proof -
  have "scenario_ok (clocked s) = scenario_ok s" "scenario_ok (identified s) = scenario_ok s"
    "version_ok (clocked s) = version_ok s" "version_ok (identified s) = version_ok s"
    by (auto simp: scenario_ok_def version_ok_def fun_eq_iff split: option.split)
  moreover have "used_ids E s \<subseteq> used_ids E (identified s)" by (rule used_ids_mono) simp
  moreover have "used_ids E (clocked s) = used_ids E s" by (simp add: used_ids_def)
  ultimately show "authoring_ok E (clocked s) \<and> keeps_published s (clocked s)"
    "authoring_ok E (identified s) \<and> keeps_published s (identified s)"
    using assms by (auto simp: authoring_ok_def keeps_published_def)
qed

interpretation published: evolution keeps_published
  by unfold_locales (auto simp: keeps_published_def)

lemma steps_ok:
  "authoring_ok E t \<and> keeps_published s t \<Longrightarrow> authoring_ok E u \<and> keeps_published t u \<Longrightarrow> authoring_ok E u \<and> keeps_published s u"
  using published.goes_on by blast


lemma create_scenario_ok:
  assumes "unique_ids E" and "authoring_ok E s" and "create_scenario_body E p i s = (r, t)"
  shows "authoring_ok E t \<and> keeps_published s t"
proof (cases "t = s")
  case False
  obtain x where t: "t = put_scenario x (identified (clocked s))" and x: "ss_id x = env_idFactory E (tk_ids s)"
    "ss_currentVersionId x = None" "ss_lifecycle x = Scenario_DRAFT"
    using create_scenario_outcome [OF assms(3) False] by blast
  have "authoring_ok E (identified (clocked s)) \<and> keeps_published s (identified (clocked s))"
    using steps_ok [OF tick_ok(1) tick_ok(2)] assms(2) tick_ok(1) by blast
  moreover from this have "authoring_ok E t \<and> keeps_published (identified (clocked s)) t"
    unfolding t by (intro put_scenario_ok) (simp_all add: x scenario_ok_def used_ids_def)
  ultimately show ?thesis by (rule steps_ok)
qed (use assms(2) published.stays in blast)

lemma create_version_ok:
  assumes "unique_ids E" and "authoring_ok E s" and "create_version_body E p n i s = (r, t)"
  shows "authoring_ok E t \<and> keeps_published s t"
proof (cases "t = s")
  case False
  let ?s = "identified (clocked s)"
  obtain x x' v where t: "t = put_scenario x' (put_version v ?s)" and x: "map_of (svc_scenarios s) n = Some x"
    "ss_id x' = ss_id x" "ss_currentVersionId x' = ss_currentVersionId x" "ss_lifecycle x' = ss_lifecycle x"
    and v: "sv_id v = env_idFactory E (tk_ids s)" "sv_scenarioId v = ss_id x" "sv_lifecycle v = Scenario_DRAFT"
    "vn_status (sv_validation v) = NOT_VALIDATED"
    using create_version_outcome [OF assms(3) False] by blast
  have s: "authoring_ok E ?s \<and> keeps_published s ?s"
    using steps_ok [OF tick_ok(1) tick_ok(2)] assms(2) tick_ok(1) by blast
  have xo: "scenario_ok s n x" using authoring_okD(2) [OF assms(2) x(1)] .
  then have n: "ss_id x = n" by (simp add: scenario_ok_def)
  have fresh: "map_of (svc_scenarioVersions s) (sv_id v) = None" using fresh_id(2) [OF assms(1,2)] by (simp add: v)
  have pv: "authoring_ok E (put_version v ?s) \<and> keeps_published ?s (put_version v ?s)"
    using s fresh x(1) n by (intro put_version_ok) (simp_all add: v version_ok_def used_ids_def)
  have "scenario_ok (put_version v ?s) (ss_id x') x'"
    using xo x n fresh by (auto simp: scenario_ok_def split: option.splits)
  moreover have "n \<in> used_ids E (put_version v ?s)"
    using authoring_okD(4) [OF assms(2) x(1)] used_ids_mono [of s "put_version v ?s" E] by auto
  ultimately have "authoring_ok E t \<and> keeps_published (put_version v ?s) t"
    unfolding t using pv x n by (intro put_scenario_ok) simp_all
  then show ?thesis using steps_ok [OF steps_ok [OF s pv]] by blast
qed (use assms(2) published.stays in blast)

lemma validate_version_ok:
  assumes "authoring_ok E s" and "validate_version_body E p n e s = (r, t)"
  shows "authoring_ok E t \<and> keeps_published s t"
proof (cases "t = s")
  case False
  obtain v v' where t: "t = put_version v' (clocked s)" and v: "map_of (svc_scenarioVersions s) n = Some v"
    "sv_lifecycle v = Scenario_DRAFT" "sv_id v' = sv_id v" "sv_scenarioId v' = sv_scenarioId v" "sv_lifecycle v' = Scenario_DRAFT"
    "vn_status (sv_validation v') = VALID \<longrightarrow> validation_errors v' = []"
    using validate_version_outcome [OF assms(2) False] by blast
  have s: "authoring_ok E (clocked s) \<and> keeps_published s (clocked s)" using tick_ok(1) [OF assms(1)] .
  have vo: "version_ok s n v" using authoring_okD(1) [OF assms(1) v(1)] .
  then have n: "sv_id v = n" by (simp add: version_ok_def)
  have "n \<in> used_ids E (clocked s)" using authoring_okD(3) [OF assms(1) v(1)] by (simp add: used_ids_def)
  then have "authoring_ok E t \<and> keeps_published (clocked s) t"
    unfolding t using s v n vo by (intro put_version_ok) (auto simp: version_ok_def)
  then show ?thesis using steps_ok [OF s] by blast
qed (use assms(1) published.stays in blast)

lemma publish_version_ok:
  assumes "authoring_ok E s" and "publish_version_body E p n e s = (r, t)"
  shows "authoring_ok E t \<and> keeps_published s t"
proof (cases "t = s")
  case False
  let ?s = "clocked s"
  obtain v v' x x' where t: "t = put_scenario x' (put_version v' ?s)" and v: "map_of (svc_scenarioVersions s) n = Some v"
    "sv_lifecycle v = Scenario_DRAFT" "vn_status (sv_validation v) = VALID" "validation_errors v' = validation_errors v"
    "sv_id v' = sv_id v" "sv_scenarioId v' = sv_scenarioId v" "sv_lifecycle v' = Scenario_PUBLISHED"
    "sv_validation v' = sv_validation v" "sv_contentHash v' \<noteq> None" "sv_publishedAt v' \<noteq> None"
    and x: "map_of (svc_scenarios s) (sv_scenarioId v) = Some x" "ss_id x' = ss_id x"
    "ss_currentVersionId x' = Some (sv_id v')" "ss_lifecycle x' = Scenario_PUBLISHED"
    using publish_version_outcome [OF assms(2) False] by blast
  have s: "authoring_ok E ?s \<and> keeps_published s ?s" using tick_ok(1) [OF assms(1)] .
  have vo: "version_ok s n v" using authoring_okD(1) [OF assms(1) v(1)] .
  then have n: "sv_id v = n" by (simp add: version_ok_def)
  have xi: "ss_id x = sv_scenarioId v" using authoring_okD(2) [OF assms(1) x(1)] by (simp add: scenario_ok_def)
  have used: "n \<in> used_ids E ?s" "sv_scenarioId v \<in> used_ids E (put_version v' ?s)"
    using authoring_okD(3) [OF assms(1) v(1)] authoring_okD(4) [OF assms(1) x(1)] by (simp_all add: used_ids_def)
  have pv: "authoring_ok E (put_version v' ?s) \<and> keeps_published ?s (put_version v' ?s)"
    using s v n vo used(1) by (intro put_version_ok) (auto simp: version_ok_def)
  have "authoring_ok E t \<and> keeps_published (put_version v' ?s) t"
    unfolding t using pv x xi v used(2) by (intro put_scenario_ok) (auto simp: scenario_ok_def)
  then show ?thesis using steps_ok [OF steps_ok [OF s pv]] by blast
qed (use assms(1) published.stays in blast)


definition same_scenarios :: "service \<Rightarrow> service \<Rightarrow> bool" where
  "same_scenarios s t \<longleftrightarrow> svc_scenarios t = svc_scenarios s \<and> svc_scenarioVersions t = svc_scenarioVersions s \<and> tk_ids s \<le> tk_ids t"

interpretation aside: evolution same_scenarios
  by unfold_locales (auto simp: same_scenarios_def)

lemma same_scenarios_ok:
  assumes "authoring_ok E s" and "same_scenarios s t"
  shows "authoring_ok E t \<and> keeps_published s t"
proof -
  have "scenario_ok t = scenario_ok s" "version_ok t = version_ok s"
    using assms(2) by (auto simp: scenario_ok_def version_ok_def fun_eq_iff same_scenarios_def split: option.split)
  moreover have "used_ids E s \<subseteq> used_ids E t" using assms(2) by (intro used_ids_mono) (simp add: same_scenarios_def)
  ultimately show ?thesis
    using assms by (auto simp: authoring_ok_def keeps_published_def same_scenarios_def)
qed

lemma agents_aside: "evolves same_scenarios (create_agent_body E p i)" "evolves same_scenarios (create_agent_version_body E p n j)"
  unfolding create_agent_body_def create_agent_version_body_def ownedAgent_def assert_version_def
  by (intro aside.rules aside.changing; simp add: evolves_def same_scenarios_def timestamp_def next_id_def)+

lemma idempotent_ok:
  assumes "\<And>r t. operation s = (r, t) \<Longrightarrow> authoring_ok E t \<and> keeps_published s t" and "authoring_ok E s"
    and "idempotent E a sc k request operation s = (r, t)"
  shows "authoring_ok E t \<and> keeps_published s t"
proof (cases "map_of (svc_idempotency s) (cache_key a sc k)")
  case (Some p)
  then show ?thesis using assms(2,3) published.stays by (auto simp: idempotent_recorded split: if_splits)
next
  case None
  obtain r' u where o: "operation s = (r', u)" by fastforce
  have "same_scenarios u t"
    using assms(3) None o by (cases r') (auto simp: idempotent_def action_simps same_scenarios_def)
  then show ?thesis using steps_ok [OF assms(1) [OF o]] same_scenarios_ok assms(1) [OF o] by blast
qed

lemma exec_authoring_ok:
  assumes "unique_ids E" and "authoring_ok E s" and "exec_authoring E c s = (r, t)"
  shows "authoring_ok E t \<and> keeps_published s t"
proof (cases c)
  case (Create_scenario p k i)
  with assms(3) show ?thesis
    by (intro idempotent_ok [OF create_scenario_ok [OF assms(1,2)] assms(2)]) (simp_all add: createScenario_def)
next
  case (Create_version p n k i)
  with assms(3) show ?thesis
    by (intro idempotent_ok [OF create_version_ok [OF assms(1,2)] assms(2)]) (simp_all add: createScenarioVersion_def)
next
  case (Validate_version p n k v)
  with assms(3) show ?thesis
    by (intro idempotent_ok [OF validate_version_ok [OF assms(2)] assms(2)]) (simp_all add: validateScenarioVersion_def)
next
  case (Publish_version p n k v)
  with assms(3) show ?thesis
    by (intro idempotent_ok [OF publish_version_ok [OF assms(2)] assms(2)]) (simp_all add: publishScenarioVersion_def)
next
  case (Create_agent p k i)
  with assms(3) show ?thesis
    by (intro idempotent_ok [OF same_scenarios_ok [OF assms(2) evolvesD [OF agents_aside(1)]] assms(2)]) (simp_all add: createAgent_def)
next
  case (Create_agent_version p n k i)
  with assms(3) show ?thesis
    by (intro idempotent_ok [OF same_scenarios_ok [OF assms(2) evolvesD [OF agents_aside(2)]] assms(2)]) (simp_all add: createAgentVersion_def)
qed

lemma authored_ok:
  assumes "unique_ids E" and "authoring_ok E s"
  shows "authoring_ok E (authored E s cs) \<and> keeps_published s (authored E s cs)"
  using assms(2)
proof (induction cs arbitrary: s)
  case (Cons c cs)
  have "authoring_ok E (snd (exec_authoring E c s)) \<and> keeps_published s (snd (exec_authoring E c s))"
    using exec_authoring_ok [OF assms(1) Cons.prems] by (metis prod.collapse)
  then show ?case using steps_ok Cons.IH by simp
qed (simp add: published.stays)

lemma new_service_ok: "authoring_ok E (new_service E)"
proof -
  have "validation_errors (seed_version E) = []"
    by (simp add: validation_errors_def seed_version_def seed_base_def Let_def defaultRoles_def default_role_def)
  then show ?thesis
    by (auto simp: authoring_ok_def new_service_def used_ids_def version_ok_def scenario_ok_def seed_scenario_def
      seed_version_def seed_base_def Let_def)
qed

text \<open>
  Property C16. Once a version of a scenario is published, no sequence of commands changes or removes it: what a run
  has pinned is what it was validated and published as.
\<close>

lemma published_version_is_final:
  assumes "unique_ids E" and "map_of (svc_scenarioVersions (authored E (new_service E) cs)) i = Some v"
    and "sv_lifecycle v = Scenario_PUBLISHED"
  shows "map_of (svc_scenarioVersions (authored E (new_service E) (cs @ ds))) i = Some v"
proof -
  have "authoring_ok E (authored E (new_service E) cs)" using authored_ok [OF assms(1) new_service_ok] by blast
  from conjunct2 [OF authored_ok [OF assms(1) this, of ds]] show ?thesis using assms(2,3) by (simp add: keeps_published_def)
qed

definition demo_commands :: "authoring_command list" where
  "demo_commands = [Create_scenario demo_author ''k1'' demo_scenario,
     Create_version demo_author ''x'' ''k2'' (demo_version (Num 2)),
     Validate_version demo_author ''xx'' ''k3'' (Num 1), Publish_version demo_author ''xx'' ''k4'' (Num 2)]"

lemma demo_unique_ids: "unique_ids demo_environment"
proof -
  have "inj (\<lambda>n. replicate (Suc n) CHR ''x'')" by (rule injI) (metis length_replicate Suc_inject)
  moreover have "replicate (Suc n) CHR ''x'' \<noteq> DEFAULT_V2_SCENARIO_ID" "replicate (Suc n) CHR ''x'' \<noteq> DEFAULT_V2_SCENARIO_VERSION_ID" for n
    by (simp_all add: DEFAULT_V2_SCENARIO_ID_def DEFAULT_V2_SCENARIO_VERSION_ID_def)
  ultimately show ?thesis unfolding unique_ids_def demo_environment_def environment.simps by blast
qed

lemma published_version_is_final_witness:
  "\<exists>v. map_of (svc_scenarioVersions (authored demo_environment (new_service demo_environment)
      (demo_commands @ [Validate_version demo_author ''xx'' ''k5'' (Num 3)]))) ''xx'' = Some v
    \<and> sv_lifecycle v = Scenario_PUBLISHED"
proof -
  have "case map_of (svc_scenarioVersions (authored demo_environment (new_service demo_environment) demo_commands)) ''xx'' of
      None \<Rightarrow> False | Some v \<Rightarrow> sv_lifecycle v = Scenario_PUBLISHED"
    by (simp add: demo_commands_def demo_simps)
  then obtain v where v: "map_of (svc_scenarioVersions (authored demo_environment (new_service demo_environment) demo_commands)) ''xx'' = Some v"
    "sv_lifecycle v = Scenario_PUBLISHED" by (auto split: option.splits)
  from published_version_is_final [OF demo_unique_ids this] v(2) show ?thesis by blast
qed

text \<open>
  Property C17. Whatever authors do, each scenario shown to the public can be read: its current version has at least two
  roles with different identifiers, and its quorum is at least two agents and at most one for each role.
\<close>

lemma public_scenarios_are_playable:
  assumes "unique_ids E" and "map_of (svc_scenarios (authored E (new_service E) cs)) i = Some x" and "is_public x"
  shows "\<exists>summary version. getPublicScenario (authored E (new_service E) cs) i = Inr (Some summary, version)
    \<and> 2 \<le> length (pv_requiredRoles version) \<and> distinct (map rd_id (pv_requiredRoles version))
    \<and> \<not> js_lt (pv_minDistinctRequiredAgents version) (Num 2)
    \<and> \<not> js_lt (Num (of_nat (length (pv_requiredRoles version)))) (pv_minDistinctRequiredAgents version)"
proof -
  let ?s = "authored E (new_service E) cs"
  have ok: "authoring_ok E ?s" using authored_ok [OF assms(1) new_service_ok] by blast
  obtain c v where x: "ss_currentVersionId x = Some c" "map_of (svc_scenarioVersions ?s) c = Some v" "sv_lifecycle v = Scenario_PUBLISHED"
    using authoring_okD(2) [OF ok assms(2)] assms(3) by (auto simp: scenario_ok_def is_public_def split: option.splits)
  then have v: "validation_errors v = []" "sv_contentHash v \<noteq> None" "sv_publishedAt v \<noteq> None"
    using authoring_okD(1) [OF ok x(2)] by (auto simp: version_ok_def)
  obtain h d where hd: "sv_contentHash v = Some h" "sv_publishedAt v = Some d" using v by blast
  have d: "distinct (map rd_id (sv_requiredRoles v))" "2 \<le> length (sv_requiredRoles v)"
    using v(1) card_distinct [of "map rd_id (sv_requiredRoles v)"] by (auto simp: validation_errors_def Let_def split: if_splits)
  have q: "\<not> js_lt (sv_minDistinctRequiredAgents v) (Num 2)"
    "\<not> js_lt (Num (of_nat (length (sv_requiredRoles v)))) (sv_minDistinctRequiredAgents v)"
    using v(1) distinct_card [OF d(1)] by (auto simp: validation_errors_def Let_def split: if_splits)
  show ?thesis
    using assms(2,3) x hd d q by (auto simp: getPublicScenario_def publicStoredScenario_def publicScenarioVersion_def publicScenario_def)
qed


lemma public_scenarios_are_playable_witness:
  "\<exists>summary version. getPublicScenario (authored demo_environment (new_service demo_environment) demo_commands) ''x'' =
      Inr (Some summary, version)
    \<and> 2 \<le> length (pv_requiredRoles version)"
proof -
  have "case map_of (svc_scenarios (authored demo_environment (new_service demo_environment) demo_commands)) ''x'' of
      None \<Rightarrow> False | Some x \<Rightarrow> is_public x"
    by (simp add: demo_commands_def demo_simps is_public_def)
  then obtain x where "map_of (svc_scenarios (authored demo_environment (new_service demo_environment) demo_commands)) ''x'' = Some x"
    "is_public x" by (auto split: option.splits)
  from public_scenarios_are_playable [OF demo_unique_ids this] show ?thesis by blast
qed

end
