(* ===== verification/RunWorld.thy ===== *)
theory RunWorld
  imports ServiceRunData "HOL-Library.Sublist"
begin

text \<open>
  One run of \<open>apps/api/src/v2-in-memory-service.ts\<close>: appending to its journal, making a resource eligible for an agent,
  projecting a task, and the verification of journals and receipts that a replay reports.

  The methods work on the stored run by reference; the state of their actions is the run with the counters of the
  factories. An uncaught \<open>TypeError\<close>, of an assertion \<open>!\<close> on what is not there, is an error of that name.
\<close>

record run_world = ticks +
  rw_run :: stored_run

definition run_reading :: "(stored_run \<Rightarrow> 'a) \<Rightarrow> (run_world, 'a) action" where
  "run_reading f = reading (f \<circ> rw_run)"

definition run_changing :: "(stored_run \<Rightarrow> stored_run) \<Rightarrow> (run_world, unit) action" where
  "run_changing f = changing (\<lambda>w. w\<lparr>rw_run := f (rw_run w)\<rparr>)"

text \<open>A method of the service applied to the run stored under an identifier.\<close>

definition world_of :: "service \<Rightarrow> stored_run \<Rightarrow> run_world" where
  "world_of s r = \<lparr>tk_ids = tk_ids s, tk_clock = tk_clock s, tk_tokens = tk_tokens s, rw_run = r\<rparr>"

definition put_world :: "string \<Rightarrow> service \<Rightarrow> run_world \<Rightarrow> service" where
  "put_world runId s w = s\<lparr>tk_ids := tk_ids w, tk_clock := tk_clock w, tk_tokens := tk_tokens w,
     svc_runs := map_put runId (rw_run w) (svc_runs s)\<rparr>"

definition in_run :: "string \<Rightarrow> (run_world, 'a) action \<Rightarrow> (service, 'a) action" where
  "in_run runId m = (\<lambda>s.
     case map_of (svc_runs s) runId of
       None \<Rightarrow> (fail ''TypeError'', s)
     | Some r \<Rightarrow> (case m (world_of s r) of (x, w) \<Rightarrow> (x, put_world runId s w)))"

section \<open>The journal\<close>

definition appendRunEvent :: "environment \<Rightarrow> event_input \<Rightarrow> (run_world, event_dto) action" where
  "appendRunEvent E i =
     after (timestamp E) (\<lambda>now.
     after (next_id E) (\<lambda>eventId.
     after (run_reading (\<lambda>r. r)) (\<lambda>r.
       let base = \<lparr>ed_eventId = eventId, ed_runId = rx_id (sr_run r), ed_runSeq = length (sr_events r) + 1, ed_input = i,
                   ed_virtualTime = rx_virtualTime (sr_run r), ed_occurredAt = now, ed_recordedAt = now,
                   ed_payloadHash = hash E (ei_payload i), ed_previousHash = sr_eventHeadHash r, ed_eventHash = []\<rparr>;
           event = base\<lparr>ed_eventHash := hash E (event_json base)\<rparr>
       in after (run_changing (\<lambda>r. r\<lparr>sr_events := sr_events r @ [event], sr_eventHeadHash := ed_eventHash event\<rparr>)) (\<lambda>_.
          give event))))"

text \<open>The loop of \<open>verifyEventChain\<close>, with the hash that the next event has to name.\<close>

fun verify_events :: "environment \<Rightarrow> string \<Rightarrow> event_dto list \<Rightarrow> bool" where
  "verify_events E previousHash [] \<longleftrightarrow> True"
| "verify_events E previousHash (e # es) \<longleftrightarrow>
     ed_previousHash e = previousHash \<and> hash E (event_json e) = ed_eventHash e \<and> verify_events E (ed_eventHash e) es"

definition verifyEventChain :: "environment \<Rightarrow> event_dto list \<Rightarrow> bool" where
  "verifyEventChain E es = verify_events E ZERO_HASH es"

text \<open>An event without correlation and cause.\<close>

definition event_of ::
  "string \<Rightarrow> string \<Rightarrow> string \<Rightarrow> string \<Rightarrow> string \<Rightarrow> string \<Rightarrow> (string \<times> json) list \<Rightarrow> event_input" where
  "event_of streamType streamId eventType actorType actorId assertionClass payload =
     \<lparr>ei_streamType = streamType, ei_streamId = streamId, ei_eventType = eventType, ei_actorType = actorType,
      ei_actorId = actorId, ei_correlationId = None, ei_causationId = None, ei_assertionClass = assertionClass,
      ei_payload = JObject payload\<rparr>"

section \<open>Eligible resources\<close>

datatype resource =
  Task_resource task_dto
| Message_resource message_dto
| Artifact_resource artifact_dto
| Feedback_resource feedback_dto
| Submission_resource submission_dto

fun resource_kind :: "resource \<Rightarrow> resource_type" where
  "resource_kind (Task_resource x) = R_task"
| "resource_kind (Message_resource x) = R_message"
| "resource_kind (Artifact_resource x) = R_artifact"
| "resource_kind (Feedback_resource x) = R_feedback"
| "resource_kind (Submission_resource x) = R_submission"

fun resource_id :: "resource \<Rightarrow> string" where
  "resource_id (Task_resource x) = td_id x"
| "resource_id (Message_resource x) = me_id x"
| "resource_id (Artifact_resource x) = at_id x"
| "resource_id (Feedback_resource x) = fd_id x"
| "resource_id (Submission_resource x) = sd_id x"

fun resource_json :: "resource \<Rightarrow> json" where
  "resource_json (Task_resource x) = task_json x"
| "resource_json (Message_resource x) = message_json x"
| "resource_json (Artifact_resource x) = artifact_json x"
| "resource_json (Feedback_resource x) = feedback_json x"
| "resource_json (Submission_resource x) = submission_json x"

text \<open>\<open>String(n)\<close> of the number of a version.\<close>

fun resource_version :: "resource \<Rightarrow> string" where
  "resource_version (Task_resource x) = (case td_lockVersion x of Num q \<Rightarrow> number_text q | _ \<Rightarrow> ''NaN'')"
| "resource_version (Artifact_resource x) = at_versionId x"
| "resource_version (Submission_resource x) = number_text (of_nat (sd_revisionNo x))"
| "resource_version (Message_resource x) = ''1''"
| "resource_version (Feedback_resource x) = ''1''"

definition disclosure_of :: "environment \<Rightarrow> resource \<Rightarrow> event_dto \<Rightarrow> disclosure" where
  "disclosure_of E x e =
     \<lparr>di_resourceType = resource_kind x, di_resourceId = resource_id x, di_resourceVersion = resource_version x,
      di_sourceEventId = ed_eventId e, di_sourceRunSeq = ed_runSeq e,
      di_contentSnapshot = canonicalize (resource_json x), di_contentHash = hash E (resource_json x)\<rparr>"

definition addEligible :: "environment \<Rightarrow> string \<Rightarrow> resource \<Rightarrow> event_dto \<Rightarrow> (run_world, unit) action" where
  "addEligible E runAgentId x e =
     after (run_reading (\<lambda>r. map_of (sr_eligible r) runAgentId)) (\<lambda>found.
       case found of
         None \<Rightarrow> throw ''TypeError''
       | Some ds \<Rightarrow> run_changing (\<lambda>r. r\<lparr>sr_eligible := map_put runAgentId (ds @ [disclosure_of E x e]) (sr_eligible r)\<rparr>))"

definition receipts_of :: "stored_run \<Rightarrow> string \<Rightarrow> receipt list" where
  "receipts_of r runAgentId = (case map_of (sr_receipts r) runAgentId of None \<Rightarrow> [] | Some rs \<Rightarrow> rs)"

definition hasIssuedResource :: "stored_run \<Rightarrow> string \<Rightarrow> resource_type \<Rightarrow> string \<Rightarrow> string option \<Rightarrow> bool" where
  "hasIssuedResource r runAgentId resourceType resourceId resourceVersion \<longleftrightarrow>
     list_ex (\<lambda>receipt. rc_resourceType receipt = resourceType \<and> rc_resourceId receipt = resourceId
       \<and> (resourceVersion = None \<or> resourceVersion = Some (rc_resourceVersion receipt))) (receipts_of r runAgentId)"

section \<open>Projections of tasks\<close>

definition updateTaskDto :: "run_task \<Rightarrow> (run_world, task_dto) action" where
  "updateTaskDto t =
     after (run_reading (\<lambda>r. map_of (sr_tasks r) (rt_id t))) (\<lambda>found.
       case found of
         None \<Rightarrow> throw ''INTERNAL_ERROR''
       | Some current \<Rightarrow>
           let dto = current\<lparr>td_state := rt_state t, td_lockVersion := rt_version t, td_claimEpoch := rt_claimEpoch t,
                 td_claimedByRunAgentId := map_option cl_runAgentId (rt_activeClaim t),
                 td_leaseExpiresAt := map_option cl_leaseExpiresAt (rt_activeClaim t)\<rparr>
           in after (run_changing (\<lambda>r. r\<lparr>sr_tasks := map_put (rt_id t) dto (sr_tasks r)\<rparr>)) (\<lambda>_. give dto))"

definition put_task_state :: "run_task \<Rightarrow> (run_world, unit) action" where
  "put_task_state t = run_changing (\<lambda>r. r\<lparr>sr_taskStates := map_put (rt_id t) t (sr_taskStates r)\<rparr>)"

definition recordTaskTransition :: "environment \<Rightarrow> run_task \<Rightarrow> string \<Rightarrow> string \<Rightarrow> (run_world, task_dto) action" where
  "recordTaskTransition E t runAgentId eventType =
     after (put_task_state t) (\<lambda>_.
     after (updateTaskDto t) (\<lambda>dto.
     after (appendRunEvent E (event_of ''task'' (rt_id t) eventType ''run_agent'' runAgentId ''platform_observed''
              ([(''runAgentId'', JString runAgentId), (''state'', JString (task_state_text (rt_state t))),
                (''taskVersion'', JNumber (rt_version t)), (''claimEpoch'', JNumber (rt_claimEpoch t))]
               @ optional ''leaseExpiresAt'' JString (map_option cl_leaseExpiresAt (rt_activeClaim t))))) (\<lambda>event.
     after (addEligible E runAgentId (Task_resource dto) event) (\<lambda>_.
     give dto))))"

definition recordEvaluatorTaskTransition ::
  "environment \<Rightarrow> run_task \<Rightarrow> string \<Rightarrow> string \<Rightarrow> string \<Rightarrow> bool \<Rightarrow> (run_world, task_dto) action" where
  "recordEvaluatorTaskTransition E t runAgentId eventType evaluationId makeEligible =
     after (put_task_state t) (\<lambda>_.
     after (updateTaskDto t) (\<lambda>dto.
     after (appendRunEvent E (event_of ''task'' (rt_id t) eventType ''system'' ''excon-evaluator'' ''evaluator_derived''
              [(''runAgentId'', JString runAgentId), (''evaluationId'', JString evaluationId),
               (''state'', JString (task_state_text (rt_state t))), (''taskVersion'', JNumber (rt_version t)),
               (''claimEpoch'', JNumber (rt_claimEpoch t))])) (\<lambda>event.
     after (if makeEligible then addEligible E runAgentId (Task_resource dto) event else give ()) (\<lambda>_.
     give dto))))"

section \<open>Receipts\<close>

fun verify_run_receipts :: "environment \<Rightarrow> nat \<Rightarrow> string \<Rightarrow> receipt list \<Rightarrow> bool" where
  "verify_run_receipts E expectedSequence previousHash [] \<longleftrightarrow> True"
| "verify_run_receipts E expectedSequence previousHash (r # rs) \<longleftrightarrow>
     rc_agentReceiptSeq r = expectedSequence \<and> rc_previousReceiptHash r = previousHash
     \<and> hash E (receipt_json r) = rc_receiptHash r \<and> verify_run_receipts E (expectedSequence + 1) (rc_receiptHash r) rs"

definition verifyReceiptChains :: "environment \<Rightarrow> receipt list \<Rightarrow> bool" where
  "verifyReceiptChains E receipts \<longleftrightarrow>
     list_all (\<lambda>a. verify_run_receipts E 1 ZERO_HASH
         (sort_key rc_agentReceiptSeq (filter (\<lambda>r. rc_runAgentId r = a) receipts)))
       (js_set (map rc_runAgentId receipts))"

definition head_hash :: "receipt list \<Rightarrow> string" where
  "head_hash rs = (if rs = [] then ZERO_HASH else rc_receiptHash (List.last rs))"

definition acknowledgeReceipts :: "environment \<Rightarrow> string \<Rightarrow> nat \<Rightarrow> string \<Rightarrow> (run_world, unit) action" where
  "acknowledgeReceipts E runAgentId throughReceiptSeq headHash =
     after (run_reading (\<lambda>r. (receipts_of r runAgentId, map_of (sr_acknowledgements r) runAgentId))) (\<lambda>(receipts, acks).
     after (throw_if (\<not> (0 < throughReceiptSeq \<and> throughReceiptSeq \<le> length receipts
               \<and> rc_receiptHash (receipts ! (throughReceiptSeq - 1)) = headHash \<and> throughReceiptSeq = length receipts))
             ''RECEIPT_CHAIN_CONFLICT'') (\<lambda>_.
       case acks of
         None \<Rightarrow> throw ''TypeError''
       | Some as \<Rightarrow>
           if as \<noteq> [] \<and> ak_throughReceiptSeq (List.last as) = throughReceiptSeq \<and> ak_headHash (List.last as) = headHash
           then give ()
           else
             after (appendRunEvent E (event_of ''receipt'' runAgentId ''receipt.acknowledged'' ''run_agent'' runAgentId
                      ''participant_reported'' [(''throughReceiptSeq'', jnat throughReceiptSeq), (''headHash'', JString headHash)]))
               (\<lambda>event. run_changing (\<lambda>r. r\<lparr>sr_acknowledgements := map_put runAgentId
                  (as @ [\<lparr>ak_throughReceiptSeq = throughReceiptSeq, ak_headHash = headHash,
                          ak_acknowledgedRunSeq = ed_runSeq event\<rparr>]) (sr_acknowledgements r)\<rparr>))))"

text \<open>
  The loop of \<open>sync\<close> over the selected disclosures: the receipts so far, the hash of the last one.
\<close>

definition receipt_of ::
  "environment \<Rightarrow> string \<Rightarrow> string \<Rightarrow> string \<Rightarrow> string \<Rightarrow> nat \<Rightarrow> string \<Rightarrow> string \<Rightarrow> string \<Rightarrow> event_dto \<Rightarrow> disclosure \<Rightarrow> receipt" where
  "receipt_of E receiptId runId runAgentId deliveryBatchId seq previousHash virtualTime issuedAt issuance d =
     (let base = \<lparr>rc_id = receiptId, rc_runId = runId, rc_runAgentId = runAgentId, rc_agentReceiptSeq = seq,
            rc_deliveryBatchId = deliveryBatchId, rc_sourceEventId = di_sourceEventId d, rc_sourceRunSeq = di_sourceRunSeq d,
            rc_issuedEventId = ed_eventId issuance, rc_issuedRunSeq = ed_runSeq issuance,
            rc_resourceType = di_resourceType d, rc_resourceId = di_resourceId d, rc_resourceVersion = di_resourceVersion d,
            rc_availableVirtualAt = virtualTime, rc_issuedVirtualAt = virtualTime, rc_issuedAt = issuedAt,
            rc_contentSnapshot = canonicalize (di_contentSnapshot d), rc_contentHash = di_contentHash d,
            rc_previousReceiptHash = previousHash, rc_receiptHash = []\<rparr>
      in base\<lparr>rc_receiptHash := hash E (receipt_json base)\<rparr>)"

fun issue_each ::
  "environment \<Rightarrow> string \<Rightarrow> string \<Rightarrow> string \<Rightarrow> nat \<Rightarrow> string \<Rightarrow> disclosure list \<Rightarrow> (run_world, receipt list) action" where
  "issue_each E runId runAgentId deliveryBatchId seq previousHash [] = give []"
| "issue_each E runId runAgentId deliveryBatchId seq previousHash (d # ds) =
     after (next_id E) (\<lambda>receiptId.
     after (appendRunEvent E (event_of ''receipt'' receiptId ''receipt.issued'' ''system'' ''excon'' ''platform_observed''
              [(''runAgentId'', JString runAgentId), (''resourceType'', JString (resource_text (di_resourceType d))),
               (''resourceId'', JString (di_resourceId d))])) (\<lambda>issuance.
     after (timestamp E) (\<lambda>issuedAt.
     after (run_reading (\<lambda>r. rx_virtualTime (sr_run r))) (\<lambda>virtualTime.
       let receipt = receipt_of E receiptId runId runAgentId deliveryBatchId seq previousHash virtualTime issuedAt issuance d
       in after (issue_each E runId runAgentId deliveryBatchId (seq + 1) (rc_receiptHash receipt) ds) (\<lambda>rest.
          give (receipt # rest))))))"

definition same_resource :: "disclosure \<Rightarrow> receipt \<Rightarrow> bool" where
  "same_resource d r \<longleftrightarrow>
     resource_text (di_resourceType d) @ '':'' @ di_resourceId d @ '':'' @ di_resourceVersion d =
     resource_text (rc_resourceType r) @ '':'' @ rc_resourceId r @ '':'' @ rc_resourceVersion r"

definition sync_body :: "environment \<Rightarrow> string \<Rightarrow> string \<Rightarrow> sync_request \<Rightarrow> (run_world, response) action" where
  "sync_body E runId runAgentId i =
     after (run_reading (\<lambda>r. rx_state (sr_run r))) (\<lambda>st.
     after (throw_if (st \<noteq> RUNNING) ''RUN_STATE_CONFLICT'') (\<lambda>_.
     after (run_reading (\<lambda>r. map_of (sr_receipts r) runAgentId)) (\<lambda>found.
       case found of
         None \<Rightarrow> throw ''TypeError''
       | Some receipts \<Rightarrow>
           after (throw_if (sq_afterReceiptSeq i \<noteq> length receipts) ''RECEIPT_CURSOR_CONFLICT'') (\<lambda>_.
           after (case sq_ack i of None \<Rightarrow> give () | Some a \<Rightarrow> acknowledgeReceipts E runAgentId (fst a) (snd a)) (\<lambda>_.
           after (run_reading (\<lambda>r. filter (\<lambda>d. \<not> list_ex (same_resource d) receipts)
                    (case map_of (sr_eligible r) runAgentId of None \<Rightarrow> [] | Some ds \<Rightarrow> ds))) (\<lambda>eligible.
             let selected = take (sq_maxItems i) eligible in
             after (next_id E) (\<lambda>deliveryBatchId.
             after (issue_each E runId runAgentId deliveryBatchId (length receipts + 1) (head_hash receipts) selected) (\<lambda>issued.
             after (run_changing (\<lambda>r. r\<lparr>sr_receipts := map_put runAgentId (receipts @ issued) (sr_receipts r)\<rparr>)) (\<lambda>_.
             run_reading (\<lambda>r. Batch_response
               \<lparr>db_deliveryBatchId = deliveryBatchId, db_runId = runId, db_runAgentId = runAgentId,
                db_fromReceiptSeq = (if issued = [] then None else Some (sq_afterReceiptSeq i + 1)),
                db_throughReceiptSeq = length (receipts @ issued), db_receiptHeadHash = head_hash (receipts @ issued),
                db_runCursor = length (sr_events r), db_hasMore = length selected < length eligible, db_receipts = issued\<rparr>)))))))))) "

end
