(* ===== verification/RoleEvaluation.thy ===== *)
theory RoleEvaluation
  imports ServiceRunData
begin

text \<open>
  \<open>apps/api/src/yongding-v2-evaluator.ts\<close> and the case pack of \<open>packages/excon-scenarios/src/index.ts\<close>: the output of a
  role is checked against the schema of its task, and must cite enough artifacts.

  The case pack is a file that is read and validated when the program starts; here it is an argument. Fields are looked up
  among an object's own entries.
\<close>

section \<open>The case pack\<close>

record role_case =
  rk_initialTaskState :: run_task_state
  rk_taskDefinitionKey :: string
  rk_title :: localized
  rk_objective :: localized
  rk_artifactKey :: string
  rk_artifactTitle :: localized
  rk_taskOutputSchema :: "(string \<times> json) list"
  rk_inputs :: "(string \<times> json) list"

record case_pack =
  kp_availableVirtualAt :: string
  kp_waterEvidence :: role_case
  kp_hydraulicConstraints :: role_case
  kp_ecologicalTarget :: role_case
  kp_dispatchCoordination :: role_case

definition COORDINATOR :: string where
  "COORDINATOR = ''dispatch-coordination''"

definition SPECIALISTS :: "string list" where
  "SPECIALISTS = [''water-evidence'', ''hydraulic-constraints'', ''ecological-target'']"

definition role_case_of :: "case_pack \<Rightarrow> string \<Rightarrow> role_case option" where
  "role_case_of K roleId =
     map_of [(''water-evidence'', kp_waterEvidence K), (''hydraulic-constraints'', kp_hydraulicConstraints K),
             (''ecological-target'', kp_ecologicalTarget K), (''dispatch-coordination'', kp_dispatchCoordination K)] roleId"

text \<open>The schema of the pack admits two initial states.\<close>

definition case_pack_accepted :: "case_pack \<Rightarrow> bool" where
  "case_pack_accepted K \<longleftrightarrow> (\<forall>i c. role_case_of K i = Some c \<longrightarrow> rk_initialTaskState c \<in> {T_BLOCKED, T_READY})"

section \<open>The check against the schema\<close>

fun hasExpectedType :: "json \<Rightarrow> json option \<Rightarrow> bool" where
  "hasExpectedType v (Some (JString t)) =
     (if t = ''array'' then (case v of JArray _ \<Rightarrow> True | _ \<Rightarrow> False)
      else if t = ''object'' then (case v of JObject _ \<Rightarrow> True | _ \<Rightarrow> False)
      else if t = ''string'' then (case v of JString _ \<Rightarrow> True | _ \<Rightarrow> False)
      else if t = ''number'' then (case v of JNumber _ \<Rightarrow> True | _ \<Rightarrow> False)
      else if t = ''boolean'' then (case v of JBool _ \<Rightarrow> True | _ \<Rightarrow> False)
      else True)"
| "hasExpectedType v _ = True"

definition required_fields :: "(string \<times> json) list \<Rightarrow> string list" where
  "required_fields schema =
     (case map_of schema ''required'' of
        Some (JArray xs) \<Rightarrow> List.map_filter (\<lambda>x. case x of JString s \<Rightarrow> Some s | _ \<Rightarrow> None) xs
      | _ \<Rightarrow> [])"

definition schema_properties :: "(string \<times> json) list \<Rightarrow> (string \<times> json) list" where
  "schema_properties schema = (case map_of schema ''properties'' of Some (JObject ps) \<Rightarrow> ps | _ \<Rightarrow> [])"

definition property_issues :: "(string \<times> json) list \<Rightarrow> string \<times> json \<Rightarrow> evaluation_issue list" where
  "property_issues payload = (\<lambda>(field, propertySchema).
     case (map_of payload field, propertySchema) of
       (Some v, JObject ps) \<Rightarrow>
         if \<not> hasExpectedType v (map_of ps ''type'') then [OUTPUT_SCHEMA_TYPE]
         else (case (v, map_of ps ''minItems'') of
                 (JArray xs, Some (JNumber n)) \<Rightarrow> if js_lt (len_num xs) n then [OUTPUT_SCHEMA_MIN_ITEMS] else []
               | _ \<Rightarrow> [])
     | _ \<Rightarrow> [])"

definition evaluateSchema :: "(string \<times> json) list \<Rightarrow> (string \<times> json) list \<Rightarrow> evaluation_issue list" where
  "evaluateSchema payload schema =
     (let properties = schema_properties schema
      in js_set
        ((if list_ex (\<lambda>field. map_of payload field = None) (required_fields schema) then [OUTPUT_SCHEMA_REQUIRED_FIELD] else [])
         @ concat (map (property_issues payload) (entry_order properties))
         @ (if map_of schema ''additionalProperties'' = Some (JBool False)
               \<and> list_ex (\<lambda>field. field \<notin> fst ` set properties) (map fst payload)
            then [OUTPUT_SCHEMA_ADDITIONAL_PROPERTY] else [])))"

text \<open>\<open>None\<close> is the \<open>TypeError\<close> of a role that the pack does not have.\<close>

definition evaluateYongdingV2RoleOutput ::
  "case_pack \<Rightarrow> string \<Rightarrow> json \<Rightarrow> nat \<Rightarrow> (verdict \<times> evaluation_issue list) option" where
  "evaluateYongdingV2RoleOutput K roleSlotId payload artifactReferenceCount =
     map_option (\<lambda>role.
       let issues = evaluateSchema (case payload of JObject es \<Rightarrow> es | _ \<Rightarrow> []) (rk_taskOutputSchema role);
           minimumArtifactReferences = (if roleSlotId = COORDINATOR then 3 else 1);
           uniqueIssues = js_set (issues @ (if artifactReferenceCount < minimumArtifactReferences
                                            then [ARTIFACT_EVIDENCE_REQUIRED] else []))
       in (if length uniqueIssues = 0 then Verdict_ACCEPTED else Verdict_REWORK_REQUIRED, uniqueIssues))
       (role_case_of K roleSlotId)"

section \<open>What an accepted output is\<close>

text \<open>The declarative reading of the part of JSON Schema that the evaluator knows.\<close>

definition conforms :: "(string \<times> json) list \<Rightarrow> (string \<times> json) list \<Rightarrow> bool" where
  "conforms schema payload \<longleftrightarrow>
     (\<forall>field \<in> set (required_fields schema). map_of payload field \<noteq> None)
     \<and> (\<forall>(field, p) \<in> set (schema_properties schema). \<forall>v ps. map_of payload field = Some v \<longrightarrow> p = JObject ps \<longrightarrow>
          hasExpectedType v (map_of ps ''type'')
          \<and> (\<forall>xs n. v = JArray xs \<longrightarrow> map_of ps ''minItems'' = Some (JNumber n) \<longrightarrow> \<not> js_lt (len_num xs) n))
     \<and> (map_of schema ''additionalProperties'' = Some (JBool False) \<longrightarrow>
          fst ` set payload \<subseteq> fst ` set (schema_properties schema))"

lemma property_issues_Nil:
  "property_issues payload (field, p) = [] \<longleftrightarrow>
     (\<forall>v ps. map_of payload field = Some v \<longrightarrow> p = JObject ps \<longrightarrow>
          hasExpectedType v (map_of ps ''type'')
          \<and> (\<forall>xs n. v = JArray xs \<longrightarrow> map_of ps ''minItems'' = Some (JNumber n) \<longrightarrow> \<not> js_lt (len_num xs) n))"
  by (simp add: property_issues_def split: option.split json.split)

lemma js_set_Nil [simp]: "js_set xs = [] \<longleftrightarrow> xs = []"
  by (metis set_empty set_js_set)

lemma set_entry_order [simp]: "set (entry_order es) = set es"
  by (auto simp: entry_order_def)

lemma evaluateSchema_Nil: "evaluateSchema payload schema = [] \<longleftrightarrow> conforms schema payload"
proof -
  have "(\<forall>e \<in> set (entry_order (schema_properties schema)). property_issues payload e = []) \<longleftrightarrow>
      (\<forall>(field, p) \<in> set (schema_properties schema). \<forall>v ps. map_of payload field = Some v \<longrightarrow> p = JObject ps \<longrightarrow>
          hasExpectedType v (map_of ps ''type'')
          \<and> (\<forall>xs n. v = JArray xs \<longrightarrow> map_of ps ''minItems'' = Some (JNumber n) \<longrightarrow> \<not> js_lt (len_num xs) n))"
    by (auto simp: property_issues_Nil simp del: split_paired_All)
  then show ?thesis
    unfolding evaluateSchema_def conforms_def Let_def js_set_Nil
    by (auto simp: list_ex_iff image_subset_iff)
qed

text \<open>
  The output of a role is accepted exactly when it conforms to the schema of its task and cites
  enough artifacts: three for the coordinator, one for a specialist. Otherwise there is an issue to report.
\<close>

lemma role_output_accepted_iff:
  assumes "role_case_of K roleSlotId = Some role"
  shows "\<exists>v issues. evaluateYongdingV2RoleOutput K roleSlotId (JObject payload) n = Some (v, issues)
    \<and> (v = Verdict_ACCEPTED \<longleftrightarrow>
         conforms (rk_taskOutputSchema role) payload \<and> (if roleSlotId = COORDINATOR then 3 else 1) \<le> n)
    \<and> (v = Verdict_REWORK_REQUIRED \<longleftrightarrow> issues \<noteq> [])"
  using assms by (simp add: evaluateYongdingV2RoleOutput_def Let_def evaluateSchema_Nil)

definition demo_case :: role_case where
  "demo_case = \<lparr>rk_initialTaskState = T_READY, rk_taskDefinitionKey = ''k'', rk_title = \<lparr>lt_zh = '''', lt_en = ''''\<rparr>,
     rk_objective = \<lparr>lt_zh = '''', lt_en = ''''\<rparr>, rk_artifactKey = ''a'', rk_artifactTitle = \<lparr>lt_zh = '''', lt_en = ''''\<rparr>,
     rk_taskOutputSchema =
       [(''required'', JArray [JString ''refs'']), (''additionalProperties'', JBool False),
        (''properties'', JObject [(''refs'', JObject [(''type'', JString ''array''), (''minItems'', JNumber (Num 2))])])],
     rk_inputs = []\<rparr>"

definition demo_pack :: case_pack where
  "demo_pack = \<lparr>kp_availableVirtualAt = ''2023-03-22T15:00:00+08:00'', kp_waterEvidence = demo_case,
     kp_hydraulicConstraints = demo_case, kp_ecologicalTarget = demo_case,
     kp_dispatchCoordination = demo_case\<lparr>rk_initialTaskState := T_BLOCKED\<rparr>\<rparr>"

lemma role_output_accepted_iff_witness:
  "\<exists>issues. evaluateYongdingV2RoleOutput demo_pack ''water-evidence'' (JObject [(''refs'', JArray [JNull])]) 1 =
     Some (Verdict_REWORK_REQUIRED, issues) \<and> issues \<noteq> []"
proof -
  have "role_case_of demo_pack ''water-evidence'' = Some demo_case" by (simp add: role_case_of_def demo_pack_def)
  from role_output_accepted_iff [OF this, of "[(''refs'', JArray [JNull])]" 1]
  obtain v issues where v: "evaluateYongdingV2RoleOutput demo_pack ''water-evidence'' (JObject [(''refs'', JArray [JNull])]) 1 = Some (v, issues)"
    "v = Verdict_REWORK_REQUIRED \<longleftrightarrow> issues \<noteq> []" by blast
  moreover have "map_option fst (evaluateYongdingV2RoleOutput demo_pack ''water-evidence'' (JObject [(''refs'', JArray [JNull])]) 1)
      = Some Verdict_REWORK_REQUIRED" by code_simp
  ultimately show ?thesis by simp
qed

end
