(* ===== verification/RunEvaluation.thy ===== *)
theory RunEvaluation
  imports RunWorld RoleEvaluation
begin

text \<open>
  The evaluation of submissions in \<open>apps/api/src/v2-in-memory-service.ts\<close>: feedback with its grants, the two barriers, and the
  release of the coordinator's task. The digest of a scope and the texts of feedback are as the code writes them.
\<close>

section \<open>Times\<close>

text \<open>\<open>new Date(Date.parse(t) + seconds * 1000).toISOString()\<close>, which throws when \<open>t\<close> is no date.\<close>

definition addSeconds :: "string \<Rightarrow> int \<Rightarrow> string result" where
  "addSeconds t seconds = (case date_parse_iso t of None \<Rightarrow> fail ''RangeError'' | Some n \<Rightarrow> Inr (toISOString (n + seconds * 1000)))"

section \<open>Grants\<close>

definition scope_json :: "string \<Rightarrow> string \<Rightarrow> feedback_action \<Rightarrow> string \<Rightarrow> string \<Rightarrow> json" where
  "scope_json targetRunAgentId targetTaskId action predecessorSubmissionId evaluationId =
     JObject [(''targetRunAgentId'', JString targetRunAgentId), (''targetTaskId'', JString targetTaskId),
       (''action'', JString (feedback_action_text action)), (''predecessorSubmissionId'', JString predecessorSubmissionId),
       (''evaluationId'', JString evaluationId)]"

definition put_grant :: "feedback_grant \<Rightarrow> (run_world, unit) action" where
  "put_grant g = run_changing (\<lambda>r. r\<lparr>sr_actionGrants := map_put (fg_id g) g (sr_actionGrants r)\<rparr>)"

definition put_feedback :: "feedback_dto \<Rightarrow> (run_world, unit) action" where
  "put_feedback f = run_changing (\<lambda>r. r\<lparr>sr_feedback := map_put (fd_id f) f (sr_feedback r)\<rparr>)"

text \<open>A snapshot of feedback carries the grants that were issued with it.\<close>

definition json_field :: "string \<Rightarrow> json \<Rightarrow> json option" where
  "json_field k v = (case v of JObject es \<Rightarrow> map_of es k | _ \<Rightarrow> None)"

definition snapshot_has_grant :: "string \<Rightarrow> json \<Rightarrow> bool" where
  "snapshot_has_grant grantId snapshot \<longleftrightarrow>
     (case json_field ''actionGrants'' snapshot of
        Some (JArray gs) \<Rightarrow> list_ex (\<lambda>g. json_field ''id'' g = Some (JString grantId)) gs
      | _ \<Rightarrow> False)"

definition hasIssuedGrant :: "stored_run \<Rightarrow> string \<Rightarrow> string \<Rightarrow> bool" where
  "hasIssuedGrant r runAgentId grantId \<longleftrightarrow>
     list_ex (\<lambda>receipt. rc_resourceType receipt = R_feedback \<and> snapshot_has_grant grantId (rc_contentSnapshot receipt))
       (receipts_of r runAgentId)"

definition consumeGrant ::
  "environment \<Rightarrow> string \<Rightarrow> string \<Rightarrow> string \<Rightarrow> feedback_action \<Rightarrow> string \<Rightarrow> (run_world, feedback_grant) action" where
  "consumeGrant E runAgentId grantId taskId action predecessorSubmissionId =
     after (run_reading (\<lambda>r. map_of (sr_actionGrants r) grantId)) (\<lambda>found.
       case found of
         None \<Rightarrow> throw ''FEEDBACK_GRANT_NOT_FOUND''
       | Some grant \<Rightarrow>
           after (timestamp E) (\<lambda>now.
           after (run_reading (\<lambda>r. rx_virtualTime (sr_run r))) (\<lambda>virtualTime.
           after (call (consumeFeedbackActionGrant grant
                   \<lparr>cf_expectedVersion = fg_version grant, cf_runAgentId = runAgentId, cf_taskId = taskId, cf_action = action,
                    cf_predecessorSubmissionId = Some predecessorSubmissionId, cf_evaluationId = fg_evaluationId grant,
                    cf_scopeHash = hash E (scope_json runAgentId taskId action predecessorSubmissionId (fg_evaluationId grant)),
                    cf_now = now, cf_virtualTime = virtualTime\<rparr>)) (\<lambda>next.
           after (run_reading (\<lambda>r. hasIssuedGrant r runAgentId grantId)) (\<lambda>issued.
           after (throw_if (\<not> issued) ''RESOURCE_NOT_ISSUED'') (\<lambda>_.
           give next))))))"

definition appendGrantConsumedEvent :: "environment \<Rightarrow> string \<Rightarrow> feedback_grant \<Rightarrow> (run_world, unit) action" where
  "appendGrantConsumedEvent E runAgentId grant =
     after (appendRunEvent E (event_of ''feedback'' (fg_id grant) ''feedback-action-grant.consumed'' ''run_agent'' runAgentId
              ''platform_observed''
              [(''runAgentId'', JString runAgentId), (''feedbackActionGrantId'', JString (fg_id grant)),
               (''usedCount'', JNumber (fg_usedCount grant)), (''version'', JNumber (fg_version grant))])) (\<lambda>_.
     give ())"

text \<open>\<open>createFeedbackActionGrant\<close> with one use within a day.\<close>

definition once_grant_input ::
  "environment \<Rightarrow> string \<Rightarrow> string \<Rightarrow> string \<Rightarrow> feedback_action \<Rightarrow> string \<Rightarrow> string \<Rightarrow> nat \<Rightarrow> string \<Rightarrow> string \<Rightarrow> grant_input" where
  "once_grant_input E grantId runAgentId taskId action submissionId evaluationId runSeq issuedAt expiresAt =
     \<lparr>gi_id = grantId, gi_targetRunAgentId = runAgentId, gi_targetTaskId = taskId, gi_action = action,
      gi_predecessorSubmissionId = Some submissionId, gi_evaluationId = evaluationId, gi_issuedRunSeq = Num (of_nat runSeq),
      gi_issuedAt = issuedAt, gi_expiresVirtualAt = None, gi_expiresAt = Some expiresAt, gi_maxUses = Num 1,
      gi_scopeHash = hash E (scope_json runAgentId taskId action submissionId evaluationId)\<rparr>"

definition issue_endorsement_grant :: "environment \<Rightarrow> submission_dto \<Rightarrow> string \<Rightarrow> (run_world, unit) action" where
  "issue_endorsement_grant E submission recipient =
     after (next_id E) (\<lambda>feedbackId.
     after (next_id E) (\<lambda>evaluationId.
     after (next_id E) (\<lambda>grantId.
     after (timestamp E) (\<lambda>issuedAt.
     after (appendRunEvent E (event_of ''feedback'' feedbackId ''feedback-action-grant.issued'' ''system'' ''excon'' ''evaluator_derived''
              [(''runAgentId'', JString recipient), (''feedbackActionGrantId'', JString grantId),
               (''targetTaskId'', JString (sd_taskId submission)), (''predecessorSubmissionId'', JString (sd_id submission)),
               (''action'', JString ''endorse'')])) (\<lambda>event.
     after (call (addSeconds issuedAt (24 * 60 * 60))) (\<lambda>expiresAt.
     after (call (createFeedbackActionGrant (once_grant_input E grantId recipient (sd_taskId submission) Endorse (sd_id submission)
              evaluationId (ed_runSeq event) issuedAt expiresAt))) (\<lambda>grant.
     after (put_grant grant) (\<lambda>_.
     after (run_reading (\<lambda>r. rx_id (sr_run r))) (\<lambda>runId.
       let feedback = \<lparr>fd_id = feedbackId, fd_runId = runId, fd_targetScope = ''individual'', fd_recipientRunAgentIds = [recipient],
             fd_basisType = ''evaluation'',
             fd_summary = bilingual E ''The team submission is collecting explicit endorsements.'',
             fd_guidance = [bilingual E ''Check the cited evidence, then use only the non-transferable ActionGrant in this feedback.''],
             fd_allowedActions = [''endorse''], fd_subjectSubmissionId = Some (sd_id submission), fd_actionGrants = [grant],
             fd_createdRunSeq = ed_runSeq event, fd_createdAt = issuedAt\<rparr>
       in after (put_feedback feedback) (\<lambda>_.
          addEligible E recipient (Feedback_resource feedback) event))))))))))"

definition issueEndorsementGrants :: "environment \<Rightarrow> submission_dto \<Rightarrow> (run_world, unit) action" where
  "issueEndorsementGrants E submission =
     perform_each (issue_endorsement_grant E submission) (sd_endorsementRecipientRunAgentIds submission)"

section \<open>Feedback on an evaluation\<close>

definition feedback_summary :: "environment \<Rightarrow> bool \<Rightarrow> bool \<Rightarrow> localized" where
  "feedback_summary E accepted teamResult = bilingual E
     (if accepted
      then (if teamResult then ''The deterministic evaluator accepted the team plan.''
            else ''The deterministic evaluator accepted this role output.'')
      else (if teamResult then ''The deterministic evaluator requires a revised team plan.''
            else ''The deterministic evaluator requires a revised role output.''))"

definition feedback_guidance :: "environment \<Rightarrow> bool \<Rightarrow> evaluation_issue list \<Rightarrow> localized list" where
  "feedback_guidance E accepted issues =
     (if accepted
      then [bilingual E ''Wait for EXCON to release downstream collaboration; do not advance the global clock.'']
      else map (\<lambda>issue. bilingual E (''Revision issue: '' @ issue_text issue)) issues)"

definition issue_feedback ::
  "environment \<Rightarrow> submission_dto \<Rightarrow> evaluation_dto \<Rightarrow> string \<Rightarrow> (run_world, unit) action" where
  "issue_feedback E submission evaluation targetScope =
     after (next_id E) (\<lambda>feedbackId.
     after (appendRunEvent E (event_of ''feedback'' feedbackId ''feedback.created'' ''system'' ''excon-evaluator'' ''evaluator_derived''
              [(''runAgentId'', JString (sd_actorRunAgentId submission)), (''evaluationId'', JString (el_id evaluation)),
               (''submissionId'', JString (sd_id submission)), (''targetScope'', JString targetScope),
               (''verdict'', JString (verdict_text (el_verdict evaluation)))])) (\<lambda>event.
     after (if targetScope = ''individual'' \<and> el_verdict evaluation = Verdict_REWORK_REQUIRED
            then after (next_id E) (\<lambda>grantId.
                 after (call (addSeconds (el_createdAt evaluation) (24 * 60 * 60))) (\<lambda>expiresAt.
                 after (call (createFeedbackActionGrant (once_grant_input E grantId (sd_actorRunAgentId submission)
                          (sd_taskId submission) Resubmit (sd_id submission) (el_id evaluation) (ed_runSeq event)
                          (el_createdAt evaluation) expiresAt))) (\<lambda>grant.
                 after (put_grant grant) (\<lambda>_.
                 give [grant]))))
            else give []) (\<lambda>actionGrants.
     after (run_reading (\<lambda>r. (rx_id (sr_run r), map fst (sr_runAgents r)))) (\<lambda>(runId, agents).
       let accepted = el_verdict evaluation = Verdict_ACCEPTED;
           recipients = (if targetScope = ''team'' then agents else [sd_actorRunAgentId submission]);
           feedback = \<lparr>fd_id = feedbackId, fd_runId = runId, fd_targetScope = targetScope, fd_recipientRunAgentIds = recipients,
             fd_basisType = ''evaluation'', fd_summary = feedback_summary E accepted (targetScope = ''team''),
             fd_guidance = feedback_guidance E accepted (el_issueCodes evaluation),
             fd_allowedActions = (if \<not> accepted \<and> targetScope = ''individual'' then [''resubmit''] else []),
             fd_subjectSubmissionId = Some (sd_id submission), fd_actionGrants = actionGrants,
             fd_createdRunSeq = ed_runSeq event, fd_createdAt = el_createdAt evaluation\<rparr>
       in after (put_feedback feedback) (\<lambda>_.
          perform_each (\<lambda>recipient. addEligible E recipient (Feedback_resource feedback) event) recipients)))))"

definition issueEvaluationFeedback :: "environment \<Rightarrow> submission_dto \<Rightarrow> evaluation_dto \<Rightarrow> (run_world, unit) action" where
  "issueEvaluationFeedback E submission evaluation =
     perform_each (issue_feedback E submission evaluation)
       (if sd_roleSlotId submission = COORDINATOR then [''individual'', ''team''] else [''individual'', ''role''])"

section \<open>Barriers\<close>

definition put_barrier :: "string \<Rightarrow> run_barrier \<Rightarrow> (run_world, unit) action" where
  "put_barrier definitionKey b = run_changing (\<lambda>r. r\<lparr>sr_barriers := map_put definitionKey b (sr_barriers r)\<rparr>)"

fun barrier_state_text :: "run_barrier_state \<Rightarrow> string" where
  "barrier_state_text B_CLOSED = ''CLOSED''"
| "barrier_state_text B_SATISFIED = ''SATISFIED''"
| "barrier_state_text B_RELEASED = ''RELEASED''"

text \<open>The part that the two barriers share: the event of a satisfied condition.\<close>

definition barrier_event :: "string \<Rightarrow> string \<Rightarrow> (string \<times> json) list \<Rightarrow> event_input" where
  "barrier_event barrierId eventType payload = event_of ''barrier'' barrierId eventType ''system'' ''excon-evaluator'' ''evaluator_derived'' payload"

definition release_coordinator :: "environment \<Rightarrow> (run_world, unit) action" where
  "release_coordinator E =
     after (run_reading (\<lambda>r. find (\<lambda>t. td_roleSlotId t = COORDINATOR) (map snd (sr_tasks r)))) (\<lambda>found.
       case found of
         None \<Rightarrow> throw ''INTERNAL_ERROR''
       | Some coordinatorTask \<Rightarrow>
           after (run_reading (\<lambda>r. map_of (sr_taskStates r) (td_id coordinatorTask))) (\<lambda>domain.
             case domain of
               None \<Rightarrow> throw ''TypeError''
             | Some domainTask \<Rightarrow>
                 after (call (releaseBlockedRunTask domainTask (rt_version domainTask))) (\<lambda>ready.
                 after (put_task_state ready) (\<lambda>_.
                 after (updateTaskDto ready) (\<lambda>readyDto.
                 after (appendRunEvent E (event_of ''task'' (rt_id ready) ''task.ready'' ''system'' ''excon-evaluator'' ''evaluator_derived''
                          [(''runAgentId'', JString (td_assignedRunAgentId readyDto)),
                           (''definitionKey'', JString ''stage-1-dispatch-coordination''),
                           (''releasedByBarrier'', JString ''analysis-ready''),
                           (''taskVersion'', JNumber (rt_version ready))])) (\<lambda>readyEvent.
                 addEligible E (td_assignedRunAgentId readyDto) (Task_resource readyDto) readyEvent))))))"

definition recordAcceptedBarrierInput :: "environment \<Rightarrow> string \<Rightarrow> event_dto \<Rightarrow> (run_world, unit) action" where
  "recordAcceptedBarrierInput E roleSlotId evaluationEvent =
     (if roleSlotId = COORDINATOR then give ()
      else
        after (run_reading (\<lambda>r. map_of (sr_barriers r) ''analysis-ready'')) (\<lambda>found.
          case found of
            None \<Rightarrow> throw ''INTERNAL_ERROR''
          | Some barrier \<Rightarrow>
              after (call (recordRunBarrierInput barrier (rb_version barrier) roleSlotId (ed_eventId evaluationEvent))) (\<lambda>next.
              after (put_barrier ''analysis-ready'' next) (\<lambda>_.
              after (appendRunEvent E (barrier_event (rb_id barrier) ''barrier.condition-satisfied''
                       [(''definitionKey'', JString ''analysis-ready''), (''conditionKey'', JString roleSlotId),
                        (''evaluationEventId'', JString (ed_eventId evaluationEvent)),
                        (''barrierState'', JString (barrier_state_text (rb_state next)))])) (\<lambda>_.
                if rb_state next \<noteq> B_SATISFIED then give ()
                else
                  after (call (releaseRunBarrier next (rb_version next))) (\<lambda>(released, releasedNow).
                  after (put_barrier ''analysis-ready'' released) (\<lambda>_.
                    if \<not> releasedNow then give ()
                    else
                      after (appendRunEvent E (barrier_event (rb_id barrier) ''barrier.released''
                               [(''definitionKey'', JString ''analysis-ready''),
                                (''conditionKeys'', strings_json (rb_requiredConditionKeys released))])) (\<lambda>_.
                      release_coordinator E))))))))"

section \<open>Evaluation of a role's submission\<close>

definition put_evaluation :: "evaluation_dto \<Rightarrow> (run_world, unit) action" where
  "put_evaluation e = run_changing (\<lambda>r. r\<lparr>sr_evaluations := map_put (el_id e) e (sr_evaluations r)\<rparr>)"

definition evaluateRoleSubmission ::
  "environment \<Rightarrow> case_pack \<Rightarrow> submission_dto \<Rightarrow> run_task \<Rightarrow> task_dto \<Rightarrow> (run_world, task_dto) action" where
  "evaluateRoleSubmission E K submission submittedTask taskDto =
     after (next_id E) (\<lambda>evaluationId.
     after (call (beginRunTaskEvaluation submittedTask (rt_version submittedTask))) (\<lambda>evaluating.
     after (recordEvaluatorTaskTransition E evaluating (sd_actorRunAgentId submission) ''task.evaluating'' evaluationId False) (\<lambda>_.
       case evaluateYongdingV2RoleOutput K (td_roleSlotId taskDto) (sd_payload submission) (length (sd_artifactVersionRefs submission)) of
         None \<Rightarrow> throw ''TypeError''
       | Some (v, issues) \<Rightarrow>
         after (timestamp E) (\<lambda>evaluatedAt.
         after (appendRunEvent E (event_of ''evaluation'' evaluationId ''evaluation.completed'' ''system'' ''excon-evaluator''
                  ''evaluator_derived''
                  [(''runAgentId'', JString (sd_actorRunAgentId submission)), (''submissionId'', JString (sd_id submission)),
                   (''taskId'', JString (sd_taskId submission)), (''roleSlotId'', JString (td_roleSlotId taskDto)),
                   (''targetScope'', JString (sd_targetScope submission)), (''verdict'', JString (verdict_text v)),
                   (''issueCodes'', strings_json (map issue_text issues)), (''deterministic'', JBool True),
                   (''evaluatorVersion'', JString ''yongding-role-output-v1'')])) (\<lambda>evaluationEvent.
         after (run_reading (\<lambda>r. rx_id (sr_run r))) (\<lambda>runId.
           let evaluation = \<lparr>el_id = evaluationId, el_runId = runId, el_submissionId = sd_id submission,
                 el_taskId = sd_taskId submission, el_runAgentId = sd_actorRunAgentId submission,
                 el_roleSlotId = td_roleSlotId taskDto, el_targetScope = sd_targetScope submission, el_verdict = v,
                 el_issueCodes = issues, el_createdRunSeq = ed_runSeq evaluationEvent, el_createdAt = evaluatedAt\<rparr>
           in after (put_evaluation evaluation) (\<lambda>_.
              if v = Verdict_ACCEPTED
              then
                after (call (acceptRunTask evaluating (rt_version evaluating))) (\<lambda>accepted.
                after (recordEvaluatorTaskTransition E accepted (sd_actorRunAgentId submission) ''task.accepted'' evaluationId True) (\<lambda>dto.
                after (issueEvaluationFeedback E submission evaluation) (\<lambda>_.
                after (recordAcceptedBarrierInput E (td_roleSlotId taskDto) evaluationEvent) (\<lambda>_.
                give dto))))
              else
                after (call (requireRunTaskRework evaluating (rt_version evaluating))) (\<lambda>rework.
                after (recordEvaluatorTaskTransition E rework (sd_actorRunAgentId submission) ''task.rework-required'' evaluationId False) (\<lambda>_.
                after (issueEvaluationFeedback E submission evaluation) (\<lambda>_.
                after (call (readyRunTaskRevision rework (rt_version rework))) (\<lambda>ready.
                recordEvaluatorTaskTransition E ready (sd_actorRunAgentId submission) ''task.revision-ready'' evaluationId True)))))))))))"

definition ownedRunAgent :: "string \<Rightarrow> (run_world, stored_run_agent) action" where
  "ownedRunAgent runAgentId =
     after (run_reading (\<lambda>r. map_of (sr_runAgents r) runAgentId)) (\<lambda>found.
       case found of None \<Rightarrow> throw ''RUN_AGENT_NOT_FOUND'' | Some a \<Rightarrow> give a)"

definition recordEndorsementBarrierInput ::
  "environment \<Rightarrow> case_pack \<Rightarrow> submission_dto \<Rightarrow> string \<Rightarrow> event_dto \<Rightarrow> (run_world, unit) action" where
  "recordEndorsementBarrierInput E K submission endorserRunAgentId endorsementEvent =
     (if sd_roleSlotId submission \<noteq> COORDINATOR \<or> sd_targetScope submission \<noteq> ''team'' then give ()
      else
        after (ownedRunAgent endorserRunAgentId) (\<lambda>endorser.
        let roleSlotId = rg_roleSlotId (sg_dto endorser) in
        after (run_reading (\<lambda>r. map_of (sr_barriers r) ''endorsement-ready'')) (\<lambda>found.
          case found of
            None \<Rightarrow> throw ''INTERNAL_ERROR''
          | Some barrier \<Rightarrow>
              after (throw_if (roleSlotId \<notin> set (rb_requiredConditionKeys barrier)) ''SUBMISSION_CONFLICT'') (\<lambda>_.
              after (call (recordRunBarrierInput barrier (rb_version barrier) roleSlotId (ed_eventId endorsementEvent))) (\<lambda>next.
              after (put_barrier ''endorsement-ready'' next) (\<lambda>_.
              after (appendRunEvent E (barrier_event (rb_id barrier) ''barrier.condition-satisfied''
                       [(''definitionKey'', JString ''endorsement-ready''), (''conditionKey'', JString roleSlotId),
                        (''endorsementEventId'', JString (ed_eventId endorsementEvent)), (''submissionId'', JString (sd_id submission)),
                        (''barrierState'', JString (barrier_state_text (rb_state next)))])) (\<lambda>_.
                if rb_state next \<noteq> B_SATISFIED then give ()
                else
                  after (call (releaseRunBarrier next (rb_version next))) (\<lambda>(released, releasedNow).
                  after (put_barrier ''endorsement-ready'' released) (\<lambda>_.
                    if \<not> releasedNow then give ()
                    else
                      after (appendRunEvent E (barrier_event (rb_id barrier) ''barrier.released''
                               [(''definitionKey'', JString ''endorsement-ready''), (''submissionId'', JString (sd_id submission)),
                                (''conditionKeys'', strings_json (rb_requiredConditionKeys released))])) (\<lambda>_.
                      after (run_reading (\<lambda>r. (map_of (sr_tasks r) (sd_taskId submission), map_of (sr_taskStates r) (sd_taskId submission))))
                        (\<lambda>tasks.
                          case tasks of
                            (Some taskDto, Some domainTask) \<Rightarrow>
                              after (evaluateRoleSubmission E K submission domainTask taskDto) (\<lambda>_. give ())
                          | _ \<Rightarrow> throw ''INTERNAL_ERROR'')))))))))))"

end
