(* ===== verification/RunService.thy ===== *)
theory RunService
  imports RunEvaluation ScenarioService
begin

text \<open>
  The methods of \<open>apps/api/src/v2-in-memory-service.ts\<close> on the tasks, submissions and endorsements of a run, by the
  agents of the run. Requests have passed their schemas.
\<close>

section \<open>Access\<close>

definition ownedRun :: "principal \<Rightarrow> string \<Rightarrow> (service, stored_run) action" where
  "ownedRun p runId =
     after (reading (\<lambda>s. map_of (svc_runs s) runId)) (\<lambda>found.
       case found of
         None \<Rightarrow> throw ''RUN_NOT_FOUND''
       | Some r \<Rightarrow> if rx_ownerId (sr_run r) \<noteq> pr_id p then throw ''RUN_NOT_FOUND'' else give r)"

definition has_item :: "string list option \<Rightarrow> string \<Rightarrow> bool" where
  "has_item xs x = (case xs of None \<Rightarrow> False | Some ys \<Rightarrow> x \<in> set ys)"

definition runForAgent :: "principal \<Rightarrow> string \<Rightarrow> string \<Rightarrow> (service, stored_run) action" where
  "runForAgent p runId runAgentId =
     after (reading (\<lambda>s. map_of (svc_runs s) runId)) (\<lambda>found.
       case found of
         None \<Rightarrow> throw ''FORBIDDEN''
       | Some r \<Rightarrow>
           if \<not> has_item (pr_roles p) ''run_agent'' \<or> has_item (pr_roles p) ''operator''
              \<or> \<not> has_item (pr_runAgentIds p) runAgentId
           then throw ''FORBIDDEN''
           else case map_of (sr_runAgents r) runAgentId of None \<Rightarrow> throw ''RUN_AGENT_NOT_FOUND'' | Some _ \<Rightarrow> give r)"

definition assertRunning :: "stored_run \<Rightarrow> (service, unit) action" where
  "assertRunning r = throw_if (rx_state (sr_run r) \<noteq> RUNNING) ''RUN_STATE_CONFLICT''"

definition taskForAgent :: "principal \<Rightarrow> string \<Rightarrow> string \<Rightarrow> (service, string \<times> run_task \<times> task_dto) action" where
  "taskForAgent p runAgentId taskId =
     after (reading (\<lambda>s. find (\<lambda>(_, r). map_of (sr_tasks r) taskId \<noteq> None) (svc_runs s))) (\<lambda>found.
       case found of
         None \<Rightarrow> throw ''TASK_NOT_FOUND''
       | Some (runId, stored) \<Rightarrow>
           after (runForAgent p runId runAgentId) (\<lambda>_.
           after (assertRunning stored) (\<lambda>_.
             case map_of (sr_tasks stored) taskId of
               None \<Rightarrow> throw ''TypeError''
             | Some dto \<Rightarrow>
                 if td_assignedRunAgentId dto \<noteq> runAgentId then throw ''FORBIDDEN''
                 else if \<not> hasIssuedResource stored runAgentId R_task taskId None then throw ''RESOURCE_NOT_ISSUED''
                 else case map_of (sr_taskStates stored) taskId of
                        None \<Rightarrow> throw ''INTERNAL_ERROR''
                      | Some t \<Rightarrow> give (runId, t, dto))))"

section \<open>Leases\<close>

definition leaseCommand :: "environment \<Rightarrow> lease_request \<Rightarrow> string \<Rightarrow> (run_world, lease_command) action" where
  "leaseCommand E i runAgentId =
     after (timestamp E) (\<lambda>now.
     give \<lparr>lc_expectedVersion = lr_expectedVersion i, lc_runAgentId = runAgentId, lc_claimEpoch = lr_claimEpoch i,
           lc_leaseTokenHash = hash E (JString (lr_leaseToken i)), lc_now = now\<rparr>)"

definition claim_body :: "environment \<Rightarrow> string \<Rightarrow> run_task \<Rightarrow> js_number \<Rightarrow> int \<Rightarrow> (run_world, response) action" where
  "claim_body E runAgentId t expectedVersion leaseSeconds =
     after (timestamp E) (\<lambda>claimedAt.
     after (call (addSeconds claimedAt leaseSeconds)) (\<lambda>leaseExpiresAt.
     after (call (addSeconds claimedAt (15 * 60))) (\<lambda>maximumLeaseExpiresAt.
     after (next_token E) (\<lambda>leaseToken.
     after (call (claimRunTask t \<lparr>ci_expectedVersion = expectedVersion, ci_runAgentId = runAgentId,
              ci_leaseTokenHash = hash E (JString leaseToken), ci_claimedAt = claimedAt, ci_leaseExpiresAt = leaseExpiresAt,
              ci_maximumLeaseExpiresAt = maximumLeaseExpiresAt\<rparr>)) (\<lambda>next.
     after (recordTaskTransition E next runAgentId ''task.claimed'') (\<lambda>dto.
     give (Claim_response dto \<lparr>tl_claimEpoch = rt_claimEpoch next, tl_leaseToken = leaseToken,
            tl_leaseExpiresAt = leaseExpiresAt, tl_maximumLeaseExpiresAt = maximumLeaseExpiresAt\<rparr>)))))))"

definition task_scope :: "string \<Rightarrow> string \<Rightarrow> string" where
  "task_scope taskId command = ''task:'' @ taskId @ '':'' @ command"

definition claimTask ::
  "environment \<Rightarrow> principal \<Rightarrow> string \<Rightarrow> string \<Rightarrow> string \<Rightarrow> js_number \<Rightarrow> int \<Rightarrow> (service, response) action" where
  "claimTask E p runAgentId taskId idempotencyKey expectedVersion leaseSeconds =
     idempotent E runAgentId (task_scope taskId ''claim'') idempotencyKey
       (JObject [(''expectedVersion'', JNumber expectedVersion), (''leaseSeconds'', JNumber (Num (of_int leaseSeconds)))])
       (after (taskForAgent p runAgentId taskId) (\<lambda>(runId, t, dto).
        in_run runId (claim_body E runAgentId t expectedVersion leaseSeconds)))"

definition begin_body :: "environment \<Rightarrow> string \<Rightarrow> run_task \<Rightarrow> lease_request \<Rightarrow> (run_world, response) action" where
  "begin_body E runAgentId t i =
     after (leaseCommand E i runAgentId) (\<lambda>c.
     after (call (beginRunTask t c)) (\<lambda>next.
     after (recordTaskTransition E next runAgentId ''task.started'') (\<lambda>dto.
     give (Task_response dto))))"

definition beginTask ::
  "environment \<Rightarrow> principal \<Rightarrow> string \<Rightarrow> string \<Rightarrow> string \<Rightarrow> lease_request \<Rightarrow> (service, response) action" where
  "beginTask E p runAgentId taskId idempotencyKey i =
     idempotent E runAgentId (task_scope taskId ''begin'') idempotencyKey (JObject (lease_request_json i))
       (after (taskForAgent p runAgentId taskId) (\<lambda>(runId, t, dto). in_run runId (begin_body E runAgentId t i)))"

definition heartbeat_body ::
  "environment \<Rightarrow> string \<Rightarrow> run_task \<Rightarrow> lease_request \<Rightarrow> int \<Rightarrow> (run_world, response) action" where
  "heartbeat_body E runAgentId t i extendBySeconds =
     after (leaseCommand E i runAgentId) (\<lambda>c.
     after (case rt_activeClaim t of
              None \<Rightarrow> timestamp E
            | Some claim \<Rightarrow> call (addSeconds (cl_leaseExpiresAt claim) extendBySeconds)) (\<lambda>nextLeaseExpiresAt.
     after (call (heartbeatRunTask t c nextLeaseExpiresAt)) (\<lambda>next.
     after (recordTaskTransition E next runAgentId ''task.lease-renewed'') (\<lambda>dto.
     give (Task_response dto)))))"

definition heartbeatTask ::
  "environment \<Rightarrow> principal \<Rightarrow> string \<Rightarrow> string \<Rightarrow> string \<Rightarrow> lease_request \<Rightarrow> int \<Rightarrow> (service, response) action" where
  "heartbeatTask E p runAgentId taskId idempotencyKey i extendBySeconds =
     idempotent E runAgentId (task_scope taskId ''heartbeat'') idempotencyKey
       (JObject (lease_request_json i @ [(''extendBySeconds'', JNumber (Num (of_int extendBySeconds)))]))
       (after (taskForAgent p runAgentId taskId) (\<lambda>(runId, t, dto).
        in_run runId (heartbeat_body E runAgentId t i extendBySeconds)))"

definition release_body :: "environment \<Rightarrow> string \<Rightarrow> run_task \<Rightarrow> lease_request \<Rightarrow> (run_world, response) action" where
  "release_body E runAgentId t i =
     after (leaseCommand E i runAgentId) (\<lambda>c.
     after (call (releaseRunTask t c)) (\<lambda>next.
     after (recordTaskTransition E next runAgentId ''task.released'') (\<lambda>dto.
     give (Task_response dto))))"

definition releaseTask ::
  "environment \<Rightarrow> principal \<Rightarrow> string \<Rightarrow> string \<Rightarrow> string \<Rightarrow> lease_request \<Rightarrow> (service, response) action" where
  "releaseTask E p runAgentId taskId idempotencyKey i =
     idempotent E runAgentId (task_scope taskId ''release'') idempotencyKey (JObject (lease_request_json i))
       (after (taskForAgent p runAgentId taskId) (\<lambda>(runId, t, dto). in_run runId (release_body E runAgentId t i)))"

section \<open>Submissions\<close>

definition submission_reference_ok :: "receipt list \<Rightarrow> receipt_reference \<Rightarrow> bool" where
  "submission_reference_ok receipts reference \<longleftrightarrow>
     (case find (\<lambda>r. rc_id r = rr_receiptId reference) receipts of
        None \<Rightarrow> False
      | Some r \<Rightarrow> rc_receiptHash r = rr_receiptHash reference)"

definition artifact_reference_ok :: "receipt list \<Rightarrow> artifact_reference \<Rightarrow> bool" where
  "artifact_reference_ok receipts reference \<longleftrightarrow>
     (case find (\<lambda>r. rc_resourceType r = R_artifact \<and> rc_resourceId r = ar_artifactId reference
                   \<and> rc_resourceVersion r = ar_artifactVersionId reference) receipts of
        None \<Rightarrow> False
      | Some r \<Rightarrow> json_field ''contentHash'' (rc_contentSnapshot r) = Some (JString (ar_contentHash reference)))"

definition assertSubmissionReferences :: "string \<Rightarrow> create_submission \<Rightarrow> (run_world, unit) action" where
  "assertSubmissionReferences runAgentId i =
     after (run_reading (\<lambda>r. receipts_of r runAgentId)) (\<lambda>receipts.
     after (throw_if (\<not> list_all (submission_reference_ok receipts) (cu_receiptRefs i)) ''RECEIPT_REFERENCE_CONFLICT'') (\<lambda>_.
     throw_if (\<not> list_all (artifact_reference_ok receipts) (cu_artifactVersionRefs i)) ''RECEIPT_REFERENCE_CONFLICT''))"

definition assertRecipientSnapshot :: "string list \<Rightarrow> string option \<Rightarrow> (run_world, unit) action" where
  "assertRecipientSnapshot recipients excluded =
     perform_each (\<lambda>recipient.
       after (throw_if (Some recipient = excluded) ''FORBIDDEN'') (\<lambda>_.
       after (ownedRunAgent recipient) (\<lambda>_. give ()))) recipients"

definition put_submission :: "submission_dto \<Rightarrow> (run_world, unit) action" where
  "put_submission x = run_changing (\<lambda>r. r\<lparr>sr_submissions := map_put (sd_id x) x (sr_submissions r)\<rparr>)"

text \<open>The predecessor of a revision and the grant that it uses up.\<close>

definition revision_of ::
  "environment \<Rightarrow> string \<Rightarrow> string \<Rightarrow> create_submission \<Rightarrow> (run_world, nat \<times> feedback_grant option) action" where
  "revision_of E runAgentId taskId i =
     (case cu_revisionOfId i of
        None \<Rightarrow> give (1, None)
      | Some predecessorId \<Rightarrow>
          after (run_reading (\<lambda>r. map_of (sr_submissions r) predecessorId)) (\<lambda>found.
            case found of
              None \<Rightarrow> throw ''SUBMISSION_CONFLICT''
            | Some predecessor \<Rightarrow>
                if sd_taskId predecessor \<noteq> taskId \<or> sd_actorRunAgentId predecessor \<noteq> runAgentId
                then throw ''SUBMISSION_CONFLICT''
                else
                  after (consumeGrant E runAgentId (case cu_feedbackActionGrantId i of None \<Rightarrow> [] | Some g \<Rightarrow> g) taskId Resubmit
                           (sd_id predecessor)) (\<lambda>next.
                  give (sd_revisionNo predecessor + 1, Some next))))"

definition submit_body ::
  "environment \<Rightarrow> case_pack \<Rightarrow> string \<Rightarrow> string \<Rightarrow> run_task \<Rightarrow> task_dto \<Rightarrow> create_submission \<Rightarrow> (run_world, response) action" where
  "submit_body E K runAgentId taskId t currentTask i =
     after (assertSubmissionReferences runAgentId i) (\<lambda>_.
     after (assertRecipientSnapshot (cu_endorsementRecipientRunAgentIds i) (Some runAgentId)) (\<lambda>_.
     after (revision_of E runAgentId taskId i) (\<lambda>(revisionNo, consumedRevisionGrant).
     after (leaseCommand E (cu_lease i) runAgentId) (\<lambda>c.
     after (call (submitRunTask t c)) (\<lambda>nextTask.
     after (timestamp E) (\<lambda>submittedAt.
     after (next_id E) (\<lambda>submissionId.
     after (appendRunEvent E (event_of ''task'' taskId ''task.submitted'' ''run_agent'' runAgentId ''participant_reported''
              [(''runAgentId'', JString runAgentId), (''submissionId'', JString submissionId),
               (''taskVersion'', JNumber (rt_version nextTask)), (''claimEpoch'', JNumber (lr_claimEpoch (cu_lease i))),
               (''revisionNo'', jnat revisionNo)])) (\<lambda>taskEvent.
     let payload = canonicalize (cu_payload i); payloadHash = hash E payload in
     after (appendRunEvent E (event_of ''submission'' submissionId ''submission.created'' ''run_agent'' runAgentId ''participant_reported''
              [(''runAgentId'', JString runAgentId), (''taskId'', JString taskId), (''revisionNo'', jnat revisionNo),
               (''targetScope'', JString (cu_targetScope i)), (''payloadHash'', JString payloadHash),
               (''endorsementRecipientRunAgentIds'', strings_json (cu_endorsementRecipientRunAgentIds i))])) (\<lambda>submissionEvent.
     after (run_reading sr_run) (\<lambda>run.
       let submission = \<lparr>sd_id = submissionId, sd_runId = rx_id run, sd_taskId = taskId, sd_actorRunAgentId = runAgentId,
             sd_targetScope = cu_targetScope i, sd_roleSlotId = td_roleSlotId currentTask, sd_revisionNo = revisionNo,
             sd_revisionOfId = cu_revisionOfId i, sd_submissionType = cu_submissionType i, sd_payload = payload,
             sd_payloadHash = payloadHash, sd_receiptRefs = cu_receiptRefs i, sd_artifactVersionRefs = cu_artifactVersionRefs i,
             sd_endorsementRecipientRunAgentIds = cu_endorsementRecipientRunAgentIds i,
             sd_submittedVirtualAt = rx_virtualTime run, sd_submittedAt = submittedAt,
             sd_createdRunSeq = ed_runSeq submissionEvent\<rparr>
       in after (put_submission submission) (\<lambda>_.
          after (put_task_state nextTask) (\<lambda>_.
          after (updateTaskDto nextTask) (\<lambda>taskDto.
          after (addEligible E runAgentId (Task_resource taskDto) taskEvent) (\<lambda>_.
          after (addEligible E runAgentId (Submission_resource submission) submissionEvent) (\<lambda>_.
          after (perform_each (\<lambda>recipient. addEligible E recipient (Submission_resource submission) submissionEvent)
                   (sd_endorsementRecipientRunAgentIds submission)) (\<lambda>_.
          after (case consumedRevisionGrant of
                   None \<Rightarrow> give ()
                 | Some next \<Rightarrow> after (put_grant next) (\<lambda>_. appendGrantConsumedEvent E runAgentId next)) (\<lambda>_.
          after (issueEndorsementGrants E submission) (\<lambda>_.
          after (if td_roleSlotId currentTask = COORDINATOR \<or> sd_targetScope submission = ''team''
                    \<or> 0 < length (sd_endorsementRecipientRunAgentIds submission)
                 then give taskDto
                 else evaluateRoleSubmission E K submission nextTask currentTask) (\<lambda>responseTask.
          give (Submission_response submission responseTask))))))))))))))))))))"

definition submitTask ::
  "environment \<Rightarrow> case_pack \<Rightarrow> principal \<Rightarrow> string \<Rightarrow> string \<Rightarrow> string \<Rightarrow> create_submission \<Rightarrow> (service, response) action" where
  "submitTask E K p runAgentId taskId idempotencyKey i =
     idempotent E runAgentId (task_scope taskId ''submission:create'') idempotencyKey (create_submission_json i)
       (after (taskForAgent p runAgentId taskId) (\<lambda>(runId, t, dto).
        in_run runId (submit_body E K runAgentId taskId t dto i)))"

section \<open>Endorsements\<close>

definition put_endorsement :: "endorsement_dto \<Rightarrow> (run_world, unit) action" where
  "put_endorsement x = run_changing (\<lambda>r. r\<lparr>sr_endorsements := map_put (en_id x) x (sr_endorsements r)\<rparr>)"

definition endorse_body ::
  "environment \<Rightarrow> case_pack \<Rightarrow> string \<Rightarrow> submission_dto \<Rightarrow> string \<Rightarrow> (run_world, response) action" where
  "endorse_body E K runAgentId submission grantId =
     after (run_reading (\<lambda>r. hasIssuedResource r runAgentId R_submission (sd_id submission)
              (Some (number_text (of_nat (sd_revisionNo submission)))))) (\<lambda>issued.
     after (throw_if (\<not> issued) ''RESOURCE_NOT_ISSUED'') (\<lambda>_.
     after (consumeGrant E runAgentId grantId (sd_taskId submission) Endorse (sd_id submission)) (\<lambda>nextGrant.
     after (run_reading (\<lambda>r. hasIssuedGrant r runAgentId grantId)) (\<lambda>issued.
     after (throw_if (\<not> issued) ''RESOURCE_NOT_ISSUED'') (\<lambda>_.
     after (run_reading (\<lambda>r. list_ex (\<lambda>e. en_submissionId e = sd_id submission \<and> en_endorserRunAgentId e = runAgentId)
              (map snd (sr_endorsements r)))) (\<lambda>endorsed.
     after (throw_if endorsed ''SUBMISSION_CONFLICT'') (\<lambda>_.
     after (put_grant nextGrant) (\<lambda>_.
     after (appendGrantConsumedEvent E runAgentId nextGrant) (\<lambda>_.
     after (timestamp E) (\<lambda>endorsedAt.
     after (next_id E) (\<lambda>endorsementId.
     after (appendRunEvent E (event_of ''endorsement'' endorsementId ''submission.endorsed'' ''run_agent'' runAgentId ''participant_reported''
              [(''runAgentId'', JString runAgentId), (''submissionId'', JString (sd_id submission)),
               (''feedbackActionGrantId'', JString (fg_id nextGrant))])) (\<lambda>event.
     after (run_reading (\<lambda>r. rx_id (sr_run r))) (\<lambda>runId.
       let endorsement = \<lparr>en_id = endorsementId, en_runId = runId, en_submissionId = sd_id submission,
             en_endorserRunAgentId = runAgentId, en_feedbackActionGrantId = fg_id nextGrant, en_endorsedAt = endorsedAt,
             en_createdRunSeq = ed_runSeq event\<rparr>
       in after (put_endorsement endorsement) (\<lambda>_.
          after (recordEndorsementBarrierInput E K submission runAgentId event) (\<lambda>_.
          give (Endorsement_response endorsement nextGrant))))))))))))))))"

definition runContainingSubmission :: "string \<Rightarrow> (service, string \<times> submission_dto) action" where
  "runContainingSubmission submissionId =
     after (reading (\<lambda>s. find (\<lambda>(_, r). map_of (sr_submissions r) submissionId \<noteq> None) (svc_runs s))) (\<lambda>found.
       case found of
         None \<Rightarrow> throw ''SUBMISSION_NOT_FOUND''
       | Some (runId, stored) \<Rightarrow>
           (case map_of (sr_submissions stored) submissionId of
              None \<Rightarrow> throw ''SUBMISSION_NOT_FOUND''
            | Some submission \<Rightarrow> give (runId, submission)))"

definition endorseSubmission ::
  "environment \<Rightarrow> case_pack \<Rightarrow> principal \<Rightarrow> string \<Rightarrow> string \<Rightarrow> string \<Rightarrow> string \<Rightarrow> (service, response) action" where
  "endorseSubmission E K p runAgentId submissionId idempotencyKey grantId =
     idempotent E runAgentId (''submission:'' @ submissionId @ '':endorsement:create'') idempotencyKey
       (JObject [(''feedbackActionGrantId'', JString grantId)])
       (after (runContainingSubmission submissionId) (\<lambda>(runId, submission).
        after (runForAgent p runId runAgentId) (\<lambda>_.
        in_run runId (endorse_body E K runAgentId submission grantId))))"

section \<open>Synchronisation\<close>

definition syncRun ::
  "environment \<Rightarrow> principal \<Rightarrow> string \<Rightarrow> string \<Rightarrow> string \<Rightarrow> sync_request \<Rightarrow> (service, response) action" where
  "syncRun E p runId runAgentId idempotencyKey i =
     idempotent E runAgentId (''run:'' @ runId @ '':agent:'' @ runAgentId @ '':sync'') idempotencyKey (sync_request_json i)
       (after (runForAgent p runId runAgentId) (\<lambda>_.
        in_run runId (sync_body E runId runAgentId i)))"

definition listIssuedResources :: "principal \<Rightarrow> string \<Rightarrow> string \<Rightarrow> resource_type \<Rightarrow> (service, json list) action" where
  "listIssuedResources p runId runAgentId resourceType =
     after (runForAgent p runId runAgentId) (\<lambda>stored.
     give (map snd (fold (\<lambda>receipt latest.
             if rc_resourceType receipt = resourceType then map_put (rc_resourceId receipt) (rc_contentSnapshot receipt) latest
             else latest) (receipts_of stored runAgentId) [])))"

end
