(* ===== verification/RunLifecycle.thy ===== *)
theory RunLifecycle
  imports RunService
begin

text \<open>
  The methods of \<open>apps/api/src/v2-in-memory-service.ts\<close> that create a run, let agents join, start it with its first
  resources, and let agents send messages and publish artifacts.
\<close>

section \<open>Creating and joining\<close>

definition new_run :: "run_dto \<Rightarrow> stored_run" where
  "new_run run =
     \<lparr>sr_initial = run, sr_run = run, sr_createdRunSeq = 1, sr_runAgents = [], sr_roleAssignments = [], sr_tasks = [],
      sr_taskStates = [], sr_messages = [], sr_artifacts = [], sr_artifactVersions = [], sr_submissions = [],
      sr_endorsements = [], sr_feedback = [], sr_actionGrants = [], sr_evaluations = [], sr_barriers = [], sr_eligible = [],
      sr_receipts = [], sr_acknowledgements = [], sr_events = [], sr_eventHeadHash = ZERO_HASH\<rparr>"

definition createRun :: "environment \<Rightarrow> principal \<Rightarrow> string \<Rightarrow> create_run \<Rightarrow> (service, response) action" where
  "createRun E p idempotencyKey i =
     idempotent E (pr_id p) ''run:create'' idempotencyKey (create_run_json i)
       (after (reading (\<lambda>s. map_of (svc_scenarioVersions s) (cr_scenarioVersionId i))) (\<lambda>found.
          case found of
            None \<Rightarrow> throw ''SCENARIO_VERSION_NOT_FOUND''
          | Some scenarioVersion \<Rightarrow>
              if sv_lifecycle scenarioVersion \<noteq> Scenario_PUBLISHED then throw ''SCENARIO_VERSION_NOT_FOUND''
              else
                after (timestamp E) (\<lambda>now.
                after (next_id E) (\<lambda>ident.
                  let run = \<lparr>rx_id = ident, rx_scenarioVersionId = sv_id scenarioVersion, rx_ownerId = pr_id p,
                        rx_label = cr_label i, rx_mode = cr_mode i, rx_state = FORMING,
                        rx_virtualTime = sv_replayStartAt scenarioVersion, rx_version = Num 1, rx_createdAt = now,
                        rx_updatedAt = now, rx_startedAt = None\<rparr>
                  in after (changing (\<lambda>s. s\<lparr>svc_runs := map_put ident (new_run run) (svc_runs s)\<rparr>)) (\<lambda>_.
                     after (in_run ident (appendRunEvent E (event_of ''run'' ident ''run.created'' ''operator'' (pr_id p)
                              ''operator_asserted'' [(''scenarioVersionId'', JString (rx_scenarioVersionId run))]))) (\<lambda>_.
                     give (Run_response run)))))))"

definition pinnedScenarioVersion :: "service \<Rightarrow> stored_run \<Rightarrow> scenario_version result" where
  "pinnedScenarioVersion s r =
     (case map_of (svc_scenarioVersions s) (rx_scenarioVersionId (sr_run r)) of
        None \<Rightarrow> fail ''SCENARIO_VERSION_NOT_FOUND''
      | Some v \<Rightarrow> if sv_lifecycle v \<noteq> Scenario_PUBLISHED then fail ''SCENARIO_VERSION_NOT_FOUND'' else Inr v)"

definition pinned :: "stored_run \<Rightarrow> (service, scenario_version) action" where
  "pinned r = after (reading (\<lambda>s. pinnedScenarioVersion s r)) (\<lambda>x. call x)"

definition join_body :: "environment \<Rightarrow> principal \<Rightarrow> string \<Rightarrow> string \<Rightarrow> join_run \<Rightarrow> (run_world, response) action" where
  "join_body E p runId agentVersionId i =
     after (timestamp E) (\<lambda>joinedAt.
     after (next_id E) (\<lambda>runAgentId.
     after (appendRunEvent E (event_of ''run_agent'' runAgentId ''run-agent.joined'' ''operator'' (pr_id p) ''operator_asserted''
              [(''agentVersionId'', JString agentVersionId), (''roleSlotId'', JString (jr_roleSlotId i)),
               (''instanceKey'', JString (jr_instanceKey i))])) (\<lambda>joinedEvent.
       let runAgent = \<lparr>rg_id = runAgentId, rg_runId = runId, rg_agentVersionId = agentVersionId,
             rg_instanceKey = jr_instanceKey i, rg_roleSlotId = jr_roleSlotId i, rg_state = ''JOINED'', rg_version = Num 1,
             rg_joinedAt = joinedAt\<rparr>
       in after (run_changing (\<lambda>r. r\<lparr>sr_runAgents := map_put runAgentId
                   \<lparr>sg_dto = runAgent, sg_joinedRunSeq = ed_runSeq joinedEvent\<rparr> (sr_runAgents r)\<rparr>)) (\<lambda>_.
          after (next_id E) (\<lambda>assignmentId.
          after (run_changing (\<lambda>r. r\<lparr>sr_roleAssignments := sr_roleAssignments r @
                   [\<lparr>ra_id = assignmentId, ra_runId = runId, ra_runAgentId = runAgentId, ra_roleSlotId = jr_roleSlotId i,
                     ra_assignedAt = joinedAt, ra_assignedRunSeq = ed_runSeq joinedEvent\<rparr>]\<rparr>)) (\<lambda>_.
          after (run_changing (\<lambda>r. r\<lparr>sr_eligible := map_put runAgentId [] (sr_eligible r)\<rparr>)) (\<lambda>_.
          after (run_changing (\<lambda>r. r\<lparr>sr_receipts := map_put runAgentId [] (sr_receipts r)\<rparr>)) (\<lambda>_.
          after (run_changing (\<lambda>r. r\<lparr>sr_acknowledgements := map_put runAgentId [] (sr_acknowledgements r)\<rparr>)) (\<lambda>_.
          give (Run_agent_response runAgent))))))))))"

definition joinRun :: "environment \<Rightarrow> principal \<Rightarrow> string \<Rightarrow> string \<Rightarrow> join_run \<Rightarrow> (service, response) action" where
  "joinRun E p runId idempotencyKey i =
     idempotent E (pr_id p) (''run:'' @ runId @ '':agent:join'') idempotencyKey (join_run_json i)
       (after (ownedRun p runId) (\<lambda>stored.
        after (throw_if (rx_state (sr_run stored) \<noteq> FORMING) ''RUN_STATE_CONFLICT'') (\<lambda>_.
        after (pinned stored) (\<lambda>scenarioVersion.
        after (throw_if (\<not> list_ex (\<lambda>role. rd_id role = jr_roleSlotId i) (sv_requiredRoles scenarioVersion)) ''RUN_ROLE_CONFLICT'') (\<lambda>_.
        after (throw_if (list_ex (\<lambda>a. ra_roleSlotId a = jr_roleSlotId i) (sr_roleAssignments stored)) ''RUN_ROLE_CONFLICT'') (\<lambda>_.
        after (throw_if (list_ex (\<lambda>a. rg_instanceKey (sg_dto a) = jr_instanceKey i) (map snd (sr_runAgents stored)))
                 ''RUN_ROLE_CONFLICT'') (\<lambda>_.
        after (reading (\<lambda>s. map_of (svc_agentVersions s) (jr_agentVersionId i))) (\<lambda>found.
          case found of
            None \<Rightarrow> throw ''AGENT_VERSION_NOT_FOUND''
          | Some agentVersion \<Rightarrow>
              after (throw_if (av_lifecycle agentVersion \<noteq> Version_PUBLISHED) ''AGENT_VERSION_NOT_FOUND'') (\<lambda>_.
              after (ownedAgent p (av_agentId agentVersion)) (\<lambda>_.
              in_run runId (join_body E p runId (av_id agentVersion) i)))))))))))"

section \<open>Starting\<close>

definition put_task :: "task_dto \<Rightarrow> (run_world, unit) action" where
  "put_task t = run_changing (\<lambda>r. r\<lparr>sr_tasks := map_put (td_id t) t (sr_tasks r)\<rparr>)"

definition put_message :: "message_dto \<Rightarrow> (run_world, unit) action" where
  "put_message m = run_changing (\<lambda>r. r\<lparr>sr_messages := map_put (me_id m) m (sr_messages r)\<rparr>)"

definition put_artifact :: "artifact_dto \<Rightarrow> (run_world, unit) action" where
  "put_artifact a = run_changing (\<lambda>r. r\<lparr>sr_artifacts := map_put (at_id a) a (sr_artifacts r),
     sr_artifactVersions := map_put (at_versionId a) a (sr_artifactVersions r)\<rparr>)"

definition system_event :: "string \<Rightarrow> string \<Rightarrow> string \<Rightarrow> (string \<times> json) list \<Rightarrow> event_input" where
  "system_event streamType streamId eventType payload =
     event_of streamType streamId eventType ''system'' ''excon'' ''platform_observed'' payload"

text \<open>The task, the briefing, the input and the first feedback of a role.\<close>

definition initial_task :: "environment \<Rightarrow> role_case \<Rightarrow> string \<Rightarrow> string \<Rightarrow> (run_world, unit) action" where
  "initial_task E roleCase roleId runAgentId =
     after (next_id E) (\<lambda>taskId.
     after (appendRunEvent E (system_event ''task'' taskId
              (if rk_initialTaskState roleCase = T_READY then ''task.ready'' else ''task.blocked'')
              [(''roleSlotId'', JString roleId), (''assignedRunAgentId'', JString runAgentId)])) (\<lambda>taskEvent.
     after (run_reading (\<lambda>r. rx_id (sr_run r))) (\<lambda>runId.
       let dto = \<lparr>td_id = taskId, td_runId = runId, td_roleSlotId = roleId, td_assignedRunAgentId = runAgentId,
             td_definitionKey = rk_taskDefinitionKey roleCase, td_title = rk_title roleCase, td_objective = rk_objective roleCase,
             td_state = rk_initialTaskState roleCase, td_lockVersion = Num 1, td_claimEpoch = Num 0,
             td_claimedByRunAgentId = None, td_leaseExpiresAt = None, td_createdRunSeq = ed_runSeq taskEvent\<rparr>
       in after (put_task dto) (\<lambda>_.
          after (call (createRunTask taskId runId (rk_initialTaskState roleCase) True)) (\<lambda>state.
          after (put_task_state state) (\<lambda>_.
          addEligible E runAgentId (Task_resource dto) taskEvent))))))"

definition initial_message :: "environment \<Rightarrow> role_definition \<Rightarrow> string \<Rightarrow> string \<Rightarrow> (run_world, unit) action" where
  "initial_message E role runAgentId createdAt =
     after (next_id E) (\<lambda>messageId.
     after (appendRunEvent E ((system_event ''message'' messageId ''message.created''
              [(''kind'', JString ''inform''), (''threadId'', JString messageId),
               (''recipientRunAgentIds'', strings_json [runAgentId]), (''artifactVersionIds'', JArray [])])
                \<lparr>ei_correlationId := Some messageId\<rparr>)) (\<lambda>messageEvent.
     after (run_reading (\<lambda>r. rx_id (sr_run r))) (\<lambda>runId.
       let message = \<lparr>me_id = messageId, me_runId = runId, me_threadId = messageId, me_kind = Inform,
             me_replyToMessageId = None, me_senderType = ''EXCON'', me_senderId = ''excon'',
             me_recipientRunAgentIds = [runAgentId],
             me_subject = \<lparr>lt_zh = lt_zh (rd_name role) @ env_chinese E ''role briefing'',
                           lt_en = lt_en (rd_name role) @ '' role briefing''\<rparr>,
             me_body = bilingual E ''Only receipted content and explicitly shared artifacts may enter your evidence set.'',
             me_artifactVersionRefs = [], me_createdRunSeq = ed_runSeq messageEvent,
             me_createdVirtualAt = ed_virtualTime messageEvent, me_createdAt = createdAt\<rparr>
       in after (put_message message) (\<lambda>_. addEligible E runAgentId (Message_resource message) messageEvent))))"

definition case_content :: "case_pack \<Rightarrow> role_case \<Rightarrow> string \<Rightarrow> json" where
  "case_content K roleCase roleId = JObject
     [(''schemaVersion'', JNumber (Num 1)), (''caseId'', JString ''jjj-yongding-replenishment-2023''),
      (''scenarioVersionId'', JString DEFAULT_V2_SCENARIO_VERSION_ID), (''stage'', JNumber (Num 1)),
      (''availableVirtualAt'', JString (kp_availableVirtualAt K)), (''roleSlotId'', JString roleId),
      (''simulationOnly'', JBool True), (''notForOperationalUse'', JBool True),
      (''taskOutputSchema'', JObject (rk_taskOutputSchema roleCase)), (''inputs'', JObject (rk_inputs roleCase))]"

definition initial_artifact ::
  "environment \<Rightarrow> case_pack \<Rightarrow> role_case \<Rightarrow> string \<Rightarrow> string \<Rightarrow> string \<Rightarrow> (run_world, unit) action" where
  "initial_artifact E K roleCase roleId runAgentId createdAt =
     after (next_id E) (\<lambda>artifactId.
     after (appendRunEvent E (system_event ''artifact'' artifactId ''artifact.published''
              [(''roleSlotId'', JString roleId), (''recipientRunAgentIds'', strings_json [runAgentId])])) (\<lambda>artifactEvent.
     after (next_id E) (\<lambda>versionId.
     after (run_reading (\<lambda>r. rx_id (sr_run r))) (\<lambda>runId.
       let content = case_content K roleCase roleId;
           artifact = \<lparr>at_id = artifactId, at_runId = runId, at_artifactKey = rk_artifactKey roleCase, at_versionId = versionId,
             at_versionNo = 1, at_baseVersionId = None, at_artifactType = ''case-input'', at_title = rk_artifactTitle roleCase,
             at_content = content, at_contentHash = hash E content, at_authorType = ''EXCON'', at_authorId = ''excon'',
             at_recipientRunAgentIds = [runAgentId], at_createdRunSeq = ed_runSeq artifactEvent, at_createdAt = createdAt\<rparr>
       in after (put_artifact artifact) (\<lambda>_. addEligible E runAgentId (Artifact_resource artifact) artifactEvent)))))"

definition initial_feedback :: "environment \<Rightarrow> string \<Rightarrow> string \<Rightarrow> (run_world, unit) action" where
  "initial_feedback E runAgentId createdAt =
     after (next_id E) (\<lambda>feedbackId.
     after (appendRunEvent E (system_event ''feedback'' feedbackId ''feedback.created''
              [(''targetScope'', JString ''individual''), (''recipientRunAgentIds'', strings_json [runAgentId])])) (\<lambda>feedbackEvent.
     after (run_reading (\<lambda>r. rx_id (sr_run r))) (\<lambda>runId.
       let feedback = \<lparr>fd_id = feedbackId, fd_runId = runId, fd_targetScope = ''individual'',
             fd_recipientRunAgentIds = [runAgentId], fd_basisType = ''readiness'',
             fd_summary = bilingual E ''The role assignment passed its readiness check.'',
             fd_guidance = [bilingual E ''Claim your independent task before collaborating through explicit messages and artifacts.''],
             fd_allowedActions = [''claim_task'', ''request_clarification''], fd_subjectSubmissionId = None,
             fd_actionGrants = [], fd_createdRunSeq = ed_runSeq feedbackEvent, fd_createdAt = createdAt\<rparr>
       in after (put_feedback feedback) (\<lambda>_. addEligible E runAgentId (Feedback_resource feedback) feedbackEvent))))"

definition createInitialResources ::
  "environment \<Rightarrow> case_pack \<Rightarrow> role_definition \<Rightarrow> string \<Rightarrow> (run_world, unit) action" where
  "createInitialResources E K role runAgentId =
     after (timestamp E) (\<lambda>createdAt.
       case role_case_of K (rd_id role) of
         None \<Rightarrow> throw ''INTERNAL_ERROR''
       | Some roleCase \<Rightarrow>
           after (initial_task E roleCase (rd_id role) runAgentId) (\<lambda>_.
           after (initial_message E role runAgentId createdAt) (\<lambda>_.
           after (initial_artifact E K roleCase (rd_id role) runAgentId createdAt) (\<lambda>_.
           initial_feedback E runAgentId createdAt))))"

definition create_barrier :: "environment \<Rightarrow> string \<Rightarrow> string \<Rightarrow> (run_world, unit) action" where
  "create_barrier E runId definitionKey =
     after (next_id E) (\<lambda>ident.
     after (call (createRunBarrier ident runId SPECIALISTS)) (\<lambda>barrier.
     after (put_barrier definitionKey barrier) (\<lambda>_.
     after (appendRunEvent E (system_event ''barrier'' (rb_id barrier) ''barrier.created''
              [(''definitionKey'', JString definitionKey), (''requiredConditionKeys'', strings_json (rb_requiredConditionKeys barrier))]))
       (\<lambda>_. give ()))))"

text \<open>\<open>new Map(assignments.map(...))\<close>: the last assignment of a role counts.\<close>

definition role_agents :: "stored_run \<Rightarrow> (string \<times> string) list" where
  "role_agents r = fold (\<lambda>a m. map_put (ra_roleSlotId a) (ra_runAgentId a) m) (sr_roleAssignments r) []"

definition quorum_of :: "scenario_version \<Rightarrow> stored_run \<Rightarrow> quorum_assessment result" where
  "quorum_of v r = assessRequiredRoleQuorum
     (map (\<lambda>role. \<lparr>slot_id = rd_id role, slot_roleId = rd_id role, slot_required = True\<rparr>) (sv_requiredRoles v))
     (map (\<lambda>a. \<lparr>asg_roleSlotId = ra_roleSlotId a, asg_runAgentId = ra_runAgentId a, asg_kind = Primary, asg_active = True\<rparr>)
        (sr_roleAssignments r))
     (sv_minDistinctRequiredAgents v) Collaborative_v2"


definition start_body :: "environment \<Rightarrow> case_pack \<Rightarrow> principal \<Rightarrow> string \<Rightarrow> scenario_version \<Rightarrow> (run_world, response) action" where
  "start_body E K p runId scenarioVersion =
     after (run_reading role_agents) (\<lambda>assignments.
     let roleIds = map rd_id (sv_requiredRoles scenarioVersion) in
     after (run_reading (quorum_of scenarioVersion)) (\<lambda>assessment.
     after (call assessment) (\<lambda>quorum.
     after (throw_if (\<not> qa_ready quorum) ''RUN_ROLE_CONFLICT'') (\<lambda>_.
     after (timestamp E) (\<lambda>startedAt.
     after (run_changing (\<lambda>r. r\<lparr>sr_run := (sr_run r)\<lparr>rx_state := RUNNING, rx_version := js_add (rx_version (sr_run r)) (Num 1),
              rx_updatedAt := startedAt, rx_startedAt := Some startedAt\<rparr>\<rparr>)) (\<lambda>_.
     after (appendRunEvent E (event_of ''run'' runId ''run.started'' ''operator'' (pr_id p) ''operator_asserted''
              [(''staffedRunAgentIds'', strings_json (js_set (List.map_filter (map_of assignments) roleIds)))])) (\<lambda>_.
     after (create_barrier E runId ''analysis-ready'') (\<lambda>_.
     after (create_barrier E runId ''endorsement-ready'') (\<lambda>_.
     after (perform_each (\<lambda>role. createInitialResources E K role
              (case map_of assignments (rd_id role) of None \<Rightarrow> [] | Some a \<Rightarrow> a)) (sv_requiredRoles scenarioVersion)) (\<lambda>_.
     run_reading (\<lambda>r. Run_response (sr_run r))))))))))))"

definition startRun ::
  "environment \<Rightarrow> case_pack \<Rightarrow> principal \<Rightarrow> string \<Rightarrow> string \<Rightarrow> js_number \<Rightarrow> (service, response) action" where
  "startRun E K p runId idempotencyKey expectedVersion =
     idempotent E (pr_id p) (''run:'' @ runId @ '':start'') idempotencyKey (version_command_json expectedVersion)
       (after (ownedRun p runId) (\<lambda>stored.
        after (assert_version (rx_version (sr_run stored)) expectedVersion ''RUN_VERSION_CONFLICT'') (\<lambda>_.
        after (throw_if (rx_state (sr_run stored) \<noteq> FORMING) ''RUN_STATE_CONFLICT'') (\<lambda>_.
        after (pinned stored) (\<lambda>scenarioVersion.
        in_run runId (start_body E K p runId scenarioVersion))))))"

section \<open>Messages\<close>

text \<open>Each artifact that a message cites is the version named, known to the sender and open to all recipients.\<close>

definition cited_artifact :: "string \<Rightarrow> string list \<Rightarrow> artifact_reference \<Rightarrow> (run_world, unit) action" where
  "cited_artifact runAgentId recipients reference =
     after (run_reading (\<lambda>r. (r, map_of (sr_artifactVersions r) (ar_artifactVersionId reference)))) (\<lambda>(r, found).
       case found of
         None \<Rightarrow> throw ''RECEIPT_REFERENCE_CONFLICT''
       | Some artifact \<Rightarrow>
           if at_id artifact \<noteq> ar_artifactId reference \<or> at_contentHash artifact \<noteq> ar_contentHash reference
           then throw ''RECEIPT_REFERENCE_CONFLICT''
           else if at_authorId artifact \<noteq> runAgentId
                   \<and> \<not> hasIssuedResource r runAgentId R_artifact (at_id artifact) (Some (at_versionId artifact))
           then throw ''RESOURCE_NOT_ISSUED''
           else throw_if (list_ex (\<lambda>recipient. recipient \<notin> set (at_recipientRunAgentIds artifact)) recipients)
                  ''MESSAGE_RECIPIENT_CONFLICT'')"

definition message_body :: "environment \<Rightarrow> string \<Rightarrow> string \<Rightarrow> create_message \<Rightarrow> (run_world, response) action" where
  "message_body E runAgentId runId i =
     after (assertRecipientSnapshot (cm_recipientRunAgentIds i) None) (\<lambda>_.
     after (next_id E) (\<lambda>messageId.
     after (run_reading (\<lambda>r. case cm_replyToMessageId i of None \<Rightarrow> None | Some m \<Rightarrow> map_of (sr_messages r) m)) (\<lambda>parentMessage.
     after (throw_if (cm_replyToMessageId i \<noteq> None \<and> parentMessage = None) ''MESSAGE_NOT_FOUND'') (\<lambda>_.
     after (run_reading (\<lambda>r. map_option (\<lambda>m. hasIssuedResource r runAgentId R_message (me_id m) None) parentMessage)) (\<lambda>parentIssued.
     after (call (createAgentInteraction
              \<lparr>ai_id = messageId, ai_kind = cm_kind i, ai_senderRunAgentId = runAgentId,
               ai_recipientRunAgentIds = cm_recipientRunAgentIds i, ai_replyToMessageId = cm_replyToMessageId i,
               ai_parentMessage = map_option (\<lambda>m. \<lparr>am_id = me_id m, am_threadId = me_threadId m, am_kind = me_kind m,
                 am_replyToMessageId = None, am_senderRunAgentId = me_senderId m,
                 am_recipientRunAgentIds = me_recipientRunAgentIds m\<rparr>) parentMessage,
               ai_parentIssuedToSender = parentIssued\<rparr>)) (\<lambda>interaction.
     after (perform_each (cited_artifact runAgentId (cm_recipientRunAgentIds i)) (cm_artifactVersionRefs i)) (\<lambda>_.
     after (run_reading (\<lambda>r. case parentMessage of None \<Rightarrow> None
              | Some m \<Rightarrow> find (\<lambda>e. ei_streamType (ed_input e) = ''message'' \<and> ei_streamId (ed_input e) = me_id m
                  \<and> ei_eventType (ed_input e) = ''message.created'') (sr_events r))) (\<lambda>parentEvent.
     after (appendRunEvent E \<lparr>ei_streamType = ''message'', ei_streamId = messageId, ei_eventType = ''message.created'',
              ei_actorType = ''run_agent'', ei_actorId = runAgentId, ei_correlationId = Some (am_threadId interaction),
              ei_causationId = map_option ed_eventId parentEvent, ei_assertionClass = ''participant_reported'',
              ei_payload = JObject ([(''runAgentId'', JString runAgentId), (''kind'', JString (message_kind_text (am_kind interaction))),
                  (''threadId'', JString (am_threadId interaction))]
                @ optional ''replyToMessageId'' JString (am_replyToMessageId interaction)
                @ [(''recipientRunAgentIds'', strings_json (cm_recipientRunAgentIds i)),
                   (''artifactVersionIds'', strings_json (map ar_artifactVersionId (cm_artifactVersionRefs i)))])\<rparr>) (\<lambda>event.
     after (timestamp E) (\<lambda>createdAt.
       let message = \<lparr>me_id = messageId, me_runId = runId, me_threadId = am_threadId interaction, me_kind = am_kind interaction,
             me_replyToMessageId = am_replyToMessageId interaction, me_senderType = ''RUN_AGENT'', me_senderId = runAgentId,
             me_recipientRunAgentIds = cm_recipientRunAgentIds i, me_subject = cm_subject i, me_body = cm_body i,
             me_artifactVersionRefs = cm_artifactVersionRefs i, me_createdRunSeq = ed_runSeq event,
             me_createdVirtualAt = ed_virtualTime event, me_createdAt = createdAt\<rparr>
       in after (put_message message) (\<lambda>_.
          after (perform_each (\<lambda>recipient. addEligible E recipient (Message_resource message) event) (me_recipientRunAgentIds message)) (\<lambda>_.
          give (Message_response message)))))))))))))"

definition createMessage ::
  "environment \<Rightarrow> principal \<Rightarrow> string \<Rightarrow> string \<Rightarrow> string \<Rightarrow> create_message \<Rightarrow> (service, response) action" where
  "createMessage E p runAgentId runId idempotencyKey i =
     idempotent E runAgentId (''run:'' @ runId @ '':message:create'') idempotencyKey (create_message_json i)
       (after (runForAgent p runId runAgentId) (\<lambda>stored.
        after (assertRunning stored) (\<lambda>_.
        in_run runId (message_body E runAgentId runId i))))"

section \<open>Artifacts\<close>

definition artifact_body :: "environment \<Rightarrow> string \<Rightarrow> string \<Rightarrow> create_artifact \<Rightarrow> (run_world, response) action" where
  "artifact_body E runAgentId runId i =
     after (assertRecipientSnapshot (ca_recipientRunAgentIds i) None) (\<lambda>_.
     after (run_reading (\<lambda>r. list_ex (\<lambda>a. at_artifactKey a = ca_artifactKey i) (map snd (sr_artifacts r)))) (\<lambda>taken.
     after (throw_if taken ''ARTIFACT_KEY_CONFLICT'') (\<lambda>_.
     after (next_id E) (\<lambda>artifactId.
     after (next_id E) (\<lambda>versionId.
     after (appendRunEvent E (event_of ''artifact'' artifactId ''artifact.published'' ''run_agent'' runAgentId ''participant_reported''
              [(''runAgentId'', JString runAgentId), (''versionId'', JString versionId), (''versionNo'', jnat 1),
               (''recipientRunAgentIds'', strings_json (ca_recipientRunAgentIds i))])) (\<lambda>event.
     after (timestamp E) (\<lambda>createdAt.
       let artifact = \<lparr>at_id = artifactId, at_runId = runId, at_artifactKey = ca_artifactKey i, at_versionId = versionId,
             at_versionNo = 1, at_baseVersionId = None, at_artifactType = ca_artifactType i, at_title = ca_title i,
             at_content = canonicalize (ca_content i), at_contentHash = hash E (ca_content i), at_authorType = ''RUN_AGENT'',
             at_authorId = runAgentId, at_recipientRunAgentIds = ca_recipientRunAgentIds i,
             at_createdRunSeq = ed_runSeq event, at_createdAt = createdAt\<rparr>
       in after (put_artifact artifact) (\<lambda>_.
          after (perform_each (\<lambda>recipient. addEligible E recipient (Artifact_resource artifact) event) (ca_recipientRunAgentIds i)) (\<lambda>_.
          give (Artifact_response artifact))))))))))"

definition createArtifact ::
  "environment \<Rightarrow> principal \<Rightarrow> string \<Rightarrow> string \<Rightarrow> string \<Rightarrow> create_artifact \<Rightarrow> (service, response) action" where
  "createArtifact E p runAgentId runId idempotencyKey i =
     idempotent E runAgentId (''run:'' @ runId @ '':artifact:create'') idempotencyKey (create_artifact_json i)
       (after (runForAgent p runId runAgentId) (\<lambda>stored.
        after (assertRunning stored) (\<lambda>_.
        in_run runId (artifact_body E runAgentId runId i))))"

definition artifact_version_body ::
  "environment \<Rightarrow> string \<Rightarrow> string \<Rightarrow> create_artifact_version \<Rightarrow> (run_world, response) action" where
  "artifact_version_body E runAgentId artifactId i =
     after (run_reading (\<lambda>r. (r, map_of (sr_artifacts r) artifactId))) (\<lambda>(r, found).
       case found of
         None \<Rightarrow> throw ''TypeError''
       | Some current \<Rightarrow>
           after (throw_if (at_authorId current \<noteq> runAgentId
                     \<and> \<not> hasIssuedResource r runAgentId R_artifact artifactId (Some (cx_baseVersionId i))) ''RESOURCE_NOT_ISSUED'') (\<lambda>_.
           after (throw_if (at_versionId current \<noteq> cx_baseVersionId i) ''ARTIFACT_BASE_CONFLICT'') (\<lambda>_.
           after (assertRecipientSnapshot (cx_recipientRunAgentIds i) None) (\<lambda>_.
           after (next_id E) (\<lambda>versionId.
           after (appendRunEvent E (event_of ''artifact'' artifactId ''artifact.version-published'' ''run_agent'' runAgentId
                    ''participant_reported''
                    [(''runAgentId'', JString runAgentId), (''versionId'', JString versionId),
                     (''baseVersionId'', JString (cx_baseVersionId i)), (''versionNo'', jnat (at_versionNo current + 1)),
                     (''recipientRunAgentIds'', strings_json (cx_recipientRunAgentIds i))])) (\<lambda>event.
           after (timestamp E) (\<lambda>createdAt.
             let artifact = current\<lparr>at_versionId := versionId, at_versionNo := at_versionNo current + 1,
                   at_baseVersionId := Some (cx_baseVersionId i), at_content := canonicalize (cx_content i),
                   at_contentHash := hash E (cx_content i), at_authorType := ''RUN_AGENT'', at_authorId := runAgentId,
                   at_recipientRunAgentIds := cx_recipientRunAgentIds i, at_createdRunSeq := ed_runSeq event,
                   at_createdAt := createdAt\<rparr>
             in after (put_artifact artifact) (\<lambda>_.
                after (perform_each (\<lambda>recipient. addEligible E recipient (Artifact_resource artifact) event) (cx_recipientRunAgentIds i)) (\<lambda>_.
                give (Artifact_response artifact))))))))))"

definition createArtifactVersion ::
  "environment \<Rightarrow> principal \<Rightarrow> string \<Rightarrow> string \<Rightarrow> string \<Rightarrow> create_artifact_version \<Rightarrow> (service, response) action" where
  "createArtifactVersion E p runAgentId artifactId idempotencyKey i =
     idempotent E runAgentId (''artifact:'' @ artifactId @ '':version:create'') idempotencyKey (create_artifact_version_json i)
       (after (reading (\<lambda>s. find (\<lambda>(_, r). map_of (sr_artifacts r) artifactId \<noteq> None) (svc_runs s))) (\<lambda>found.
          case found of
            None \<Rightarrow> throw ''ARTIFACT_NOT_FOUND''
          | Some (runId, stored) \<Rightarrow>
              after (runForAgent p runId runAgentId) (\<lambda>_.
              after (assertRunning stored) (\<lambda>_.
              in_run runId (artifact_version_body E runAgentId artifactId i)))))"

section \<open>Queries\<close>

definition listRuns :: "service \<Rightarrow> principal \<Rightarrow> run_dto list" where
  "listRuns s p = filter (\<lambda>r. rx_ownerId r = pr_id p) (map (sr_run \<circ> snd) (svc_runs s))"

definition getRun :: "principal \<Rightarrow> string \<Rightarrow> (service, run_dto) action" where
  "getRun p runId = after (ownedRun p runId) (\<lambda>r. give (sr_run r))"

definition listRunAgents :: "principal \<Rightarrow> string \<Rightarrow> (service, run_agent list) action" where
  "listRunAgents p runId = after (ownedRun p runId) (\<lambda>r. give (map (sg_dto \<circ> snd) (sr_runAgents r)))"

definition listRunEvents :: "principal \<Rightarrow> string \<Rightarrow> nat \<Rightarrow> nat \<Rightarrow> (service, event_dto list) action" where
  "listRunEvents p runId start limit =
     after (ownedRun p runId) (\<lambda>r. give (take limit (filter (\<lambda>e. start < ed_runSeq e) (sr_events r))))"

definition listRunEvaluations :: "principal \<Rightarrow> string \<Rightarrow> (service, evaluation_dto list) action" where
  "listRunEvaluations p runId = after (ownedRun p runId) (\<lambda>r. give (map snd (sr_evaluations r)))"

record run_agent_me =
  rm_runAgent :: run_agent
  rm_roleAssignment :: role_assignment
  rm_role :: role_definition
  rm_afterReceiptSeq :: nat
  rm_receiptHeadHash :: string

definition getRunAgentMe :: "principal \<Rightarrow> string \<Rightarrow> string \<Rightarrow> (service, run_agent_me) action" where
  "getRunAgentMe p runId runAgentId =
     after (runForAgent p runId runAgentId) (\<lambda>stored.
       case map_of (sr_runAgents stored) runAgentId of
         None \<Rightarrow> throw ''RUN_AGENT_NOT_FOUND''
       | Some runAgent \<Rightarrow>
           after (pinned stored) (\<lambda>scenarioVersion.
             case (find (\<lambda>a. ra_runAgentId a = runAgentId) (sr_roleAssignments stored),
                   find (\<lambda>role. rd_id role = rg_roleSlotId (sg_dto runAgent)) (sv_requiredRoles scenarioVersion)) of
               (Some roleAssignment, Some role) \<Rightarrow>
                 give \<lparr>rm_runAgent = sg_dto runAgent, rm_roleAssignment = roleAssignment, rm_role = role,
                       rm_afterReceiptSeq = length (receipts_of stored runAgentId),
                       rm_receiptHeadHash = head_hash (receipts_of stored runAgentId)\<rparr>
             | _ \<Rightarrow> throw ''INTERNAL_ERROR''))"

end
