(* ===== verification/RunCommands.thy ===== *)
theory RunCommands
  imports RunLifecycle ScenarioAuthoring
begin

text \<open>
  Sequences of calls of the service, and how a fact about single runs becomes one about the service: the locale
  \<open>run_contract\<close> states what the bodies of the methods have to respect, and its lemmas carry it to every sequence of calls.
\<close>

section \<open>Commands\<close>

datatype run_command =
  Authoring authoring_command
| Create_run principal string create_run
| Join_run principal string string join_run
| Start_run principal string string js_number
| Sync_run principal string string string sync_request
| Claim_task principal string string string js_number int
| Begin_task principal string string string lease_request
| Heartbeat_task principal string string string lease_request int
| Release_task principal string string string lease_request
| Submit_task principal string string string create_submission
| Create_message principal string string string create_message
| Create_artifact principal string string string create_artifact
| Create_artifact_version principal string string string create_artifact_version
| Endorse_submission principal string string string string

fun exec :: "environment \<Rightarrow> case_pack \<Rightarrow> run_command \<Rightarrow> (service, response) action" where
  "exec E K (Authoring c) = exec_authoring E c"
| "exec E K (Create_run p k i) = createRun E p k i"
| "exec E K (Join_run p n k i) = joinRun E p n k i"
| "exec E K (Start_run p n k v) = startRun E K p n k v"
| "exec E K (Sync_run p n a k i) = syncRun E p n a k i"
| "exec E K (Claim_task p a n k v l) = claimTask E p a n k v l"
| "exec E K (Begin_task p a n k i) = beginTask E p a n k i"
| "exec E K (Heartbeat_task p a n k i x) = heartbeatTask E p a n k i x"
| "exec E K (Release_task p a n k i) = releaseTask E p a n k i"
| "exec E K (Submit_task p a n k i) = submitTask E K p a n k i"
| "exec E K (Create_message p a n k i) = createMessage E p a n k i"
| "exec E K (Create_artifact p a n k i) = createArtifact E p a n k i"
| "exec E K (Create_artifact_version p a n k i) = createArtifactVersion E p a n k i"
| "exec E K (Endorse_submission p a n k g) = endorseSubmission E K p a n k g"

definition served :: "environment \<Rightarrow> case_pack \<Rightarrow> service \<Rightarrow> run_command list \<Rightarrow> service" where
  "served E K s cs = fold (\<lambda>c s. snd (exec E K c s)) cs s"

lemma served_simps [simp]:
  "served E K s [] = s" "served E K s (c # cs) = served E K (snd (exec E K c s)) cs"
  "served E K s (cs @ ds) = served E K (served E K s cs) ds"
  by (simp_all add: served_def)

section \<open>Runs of a service\<close>

text \<open>Runs are stored once, under identifiers from the factory.\<close>

definition runs_ok :: "environment \<Rightarrow> service \<Rightarrow> bool" where
  "runs_ok E s \<longleftrightarrow> distinct (map fst (svc_runs s)) \<and> fst ` set (svc_runs s) \<subseteq> env_idFactory E ` {..<tk_ids s}"

definition every_run :: "(run_world \<Rightarrow> bool) \<Rightarrow> service \<Rightarrow> bool" where
  "every_run I s \<longleftrightarrow> (\<forall>(n, r) \<in> set (svc_runs s). I (world_of s r))"

definition runs_keep ::
  "environment \<Rightarrow> (run_world \<Rightarrow> run_world \<Rightarrow> bool) \<Rightarrow> (run_world \<Rightarrow> bool) \<Rightarrow> service \<Rightarrow> service \<Rightarrow> bool" where
  "runs_keep E R I s t \<longleftrightarrow> (inj (env_idFactory E) \<and> runs_ok E s \<longrightarrow>
     runs_ok E t \<and> tk_ids s \<le> tk_ids t \<and> (every_run I s \<longrightarrow> every_run I t)
     \<and> (\<forall>(n, r) \<in> set (svc_runs s). \<exists>r'. (n, r') \<in> set (svc_runs t) \<and> R (world_of s r) (world_of t r')))"

text \<open>What a method knows about the run when its body starts.\<close>

definition current_task :: "string \<Rightarrow> string \<Rightarrow> run_task \<Rightarrow> task_dto \<Rightarrow> run_world \<Rightarrow> bool" where
  "current_task a n t d w \<longleftrightarrow> rx_state (sr_run (rw_run w)) = RUNNING
     \<and> map_of (sr_tasks (rw_run w)) n = Some d \<and> map_of (sr_taskStates (rw_run w)) n = Some t
     \<and> td_assignedRunAgentId d = a \<and> hasIssuedResource (rw_run w) a R_task n None"

definition in_state :: "exercise_run_state \<Rightarrow> run_world \<Rightarrow> bool" where
  "in_state x w \<longleftrightarrow> rx_state (sr_run (rw_run w)) = x"

definition has_submission :: "submission_dto \<Rightarrow> run_world \<Rightarrow> bool" where
  "has_submission x w \<longleftrightarrow> (\<exists>n. map_of (sr_submissions (rw_run w)) n = Some x)"

definition evolves_from :: "(run_world \<Rightarrow> bool) \<Rightarrow> (run_world \<Rightarrow> run_world \<Rightarrow> bool) \<Rightarrow> (run_world, 'a) action \<Rightarrow> bool" where
  "evolves_from P R m \<longleftrightarrow> (\<forall>w. P w \<longrightarrow> R w (snd (m w)))"

lemma evolves_evolves_from: "evolves R m \<Longrightarrow> evolves_from P R m"
  by (simp add: evolves_def evolves_from_def)

lemma evolves_fromD: "evolves_from P R m \<Longrightarrow> P w \<Longrightarrow> m w = (x, v) \<Longrightarrow> R w v"
  by (auto simp: evolves_from_def dest: spec [of _ w])

text \<open>What the guards of the methods establish; none of them changes the state.\<close>

context evolution
begin

lemma pair_action: "(\<And>a b. evolves R (f a b)) \<Longrightarrow> evolves R (case x of (a, b) \<Rightarrow> f a b)"
  by (cases x) simp

end

interpretation stands: evolution "\<lambda>s t. t = s"
  by unfold_locales auto

lemma guards_stand:
  "evolves (\<lambda>s t. t = s) (ownedRun p n)" "evolves (\<lambda>s t. t = s) (runForAgent p n a)" "evolves (\<lambda>s t. t = s) (pinned r)"
  "evolves (\<lambda>s t. t = s) (assert_version v1 v2 c)" "evolves (\<lambda>s t. t = s) (taskForAgent p a n)"
  "evolves (\<lambda>s t. t = s) (ownedAgent p i)" "evolves (\<lambda>s t. t = s) (runContainingSubmission i)"
  unfolding ownedRun_def runForAgent_def pinned_def assertRunning_def assert_version_def taskForAgent_def ownedAgent_def
    runContainingSubmission_def
  by (intro stands.rules stands.pair_action)+

lemmas guard_state = guards_stand [THEN evolvesD]

lemma action_Inr:
  "give x s = (Inr y, t) \<longleftrightarrow> y = x \<and> t = s" "throw c s = (Inr y, t) \<longleftrightarrow> False" "reading g s = (Inr y, t) \<longleftrightarrow> y = g s \<and> t = s"
  by (auto simp: action_simps fail_def)

lemma ownedRun_Inr: "ownedRun p n s = (Inr r, u) \<Longrightarrow> (n, r) \<in> set (svc_runs s)"
  by (auto simp: ownedRun_def after_Inr action_Inr dest: map_of_SomeD split: option.splits if_splits)

lemma runForAgent_Inr: "runForAgent p n a s = (Inr r, u) \<Longrightarrow> (n, r) \<in> set (svc_runs s) \<and> u = s"
  by (auto simp: runForAgent_def after_Inr action_Inr dest: map_of_SomeD split: option.splits if_splits)

lemma taskForAgent_Inr:
  assumes "taskForAgent p a n s = (Inr (i, t, d), u)"
  shows "\<exists>r. (i, r) \<in> set (svc_runs s) \<and> current_task a n t d (world_of s r)"
  using assms unfolding taskForAgent_def assertRunning_def
  by (auto simp: after_Inr action_Inr current_task_def world_of_def
    dest!: find_SomeD runForAgent_Inr split: option.splits if_splits)

lemma runContainingSubmission_Inr:
  assumes "runContainingSubmission i s = (Inr (n, x), u)"
  shows "\<exists>r. (n, r) \<in> set (svc_runs s) \<and> has_submission x (world_of s r)"
  using assms unfolding runContainingSubmission_def
  by (auto simp: after_Inr action_Inr has_submission_def world_of_def dest!: find_SomeD split: option.splits if_splits) blast

text \<open>Authoring leaves the runs alone.\<close>

definition beside_runs :: "service \<Rightarrow> service \<Rightarrow> bool" where
  "beside_runs s t \<longleftrightarrow> svc_runs t = svc_runs s \<and> tk_ids s \<le> tk_ids t \<and> tk_clock s \<le> tk_clock t"

interpretation besides: evolution beside_runs
  by unfold_locales (auto simp: beside_runs_def)

lemma tick_beside_runs: "evolves beside_runs (timestamp E)" "evolves beside_runs (next_id E)"
  by (simp_all add: evolves_def beside_runs_def timestamp_def next_id_def)

lemma bodies_beside_runs:
  "evolves beside_runs (create_scenario_body E p i1)"
  "evolves beside_runs (create_version_body E p n i2)"
  "evolves beside_runs (validate_version_body E p n v)"
  "evolves beside_runs (publish_version_body E p n v)"
  "evolves beside_runs (create_agent_body E p i3)"
  "evolves beside_runs (create_agent_version_body E p n i4)"
  unfolding create_scenario_body_def create_version_body_def validate_version_body_def publish_version_body_def
    create_agent_body_def create_agent_version_body_def ownedScenarioVersion_def ownedScenario_def ownedAgent_def
    assertDraftScenarioVersion_def assert_version_def
  by (intro besides.rules tick_beside_runs besides.changing; simp add: beside_runs_def put_scenario_def put_version_def)+

lemma idempotent_beside_runs: "evolves beside_runs m \<Longrightarrow> evolves beside_runs (idempotent E a sc k request m)"
  unfolding idempotent_def by (intro besides.rules besides.changing) (simp_all add: beside_runs_def)

lemma authoring_beside_runs: "evolves beside_runs (exec_authoring E c)"
  by (cases c) (simp_all add: createScenario_def createScenarioVersion_def validateScenarioVersion_def
    publishScenarioVersion_def createAgent_def createAgentVersion_def idempotent_beside_runs bodies_beside_runs)

text \<open>What an action does at one state.\<close>

definition at_state :: "('s \<Rightarrow> 's \<Rightarrow> bool) \<Rightarrow> 's \<Rightarrow> ('s, 'a) action \<Rightarrow> bool" where
  "at_state Q s m \<longleftrightarrow> (\<forall>r t. m s = (r, t) \<longrightarrow> Q s t)"

text \<open>The contract of the bodies with a relation that may relate the run before and after, and an invariant.\<close>

locale run_contract =
  fixes E :: environment and K :: case_pack
    and R :: "run_world \<Rightarrow> run_world \<Rightarrow> bool" and I :: "run_world \<Rightarrow> bool"
  assumes same: "R w w"
    and both: "R u v \<Longrightarrow> R v w \<Longrightarrow> R u w"
    and keeps: "R v w \<Longrightarrow> I v \<Longrightarrow> I w"
    and forwards: "R v w \<Longrightarrow> tk_ids v \<le> tk_ids w \<and> tk_clock v \<le> tk_clock w"
    and ticking: "rw_run v = rw_run w \<Longrightarrow> tk_ids v \<le> tk_ids w \<Longrightarrow> tk_clock v \<le> tk_clock w \<Longrightarrow> R v w"
    and created: "rx_state run = FORMING \<Longrightarrow> rw_run w = new_run run \<Longrightarrow> I (snd (appendRunEvent E e w))"
    and joined: "evolves_from (in_state FORMING) R (join_body E p n av j)"
    and started: "evolves_from (in_state FORMING) R (start_body E K p n sv)"
    and synced: "evolves R (sync_body E n a q)"
    and claimed: "evolves_from (current_task a n t d) R (claim_body E a t ev ls)"
    and begun: "evolves_from (current_task a n t d) R (begin_body E a t l)"
    and renewed: "evolves_from (current_task a n t d) R (heartbeat_body E a t l xs)"
    and released: "evolves_from (current_task a n t d) R (release_body E a t l)"
    and submitted: "evolves_from (current_task a n t d) R (submit_body E K a n t d si)"
    and messaged: "evolves_from (in_state RUNNING) R (message_body E a n mi)"
    and published: "evolves_from (in_state RUNNING) R (artifact_body E a n ci)"
    and revised: "evolves_from (in_state RUNNING) R (artifact_version_body E a n xi)"
    and endorsed: "evolves_from (has_submission x) R (endorse_body E K a x g)"
begin

abbreviation (input) kept :: "service \<Rightarrow> service \<Rightarrow> bool" where
  "kept \<equiv> runs_keep E R I"

lemma kept_same: "kept s s"
  by (auto simp: runs_keep_def same)

lemma kept_both: "kept s t \<Longrightarrow> kept t u \<Longrightarrow> kept s u"
  unfolding runs_keep_def by (fastforce intro: both)

lemma kept_beside:
  assumes "svc_runs t = svc_runs s" and "tk_ids s \<le> tk_ids t" and "tk_clock s \<le> tk_clock t"
  shows "kept s t"
proof -
  have step: "R (world_of s r) (world_of t r)" for r using assms(2,3) by (intro ticking) (simp_all add: world_of_def)
  have "runs_ok E t" if "runs_ok E s"
  proof -
    have "env_idFactory E ` {..<tk_ids s} \<subseteq> env_idFactory E ` {..<tk_ids t}" using assms(2) by (intro image_mono) auto
    then show ?thesis using that assms(1) unfolding runs_ok_def by (metis subset_trans)
  qed
  moreover have "every_run I t" if "every_run I s"
    using that assms(1) keeps [OF step] by (auto simp: every_run_def)
  ultimately show ?thesis using assms(1,2) step by (auto simp: runs_keep_def)
qed

lemma world_of_put: "world_of (put_world n s w) (rw_run w) = w"
  by (simp add: world_of_def put_world_def)

lemma in_run_kept:
  assumes "evolves_from P R m" and "(n, r) \<in> set (svc_runs s)" and "P (world_of s r)" and "in_run n m s = (x, t)"
  shows "kept s t"
  unfolding runs_keep_def
proof (intro impI)
  assume ok: "inj (env_idFactory E) \<and> runs_ok E s"
  then have d: "distinct (map fst (svc_runs s))" by (simp add: runs_ok_def)
  then have "map_of (svc_runs s) n = Some r" using assms(2) by simp
  then obtain w where w: "m (world_of s r) = (x, w)" and t: "t = put_world n s w"
    using assms(4) by (auto simp: in_run_def split: prod.splits)
  have Rw: "R (world_of s r) w" using evolves_fromD [OF assms(1,3) w] .
  have ticks: "tk_ids s \<le> tk_ids t" "tk_clock s \<le> tk_clock t" using forwards [OF Rw] by (simp_all add: t put_world_def world_of_def)
  have runs: "set (svc_runs t) = insert (n, rw_run w) {e \<in> set (svc_runs s). fst e \<noteq> n}"
    by (simp add: t put_world_def set_map_put [OF d])
  have other: "R (world_of s r') (world_of t r')" for r' using ticks by (intro ticking) (simp_all add: world_of_def)
  have this_run: "world_of t (rw_run w) = w" by (simp add: t world_of_put)
  have "env_idFactory E ` {..<tk_ids s} \<subseteq> env_idFactory E ` {..<tk_ids t}" using ticks(1) by (intro image_mono) auto
  moreover have "n \<in> fst ` set (svc_runs s)" using assms(2) by force
  then have "fst ` set (svc_runs t) = fst ` set (svc_runs s)" by (simp add: t put_world_def insert_absorb)
  moreover have "distinct (map fst (svc_runs t))" using d by (simp add: t put_world_def)
  ultimately have "runs_ok E t" using ok unfolding runs_ok_def by (metis order_trans)
  moreover have "every_run I t" if all: "every_run I s"
    unfolding every_run_def runs
  proof safe
    fix n' r'
    assume e: "(n', r') \<in> set (svc_runs s)"
    then have "I (world_of s r')" using all by (auto simp: every_run_def)
    then show "I (world_of t r')" using keeps [OF other] by blast
  next
    have "I (world_of s r)" using all assms(2) by (auto simp: every_run_def)
    then show "I (world_of t (rw_run w))" using keeps [OF Rw] this_run by simp
  qed
  moreover have "\<exists>r''. (n', r'') \<in> set (svc_runs t) \<and> R (world_of s r') (world_of t r'')" if e: "(n', r') \<in> set (svc_runs s)" for n' r'
  proof (cases "n' = n")
    case True
    then have "r' = r" using e assms(2) d by (metis eq_key_imp_eq_value)
    then show ?thesis using Rw this_run True runs by (intro exI [of _ "rw_run w"]) simp
  next
    case False
    then show ?thesis using e other runs by auto
  qed
  ultimately show "runs_ok E t \<and> tk_ids s \<le> tk_ids t \<and> (every_run I s \<longrightarrow> every_run I t) \<and>
      (\<forall>(n, r) \<in> set (svc_runs s). \<exists>r'. (n, r') \<in> set (svc_runs t) \<and> R (world_of s r) (world_of t r'))"
    using ticks(1) by auto
qed

lemma new_run_kept:
  assumes "rx_state run = FORMING" and "in_run (env_idFactory E (tk_ids s)) (appendRunEvent E e)
      (v\<lparr>svc_runs := map_put (env_idFactory E (tk_ids s)) (new_run run) (svc_runs v)\<rparr>) = (x, t)"
    and v: "svc_runs v = svc_runs s" "tk_ids v = Suc (tk_ids s)" "tk_clock s \<le> tk_clock v"
  shows "kept s t"
  unfolding runs_keep_def
proof (intro impI)
  let ?n = "env_idFactory E (tk_ids s)"
  assume ok: "inj (env_idFactory E) \<and> runs_ok E s"
  let ?u = "v\<lparr>svc_runs := map_put ?n (new_run run) (svc_runs v)\<rparr>"
  obtain w where w: "appendRunEvent E e (world_of ?u (new_run run)) = (x, w)" and t: "t = put_world ?n ?u w"
    using assms(2) by (auto simp: in_run_def split: prod.splits)
  have ids: "tk_ids w = Suc (tk_ids v)" "tk_clock w = Suc (tk_clock v)" using w
    by (auto simp: appendRunEvent_def Let_def action_simps next_id_def timestamp_def identified_def clocked_def run_reading_def run_changing_def world_of_def)
  then have ticks: "tk_ids s \<le> tk_ids t" "tk_clock s \<le> tk_clock t" using v by (simp_all add: t put_world_def)
  have fresh: "?n \<notin> fst ` set (svc_runs s)"
  proof
    assume "?n \<in> fst ` set (svc_runs s)"
    then have "?n \<in> env_idFactory E ` {..<tk_ids s}" using ok by (auto simp: runs_ok_def)
    then show False using ok by (auto dest: injD)
  qed
  have d: "distinct (map fst (svc_runs s))" using ok by (simp add: runs_ok_def)
  have "set (svc_runs t) = insert (?n, rw_run w) {e \<in> insert (?n, new_run run) {e \<in> set (svc_runs s). fst e \<noteq> ?n}. fst e \<noteq> ?n}"
    using d by (simp add: t put_world_def v set_map_put)
  moreover have "{e \<in> insert (?n, new_run run) {e \<in> set (svc_runs s). fst e \<noteq> ?n}. fst e \<noteq> ?n} = set (svc_runs s)"
    using fresh by (auto simp: image_iff)
  ultimately have runs: "set (svc_runs t) = insert (?n, rw_run w) (set (svc_runs s))" by simp
  have other: "R (world_of s r') (world_of t r')" for r' using ticks by (intro ticking) (simp_all add: world_of_def)
  have "env_idFactory E ` {..<tk_ids s} \<subseteq> env_idFactory E ` {..<tk_ids t}" using ticks(1) by (intro image_mono) auto
  then have "fst ` set (svc_runs s) \<subseteq> env_idFactory E ` {..<tk_ids t}" using ok unfolding runs_ok_def by (meson subset_trans)
  moreover have "?n \<in> env_idFactory E ` {..<tk_ids t}" using ids v by (intro imageI) (simp add: t put_world_def)
  moreover have "fst ` set (svc_runs t) = insert ?n (fst ` set (svc_runs s))" by (simp add: runs)
  moreover have "distinct (map fst (svc_runs t))" using d by (simp add: t put_world_def v)
  ultimately have "runs_ok E t" unfolding runs_ok_def by simp
  moreover have "every_run I t" if all: "every_run I s"
    unfolding every_run_def runs
  proof safe
    fix n' r'
    assume "(n', r') \<in> set (svc_runs s)"
    then show "I (world_of t r')" using all keeps [OF other] by (auto simp: every_run_def)
  next
    have "I w" using created [OF assms(1), of "world_of ?u (new_run run)" e] w by (simp add: world_of_def)
    then show "I (world_of t (rw_run w))" by (simp add: t world_of_put)
  qed
  moreover have "\<exists>r''. (n', r'') \<in> set (svc_runs t) \<and> R (world_of s r') (world_of t r'')" if "(n', r') \<in> set (svc_runs s)" for n' r'
    using that other runs by (intro exI [of _ r'] conjI) simp_all
  ultimately show "runs_ok E t \<and> tk_ids s \<le> tk_ids t \<and> (every_run I s \<longrightarrow> every_run I t) \<and>
      (\<forall>(n, r) \<in> set (svc_runs s). \<exists>r'. (n, r') \<in> set (svc_runs t) \<and> R (world_of s r) (world_of t r'))"
    using ticks(1) by auto
qed

text \<open>Methods, by the guards that come before their bodies.\<close>

lemma kept_throw: "at_state kept s (throw c)"
  by (simp add: at_state_def action_simps kept_same)

lemma kept_guard: "(\<not> b \<Longrightarrow> at_state kept s (f ())) \<Longrightarrow> at_state kept s (after (throw_if b c) f)"
  by (auto simp: at_state_def after_guard kept_same)

lemma kept_reading: "at_state kept s (f (g s)) \<Longrightarrow> at_state kept s (after (reading g) f)"
  by (simp add: at_state_def after_reading)

lemma kept_lookup:
  assumes "evolves (\<lambda>s t. t = s) m" and "\<And>y. m s = (Inr y, s) \<Longrightarrow> at_state kept s (f y)"
  shows "at_state kept s (after m f)"
  using assms(2) evolvesD [OF assms(1)] kept_same by (fastforce simp: at_state_def after_cases)

lemma kept_option:
  "(x = None \<Longrightarrow> at_state kept s m) \<Longrightarrow> (\<And>y. x = Some y \<Longrightarrow> at_state kept s (f y)) \<Longrightarrow>
   at_state kept s (case x of None \<Rightarrow> m | Some y \<Rightarrow> f y)"
  by (cases x) simp_all

lemma kept_if: "(b \<Longrightarrow> at_state kept s m) \<Longrightarrow> (\<not> b \<Longrightarrow> at_state kept s n) \<Longrightarrow> at_state kept s (if b then m else n)"
  by simp

lemma kept_in_run:
  "evolves_from P R m \<Longrightarrow> (n, r) \<in> set (svc_runs s) \<Longrightarrow> P (world_of s r) \<Longrightarrow> at_state kept s (in_run n m)"
  using in_run_kept by (auto simp: at_state_def)

lemma kept_idempotent:
  assumes "at_state kept s operation"
  shows "at_state kept s (idempotent E a sc k request operation)"
  unfolding at_state_def
proof (intro allI impI)
  fix r t
  assume run: "idempotent E a sc k request operation s = (r, t)"
  show "kept s t"
  proof (cases "map_of (svc_idempotency s) (cache_key a sc k)")
    case (Some p)
    then show ?thesis using run kept_same by (auto simp: idempotent_recorded split: if_splits)
  next
    case None
    obtain r' u where o: "operation s = (r', u)" by fastforce
    have "svc_runs t = svc_runs u \<and> tk_ids u \<le> tk_ids t \<and> tk_clock u \<le> tk_clock t"
      using run None o by (cases r') (auto simp: idempotent_def action_simps)
    moreover have "kept s u" using assms o by (simp add: at_state_def)
    ultimately show ?thesis using kept_both kept_beside by blast
  qed
qed

lemmas kept_rules = kept_throw kept_guard kept_reading kept_lookup kept_option kept_if kept_idempotent guards_stand

lemma kept_task_method:
  assumes "\<And>t d. evolves_from (current_task a n t d) R (body t d)"
  shows "at_state kept s (after (taskForAgent p a n) (\<lambda>(i, t, d). in_run i (body t d)))"
proof (intro kept_lookup guards_stand)
  fix y
  assume y: "taskForAgent p a n s = (Inr y, s)"
  obtain i t d where [simp]: "y = (i, t, d)" by (cases y) auto
  from y obtain r where "(i, r) \<in> set (svc_runs s)" "current_task a n t d (world_of s r)"
    using taskForAgent_Inr by fastforce
  then show "at_state kept s (case y of (i, t, d) \<Rightarrow> in_run i (body t d))"
    by (simp add: kept_in_run [OF assms])
qed

lemma kept_running_method:
  assumes "evolves_from (in_state RUNNING) R m" and "(n, r) \<in> set (svc_runs s)" and "\<not> rx_state (sr_run r) \<noteq> RUNNING"
  shows "at_state kept s (in_run n m)"
  using assms by (intro kept_in_run [OF assms(1)]) (simp_all add: in_state_def world_of_def)

lemma kept_create_run: "at_state kept s (createRun E p k i)"
  unfolding createRun_def
proof (intro kept_idempotent kept_reading kept_option kept_if kept_throw)
  fix v
  show "at_state kept s (after (timestamp E) (\<lambda>now. after (next_id E) (\<lambda>ident.
      let run = \<lparr>rx_id = ident, rx_scenarioVersionId = sv_id v, rx_ownerId = pr_id p, rx_label = cr_label i,
            rx_mode = cr_mode i, rx_state = FORMING, rx_virtualTime = sv_replayStartAt v, rx_version = Num 1,
            rx_createdAt = now, rx_updatedAt = now, rx_startedAt = None\<rparr>
      in after (changing (\<lambda>s. s\<lparr>svc_runs := map_put ident (new_run run) (svc_runs s)\<rparr>)) (\<lambda>_.
         after (in_run ident (appendRunEvent E (event_of ''run'' ident ''run.created'' ''operator'' (pr_id p)
           ''operator_asserted'' [(''scenarioVersionId'', JString (rx_scenarioVersionId run))]))) (\<lambda>_.
         give (Run_response run))))))"
  proof (simp only: at_state_def Let_def after_timestamp after_next_id after_changing after_cases, intro allI impI, elim disjE exE conjE)
  qed (auto simp: action_run clocked_def identified_def intro: new_run_kept [rotated, where v = "identified (clocked s)"])
qed

lemma kept_join_run: "at_state kept s (joinRun E p n k i)"
  unfolding joinRun_def
  by (intro kept_rules kept_in_run [OF joined]) (auto dest: ownedRun_Inr simp: in_state_def world_of_def)

lemma kept_start_run: "at_state kept s (startRun E K p n k v)"
  unfolding startRun_def
  by (intro kept_rules kept_in_run [OF started]) (auto dest: ownedRun_Inr simp: in_state_def world_of_def)

lemma kept_sync: "at_state kept s (syncRun E p n a k i)"
  unfolding syncRun_def
  by (intro kept_rules kept_in_run [OF evolves_evolves_from [OF synced, where P = "\<lambda>_. True"]]) (auto dest: runForAgent_Inr)

lemma kept_agent_methods:
  "at_state kept s (claimTask E p a n k v l)" "at_state kept s (beginTask E p a n k ri)"
  "at_state kept s (heartbeatTask E p a n k ri x)" "at_state kept s (releaseTask E p a n k ri)"
  "at_state kept s (submitTask E K p a n k si)"
  unfolding claimTask_def beginTask_def heartbeatTask_def releaseTask_def submitTask_def
  by (intro kept_idempotent kept_task_method claimed begun renewed released submitted)+

lemma kept_messages:
  "at_state kept s (createMessage E p a n k mi)" "at_state kept s (createArtifact E p a n k ci)"
  unfolding createMessage_def createArtifact_def assertRunning_def
  by (intro kept_rules kept_running_method messaged published; auto dest: runForAgent_Inr)+

lemma kept_artifact_version: "at_state kept s (createArtifactVersion E p a n k xi)"
  unfolding createArtifactVersion_def assertRunning_def
  by (intro kept_rules) (auto intro!: kept_rules kept_running_method [OF revised] dest!: find_SomeD)

lemma kept_endorse: "at_state kept s (endorseSubmission E K p a n k g)"
  unfolding endorseSubmission_def
proof (intro kept_rules)
  fix y
  assume y: "runContainingSubmission n s = (Inr y, s)"
  obtain i x where [simp]: "y = (i, x)" by (cases y) auto
  from y obtain r where r: "(i, r) \<in> set (svc_runs s)" "has_submission x (world_of s r)"
    using runContainingSubmission_Inr by fastforce
  show "at_state kept s (case y of (runId, submission) \<Rightarrow>
      after (runForAgent p runId a) (\<lambda>_. in_run runId (endorse_body E K a submission g)))"
    using r by (auto intro!: kept_rules kept_in_run [OF endorsed])
qed

lemma exec_kept: "at_state kept s (exec E K c)"
proof (cases c)
  case (Authoring ac)
  then show ?thesis using evolvesD [OF authoring_beside_runs] kept_beside by (auto simp: at_state_def beside_runs_def)
qed (simp_all add: kept_create_run kept_join_run kept_start_run kept_sync kept_agent_methods kept_messages
  kept_artifact_version kept_endorse)

theorem served_kept: "kept s (served E K s cs)"
proof (induction cs arbitrary: s)
  case (Cons c cs)
  have "kept s (snd (exec E K c s))" using exec_kept [of s c] by (metis at_state_def prod.collapse)
  then show ?case using Cons.IH kept_both by simp
qed (simp add: kept_same)

text \<open>What holds of the runs that a new service comes to store.\<close>

lemma served_run:
  assumes "inj (env_idFactory E)" and "map_of (svc_runs (served E K (new_service E) cs)) n = Some r"
  shows "I (world_of (served E K (new_service E) cs) r)"
    and "\<exists>r'. map_of (svc_runs (served E K (new_service E) (cs @ ds))) n = Some r'
      \<and> R (world_of (served E K (new_service E) cs) r) (world_of (served E K (new_service E) (cs @ ds)) r')"
proof -
  let ?s = "served E K (new_service E) cs" and ?t = "served E K (new_service E) (cs @ ds)"
  have new: "runs_ok E (new_service E)" "every_run I (new_service E)"
    by (simp_all add: runs_ok_def every_run_def new_service_def)
  then have s: "runs_ok E ?s" "every_run I ?s" using served_kept [of "new_service E" cs] assms(1) by (simp_all add: runs_keep_def)
  have mem: "(n, r) \<in> set (svc_runs ?s)" using assms(2) by (rule map_of_SomeD)
  then show "I (world_of ?s r)" using s(2) by (auto simp: every_run_def)
  have t: "runs_ok E ?t" using served_kept [of "new_service E" "cs @ ds"] assms(1) new by (simp add: runs_keep_def)
  obtain r' where r': "(n, r') \<in> set (svc_runs ?t)" "R (world_of ?s r) (world_of ?t r')"
    using served_kept [of ?s ds] assms(1) s(1) mem by (auto simp: runs_keep_def)
  then have "map_of (svc_runs ?t) n = Some r'" using t by (simp add: runs_ok_def)
  then show "\<exists>r'. map_of (svc_runs ?t) n = Some r' \<and> R (world_of ?s r) (world_of ?t r')" using r'(2) by blast
qed

end

end
