(* ===== verification/RunHistory.thy ===== *)
theory RunHistory
  imports RunCommands
begin

text \<open>
  What every method keeps of a run. The locale \<open>run_relation\<close> follows the bodies of the methods down to the changes they
  are made of, so that a relation need only be checked against those. Two instances: the journal of a run, and the
  receipts of its agents, verify and only grow.
\<close>

section \<open>Running actions on a run\<close>

lemma after_run_reading: "after (run_reading g) f w = f (g (rw_run w)) w"
  by (simp add: run_reading_def action_simps)

lemma after_run_changing: "after (run_changing g) f w = f () (w\<lparr>rw_run := g (rw_run w)\<rparr>)"
  by (simp add: run_changing_def action_simps)

text \<open>The event that an append would produce, and the state after it.\<close>

definition next_event :: "environment \<Rightarrow> event_input \<Rightarrow> run_world \<Rightarrow> event_dto" where
  "next_event E i w =
     (let r = rw_run w; now = toISOString (env_now E (tk_clock w));
          base = \<lparr>ed_eventId = env_idFactory E (tk_ids w), ed_runId = rx_id (sr_run r), ed_runSeq = length (sr_events r) + 1,
                  ed_input = i, ed_virtualTime = rx_virtualTime (sr_run r), ed_occurredAt = now, ed_recordedAt = now,
                  ed_payloadHash = hash E (ei_payload i), ed_previousHash = sr_eventHeadHash r, ed_eventHash = []\<rparr>
      in base\<lparr>ed_eventHash := hash E (event_json base)\<rparr>)"

definition with_event :: "environment \<Rightarrow> event_input \<Rightarrow> run_world \<Rightarrow> run_world" where
  "with_event E i w = w\<lparr>tk_clock := tk_clock w + 1, tk_ids := tk_ids w + 1,
     rw_run := (rw_run w)\<lparr>sr_events := sr_events (rw_run w) @ [next_event E i w],
                         sr_eventHeadHash := ed_eventHash (next_event E i w)\<rparr>\<rparr>"

lemma append_run: "appendRunEvent E i w = (Inr (next_event E i w), with_event E i w)"
  by (simp add: appendRunEvent_def next_event_def with_event_def Let_def action_simps next_id_def timestamp_def
    run_reading_def run_changing_def)

lemma after_append: "after (appendRunEvent E i) f w = f (next_event E i w) (with_event E i w)"
  by (simp add: action_simps append_run)

lemma next_event_fields [simp]:
  "ed_runSeq (next_event E i w) = Suc (length (sr_events (rw_run w)))" "ed_input (next_event E i w) = i"
  "ed_previousHash (next_event E i w) = sr_eventHeadHash (rw_run w)" "ed_eventId (next_event E i w) = env_idFactory E (tk_ids w)"
  "ed_eventHash (next_event E i w) = hash E (event_json (next_event E i w))"
  by (simp_all add: next_event_def Let_def event_json_def)

section \<open>The changes that methods are made of\<close>

text \<open>Changes of anything but the run's state, its journal, its agents and their receipts, its tasks and its barriers.\<close>

definition plain_change :: "(stored_run \<Rightarrow> stored_run) \<Rightarrow> bool" where
  "plain_change g \<longleftrightarrow> (\<forall>r. sr_run (g r) = sr_run r \<and> sr_events (g r) = sr_events r \<and> sr_eventHeadHash (g r) = sr_eventHeadHash r
     \<and> sr_receipts (g r) = sr_receipts r \<and> sr_runAgents (g r) = sr_runAgents r \<and> sr_roleAssignments (g r) = sr_roleAssignments r
     \<and> sr_tasks (g r) = sr_tasks r \<and> sr_taskStates (g r) = sr_taskStates r \<and> sr_barriers (g r) = sr_barriers r)"

definition work_change :: "(stored_run \<Rightarrow> stored_run) \<Rightarrow> bool" where
  "work_change g \<longleftrightarrow> (\<exists>f1 f2 f3. g = (\<lambda>r. r\<lparr>sr_tasks := f1 r\<rparr>) \<or> g = (\<lambda>r. r\<lparr>sr_taskStates := f2 r\<rparr>) \<or> g = (\<lambda>r. r\<lparr>sr_barriers := f3 r\<rparr>))"

lemma plain_fields:
  "plain_change (\<lambda>r. r\<lparr>sr_eligible := f1 r\<rparr>)" "plain_change (\<lambda>r. r\<lparr>sr_acknowledgements := f4 r\<rparr>)"
  "plain_change (\<lambda>r. r\<lparr>sr_messages := f6 r\<rparr>)" "plain_change (\<lambda>r. r\<lparr>sr_submissions := f7 r\<rparr>)"
  "plain_change (\<lambda>r. r\<lparr>sr_endorsements := f8 r\<rparr>)" "plain_change (\<lambda>r. r\<lparr>sr_feedback := f9 r\<rparr>)"
  "plain_change (\<lambda>r. r\<lparr>sr_actionGrants := f10 r\<rparr>)" "plain_change (\<lambda>r. r\<lparr>sr_evaluations := f11 r\<rparr>)"
  "plain_change (\<lambda>r. r\<lparr>sr_artifacts := f15 r, sr_artifactVersions := f16 r\<rparr>)"
  by (simp_all add: plain_change_def)

lemma work_fields:
  "work_change (\<lambda>r. r\<lparr>sr_tasks := f2 r\<rparr>)" "work_change (\<lambda>r. r\<lparr>sr_taskStates := f3 r\<rparr>)" "work_change (\<lambda>r. r\<lparr>sr_barriers := f12 r\<rparr>)"
  unfolding work_change_def by blast+

definition starting :: "string \<Rightarrow> stored_run \<Rightarrow> stored_run" where
  "starting startedAt r = r\<lparr>sr_run := (sr_run r)\<lparr>rx_state := RUNNING, rx_version := js_add (rx_version (sr_run r)) (Num 1),
     rx_updatedAt := startedAt, rx_startedAt := Some startedAt\<rparr>\<rparr>"

lemma starting_fun: "(\<lambda>r. r\<lparr>sr_run := (sr_run r)\<lparr>rx_state := RUNNING, rx_version := js_add (rx_version (sr_run r)) (Num 1),
     rx_updatedAt := t, rx_startedAt := Some t\<rparr>\<rparr>) = starting t"
  by (simp add: starting_def fun_eq_iff)

locale run_steps =
  fixes E :: environment and R :: "run_world \<Rightarrow> run_world \<Rightarrow> bool"
  assumes same: "R w w"
    and both: "R u v \<Longrightarrow> R v w \<Longrightarrow> R u w"
    and ticking: "rw_run v = rw_run w \<Longrightarrow> tk_ids v \<le> tk_ids w \<Longrightarrow> tk_clock v \<le> tk_clock w \<Longrightarrow> R v w"
    and event: "R w (with_event E e w)"
    and plain: "plain_change g \<Longrightarrow> R w (w\<lparr>rw_run := g (rw_run w)\<rparr>)"
begin

sublocale evolution R
  by unfold_locales (use same both in blast)+

lemma ticks: "evolves R (next_id E')" "evolves R (timestamp E')" "evolves R (next_token E')"
  by (auto simp: evolves_def next_id_def timestamp_def next_token_def intro: ticking)

lemma appended: "evolves R (appendRunEvent E e)"
  by (simp add: evolves_def append_run event)

lemma read_run: "evolves R (run_reading f)"
  by (simp add: run_reading_def reading)

lemma changed: "plain_change g \<Longrightarrow> evolves R (run_changing g)"
  by (simp add: evolves_def run_changing_def action_simps plain)

lemmas step_rules = rules pair_action ticks appended read_run changed plain_fields

lemma puts:
  "evolves R (put_grant g)" "evolves R (put_feedback f)" "evolves R (put_evaluation e)" "evolves R (put_submission x)"
  "evolves R (put_endorsement y)" "evolves R (put_message m)" "evolves R (put_artifact af)"
  unfolding put_grant_def put_feedback_def put_evaluation_def put_submission_def put_endorsement_def put_message_def put_artifact_def
  by (intro step_rules)+

lemma eligible: "evolves R (addEligible E' a x e)"
  unfolding addEligible_def by (intro step_rules)

lemmas part_rules = step_rules puts eligible

lemma lease: "evolves R (leaseCommand E' i a)"
  unfolding leaseCommand_def by (intro part_rules)

lemma grants: "evolves R (consumeGrant E' a g n ac x)" "evolves R (appendGrantConsumedEvent E a gr)"
  "evolves R (issueEndorsementGrants E sx)"
  unfolding consumeGrant_def appendGrantConsumedEvent_def issueEndorsementGrants_def issue_endorsement_grant_def
  by (intro part_rules)+

lemma feedback: "evolves R (issueEvaluationFeedback E x ev)"
  unfolding issueEvaluationFeedback_def issue_feedback_def by (intro part_rules)

lemma members: "evolves R (ownedRunAgent a)" "evolves R (assertRecipientSnapshot as ex)"
  unfolding assertRecipientSnapshot_def ownedRunAgent_def by (intro part_rules)+

lemma references: "evolves R (assertSubmissionReferences a si)" "evolves R (revision_of E a n si)"
  unfolding assertSubmissionReferences_def revision_of_def by (intro part_rules grants)+

lemma collaboration:
  "evolves R (message_body E a n mi)" "evolves R (artifact_body E a n ci)" "evolves R (artifact_version_body E a n xi)"
  unfolding message_body_def artifact_body_def artifact_version_body_def cited_artifact_def
  by (intro part_rules members)+

lemma handouts:
  "evolves R (initial_message E role a c)" "evolves R (initial_artifact E K rc n a c)" "evolves R (initial_feedback E a c)"
  unfolding initial_message_def initial_artifact_def initial_feedback_def by (intro part_rules)+

lemma from_after:
  assumes "evolves R m" and "evolves (invariant_of P) m" and "\<And>x. evolves_from P R (f x)"
  shows "evolves_from P R (after m f)"
  unfolding evolves_from_def
proof (intro allI impI)
  fix w assume "P w"
  obtain r v where m: "m w = (r, v)" by fastforce
  then have "R w v" "P v" using evolvesD [OF assms(1)] evolvesD [OF assms(2)] \<open>P w\<close> by (auto simp: invariant_of_def)
  moreover have "R v (snd (f x v))" for x using assms(3) \<open>P v\<close> by (simp add: evolves_from_def)
  ultimately show "R w (snd (after m f w))" using both m by (auto simp: after_def split: sum.split)
qed

lemma from_change:
  assumes "\<And>w. P w \<Longrightarrow> R w (w\<lparr>rw_run := g (rw_run w)\<rparr>)" and "\<And>x. evolves R (f x)"
  shows "evolves_from P R (after (run_changing g) f)"
  using assms both by (fastforce simp: evolves_from_def evolves_def after_run_changing)

lemma acknowledge: "evolves R (acknowledgeReceipts E a n h)"
  unfolding acknowledgeReceipts_def by (intro part_rules)

lemma issue: "evolves R (issue_each E r a b n h ds)"
  by (induction ds arbitrary: n h) (auto simp only: issue_each.simps intro!: part_rules)

end

text \<open>Relations that do not care about tasks and barriers.\<close>

locale work_steps = run_steps +
  assumes work: "work_change g \<Longrightarrow> R w (w\<lparr>rw_run := g (rw_run w)\<rparr>)"
begin

lemma worked: "work_change g \<Longrightarrow> evolves R (run_changing g)"
  by (simp add: evolves_def run_changing_def action_run work)

lemmas work_rules = part_rules worked work_fields

lemma task_puts: "evolves R (put_task_state t)" "evolves R (put_barrier k b)" "evolves R (put_task d)"
  unfolding put_task_state_def put_barrier_def put_task_def by (intro work_rules)+

lemma updated: "evolves R (updateTaskDto t)"
  unfolding updateTaskDto_def by (intro work_rules)

lemma transitions: "evolves R (recordTaskTransition E t a ty)" "evolves R (recordEvaluatorTaskTransition E t a ty i b)"
  unfolding recordTaskTransition_def recordEvaluatorTaskTransition_def by (intro work_rules task_puts updated)+

lemma analysis: "evolves R (recordAcceptedBarrierInput E rs e)"
  unfolding recordAcceptedBarrierInput_def release_coordinator_def by (intro work_rules task_puts updated)

lemma evaluation: "evolves R (evaluateRoleSubmission E K x t d)"
  unfolding evaluateRoleSubmission_def by (intro work_rules transitions feedback analysis)

lemma endorsement: "evolves R (recordEndorsementBarrierInput E K x a e)" "evolves R (endorse_body E K a x g)"
  unfolding endorse_body_def recordEndorsementBarrierInput_def
  by (intro work_rules task_puts members evaluation grants)+

lemma task_bodies:
  "evolves R (claim_body E a t v ls)" "evolves R (begin_body E a t l)" "evolves R (heartbeat_body E a t l xs)"
  "evolves R (release_body E a t l)"
  unfolding claim_body_def begin_body_def heartbeat_body_def release_body_def by (intro work_rules lease transitions)+

lemma submit: "evolves R (submit_body E K a n t d si)"
  unfolding submit_body_def by (intro work_rules task_puts updated lease references members grants evaluation)

lemma resources: "evolves R (createInitialResources E K role a)" "evolves R (create_barrier E n k)"
  unfolding createInitialResources_def initial_task_def create_barrier_def
  by (intro work_rules task_puts handouts)+

end

text \<open>Steps that leave the state of the run as it is.\<close>

lemma same_state:
  "evolves (invariant_of (in_state x)) (next_id E')" "evolves (invariant_of (in_state x)) (timestamp E')"
  "evolves (invariant_of (in_state x)) (appendRunEvent E' i)"
  "(\<And>r. sr_run (g r) = sr_run r) \<Longrightarrow> evolves (invariant_of (in_state x)) (run_changing g)"
  "evolves (invariant_of (in_state x)) (run_reading f)"
  by (simp_all add: evolves_def invariant_of_def in_state_def timestamp_def next_id_def append_run with_event_def
    run_changing_def run_reading_def action_run)

text \<open>What else a relation has to allow: the start of a run, the joining of an agent, and the issue of receipts.\<close>

locale run_relation = work_steps E R for E :: environment and R :: "run_world \<Rightarrow> run_world \<Rightarrow> bool" +
  fixes K :: case_pack and I :: "run_world \<Rightarrow> bool"
  assumes keeps: "R v w \<Longrightarrow> I v \<Longrightarrow> I w"
    and forwards: "R v w \<Longrightarrow> tk_ids v \<le> tk_ids w \<and> tk_clock v \<le> tk_clock w"
    and created: "rx_state run = FORMING \<Longrightarrow> rw_run w = new_run run \<Longrightarrow> I (with_event E e w)"
    and start: "in_state FORMING w \<Longrightarrow> R w (w\<lparr>rw_run := starting t (rw_run w)\<rparr>)"
    and joined: "evolves_from (in_state FORMING) R (join_body E p n av j)"
    and synced: "evolves R (sync_body E n a q)"
begin

lemma start_run: "evolves_from (in_state FORMING) R (start_body E K p n v)"
  unfolding start_body_def starting_fun Let_def
  by (intro from_change [OF start] from_after work_rules resources; simp add: invariants.rules same_state)

end

sublocale run_relation \<subseteq> contract: run_contract E K R I
proof unfold_locales
  show "R u v \<Longrightarrow> R v w \<Longrightarrow> R u w" for u v w by (rule both)
  show "R v w \<Longrightarrow> I v \<Longrightarrow> I w" for v w by (rule keeps)
  show "R v w \<Longrightarrow> tk_ids v \<le> tk_ids w \<and> tk_clock v \<le> tk_clock w" for v w by (rule forwards)
  show "rw_run v = rw_run w \<Longrightarrow> tk_ids v \<le> tk_ids w \<Longrightarrow> tk_clock v \<le> tk_clock w \<Longrightarrow> R v w" for v w by (rule ticking)
  show "I (snd (appendRunEvent E e w))" if "rx_state run = FORMING" "rw_run w = new_run run" for run w e
    using created [OF that] by (simp add: append_run)
qed (intro same synced joined start_run evolves_evolves_from task_bodies submit collaboration endorsement)+

section \<open>The journal\<close>

lemma verify_events_append:
  "verify_events E h (es @ fs) \<longleftrightarrow>
     verify_events E h es \<and> verify_events E (if es = [] then h else ed_eventHash (List.last es)) fs"
  by (induction es arbitrary: h) auto

text \<open>The journal of a run: it verifies, its head is the hash of its last event, and its events are numbered from one.\<close>

definition journal_ok :: "environment \<Rightarrow> stored_run \<Rightarrow> bool" where
  "journal_ok E r \<longleftrightarrow>
     verifyEventChain E (sr_events r)
     \<and> sr_eventHeadHash r = (if sr_events r = [] then ZERO_HASH else ed_eventHash (List.last (sr_events r)))
     \<and> map ed_runSeq (sr_events r) = [1..<Suc (length (sr_events r))]"

definition ticks_forward :: "run_world \<Rightarrow> run_world \<Rightarrow> bool" where
  "ticks_forward v w \<longleftrightarrow> tk_ids v \<le> tk_ids w \<and> tk_clock v \<le> tk_clock w"

definition journal_grows :: "environment \<Rightarrow> run_world \<Rightarrow> run_world \<Rightarrow> bool" where
  "journal_grows E v w \<longleftrightarrow> ticks_forward v w \<and>
     prefix (sr_events (rw_run v)) (sr_events (rw_run w)) \<and> (journal_ok E (rw_run v) \<longrightarrow> journal_ok E (rw_run w))"

lemma with_event_fields [simp]:
  "sr_events (rw_run (with_event E e w)) = sr_events (rw_run w) @ [next_event E e w]"
  "sr_eventHeadHash (rw_run (with_event E e w)) = ed_eventHash (next_event E e w)"
  "sr_run (rw_run (with_event E e w)) = sr_run (rw_run w)" "sr_receipts (rw_run (with_event E e w)) = sr_receipts (rw_run w)"
  "sr_runAgents (rw_run (with_event E e w)) = sr_runAgents (rw_run w)" "sr_tasks (rw_run (with_event E e w)) = sr_tasks (rw_run w)"
  "sr_taskStates (rw_run (with_event E e w)) = sr_taskStates (rw_run w)" "sr_barriers (rw_run (with_event E e w)) = sr_barriers (rw_run w)"
  "tk_ids (with_event E e w) = Suc (tk_ids w)" "tk_clock (with_event E e w) = Suc (tk_clock w)"
  by (simp_all add: with_event_def)

lemma journal_ok_event: "journal_ok E (rw_run w) \<Longrightarrow> journal_ok E (rw_run (with_event E i w))"
  by (auto simp: journal_ok_def with_event_def verifyEventChain_def verify_events_append)

interpretation journal_steps: work_steps E "journal_grows E" for E
  proof unfold_locales
  show "journal_grows E w (with_event E e w)" for e w
    using journal_ok_event by (simp add: journal_grows_def ticks_forward_def)
qed (auto simp: journal_grows_def ticks_forward_def plain_change_def work_change_def journal_ok_def)

lemma journal_aside:
  assumes "\<And>r. sr_events (g r) = sr_events r \<and> sr_eventHeadHash (g r) = sr_eventHeadHash r"
  shows "evolves (journal_grows E) (run_changing g)"
  using assms by (simp add: evolves_def run_changing_def action_simps journal_grows_def ticks_forward_def journal_ok_def)

interpretation journal: run_relation E "journal_grows E" K "\<lambda>w. journal_ok E (rw_run w)" for E K
proof unfold_locales
  show "evolves_from (in_state FORMING) (journal_grows E) (join_body E p n av j)" for p n av j
    unfolding join_body_def by (intro evolves_evolves_from journal_steps.part_rules journal_aside) simp_all
  show "evolves (journal_grows E) (sync_body E n a q)" for n a q
    unfolding sync_body_def
    by (intro journal_steps.part_rules journal_aside journal_steps.acknowledge journal_steps.issue) simp_all
next
  show "journal_ok E (rw_run (with_event E e w))" if "rw_run w = new_run run" for run w e
    using that by (intro journal_ok_event) (simp add: journal_ok_def new_run_def verifyEventChain_def)
qed (auto simp: journal_grows_def ticks_forward_def starting_def journal_ok_def)

section \<open>Receipts\<close>

lemma verify_receipts_append:
  "verify_run_receipts E n h (rs @ qs) \<longleftrightarrow>
     verify_run_receipts E n h rs \<and> verify_run_receipts E (n + length rs) (if rs = [] then h else rc_receiptHash (List.last rs)) qs"
  by (induction rs arbitrary: n h) auto

definition receipts_ok :: "environment \<Rightarrow> stored_run \<Rightarrow> bool" where
  "receipts_ok E r \<longleftrightarrow>
     (\<forall>a rs. map_of (sr_receipts r) a = Some rs \<longrightarrow>
        verify_run_receipts E 1 ZERO_HASH rs \<and> (\<forall>x \<in> set rs. rc_runAgentId x = a)
        \<and> (rx_state (sr_run r) = FORMING \<longrightarrow> rs = []))"

definition receipts_grow :: "environment \<Rightarrow> run_world \<Rightarrow> run_world \<Rightarrow> bool" where
  "receipts_grow E v w \<longleftrightarrow> ticks_forward v w \<and> (receipts_ok E (rw_run v) \<longrightarrow> receipts_ok E (rw_run w)
     \<and> (\<forall>a rs. map_of (sr_receipts (rw_run v)) a = Some rs \<longrightarrow>
          (\<exists>qs. map_of (sr_receipts (rw_run w)) a = Some (rs @ qs))))"

definition receipts_stay :: "run_world \<Rightarrow> run_world \<Rightarrow> bool" where
  "receipts_stay v w \<longleftrightarrow> ticks_forward v w \<and> sr_receipts (rw_run w) = sr_receipts (rw_run v) \<and> sr_run (rw_run w) = sr_run (rw_run v)"

lemma receipts_stay_grow: "receipts_stay v w \<Longrightarrow> receipts_grow E v w"
  by (auto simp: receipts_stay_def receipts_grow_def receipts_ok_def)

interpretation stay_steps: work_steps E receipts_stay for E
  by unfold_locales (auto simp: receipts_stay_def ticks_forward_def plain_change_def work_change_def)

interpretation receipt_steps: work_steps E "receipts_grow E" for E
proof unfold_locales
  show "receipts_grow E u v \<Longrightarrow> receipts_grow E v w \<Longrightarrow> receipts_grow E u w" for u v w
    by (fastforce simp: receipts_grow_def ticks_forward_def)
qed (rule receipts_stay_grow; auto simp: receipts_stay_def ticks_forward_def plain_change_def work_change_def)+

lemma issued_continue:
  assumes "issue_each E n a b seq h ds w = (Inr rs, v)"
  shows "verify_run_receipts E seq h rs \<and> (\<forall>x \<in> set rs. rc_runAgentId x = a)"
  using assms
proof (induction ds arbitrary: seq h w rs)
  case (Cons d ds)
  then show ?case
    by (auto simp: after_Inr Let_def action_Inr receipt_of_def receipt_json_def dest!: Cons.IH)
qed (simp add: action_Inr)

lemma receipts_ok_extend:
  assumes "receipts_ok E r" and "map_of (sr_receipts r) a = Some rs" and "rx_state (sr_run r) = RUNNING"
    and "verify_run_receipts E (length rs + 1) (head_hash rs) qs" and "\<forall>x \<in> set qs. rc_runAgentId x = a"
    and "sr_receipts r' = map_put a (rs @ qs) (sr_receipts r)" and "sr_run r' = sr_run r"
  shows "receipts_ok E r'"
proof -
  have "verify_run_receipts E 1 ZERO_HASH rs" "\<forall>x \<in> set rs. rc_runAgentId x = a"
    using assms(1,2) by (auto simp: receipts_ok_def)
  then have "verify_run_receipts E 1 ZERO_HASH (rs @ qs)" "\<forall>x \<in> set (rs @ qs). rc_runAgentId x = a"
    using assms(4,5) by (auto simp: verify_receipts_append head_hash_def)
  then show ?thesis using assms(1,3,6,7) by (auto simp: receipts_ok_def)
qed

text \<open>Steps from a state that leave the receipts alone before they are extended.\<close>

lemma at_read: "at_state Q w (f (g (rw_run w))) \<Longrightarrow> at_state Q w (after (run_reading g) f)"
  by (simp add: at_state_def after_run_reading)

lemma at_guard: "(\<And>t. Q w w) \<Longrightarrow> (\<not> b \<Longrightarrow> at_state Q w (f ())) \<Longrightarrow> at_state Q w (after (throw_if b c) f)"
  by (auto simp: at_state_def after_guard)

lemma at_stay:
  assumes "evolves receipts_stay m" and "receipts_stay v w" and "\<And>x u. m w = (Inr x, u) \<Longrightarrow> receipts_stay v u \<Longrightarrow> at_state (\<lambda>_. receipts_grow E v) u (f x)"
  shows "at_state (\<lambda>_. receipts_grow E v) w (after m f)"
  using assms(3) evolvesD [OF assms(1)] stay_steps.both [OF assms(2)] receipts_stay_grow
  by (fastforce simp: at_state_def after_cases)

lemma at_option:
  "(x = None \<Longrightarrow> at_state Q w m) \<Longrightarrow> (\<And>y. x = Some y \<Longrightarrow> at_state Q w (f y)) \<Longrightarrow>
   at_state Q w (case x of None \<Rightarrow> m | Some y \<Rightarrow> f y)"
  by (cases x) simp_all

lemma at_change: "Q w (w\<lparr>rw_run := g (rw_run w)\<rparr>) \<Longrightarrow> at_state Q w (after (run_changing g) (\<lambda>_. run_reading f))"
  by (simp add: at_state_def after_run_changing run_reading_def action_run)

lemma receipts_extended:
  assumes "receipts_stay v w" and "map_of (sr_receipts (rw_run v)) a = Some rs" and "\<not> rx_state (sr_run (rw_run v)) \<noteq> RUNNING"
    and "issue_each E n a b (length rs + 1) (head_hash rs) ds u = (Inr qs, t)"
  shows "receipts_grow E v (w\<lparr>rw_run := (rw_run w)\<lparr>sr_receipts := map_put a (rs @ qs) (sr_receipts (rw_run w))\<rparr>\<rparr>)"
proof -
  have same: "sr_receipts (rw_run w) = sr_receipts (rw_run v)" "sr_run (rw_run w) = sr_run (rw_run v)" "ticks_forward v w"
    using assms(1) by (simp_all add: receipts_stay_def)
  have "receipts_ok E ((rw_run w)\<lparr>sr_receipts := map_put a (rs @ qs) (sr_receipts (rw_run w))\<rparr>)" if "receipts_ok E (rw_run v)"
    using issued_continue [OF assms(4)] assms(3) same
    by (intro receipts_ok_extend [OF that assms(2)]) simp_all
  then show ?thesis
    using same assms(2) by (auto simp: receipts_grow_def ticks_forward_def)
qed

lemma receipts_synced: "evolves (receipts_grow E) (sync_body E n a q)"
proof -
  have "at_state (\<lambda>_. receipts_grow E w) w (throw c)" for w c
    by (simp add: at_state_def action_simps receipt_steps.same)
  then have "at_state (\<lambda>_. receipts_grow E w) w (sync_body E n a q)" for w
    unfolding sync_body_def Let_def
    by (intro at_change at_read at_guard at_option at_stay stay_steps.part_rules stay_steps.acknowledge stay_steps.issue)
      (assumption | rule receipt_steps.same stay_steps.same | erule (3) receipts_extended)+
  then show ?thesis by (simp add: at_state_def evolves_def) (metis prod.collapse)
qed

lemma receipts_aside:
  assumes "\<And>r. sr_receipts (g r) = sr_receipts r \<and> sr_run (g r) = sr_run r"
  shows "evolves (receipts_grow E) (run_changing g)"
  using assms receipts_stay_grow
  by (simp add: evolves_def run_changing_def action_run receipts_stay_def ticks_forward_def)

lemma receipts_joined: "evolves_from (in_state FORMING) (receipts_grow E) (join_body E p n av j)"
proof -
  have fresh: "receipts_grow E w (w\<lparr>rw_run := (rw_run w)\<lparr>sr_receipts := map_put a [] (sr_receipts (rw_run w))\<rparr>\<rparr>)"
    if "in_state FORMING w" for w a
    using that by (auto simp: receipts_grow_def ticks_forward_def receipts_ok_def in_state_def)
  show ?thesis
    unfolding join_body_def Let_def
    by (intro receipt_steps.from_change [OF fresh] receipt_steps.from_after receipt_steps.part_rules receipts_aside same_state) simp_all
qed

interpretation receipts: run_relation E "receipts_grow E" K "\<lambda>w. receipts_ok E (rw_run w)" for E K
proof unfold_locales
  show "receipts_ok E (rw_run (with_event E e w))" if "rw_run w = new_run run" for run w e
    using that by (simp add: receipts_ok_def new_run_def)
  show "receipts_grow E w (w\<lparr>rw_run := starting t (rw_run w)\<rparr>)" if "in_state FORMING w" for w t
    using that by (auto simp: receipts_grow_def ticks_forward_def starting_def receipts_ok_def)
  show "tk_ids v \<le> tk_ids w \<and> tk_clock v \<le> tk_clock w" if "receipts_grow E v w" for v w
    using that by (simp add: receipts_grow_def ticks_forward_def)
  show "receipts_ok E (rw_run w)" if "receipts_grow E v w" "receipts_ok E (rw_run v)" for v w
    using that by (simp add: receipts_grow_def)
qed (rule receipts_joined receipts_synced)+

section \<open>Properties\<close>

text \<open>
  Property C5. Whatever sequence of calls the service gets, the journal of every run verifies and numbers its events from
  one, and later calls only append to it: an event that has been recorded stays, with its number and its hash.
\<close>

theorem run_journal_verifies_and_grows:
  assumes "inj (env_idFactory E)" and "map_of (svc_runs (served E K (new_service E) cs)) n = Some r"
  shows "verifyEventChain E (sr_events r) \<and> map ed_runSeq (sr_events r) = [1..<Suc (length (sr_events r))]
    \<and> (\<exists>r' later. map_of (svc_runs (served E K (new_service E) (cs @ ds))) n = Some r'
         \<and> sr_events r' = sr_events r @ later)"
  using journal.contract.served_run(1) [OF assms] journal.contract.served_run(2) [OF assms, of ds]
  by (auto simp: journal_grows_def journal_ok_def world_of_def prefix_def)

definition demo_create_run :: create_run where
  "demo_create_run = \<lparr>cr_scenarioVersionId = DEFAULT_V2_SCENARIO_VERSION_ID, cr_label = demo_text, cr_mode = ''collaborative''\<rparr>"

lemma run_journal_verifies_and_grows_witness:
  "\<exists>r. map_of (svc_runs (served demo_environment demo_pack (new_service demo_environment)
      [Create_run demo_author ''k1'' demo_create_run])) ''x'' = Some r \<and> sr_events r \<noteq> []
    \<and> verifyEventChain demo_environment (sr_events r)"
proof -
  have "case map_of (svc_runs (served demo_environment demo_pack (new_service demo_environment)
      [Create_run demo_author ''k1'' demo_create_run])) ''x'' of None \<Rightarrow> False | Some r \<Rightarrow> sr_events r \<noteq> []"
    by (simp add: createRun_def demo_create_run_def demo_simps in_run_def append_run put_world_def world_of_def)
  then obtain r where "map_of (svc_runs (served demo_environment demo_pack (new_service demo_environment)
      [Create_run demo_author ''k1'' demo_create_run])) ''x'' = Some r" "sr_events r \<noteq> []" by (auto split: option.splits)
  moreover have "inj (env_idFactory demo_environment)" using demo_unique_ids by (simp add: unique_ids_def)
  ultimately show ?thesis using run_journal_verifies_and_grows by blast
qed

end
