(* ===== verification/RunIdempotency.thy ===== *)
theory RunIdempotency
  imports RunHistory
begin

text \<open>
  Repeated requests. Every method that changes the state of the service runs through \<open>idempotent\<close>, with a cache key
  of the acting principal or agent, the operation and the key of the request, and with the hash of what was asked.
\<close>

section \<open>Keys and requests\<close>

text \<open>The actor, the operation and the key that a call names.\<close>

fun call_identity :: "run_command \<Rightarrow> string \<times> string \<times> string" where
  "call_identity (Authoring (Create_scenario p k i)) = (pr_id p, ''scenario:create'', k)"
| "call_identity (Authoring (Create_version p n k i)) = (pr_id p, ''scenario:'' @ n @ '':version:create'', k)"
| "call_identity (Authoring (Validate_version p n k v)) = (pr_id p, ''scenario-version:'' @ n @ '':validate'', k)"
| "call_identity (Authoring (Publish_version p n k v)) = (pr_id p, ''scenario-version:'' @ n @ '':publish'', k)"
| "call_identity (Authoring (Create_agent p k i)) = (pr_id p, ''agent:create'', k)"
| "call_identity (Authoring (Create_agent_version p n k i)) = (pr_id p, ''agent:'' @ n @ '':version:create'', k)"
| "call_identity (Create_run p k i) = (pr_id p, ''run:create'', k)"
| "call_identity (Join_run p n k i) = (pr_id p, ''run:'' @ n @ '':agent:join'', k)"
| "call_identity (Start_run p n k v) = (pr_id p, ''run:'' @ n @ '':start'', k)"
| "call_identity (Sync_run p n a k i) = (a, ''run:'' @ n @ '':agent:'' @ a @ '':sync'', k)"
| "call_identity (Claim_task p a n k v l) = (a, task_scope n ''claim'', k)"
| "call_identity (Begin_task p a n k i) = (a, task_scope n ''begin'', k)"
| "call_identity (Heartbeat_task p a n k i x) = (a, task_scope n ''heartbeat'', k)"
| "call_identity (Release_task p a n k i) = (a, task_scope n ''release'', k)"
| "call_identity (Submit_task p a n k i) = (a, task_scope n ''submission:create'', k)"
| "call_identity (Create_message p a n k i) = (a, ''run:'' @ n @ '':message:create'', k)"
| "call_identity (Create_artifact p a n k i) = (a, ''run:'' @ n @ '':artifact:create'', k)"
| "call_identity (Create_artifact_version p a n k i) = (a, ''artifact:'' @ n @ '':version:create'', k)"
| "call_identity (Endorse_submission p a n k g) = (a, ''submission:'' @ n @ '':endorsement:create'', k)"

text \<open>What is asked: the object that is hashed.\<close>

fun asked :: "run_command \<Rightarrow> json" where
  "asked (Authoring (Create_scenario p k i)) = create_scenario_json i"
| "asked (Authoring (Create_version p n k i)) = create_scenario_version_json i"
| "asked (Authoring (Validate_version p n k v)) = version_command_json v"
| "asked (Authoring (Publish_version p n k v)) = version_command_json v"
| "asked (Authoring (Create_agent p k i)) = create_agent_json i"
| "asked (Authoring (Create_agent_version p n k i)) = create_agent_version_json i"
| "asked (Create_run p k i) = create_run_json i"
| "asked (Join_run p n k i) = join_run_json i"
| "asked (Start_run p n k v) = version_command_json v"
| "asked (Sync_run p n a k i) = sync_request_json i"
| "asked (Claim_task p a n k v l) = JObject [(''expectedVersion'', JNumber v), (''leaseSeconds'', JNumber (Num (of_int l)))]"
| "asked (Begin_task p a n k i) = JObject (lease_request_json i)"
| "asked (Heartbeat_task p a n k i x) = JObject (lease_request_json i @ [(''extendBySeconds'', JNumber (Num (of_int x)))])"
| "asked (Release_task p a n k i) = JObject (lease_request_json i)"
| "asked (Submit_task p a n k i) = create_submission_json i"
| "asked (Create_message p a n k i) = create_message_json i"
| "asked (Create_artifact p a n k i) = create_artifact_json i"
| "asked (Create_artifact_version p a n k i) = create_artifact_version_json i"
| "asked (Endorse_submission p a n k g) = JObject [(''feedbackActionGrantId'', JString g)]"

definition call_key :: "run_command \<Rightarrow> string" where
  "call_key c = (case call_identity c of (a, sc, k) \<Rightarrow> cache_key a sc k)"

lemmas service_methods = createScenario_def createScenarioVersion_def validateScenarioVersion_def publishScenarioVersion_def
  createAgent_def createAgentVersion_def createRun_def joinRun_def startRun_def syncRun_def claimTask_def beginTask_def
  heartbeatTask_def releaseTask_def submitTask_def createMessage_def createArtifact_def createArtifactVersion_def
  endorseSubmission_def

section \<open>The records\<close>

text \<open>The bodies of the methods leave the records alone.\<close>

lemma in_run_same_records: "evolves same_records (in_run n m)"
  by (auto simp: evolves_def same_records_def in_run_def put_world_def split: option.splits prod.splits)

lemma lookups_same_records:
  "evolves same_records (ownedRun p n)" "evolves same_records (ownedAgent p n)" "evolves same_records (pinned r)"
  "evolves same_records (runForAgent p n a)" "evolves same_records (assertRunning r)" "evolves same_records (assert_version v w e)"
  "evolves same_records (taskForAgent p a n)" "evolves same_records (runContainingSubmission n)"
  unfolding ownedRun_def ownedAgent_def pinned_def runForAgent_def assertRunning_def assert_version_def taskForAgent_def
    runContainingSubmission_def
  by (intro untouched.rules untouched.pair_action)+

lemma put_run_same_records: "evolves same_records (changing (\<lambda>s. s\<lparr>svc_runs := f s\<rparr>))"
  by (intro untouched.changing) (simp add: same_records_def)

lemmas record_rules = untouched.rules untouched.pair_action idempotent_keeps_records lookups_same_records in_run_same_records
  tick_same_records put_run_same_records

text \<open>Every method is a request of its identity, with an operation of its own.\<close>

lemma exec_request:
  "\<exists>m. exec E K c = idempotent E (fst (call_identity c)) (fst (snd (call_identity c))) (snd (snd (call_identity c))) (asked c) m"
proof (cases c)
  case (Authoring ac)
  then show ?thesis by (cases ac) (auto simp: service_methods)
qed (auto simp: service_methods)

lemma exec_keeps_records: "evolves records_kept (exec E K c)"
proof (cases c)
  case (Authoring ac)
  then show ?thesis by (simp add: authoring_keeps_records)
qed (simp_all only: exec.simps service_methods Let_def, (intro record_rules)+)

lemma served_records: "records_kept s (served E K s cs)"
proof (induction cs arbitrary: s)
  case (Cons c cs)
  have "records_kept s (snd (exec E K c s))" using exec_keeps_records by (simp add: evolves_def)
  then show ?case using Cons.IH records.goes_on by simp
qed (simp add: records.stays)

section \<open>Repetition\<close>

text \<open>
  Property C18. A call of any of the methods that change the service, once it is answered, is answered again in the same way
  and changes nothing, whatever calls came in between. Another call with its actor, operation and key has
  that effect, too, when its request has the same hash, and is refused and changes nothing otherwise.
\<close>

theorem repeated_request_changes_nothing:
  assumes "exec E K c s = (Inr r, t)" and "call_key c' = call_key c"
  shows "exec E K c (served E K t cs) = (Inr r, served E K t cs)
    \<and> exec E K c' (served E K t cs) =
        (if hash E (asked c') = hash E (asked c) then Inr r else fail ''IDEMPOTENCY_CONFLICT'', served E K t cs)"
proof -
  obtain a sc k where c: "call_identity c = (a, sc, k)" by (cases "call_identity c") auto
  obtain a' sc' k' where c': "call_identity c' = (a', sc', k')" by (cases "call_identity c'") auto
  obtain m m' where m: "exec E K c = idempotent E a sc k (asked c) m" "exec E K c' = idempotent E a' sc' k' (asked c') m'"
    using exec_request [of E K c] exec_request [of E K c'] c c' by auto
  have key: "cache_key a' sc' k' = cache_key a sc k" using assms(2) c c' by (simp add: call_key_def)
  have "map_of (svc_idempotency t) (cache_key a sc k) = Some \<lparr>ir_requestHash = hash E (asked c), ir_response = r\<rparr>"
    using assms(1) unfolding m(1) by (rule idempotent_records)
  then have "map_of (svc_idempotency (served E K t cs)) (cache_key a sc k) =
      Some \<lparr>ir_requestHash = hash E (asked c), ir_response = r\<rparr>"
    using served_records [of t E K cs] by (auto simp: records_kept_def map_le_def dom_def)
  then show ?thesis
    using idempotent_recorded [of _ a sc k] idempotent_recorded [of _ a' sc' k'] key by (auto simp: m)
qed

text \<open>A run that is created once, again under its key after an agent came in between, and another mode under this key.\<close>

lemma repeated_request_changes_nothing_witness:
  "\<exists>r t. exec demo_environment demo_pack (Create_run demo_author ''k1'' demo_create_run) (new_service demo_environment) = (Inr r, t)
    \<and> (let again = served demo_environment demo_pack t [Authoring (Create_agent demo_author ''k2'' \<lparr>cg_displayName = demo_text, cg_description = demo_text\<rparr>)]
       in exec demo_environment demo_pack (Create_run demo_author ''k1'' demo_create_run) again = (Inr r, again)
        \<and> exec demo_environment demo_pack (Create_run demo_author ''k1'' (demo_create_run\<lparr>cr_mode := ''solo''\<rparr>)) again
            = (fail ''IDEMPOTENCY_CONFLICT'', again))"
proof -
  let ?c = "Create_run demo_author ''k1'' demo_create_run" and ?d = "Create_run demo_author ''k1'' (demo_create_run\<lparr>cr_mode := ''solo''\<rparr>)"
  have "succeeds (fst (exec demo_environment demo_pack ?c (new_service demo_environment)))"
    by (simp add: createRun_def demo_create_run_def demo_simps in_run_def append_run put_world_def world_of_def)
  then obtain r t where run: "exec demo_environment demo_pack ?c (new_service demo_environment) = (Inr r, t)"
    by (metis prod.collapse succeeds_iff)
  have key: "call_key ?d = call_key ?c" by (simp add: call_key_def)
  have other: "hash demo_environment (asked ?d) \<noteq> hash demo_environment (asked ?c)" by code_simp
  let ?s = "served demo_environment demo_pack t [Authoring (Create_agent demo_author ''k2'' \<lparr>cg_displayName = demo_text, cg_description = demo_text\<rparr>)]"
  have "exec demo_environment demo_pack ?c ?s = (Inr r, ?s)" "exec demo_environment demo_pack ?d ?s = (fail ''IDEMPOTENCY_CONFLICT'', ?s)"
    using repeated_request_changes_nothing [OF run key] other by (simp_all only: if_False)
  then show ?thesis using run unfolding Let_def by blast
qed

end
