(* ===== verification/RunRefinement.thy ===== *)
theory RunRefinement
  imports RunHistory
begin

text \<open>
  The tasks of the service are the tasks of \<open>RunTask\<close>: each goes from its creation through commands of that model, and
  what the service shows of it is its state. The task of the coordinator waits for the analysis barrier, whose inputs are
  accepted evaluations of the journal.

  A small calculus carries this through the bodies: \<open>safe v P m Q\<close> says that \<open>m\<close>, run where \<open>P\<close> holds, keeps the invariant
  and the relation to the start \<open>v\<close> even when it throws, and that \<open>Q\<close> holds when it returns.
\<close>

section \<open>The invariant\<close>

text \<open>Tasks that a sequence of commands leads to, whose lease commands carry a time the clock of the service has shown.\<close>

definition timely :: "environment \<Rightarrow> nat \<Rightarrow> task_command \<Rightarrow> bool" where
  "timely E c x \<longleftrightarrow> (\<forall>l. lease_of x = Some l \<longrightarrow> (\<exists>k \<ge> c. lc_now l = toISOString (env_now E k)))"

definition moved :: "environment \<Rightarrow> nat \<Rightarrow> run_task \<Rightarrow> run_task \<Rightarrow> bool" where
  "moved E c t t' \<longleftrightarrow> (\<exists>xs. run_commands exec_task t xs = Inr t' \<and> list_all (timely E c) xs)"

definition born :: "case_pack \<Rightarrow> string \<Rightarrow> run_task \<Rightarrow> bool" where
  "born K n t \<longleftrightarrow> (\<exists>role c runId. role_case_of K role = Some c \<and> createRunTask n runId (rk_initialTaskState c) True = Inr t)"

text \<open>What the service shows of a task.\<close>

definition projects :: "task_dto \<Rightarrow> run_task \<Rightarrow> bool" where
  "projects d t \<longleftrightarrow> td_id d = rt_id t \<and> td_state d = rt_state t \<and> td_lockVersion d = rt_version t \<and> td_claimEpoch d = rt_claimEpoch t
     \<and> td_claimedByRunAgentId d = map_option cl_runAgentId (rt_activeClaim t)
     \<and> td_leaseExpiresAt d = map_option cl_leaseExpiresAt (rt_activeClaim t)"

definition accepted_event :: "string \<Rightarrow> event_dto \<Rightarrow> bool" where
  "accepted_event role e \<longleftrightarrow> ei_eventType (ed_input e) = ''evaluation.completed''
     \<and> json_field ''roleSlotId'' (ei_payload (ed_input e)) = Some (JString role)
     \<and> json_field ''verdict'' (ei_payload (ed_input e)) = Some (JString ''ACCEPTED'')"

definition analysis :: "stored_run \<Rightarrow> run_barrier option" where
  "analysis r = map_of (sr_barriers r) ''analysis-ready''"

definition analysis_released :: "stored_run \<Rightarrow> bool" where
  "analysis_released r \<longleftrightarrow> (\<exists>b. analysis r = Some b \<and> rb_state b = B_RELEASED)"

definition task_ok :: "environment \<Rightarrow> case_pack \<Rightarrow> run_world \<Rightarrow> string \<Rightarrow> run_task \<Rightarrow> bool" where
  "task_ok E K w n t \<longleftrightarrow> rt_id t = n \<and> n \<in> env_idFactory E ` {..<tk_ids w}
     \<and> (\<exists>d. map_of (sr_tasks (rw_run w)) n = Some d \<and> projects d t
          \<and> (td_roleSlotId d = COORDINATOR \<longrightarrow> rt_state t \<noteq> T_BLOCKED \<longrightarrow> analysis_released (rw_run w)))
     \<and> (\<exists>t0. born K n t0 \<and> moved E 0 t0 t)"

definition barrier_ok :: "run_world \<Rightarrow> run_barrier \<Rightarrow> bool" where
  "barrier_ok w b \<longleftrightarrow> barrier_wf b \<and> rb_requiredConditionKeys b = SPECIALISTS
     \<and> (\<forall>i \<in> set (rb_inputs b). \<exists>e \<in> set (sr_events (rw_run w)).
          ed_eventId e = bi_sourceEventId i \<and> accepted_event (bi_conditionKey i) e)"

definition work_ok :: "environment \<Rightarrow> case_pack \<Rightarrow> run_world \<Rightarrow> bool" where
  "work_ok E K w \<longleftrightarrow>
     (rx_state (sr_run (rw_run w)) = FORMING \<longrightarrow> sr_taskStates (rw_run w) = [] \<and> analysis (rw_run w) = None)
     \<and> (\<forall>n t. map_of (sr_taskStates (rw_run w)) n = Some t \<longrightarrow> task_ok E K w n t)
     \<and> (\<forall>b. analysis (rw_run w) = Some b \<longrightarrow> barrier_ok w b)"

definition follows :: "environment \<Rightarrow> run_world \<Rightarrow> run_world \<Rightarrow> bool" where
  "follows E v w \<longleftrightarrow> ticks_forward v w \<and> (\<forall>n t. map_of (sr_taskStates (rw_run v)) n = Some t \<longrightarrow>
     (\<exists>t'. map_of (sr_taskStates (rw_run w)) n = Some t' \<and> moved E (tk_clock v) t t'))"

text \<open>The coordinator's task starts blocked.\<close>

definition coordinator_waits :: "case_pack \<Rightarrow> bool" where
  "coordinator_waits K \<longleftrightarrow> rk_initialTaskState (kp_dispatchCoordination K) = T_BLOCKED"

definition work_moves :: "environment \<Rightarrow> case_pack \<Rightarrow> run_world \<Rightarrow> run_world \<Rightarrow> bool" where
  "work_moves E K v w \<longleftrightarrow> ticks_forward v w
     \<and> (inj (env_idFactory E) \<and> coordinator_waits K \<and> work_ok E K v \<longrightarrow> work_ok E K w \<and> follows E v w)"

section \<open>Steps beside the work\<close>

definition work_stay :: "run_world \<Rightarrow> run_world \<Rightarrow> bool" where
  "work_stay v w \<longleftrightarrow> ticks_forward v w \<and> sr_run (rw_run w) = sr_run (rw_run v) \<and> sr_tasks (rw_run w) = sr_tasks (rw_run v)
     \<and> sr_taskStates (rw_run w) = sr_taskStates (rw_run v) \<and> analysis (rw_run w) = analysis (rw_run v)
     \<and> set (sr_events (rw_run v)) \<subseteq> set (sr_events (rw_run w))"

lemma moved_refl: "moved E c t t"
  unfolding moved_def by (intro exI [of _ "[]"]) simp

lemma moved_trans:
  assumes "moved E c t u" and "moved E c' u v" and "c \<le> c'"
  shows "moved E c t v"
proof -
  obtain xs ys where x: "run_commands exec_task t xs = Inr u" "list_all (timely E c) xs"
    and y: "run_commands exec_task u ys = Inr v" "list_all (timely E c') ys" using assms(1,2) by (auto simp: moved_def)
  have "timely E c z" if "timely E c' z" for z
    using that assms(3) unfolding timely_def by (meson order_trans)
  then have "list_all (timely E c) ys" using y(2) by (auto simp: list_all_iff)
  then show ?thesis unfolding moved_def using x y by (intro exI [of _ "xs @ ys"]) (simp add: run_commands_append)
qed

lemma moved_step: "moved E c t u \<Longrightarrow> exec_task u x = Inr v \<Longrightarrow> timely E c x \<Longrightarrow> moved E c t v"
  by (erule moved_trans [OF _ _ order_refl]) (auto simp: moved_def intro!: exI [of _ "[x]"])

lemma moved_earlier: "moved E c t u \<Longrightarrow> c' \<le> c \<Longrightarrow> moved E c' t u"
  using moved_trans [OF moved_refl] by blast

lemma follows_refl: "follows E v v"
  by (auto simp: follows_def ticks_forward_def moved_refl)

lemma follows_trans: "follows E u v \<Longrightarrow> follows E v w \<Longrightarrow> follows E u w"
  unfolding follows_def ticks_forward_def by (meson moved_trans order_trans)

lemma stay_ok:
  assumes "work_stay v w" and "work_ok E K v"
  shows "work_ok E K w \<and> follows E v w"
proof -
  have s: "sr_run (rw_run w) = sr_run (rw_run v)" "sr_tasks (rw_run w) = sr_tasks (rw_run v)"
    "sr_taskStates (rw_run w) = sr_taskStates (rw_run v)" "analysis (rw_run w) = analysis (rw_run v)"
    "set (sr_events (rw_run v)) \<subseteq> set (sr_events (rw_run w))" "tk_ids v \<le> tk_ids w" "ticks_forward v w"
    using assms(1) by (auto simp: work_stay_def ticks_forward_def)
  have "env_idFactory E ` {..<tk_ids v} \<subseteq> env_idFactory E ` {..<tk_ids w}" using s(6) by (intro image_mono) auto
  then have "task_ok E K v n t \<Longrightarrow> task_ok E K w n t" for n t
    unfolding task_ok_def analysis_released_def s by blast
  moreover have "barrier_ok v b \<Longrightarrow> barrier_ok w b" for b
    using s(5) unfolding barrier_ok_def by blast
  ultimately show ?thesis
    using assms(2) s(7) unfolding work_ok_def follows_def s by (blast intro: moved_refl)
qed

interpretation beside_work: run_steps E work_stay for E
  by unfold_locales (auto simp: work_stay_def ticks_forward_def plain_change_def analysis_def)

lemma stay_moves: "work_stay v w \<Longrightarrow> work_moves E K v w"
  using stay_ok by (auto simp: work_moves_def work_stay_def)

interpretation moving: evolution "work_moves E K" for E K
proof unfold_locales
  show "work_moves E K u w" if "work_moves E K u v" "work_moves E K v w" for u v w
    using that unfolding work_moves_def using follows_trans by (auto simp: ticks_forward_def)
qed (auto simp: work_moves_def ticks_forward_def follows_refl)

section \<open>The calculus\<close>

definition good :: "environment \<Rightarrow> case_pack \<Rightarrow> run_world \<Rightarrow> run_world \<Rightarrow> bool" where
  "good E K v w \<longleftrightarrow> work_ok E K w \<and> follows E v w"

definition safe ::
  "environment \<Rightarrow> case_pack \<Rightarrow> run_world \<Rightarrow> (run_world \<Rightarrow> bool) \<Rightarrow> (run_world, 'a) action \<Rightarrow> ('a \<Rightarrow> run_world \<Rightarrow> bool) \<Rightarrow> bool" where
  "safe E K v P m Q \<longleftrightarrow> (inj (env_idFactory E) \<longrightarrow> coordinator_waits K \<longrightarrow>
     (\<forall>w r u. good E K v w \<longrightarrow> P w \<longrightarrow> m w = (r, u) \<longrightarrow> good E K v u \<and> (\<forall>x. r = Inr x \<longrightarrow> Q x u)))"

definition stable :: "(run_world \<Rightarrow> bool) \<Rightarrow> bool" where
  "stable P \<longleftrightarrow> (\<forall>w u. work_stay w u \<longrightarrow> P w \<longrightarrow> P u)"

lemma good_stay: "good E K v w \<Longrightarrow> work_stay w u \<Longrightarrow> good E K v u"
  using stay_ok follows_trans unfolding good_def by blast

lemma safe_after:
  assumes "safe E K v P m Q" and "\<And>x. safe E K v (Q x) (f x) Q'"
  shows "safe E K v P (after m f) Q'"
  using assms unfolding safe_def after_cases by (metis Inl_Inr_False)

lemma safe_stay: "stable P \<Longrightarrow> evolves work_stay m \<Longrightarrow> safe E K v P m (\<lambda>_. P)"
  unfolding safe_def stable_def by (meson evolvesD good_stay)

lemma safe_stay_end: "evolves work_stay m \<Longrightarrow> safe E K v P m (\<lambda>_ _. True)"
  unfolding safe_def by (meson evolvesD good_stay)

lemma safe_conseq:
  "safe E K v P m Q \<Longrightarrow> (\<And>w. P' w \<Longrightarrow> P w) \<Longrightarrow> (\<And>x w. Q x w \<Longrightarrow> Q' x w) \<Longrightarrow> safe E K v P' m Q'"
  unfolding safe_def by blast

lemma safe_call: "safe E K v P (call r) (\<lambda>x w. r = Inr x \<and> P w)"
  by (simp add: safe_def action_run)

lemma safe_read: "safe E K v P (run_reading f) (\<lambda>x w. x = f (rw_run w) \<and> P w)"
  by (simp add: safe_def run_reading_def action_run)

lemma safe_give: "safe E K v P (give x) (\<lambda>_. P)" "safe E K v P (give y) (\<lambda>_ _. True)"
  by (simp_all add: safe_def action_run)

lemma safe_throw: "safe E K v P (throw c) Q"
  by (simp add: safe_def action_run fail_def)

lemma safe_if: "(b \<Longrightarrow> safe E K v P m Q) \<Longrightarrow> (\<not> b \<Longrightarrow> safe E K v P n Q) \<Longrightarrow> safe E K v P (if b then m else n) Q"
  by simp

lemma safe_option:
  "(x = None \<Longrightarrow> safe E K v P m Q) \<Longrightarrow> (\<And>y. x = Some y \<Longrightarrow> safe E K v P (f y) Q) \<Longrightarrow>
   safe E K v P (case x of None \<Rightarrow> m | Some y \<Rightarrow> f y) Q"
  by (cases x) simp_all

lemma safe_pure: "(b \<Longrightarrow> safe E K v P m Q) \<Longrightarrow> safe E K v (\<lambda>w. b \<and> P w) m Q"
  by (auto simp: safe_def)

lemma safe_body:
  assumes "evolves_from P (journal_grows E) m" and "\<And>v. work_ok E K v \<Longrightarrow> P v \<Longrightarrow> P' v" and "\<And>v. safe E K v P' m Q"
  shows "evolves_from P (work_moves E K) m"
proof -
  have "work_moves E K w u" if "P w" "m w = (r, u)" for w r u
    using evolves_fromD [OF assms(1) that] assms(2) assms(3) [of w] that follows_refl
    unfolding work_moves_def safe_def good_def journal_grows_def by blast
  then show ?thesis by (simp add: evolves_from_def) (metis prod.collapse)
qed

section \<open>Transitions of a task\<close>

definition task_is :: "run_task \<Rightarrow> run_world \<Rightarrow> bool" where
  "task_is t w \<longleftrightarrow> map_of (sr_taskStates (rw_run w)) (rt_id t) = Some t"

text \<open>Facts about the rest of a run, which steps of tasks do not disturb.\<close>

definition blind :: "(run_world \<Rightarrow> bool) \<Rightarrow> bool" where
  "blind A \<longleftrightarrow> stable A \<and> (\<forall>w f g. A w \<longrightarrow> A (w\<lparr>rw_run := (rw_run w)\<lparr>sr_taskStates := f, sr_tasks := g\<rparr>\<rparr>))"

definition put_both :: "run_task \<Rightarrow> task_dto \<Rightarrow> run_world \<Rightarrow> run_world" where
  "put_both t d w = w\<lparr>rw_run := (rw_run w)\<lparr>sr_taskStates := map_put (rt_id t) t (sr_taskStates (rw_run w)),
     sr_tasks := map_put (rt_id t) d (sr_tasks (rw_run w))\<rparr>\<rparr>"

definition dto_for :: "task_dto \<Rightarrow> run_task \<Rightarrow> task_dto" where
  "dto_for d t = d\<lparr>td_state := rt_state t, td_lockVersion := rt_version t, td_claimEpoch := rt_claimEpoch t,
     td_claimedByRunAgentId := map_option cl_runAgentId (rt_activeClaim t),
     td_leaseExpiresAt := map_option cl_leaseExpiresAt (rt_activeClaim t)\<rparr>"

lemma put_both_run:
  assumes "map_of (sr_tasks (rw_run w)) (rt_id t) = Some d"
  shows "after (put_task_state t) (\<lambda>_. after (updateTaskDto t) f) w = f (dto_for d t) (put_both t (dto_for d t) w)"
  using assms by (simp add: put_task_state_def updateTaskDto_def after_assoc after_run_changing after_run_reading Let_def
    after_give put_both_def dto_for_def)

lemma exec_task_keeps: "exec_task t x = Inr t' \<Longrightarrow> rt_id t' = rt_id t"
  by (cases x) (auto simp: task_operation_defs Let_def)

lemma work_task_ok: "work_ok E K w \<Longrightarrow> map_of (sr_taskStates (rw_run w)) n = Some t \<Longrightarrow> task_ok E K w n t"
  by (simp add: work_ok_def)

lemma put_both_ok:
  assumes "work_ok E K w" and "task_is t w" and "exec_task t x = Inr t'" and "timely E 0 x"
    and "rt_state t \<noteq> T_BLOCKED \<or> analysis_released (rw_run w)" and "map_of (sr_tasks (rw_run w)) (rt_id t) = Some d"
  shows "work_ok E K (put_both t' (dto_for d t') w)"
proof -
  have i: "rt_id t' = rt_id t" using exec_task_keeps [OF assms(3)] .
  have t: "task_ok E K w (rt_id t) t" using assms(1,2) by (simp add: work_ok_def task_is_def)
  then have "projects (dto_for d t') t'" "rt_state t \<noteq> T_BLOCKED \<or> analysis_released (rw_run w)"
    using assms(5,6) i by (auto simp: task_ok_def projects_def dto_for_def)
  moreover obtain t0 where "born K (rt_id t) t0" "moved E 0 t0 t" using t by (auto simp: task_ok_def)
  moreover from this(2) have "moved E 0 t0 t'" using moved_step [OF _ assms(3,4)] by blast
  ultimately have new: "task_ok E K (put_both t' (dto_for d t') w) (rt_id t) t'"
    using t assms(5,6) i by (auto simp: task_ok_def put_both_def analysis_released_def analysis_def dto_for_def)
  have "task_ok E K (put_both t' (dto_for d t') w) n u" if "task_ok E K w n u" "n \<noteq> rt_id t" for n u
    using that i by (auto simp: task_ok_def put_both_def analysis_released_def analysis_def)
  then show ?thesis
    using assms(1,2) new i by (auto simp: work_ok_def task_is_def put_both_def barrier_ok_def analysis_def)
qed

lemma put_both_follows:
  assumes "follows E v w" and "task_is t w" and "exec_task t x = Inr t'" and "timely E (tk_clock v) x"
  shows "follows E v (put_both t' d w)"
proof -
  have i: "rt_id t' = rt_id t" using exec_task_keeps [OF assms(3)] .
  have "\<exists>u'. map_of (sr_taskStates (rw_run (put_both t' d w))) n = Some u' \<and> moved E (tk_clock v) u u'"
    if n: "map_of (sr_taskStates (rw_run v)) n = Some u" for n u
  proof -
    obtain u' where "map_of (sr_taskStates (rw_run w)) n = Some u'" "moved E (tk_clock v) u u'"
      using assms(1) n unfolding follows_def by blast
    then show ?thesis
      using moved_step [OF _ assms(3,4)] assms(2) i by (auto simp: put_both_def task_is_def)
  qed
  then show ?thesis using assms(1) by (simp add: follows_def ticks_forward_def put_both_def)
qed

lemma stable_task: "stable A \<Longrightarrow> stable (\<lambda>w. task_is t w \<and> A w)"
  by (auto simp: stable_def task_is_def work_stay_def)

lemma timely_earlier: "timely E c x \<Longrightarrow> timely E 0 x"
  unfolding timely_def by blast

lemma safe_transition:
  assumes "exec_task t x = Inr t'" and "timely E (tk_clock v) x" and "blind A"
    and "rt_state t \<noteq> T_BLOCKED \<or> (\<forall>w. A w \<longrightarrow> analysis_released (rw_run w))"
    and "\<And>d. safe E K v (\<lambda>w. task_is t' w \<and> A w) (f d) Q"
  shows "safe E K v (\<lambda>w. task_is t w \<and> A w) (after (put_task_state t') (\<lambda>_. after (updateTaskDto t') f)) Q"
  unfolding safe_def
proof (intro impI allI)
  fix w r u
  assume E: "inj (env_idFactory E)" "coordinator_waits K" and g: "good E K v w" and p: "task_is t w \<and> A w"
    and run: "after (put_task_state t') (\<lambda>_. after (updateTaskDto t') f) w = (r, u)"
  have i: "rt_id t' = rt_id t" using exec_task_keeps [OF assms(1)] .
  obtain d where d: "map_of (sr_tasks (rw_run w)) (rt_id t) = Some d"
    using g p work_task_ok [of E K w] unfolding good_def task_is_def task_ok_def by meson
  let ?w = "put_both t' (dto_for d t') w"
  have "rt_state t \<noteq> T_BLOCKED \<or> analysis_released (rw_run w)" using assms(4) p by blast
  then have "work_ok E K ?w" using g p d put_both_ok [OF _ _ assms(1) timely_earlier [OF assms(2)]] by (simp add: good_def)
  moreover have "follows E v ?w" using g p put_both_follows [OF _ _ assms(1,2)] by (simp add: good_def)
  ultimately have "good E K v ?w" by (simp add: good_def)
  moreover have "task_is t' ?w \<and> A ?w" using p assms(3) i by (simp add: task_is_def put_both_def blind_def)
  moreover have "f (dto_for d t') ?w = (r, u)" using run d i by (simp add: put_both_run)
  ultimately show "good E K v u \<and> (\<forall>x. r = Inr x \<longrightarrow> Q x u)"
    using assms(5) E unfolding safe_def by blast
qed

lemma safe_record:
  assumes "exec_task t x = Inr t'" and "timely E (tk_clock v) x" and "blind A"
    and "rt_state t \<noteq> T_BLOCKED \<or> (\<forall>w. A w \<longrightarrow> analysis_released (rw_run w))"
  shows "safe E K v (\<lambda>w. task_is t w \<and> A w) (recordTaskTransition E t' a ty) (\<lambda>_ w. task_is t' w \<and> A w)"
    and "safe E K v (\<lambda>w. task_is t w \<and> A w) (recordEvaluatorTaskTransition E t' a ty i b) (\<lambda>_ w. task_is t' w \<and> A w)"
proof -
  have st: "stable (\<lambda>w. task_is t' w \<and> A w)" using assms(3) by (intro stable_task) (simp add: blind_def)
  show "safe E K v (\<lambda>w. task_is t w \<and> A w) (recordTaskTransition E t' a ty) (\<lambda>_ w. task_is t' w \<and> A w)"
    unfolding recordTaskTransition_def
    by (intro safe_transition [OF assms] safe_after safe_stay st beside_work.part_rules)
  show "safe E K v (\<lambda>w. task_is t w \<and> A w) (recordEvaluatorTaskTransition E t' a ty i b) (\<lambda>_ w. task_is t' w \<and> A w)"
    unfolding recordEvaluatorTaskTransition_def
    by (intro safe_transition [OF assms] safe_after safe_stay st beside_work.part_rules)
qed

section \<open>The analysis barrier\<close>

lemma safe_weaken: "(\<And>w. work_ok E K w \<Longrightarrow> P' w \<Longrightarrow> P w) \<Longrightarrow> safe E K v P m Q \<Longrightarrow> safe E K v P' m Q"
  unfolding safe_def good_def by blast

lemma safe_pair: "(\<And>a b. x = (a, b) \<Longrightarrow> safe E K v P (f a b) Q) \<Longrightarrow> safe E K v P (case x of (a, b) \<Rightarrow> f a b) Q"
  by (cases x) simp

lemma safe_append: "stable P \<Longrightarrow> safe E K v P (appendRunEvent E i) (\<lambda>e w. ed_input e = i \<and> e \<in> set (sr_events (rw_run w)) \<and> P w)"
proof -
  assume "stable P"
  moreover have "work_stay w (with_event E i w)" for w by (rule beside_work.event)
  ultimately show ?thesis by (auto simp: safe_def append_run stable_def intro: good_stay)
qed

lemma safe_put_barrier:
  assumes "\<And>w. work_ok E K w \<Longrightarrow> P w \<Longrightarrow> barrier_ok w b \<and> rx_state (sr_run (rw_run w)) \<noteq> FORMING
      \<and> (analysis_released (rw_run w) \<longrightarrow> rb_state b = B_RELEASED)"
    and "\<And>w x. P w \<Longrightarrow> Q () (w\<lparr>rw_run := (rw_run w)\<lparr>sr_barriers := map_put ''analysis-ready'' b x\<rparr>\<rparr>)"
  shows "safe E K v P (put_barrier ''analysis-ready'' b) Q"
proof -
  have "good E K v (w\<lparr>rw_run := (rw_run w)\<lparr>sr_barriers := map_put ''analysis-ready'' b (sr_barriers (rw_run w))\<rparr>\<rparr>)" (is "good E K v ?w")
    if g: "good E K v w" and p: "P w" for w
  proof -
    have w: "work_ok E K w" "follows E v w" using g by (auto simp: good_def)
    note b = assms(1) [OF w(1) p]
    then have "analysis_released (rw_run w) \<longrightarrow> analysis_released (rw_run ?w)" by (simp add: analysis_released_def analysis_def)
    then have "task_ok E K w n t \<Longrightarrow> task_ok E K ?w n t" for n t by (auto simp: task_ok_def)
    moreover have "barrier_ok ?w b" using b by (simp add: barrier_ok_def)
    ultimately have "work_ok E K ?w" using w(1) b by (simp add: work_ok_def analysis_def)
    then show ?thesis using w(2) by (simp add: good_def follows_def ticks_forward_def)
  qed
  then show ?thesis using assms(2) by (auto simp: safe_def put_barrier_def run_changing_def action_run)
qed

lemma blind_released: "blind (\<lambda>w. analysis_released (rw_run w))"
  by (auto simp: blind_def stable_def work_stay_def analysis_released_def analysis_def)

lemma timely_unleased: "lease_of x = None \<Longrightarrow> timely E c x"
  by (simp add: timely_def)

lemma safe_read_any: "safe E K v P (run_reading f) (\<lambda>_. P)"
  by (simp add: safe_def run_reading_def action_run)

lemma safe_read_task:
  assumes "\<And>t. rt_id t = n \<Longrightarrow> safe E K v (\<lambda>w. task_is t w \<and> A w) (f t) Q"
  shows "safe E K v A (after (run_reading (\<lambda>r. map_of (sr_taskStates r) n)) (\<lambda>x. case x of None \<Rightarrow> throw c | Some t \<Rightarrow> f t)) Q"
proof (intro safe_after [OF safe_read] safe_option safe_throw safe_pure)
  fix x and t :: run_task
  assume x: "x = Some t"
  have "safe E K v (\<lambda>w. x = map_of (sr_taskStates (rw_run w)) n \<and> A w) (f t) Q" if "rt_id t = n"
    by (rule safe_weaken [OF _ assms [OF that]]) (simp add: x that task_is_def)
  moreover have "rt_id t = n" if "work_ok E K w" "x = map_of (sr_taskStates (rw_run w)) n" for w
    using work_task_ok [OF that(1)] that(2) x by (auto simp: task_ok_def)
  ultimately show "safe E K v (\<lambda>w. x = map_of (sr_taskStates (rw_run w)) n \<and> A w) (f t) Q"
    unfolding safe_def good_def by blast
qed

lemma move_unblock: "releaseBlockedRunTask t n = Inr t' \<Longrightarrow> exec_task t (UnblockTask n) = Inr t'"
  by simp

lemma safe_release_coordinator:
  "safe E K v (\<lambda>w. analysis_released (rw_run w)) (release_coordinator E) (\<lambda>_ _. True)"
  unfolding release_coordinator_def
  by (intro safe_after [OF safe_read_any] safe_read_task safe_option safe_throw safe_after [OF safe_call] safe_pure
    safe_transition [OF move_unblock] safe_stay_end blind_released timely_unleased beside_work.part_rules; simp)

definition recorded :: "event_dto \<Rightarrow> run_world \<Rightarrow> bool" where
  "recorded e w \<longleftrightarrow> e \<in> set (sr_events (rw_run w))"

lemma blind_recorded: "blind (recorded e)"
  by (auto simp: blind_def stable_def work_stay_def recorded_def)

lemma barrier_ok_record:
  assumes "barrier_ok w b" and "recordRunBarrierInput b n role (ed_eventId e) = Inr b'" and "accepted_event role e" and "recorded e w"
  shows "barrier_ok w b' \<and> (rb_state b = B_RELEASED \<longrightarrow> rb_state b' = B_RELEASED)"
proof -
  have wf: "barrier_wf b'" using barrier_wf_record [OF _ assms(2)] assms(1) by (simp add: barrier_ok_def)
  show ?thesis
    using assms(1,2) unfolding record_Inr
    by (auto simp: barrier_ok_def wf assms(3) split: if_splits intro: bexI [of _ e] assms(4) [unfolded recorded_def])
qed

lemma barrier_ok_release:
  assumes "barrier_ok w b" and "releaseRunBarrier b n = Inr (b', c)"
  shows "barrier_ok w b' \<and> rb_state b' = B_RELEASED"
proof -
  have "barrier_wf b'" using barrier_wf_release [OF _ assms(2)] assms(1) by (simp add: barrier_ok_def)
  then show ?thesis using assms(1,2) unfolding release_Inr by (auto simp: barrier_ok_def split: if_splits)
qed

lemma safe_record_input:
  assumes "accepted_event role e" and "\<And>b next. safe E K v (\<lambda>w. analysis (rw_run w) = Some next) (f b next) Q"
  shows "safe E K v (recorded e) (after (run_reading (\<lambda>r. map_of (sr_barriers r) ''analysis-ready'')) (\<lambda>found.
     case found of None \<Rightarrow> throw c | Some b \<Rightarrow>
       after (call (recordRunBarrierInput b (rb_version b) role (ed_eventId e))) (\<lambda>next.
       after (put_barrier ''analysis-ready'' next) (\<lambda>_. f b next)))) Q"
proof (intro safe_after [OF safe_read] safe_option safe_throw safe_after [OF safe_call] safe_pure)
  fix x and b b' :: run_barrier
  assume x: "x = Some b" and rec: "recordRunBarrierInput b (rb_version b) role (ed_eventId e) = Inr b'"
  show "safe E K v (\<lambda>w. x = map_of (sr_barriers (rw_run w)) ''analysis-ready'' \<and> recorded e w)
      (after (put_barrier ''analysis-ready'' b') (\<lambda>_. f b b')) Q"
  proof (rule safe_after [OF safe_put_barrier assms(2)])
    fix w
    assume w: "work_ok E K w" and p: "x = map_of (sr_barriers (rw_run w)) ''analysis-ready'' \<and> recorded e w"
    then have b: "analysis (rw_run w) = Some b" using x by (simp add: analysis_def)
    then have "barrier_ok w b" "rx_state (sr_run (rw_run w)) \<noteq> FORMING" using w by (auto simp: work_ok_def)
    then show "barrier_ok w b' \<and> rx_state (sr_run (rw_run w)) \<noteq> FORMING
        \<and> (analysis_released (rw_run w) \<longrightarrow> rb_state b' = B_RELEASED)"
      using barrier_ok_record [OF _ rec assms(1)] p b by (auto simp: analysis_released_def)
  qed (simp add: analysis_def)
qed

lemma safe_release_barrier:
  assumes "\<And>b n. safe E K v (\<lambda>w. analysis_released (rw_run w)) (f b n) Q"
  shows "safe E K v (\<lambda>w. analysis (rw_run w) = Some b) (after (call (releaseRunBarrier b n)) (\<lambda>(released, now).
     after (put_barrier ''analysis-ready'' released) (\<lambda>_. f released now))) Q"
proof (intro safe_after [OF safe_call] safe_pair)
  fix x and b' :: run_barrier and now :: bool
  assume x: "x = (b', now)"
  show "safe E K v (\<lambda>w. releaseRunBarrier b n = Inr x \<and> analysis (rw_run w) = Some b)
      (after (put_barrier ''analysis-ready'' b') (\<lambda>_. f b' now)) Q"
  proof (rule safe_after [OF safe_put_barrier assms])
    fix w
    assume w: "work_ok E K w" and p: "releaseRunBarrier b n = Inr x \<and> analysis (rw_run w) = Some b"
    then have "barrier_ok w b" "rx_state (sr_run (rw_run w)) \<noteq> FORMING" by (auto simp: work_ok_def)
    then show "barrier_ok w b' \<and> rx_state (sr_run (rw_run w)) \<noteq> FORMING \<and> (analysis_released (rw_run w) \<longrightarrow> rb_state b' = B_RELEASED)"
      using barrier_ok_release p x by blast
  next
    fix w s
    assume p: "releaseRunBarrier b n = Inr x \<and> analysis (rw_run w) = Some b"
    then have "rb_state b' = B_RELEASED" using x by (auto simp: release_Inr split: if_splits)
    then show "analysis_released (rw_run (w\<lparr>rw_run := (rw_run w)\<lparr>sr_barriers := map_put ''analysis-ready'' b' s\<rparr>\<rparr>))"
      by (simp add: analysis_released_def analysis_def)
  qed
qed

lemma stable_analysis: "stable (\<lambda>w. analysis (rw_run w) = x)" "stable (\<lambda>w. analysis_released (rw_run w))"
  by (auto simp: stable_def work_stay_def analysis_released_def)

lemma safe_analysis:
  assumes "accepted_event role e"
  shows "safe E K v (recorded e) (recordAcceptedBarrierInput E role e) (\<lambda>_ _. True)"
  unfolding recordAcceptedBarrierInput_def
  by (intro safe_if safe_give safe_record_input [OF assms] safe_release_barrier safe_after [OF safe_stay] stable_analysis
    beside_work.part_rules safe_release_coordinator)

section \<open>Evaluations\<close>

lemma blind_True: "blind (\<lambda>_. True)"
  by (simp add: blind_def stable_def)

lemma blind_stable: "blind A \<Longrightarrow> stable A"
  by (simp add: blind_def)

text \<open>Each command of a task that does not unblock it moves a task that is not blocked.\<close>

lemma exec_task_free:
  assumes "exec_task t x = Inr t'" and "\<forall>n. x \<noteq> UnblockTask n"
  shows "rt_state t \<noteq> T_BLOCKED"
  using assms by (cases x) (auto simp: task_operation_defs Let_def)

lemma safe_step:
  assumes "exec_task t x = Inr t'" and "lease_of x = None" and "\<forall>n. x \<noteq> UnblockTask n" and "blind A"
  shows "safe E K v (\<lambda>w. task_is t w \<and> A w) (recordEvaluatorTaskTransition E t' a ty i b) (\<lambda>_ w. task_is t' w \<and> A w)"
  using safe_record(2) [OF assms(1) timely_unleased [OF assms(2)] assms(4)] exec_task_free [OF assms(1,3)] by blast

lemma evaluator_moves:
  "beginRunTaskEvaluation t n = Inr t' \<Longrightarrow> exec_task t (EvaluateTask n) = Inr t'"
  "acceptRunTask t n = Inr t' \<Longrightarrow> exec_task t (AcceptTask n) = Inr t'"
  "requireRunTaskRework t n = Inr t' \<Longrightarrow> exec_task t (ReworkTask n) = Inr t'"
  "readyRunTaskRevision t n = Inr t' \<Longrightarrow> exec_task t (ReviseTask n) = Inr t'"
  by simp_all

lemma safe_task_end: "safe E K v P m (\<lambda>_ w. task_is t w \<and> A w) \<Longrightarrow> safe E K v P m (\<lambda>_ _. True)"
  by (erule safe_conseq) simp_all

text \<open>The steps after the verdict, with the event of the evaluation in the journal.\<close>

definition verdict_steps ::
  "environment \<Rightarrow> submission_dto \<Rightarrow> run_task \<Rightarrow> string \<Rightarrow> string \<Rightarrow> verdict \<Rightarrow> evaluation_dto \<Rightarrow> event_dto \<Rightarrow> (run_world, task_dto) action" where
  "verdict_steps E x t role i v ev e =
     (if v = Verdict_ACCEPTED
      then
        after (call (acceptRunTask t (rt_version t))) (\<lambda>accepted.
        after (recordEvaluatorTaskTransition E accepted (sd_actorRunAgentId x) ''task.accepted'' i True) (\<lambda>dto.
        after (issueEvaluationFeedback E x ev) (\<lambda>_.
        after (recordAcceptedBarrierInput E role e) (\<lambda>_.
        give dto))))
      else
        after (call (requireRunTaskRework t (rt_version t))) (\<lambda>rework.
        after (recordEvaluatorTaskTransition E rework (sd_actorRunAgentId x) ''task.rework-required'' i False) (\<lambda>_.
        after (issueEvaluationFeedback E x ev) (\<lambda>_.
        after (call (readyRunTaskRevision rework (rt_version rework))) (\<lambda>ready.
        recordEvaluatorTaskTransition E ready (sd_actorRunAgentId x) ''task.revision-ready'' i True)))))"

lemma safe_verdict:
  assumes "v' = Verdict_ACCEPTED \<longrightarrow> accepted_event role e"
  shows "safe E K v (\<lambda>w. task_is t w \<and> recorded e w) (verdict_steps E x t role i v' ev e) (\<lambda>_ _. True)"
proof -
  note stay = safe_after [OF safe_stay [OF stable_task [OF blind_stable [OF blind_recorded]]]]
  have end_steps: "safe E K v (\<lambda>w. task_is u w \<and> recorded e w) (after (recordAcceptedBarrierInput E role e) (\<lambda>_. give d)) (\<lambda>_ _. True)"
    if "accepted_event role e" for u and d :: task_dto
    by (rule safe_after [OF safe_conseq [OF safe_analysis [OF that]]]) (simp_all add: safe_give)
  show ?thesis
    unfolding verdict_steps_def
  proof (rule safe_if)
    assume "v' = Verdict_ACCEPTED"
    then show "safe E K v (\<lambda>w. task_is t w \<and> recorded e w)
      (after (call (acceptRunTask t (rt_version t))) (\<lambda>accepted.
        after (recordEvaluatorTaskTransition E accepted (sd_actorRunAgentId x) ''task.accepted'' i True) (\<lambda>dto.
        after (issueEvaluationFeedback E x ev) (\<lambda>_.
        after (recordAcceptedBarrierInput E role e) (\<lambda>_.
        give dto))))) (\<lambda>_ _. True)"
      using assms by (intro safe_after [OF safe_call] safe_pure safe_after [OF safe_step [OF evaluator_moves(2) _ _ blind_recorded]]
        stay beside_work.feedback end_steps) simp_all
  next
    show "safe E K v (\<lambda>w. task_is t w \<and> recorded e w)
      (after (call (requireRunTaskRework t (rt_version t))) (\<lambda>rework.
        after (recordEvaluatorTaskTransition E rework (sd_actorRunAgentId x) ''task.rework-required'' i False) (\<lambda>_.
        after (issueEvaluationFeedback E x ev) (\<lambda>_.
        after (call (readyRunTaskRevision rework (rt_version rework))) (\<lambda>ready.
        recordEvaluatorTaskTransition E ready (sd_actorRunAgentId x) ''task.revision-ready'' i True))))) (\<lambda>_ _. True)"
      by (intro safe_after [OF safe_call] safe_pure safe_after [OF safe_step [OF evaluator_moves(3) _ _ blind_recorded]]
        safe_task_end [OF safe_step [OF evaluator_moves(4) _ _ blind_recorded]]
        stay beside_work.feedback) simp_all
  qed
qed

lemma stable_task_only: "stable (task_is t)"
  using stable_task [OF blind_stable [OF blind_True], of t] by simp

lemma safe_only: "safe E K v (\<lambda>w. task_is t w \<and> True) m Q \<Longrightarrow> safe E K v (task_is t) m Q"
  by simp

lemma safe_step_only:
  assumes "exec_task t x = Inr t'" and "lease_of x = None" and "\<forall>n. x \<noteq> UnblockTask n"
  shows "safe E K v (task_is t) (recordEvaluatorTaskTransition E t' a ty i b) (\<lambda>_. task_is t')"
  using safe_step [OF assms blind_True] by simp

lemma verdict_event:
  assumes "ed_input e = event_of ''evaluation'' i ''evaluation.completed'' ''system'' ''excon-evaluator'' ''evaluator_derived''
      [(''runAgentId'', x1), (''submissionId'', x2), (''taskId'', x3), (''roleSlotId'', JString role), (''targetScope'', x4),
       (''verdict'', JString (verdict_text v)), (''issueCodes'', x5), (''deterministic'', x6), (''evaluatorVersion'', x7)]"
    and "v = Verdict_ACCEPTED"
  shows "accepted_event role e"
  using assms by (simp add: accepted_event_def event_of_def json_field_def)

lemma safe_evaluated:
  assumes "\<And>e. ed_input e = i \<Longrightarrow> safe E K v (\<lambda>w. task_is t w \<and> recorded e w) (f e) Q"
  shows "safe E K v (task_is t) (after (appendRunEvent E i) f) Q"
proof (rule safe_after [OF safe_append [OF stable_task_only]])
  fix e
  show "safe E K v (\<lambda>w. ed_input e = i \<and> e \<in> set (sr_events (rw_run w)) \<and> task_is t w) (f e) Q"
    using assms [of e] by (auto simp: safe_def recorded_def)
qed

lemma safe_evaluation: "safe E K v (task_is t) (evaluateRoleSubmission E K x t d) (\<lambda>_ _. True)"
  unfolding evaluateRoleSubmission_def Let_def verdict_steps_def [symmetric]
  by (intro safe_after [OF safe_call] safe_pure safe_after [OF safe_step_only [OF evaluator_moves(1)]] safe_option safe_throw safe_pair
    safe_evaluated safe_verdict impI verdict_event
    safe_after [OF safe_stay [OF stable_task [OF blind_stable [OF blind_recorded]]]]
    safe_after [OF safe_stay [OF stable_task_only]] beside_work.part_rules) simp_all

section \<open>The bodies of the methods\<close>

definition shown :: "environment \<Rightarrow> nat \<Rightarrow> lease_command \<Rightarrow> bool" where
  "shown E n l \<longleftrightarrow> (\<exists>k \<ge> n. lc_now l = toISOString (env_now E k))"

lemma shown_timely: "shown E n l \<Longrightarrow> lease_of x = Some l \<Longrightarrow> timely E n x"
  by (simp add: shown_def timely_def)

lemma safe_lease: "stable P \<Longrightarrow> safe E K v P (leaseCommand E i a) (\<lambda>l w. shown E (tk_clock v) l \<and> P w)"
proof -
  assume s: "stable P"
  have w: "work_stay w (w\<lparr>tk_clock := tk_clock w + 1\<rparr>)" for w by (rule beside_work.ticking) simp_all
  show ?thesis
    unfolding safe_def
  proof (intro impI allI)
    fix w r u
    assume g: "good E K v w" and p: "P w" and run: "leaseCommand E i a w = (r, u)"
    have u: "u = w\<lparr>tk_clock := tk_clock w + 1\<rparr>" and r: "\<exists>l. r = Inr l \<and> lc_now l = toISOString (env_now E (tk_clock w))"
      using run by (auto simp: leaseCommand_def timestamp_def action_simps)
    have "tk_clock v \<le> tk_clock w" using g by (simp add: good_def follows_def ticks_forward_def)
    then show "good E K v u \<and> (\<forall>x. r = Inr x \<longrightarrow> shown E (tk_clock v) x \<and> P u)"
      using r w [of w] p s good_stay [OF g] unfolding u stable_def shown_def by blast
  qed
qed

lemma current_is: "work_ok E K w \<Longrightarrow> current_task a n t d w \<Longrightarrow> task_is t w"
  using work_task_ok [of E K w n t] by (auto simp: current_task_def task_is_def task_ok_def)

lemma safe_moved:
  assumes "exec_task t x = Inr t'" and "timely E (tk_clock v) x" and "\<forall>n. x \<noteq> UnblockTask n"
  shows "safe E K v (task_is t) (recordTaskTransition E t' a ty) (\<lambda>_. task_is t')"
  using safe_record(1) [OF assms(1,2) blind_True] exec_task_free [OF assms(1,3)] by simp

lemma lease_moves:
  "claimRunTask t i = Inr t' \<Longrightarrow> exec_task t (ClaimTask i) = Inr t'"
  "beginRunTask t c = Inr t' \<Longrightarrow> exec_task t (BeginTask c) = Inr t'"
  "heartbeatRunTask t c n = Inr t' \<Longrightarrow> exec_task t (HeartbeatTask c n) = Inr t'"
  "releaseRunTask t c = Inr t' \<Longrightarrow> exec_task t (ReleaseTask c) = Inr t'"
  "submitRunTask t c = Inr t' \<Longrightarrow> exec_task t (SubmitTask c) = Inr t'"
  by simp_all

lemma safe_claim: "safe E K v (task_is t) (claim_body E a t ev ls) (\<lambda>_ _. True)"
  unfolding claim_body_def
  by (intro safe_after [OF safe_call] safe_pure safe_after [OF safe_moved [OF lease_moves(1)]] safe_give timely_unleased
    safe_after [OF safe_stay [OF stable_task_only]] beside_work.part_rules) simp_all

lemma safe_begin: "safe E K v (task_is t) (begin_body E a t l) (\<lambda>_ _. True)"
  unfolding begin_body_def
  by (intro safe_after [OF safe_lease [OF stable_task_only]] safe_after [OF safe_call] safe_pure
    safe_after [OF safe_moved [OF lease_moves(2) shown_timely]] safe_give) simp_all

lemma safe_release: "safe E K v (task_is t) (release_body E a t l) (\<lambda>_ _. True)"
  unfolding release_body_def
  by (intro safe_after [OF safe_lease [OF stable_task_only]] safe_after [OF safe_call] safe_pure
    safe_after [OF safe_moved [OF lease_moves(4) shown_timely]] safe_give) simp_all

lemma safe_heartbeat: "safe E K v (task_is t) (heartbeat_body E a t l xs) (\<lambda>_ _. True)"
  unfolding heartbeat_body_def
  by (intro safe_after [OF safe_lease [OF stable_task_only]] safe_pure safe_after [OF safe_call] 
    safe_after [OF safe_moved [OF lease_moves(3) shown_timely]] safe_give
    safe_after [OF safe_stay [OF stable_task_only]] beside_work.part_rules beside_work.option_action) simp_all

lemma safe_transition_only:
  assumes "exec_task t x = Inr t'" and "timely E (tk_clock v) x" and "\<forall>n. x \<noteq> UnblockTask n"
    and "\<And>d. safe E K v (task_is t') (f d) Q"
  shows "safe E K v (task_is t) (after (put_task_state t') (\<lambda>_. after (updateTaskDto t') f)) Q"
  using safe_transition [OF assms(1,2) blind_True, where f = f and Q = Q] exec_task_free [OF assms(1,3)] assms(4) by simp

lemma safe_submit: "safe E K v (task_is t) (submit_body E K a n t d si) (\<lambda>_ _. True)"
  unfolding submit_body_def Let_def
  by (intro safe_after [OF safe_lease [OF stable_task_only]] safe_pure safe_after [OF safe_call] safe_pair
    safe_after [OF safe_if [OF safe_give(2) safe_evaluation]] safe_give
    safe_transition_only [OF lease_moves(5) shown_timely]
    safe_after [OF safe_stay [OF stable_task_only]] beside_work.part_rules beside_work.references beside_work.members beside_work.grants)
   simp_all

lemma stable_True: "stable (\<lambda>_. True)"
  by (simp add: stable_def)

text \<open>An endorsement adds to another barrier, and may lead to an evaluation.\<close>

lemma put_endorsement_barrier: "evolves work_stay (put_barrier ''endorsement-ready'' b)"
  by (simp add: evolves_def put_barrier_def run_changing_def action_run work_stay_def ticks_forward_def analysis_def)

lemma safe_task_pair:
  assumes "\<And>t d. rt_id t = n \<Longrightarrow> safe E K v (task_is t) (f d t) Q"
  shows "safe E K v (\<lambda>_. True) (after (run_reading (\<lambda>r. (map_of (sr_tasks r) n, map_of (sr_taskStates r) n)))
    (\<lambda>x. case x of (Some d, Some t) \<Rightarrow> f d t | _ \<Rightarrow> throw c)) Q"
proof (rule safe_after [OF safe_read])
  fix x
  show "safe E K v (\<lambda>w. x = (map_of (sr_tasks (rw_run w)) n, map_of (sr_taskStates (rw_run w)) n) \<and> True)
    (case x of (Some d, Some t) \<Rightarrow> f d t | _ \<Rightarrow> throw c) Q"
  proof (cases "\<exists>d t. x = (Some d, Some t)")
    case True
    then obtain d t where x: "x = (Some d, Some t)" by blast
    show ?thesis
    proof (cases "rt_id t = n")
      case True
      show ?thesis by (rule safe_weaken [where P = "task_is t"]) (use assms [OF True] x True in \<open>simp_all add: task_is_def\<close>)
    next
      case False
      then have "\<not> (good E K v w \<and> x = (map_of (sr_tasks (rw_run w)) n, map_of (sr_taskStates (rw_run w)) n))" for w
        using work_task_ok [of E K w n t] x by (auto simp: task_ok_def good_def)
      then show ?thesis unfolding safe_def by blast
    qed
  next
    case False
    then show ?thesis by (auto simp: safe_throw split: option.splits prod.splits)
  qed
qed

lemma safe_endorsement: "safe E K v (\<lambda>_. True) (recordEndorsementBarrierInput E K x a e) (\<lambda>_ _. True)"
  unfolding recordEndorsementBarrierInput_def Let_def
  by (intro safe_if safe_give safe_task_pair safe_after [OF safe_evaluation] safe_option safe_throw safe_pair
     safe_after [OF safe_stay] stable_True put_endorsement_barrier beside_work.part_rules beside_work.members) 

lemma safe_endorse: "safe E K v (\<lambda>_. True) (endorse_body E K a x g) (\<lambda>_ _. True)"
  unfolding endorse_body_def Let_def
  by (intro safe_give safe_after [OF safe_endorsement] 
     safe_after [OF safe_stay] stable_True beside_work.part_rules beside_work.grants) 

lemma work_aside:
  assumes "\<And>r. sr_run (g r) = sr_run r \<and> sr_tasks (g r) = sr_tasks r \<and> sr_taskStates (g r) = sr_taskStates r
      \<and> sr_barriers (g r) = sr_barriers r \<and> sr_events (g r) = sr_events r"
  shows "evolves work_stay (run_changing g)"
  using assms by (simp add: evolves_def run_changing_def action_run work_stay_def ticks_forward_def analysis_def)

lemma joined_stay: "evolves work_stay (join_body E p n av j)"
  unfolding join_body_def Let_def by (intro beside_work.part_rules work_aside) simp_all

lemma synced_stay: "evolves work_stay (sync_body E n a q)"
  unfolding sync_body_def Let_def
  by (intro beside_work.part_rules work_aside beside_work.acknowledge beside_work.issue) simp_all

section \<open>The start of a run\<close>

lemma stable_state: "stable (in_state x)"
  by (simp add: stable_def in_state_def work_stay_def)

lemma stable_both: "stable P \<Longrightarrow> stable Q \<Longrightarrow> stable (\<lambda>w. P w \<and> Q w)"
  unfolding stable_def by blast

lemma safe_starting: "safe E K v (in_state FORMING) (run_changing (starting s)) (\<lambda>_ w. in_state RUNNING w \<and> analysis (rw_run w) = None)"
proof -
  have "good E K v (w\<lparr>rw_run := starting s (rw_run w)\<rparr>) \<and> analysis (rw_run w) = None" if "good E K v w" "in_state FORMING w" for w
    using that
    by (auto simp: good_def work_ok_def follows_def ticks_forward_def in_state_def starting_def analysis_def)
  then show ?thesis
    by (auto simp: safe_def run_changing_def action_run in_state_def starting_def analysis_def)
qed

lemma safe_put_new_barrier:
  assumes b: "createRunBarrier x n SPECIALISTS = Inr b"
  shows "safe E K v (\<lambda>w. in_state RUNNING w \<and> analysis (rw_run w) = None) (put_barrier ''analysis-ready'' b) (\<lambda>_. in_state RUNNING)"
proof (rule safe_put_barrier)
  fix w
  assume "in_state RUNNING w \<and> analysis (rw_run w) = None"
  moreover have "rb_inputs b = []" "rb_requiredConditionKeys b = SPECIALISTS" using b by (auto simp: createRunBarrier_def)
  ultimately show "barrier_ok w b \<and> rx_state (sr_run (rw_run w)) \<noteq> FORMING \<and> (analysis_released (rw_run w) \<longrightarrow> rb_state b = B_RELEASED)"
    using barrier_wf_create [OF b] by (simp add: barrier_ok_def in_state_def analysis_released_def)
qed (simp add: in_state_def)

lemma safe_new_analysis:
  "safe E K v (\<lambda>w. in_state RUNNING w \<and> analysis (rw_run w) = None) (create_barrier E n ''analysis-ready'') (\<lambda>_. in_state RUNNING)"
  unfolding create_barrier_def
  by (intro safe_after [OF safe_put_new_barrier] safe_after [OF safe_call] safe_pure safe_give
    safe_after [OF safe_stay [OF stable_state]] safe_after [OF safe_stay [OF stable_both [OF stable_state stable_analysis(1)]]]
    beside_work.part_rules)

lemma new_endorsement_barrier: "evolves work_stay (create_barrier E n ''endorsement-ready'')"
  unfolding create_barrier_def by (intro beside_work.part_rules put_endorsement_barrier)

lemma safe_each: "(\<And>x. safe E K v P (f x) (\<lambda>_. P)) \<Longrightarrow> safe E K v P (perform_each f xs) (\<lambda>_. P)"
  by (induction xs) (auto intro: safe_after safe_give)

text \<open>A fresh identifier is that of no task.\<close>

definition free :: "environment \<Rightarrow> string \<Rightarrow> run_world \<Rightarrow> bool" where
  "free E n w \<longleftrightarrow> n \<in> env_idFactory E ` {..<tk_ids w} \<and> map_of (sr_taskStates (rw_run w)) n = None"

lemma stable_free: "stable (free E n)"
  unfolding stable_def free_def work_stay_def ticks_forward_def by (fastforce intro!: imageI)

lemma fresh_free:
  assumes "inj (env_idFactory E)" and "work_ok E K w"
  shows "free E (env_idFactory E (tk_ids w)) (w\<lparr>tk_ids := tk_ids w + 1\<rparr>)"
proof (cases "map_of (sr_taskStates (rw_run w)) (env_idFactory E (tk_ids w))")
  case (Some t)
  then have "env_idFactory E (tk_ids w) \<in> env_idFactory E ` {..<tk_ids w}" using work_task_ok assms(2) by (auto simp: task_ok_def)
  then show ?thesis using assms(1) by (auto dest: injD)
qed (auto simp: free_def)

lemma safe_free:
  assumes "stable P"
  shows "safe E K v P (next_id E) (\<lambda>n w. free E n w \<and> P w)"
  unfolding safe_def
proof (intro impI allI)
  fix w :: run_world and r u
  assume E: "inj (env_idFactory E)" and g: "good E K v w" and p: "P w" and run: "next_id E w = (r, u)"
  have u: "r = Inr (env_idFactory E (tk_ids w))" "u = w\<lparr>tk_ids := tk_ids w + 1\<rparr>" using run by (auto simp: next_id_def)
  have st: "work_stay w u" by (rule beside_work.ticking) (simp_all add: u)
  have "free E (env_idFactory E (tk_ids w)) u" using fresh_free [OF E, of K w] g by (simp add: good_def u)
  then show "good E K v u \<and> (\<forall>n. r = Inr n \<longrightarrow> free E n u \<and> P u)"
    using good_stay [OF g st] assms st p by (auto simp: u(1) stable_def)
qed

lemma coordinator_blocked: "coordinator_waits K \<Longrightarrow> role_case_of K COORDINATOR = Some c \<Longrightarrow> rk_initialTaskState c = T_BLOCKED"
  by (simp add: role_case_of_def COORDINATOR_def coordinator_waits_def)

lemma new_task_ok:
  assumes "work_ok E K w" and "free E n w" and "in_state RUNNING w" and "coordinator_waits K"
    and "role_case_of K (td_roleSlotId d) = Some c" and "createRunTask n m (rk_initialTaskState c) True = Inr t"
    and "td_id d = n" "td_state d = rk_initialTaskState c" "td_lockVersion d = Num 1" "td_claimEpoch d = Num 0"
    "td_claimedByRunAgentId d = None" "td_leaseExpiresAt d = None"
  shows "work_ok E K (put_both t d w)"
proof -
  have t: "rt_id t = n" "rt_state t = rk_initialTaskState c" and p: "projects d t"
    using assms(6-) by (auto simp: createRunTask_def projects_def)
  have b: "born K n t" using assms(5,6) by (auto simp: born_def)
  have blocked: "rt_state t = T_BLOCKED" if "td_roleSlotId d = COORDINATOR"
    using coordinator_blocked [OF assms(4)] assms(5) t that by simp
  have "task_ok E K (put_both t d w) n t"
    using b moved_refl assms(2) p blocked t unfolding task_ok_def put_both_def free_def by auto
  moreover have "task_ok E K (put_both t d w) k u" if "map_of (sr_taskStates (rw_run w)) k = Some u" for k u
  proof -
    have "k \<noteq> n" using that assms(2) by (auto simp: free_def)
    then show ?thesis using work_task_ok [OF assms(1) that] t by (auto simp: task_ok_def put_both_def analysis_released_def analysis_def)
  qed
  ultimately show ?thesis
    using assms(1,3) t by (auto simp: work_ok_def put_both_def barrier_ok_def analysis_def in_state_def)
qed

lemma safe_initial_task:
  assumes "role_case_of K role = Some c"
  shows "safe E K v (in_state RUNNING) (initial_task E c role a) (\<lambda>_. in_state RUNNING)"
proof -
  have new: "safe E K v (\<lambda>w. free E n w \<and> in_state RUNNING w)
      (after (put_task d) (\<lambda>_. after (call (createRunTask n m (rk_initialTaskState c) True)) (\<lambda>t. after (put_task_state t) (\<lambda>_. f t))))
      (\<lambda>_. in_state RUNNING)"
    if d: "td_id d = n" "td_state d = rk_initialTaskState c" "td_lockVersion d = Num 1" "td_claimEpoch d = Num 0"
      "td_claimedByRunAgentId d = None" "td_leaseExpiresAt d = None" "td_roleSlotId d = role"
      and f: "\<And>t. safe E K v (in_state RUNNING) (f t) (\<lambda>_. in_state RUNNING)" for n m d and f :: "run_task \<Rightarrow> (run_world, unit) action"
  proof -
    let ?put = "\<lambda>w. w\<lparr>rw_run := (rw_run w)\<lparr>sr_tasks := map_put n d (sr_tasks (rw_run w))\<rparr>\<rparr>"
    have one: "good E K v (?put w)" if "good E K v w" "free E n w" for w
    proof -
      have "task_ok E K (?put w) k u" if k: "map_of (sr_taskStates (rw_run w)) k = Some u" for k u
        using work_task_ok [OF _ k] that \<open>good E K v w\<close> \<open>free E n w\<close>
        by (auto simp: task_ok_def good_def free_def analysis_released_def analysis_def)
      then show ?thesis using \<open>good E K v w\<close>
        by (auto simp: good_def work_ok_def follows_def ticks_forward_def barrier_ok_def analysis_def)
    qed
    have two: "good E K v (put_both t d w)"
      if "good E K v w" "free E n w" "in_state RUNNING w" "coordinator_waits K"
        "createRunTask n m (rk_initialTaskState c) True = Inr t" for w t
    proof -
      have "rt_id t = n" using that(5) by (auto simp: createRunTask_def)
      moreover have "map_of (sr_taskStates (rw_run v)) n = None"
        using that(1,2) by (cases "map_of (sr_taskStates (rw_run v)) n") (simp, fastforce simp: good_def follows_def free_def)
      ultimately have "follows E v (put_both t d w)"
        using that(1,2) by (auto simp: good_def follows_def ticks_forward_def put_both_def)
      then show ?thesis using new_task_ok [OF _ that(2,3,4) _ that(5) d(1-6)] that(1) assms d(7) by (simp add: good_def)
    qed
    show ?thesis
      unfolding safe_def
    proof (intro impI allI)
      fix w r u
      assume E: "coordinator_waits K" "inj (env_idFactory E)" and g: "good E K v w" and p: "free E n w \<and> in_state RUNNING w"
        and run: "after (put_task d) (\<lambda>_. after (call (createRunTask n m (rk_initialTaskState c) True)) (\<lambda>t. after (put_task_state t) (\<lambda>_. f t))) w = (r, u)"
      show "good E K v u \<and> (\<forall>x. r = Inr x \<longrightarrow> in_state RUNNING u)"
      proof (cases "createRunTask n m (rk_initialTaskState c) True")
        case (Inl e)
        then have "r = Inl e" "u = ?put w" using run d(1) Inl by (auto simp: put_task_def run_changing_def action_simps)
        then show ?thesis using one g p by simp
      next
        case (Inr t)
        have "rt_id t = n" using Inr by (auto simp: createRunTask_def)
        then have "put_both t d w = w\<lparr>rw_run := (rw_run w)\<lparr>sr_tasks := map_put n d (sr_tasks (rw_run w)),
            sr_taskStates := map_put n t (sr_taskStates (rw_run w))\<rparr>\<rparr>"
          unfolding put_both_def by (cases "rw_run w") (simp add: \<open>rt_id t = n\<close>)
        then have "f t (put_both t d w) = (r, u)"
          using run Inr d(1) \<open>rt_id t = n\<close> by (simp add: put_task_def put_task_state_def run_changing_def action_simps)
        moreover have "good E K v (put_both t d w)" "in_state RUNNING (put_both t d w)"
          using two [OF g _ _ E(1) Inr] p by (auto simp: in_state_def put_both_def)
        ultimately show ?thesis using f E unfolding safe_def by blast
      qed
    qed
  qed
  show ?thesis
    unfolding initial_task_def Let_def
    by (intro safe_after [OF safe_free [OF stable_state]] new safe_stay [OF stable_state]
      safe_after [OF safe_stay [OF stable_both [OF stable_free stable_state]]] beside_work.part_rules) simp_all
qed

lemma safe_resources: "safe E K v (in_state RUNNING) (createInitialResources E K role a) (\<lambda>_. in_state RUNNING)"
  unfolding createInitialResources_def
  by (intro safe_option safe_throw safe_after [OF safe_initial_task] safe_after [OF safe_stay [OF stable_state]]
    safe_stay [OF stable_state] beside_work.part_rules beside_work.handouts)

lemma safe_start: "safe E K v (in_state FORMING) (start_body E K p n sv) (\<lambda>_ _. True)"
  unfolding start_body_def starting_fun Let_def
  by (intro safe_after [OF safe_starting] safe_after [OF safe_new_analysis] safe_after [OF safe_each [OF safe_resources]]
    safe_after [OF safe_stay [OF stable_state]] safe_after [OF safe_stay [OF stable_both [OF stable_state stable_analysis(1)]]]
    beside_work.part_rules new_endorsement_barrier safe_stay_end)

section \<open>The service\<close>

lemma stay_evolves: "evolves work_stay m \<Longrightarrow> evolves (work_moves E K) m"
  using stay_moves by (simp add: evolves_def)

definition work_sound :: "environment \<Rightarrow> case_pack \<Rightarrow> run_world \<Rightarrow> bool" where
  "work_sound E K w \<longleftrightarrow> inj (env_idFactory E) \<and> coordinator_waits K \<longrightarrow> work_ok E K w"

interpretation work: run_contract E K "work_moves E K" "work_sound E K" for E K
proof unfold_locales
  fix w
  show "work_moves E K w w" by (rule stay_moves [OF beside_work.same])
next
  fix u v w
  assume "work_moves E K u v" "work_moves E K v w"
  then show "work_moves E K u w" by (rule moving.goes_on)
next
  fix v w
  assume "work_moves E K v w" "work_sound E K v"
  then show "work_sound E K w" by (simp add: work_moves_def work_sound_def)
next
  fix v w
  assume "work_moves E K v w"
  then show "tk_ids v \<le> tk_ids w \<and> tk_clock v \<le> tk_clock w" by (simp add: work_moves_def ticks_forward_def)
next
  fix v w :: run_world
  assume "rw_run v = rw_run w" "tk_ids v \<le> tk_ids w" "tk_clock v \<le> tk_clock w"
  then show "work_moves E K v w" by (intro stay_moves beside_work.ticking)
next
  fix run e and w :: run_world
  assume "rx_state run = FORMING" "rw_run w = new_run run"
  then have "work_ok E K w" by (simp add: work_ok_def new_run_def analysis_def)
  then show "work_sound E K (snd (appendRunEvent E e w))"
    using stay_ok [OF beside_work.event] by (simp add: append_run work_sound_def)
next
  fix a t n d x g l ls ev xs si
  show "evolves_from (current_task a n t d) (work_moves E K) (claim_body E a t ev ls)"
    by (rule safe_body [OF evolves_evolves_from [OF journal_steps.task_bodies(1)] current_is safe_claim])
  show "evolves_from (current_task a n t d) (work_moves E K) (begin_body E a t l)"
    by (rule safe_body [OF evolves_evolves_from [OF journal_steps.task_bodies(2)] current_is safe_begin])
  show "evolves_from (current_task a n t d) (work_moves E K) (heartbeat_body E a t l xs)"
    by (rule safe_body [OF evolves_evolves_from [OF journal_steps.task_bodies(3)] current_is safe_heartbeat])
  show "evolves_from (current_task a n t d) (work_moves E K) (release_body E a t l)"
    by (rule safe_body [OF evolves_evolves_from [OF journal_steps.task_bodies(4)] current_is safe_release])
  show "evolves_from (current_task a n t d) (work_moves E K) (submit_body E K a n t d si)"
    by (rule safe_body [OF evolves_evolves_from [OF journal_steps.submit] current_is safe_submit])
  show "evolves_from (has_submission x) (work_moves E K) (endorse_body E K a x g)"
    by (rule safe_body [OF evolves_evolves_from [OF journal_steps.endorsement(2)] TrueI safe_endorse])
next
  fix p n av j sv
  show "evolves_from (in_state FORMING) (work_moves E K) (join_body E p n av j)"
    by (intro evolves_evolves_from stay_evolves joined_stay)
next
  fix n a q mi ci xi
  show "evolves (work_moves E K) (sync_body E n a q)" by (intro stay_evolves synced_stay)
  show "evolves_from (in_state RUNNING) (work_moves E K) (message_body E a n mi)"
    "evolves_from (in_state RUNNING) (work_moves E K) (artifact_body E a n ci)"
    "evolves_from (in_state RUNNING) (work_moves E K) (artifact_version_body E a n xi)"
    by (intro evolves_evolves_from stay_evolves beside_work.collaboration)+
next
  fix p n sv
  show "evolves_from (in_state FORMING) (work_moves E K) (start_body E K p n sv)"
    by (rule safe_body [OF journal.start_run _ safe_start])
qed

end
