(* ===== verification/RunExamples.thy ===== *)
theory RunExamples
  imports RunRefinement
begin

definition quiet_id :: "nat \<Rightarrow> string" where
  "quiet_id n = replicate (Suc n) CHR ''x''"

lemma quiet_id: "quiet_id m = quiet_id n \<longleftrightarrow> m = n" "quiet_id n \<noteq> []" "js_trim (quiet_id n) \<noteq> []"
  "quiet_id n @ k \<noteq> CHR ''a'' # z" "CHR ''a'' # z \<noteq> quiet_id n @ k"
  by (simp_all add: quiet_id_def js_trim_empty_iff is_js_space_def)

definition quiet_now :: "nat \<Rightarrow> int" where
  "quiet_now n = (if n < 40 then 0 else 1000000)"

definition quiet_environment :: environment where
  "quiet_environment = \<lparr>env_idFactory = quiet_id, env_now = quiet_now,
     env_leaseTokenFactory = (\<lambda>n. replicate (Suc n) CHR ''t''), env_sha256 = (\<lambda>_. []), env_chinese = (\<lambda>_. [])\<rparr>"

lemma quiet_hash: "hash quiet_environment v = ''sha256:''"
  by (simp add: hash_def quiet_environment_def)

lemma quiet_fields:
  "env_idFactory quiet_environment n = quiet_id n"
  "env_now quiet_environment n = quiet_now n"
  "env_leaseTokenFactory quiet_environment n = replicate (Suc n) CHR ''t''"
  "env_chinese quiet_environment v = []"
  by (simp_all add: quiet_environment_def)

definition quiet_content :: agent_content where
  "quiet_content = \<lparr>ac_providerKind = [], ac_model = [], ac_capabilities = [], ac_telemetryMode = [], ac_skillManifestHash = [],
     ac_toolManifestHash = []\<rparr>"

definition quiet_role :: "nat \<Rightarrow> role_definition" where
  "quiet_role n = defaultRoles quiet_environment ! n"

lemma quiet_seed:
  "sv_lifecycle (seed_version quiet_environment) = Scenario_PUBLISHED"
  "sv_id (seed_version quiet_environment) = DEFAULT_V2_SCENARIO_VERSION_ID"
  "sv_minDistinctRequiredAgents (seed_version quiet_environment) = Num 4"
  "sv_requiredRoles (seed_version quiet_environment) = [quiet_role 0, quiet_role (Suc 0), quiet_role 2, quiet_role 3]"
  "rd_id (quiet_role 0) = ''water-evidence''" "rd_id (quiet_role (Suc 0)) = ''hydraulic-constraints''"
  "rd_id (quiet_role 2) = ''ecological-target''" "rd_id (quiet_role 3) = ''dispatch-coordination''"
  by (simp_all add: seed_version_def seed_base_def Let_def quiet_role_def defaultRoles_def default_role_def)

text \<open>
  Rules that run an action from the front, for the examples: a value is evaluated when it is passed on, and what follows
  an action waits until the action has run.
\<close>

definition pass :: "'a \<Rightarrow> ('a \<Rightarrow> 's \<Rightarrow> 'r) \<Rightarrow> 's \<Rightarrow> 'r" where
  "pass x f s = f x s"

lemma pass_waits: "x = x' \<Longrightarrow> s = s' \<Longrightarrow> pass x f s = pass x' f s'"
  by simp

lemma after_waits: "s = s' \<Longrightarrow> after m f s = after m f s'"
  by simp

lemma after_front:
  "after (give x) f s = pass x f s" "after (throw c) f s = (fail c, s)"
  "after (call r) f s = (case r of Inl e \<Rightarrow> (Inl e, s) | Inr x \<Rightarrow> pass x f s)"
  "after (reading g) f s = pass (g s) f s" 
  "after (if b then m else n) f s = (if b then after m f s else after n f s)"
  "after (case y of None \<Rightarrow> m | Some z \<Rightarrow> k z) f s = (case y of None \<Rightarrow> after m f s | Some z \<Rightarrow> pass z (\<lambda>z. after (k z) f) s)"
  "after (case q of (a, b) \<Rightarrow> k2 a b) f s = pass q (\<lambda>(a, b). after (k2 a b) f) s"
  "after (after m' k3) f s = after m' (\<lambda>x. after (k3 x) f) s"
  by (simp_all add: action_simps fail_def pass_def split: option.splits prod.splits sum.splits)

lemma after_front_unit:
  "after (changing h) f s = pass () f (h s)" "after (throw_if b c) f s = (if b then (fail c, s) else pass () f s)"
  by (simp_all add: action_simps fail_def pass_def)

lemma after_front_run:
  "after (run_reading g) f w = pass (g (rw_run w)) f w" "after (run_changing h) fu w = pass () fu (w\<lparr>rw_run := h (rw_run w)\<rparr>)"
  "after (appendRunEvent E i) fe w = pass (next_event E i w) fe (with_event E i w)"
  by (simp_all add: run_reading_def run_changing_def action_simps append_run pass_def)

lemma after_front_ticks:
  "after (timestamp E) f t = pass (toISOString (env_now E (tk_clock t))) f (t\<lparr>tk_clock := tk_clock t + 1\<rparr>)"
  "after (next_id E) f t = pass (env_idFactory E (tk_ids t)) f (t\<lparr>tk_ids := tk_ids t + 1\<rparr>)"
  "after (next_token E) f t = pass (env_leaseTokenFactory E (tk_tokens t)) f (t\<lparr>tk_tokens := tk_tokens t + 1\<rparr>)"
  by (simp_all add: action_simps timestamp_def next_id_def next_token_def pass_def)

lemma last_steps:
  "run_reading g w = (Inr (g (rw_run w)), w)" "run_changing h w = (Inr (), w\<lparr>rw_run := h (rw_run w)\<rparr>)"
  by (simp_all add: run_reading_def run_changing_def action_run)

definition pass_result :: "'a result \<times> 's \<Rightarrow> ('a \<Rightarrow> 's \<Rightarrow> 'b result \<times> 's) \<Rightarrow> 'b result \<times> 's" where
  "pass_result p f = (case p of (Inl e, t) \<Rightarrow> (Inl e, t) | (Inr x, t) \<Rightarrow> pass x f t)"

lemma result_waits: "p = p' \<Longrightarrow> pass_result p f = pass_result p' f"
  by simp

lemma after_front_in_run:
  "after (in_run n m) f s = pass_result (in_run n m s) f"
  by (simp add: pass_result_def after_def pass_def split: prod.split sum.split)


lemma in_run_front:
  "in_run n m s = (case map_of (svc_runs s) n of None \<Rightarrow> (fail ''TypeError'', s)
     | Some r \<Rightarrow> (case m (world_of s r) of (x, w) \<Rightarrow> (x, put_world n s w)))"
  by (simp add: in_run_def)

lemma hash_waits: "hash E v = hash E v" ..

lemma in_run_waits: "n = n' \<Longrightarrow> s = s' \<Longrightarrow> in_run n m s = in_run n' m s'"
  by simp

lemma after_unfold: "m = m' \<Longrightarrow> after m f s = after m' f s"
  by simp

lemmas front_unfold = idempotent_def [THEN after_unfold] ownedAgent_def [THEN after_unfold] assert_version_def [THEN after_unfold]
  ownedRun_def [THEN after_unfold] pinned_def [THEN after_unfold] create_barrier_def [THEN after_unfold]
  createInitialResources_def [THEN after_unfold] initial_task_def [THEN after_unfold] initial_message_def [THEN after_unfold]
  initial_artifact_def [THEN after_unfold] initial_feedback_def [THEN after_unfold] put_barrier_def [THEN after_unfold]
  put_task_def [THEN after_unfold] put_task_state_def [THEN after_unfold] put_message_def [THEN after_unfold]
  put_artifact_def [THEN after_unfold] put_feedback_def [THEN after_unfold] addEligible_def [THEN after_unfold]
  create_agent_body_def [THEN after_unfold] create_agent_version_body_def [THEN after_unfold]

lemmas front = after_front after_front_unit after_front_run after_front_ticks after_front_in_run front_unfold pass_def pass_result_def Let_def
  in_run_front

lemmas front_rules = createRun_def joinRun_def startRun_def createAgent_def createAgentVersion_def idempotent_def join_body_def
  addEligible_def action_run append_run last_steps front

lemmas quiet_simps = front_rules demo_create_run_def put_world_def world_of_def cache_key_def pinnedScenarioVersion_def
  new_service_def quiet_id quiet_seed(1-3) demo_author_def quiet_hash quiet_fields next_event_def with_event_def
  new_run_def quiet_content_def



lemmas quiet_congs = after_waits pass_waits result_waits in_run_waits hash_waits

definition joined :: "(string \<times> string) list \<Rightarrow> stored_run \<Rightarrow> service \<Rightarrow> bool" where
  "joined ags r s \<longleftrightarrow> svc_runs s = [((quiet_id 2), r)] \<and> tk_ids s = 4 + 3 * length ags \<and> tk_clock s = 4 + 2 * length ags \<and> tk_tokens s = 0
     \<and> map_of (svc_scenarioVersions s) DEFAULT_V2_SCENARIO_VERSION_ID = Some (seed_version quiet_environment)
     \<and> (\<exists>v. map_of (svc_agentVersions s) (quiet_id (Suc 0)) = Some v \<and> av_id v = (quiet_id (Suc 0)) \<and> av_lifecycle v = Version_PUBLISHED \<and> av_agentId v = (quiet_id 0))
     \<and> (\<exists>a. map_of (svc_agents s) (quiet_id 0) = Some a \<and> ag_ownerId (sa_dto a) = ''author'')
     \<and> (\<forall>role. role \<notin> snd ` set ags \<longrightarrow> map_of (svc_idempotency s) (''author:run:'' @ quiet_id 2 @ '':agent:join:'' @ role) = None)
     \<and> map_of (svc_idempotency s) (''author:run:'' @ quiet_id 2 @ '':start:k'') = None
     \<and> (\<forall>n k. map_of (svc_idempotency s) (quiet_id n @ k) = None) \<and> rx_id (sr_run r) = (quiet_id 2) \<and> rx_state (sr_run r) = FORMING \<and> rx_version (sr_run r) = Num 1
     \<and> rx_scenarioVersionId (sr_run r) = DEFAULT_V2_SCENARIO_VERSION_ID \<and> rx_ownerId (sr_run r) = ''author''
     \<and> map (\<lambda>a. (ra_runAgentId a, ra_roleSlotId a)) (sr_roleAssignments r) = ags
     \<and> map (\<lambda>(n, a). rg_instanceKey (sg_dto a)) (sr_runAgents r) = map snd ags \<and> map fst (sr_runAgents r) = map fst ags
     \<and> sr_eligible r = map (\<lambda>(a, _). (a, [])) ags \<and> sr_receipts r = map (\<lambda>(a, _). (a, [])) ags
     \<and> sr_tasks r = [] \<and> sr_taskStates r = [] \<and> sr_barriers r = []"

lemma map_put_new: "k \<notin> fst ` set es \<Longrightarrow> map_put k v es = es @ [(k, v)]"
  by (induction es) auto

lemma disclosure_fields:
  "di_resourceType (disclosure_of E x e) = resource_kind x" "di_resourceId (disclosure_of E x e) = resource_id x"
  by (simp_all add: disclosure_of_def)

lemma map_put_all:
  "k \<notin> fst ` set ags \<Longrightarrow> map_put k v (map (\<lambda>(a, _). (a, y)) ags) = map (\<lambda>(a, _). (a, y)) ags @ [(k, v)]"
  by (induction ags) auto

lemma quiet_created:
  "\<exists>r. joined [] r (served quiet_environment demo_pack (new_service quiet_environment)
     [Authoring (Create_agent demo_author ''1'' \<lparr>cg_displayName = demo_text, cg_description = demo_text\<rparr>),
      Authoring (Create_agent_version demo_author (quiet_id 0) ''2'' \<lparr>cw_expectedAgentVersion = Num 1, cw_content = quiet_content\<rparr>),
      Create_run demo_author ''3'' demo_create_run])"
  by (simp add: joined_def quiet_simps cong: quiet_congs)

definition quiet_join :: "string \<Rightarrow> run_command" where
  "quiet_join role = Join_run demo_author (quiet_id 2) role \<lparr>jr_agentVersionId = (quiet_id (Suc 0)), jr_instanceKey = role, jr_roleSlotId = role\<rparr>"

lemma quiet_joined:
  assumes "joined ags r s" and "role \<in> set (map rd_id (sv_requiredRoles (seed_version quiet_environment)))" and "role \<notin> snd ` set ags"
    and "n = quiet_id (tk_ids s)" "n \<notin> fst ` set ags"
  shows "\<exists>r'. joined (ags @ [(n, role)]) r' (snd (exec quiet_environment demo_pack (quiet_join role) s))"
proof -
  note j = assms(1) [unfolded joined_def]
  have roles: "map (\<lambda>a. (ra_runAgentId a, ra_roleSlotId a)) (sr_roleAssignments r) = ags" and keys: "map (\<lambda>(n, a). rg_instanceKey (sg_dto a)) (sr_runAgents r) = map snd ags"
    and agents: "map fst (sr_runAgents r) = map fst ags" using j by blast+
  have 1: "\<not> list_ex (\<lambda>a. ra_roleSlotId a = role) (sr_roleAssignments r)"
    using assms(3) by (force simp: list_ex_iff simp flip: roles)
  have 2: "\<not> list_ex (\<lambda>a. rg_instanceKey (sg_dto a) = role) (map snd (sr_runAgents r))"
  proof
    assume "list_ex (\<lambda>a. rg_instanceKey (sg_dto a) = role) (map snd (sr_runAgents r))"
    then have "role \<in> set (map (\<lambda>(n, a). rg_instanceKey (sg_dto a)) (sr_runAgents r))" by (auto simp: list_ex_iff)
    then show False using assms(3) by (simp add: keys)
  qed
  have 3: "list_ex (\<lambda>x. rd_id x = role) (sv_requiredRoles (seed_version quiet_environment))"
    using assms(2) by (auto simp: list_ex_iff)
  have 4: "n \<notin> fst ` set (sr_runAgents r)" using assms(5) agents by (metis image_set)
  have 5: "quiet_id (4 + 3 * length ags) \<notin> fst ` set ags" using assms(1,4,5) by (simp add: joined_def)
  obtain v a where va: "map_of (svc_agentVersions s) (quiet_id (Suc 0)) = Some v" "av_id v = (quiet_id (Suc 0))" "av_lifecycle v = Version_PUBLISHED" "av_agentId v = (quiet_id 0)"
    "map_of (svc_agents s) (quiet_id 0) = Some a" "ag_ownerId (sa_dto a) = ''author''" using j by blast
  have tk: "tk_ids s = 4 + 3 * length ags" using j by blast
  have nn: "n = quiet_id (tk_ids s)" by fact
  show ?thesis
    using j 4 unfolding nn tk quiet_join_def
    apply (simp add: joined_def 1 2 3 va assms(3) tk map_put_new map_put_all [OF 5] quiet_simps cong: quiet_congs)
    done
qed


definition quiet_agents :: "(string \<times> string) list" where
  "quiet_agents = [(quiet_id 4, ''water-evidence''), (quiet_id 7, ''hydraulic-constraints''),
     (quiet_id 10, ''ecological-target''), (quiet_id 13, ''dispatch-coordination'')]"

definition worked :: "stored_run \<Rightarrow> bool" where
  "worked r \<longleftrightarrow> (\<exists>ds. map_of (sr_eligible r) (quiet_id 4) = Some ds \<and> map (\<lambda>d. (di_resourceType d, di_resourceId d)) ds =
          [(R_task, quiet_id 21), (R_message, quiet_id 23), (R_artifact, quiet_id 25), (R_feedback, quiet_id 28)])
     \<and> map (\<lambda>(n, t). (n, rt_state t, rt_version t, rt_activeClaim t)) (sr_taskStates r) =
         [(quiet_id 21, T_READY, Num 1, None), (quiet_id 30, T_READY, Num 1, None), (quiet_id 39, T_READY, Num 1, None),
          (quiet_id 48, T_BLOCKED, Num 1, None)]
     \<and> list_all (\<lambda>(n, t). rt_id t = n) (sr_taskStates r) \<and> map (\<lambda>(n, d). (n, td_roleSlotId d, td_assignedRunAgentId d)) (sr_tasks r) =
         [(quiet_id 21, ''water-evidence'', quiet_id 4), (quiet_id 30, ''hydraulic-constraints'', quiet_id 7),
          (quiet_id 39, ''ecological-target'', quiet_id 10), (quiet_id 48, ''dispatch-coordination'', quiet_id 13)]"

definition running :: "stored_run \<Rightarrow> service \<Rightarrow> bool" where
  "running r s \<longleftrightarrow> svc_runs s = [(quiet_id 2, r)] \<and> tk_ids s = 57 \<and> tk_clock s = 36 \<and> tk_tokens s = 0
     \<and> (\<forall>n k. map_of (svc_idempotency s) (quiet_id n @ k) = None) \<and> rx_id (sr_run r) = quiet_id 2 \<and> rx_state (sr_run r) = RUNNING \<and> map fst (sr_runAgents r) = map fst quiet_agents
     \<and> map_of (sr_receipts r) (quiet_id 4) = Some [] \<and> worked r"

definition coordinator_case :: role_case where
  "coordinator_case = demo_case\<lparr>rk_initialTaskState := T_BLOCKED\<rparr>"

lemma quiet_pack:
  "role_case_of demo_pack ''water-evidence'' = Some demo_case" "role_case_of demo_pack ''hydraulic-constraints'' = Some demo_case"
  "role_case_of demo_pack ''ecological-target'' = Some demo_case"
  "role_case_of demo_pack ''dispatch-coordination'' = Some coordinator_case"
  "rk_initialTaskState demo_case = T_READY" "rk_initialTaskState coordinator_case = T_BLOCKED"
  by (simp_all add: role_case_of_def demo_pack_def demo_case_def coordinator_case_def)

lemma quiet_new:
  "createRunBarrier (quiet_id m) (quiet_id n) SPECIALISTS = Inr \<lparr>rb_id = quiet_id m, rb_runId = quiet_id n, rb_state = B_CLOSED,
     rb_version = Num 1, rb_requiredConditionKeys = SPECIALISTS, rb_inputs = []\<rparr>"
  "createRunTask (quiet_id m) (quiet_id n) st True = Inr \<lparr>rt_id = quiet_id m, rt_runId = quiet_id n, rt_state = st, rt_version = Num 1,
     rt_reassignable = True, rt_claimEpoch = Num 0, rt_activeClaim = None\<rparr>"
proof -
  have "js_trim ''water-evidence'' \<noteq> []" "js_trim ''hydraulic-constraints'' \<noteq> []" "js_trim ''ecological-target'' \<noteq> []"
    by (simp_all add: js_trim_empty_iff is_js_space_def)
  then show "createRunBarrier (quiet_id m) (quiet_id n) SPECIALISTS = Inr \<lparr>rb_id = quiet_id m, rb_runId = quiet_id n, rb_state = B_CLOSED,
      rb_version = Num 1, rb_requiredConditionKeys = SPECIALISTS, rb_inputs = []\<rparr>"
    by (simp add: createRunBarrier_def requireNonEmpty_def quiet_id SPECIALISTS_def)
  show "createRunTask (quiet_id m) (quiet_id n) st True = Inr \<lparr>rt_id = quiet_id m, rt_runId = quiet_id n, rt_state = st,
      rt_version = Num 1, rt_reassignable = True, rt_claimEpoch = Num 0, rt_activeClaim = None\<rparr>"
    by (simp add: createRunTask_def requireNonEmpty_def quiet_id)
qed

lemma map_put_twice: "map_put k v (map_put k w es) = map_put k v es"
  by (induction es) auto

definition handed_out :: "string \<Rightarrow> run_task_state \<Rightarrow> string \<Rightarrow> run_world \<Rightarrow> run_world \<Rightarrow> bool" where
  "handed_out role st a w w' \<longleftrightarrow> tk_ids w' = tk_ids w + 9 \<and> tk_clock w' = tk_clock w + 5 \<and> tk_tokens w' = tk_tokens w
     \<and> sr_run (rw_run w') = sr_run (rw_run w) \<and> sr_runAgents (rw_run w') = sr_runAgents (rw_run w) \<and> sr_receipts (rw_run w') = sr_receipts (rw_run w)
     \<and> (\<exists>ds. sr_eligible (rw_run w') = map_put a ds (sr_eligible (rw_run w)) \<and> map (\<lambda>d. (di_resourceType d, di_resourceId d)) ds =
          [(R_task, quiet_id (tk_ids w)), (R_message, quiet_id (tk_ids w + 2)), (R_artifact, quiet_id (tk_ids w + 4)), (R_feedback, quiet_id (tk_ids w + 7))])
     \<and> (\<exists>t. sr_taskStates (rw_run w') = map_put (quiet_id (tk_ids w)) t (sr_taskStates (rw_run w)) \<and> rt_id t = quiet_id (tk_ids w) \<and> rt_state t = st \<and> rt_version t = Num 1 \<and> rt_activeClaim t = None)
     \<and> (\<exists>d. sr_tasks (rw_run w') = map_put (quiet_id (tk_ids w)) d (sr_tasks (rw_run w)) \<and> td_roleSlotId d = role \<and> td_assignedRunAgentId d = a)"

lemma quiet_resources:
  assumes "role_case_of demo_pack (rd_id role) = Some c" and "map_of (sr_eligible (rw_run w)) a = Some []" and "rx_id (sr_run (rw_run w)) = quiet_id 2"
  shows "\<exists>w'. createInitialResources quiet_environment demo_pack role a w = (Inr (), w') \<and> handed_out (rd_id role) (rk_initialTaskState c) a w w'"
  unfolding createInitialResources_def
  using assms
  apply (simp add: initial_feedback_def handed_out_def quiet_simps quiet_new map_put_twice cong: quiet_congs)
  apply (intro conjI impI)
  apply (rule exI, rule conjI, rule refl, simp add: disclosure_fields quiet_id)+
  done

lemma quiet_each:
  assumes "sr_eligible (rw_run w) = map (\<lambda>(a, _). (a, [])) quiet_agents" and "rx_id (sr_run (rw_run w)) = quiet_id 2"
    and "tk_ids w = 21" and "sr_tasks (rw_run w) = []" and "sr_taskStates (rw_run w) = []"
  shows "\<exists>w'. perform_each (\<lambda>role. createInitialResources quiet_environment demo_pack role
        (case map_of (map (\<lambda>(a, b). (b, a)) quiet_agents) (rd_id role) of None \<Rightarrow> [] | Some a \<Rightarrow> a))
        [quiet_role 0, quiet_role (Suc 0), quiet_role 2, quiet_role 3] w = (Inr (), w')
      \<and> tk_ids w' = 57 \<and> tk_clock w' = tk_clock w + 20 \<and> tk_tokens w' = tk_tokens w
      \<and> sr_run (rw_run w') = sr_run (rw_run w) \<and> sr_runAgents (rw_run w') = sr_runAgents (rw_run w)
      \<and> sr_receipts (rw_run w') = sr_receipts (rw_run w) \<and> worked (rw_run w')"
proof -
  let ?go = "createInitialResources quiet_environment demo_pack"
  obtain w1 where 1: "?go (quiet_role 0) (quiet_id 4) w = (Inr (), w1)" "handed_out ''water-evidence'' T_READY (quiet_id 4) w w1"
    using quiet_resources [of "quiet_role 0" demo_case w "quiet_id 4"] assms by (auto simp: quiet_seed quiet_pack quiet_agents_def quiet_id)
  obtain w2 where 2: "?go (quiet_role (Suc 0)) (quiet_id 7) w1 = (Inr (), w2)" "handed_out ''hydraulic-constraints'' T_READY (quiet_id 7) w1 w2"
    using quiet_resources [of "quiet_role (Suc 0)" demo_case w1 "quiet_id 7"] assms 1(2)
    by (auto simp: quiet_seed quiet_pack quiet_agents_def quiet_id handed_out_def)
  obtain w3 where 3: "?go (quiet_role 2) (quiet_id 10) w2 = (Inr (), w3)" "handed_out ''ecological-target'' T_READY (quiet_id 10) w2 w3"
    using quiet_resources [of "quiet_role 2" demo_case w2 "quiet_id 10"] assms 1(2) 2(2)
    by (auto simp: quiet_seed quiet_pack quiet_agents_def quiet_id handed_out_def)
  obtain w4 where 4: "?go (quiet_role 3) (quiet_id 13) w3 = (Inr (), w4)" "handed_out ''dispatch-coordination'' T_BLOCKED (quiet_id 13) w3 w4"
    using quiet_resources [of "quiet_role 3" coordinator_case w3 "quiet_id 13"] assms 1(2) 2(2) 3(2)
    by (auto simp: quiet_seed quiet_pack quiet_agents_def quiet_id handed_out_def)
  note h = 1(2) [unfolded handed_out_def] 2(2) [unfolded handed_out_def] 3(2) [unfolded handed_out_def] 4(2) [unfolded handed_out_def]
  have tk: "tk_ids w1 = 30" "tk_ids w2 = 39" "tk_ids w3 = 48" using h assms(3) by simp_all
  have "worked (rw_run w4)"
    using h assms unfolding tk by (auto simp: worked_def quiet_agents_def quiet_id)
  then show ?thesis
    using 1(1) 2(1) 3(1) 4(1) h assms
    by (intro exI [of _ w4]) (simp add: action_simps quiet_seed quiet_agents_def tk)
qed

lemma quiet_started:
  assumes "joined quiet_agents r s"
  shows "\<exists>r'. running r' (snd (exec quiet_environment demo_pack (Start_run demo_author (quiet_id 2) ''k'' (Num 1)) s))"
proof -
  note j = assms [unfolded joined_def quiet_agents_def]
  have roles: "map (\<lambda>a. (ra_runAgentId a, ra_roleSlotId a)) (sr_roleAssignments r) = quiet_agents" using assms by (simp add: joined_def)
  obtain a1 a2 a3 a4 where as: "sr_roleAssignments r = [a1, a2, a3, a4]" "ra_runAgentId a1 = quiet_id 4" "ra_runAgentId a2 = quiet_id 7"
    "ra_runAgentId a3 = quiet_id 10" "ra_runAgentId a4 = quiet_id 13" "ra_roleSlotId a1 = ''water-evidence''"
    "ra_roleSlotId a2 = ''hydraulic-constraints''" "ra_roleSlotId a3 = ''ecological-target''" "ra_roleSlotId a4 = ''dispatch-coordination''"
    using roles by (auto simp: quiet_agents_def map_eq_Cons_conv)
  then have roles: "role_agents r = map (\<lambda>(a, b). (b, a)) quiet_agents"
    by (simp add: role_agents_def quiet_agents_def)
  have quorum: "quorum_of (seed_version quiet_environment) r = Inr \<lparr>qa_ready = True, qa_requiredRoleSlotCount = Num 4,
      qa_assignedRequiredRoleSlotCount = Num 4, qa_distinctRequiredRunAgentCount = Num 4, qa_violations = []\<rparr>"
    using as by (simp add: quorum_of_def assessRequiredRoleQuorum_def Let_def minimum_allowed_def slot_primaries_def js_set_def quiet_seed quiet_id)
  have "\<exists>w. start_body quiet_environment demo_pack demo_author (quiet_id 2) (seed_version quiet_environment) (world_of s r) =
      after (perform_each (\<lambda>role. createInitialResources quiet_environment demo_pack role
        (case map_of (map (\<lambda>(a, b). (b, a)) quiet_agents) (rd_id role) of None \<Rightarrow> [] | Some a \<Rightarrow> a))
        [quiet_role 0, quiet_role (Suc 0), quiet_role 2, quiet_role 3]) (\<lambda>_. run_reading (\<lambda>r. Run_response (sr_run r))) w
    \<and> tk_ids w = 21 \<and> tk_clock w = 16 \<and> tk_tokens w = 0 \<and> sr_run (rw_run w) = (sr_run r)\<lparr>rx_state := RUNNING, rx_version := Num 2,
         rx_updatedAt := toISOString (quiet_now 12), rx_startedAt := Some (toISOString (quiet_now 12))\<rparr>
    \<and> sr_runAgents (rw_run w) = sr_runAgents r \<and> sr_receipts (rw_run w) = sr_receipts r \<and> sr_eligible (rw_run w) = sr_eligible r
    \<and> sr_tasks (rw_run w) = [] \<and> sr_taskStates (rw_run w) = []"
    unfolding start_body_def
    using j
    apply (simp add: roles quorum quiet_seed quiet_new quiet_simps cong: quiet_congs del: perform_each.simps)
    apply (rule exI, rule conjI, rule refl)
    apply simp
    done
  then obtain w where w: "start_body quiet_environment demo_pack demo_author (quiet_id 2) (seed_version quiet_environment) (world_of s r) =
      after (perform_each (\<lambda>role. createInitialResources quiet_environment demo_pack role
        (case map_of (map (\<lambda>(a, b). (b, a)) quiet_agents) (rd_id role) of None \<Rightarrow> [] | Some a \<Rightarrow> a))
        [quiet_role 0, quiet_role (Suc 0), quiet_role 2, quiet_role 3]) (\<lambda>_. run_reading (\<lambda>r. Run_response (sr_run r))) w"
    "tk_ids w = 21" "tk_clock w = 16" "tk_tokens w = 0" "sr_run (rw_run w) = (sr_run r)\<lparr>rx_state := RUNNING, rx_version := Num 2,
         rx_updatedAt := toISOString (quiet_now 12), rx_startedAt := Some (toISOString (quiet_now 12))\<rparr>"
    "sr_runAgents (rw_run w) = sr_runAgents r" "sr_receipts (rw_run w) = sr_receipts r" "sr_eligible (rw_run w) = sr_eligible r"
    "sr_tasks (rw_run w) = []" "sr_taskStates (rw_run w) = []" by blast
  obtain w' where w': "perform_each (\<lambda>role. createInitialResources quiet_environment demo_pack role
        (case map_of (map (\<lambda>(a, b). (b, a)) quiet_agents) (rd_id role) of None \<Rightarrow> [] | Some a \<Rightarrow> a))
        [quiet_role 0, quiet_role (Suc 0), quiet_role 2, quiet_role 3] w = (Inr (), w')"
    "tk_ids w' = 57" "tk_clock w' = 36" "tk_tokens w' = 0"
    "sr_run (rw_run w') = sr_run (rw_run w)" "sr_runAgents (rw_run w') = sr_runAgents (rw_run w)"
    "sr_receipts (rw_run w') = sr_receipts (rw_run w)" "worked (rw_run w')"
    using quiet_each [of w] w j by (auto simp: quiet_agents_def)
  have body: "start_body quiet_environment demo_pack demo_author (quiet_id 2) (seed_version quiet_environment) (world_of s r)
      = (Inr (Run_response (sr_run (rw_run w'))), w')"
    using w(1) w'(1) by (simp add: after_def run_reading_def action_run)
  have author: "pr_id demo_author = ''author''" by (simp add: demo_author_def)
  have "running (rw_run w') (snd (exec quiet_environment demo_pack (Start_run demo_author (quiet_id 2) ''k'' (Num 1)) s))"
    using j w(2-) w'(2-)
    by (simp add: running_def quiet_agents_def body author front_rules cache_key_def pinnedScenarioVersion_def put_world_def
      quiet_hash quiet_id quiet_seed(1-3) cong: quiet_congs)
  then show ?thesis ..
qed

definition quiet_history :: "run_command list" where
  "quiet_history =
     [Authoring (Create_agent demo_author ''1'' \<lparr>cg_displayName = demo_text, cg_description = demo_text\<rparr>),
      Authoring (Create_agent_version demo_author (quiet_id 0) ''2'' \<lparr>cw_expectedAgentVersion = Num 1, cw_content = quiet_content\<rparr>),
      Create_run demo_author ''3'' demo_create_run,
      quiet_join ''water-evidence'', quiet_join ''hydraulic-constraints'', quiet_join ''ecological-target'',
      quiet_join ''dispatch-coordination'', Start_run demo_author (quiet_id 2) ''k'' (Num 1)]"

lemma quiet_running: "\<exists>r. running r (served quiet_environment demo_pack (new_service quiet_environment) quiet_history)"
proof -
  note step = quiet_joined [OF _ _ _ refl]
  let ?go = "\<lambda>s role. snd (exec quiet_environment demo_pack (quiet_join role) s)"
  let ?s0 = "served quiet_environment demo_pack (new_service quiet_environment)
     [Authoring (Create_agent demo_author ''1'' \<lparr>cg_displayName = demo_text, cg_description = demo_text\<rparr>),
      Authoring (Create_agent_version demo_author (quiet_id 0) ''2'' \<lparr>cw_expectedAgentVersion = Num 1, cw_content = quiet_content\<rparr>),
      Create_run demo_author ''3'' demo_create_run]"
  have ids: "tk_ids s = 4 + 3 * length ags" if "joined ags r s" for ags r s using that by (simp add: joined_def)
  obtain r0 where r0: "joined [] r0 ?s0" using quiet_created by blast
  obtain r1 where r1: "joined (take 1 quiet_agents) r1 (?go ?s0 ''water-evidence'')"
    using step [OF r0, of "''water-evidence''"] ids [OF r0] by (auto simp: quiet_seed quiet_agents_def)
  obtain r2 where r2: "joined (take 2 quiet_agents) r2 (?go (?go ?s0 ''water-evidence'') ''hydraulic-constraints'')"
    using step [OF r1, of "''hydraulic-constraints''"] ids [OF r1] by (auto simp: quiet_seed quiet_agents_def quiet_id)
  obtain r3 where r3: "joined (take 3 quiet_agents) r3 (?go (?go (?go ?s0 ''water-evidence'') ''hydraulic-constraints'') ''ecological-target'')"
    using step [OF r2, of "''ecological-target''"] ids [OF r2] by (auto simp: quiet_seed quiet_agents_def quiet_id)
  obtain r4 where r4: "joined quiet_agents r4
      (?go (?go (?go (?go ?s0 ''water-evidence'') ''hydraulic-constraints'') ''ecological-target'') ''dispatch-coordination'')"
    using step [OF r3, of "''dispatch-coordination''"] ids [OF r3] by (auto simp: quiet_seed quiet_agents_def quiet_id)
  have "served quiet_environment demo_pack (new_service quiet_environment) quiet_history =
      served quiet_environment demo_pack ?s0 [quiet_join ''water-evidence'', quiet_join ''hydraulic-constraints'',
        quiet_join ''ecological-target'', quiet_join ''dispatch-coordination'', Start_run demo_author (quiet_id 2) ''k'' (Num 1)]"
    unfolding quiet_history_def served_def by (simp del: exec.simps)
  then show ?thesis using quiet_started [OF r4] by (simp add: served_simps del: exec.simps)
qed

definition quiet_agent :: principal where
  "quiet_agent = \<lparr>pr_id = ''a'', pr_roles = Some [''run_agent''], pr_runAgentIds = Some [quiet_id 4]\<rparr>"

definition synced :: "stored_run \<Rightarrow> service \<Rightarrow> bool" where
  "synced r s \<longleftrightarrow> svc_runs s = [(quiet_id 2, r)] \<and> tk_ids s = 60 \<and> tk_clock s = 38 \<and> tk_tokens s = 0
     \<and> map_of (svc_idempotency s) (quiet_id 4 @ '':task:'' @ quiet_id 21 @ '':claim:c'') = None
     \<and> rx_state (sr_run r) = RUNNING \<and> map fst (sr_runAgents r) = map fst quiet_agents
     \<and> (\<exists>x. map_of (sr_receipts r) (quiet_id 4) = Some [x] \<and> rc_resourceType x = R_task \<and> rc_resourceId x = quiet_id 21) \<and> worked r"

lemma quiet_synced:
  assumes "running r s"
  shows "\<exists>r'. synced r' (snd (exec quiet_environment demo_pack (Sync_run quiet_agent (quiet_id 2) (quiet_id 4) ''s''
    \<lparr>sq_afterReceiptSeq = 0, sq_ack = None, sq_maxItems = Suc 0\<rparr>) s))"
proof -
  note j = assms [unfolded running_def]
  obtain ds where ds: "map_of (sr_eligible r) (quiet_id 4) = Some ds" "map (\<lambda>d. (di_resourceType d, di_resourceId d)) ds =
          [(R_task, quiet_id 21), (R_message, quiet_id 23), (R_artifact, quiet_id 25), (R_feedback, quiet_id 28)]"
    using j by (auto simp: worked_def)
  then obtain d ds' where d: "ds = d # ds'" "di_resourceType d = R_task" "di_resourceId d = quiet_id 21" by auto
  have "quiet_id 4 \<in> set (map fst (sr_runAgents r))" using j by (simp add: quiet_agents_def del: set_map)
  then have "map_of (sr_runAgents r) (quiet_id 4) \<noteq> None" by (simp add: map_of_eq_None_iff)
  then obtain a where a: "map_of (sr_runAgents r) (quiet_id 4) = Some a" by blast
  have author: "pr_id quiet_agent = ''a''" "pr_roles quiet_agent = Some [''run_agent'']" "pr_runAgentIds quiet_agent = Some [quiet_id 4]"
    by (simp_all add: quiet_agent_def)
  have all: "filter (\<lambda>x. True) ds = ds" by simp
  show ?thesis
    using j
    apply (simp add: synced_def author syncRun_def sync_body_def runForAgent_def [THEN after_unfold] issue_each.simps [THEN after_unfold]
      receipt_of_def front_rules cache_key_def put_world_def world_of_def next_event_def with_event_def
      has_item_def a ds(1) d quiet_hash quiet_id quiet_fields worked_def cong: quiet_congs)
    done
qed

definition claimed :: "stored_run \<Rightarrow> service \<Rightarrow> bool" where
  "claimed r s \<longleftrightarrow> svc_runs s = [(quiet_id 2, r)] \<and> tk_clock s = 40
     \<and> (\<exists>t c. map_of (sr_taskStates r) (quiet_id 21) = Some t \<and> rt_activeClaim t = Some c \<and> cl_leaseExpiresAt c = toISOString 60000)"

lemma quiet_clock: "addSeconds (toISOString 0) 60 = Inr (toISOString 60000)" "addSeconds (toISOString 0) 900 = Inr (toISOString 900000)"
  "toEpoch (toISOString 0) = Inr 0" "toEpoch (toISOString 60000) = Inr 60000" "toEpoch (toISOString 900000) = Inr 900000"
proof -
  have "toEpoch (toISOString 0) = Inr 0" by (rule toEpoch_toISOString) (simp add: four_digit_years_def)
  moreover from this have "date_parse_iso (toISOString 0) = Some 0" by (auto simp: toEpoch_def split: option.splits if_splits)
  ultimately show "addSeconds (toISOString 0) 60 = Inr (toISOString 60000)" "addSeconds (toISOString 0) 900 = Inr (toISOString 900000)"
    "toEpoch (toISOString 0) = Inr 0" by (simp_all add: addSeconds_def)
  show "toEpoch (toISOString 60000) = Inr 60000" by (rule toEpoch_toISOString) (simp add: four_digit_years_def)
  show "toEpoch (toISOString 900000) = Inr 900000" by (rule toEpoch_toISOString) (simp add: four_digit_years_def)
qed

lemma quiet_claimed:
  assumes "synced r s"
  shows "\<exists>r'. claimed r' (snd (exec quiet_environment demo_pack (Claim_task quiet_agent (quiet_id 4) (quiet_id 21) ''c'' (Num 1) 60) s))"
proof -
  note j = assms [unfolded synced_def]
  obtain t ts where t: "sr_taskStates r = (quiet_id 21, t) # ts" "rt_state t = T_READY" "rt_version t = Num 1" "rt_activeClaim t = None" "rt_id t = quiet_id 21"
    using j by (auto simp: worked_def)
  obtain d ds where d: "sr_tasks r = (quiet_id 21, d) # ds" "td_assignedRunAgentId d = quiet_id 4"
    using j by (auto simp: worked_def)
  obtain es where es: "map_of (sr_eligible r) (quiet_id 4) = Some es" using j by (auto simp: worked_def)
  obtain x where x: "map_of (sr_receipts r) (quiet_id 4) = Some [x]" "rc_resourceType x = R_task" "rc_resourceId x = quiet_id 21" using j by blast
  have "quiet_id 4 \<in> set (map fst (sr_runAgents r))" using j by (simp add: quiet_agents_def del: set_map)
  then have "map_of (sr_runAgents r) (quiet_id 4) \<noteq> None" by (simp add: map_of_eq_None_iff)
  then obtain a where a: "map_of (sr_runAgents r) (quiet_id 4) = Some a" by blast
  have author: "pr_id quiet_agent = ''a''" "pr_roles quiet_agent = Some [''run_agent'']" "pr_runAgentIds quiet_agent = Some [quiet_id 4]"
    by (simp_all add: quiet_agent_def)
  have now: "quiet_now 38 = 0" by (simp add: quiet_now_def)
  have lease: "js_trim ''sha256:'' \<noteq> []" by (simp add: js_trim_empty_iff is_js_space_def)
  have version: "assertTaskVersion t (Num 1) = Inr ()" using t by simp
  show ?thesis
    using j
    apply (simp add: claimed_def author claimTask_def task_scope_def claim_body_def taskForAgent_def [THEN after_unfold] runForAgent_def [THEN after_unfold]
      assertRunning_def [THEN after_unfold] hasIssuedResource_def receipts_of_def recordTaskTransition_def [THEN after_unfold] updateTaskDto_def [THEN after_unfold]
      front_rules cache_key_def put_world_def world_of_def next_event_def with_event_def put_task_state_def [THEN after_unfold]
      has_item_def a t d x es now lease version claimRunTask_def quiet_clock requireNonEmpty_def quiet_hash quiet_id quiet_fields worked_def cong: quiet_congs)
    done
qed

definition quiet_sync :: run_command where
  "quiet_sync = Sync_run quiet_agent (quiet_id 2) (quiet_id 4) ''s'' \<lparr>sq_afterReceiptSeq = 0, sq_ack = None, sq_maxItems = Suc 0\<rparr>"

definition quiet_claim :: run_command where
  "quiet_claim = Claim_task quiet_agent (quiet_id 4) (quiet_id 21) ''c'' (Num 1) 60"

lemma quiet_histories:
  "\<exists>r. synced r (served quiet_environment demo_pack (new_service quiet_environment) (quiet_history @ [quiet_sync]))"
  "\<exists>r. claimed r (served quiet_environment demo_pack (new_service quiet_environment) (quiet_history @ [quiet_sync, quiet_claim]))"
proof -
  obtain r where r: "running r (served quiet_environment demo_pack (new_service quiet_environment) quiet_history)" using quiet_running ..
  obtain r' where r': "synced r' (served quiet_environment demo_pack (new_service quiet_environment) (quiet_history @ [quiet_sync]))"
    using quiet_synced [OF r] unfolding quiet_sync_def served_simps by blast
  then show "\<exists>r. synced r (served quiet_environment demo_pack (new_service quiet_environment) (quiet_history @ [quiet_sync]))" ..
  show "\<exists>r. claimed r (served quiet_environment demo_pack (new_service quiet_environment) (quiet_history @ [quiet_sync, quiet_claim]))"
    using quiet_claimed [OF r'] unfolding quiet_claim_def served_simps by blast
qed

lemma quiet_inj: "inj (env_idFactory quiet_environment)"
  by (simp add: inj_def quiet_fields quiet_id)

lemma quiet_waits: "coordinator_waits demo_pack"
  by (simp add: coordinator_waits_def demo_pack_def)

end
