(* ===== verification/RunProperties.thy ===== *)
theory RunProperties
  imports RunExamples
begin

text \<open>
  What holds of every run that the service serves, whatever calls it gets, and the witnesses on the history of
  \<open>RunExamples\<close>.
\<close>

section \<open>Receipts and tasks\<close>

text \<open>
  Property C6. Whatever sequence of calls the service gets, the receipts of each agent verify as one chain from the zero
  hash that is numbered from one and names this agent, and later calls only append to them.
\<close>

theorem agent_receipts_verify_and_grow:
  assumes "inj (env_idFactory E)" and "map_of (svc_runs (served E K (new_service E) cs)) n = Some r"
    and "map_of (sr_receipts r) a = Some rs"
  shows "verify_run_receipts E 1 ZERO_HASH rs \<and> (\<forall>x \<in> set rs. rc_runAgentId x = a)
    \<and> (\<exists>r' later. map_of (svc_runs (served E K (new_service E) (cs @ ds))) n = Some r'
         \<and> map_of (sr_receipts r') a = Some (rs @ later))"
  using receipts.contract.served_run(1) [OF assms(1,2)] receipts.contract.served_run(2) [OF assms(1,2), of ds] assms(3)
  by (auto simp: receipts_grow_def receipts_ok_def world_of_def)

lemma agent_receipts_verify_and_grow_witness:
  "\<exists>r x. map_of (svc_runs (served quiet_environment demo_pack (new_service quiet_environment) (quiet_history @ [quiet_sync]))) (quiet_id 2) = Some r
    \<and> map_of (sr_receipts r) (quiet_id 4) = Some [x] \<and> verify_run_receipts quiet_environment 1 ZERO_HASH [x]"
proof -
  obtain r where r: "synced r (served quiet_environment demo_pack (new_service quiet_environment) (quiet_history @ [quiet_sync]))"
    using quiet_histories(1) ..
  then obtain x where x: "map_of (sr_receipts r) (quiet_id 4) = Some [x]" by (auto simp: synced_def)
  have run: "map_of (svc_runs (served quiet_environment demo_pack (new_service quiet_environment) (quiet_history @ [quiet_sync]))) (quiet_id 2) = Some r"
    using r by (simp add: synced_def)
  show ?thesis using agent_receipts_verify_and_grow [OF quiet_inj run x] run x by blast
qed

text \<open>
  Property C1. Whatever sequence of calls the service gets, the state of each task of a run is one that commands of the
  task model lead to from its creation with the initial state of its role, what the service shows of the task is that
  state, and later calls take it on by commands of the model, with lease times that the clock shows meanwhile.
\<close>

theorem service_tasks_follow_task_model:
  assumes "inj (env_idFactory E)" and "coordinator_waits K"
    and "map_of (svc_runs (served E K (new_service E) cs)) n = Some r" and "map_of (sr_taskStates r) i = Some t"
  shows "(\<exists>t0. born K i t0 \<and> moved E 0 t0 t) \<and> (\<exists>d. map_of (sr_tasks r) i = Some d \<and> projects d t)
    \<and> (\<exists>r' t'. map_of (svc_runs (served E K (new_service E) (cs @ ds))) n = Some r' \<and> map_of (sr_taskStates r') i = Some t'
         \<and> moved E (tk_clock (served E K (new_service E) cs)) t t')"
proof -
  let ?s = "served E K (new_service E) cs" and ?u = "served E K (new_service E) (cs @ ds)"
  have ok: "work_ok E K (world_of ?s r)" using work.served_run(1) [OF assms(1,3)] assms(1,2) by (simp add: work_sound_def)
  then have "task_ok E K (world_of ?s r) i t" using work_task_ok assms(4) by (simp add: world_of_def)
  moreover obtain r' where r': "map_of (svc_runs ?u) n = Some r'" "work_moves E K (world_of ?s r) (world_of ?u r')"
    using work.served_run(2) [OF assms(1,3), of ds] by blast
  then have "follows E (world_of ?s r) (world_of ?u r')" using ok assms(1,2) by (simp add: work_moves_def)
  then obtain t' where "map_of (sr_taskStates r') i = Some t'" "moved E (tk_clock ?s) t t'"
    using assms(4) by (auto simp: follows_def world_of_def)
  ultimately show ?thesis using r'(1) by (auto simp: task_ok_def world_of_def)
qed

text \<open>The claimed task of the example.\<close>

lemma quiet_claimed_task:
  "\<exists>r t c. map_of (svc_runs (served quiet_environment demo_pack (new_service quiet_environment) (quiet_history @ [quiet_sync, quiet_claim]))) (quiet_id 2)
      = Some r \<and> map_of (sr_taskStates r) (quiet_id 21) = Some t \<and> rt_activeClaim t = Some c \<and> cl_leaseExpiresAt c = toISOString 60000
    \<and> tk_clock (served quiet_environment demo_pack (new_service quiet_environment) (quiet_history @ [quiet_sync, quiet_claim])) = 40"
  using quiet_histories(2) by (auto simp: claimed_def simp del: served_simps)

lemma service_tasks_follow_task_model_witness:
  "\<exists>r t d. map_of (svc_runs (served quiet_environment demo_pack (new_service quiet_environment) (quiet_history @ [quiet_sync, quiet_claim]))) (quiet_id 2)
      = Some r \<and> map_of (sr_taskStates r) (quiet_id 21) = Some t \<and> rt_activeClaim t \<noteq> None
    \<and> map_of (sr_tasks r) (quiet_id 21) = Some d \<and> projects d t"
proof -
  obtain r t c where r: "map_of (svc_runs (served quiet_environment demo_pack (new_service quiet_environment) (quiet_history @ [quiet_sync, quiet_claim])))
      (quiet_id 2) = Some r" and t: "map_of (sr_taskStates r) (quiet_id 21) = Some t" "rt_activeClaim t = Some c"
    using quiet_claimed_task by blast
  from service_tasks_follow_task_model [OF quiet_inj quiet_waits r t(1)] show ?thesis using r t by blast
qed

text \<open>
  Property C4. Whatever sequence of calls the service gets, the task of the coordinator stays blocked until the journal of
  the run holds, for each of the three specialists, an evaluation that accepted a submission of this role.
\<close>

theorem coordinator_waits_for_specialists:
  assumes "inj (env_idFactory E)" and "coordinator_waits K"
    and "map_of (svc_runs (served E K (new_service E) cs)) n = Some r" and "map_of (sr_taskStates r) i = Some t"
    and "map_of (sr_tasks r) i = Some d" and "td_roleSlotId d = COORDINATOR"
  shows "rt_state t = T_BLOCKED \<or> (\<forall>role \<in> set SPECIALISTS. \<exists>e \<in> set (sr_events r). accepted_event role e)"
proof (cases "rt_state t = T_BLOCKED")
  case False
  let ?w = "world_of (served E K (new_service E) cs) r"
  have ok: "work_ok E K ?w" using work.served_run(1) [OF assms(1,3)] assms(1,2) by (simp add: work_sound_def)
  then have "task_ok E K ?w i t" using work_task_ok assms(4) by (simp add: world_of_def)
  then obtain b where b: "analysis r = Some b" "rb_state b = B_RELEASED"
    using assms(5,6) False by (auto simp: task_ok_def analysis_released_def world_of_def)
  then have wf: "barrier_ok ?w b" using ok by (simp add: work_ok_def world_of_def)
  have "all_observed b" using wf b(2) by (auto simp: barrier_ok_def barrier_wf_def)
  have "\<exists>e \<in> set (sr_events r). accepted_event role e" if role: "role \<in> set SPECIALISTS" for role
  proof -
    have "role \<in> bi_conditionKey ` set (rb_inputs b)"
      using wf role \<open>all_observed b\<close> by (auto simp: barrier_ok_def all_observed_def)
    then obtain j where "j \<in> set (rb_inputs b)" "role = bi_conditionKey j" by blast
    then show ?thesis using wf by (auto simp: barrier_ok_def world_of_def)
  qed
  then show ?thesis by blast
qed simp

lemma coordinator_waits_for_specialists_witness:
  "\<exists>r t. map_of (svc_runs (served quiet_environment demo_pack (new_service quiet_environment) quiet_history)) (quiet_id 2) = Some r
    \<and> map_of (sr_taskStates r) (quiet_id 48) = Some t
    \<and> (rt_state t = T_BLOCKED \<or> (\<forall>role \<in> set SPECIALISTS. \<exists>e \<in> set (sr_events r). accepted_event role e))"
proof -
  obtain r where r: "running r (served quiet_environment demo_pack (new_service quiet_environment) quiet_history)" using quiet_running ..
  then have run: "map_of (svc_runs (served quiet_environment demo_pack (new_service quiet_environment) quiet_history)) (quiet_id 2) = Some r"
    by (simp add: running_def)
  have "worked r" using r by (simp add: running_def)
  then obtain t d where t: "map_of (sr_taskStates r) (quiet_id 48) = Some t" "map_of (sr_tasks r) (quiet_id 48) = Some d"
      "td_roleSlotId d = COORDINATOR"
    by (auto simp: worked_def COORDINATOR_def quiet_id)
  from coordinator_waits_for_specialists [OF quiet_inj quiet_waits run t] show ?thesis using run t(1) by blast
qed

section \<open>Expired claims\<close>

text \<open>No command changes a task whose claim has expired, when its lease carries a time the clock shows.\<close>

lemma expired_refuses:
  assumes "rt_activeClaim t = Some c" and "toEpoch (cl_leaseExpiresAt c) = Inr x"
    and "\<forall>k \<ge> n. x \<le> env_now E k \<and> env_now E k \<in> four_digit_years" and "timely E n y"
  shows "exec_task t y \<noteq> Inr t'"
proof
  assume run: "exec_task t y = Inr t'"
  show False
  proof (cases "lease_of y")
    case None
    then show False using run assms(1) by (cases y) (auto simp: task_operation_defs Let_def)
  next
    case (Some l)
    then obtain k where k: "k \<ge> n" "lc_now l = toISOString (env_now E k)" using assms(4) by (auto simp: timely_def)
    then have "toEpoch (lc_now l) = Inr (env_now E k)" "x \<le> env_now E k" using assms(3) toEpoch_toISOString by auto
    then have "assertCurrentLease t l \<noteq> Inr c'" for c' using assms(1,2) by auto
    then show False using run Some by (cases y) (auto simp: task_operation_defs Let_def)
  qed
qed

lemma expired_stays:
  assumes "rt_activeClaim t = Some c" and "toEpoch (cl_leaseExpiresAt c) = Inr x"
    and "\<forall>k \<ge> n. x \<le> env_now E k \<and> env_now E k \<in> four_digit_years" and "moved E n t t'"
  shows "t' = t"
proof -
  obtain ys where ys: "run_commands exec_task t ys = Inr t'" "list_all (timely E n) ys" using assms(4) by (auto simp: moved_def)
  show ?thesis
  proof (cases ys)
    case Nil
    then show ?thesis using ys by simp
  next
    case (Cons y zs)
    then show ?thesis using ys expired_refuses [OF assms(1-3)] by (auto split: sum.splits)
  qed
qed

text \<open>
  Property C7. Once the lease of a claimed task of a run has expired by the service's clock, no later sequence of calls
  changes the task: it can be neither released, nor submitted, nor claimed again.
\<close>

theorem expired_claim_is_never_recovered:
  assumes "inj (env_idFactory E)" and "coordinator_waits K"
    and "map_of (svc_runs (served E K (new_service E) cs)) n = Some r" and "map_of (sr_taskStates r) i = Some t"
    and "rt_activeClaim t = Some c" and "toEpoch (cl_leaseExpiresAt c) = Inr x"
    and "\<forall>k \<ge> tk_clock (served E K (new_service E) cs). x \<le> env_now E k \<and> env_now E k \<in> four_digit_years"
  shows "\<exists>r'. map_of (svc_runs (served E K (new_service E) (cs @ ds))) n = Some r' \<and> map_of (sr_taskStates r') i = Some t"
proof -
  let ?s = "served E K (new_service E) cs" and ?u = "served E K (new_service E) (cs @ ds)"
  have ok: "work_ok E K (world_of ?s r)" using work.served_run(1) [OF assms(1,3)] assms(1,2) by (simp add: work_sound_def)
  obtain r' where r': "map_of (svc_runs ?u) n = Some r'" "work_moves E K (world_of ?s r) (world_of ?u r')"
    using work.served_run(2) [OF assms(1,3), of ds] by blast
  then have "follows E (world_of ?s r) (world_of ?u r')" using ok assms(1,2) by (simp add: work_moves_def)
  then obtain t' where "map_of (sr_taskStates r') i = Some t'" "moved E (tk_clock ?s) t t'"
    using assms(4) by (auto simp: follows_def world_of_def)
  then show ?thesis using expired_stays [OF assms(5-7)] r'(1) by blast
qed

lemma expired_claim_is_never_recovered_witness:
  "\<exists>r r' t. map_of (svc_runs (served quiet_environment demo_pack (new_service quiet_environment) (quiet_history @ [quiet_sync, quiet_claim]))) (quiet_id 2)
      = Some r \<and> map_of (sr_taskStates r) (quiet_id 21) = Some t
    \<and> map_of (svc_runs (served quiet_environment demo_pack (new_service quiet_environment) ((quiet_history @ [quiet_sync, quiet_claim])
        @ [Claim_task quiet_agent (quiet_id 4) (quiet_id 21) ''d'' (Num 2) 60]))) (quiet_id 2) = Some r'
    \<and> map_of (sr_taskStates r') (quiet_id 21) = Some t"
proof -
  obtain r t c where r: "map_of (svc_runs (served quiet_environment demo_pack (new_service quiet_environment) (quiet_history @ [quiet_sync, quiet_claim])))
      (quiet_id 2) = Some r" and t: "map_of (sr_taskStates r) (quiet_id 21) = Some t" "rt_activeClaim t = Some c"
      "cl_leaseExpiresAt c = toISOString 60000"
      and k: "tk_clock (served quiet_environment demo_pack (new_service quiet_environment) (quiet_history @ [quiet_sync, quiet_claim])) = 40"
    using quiet_claimed_task by blast
  have x: "toEpoch (cl_leaseExpiresAt c) = Inr 60000" using t(3) quiet_clock by simp
  have "\<forall>m \<ge> tk_clock (served quiet_environment demo_pack (new_service quiet_environment) (quiet_history @ [quiet_sync, quiet_claim])).
      60000 \<le> env_now quiet_environment m \<and> env_now quiet_environment m \<in> four_digit_years"
    unfolding k by (simp add: quiet_fields quiet_now_def four_digit_years_def)
  from expired_claim_is_never_recovered [OF quiet_inj quiet_waits r t(1,2) x this] show ?thesis using r t(1) by blast
qed

end
