(* ===== verification/RunLiveness.thy ===== *)
theory RunLiveness
  imports RunExamples
begin

text \<open>What the service gets done: the last acceptance of a specialist opens the coordinator's task.\<close>

lemma js_add_one: "x \<noteq> NaN \<Longrightarrow> js_add x (Num 1) \<noteq> NaN"
  by (cases x) (auto simp: round_double_def Let_def)

lemma js_eq_same: "js_eq x x \<longleftrightarrow> x \<noteq> NaN"
  by (auto simp: js_eq_def)

lemma specialist_texts: "role \<in> set SPECIALISTS \<Longrightarrow> js_trim role \<noteq> [] \<and> CHR 0x00 \<notin> set role \<and> role \<noteq> COORDINATOR"
  by (auto simp: SPECIALISTS_def COORDINATOR_def js_trim_empty_iff is_js_space_def)

lemma recorded_last:
  assumes "barrier_wf b" and "rb_requiredConditionKeys b = SPECIALISTS" and "rb_state b = B_CLOSED" and "rb_version b \<noteq> NaN"
    and "role \<in> set SPECIALISTS" and "js_trim e \<noteq> []" and "set SPECIALISTS - {role} \<subseteq> bi_conditionKey ` set (rb_inputs b)"
  shows "\<exists>b'. recordRunBarrierInput b (rb_version b) role e = Inr b' \<and> rb_state b' = B_SATISFIED \<and> rb_version b' \<noteq> NaN \<and> rb_id b' = rb_id b"
proof -
  let ?i = "\<lparr>bi_conditionKey = role, bi_sourceEventId = e\<rparr>"
  have "\<not> all_observed b" using assms(1,3) by (simp add: barrier_wf_def)
  then have role: "role \<notin> bi_conditionKey ` set (rb_inputs b)" using assms(2,7) by (auto simp: all_observed_def)
  have "barrierInputKey ?i \<noteq> barrierInputKey j" if j: "j \<in> set (rb_inputs b)" for j
  proof -
    have "bi_conditionKey j \<in> set SPECIALISTS" using assms(1,2) j by (auto simp: barrier_wf_def)
    then have "CHR 0x00 \<notin> set (bi_conditionKey j)" "CHR 0x00 \<notin> set (bi_conditionKey ?i)" using specialist_texts assms(5) by simp_all
    then show ?thesis using barrierInputKey_inj [of ?i j] role j by force
  qed
  then have new: "\<not> known_input b ?i" by (auto simp: known_input_def)
  have "all_observed (add_input b ?i)" using assms(2,7) by (auto simp: all_observed_def)
  then show ?thesis
    using new assms specialist_texts by (intro exI [of _ "add_input b ?i"]) (simp add: record_Inr js_eq_same js_add_one)
qed

text \<open>
  Property C8. When the evaluation of a specialist is the last that the analysis barrier waits for, recording it releases
  the barrier and makes the blocked task of the coordinator ready, and discloses the ready task to the coordinator's agent.
\<close>

theorem last_acceptance_readies_coordinator:
  assumes "map_of (sr_barriers (rw_run w)) ''analysis-ready'' = Some b" and "barrier_wf b" and "rb_requiredConditionKeys b = SPECIALISTS"
    and "rb_state b = B_CLOSED" and "rb_version b \<noteq> NaN" and "role \<in> set SPECIALISTS" and "js_trim (ed_eventId e) \<noteq> []"
    and "set SPECIALISTS - {role} \<subseteq> bi_conditionKey ` set (rb_inputs b)"
    and "find (\<lambda>d. td_roleSlotId d = COORDINATOR) (map snd (sr_tasks (rw_run w))) = Some d"
    and "map_of (sr_tasks (rw_run w)) (td_id d) = Some d" and "map_of (sr_taskStates (rw_run w)) (td_id d) = Some t"
    and "rt_id t = td_id d" and "rt_state t = T_BLOCKED" and "rt_activeClaim t = None" and "rt_version t \<noteq> NaN"
    and "map_of (sr_eligible (rw_run w)) (td_assignedRunAgentId d) = Some xs"
  shows "\<exists>w' t' ys. recordAcceptedBarrierInput E role e w = (Inr (), w') \<and> analysis_released (rw_run w')
    \<and> map_of (sr_taskStates (rw_run w')) (td_id d) = Some t' \<and> rt_state t' = T_READY
    \<and> map_of (sr_eligible (rw_run w')) (td_assignedRunAgentId d) = Some ys
    \<and> (\<exists>x \<in> set ys. di_resourceType x = R_task \<and> di_resourceId x = td_id d)"
proof -
  obtain b' where b: "recordRunBarrierInput b (rb_version b) role (ed_eventId e) = Inr b'" "rb_state b' = B_SATISFIED" "rb_version b' \<noteq> NaN"
    using recorded_last assms(2-8) by blast
  have r: "releaseRunBarrier b' (rb_version b') = Inr (b'\<lparr>rb_state := B_RELEASED, rb_version := js_add (rb_version b') (Num 1)\<rparr>, True)"
    using b(2,3) by (simp add: release_Inr js_eq_same)
  have u: "releaseBlockedRunTask t (rt_version t) = Inr (nextTask t T_READY None None)"
    using assms(13-15) by (simp add: releaseBlockedRunTask_def js_eq_same)
  have role: "role \<noteq> COORDINATOR" using assms(6) specialist_texts by blast
  show ?thesis
    unfolding recordAcceptedBarrierInput_def release_coordinator_def
    using assms(1,9-12,16)
    apply (simp add: b r u role put_barrier_def [THEN after_unfold] put_task_state_def [THEN after_unfold] updateTaskDto_def [THEN after_unfold]
      addEligible_def last_steps front next_event_def with_event_def analysis_released_def analysis_def disclosure_fields cong: quiet_congs)
    done
qed

definition waiting_run :: run_dto where
  "waiting_run = \<lparr>rx_id = ''run'', rx_scenarioVersionId = ''v'', rx_ownerId = ''author'', rx_label = demo_text, rx_mode = ''collaborative'',
     rx_state = RUNNING, rx_virtualTime = ''t'', rx_version = Num 2, rx_createdAt = ''t'', rx_updatedAt = ''t'', rx_startedAt = Some ''t''\<rparr>"

definition waiting_barrier :: run_barrier where
  "waiting_barrier = \<lparr>rb_id = ''b'', rb_runId = ''run'', rb_state = B_CLOSED, rb_version = Num 3, rb_requiredConditionKeys = SPECIALISTS,
     rb_inputs = [\<lparr>bi_conditionKey = ''water-evidence'', bi_sourceEventId = ''e1''\<rparr>,
       \<lparr>bi_conditionKey = ''ecological-target'', bi_sourceEventId = ''e2''\<rparr>]\<rparr>"

definition waiting_dto :: task_dto where
  "waiting_dto = \<lparr>td_id = ''t'', td_runId = ''run'', td_roleSlotId = COORDINATOR, td_assignedRunAgentId = ''a'', td_definitionKey = ''k'',
     td_title = demo_text, td_objective = demo_text, td_state = T_BLOCKED, td_lockVersion = Num 1, td_claimEpoch = Num 0,
     td_claimedByRunAgentId = None, td_leaseExpiresAt = None, td_createdRunSeq = 1\<rparr>"

definition waiting_task :: run_task where
  "waiting_task = \<lparr>rt_id = ''t'', rt_runId = ''run'', rt_state = T_BLOCKED, rt_version = Num 1, rt_reassignable = True,
     rt_claimEpoch = Num 0, rt_activeClaim = None\<rparr>"

definition waiting_world :: run_world where
  "waiting_world = \<lparr>tk_ids = 9, tk_clock = 9, tk_tokens = 0, rw_run = (new_run waiting_run)\<lparr>sr_tasks := [(''t'', waiting_dto)],
     sr_taskStates := [(''t'', waiting_task)], sr_barriers := [(''analysis-ready'', waiting_barrier)], sr_eligible := [(''a'', [])]\<rparr>\<rparr>"

definition accepting_input :: event_input where
  "accepting_input = event_of ''evaluation'' ''e'' ''evaluation.completed'' ''system'' ''excon-evaluator'' ''evaluator_derived''
     [(''roleSlotId'', JString ''hydraulic-constraints''), (''verdict'', JString ''ACCEPTED'')]"

lemma last_acceptance_readies_coordinator_witness:
  "\<exists>w' t'. recordAcceptedBarrierInput quiet_environment ''hydraulic-constraints'' (next_event quiet_environment accepting_input waiting_world) waiting_world = (Inr (), w')
    \<and> map_of (sr_taskStates (rw_run w')) ''t'' = Some t' \<and> rt_state t' = T_READY"
proof -
  have b: "map_of (sr_barriers (rw_run waiting_world)) ''analysis-ready'' = Some waiting_barrier" by (simp add: waiting_world_def)
  have wf: "barrier_wf waiting_barrier"
    by (simp add: barrier_wf_def waiting_barrier_def SPECIALISTS_def all_observed_def barrierInputKey_def)
  have e: "js_trim (ed_eventId (next_event quiet_environment accepting_input waiting_world)) \<noteq> []" by (simp add: quiet_fields quiet_id)
  have keys: "set SPECIALISTS - {''hydraulic-constraints''} \<subseteq> bi_conditionKey ` set (rb_inputs waiting_barrier)"
    by (auto simp: SPECIALISTS_def waiting_barrier_def)
  have d: "find (\<lambda>d. td_roleSlotId d = COORDINATOR) (map snd (sr_tasks (rw_run waiting_world))) = Some waiting_dto"
    "map_of (sr_tasks (rw_run waiting_world)) (td_id waiting_dto) = Some waiting_dto"
    "map_of (sr_taskStates (rw_run waiting_world)) (td_id waiting_dto) = Some waiting_task"
    "map_of (sr_eligible (rw_run waiting_world)) (td_assignedRunAgentId waiting_dto) = Some []"
    by (simp_all add: waiting_world_def waiting_dto_def)
  from last_acceptance_readies_coordinator [OF b wf _ _ _ _ e keys d(1-3) _ _ _ _ d(4), where E = quiet_environment]
  show ?thesis by (force simp: waiting_barrier_def waiting_dto_def waiting_task_def SPECIALISTS_def)
qed

end
