(* ===== verification/RunReplay.thy ===== *)
theory RunReplay
  imports RunCommands
begin

text \<open>
  What the service draws from its factories decides what it does: when two surroundings give the same identifiers, times
  and lease tokens at the places that a command uses, the command does the same in both. A journal of commands that keeps
  what was drawn can therefore rebuild the service.

  The locale \<open>two_environments\<close> has two surroundings with one digest; \<open>repeats E F m n\<close> says that \<open>n\<close> repeats what \<open>m\<close> does
  wherever the second surroundings give what \<open>m\<close> draws from the first.
\<close>

section \<open>What is drawn between two states\<close>

definition advances :: "'x ticks_scheme \<Rightarrow> 'x ticks_scheme \<Rightarrow> bool" where
  "advances s t \<longleftrightarrow> tk_ids s \<le> tk_ids t \<and> tk_clock s \<le> tk_clock t \<and> tk_tokens s \<le> tk_tokens t"

definition drawn_alike :: "environment \<Rightarrow> environment \<Rightarrow> 'x ticks_scheme \<Rightarrow> 'x ticks_scheme \<Rightarrow> bool" where
  "drawn_alike E F s t \<longleftrightarrow>
     (\<forall>i \<in> {tk_ids s ..< tk_ids t}. env_idFactory F i = env_idFactory E i)
     \<and> (\<forall>i \<in> {tk_clock s ..< tk_clock t}. toISOString (env_now F i) = toISOString (env_now E i))
     \<and> (\<forall>i \<in> {tk_tokens s ..< tk_tokens t}. env_leaseTokenFactory F i = env_leaseTokenFactory E i)"

lemma advances_refl [simp]: "advances s s"
  by (simp add: advances_def)

lemma advances_trans: "advances s t \<Longrightarrow> advances t u \<Longrightarrow> advances s u"
  by (simp add: advances_def)

lemma drawn_alike_parts:
  assumes "drawn_alike E F s u" and "advances s t" and "advances t u"
  shows "drawn_alike E F s t" and "drawn_alike E F t u"
  using assms by (simp_all add: drawn_alike_def advances_def)

lemma drawn_alike_refl: "drawn_alike E E s t"
  by (simp add: drawn_alike_def)

definition repeats ::
  "environment \<Rightarrow> environment \<Rightarrow> ('x ticks_scheme, 'a) action \<Rightarrow> ('x ticks_scheme, 'a) action \<Rightarrow> bool" where
  "repeats E F m n \<longleftrightarrow> (\<forall>s r t. m s = (r, t) \<longrightarrow> advances s t \<and> (drawn_alike E F s t \<longrightarrow> n s = (r, t)))"

section \<open>Two surroundings\<close>

locale two_environments =
  fixes E F :: environment
  assumes same_digest: "env_sha256 F = env_sha256 E"
    and same_texts: "env_chinese F = env_chinese E"
begin

abbreviation (input) replays :: "('x ticks_scheme, 'a) action \<Rightarrow> ('x ticks_scheme, 'a) action \<Rightarrow> bool" where
  "replays \<equiv> repeats E F"

lemma replaysI: "(\<And>s r t. m s = (r, t) \<Longrightarrow> advances s t \<and> (drawn_alike E F s t \<longrightarrow> n s = (r, t))) \<Longrightarrow> replays m n"
  by (simp add: repeats_def)

lemma replaysD:
  assumes "replays m n" and "m s = (r, t)"
  shows "advances s t" and "drawn_alike E F s t \<Longrightarrow> n s = (r, t)"
  using assms by (simp_all add: repeats_def)

subsection \<open>Rules\<close>

lemma plain:
  "replays (give x) (give x)" "replays (throw c) (throw c)" "replays (call r) (call r)" "replays (reading f) (reading f)"
  "replays (throw_if b c) (throw_if b c)"
  by (simp_all add: repeats_def action_simps)

lemma after:
  assumes "replays m m'" and "\<And>x. replays (f x) (f' x)"
  shows "replays (after m f) (after m' f')"
proof (rule replaysI)
  fix s r t
  assume "after m f s = (r, t)"
  then consider e where "r = Inl e" "m s = (Inl e, t)" | x u where "m s = (Inr x, u)" "f x u = (r, t)"
    unfolding after_cases by blast
  then show "advances s t \<and> (drawn_alike E F s t \<longrightarrow> after m' f' s = (r, t))"
  proof cases
    case 1
    then show ?thesis using replaysD [OF assms(1) 1(2)] by (simp add: after_def)
  next
    case 2
    have a: "advances s u" "advances u t" using replaysD(1) [OF assms(1) 2(1)] replaysD(1) [OF assms(2) 2(2)] .
    have "after m' f' s = (r, t)" if "drawn_alike E F s t"
      using replaysD(2) [OF assms(1) 2(1)] replaysD(2) [OF assms(2) 2(2)] drawn_alike_parts [OF that a] by (simp add: after_def)
    then show ?thesis using advances_trans [OF a] by simp
  qed
qed

lemma perform_each: "(\<And>x. replays (f x) (f' x)) \<Longrightarrow> replays (perform_each f xs) (perform_each f' xs)"
  by (induction xs) (simp_all add: plain after)

lemma if_action: "replays m m' \<Longrightarrow> replays n n' \<Longrightarrow> replays (if b then m else n) (if b then m' else n')"
  by simp

lemma option_action:
  "replays m m' \<Longrightarrow> (\<And>x. replays (f x) (f' x)) \<Longrightarrow>
   replays (case y of None \<Rightarrow> m | Some x \<Rightarrow> f x) (case y of None \<Rightarrow> m' | Some x \<Rightarrow> f' x)"
  by (cases y) simp_all

lemma pair_action: "(\<And>a b. replays (f a b) (f' a b)) \<Longrightarrow> replays (case p of (a, b) \<Rightarrow> f a b) (case p of (a, b) \<Rightarrow> f' a b)"
  by (cases p) simp

lemma changing: "(\<And>s. tk_ids (g s) = tk_ids s \<and> tk_clock (g s) = tk_clock s \<and> tk_tokens (g s) = tk_tokens s) \<Longrightarrow>
    replays (changing g) (changing g)"
  by (simp add: repeats_def action_simps advances_def)

lemma run_plain: "replays (run_reading f) (run_reading f)" "replays (run_changing h) (run_changing h)"
  unfolding run_reading_def run_changing_def by (intro plain changing; simp)+

lemma draws: "replays (next_id E) (next_id F)" "replays (timestamp E) (timestamp F)" "replays (next_token E) (next_token F)"
  by (auto simp: repeats_def next_id_def timestamp_def next_token_def advances_def drawn_alike_def)

lemmas rules = plain after perform_each if_action option_action pair_action run_plain draws

subsection \<open>Digests and texts\<close>

lemma same_values: "hash F = hash E" "bilingual F = bilingual E"
  by (simp_all add: fun_eq_iff hash_def bilingual_def same_digest same_texts)

lemma same_disclosures: "disclosure_of F = disclosure_of E" "receipt_of F = receipt_of E" "once_grant_input F = once_grant_input E"
  "feedback_summary F = feedback_summary E" "feedback_guidance F = feedback_guidance E"
  by (simp_all add: fun_eq_iff disclosure_of_def receipt_of_def once_grant_input_def feedback_summary_def feedback_guidance_def
    same_values)

lemmas same = same_texts same_values same_disclosures

subsection \<open>Runs\<close>

lemma in_run:
  assumes "replays m m'"
  shows "replays (in_run n m) (in_run n m')"
proof (rule replaysI)
  fix s r t
  assume a: "in_run n m s = (r, t)"
  show "advances s t \<and> (drawn_alike E F s t \<longrightarrow> in_run n m' s = (r, t))"
  proof (cases "map_of (svc_runs s) n")
    case None
    then show ?thesis using a by (simp add: in_run_def)
  next
    case (Some x)
    obtain w where w: "m (world_of s x) = (r, w)" "t = put_world n s w"
      using a Some by (auto simp: in_run_def split: prod.splits)
    have "advances (world_of s x) w \<longleftrightarrow> advances s t" "drawn_alike E F (world_of s x) w \<longleftrightarrow> drawn_alike E F s t"
      by (simp_all add: w(2) advances_def drawn_alike_def world_of_def put_world_def)
    then show ?thesis using replaysD [OF assms w(1)] Some by (auto simp: in_run_def w(2))
  qed
qed

lemma idempotent: "replays m m' \<Longrightarrow> replays (idempotent E a sc k request m) (idempotent F a sc k request m')"
  unfolding idempotent_def same by (intro rules changing) simp_all

subsection \<open>The journal of a run\<close>

lemma append_event: "replays (appendRunEvent E i) (appendRunEvent F i)"
  unfolding appendRunEvent_def Let_def same by (intro rules)

lemma add_eligible: "replays (addEligible E a x e) (addEligible F a x e)"
  unfolding addEligible_def same by (intro rules)

lemma task_transitions:
  "replays (put_task_state t) (put_task_state t)" "replays (updateTaskDto t) (updateTaskDto t)"
  "replays (recordTaskTransition E t a k) (recordTaskTransition F t a k)"
  "replays (recordEvaluatorTaskTransition E t a k v b) (recordEvaluatorTaskTransition F t a k v b)"
  unfolding recordTaskTransition_def recordEvaluatorTaskTransition_def put_task_state_def updateTaskDto_def Let_def
  by (intro rules append_event add_eligible)+

lemma acknowledge: "replays (acknowledgeReceipts E a n h) (acknowledgeReceipts F a n h)"
  unfolding acknowledgeReceipts_def by (intro rules append_event)

lemma issue: "replays (issue_each E n a b i h ds) (issue_each F n a b i h ds)"
  by (induction ds arbitrary: i h) (unfold issue_each.simps Let_def same, (intro rules append_event | assumption)+)

lemma sync: "replays (sync_body E n a i) (sync_body F n a i)"
  unfolding sync_body_def Let_def by (intro rules acknowledge issue)

lemmas journal = append_event add_eligible task_transitions

subsection \<open>Evaluation\<close>

lemma grants:
  "replays (consumeGrant E a g n x s) (consumeGrant F a g n x s)"
  "replays (appendGrantConsumedEvent E a gr) (appendGrantConsumedEvent F a gr)"
  "replays (put_grant gr) (put_grant gr)" "replays (put_feedback f) (put_feedback f)"
  unfolding consumeGrant_def appendGrantConsumedEvent_def put_grant_def put_feedback_def same by (intro rules journal)+

lemma endorsement_grants: "replays (issueEndorsementGrants E x) (issueEndorsementGrants F x)"
  unfolding issueEndorsementGrants_def issue_endorsement_grant_def Let_def same by (intro rules journal grants)

lemma evaluation_feedback: "replays (issueEvaluationFeedback E x v) (issueEvaluationFeedback F x v)"
  unfolding issueEvaluationFeedback_def issue_feedback_def Let_def same by (intro rules journal grants)

lemma stores: "replays (put_barrier k b) (put_barrier k b)" "replays (put_evaluation v) (put_evaluation v)"
  "replays (put_submission x) (put_submission x)" "replays (put_endorsement y) (put_endorsement y)"
  "replays (put_task d) (put_task d)" "replays (put_message m) (put_message m)" "replays (put_artifact f) (put_artifact f)"
  "replays (ownedRunAgent a) (ownedRunAgent a)"
  unfolding put_barrier_def put_evaluation_def put_submission_def put_endorsement_def put_task_def put_message_def
    put_artifact_def ownedRunAgent_def by (intro rules)+

lemma coordinator: "replays (release_coordinator E) (release_coordinator F)"
  unfolding release_coordinator_def by (intro rules journal)

lemma analysis_input: "replays (recordAcceptedBarrierInput E n e) (recordAcceptedBarrierInput F n e)"
  unfolding recordAcceptedBarrierInput_def by (intro rules journal stores coordinator)

lemma evaluation: "replays (evaluateRoleSubmission E K x t d) (evaluateRoleSubmission F K x t d)"
  unfolding evaluateRoleSubmission_def Let_def by (intro rules journal stores evaluation_feedback analysis_input)

lemma endorsement_input: "replays (recordEndorsementBarrierInput E K x a e) (recordEndorsementBarrierInput F K x a e)"
  unfolding recordEndorsementBarrierInput_def Let_def
  by (intro rules journal stores evaluation)

subsection \<open>Bodies of the methods\<close>

lemma lease: "replays (leaseCommand E i a) (leaseCommand F i a)"
  unfolding leaseCommand_def same by (intro rules)

lemma task_bodies:
  "replays (claim_body E a t v l) (claim_body F a t v l)" "replays (begin_body E a t i) (begin_body F a t i)"
  "replays (heartbeat_body E a t i x) (heartbeat_body F a t i x)" "replays (release_body E a t i) (release_body F a t i)"
  unfolding claim_body_def begin_body_def heartbeat_body_def release_body_def same by (intro rules journal lease)+

lemma recipients: "replays (assertRecipientSnapshot rs x) (assertRecipientSnapshot rs x)"
  unfolding assertRecipientSnapshot_def by (intro rules stores)

lemma submission: "replays (submit_body E K a n t d i) (submit_body F K a n t d i)"
  unfolding submit_body_def assertSubmissionReferences_def revision_of_def Let_def same
  by (intro rules journal grants stores recipients lease endorsement_grants evaluation)

lemma endorsement: "replays (endorse_body E K a x g) (endorse_body F K a x g)"
  unfolding endorse_body_def Let_def by (intro rules journal grants stores endorsement_input)

lemma join: "replays (join_body E p n v i) (join_body F p n v i)"
  unfolding join_body_def Let_def by (intro rules journal)

lemma initial_resources: "replays (createInitialResources E K role a) (createInitialResources F K role a)"
  unfolding createInitialResources_def initial_task_def initial_message_def initial_artifact_def initial_feedback_def Let_def same
  by (intro rules journal grants stores)

lemma start: "replays (start_body E K p n v) (start_body F K p n v)"
  unfolding start_body_def create_barrier_def Let_def by (intro rules journal stores initial_resources)

lemma message: "replays (message_body E a n i) (message_body F a n i)"
  unfolding message_body_def cited_artifact_def Let_def by (intro rules journal stores recipients)

lemma artifact: "replays (artifact_body E a n i) (artifact_body F a n i)"
  unfolding artifact_body_def Let_def same by (intro rules journal stores recipients)

lemma artifact_version: "replays (artifact_version_body E a n i) (artifact_version_body F a n i)"
  unfolding artifact_version_body_def Let_def same by (intro rules journal stores recipients)

subsection \<open>Methods\<close>

lemma access:
  "replays (ownedRun p n) (ownedRun p n)" "replays (runForAgent p n a) (runForAgent p n a)" "replays (pinned r) (pinned r)"
  "replays (assert_version v1 v2 c) (assert_version v1 v2 c)" "replays (taskForAgent p a n) (taskForAgent p a n)"
  "replays (ownedAgent p i) (ownedAgent p i)" "replays (runContainingSubmission i) (runContainingSubmission i)"
  "replays (ownedScenario p i) (ownedScenario p i)" "replays (ownedScenarioVersion p i) (ownedScenarioVersion p i)"
  "replays (assertRunning r) (assertRunning r)" "replays (assertDraftScenarioVersion v) (assertDraftScenarioVersion v)"
  unfolding ownedRun_def runForAgent_def pinned_def assertRunning_def assert_version_def taskForAgent_def ownedAgent_def
    runContainingSubmission_def ownedScenario_def ownedScenarioVersion_def assertDraftScenarioVersion_def
  by (intro rules)+

lemma authoring: "replays (exec_authoring E c) (exec_authoring F c)"
proof -
  have "replays (createScenario E p k i1) (createScenario F p k i1)"
    "replays (createScenarioVersion E p n k i2) (createScenarioVersion F p n k i2)"
    "replays (validateScenarioVersion E p n k v) (validateScenarioVersion F p n k v)"
    "replays (publishScenarioVersion E p n k v) (publishScenarioVersion F p n k v)"
    "replays (createAgent E p k i3) (createAgent F p k i3)"
    "replays (createAgentVersion E p n k i4) (createAgentVersion F p n k i4)" for p n k v i1 i2 i3 i4
    unfolding createScenario_def createScenarioVersion_def validateScenarioVersion_def publishScenarioVersion_def
      createAgent_def createAgentVersion_def create_scenario_body_def create_version_body_def validate_version_body_def
      publish_version_body_def create_agent_body_def create_agent_version_body_def Let_def same
    by (intro idempotent rules access changing; simp add: put_scenario_def put_version_def)+
  then show ?thesis by (cases c) simp_all
qed

lemma operators:
  "replays (createRun E p k i1) (createRun F p k i1)" "replays (joinRun E p n k i2) (joinRun F p n k i2)"
  "replays (startRun E K p n k v) (startRun F K p n k v)"
  unfolding createRun_def joinRun_def startRun_def Let_def
  by (intro idempotent rules access changing in_run journal join start; simp)+

lemma agents:
  "replays (syncRun E p n a k i1) (syncRun F p n a k i1)" "replays (claimTask E p a n k v l) (claimTask F p a n k v l)"
  "replays (beginTask E p a n k i2) (beginTask F p a n k i2)" "replays (heartbeatTask E p a n k i2 x) (heartbeatTask F p a n k i2 x)"
  "replays (releaseTask E p a n k i2) (releaseTask F p a n k i2)" "replays (submitTask E K p a n k i3) (submitTask F K p a n k i3)"
  "replays (createMessage E p a n k i4) (createMessage F p a n k i4)"
  "replays (createArtifact E p a n k i5) (createArtifact F p a n k i5)"
  "replays (createArtifactVersion E p a n k i6) (createArtifactVersion F p a n k i6)"
  "replays (endorseSubmission E K p a n k g) (endorseSubmission F K p a n k g)"
  unfolding syncRun_def claimTask_def beginTask_def heartbeatTask_def releaseTask_def submitTask_def createMessage_def
    createArtifact_def createArtifactVersion_def endorseSubmission_def
  by (intro idempotent rules access in_run sync task_bodies submission message artifact artifact_version endorsement)+

lemma methods: "replays (exec E K c) (exec F K c)"
  by (cases c) (simp_all add: authoring operators agents)

end

text \<open>The surroundings of a process with other factories.\<close>

interpretation redrawn: two_environments E "E\<lparr>env_idFactory := f, env_now := g, env_leaseTokenFactory := h\<rparr>" for E f g h
  by unfold_locales simp_all

text \<open>A command in other surroundings that give what it draws.\<close>

theorem exec_replays:
  assumes "env_sha256 F = env_sha256 E" and "env_chinese F = env_chinese E"
    and "exec E K c s = (r, t)"
  shows "advances s t" and "drawn_alike E F s t \<Longrightarrow> exec F K c s = (r, t)"
proof -
  have "F = E\<lparr>env_idFactory := env_idFactory F, env_now := env_now F, env_leaseTokenFactory := env_leaseTokenFactory F\<rparr>"
    using assms(1,2) by simp
  then have "repeats E F (exec E K c) (exec F K c)" using redrawn.methods by metis
  then show "advances s t" "drawn_alike E F s t \<Longrightarrow> exec F K c s = (r, t)"
    using assms(3) by (simp_all add: repeats_def)
qed

end
