(* ===== verification/ServiceJson.thy ===== *)
theory ServiceJson
  imports RunCommands
begin

text \<open>
  The calls of \<open>apps/api/src/v2-in-memory-service.ts\<close> and their results as JSON: the name and the arguments of each method
  that changes state, in the order of \<open>V2ExerciseService\<close>, and the object that each returns.
\<close>

section \<open>Results\<close>

fun scenario_lifecycle_text :: "scenario_lifecycle \<Rightarrow> string" where
  "scenario_lifecycle_text Scenario_DRAFT = ''DRAFT''"
| "scenario_lifecycle_text Scenario_PUBLISHED = ''PUBLISHED''"
| "scenario_lifecycle_text Scenario_RETIRED = ''RETIRED''"

fun validation_status_text :: "validation_status \<Rightarrow> string" where
  "validation_status_text NOT_VALIDATED = ''NOT_VALIDATED''"
| "validation_status_text VALID = ''VALID''"
| "validation_status_text INVALID = ''INVALID''"

definition manage_scenario_json :: "manage_scenario \<Rightarrow> json" where
  "manage_scenario_json m = JObject
     ([(''id'', JString (mg_id m)), (''slug'', JString (mg_slug m)), (''title'', localized_json (mg_title m)),
       (''description'', localized_json (mg_description m)), (''region'', localized_json (mg_region m)),
       (''simulationOnly'', JBool True), (''lifecycle'', JString (scenario_lifecycle_text (mg_lifecycle m)))]
      @ optional ''currentVersionId'' JString (mg_currentVersionId m)
      @ [(''publishedVersionCount'', jnat (mg_publishedVersionCount m)), (''requiredRoleCount'', jnat (mg_requiredRoleCount m)),
         (''minDistinctRequiredAgents'', JNumber (mg_minDistinctRequiredAgents m)), (''ownerId'', JString (mg_ownerId m)),
         (''version'', JNumber (mg_version m)), (''draftVersionCount'', jnat (mg_draftVersionCount m)),
         (''latestValidationStatus'', JString (validation_status_text (mg_latestValidationStatus m))),
         (''updatedAt'', JString (mg_updatedAt m))])"

definition issue_json :: "string \<Rightarrow> string \<Rightarrow> localized \<Rightarrow> json" where
  "issue_json code path message = JObject [(''code'', JString code), (''path'', strings_json [path]), (''message'', localized_json message)]"

fun validation_issue_json :: "environment \<Rightarrow> validation_issue \<Rightarrow> json" where
  "validation_issue_json E REQUIRED_ROLES_MISSING = issue_json ''REQUIRED_ROLES_MISSING'' ''requiredRoles''
     (bilingual E ''A published scenario needs at least two required roles.'')"
| "validation_issue_json E DUPLICATE_ROLE_SLOT = issue_json ''DUPLICATE_ROLE_SLOT'' ''requiredRoles''
     (bilingual E ''Role slot identifiers must be unique.'')"
| "validation_issue_json E DISTINCT_AGENT_QUORUM_INVALID = issue_json ''DISTINCT_AGENT_QUORUM_INVALID'' ''minDistinctRequiredAgents''
     (bilingual E ''The distinct RunAgent quorum must be between two and the unique required-role count.'')"

definition scenario_version_json :: "environment \<Rightarrow> scenario_version \<Rightarrow> json" where
  "scenario_version_json E v = JObject
     ([(''id'', JString (sv_id v)), (''scenarioId'', JString (sv_scenarioId v)), (''label'', JString (sv_label v)),
       (''summary'', localized_json (sv_summary v)), (''lifecycle'', JString (scenario_lifecycle_text (sv_lifecycle v))),
       (''replayStartAt'', JString (sv_replayStartAt v)), (''requiredRoles'', JArray (map role_json (sv_requiredRoles v))),
       (''minDistinctRequiredAgents'', JNumber (sv_minDistinctRequiredAgents v))]
      @ optional ''contentHash'' JString (sv_contentHash v)
      @ [(''validation'', JObject
           ([(''status'', JString (validation_status_text (vn_status (sv_validation v)))),
             (''errors'', JArray (map (validation_issue_json E) (vn_errors (sv_validation v))))]
            @ optional ''validatedAt'' JString (vn_validatedAt (sv_validation v)))),
         (''version'', JNumber (sv_version v)), (''createdAt'', JString (sv_createdAt v)), (''updatedAt'', JString (sv_updatedAt v))]
      @ optional ''publishedAt'' JString (sv_publishedAt v))"

fun agent_lifecycle_text :: "agent_lifecycle \<Rightarrow> string" where
  "agent_lifecycle_text Agent_ACTIVE = ''ACTIVE''"
| "agent_lifecycle_text Agent_SUSPENDED = ''SUSPENDED''"
| "agent_lifecycle_text Agent_REVOKED = ''REVOKED''"

definition agent_identity_json :: "agent_identity \<Rightarrow> json" where
  "agent_identity_json a = JObject
     [(''id'', JString (ag_id a)), (''ownerId'', JString (ag_ownerId a)), (''displayName'', localized_json (ag_displayName a)),
      (''description'', localized_json (ag_description a)), (''lifecycle'', JString (agent_lifecycle_text (ag_lifecycle a))),
      (''version'', JNumber (ag_version a)), (''createdAt'', JString (ag_createdAt a)), (''updatedAt'', JString (ag_updatedAt a))]"

fun agent_version_lifecycle_text :: "agent_version_lifecycle \<Rightarrow> string" where
  "agent_version_lifecycle_text Version_PUBLISHED = ''PUBLISHED''"
| "agent_version_lifecycle_text Version_RETIRED = ''RETIRED''"

definition agent_version_json :: "agent_version \<Rightarrow> json" where
  "agent_version_json v = JObject
     ([(''id'', JString (av_id v)), (''agentId'', JString (av_agentId v))] @ agent_content_json (av_content v)
      @ [(''lifecycle'', JString (agent_version_lifecycle_text (av_lifecycle v))), (''contentHash'', JString (av_contentHash v)),
         (''version'', JNumber (av_version v)), (''publishedAt'', JString (av_publishedAt v))])"

fun run_state_text :: "exercise_run_state \<Rightarrow> string" where
  "run_state_text s = (case s of
     CREATED \<Rightarrow> ''CREATED'' | FORMING \<Rightarrow> ''FORMING'' | READY \<Rightarrow> ''READY'' | RUNNING \<Rightarrow> ''RUNNING'' | PAUSED \<Rightarrow> ''PAUSED''
   | COMPLETING \<Rightarrow> ''COMPLETING'' | COMPLETED \<Rightarrow> ''COMPLETED'' | CANCELLED \<Rightarrow> ''CANCELLED'' | FAILED \<Rightarrow> ''FAILED'')"

definition run_dto_json :: "run_dto \<Rightarrow> json" where
  "run_dto_json r = JObject
     ([(''id'', JString (rx_id r)), (''scenarioVersionId'', JString (rx_scenarioVersionId r)), (''ownerId'', JString (rx_ownerId r)),
       (''label'', localized_json (rx_label r)), (''mode'', JString (rx_mode r)), (''state'', JString (run_state_text (rx_state r))),
       (''virtualTime'', JString (rx_virtualTime r)), (''version'', JNumber (rx_version r)),
       (''createdAt'', JString (rx_createdAt r)), (''updatedAt'', JString (rx_updatedAt r))]
      @ optional ''startedAt'' JString (rx_startedAt r))"

definition run_agent_json :: "run_agent \<Rightarrow> json" where
  "run_agent_json a = JObject
     [(''id'', JString (rg_id a)), (''runId'', JString (rg_runId a)), (''agentVersionId'', JString (rg_agentVersionId a)),
      (''instanceKey'', JString (rg_instanceKey a)), (''roleSlotId'', JString (rg_roleSlotId a)), (''state'', JString (rg_state a)),
      (''version'', JNumber (rg_version a)), (''joinedAt'', JString (rg_joinedAt a))]"

text \<open>\<open>{ ...base, receiptHash: hash(base) }\<close>.\<close>

definition issued_receipt_json :: "receipt \<Rightarrow> json" where
  "issued_receipt_json r = (case receipt_json r of JObject es \<Rightarrow> JObject (es @ [(''receiptHash'', JString (rc_receiptHash r))]) | v \<Rightarrow> v)"

definition sync_batch_json :: "sync_batch \<Rightarrow> json" where
  "sync_batch_json b = JObject
     [(''deliveryBatchId'', JString (db_deliveryBatchId b)), (''runId'', JString (db_runId b)), (''runAgentId'', JString (db_runAgentId b)),
      (''fromReceiptSeq'', case db_fromReceiptSeq b of None \<Rightarrow> JNull | Some n \<Rightarrow> jnat n),
      (''throughReceiptSeq'', jnat (db_throughReceiptSeq b)), (''receiptHeadHash'', JString (db_receiptHeadHash b)),
      (''runCursor'', jnat (db_runCursor b)), (''hasMore'', JBool (db_hasMore b)),
      (''receipts'', JArray (map issued_receipt_json (db_receipts b)))]"

definition task_lease_json :: "task_lease \<Rightarrow> json" where
  "task_lease_json l = JObject
     [(''claimEpoch'', JNumber (tl_claimEpoch l)), (''leaseToken'', JString (tl_leaseToken l)),
      (''leaseExpiresAt'', JString (tl_leaseExpiresAt l)), (''maximumLeaseExpiresAt'', JString (tl_maximumLeaseExpiresAt l))]"

definition endorsement_json :: "endorsement_dto \<Rightarrow> json" where
  "endorsement_json e = JObject
     [(''id'', JString (en_id e)), (''runId'', JString (en_runId e)), (''submissionId'', JString (en_submissionId e)),
      (''endorserRunAgentId'', JString (en_endorserRunAgentId e)), (''feedbackActionGrantId'', JString (en_feedbackActionGrantId e)),
      (''endorsedAt'', JString (en_endorsedAt e)), (''createdRunSeq'', jnat (en_createdRunSeq e))]"

fun response_json :: "environment \<Rightarrow> response \<Rightarrow> json" where
  "response_json E (Scenario_response x) = JObject [(''scenario'', manage_scenario_json x)]"
| "response_json E (Scenario_version_response x) = JObject [(''scenarioVersion'', scenario_version_json E x)]"
| "response_json E (Agent_response x) = JObject [(''agent'', agent_identity_json x)]"
| "response_json E (Agent_version_response x) = JObject [(''agentVersion'', agent_version_json x)]"
| "response_json E (Run_response x) = JObject [(''run'', run_dto_json x)]"
| "response_json E (Run_agent_response x) = JObject [(''runAgent'', run_agent_json x)]"
| "response_json E (Batch_response x) = sync_batch_json x"
| "response_json E (Claim_response x l) = JObject [(''task'', task_json x), (''lease'', task_lease_json l)]"
| "response_json E (Task_response x) = JObject [(''task'', task_json x)]"
| "response_json E (Submission_response x t) = JObject [(''submission'', submission_json x), (''task'', task_json t)]"
| "response_json E (Message_response x) = JObject [(''message'', message_json x)]"
| "response_json E (Artifact_response x) = JObject [(''artifact'', artifact_json x)]"
| "response_json E (Endorsement_response x g) = JObject [(''endorsement'', endorsement_json x), (''actionGrant'', grant_json g)]"

section \<open>Calls\<close>

fun command_name :: "run_command \<Rightarrow> string" where
  "command_name (Authoring (Create_scenario p k i)) = ''createScenario''"
| "command_name (Authoring (Create_version p n k i)) = ''createScenarioVersion''"
| "command_name (Authoring (Validate_version p n k v)) = ''validateScenarioVersion''"
| "command_name (Authoring (Publish_version p n k v)) = ''publishScenarioVersion''"
| "command_name (Authoring (Create_agent p k i)) = ''createAgent''"
| "command_name (Authoring (Create_agent_version p n k i)) = ''createAgentVersion''"
| "command_name (Create_run p k i) = ''createRun''"
| "command_name (Join_run p n k i) = ''joinRun''"
| "command_name (Start_run p n k v) = ''startRun''"
| "command_name (Sync_run p n a k i) = ''sync''"
| "command_name (Claim_task p a n k v l) = ''claimTask''"
| "command_name (Begin_task p a n k i) = ''beginTask''"
| "command_name (Heartbeat_task p a n k i x) = ''heartbeatTask''"
| "command_name (Release_task p a n k i) = ''releaseTask''"
| "command_name (Submit_task p a n k i) = ''submitTask''"
| "command_name (Create_message p a n k i) = ''createMessage''"
| "command_name (Create_artifact p a n k i) = ''createArtifact''"
| "command_name (Create_artifact_version p a n k i) = ''createArtifactVersion''"
| "command_name (Endorse_submission p a n k g) = ''endorseSubmission''"

fun command_principal :: "run_command \<Rightarrow> principal" where
  "command_principal (Authoring (Create_scenario p k i)) = p"
| "command_principal (Authoring (Create_version p n k i)) = p"
| "command_principal (Authoring (Validate_version p n k v)) = p"
| "command_principal (Authoring (Publish_version p n k v)) = p"
| "command_principal (Authoring (Create_agent p k i)) = p"
| "command_principal (Authoring (Create_agent_version p n k i)) = p"
| "command_principal (Create_run p k i) = p"
| "command_principal (Join_run p n k i) = p"
| "command_principal (Start_run p n k v) = p"
| "command_principal (Sync_run p n a k i) = p"
| "command_principal (Claim_task p a n k v l) = p"
| "command_principal (Begin_task p a n k i) = p"
| "command_principal (Heartbeat_task p a n k i x) = p"
| "command_principal (Release_task p a n k i) = p"
| "command_principal (Submit_task p a n k i) = p"
| "command_principal (Create_message p a n k i) = p"
| "command_principal (Create_artifact p a n k i) = p"
| "command_principal (Create_artifact_version p a n k i) = p"
| "command_principal (Endorse_submission p a n k g) = p"

text \<open>A lease request with another value in the place of its token, which the journal puts there.\<close>

definition lease_fields :: "json \<Rightarrow> lease_request \<Rightarrow> (string \<times> json) list" where
  "lease_fields tk i = [(''expectedVersion'', JNumber (lr_expectedVersion i)), (''claimEpoch'', JNumber (lr_claimEpoch i)), (''leaseToken'', tk)]"

definition submission_fields :: "json \<Rightarrow> create_submission \<Rightarrow> json" where
  "submission_fields tk i = (case create_submission_json i of
     JObject es \<Rightarrow> JObject (map (\<lambda>(k, v). if k = ''leaseToken'' then (k, tk) else (k, v)) es) | v \<Rightarrow> v)"

text \<open>The arguments after the principal; \<open>tk\<close> makes the JSON of a lease token.\<close>

fun command_arguments :: "(string \<Rightarrow> json) \<Rightarrow> run_command \<Rightarrow> json list" where
  "command_arguments tk (Authoring (Create_scenario p k i)) = [JString k, create_scenario_json i]"
| "command_arguments tk (Authoring (Create_version p n k i)) = [JString n, JString k, create_scenario_version_json i]"
| "command_arguments tk (Authoring (Validate_version p n k v)) = [JString n, JString k, version_command_json v]"
| "command_arguments tk (Authoring (Publish_version p n k v)) = [JString n, JString k, version_command_json v]"
| "command_arguments tk (Authoring (Create_agent p k i)) = [JString k, create_agent_json i]"
| "command_arguments tk (Authoring (Create_agent_version p n k i)) = [JString n, JString k, create_agent_version_json i]"
| "command_arguments tk (Create_run p k i) = [JString k, create_run_json i]"
| "command_arguments tk (Join_run p n k i) = [JString n, JString k, join_run_json i]"
| "command_arguments tk (Start_run p n k v) = [JString n, JString k, version_command_json v]"
| "command_arguments tk (Sync_run p n a k i) = [JString n, JString a, JString k, sync_request_json i]"
| "command_arguments tk (Claim_task p a n k v l) = [JString a, JString n, JString k,
     JObject [(''expectedVersion'', JNumber v), (''leaseSeconds'', JNumber (Num (of_int l)))]]"
| "command_arguments tk (Begin_task p a n k i) = [JString a, JString n, JString k, JObject (lease_fields (tk (lr_leaseToken i)) i)]"
| "command_arguments tk (Heartbeat_task p a n k i x) = [JString a, JString n, JString k,
     JObject (lease_fields (tk (lr_leaseToken i)) i @ [(''extendBySeconds'', JNumber (Num (of_int x)))])]"
| "command_arguments tk (Release_task p a n k i) = [JString a, JString n, JString k, JObject (lease_fields (tk (lr_leaseToken i)) i)]"
| "command_arguments tk (Submit_task p a n k i) = [JString a, JString n, JString k, submission_fields (tk (lr_leaseToken (cu_lease i))) i]"
| "command_arguments tk (Create_message p a n k i) = [JString a, JString n, JString k, create_message_json i]"
| "command_arguments tk (Create_artifact p a n k i) = [JString a, JString n, JString k, create_artifact_json i]"
| "command_arguments tk (Create_artifact_version p a n k i) = [JString a, JString n, JString k, create_artifact_version_json i]"
| "command_arguments tk (Endorse_submission p a n k g) = [JString a, JString n, JString k, JObject [(''feedbackActionGrantId'', JString g)]]"

text \<open>The token that a command on a lease carries, and the command with another one.\<close>

fun lease_token :: "run_command \<Rightarrow> string option" where
  "lease_token (Begin_task p a n k i) = Some (lr_leaseToken i)"
| "lease_token (Heartbeat_task p a n k i x) = Some (lr_leaseToken i)"
| "lease_token (Release_task p a n k i) = Some (lr_leaseToken i)"
| "lease_token (Submit_task p a n k i) = Some (lr_leaseToken (cu_lease i))"
| "lease_token c = None"

fun with_lease_token :: "string \<Rightarrow> run_command \<Rightarrow> run_command" where
  "with_lease_token tk (Begin_task p a n k i) = Begin_task p a n k (i\<lparr>lr_leaseToken := tk\<rparr>)"
| "with_lease_token tk (Heartbeat_task p a n k i x) = Heartbeat_task p a n k (i\<lparr>lr_leaseToken := tk\<rparr>) x"
| "with_lease_token tk (Release_task p a n k i) = Release_task p a n k (i\<lparr>lr_leaseToken := tk\<rparr>)"
| "with_lease_token tk (Submit_task p a n k i) = Submit_task p a n k (i\<lparr>cu_lease := (cu_lease i)\<lparr>lr_leaseToken := tk\<rparr>\<rparr>)"
| "with_lease_token tk c = c"

lemma lease_token_simps [simp]:
  "lease_token (with_lease_token tk c) = map_option (\<lambda>_. tk) (lease_token c)"
  "with_lease_token tk (with_lease_token tk' c) = with_lease_token tk c"
  by (cases c; simp)+

lemma with_own_token: "lease_token c = Some tk \<Longrightarrow> with_lease_token tk c = c"
  by (cases c) auto

text \<open>\<open>copyArguments\<close>: the objects that a caller passes through as they are get canonical.\<close>

fun copy_command :: "run_command \<Rightarrow> run_command" where
  "copy_command (Submit_task p a n k i) = Submit_task p a n k (i\<lparr>cu_payload := canonicalize (cu_payload i)\<rparr>)"
| "copy_command (Create_artifact p a n k i) = Create_artifact p a n k (i\<lparr>ca_content := canonicalize (ca_content i)\<rparr>)"
| "copy_command (Create_artifact_version p a n k i) = Create_artifact_version p a n k (i\<lparr>cx_content := canonicalize (cx_content i)\<rparr>)"
| "copy_command c = c"

section \<open>Copies of commands\<close>

lemma sort_key_alike: "(\<And>x. x \<in> set xs \<Longrightarrow> f x = c) \<Longrightarrow> sort_key f xs = xs"
  using sort_key_stable [of f c xs] by (simp add: filter_id_conv)

lemma sort_entry_order: "sort_key fst (entry_order es) = sort_key fst es"
proof (rule properties_for_sort_key)
  show "mset (sort_key fst es) = mset (entry_order es)" by (simp add: entry_order_def)
next
  fix k :: "string \<times> 'a"
  have "filter (\<lambda>x. fst x = fst k) (entry_order es) = filter (\<lambda>x. fst x = fst k) es"
  proof (cases "is_index (fst k)")
    case True
    have "sort_key (digits_value \<circ> fst) (filter (\<lambda>x. fst x = fst k) (filter (is_index \<circ> fst) es)) = filter (\<lambda>x. fst x = fst k) (filter (is_index \<circ> fst) es)"
      by (rule sort_key_alike [where c = "digits_value (fst k)"]) simp
    moreover have "filter (\<lambda>x. fst x = fst k) (filter (is_index \<circ> fst) es) = filter (\<lambda>x. fst x = fst k) es"
      using True by (auto intro: filter_cong)
    moreover have "filter (\<lambda>x. fst x = fst k) (filter (Not \<circ> is_index \<circ> fst) es) = []"
      using True by (auto simp: filter_empty_conv)
    ultimately show ?thesis by (simp add: entry_order_def filter_sort)
  next
    case False
    have "filter (\<lambda>x. fst x = fst k) (filter (is_index \<circ> fst) es) = []" using False by (auto simp: filter_empty_conv)
    moreover have "filter (\<lambda>x. fst x = fst k) (filter (Not \<circ> is_index \<circ> fst) es) = filter (\<lambda>x. fst x = fst k) es"
      using False by (auto intro: filter_cong)
    ultimately show ?thesis by (simp add: entry_order_def filter_sort)
  qed
  then have "filter (\<lambda>x. fst x = fst k) (sort_key fst es) = filter (\<lambda>x. fst x = fst k) (entry_order es)"
    by (simp add: sort_key_stable)
  then show "filter (\<lambda>x. fst k = fst x) (sort_key fst es) = filter (\<lambda>x. fst k = fst x) (entry_order es)"
    by (simp only: eq_commute [of "fst k"])
qed simp

lemma sort_map_entries: "(\<And>e. fst (g e) = fst e) \<Longrightarrow> sort_key fst (map g es) = map g (sort_key fst es)"
proof (induction es)
  case (Cons e es)
  have "insort_key fst (g x) (map g xs) = map g (insort_key fst x xs)" for x xs
    by (induction xs) (simp_all add: Cons.prems)
  then show ?case using Cons by simp
qed simp

lemma canonicalize_entries:
  "map (\<lambda>e. (fst e, canonicalize (snd e))) es = map (\<lambda>e. (fst e, canonicalize (snd e))) fs \<Longrightarrow>
   canonicalize (JObject es) = canonicalize (JObject fs)"
  using sort_map_entries [of "\<lambda>e. (fst e, canonicalize (snd e))" es] sort_map_entries [of "\<lambda>e. (fst e, canonicalize (snd e))" fs]
  by simp

lemma canonicalize_canonicalize [simp]: "canonicalize (canonicalize v) = canonicalize v"
proof (induction v rule: canonicalize.induct)
  case (6 es)
  define g where "g = (\<lambda>e. (fst e :: string, canonicalize (snd e)))"
  have keys: "fst (g e) = fst e" for e by (simp add: g_def)
  have twice: "g (g e) = g e" if "e \<in> set (sort_key fst es)" for e using 6 [OF that] by (simp add: g_def)
  have "sort_key fst (entry_order (map g (sort_key fst es))) = map g (sort_key fst es)"
    unfolding sort_entry_order sort_map_entries [OF keys]
    using sorted_sort_key [of fst es] by (simp add: sort_key_id_if_sorted)
  then have "canonicalize (canonicalize (JObject es)) = JObject (entry_order (map g (map g (sort_key fst es))))"
    by (simp flip: g_def)
  also have "map g (map g (sort_key fst es)) = map g (sort_key fst es)" using twice by simp
  finally show ?case by (simp flip: g_def)
qed simp_all

lemma copied_requests:
  "hash E (create_submission_json (i\<lparr>cu_payload := canonicalize (cu_payload i)\<rparr>)) = hash E (create_submission_json i)"
  "hash E (create_artifact_json (j\<lparr>ca_content := canonicalize (ca_content j)\<rparr>)) = hash E (create_artifact_json j)"
  "hash E (create_artifact_version_json (x\<lparr>cx_content := canonicalize (cx_content x)\<rparr>)) = hash E (create_artifact_version_json x)"
  "hash E (canonicalize v) = hash E v"
  unfolding hash_def create_submission_json_def create_artifact_json_def create_artifact_version_json_def
  by (intro arg_cong [where f = "\<lambda>v. ''sha256:'' @ env_sha256 E (json_text v)"] canonicalize_entries; simp)+

lemma same_request: "hash E v = hash E w \<Longrightarrow> idempotent E a sc k v m = idempotent E a sc k w m"
  by (simp only: idempotent_def)

text \<open>The service does the same with the copy: it keeps such objects canonical, and their digests do not see the order.\<close>

lemma exec_copy: "exec E K (copy_command c) = exec E K c"
proof (cases c)
  case (Submit_task p a n k i)
  define j where "j = i\<lparr>cu_payload := canonicalize (cu_payload i)\<rparr>"
  have fields: "cu_lease j = cu_lease i" "cu_submissionType j = cu_submissionType i" "cu_targetScope j = cu_targetScope i"
    "canonicalize (cu_payload j) = canonicalize (cu_payload i)" "cu_receiptRefs j = cu_receiptRefs i"
    "cu_artifactVersionRefs j = cu_artifactVersionRefs i" "cu_revisionOfId j = cu_revisionOfId i"
    "cu_feedbackActionGrantId j = cu_feedbackActionGrantId i"
    "cu_endorsementRecipientRunAgentIds j = cu_endorsementRecipientRunAgentIds i"
    by (simp_all add: j_def)
  have "submit_body E K a n t d j = submit_body E K a n t d i" for t d
    unfolding submit_body_def assertSubmissionReferences_def revision_of_def fields ..
  then have "submit_body E K a n t d (i\<lparr>cu_payload := canonicalize (cu_payload i)\<rparr>) = submit_body E K a n t d i" for t d
    by (simp only: j_def)
  then show ?thesis by (simp add: Submit_task submitTask_def same_request [OF copied_requests(1)])
next
  case (Create_artifact p a n k i)
  have "artifact_body E a n (i\<lparr>ca_content := canonicalize (ca_content i)\<rparr>) = artifact_body E a n i"
    by (simp add: artifact_body_def copied_requests)
  then show ?thesis by (simp add: Create_artifact createArtifact_def same_request [OF copied_requests(2)])
next
  case (Create_artifact_version p a n k i)
  define j where "j = i\<lparr>cx_content := canonicalize (cx_content i)\<rparr>"
  have fields: "cx_baseVersionId j = cx_baseVersionId i" "canonicalize (cx_content j) = canonicalize (cx_content i)"
    "hash E (cx_content j) = hash E (cx_content i)" "cx_recipientRunAgentIds j = cx_recipientRunAgentIds i"
    by (simp_all add: j_def copied_requests)
  have "artifact_version_body E a n j = artifact_version_body E a n i" unfolding artifact_version_body_def fields ..
  then have "artifact_version_body E a n (i\<lparr>cx_content := canonicalize (cx_content i)\<rparr>) = artifact_version_body E a n i"
    by (simp only: j_def)
  then show ?thesis
    by (simp only: Create_artifact_version copy_command.simps exec.simps createArtifactVersion_def same_request [OF copied_requests(3)])
qed simp_all

lemma copy_simps [simp]:
  "copy_command (copy_command c) = copy_command c" "lease_token (copy_command c) = lease_token c"
  "command_name (copy_command c) = command_name c" "command_principal (copy_command c) = command_principal c"
  "copy_command (with_lease_token tk c) = with_lease_token tk (copy_command c)"
  "command_principal (with_lease_token tk c) = command_principal c" "command_name (with_lease_token tk c) = command_name c"
  by (cases c; simp)+

end
