(* ===== verification/CommandJournal.thy ===== *)
theory CommandJournal
  imports RunReplay ServiceJson
begin

text \<open>
  The journal of commands of \<open>apps/api/src/v2-postgres-journal-service.ts\<close>, which keeps the service in a database: each call
  that changes state is written as an intent before it runs and as an outcome after it, and a new process runs the
  journal again from an empty service, with the identifiers and times that the outcomes keep. The lease tokens that
  it issued are recomputed from a secret key, and the token with which a call holds its lease is written as its digest.

  The database answers each insert: it stored the row, it stored it but the answer was lost, or it did not. Rows are typed:
  their JSON has been parsed. Serialised calls (\<open>#serialize\<close>) run one after the other.
\<close>

section \<open>Patterns\<close>

definition is_hex_lower :: "char \<Rightarrow> bool" where
  "is_hex_lower c \<longleftrightarrow> is_digit c \<or> c \<in> set ''abcdef''"

definition HASH_PATTERN :: "string \<Rightarrow> bool" where
  "HASH_PATTERN s \<longleftrightarrow> take 7 s = ''sha256:'' \<and> length s = 71 \<and> list_all is_hex_lower (drop 7 s)"

definition is_key_start :: "char \<Rightarrow> bool" where
  "is_key_start c \<longleftrightarrow> is_digit c \<or> c \<in> set ''abcdefghijklmnopqrstuvwxyz''"

definition KEY_ID_PATTERN :: "string \<Rightarrow> bool" where
  "KEY_ID_PATTERN s \<longleftrightarrow> 3 \<le> length s \<and> length s \<le> 64 \<and> is_key_start (hd s)
     \<and> list_all (\<lambda>c. is_key_start c \<or> c \<in> set ''._-'') (tl s)"

definition uuid_char :: "nat \<Rightarrow> char \<Rightarrow> bool" where
  "uuid_char i c \<longleftrightarrow>
     (if i \<in> {8, 13, 18, 23} then c = CHR ''-''
      else if i = 14 then c \<in> set ''12345678''
      else if i = 19 then c \<in> set ''89abAB''
      else is_digit c \<or> c \<in> set ''abcdefABCDEF'')"

definition UUID_PATTERN :: "string \<Rightarrow> bool" where
  "UUID_PATTERN s \<longleftrightarrow> length s = 36 \<and> list_all (\<lambda>(i, c). uuid_char i c) (enumerate 0 s)"

definition MAX_GENERATED_VALUES :: nat where
  "MAX_GENERATED_VALUES = 100000"

definition JOURNAL_VERSION :: nat where
  "JOURNAL_VERSION = 1"

section \<open>The writer and its rows\<close>

text \<open>
  The options of the service and what it uses of \<open>node:crypto\<close>: \<open>jw_hmac\<close> is the keyed digest in its URL form. The message and
  the details of an error are a function of the call that throws it, up to the order of the entries of its objects.
\<close>

record journal_writer =
  jw_environment :: environment
  jw_intentIdFactory :: "nat \<Rightarrow> string"
  jw_activeLeaseHmacKeyId :: string
  jw_leaseHmacKeys :: "(string \<times> string) list"
  jw_hmac :: "string \<Rightarrow> string \<Rightarrow> string"
  jw_explain :: "run_command \<Rightarrow> service \<Rightarrow> string \<Rightarrow> string \<times> json"

record generated_values =
  gv_ids :: "string list"
  gv_timestamps :: "string list"
  gv_leaseCounterCount :: nat

record journal_intent =
  ji_sequence :: nat
  ji_intentId :: string
  ji_journalVersion :: nat
  ji_requestHash :: string
  ji_participantVersionIds :: "string list"
  ji_command :: run_command  \<comment> \<open>sealed: the digest stands for a lease token\<close>
  ji_leaseKeyId :: string

record journal_outcome =
  jo_sequence :: nat
  jo_status :: string
  jo_resultHash :: string
  jo_errorCode :: "string option"
  jo_generated :: generated_values

type_synonym journal_row = "journal_intent \<times> journal_outcome option"

type_synonym known_tokens = "(string \<times> string) list"

definition digest :: "journal_writer \<Rightarrow> json \<Rightarrow> string" where
  "digest W v = ''sha256:'' @ env_sha256 (jw_environment W) (json_text (canonicalize v))"

definition optional_strings :: "string \<Rightarrow> string list option \<Rightarrow> (string \<times> json) list" where
  "optional_strings name xs = optional name strings_json xs"

definition principal_json :: "principal \<Rightarrow> string list \<Rightarrow> json" where
  "principal_json p versions = JObject
     ([(''id'', JString (pr_id p)), (''participantVersionIds'', strings_json versions)]
      @ optional_strings ''roles'' (pr_roles p) @ optional_strings ''runAgentIds'' (pr_runAgentIds p))"

definition short_array :: "string list \<Rightarrow> bool" where
  "short_array xs \<longleftrightarrow> length xs \<le> MAX_GENERATED_VALUES"

definition check_principal :: "principal \<Rightarrow> string list \<Rightarrow> unit result" where
  "check_principal p versions =
     (if short_array versions
         \<and> (case pr_roles p of None \<Rightarrow> True | Some rs \<Rightarrow> short_array rs \<and> list_all (\<lambda>r. r = ''operator'' \<or> r = ''run_agent'') rs)
         \<and> (case pr_runAgentIds p of None \<Rightarrow> True | Some xs \<Rightarrow> short_array xs)
      then Inr () else fail ''JOURNAL_CORRUPT'')"

section \<open>Sealing\<close>

definition secret_reference :: "string \<Rightarrow> json" where
  "secret_reference tokenHash =
     JObject [(''$secretRef'', JObject [(''kind'', JString ''lease-token-hash''), (''tokenHash'', JString tokenHash)])]"

definition sealCommandArguments :: "journal_writer \<Rightarrow> known_tokens \<Rightarrow> run_command \<Rightarrow> run_command result" where
  "sealCommandArguments W known c =
     (case lease_token c of
        None \<Rightarrow> Inr (copy_command c)
      | Some leaseToken \<Rightarrow>
          let tokenHash = digest W (JString leaseToken)
          in if map_of known tokenHash \<noteq> Some leaseToken then fail ''JOURNAL_SECRET_REFERENCE_UNKNOWN''
             else Inr (with_lease_token tokenHash (copy_command c)))"

definition unsealCommandArguments :: "known_tokens \<Rightarrow> run_command \<Rightarrow> run_command result" where
  "unsealCommandArguments known c =
     (case lease_token c of
        None \<Rightarrow> Inr (copy_command c)
      | Some tokenHash \<Rightarrow>
          if \<not> HASH_PATTERN tokenHash then fail ''JOURNAL_CORRUPT''
          else case map_of known tokenHash of
                 None \<Rightarrow> fail ''JOURNAL_SECRET_REFERENCE_UNKNOWN''
               | Some leaseToken \<Rightarrow> Inr (with_lease_token leaseToken (copy_command c)))"

section \<open>Envelopes\<close>

definition intentEnvelope :: "journal_intent \<Rightarrow> json" where
  "intentEnvelope i = JObject
     [(''journalVersion'', jnat (ji_journalVersion i)), (''intentId'', JString (ji_intentId i)),
      (''command'', JObject [(''name'', JString (command_name (ji_command i))), (''version'', jnat (ji_journalVersion i))]),
      (''principal'', principal_json (command_principal (ji_command i)) (ji_participantVersionIds i)),
      (''arguments'', JArray (command_arguments secret_reference (ji_command i))),
      (''lease'', JObject [(''hmacKeyId'', JString (ji_leaseKeyId i))]),
      (''generationTapeStart'', JObject [(''idIndex'', jnat 0), (''timestampIndex'', jnat 0), (''leaseIndex'', jnat 0)])]"

definition generated_json :: "generated_values \<Rightarrow> json" where
  "generated_json g = JObject [(''ids'', strings_json (gv_ids g)), (''timestamps'', strings_json (gv_timestamps g)),
     (''leaseCounterCount'', jnat (gv_leaseCounterCount g))]"

definition errorEnvelope :: "string \<Rightarrow> string \<times> json \<Rightarrow> json" where
  "errorEnvelope code explanation = JObject
     [(''name'', JString ''ExerciseServiceError''), (''message'', JString (fst explanation)), (''code'', JString code),
      (''details'', snd explanation)]"

definition ApiErrorCode :: "string list" where
  "ApiErrorCode =
     [''VALIDATION_FAILED'', ''EPISODE_NOT_FOUND'', ''EPISODE_VERSION_CONFLICT'', ''EPISODE_STATE_CONFLICT'', ''EVIDENCE_NOT_OBSERVED'',
      ''EVIDENCE_NOT_RELEVANT'', ''SCENARIO_NOT_FOUND'', ''SCENARIO_VERSION_NOT_FOUND'', ''SCENARIO_VERSION_CONFLICT'',
      ''SCENARIO_STATE_CONFLICT'', ''AGENT_NOT_FOUND'', ''AGENT_VERSION_NOT_FOUND'', ''AGENT_VERSION_CONFLICT'', ''RUN_NOT_FOUND'',
      ''RUN_AGENT_NOT_FOUND'', ''RUN_VERSION_CONFLICT'', ''RUN_STATE_CONFLICT'', ''RUN_ROLE_CONFLICT'', ''TASK_NOT_FOUND'',
      ''TASK_VERSION_CONFLICT'', ''TASK_STATE_CONFLICT'', ''TASK_LEASE_STALE'', ''TASK_LEASE_EXPIRED'', ''TASK_LEASE_NOT_EXTENDED'',
      ''TASK_LEASE_MAX_EXCEEDED'', ''INVALID_TASK_LEASE_WINDOW'', ''RESOURCE_NOT_ISSUED'', ''MESSAGE_NOT_FOUND'',
      ''MESSAGE_REPLY_CONFLICT'', ''MESSAGE_RECIPIENT_CONFLICT'', ''RECEIPT_REFERENCE_CONFLICT'', ''ARTIFACT_NOT_FOUND'',
      ''ARTIFACT_KEY_CONFLICT'', ''ARTIFACT_BASE_CONFLICT'', ''SUBMISSION_NOT_FOUND'', ''SUBMISSION_CONFLICT'',
      ''FEEDBACK_GRANT_NOT_FOUND'', ''FEEDBACK_GRANT_VERSION_CONFLICT'', ''FEEDBACK_GRANT_REVOKED'', ''FEEDBACK_GRANT_SCOPE_MISMATCH'',
      ''FEEDBACK_GRANT_EXPIRED'', ''FEEDBACK_GRANT_EXHAUSTED'', ''RECEIPT_CURSOR_CONFLICT'', ''RECEIPT_CHAIN_CONFLICT'',
      ''IDEMPOTENCY_CONFLICT'', ''NOT_AUTHORIZED'', ''FORBIDDEN'', ''INTERNAL_ERROR'']"

text \<open>\<open>None\<close> for what is no domain error: a \<open>TypeError\<close> or a \<open>RangeError\<close>.\<close>

fun normalizeDomainError :: "domain_error \<Rightarrow> string option" where
  "normalizeDomainError (DomainError c) =
     (if c = ''TypeError'' \<or> c = ''RangeError'' then None else Some (if c \<in> set ApiErrorCode then c else ''VALIDATION_FAILED''))"

datatype execution_outcome = Succeeded response | Rejected string

record command_execution =
  ce_outcome :: execution_outcome
  ce_resultHash :: string
  ce_generated :: generated_values

fun outcomeEnvelope :: "journal_writer \<Rightarrow> (string \<Rightarrow> string \<times> json) \<Rightarrow> execution_outcome \<Rightarrow> generated_values \<Rightarrow> json" where
  "outcomeEnvelope W explain (Succeeded r) g = JObject
     [(''journalVersion'', jnat JOURNAL_VERSION), (''status'', JString ''succeeded''),
      (''result'', response_json (jw_environment W) r), (''error'', JNull), (''generated'', generated_json g)]"
| "outcomeEnvelope W explain (Rejected c) g = JObject
     [(''journalVersion'', jnat JOURNAL_VERSION), (''status'', JString ''rejected''),
      (''result'', JNull), (''error'', errorEnvelope c (explain c)), (''generated'', generated_json g)]"

fun outcome_status :: "execution_outcome \<Rightarrow> string" where
  "outcome_status (Succeeded r) = ''succeeded''"
| "outcome_status (Rejected c) = ''rejected''"

fun outcome_error :: "execution_outcome \<Rightarrow> string option" where
  "outcome_error (Succeeded r) = None"
| "outcome_error (Rejected c) = Some c"

section \<open>The generation tape\<close>

text \<open>
  A process counts the elements of its factories by the counters of the service, so that a process which has replayed a
  journal goes on behind the elements that the journal used up. The index of a lease token counts from the start of the
  command.
\<close>

definition tape_token :: "journal_writer \<Rightarrow> string \<Rightarrow> string \<Rightarrow> nat \<Rightarrow> string" where
  "tape_token W intentId key i = ''wlt_'' @ jw_hmac W key (intentId @ '':'' @ nat_text i)"

definition key_of :: "journal_writer \<Rightarrow> string \<Rightarrow> string" where
  "key_of W keyId = (case map_of (jw_leaseHmacKeys W) keyId of None \<Rightarrow> [] | Some key \<Rightarrow> key)"

definition live_surroundings :: "journal_writer \<Rightarrow> journal_intent \<Rightarrow> service \<Rightarrow> environment" where
  "live_surroundings W i s = (jw_environment W)\<lparr>env_leaseTokenFactory :=
     (\<lambda>n. tape_token W (ji_intentId i) (key_of W (ji_leaseKeyId i)) (n - tk_tokens s))\<rparr>"

definition tape_item :: "string list \<Rightarrow> nat \<Rightarrow> string" where
  "tape_item xs i = (if i < length xs then xs ! i else [])"

definition tape_time :: "string list \<Rightarrow> nat \<Rightarrow> int" where
  "tape_time ts i = (case date_parse_iso (tape_item ts i) of None \<Rightarrow> 0 | Some t \<Rightarrow> t)"

definition replay_surroundings :: "journal_writer \<Rightarrow> journal_intent \<Rightarrow> generated_values \<Rightarrow> service \<Rightarrow> environment" where
  "replay_surroundings W i g s = (live_surroundings W i s)\<lparr>
     env_idFactory := (\<lambda>n. tape_item (gv_ids g) (n - tk_ids s)),
     env_now := (\<lambda>n. tape_time (gv_timestamps g) (n - tk_clock s))\<rparr>"

text \<open>What a command that went from one state to another has drawn.\<close>

definition drawn :: "environment \<Rightarrow> service \<Rightarrow> service \<Rightarrow> generated_values" where
  "drawn E s t =
     \<lparr>gv_ids = map (env_idFactory E) [tk_ids s ..< tk_ids t],
      gv_timestamps = map (\<lambda>n. toISOString (env_now E n)) [tk_clock s ..< tk_clock t],
      gv_leaseCounterCount = tk_tokens t - tk_tokens s\<rparr>"

definition date_in_range :: "int \<Rightarrow> bool" where
  "date_in_range t \<longleftrightarrow> abs t \<le> 8640000000000000"

text \<open>The checks of the tape while it records, and while it plays back.\<close>

definition live_error :: "environment \<Rightarrow> service \<Rightarrow> service \<Rightarrow> string option" where
  "live_error E s t =
     (if list_all (\<lambda>x. 1 \<le> length x \<and> length x \<le> 512) (gv_ids (drawn E s t))
         \<and> list_all (\<lambda>n. date_in_range (env_now E n)) [tk_clock s ..< tk_clock t]
         \<and> length (gv_ids (drawn E s t)) \<le> MAX_GENERATED_VALUES \<and> length (gv_timestamps (drawn E s t)) \<le> MAX_GENERATED_VALUES
      then None else Some ''JOURNAL_INVALID_CONFIGURATION'')"

definition tape_overrun :: "generated_values \<Rightarrow> generated_values \<Rightarrow> bool" where
  "tape_overrun g used \<longleftrightarrow> length (gv_ids g) < length (gv_ids used) \<or> length (gv_timestamps g) < length (gv_timestamps used)
     \<or> gv_leaseCounterCount g < gv_leaseCounterCount used"

definition tape_finished :: "generated_values \<Rightarrow> generated_values \<Rightarrow> bool" where
  "tape_finished g used \<longleftrightarrow> length (gv_ids used) = length (gv_ids g) \<and> length (gv_timestamps used) = length (gv_timestamps g)
     \<and> gv_leaseCounterCount used = gv_leaseCounterCount g"

section \<open>Execution\<close>

definition remember_tokens :: "journal_writer \<Rightarrow> journal_intent \<Rightarrow> nat \<Rightarrow> known_tokens \<Rightarrow> known_tokens" where
  "remember_tokens W i n known =
     fold (\<lambda>k. let leaseToken = tape_token W (ji_intentId i) (key_of W (ji_leaseKeyId i)) k
               in map_put (digest W (JString leaseToken)) leaseToken) [0 ..< n] known"

definition finish_execution ::
  "journal_writer \<Rightarrow> run_command \<Rightarrow> service \<Rightarrow> response result \<Rightarrow> generated_values \<Rightarrow> command_execution result" where
  "finish_execution W c s r g =
     (let close = (\<lambda>x. Inr \<lparr>ce_outcome = x, ce_resultHash = digest W (outcomeEnvelope W (jw_explain W (copy_command c) s) x g), ce_generated = g\<rparr>)
      in case r of
           Inr y \<Rightarrow> close (Succeeded y)
         | Inl e \<Rightarrow> (case normalizeDomainError e of None \<Rightarrow> Inl e | Some code \<Rightarrow> close (Rejected code)))"

text \<open>
  \<open>#execute\<close>. An error of the tape is thrown out of the method when it happens; the process gives the service up
  then, so that the model, which finds the error after the method has run, leaves another state behind that nothing reads.
\<close>

definition execute ::
  "journal_writer \<Rightarrow> case_pack \<Rightarrow> journal_intent \<Rightarrow> run_command \<Rightarrow> generated_values option \<Rightarrow> service \<times> known_tokens
     \<Rightarrow> command_execution result \<times> service \<times> known_tokens" where
  "execute W K i c expected state =
     (case state of (s, known) \<Rightarrow>
        let E = (case expected of None \<Rightarrow> live_surroundings W i s | Some g \<Rightarrow> replay_surroundings W i g s);
            (r, t) = exec E K c s;
            used = drawn E s t;
            state' = (t, remember_tokens W i (gv_leaseCounterCount used) known)
        in case expected of
             None \<Rightarrow> (case live_error E s t of Some e \<Rightarrow> (fail e, state') | None \<Rightarrow> (finish_execution W c s r used, state'))
           | Some g \<Rightarrow>
               if tape_overrun g used then (fail ''JOURNAL_REPLAY_DRIFT'', state')
               else if \<not> list_all (\<lambda>x. date_parse_iso x \<noteq> None) (take (length (gv_timestamps used)) (gv_timestamps g))
               then (fail ''RangeError'', state')
               else (case r of
                  Inl e \<Rightarrow> if normalizeDomainError e = None then (Inl e, state')
                           else if \<not> tape_finished g used then (fail ''JOURNAL_REPLAY_DRIFT'', state')
                           else (finish_execution W c s r used, state')
                | Inr y \<Rightarrow> if \<not> tape_finished g used then (fail ''JOURNAL_REPLAY_DRIFT'', state')
                           else (finish_execution W c s r used, state')))"

section \<open>The database\<close>

text \<open>
  An insert stores its row and answers, stores it while the answer is lost, or does not store it. The number of a row
  is used up in every case. Identifiers of intents are of type \<open>uuid\<close>, which is read back in lower case, and unique, as
  is the outcome of an intent.
\<close>

definition uuid_text :: "string \<Rightarrow> string" where
  "uuid_text s = map (\<lambda>c. if c \<in> set ''ABCDEF'' then char_of ((of_char c :: nat) + 32) else c) s"

datatype insert_reply = Stored | Stored_unheard | Not_stored

record journal_database =
  jd_rows :: "journal_row list"
  jd_intentSeq :: nat
  jd_outcomeSeq :: nat

definition empty_journal :: journal_database where
  "empty_journal = \<lparr>jd_rows = [], jd_intentSeq = 0, jd_outcomeSeq = 0\<rparr>"

definition appendIntent :: "insert_reply \<Rightarrow> journal_intent \<Rightarrow> journal_database \<Rightarrow> unit result \<times> journal_database" where
  "appendIntent reply i db =
     (let n = Suc (jd_intentSeq db);
          stored = i\<lparr>ji_sequence := n, ji_intentId := uuid_text (ji_intentId i)\<rparr>;
          refused = reply = Not_stored \<or> list_ex (\<lambda>r. ji_intentId (fst r) = ji_intentId stored) (jd_rows db)
      in (if refused \<or> reply = Stored_unheard then fail ''JOURNAL_UNAVAILABLE'' else Inr (),
          db\<lparr>jd_intentSeq := n, jd_rows := (if refused then jd_rows db else jd_rows db @ [(stored, None)])\<rparr>))"

definition outcome_of :: "nat \<Rightarrow> command_execution \<Rightarrow> journal_outcome" where
  "outcome_of n x = \<lparr>jo_sequence = n, jo_status = outcome_status (ce_outcome x), jo_resultHash = ce_resultHash x,
     jo_errorCode = outcome_error (ce_outcome x), jo_generated = ce_generated x\<rparr>"

definition awaits :: "string \<Rightarrow> journal_row \<Rightarrow> bool" where
  "awaits intentId r \<longleftrightarrow> ji_intentId (fst r) = uuid_text intentId \<and> snd r = None"

definition appendOutcome ::
  "insert_reply \<Rightarrow> string \<Rightarrow> command_execution \<Rightarrow> journal_database \<Rightarrow> unit result \<times> journal_database" where
  "appendOutcome reply intentId x db =
     (let n = Suc (jd_outcomeSeq db);
          refused = reply = Not_stored \<or> \<not> list_ex (awaits intentId) (jd_rows db)
      in (if refused \<or> reply = Stored_unheard then fail ''JOURNAL_UNAVAILABLE'' else Inr (),
          db\<lparr>jd_outcomeSeq := n, jd_rows := (if refused then jd_rows db
            else map (\<lambda>r. if awaits intentId r then (fst r, Some (outcome_of n x)) else r) (jd_rows db))\<rparr>))"

section \<open>Commands\<close>

record journal_service =
  js_inner :: service
  js_knownLeaseTokens :: known_tokens
  js_ready :: bool
  js_closed :: bool
  js_intentIds :: nat

definition assertReady :: "journal_service \<Rightarrow> unit result" where
  "assertReady j = (if \<not> js_ready j \<or> js_closed j then fail ''JOURNAL_UNREADY'' else Inr ())"

definition new_intent :: "journal_writer \<Rightarrow> string \<Rightarrow> string list \<Rightarrow> run_command \<Rightarrow> journal_intent" where
  "new_intent W intentId versions sealed =
     (let i = \<lparr>ji_sequence = 0, ji_intentId = intentId, ji_journalVersion = JOURNAL_VERSION, ji_requestHash = [],
               ji_participantVersionIds = versions, ji_command = sealed, ji_leaseKeyId = jw_activeLeaseHmacKeyId W\<rparr>
      in i\<lparr>ji_requestHash := digest W (intentEnvelope i)\<rparr>)"

definition answer :: "execution_outcome \<Rightarrow> response result" where
  "answer x = (case x of Succeeded r \<Rightarrow> Inr r | Rejected c \<Rightarrow> fail c)"

definition unready :: "journal_service \<Rightarrow> journal_service" where
  "unready j = j\<lparr>js_ready := False\<rparr>"

text \<open>\<open>#mutate\<close>, with the answers of the database to its two inserts.\<close>

definition mutate ::
  "journal_writer \<Rightarrow> case_pack \<Rightarrow> insert_reply \<Rightarrow> insert_reply \<Rightarrow> string list \<Rightarrow> run_command
     \<Rightarrow> journal_service \<times> journal_database \<Rightarrow> response result \<times> journal_service \<times> journal_database" where
  "mutate W K reply1 reply2 versions c p =
     (case p of (j, db) \<Rightarrow>
        case and_then (assertReady j) (\<lambda>_.
             and_then (check_principal (command_principal c) versions) (\<lambda>_.
             sealCommandArguments W (js_knownLeaseTokens j) c)) of
          Inl e \<Rightarrow> (Inl e, j, db)
        | Inr sealed \<Rightarrow>
            let intentId = jw_intentIdFactory W (js_intentIds j); j = j\<lparr>js_intentIds := Suc (js_intentIds j)\<rparr>
            in if \<not> UUID_PATTERN intentId then (fail ''JOURNAL_INVALID_CONFIGURATION'', j, db)
               else
                 let i = new_intent W intentId versions sealed; (written, db1) = appendIntent reply1 i db
                 in case written of
                      Inl e \<Rightarrow> (Inl e, unready j, db1)
                    | Inr _ \<Rightarrow>
                        let (x, s, known) = execute W K i c None (js_inner j, js_knownLeaseTokens j);
                            j = j\<lparr>js_inner := s, js_knownLeaseTokens := known\<rparr>
                        in case x of
                             Inl e \<Rightarrow> (fail ''JOURNAL_UNAVAILABLE'', unready j, db1)
                           | Inr execution \<Rightarrow>
                               let (recorded, db2) = appendOutcome reply2 intentId execution db1
                               in case recorded of
                                    Inl e \<Rightarrow> (fail ''JOURNAL_UNAVAILABLE'', unready j, db2)
                                  | Inr _ \<Rightarrow> (answer (ce_outcome execution), j, db2))"

text \<open>The methods that change nothing.\<close>

definition query :: "journal_service \<Rightarrow> (service, 'a) action \<Rightarrow> 'a result" where
  "query j m = and_then (assertReady j) (\<lambda>_. fst (m (js_inner j)))"

definition isReady :: "journal_service \<Rightarrow> bool" where
  "isReady j \<longleftrightarrow> js_ready j \<and> \<not> js_closed j"

text \<open>\<open>#close\<close>; the lock and the connection are released.\<close>

definition close_service :: "journal_service \<Rightarrow> journal_service" where
  "close_service j = j\<lparr>js_ready := False, js_closed := True\<rparr>"

section \<open>Recovery\<close>

definition outcome_valid :: "journal_outcome \<Rightarrow> bool" where
  "outcome_valid x \<longleftrightarrow> (jo_status x = ''succeeded'' \<or> jo_status x = ''rejected'') \<and> HASH_PATTERN (jo_resultHash x)
     \<and> (jo_status x = ''succeeded'' \<longleftrightarrow> jo_errorCode x = None)
     \<and> short_array (gv_ids (jo_generated x)) \<and> short_array (gv_timestamps (jo_generated x))"

definition row_valid :: "journal_writer \<Rightarrow> journal_row \<Rightarrow> bool" where
  "row_valid W r \<longleftrightarrow> (case r of (i, x) \<Rightarrow>
     UUID_PATTERN (ji_intentId i) \<and> HASH_PATTERN (ji_requestHash i) \<and> KEY_ID_PATTERN (ji_leaseKeyId i)
     \<and> ji_journalVersion i = JOURNAL_VERSION
     \<and> check_principal (command_principal (ji_command i)) (ji_participantVersionIds i) = Inr ()
     \<and> digest W (intentEnvelope i) = ji_requestHash i
     \<and> (case x of None \<Rightarrow> True | Some y \<Rightarrow> outcome_valid y))"

definition same_outcome :: "command_execution \<Rightarrow> journal_outcome \<Rightarrow> bool" where
  "same_outcome x y \<longleftrightarrow> outcome_status (ce_outcome x) = jo_status y \<and> ce_resultHash x = jo_resultHash y
     \<and> (case ce_outcome x of Succeeded _ \<Rightarrow> True | Rejected c \<Rightarrow> jo_errorCode y = Some c)"

text \<open>The loop of \<open>#recover\<close>; \<open>replies\<close> are the answers to the outcomes of pending intents, by the intents' numbers.\<close>

fun recover_rows ::
  "journal_writer \<Rightarrow> case_pack \<Rightarrow> (nat \<Rightarrow> insert_reply) \<Rightarrow> nat \<Rightarrow> journal_row list \<Rightarrow> service \<times> known_tokens \<Rightarrow> journal_database
     \<Rightarrow> (service \<times> known_tokens) result \<times> journal_database" where
  "recover_rows W K replies previous [] state db = (Inr state, db)"
| "recover_rows W K replies previous ((i, outcome) # rows) state db =
     (if ji_sequence i \<le> previous \<or> map_of (jw_leaseHmacKeys W) (ji_leaseKeyId i) = None then (fail ''JOURNAL_CORRUPT'', db)
      else case unsealCommandArguments (snd state) (ji_command i) of
        Inl e \<Rightarrow> (Inl e, db)
      | Inr c \<Rightarrow>
          (case outcome of
             None \<Rightarrow>
               (case execute W K i c None state of
                  (Inl e, _) \<Rightarrow> (Inl e, db)
                | (Inr x, state') \<Rightarrow>
                    (case appendOutcome (replies (ji_sequence i)) (ji_intentId i) x db of
                       (Inl e, db') \<Rightarrow> (Inl e, db')
                     | (Inr _, db') \<Rightarrow> recover_rows W K replies (ji_sequence i) rows state' db'))
           | Some y \<Rightarrow>
               (case execute W K i c (Some (jo_generated y)) state of
                  (Inl e, _) \<Rightarrow> (Inl e, db)
                | (Inr x, state') \<Rightarrow>
                    if \<not> same_outcome x y then (fail ''JOURNAL_REPLAY_DRIFT'', db)
                    else recover_rows W K replies (ji_sequence i) rows state' db)))"

definition recover ::
  "journal_writer \<Rightarrow> case_pack \<Rightarrow> (nat \<Rightarrow> insert_reply) \<Rightarrow> journal_database \<Rightarrow> (service \<times> known_tokens) result \<times> journal_database" where
  "recover W K replies db =
     (if \<not> list_all (row_valid W) (jd_rows db) then (fail ''JOURNAL_CORRUPT'', db)
      else recover_rows W K replies 0 (jd_rows db) (new_service (jw_environment W), []) db)"

definition writer_valid :: "journal_writer \<Rightarrow> bool" where
  "writer_valid W \<longleftrightarrow> KEY_ID_PATTERN (jw_activeLeaseHmacKeyId W)
     \<and> list_all (\<lambda>(keyId, key). KEY_ID_PATTERN keyId \<and> 32 \<le> length key \<and> length key \<le> 4096) (jw_leaseHmacKeys W)
     \<and> map_of (jw_leaseHmacKeys W) (jw_activeLeaseHmacKeyId W) \<noteq> None"

definition journal_error :: "domain_error \<Rightarrow> domain_error" where
  "journal_error e = (if e \<in> DomainError ` set [''JOURNAL_INVALID_CONFIGURATION'', ''JOURNAL_WRITER_LOCKED'', ''JOURNAL_UNAVAILABLE'',
       ''JOURNAL_CORRUPT'', ''JOURNAL_REPLAY_DRIFT'', ''JOURNAL_UNREADY'', ''JOURNAL_SECRET_REFERENCE_UNKNOWN'']
     then e else DomainError ''JOURNAL_UNAVAILABLE'')"

text \<open>A new process: \<open>lock\<close> is what the database answers to the request for the lock of the writer.\<close>

definition create_service ::
  "journal_writer \<Rightarrow> case_pack \<Rightarrow> bool \<Rightarrow> (nat \<Rightarrow> insert_reply) \<Rightarrow> journal_database \<Rightarrow> journal_service result \<times> journal_database" where
  "create_service W K lock replies db =
     (if \<not> writer_valid W then (fail ''JOURNAL_INVALID_CONFIGURATION'', db)
      else if \<not> lock then (fail ''JOURNAL_WRITER_LOCKED'', db)
      else case recover W K replies db of
        (Inl e, db') \<Rightarrow> (Inl (journal_error e), db')
      | (Inr (s, known), db') \<Rightarrow>
          (Inr \<lparr>js_inner = s, js_knownLeaseTokens = known, js_ready = True, js_closed = False, js_intentIds = 0\<rparr>, db'))"

end
