(* ===== verification/JournalRecovery.thy ===== *)
theory JournalRecovery
  imports CommandJournal
begin

text \<open>
  What the journal of \<open>CommandJournal\<close> keeps through calls, crashes and restarts: a new process finds the service and the
  lease tokens that the last one served, and a call that a crash cut short takes effect at most once.
\<close>

section \<open>Writers\<close>

text \<open>
  A later writer has the digests, the texts and the lease keys of an earlier one, and may have other factories and more keys.
  The digest of \<open>node:crypto\<close> has 64 hexadecimal digits, \<open>randomUUID\<close> gives lower case, and the clock shows years of four digits.
\<close>

definition succeeds_writer :: "journal_writer \<Rightarrow> journal_writer \<Rightarrow> bool" where
  "succeeds_writer W V \<longleftrightarrow> env_sha256 (jw_environment V) = env_sha256 (jw_environment W)
     \<and> env_chinese (jw_environment V) = env_chinese (jw_environment W) \<and> jw_hmac V = jw_hmac W \<and> jw_explain V = jw_explain W
     \<and> (\<forall>k v. map_of (jw_leaseHmacKeys W) k = Some v \<longrightarrow> map_of (jw_leaseHmacKeys V) k = Some v)"

definition sound_writer :: "journal_writer \<Rightarrow> bool" where
  "sound_writer W \<longleftrightarrow> writer_valid W
     \<and> (\<forall>x. length (env_sha256 (jw_environment W) x) = 64 \<and> list_all is_hex_lower (env_sha256 (jw_environment W) x))
     \<and> (\<forall>n. uuid_text (jw_intentIdFactory W n) = jw_intentIdFactory W n)
     \<and> (\<forall>n. env_now (jw_environment W) n \<in> four_digit_years)"

lemma succeeds_writer_refl: "succeeds_writer W W"
  by (simp add: succeeds_writer_def)

lemma succeeds_writer_trans: "succeeds_writer U V \<Longrightarrow> succeeds_writer V W \<Longrightarrow> succeeds_writer U W"
  by (simp add: succeeds_writer_def)

lemma succeeds_digest:
  assumes "succeeds_writer W V"
  shows "digest V = digest W" and "tape_token V = tape_token W" and "new_service (jw_environment V) = new_service (jw_environment W)"
    and "response_json (jw_environment V) = response_json (jw_environment W)"
    and "outcomeEnvelope V = outcomeEnvelope W"
proof -
  have b: "bilingual (jw_environment V) = bilingual (jw_environment W)" "hash (jw_environment V) = hash (jw_environment W)"
    using assms by (simp_all add: fun_eq_iff succeeds_writer_def bilingual_def hash_def)
  show "digest V = digest W" "tape_token V = tape_token W"
    using assms by (simp_all add: fun_eq_iff succeeds_writer_def digest_def tape_token_def)
  have "env_chinese (jw_environment V) = env_chinese (jw_environment W)" using assms by (simp add: succeeds_writer_def)
  then show "new_service (jw_environment V) = new_service (jw_environment W)"
    by (simp add: new_service_def seed_version_def seed_base_def seed_scenario_def defaultRoles_def default_role_def b)
  have i: "validation_issue_json (jw_environment V) x = validation_issue_json (jw_environment W) x" for x
    by (cases x) (simp_all add: b)
  have v: "scenario_version_json (jw_environment V) x = scenario_version_json (jw_environment W) x" for x
    by (simp add: scenario_version_json_def i cong: map_cong)
  have r: "response_json (jw_environment V) x = response_json (jw_environment W) x" for x by (cases x) (simp_all add: v)
  then show "response_json (jw_environment V) = response_json (jw_environment W)" by (rule ext)
  have "outcomeEnvelope V e x g = outcomeEnvelope W e x g" for e x g by (cases x) (simp_all add: r)
  then show "outcomeEnvelope V = outcomeEnvelope W" by (intro ext)
qed

lemma digest_pattern: "sound_writer W \<Longrightarrow> HASH_PATTERN (digest W v)"
  by (simp add: sound_writer_def HASH_PATTERN_def digest_def)

section \<open>Sealing\<close>

lemma seal_unseal:
  assumes "sealCommandArguments W known c = Inr x" and "sound_writer W"
  shows "unsealCommandArguments known x = Inr (copy_command c)" and "command_principal x = command_principal c"
    and "lease_token x = Some h \<Longrightarrow> HASH_PATTERN h"
proof -
  note d = digest_pattern [OF assms(2)]
  show "unsealCommandArguments known x = Inr (copy_command c)"
    using assms(1) d by (auto simp: sealCommandArguments_def unsealCommandArguments_def Let_def with_own_token
      split: option.splits if_splits)
  show "command_principal x = command_principal c"
    using assms(1) by (auto simp: sealCommandArguments_def Let_def split: option.splits if_splits)
  show "HASH_PATTERN h" if "lease_token x = Some h"
    using assms(1) d that by (auto simp: sealCommandArguments_def Let_def split: option.splits if_splits)
qed

section \<open>The tape\<close>

lemma date_of_text: "t \<in> four_digit_years \<Longrightarrow> date_parse_iso (toISOString t) = Some t"
  using toEpoch_toISOString [of t] by (auto simp: toEpoch_def split: option.splits if_splits)

lemma live_fields [simp]:
  "env_idFactory (live_surroundings W i s) = env_idFactory (jw_environment W)" "env_now (live_surroundings W i s) = env_now (jw_environment W)"
  "env_sha256 (live_surroundings W i s) = env_sha256 (jw_environment W)" "env_chinese (live_surroundings W i s) = env_chinese (jw_environment W)"
  by (simp_all add: live_surroundings_def)

lemma key_of_successor:
  "succeeds_writer W V \<Longrightarrow> map_of (jw_leaseHmacKeys W) k \<noteq> None \<Longrightarrow> key_of V k = key_of W k"
  by (auto simp: succeeds_writer_def key_of_def)

lemma tape_reads:
  assumes "succeeds_writer W V" and "\<forall>n. env_now (jw_environment W) n \<in> four_digit_years"
    and "map_of (jw_leaseHmacKeys W) (ji_leaseKeyId i) \<noteq> None" and "E = live_surroundings W i s"
  shows "drawn_alike E (replay_surroundings V i (drawn E s t) s) s t"
proof -
  have item: "tape_item (map f [a ..< b]) (n - a) = f n" if "a \<le> n" "n < b" for f a b and n :: nat
    using that by (simp add: tape_item_def diff_less_mono)
  have "tape_time (map (\<lambda>n. toISOString (env_now E n)) [tk_clock s ..< tk_clock t]) (n - tk_clock s) = env_now E n"
    if "tk_clock s \<le> n" "n < tk_clock t" for n
    using that date_of_text assms(2,4) by (simp add: tape_time_def item)
  then show ?thesis
    using succeeds_digest(2) [OF assms(1)] key_of_successor [OF assms(1,3)]
    by (simp add: drawn_alike_def replay_surroundings_def drawn_def item assms(4)) (simp add: live_surroundings_def)
qed

lemma drawn_same:
  assumes "drawn_alike E F s t"
  shows "drawn F s t = drawn E s t"
  using assms by (simp add: drawn_def drawn_alike_def)

lemma remember_same:
  assumes "succeeds_writer W V" and "map_of (jw_leaseHmacKeys W) (ji_leaseKeyId i) \<noteq> None"
  shows "remember_tokens V i n known = remember_tokens W i n known"
  by (simp add: remember_tokens_def succeeds_digest [OF assms(1)] key_of_successor [OF assms])

text \<open>A live execution, and the same execution from its tape by a later writer.\<close>

lemma execute_live:
  assumes "execute W K i c None (s, known) = (Inr x, t, known')"
  shows "\<exists>r. exec (live_surroundings W i s) K c s = (r, t) \<and> live_error (live_surroundings W i s) s t = None
    \<and> finish_execution W c s r (drawn (live_surroundings W i s) s t) = Inr x
    \<and> known' = remember_tokens W i (tk_tokens t - tk_tokens s) known"
  using assms by (auto simp: execute_def Let_def drawn_def split: prod.splits option.splits)

lemma finish_execution_Inr:
  assumes "finish_execution W c s r g = Inr x"
  shows "ce_generated x = g" and "(\<exists>y. r = Inr y \<and> ce_outcome x = Succeeded y) \<or> (\<exists>e code. r = Inl e \<and> normalizeDomainError e = Some code \<and> ce_outcome x = Rejected code)"
    and "ce_resultHash x = digest W (outcomeEnvelope W (jw_explain W (copy_command c) s) (ce_outcome x) g)"
  using assms by (auto simp: finish_execution_def Let_def split: sum.splits option.splits)

lemma execute_replays:
  assumes "execute W K i c None (s, known) = (Inr x, t, known')" and "succeeds_writer W V"
    and "\<forall>n. env_now (jw_environment W) n \<in> four_digit_years" and "map_of (jw_leaseHmacKeys W) (ji_leaseKeyId i) \<noteq> None"
  shows "execute V K i (copy_command c) (Some (ce_generated x)) (s, known) = (Inr x, t, known')"
proof -
  define E where "E = live_surroundings W i s"
  obtain r where r: "exec E K c s = (r, t)" "finish_execution W c s r (drawn E s t) = Inr x"
    and known': "known' = remember_tokens W i (tk_tokens t - tk_tokens s) known"
    using execute_live [OF assms(1)] by (auto simp: E_def)
  have g: "ce_generated x = drawn E s t" using finish_execution_Inr(1) [OF r(2)] .
  define F where "F = replay_surroundings V i (drawn E s t) s"
  have alike: "drawn_alike E F s t" unfolding F_def by (rule tape_reads [OF assms(2-4) E_def])
  have "env_sha256 F = env_sha256 E" "env_chinese F = env_chinese E"
    using assms(2) by (simp_all add: F_def E_def replay_surroundings_def succeeds_writer_def)
  from exec_replays(2) [OF this r(1) alike] have f: "exec F K (copy_command c) s = (r, t)" by (simp add: exec_copy)
  have times: "list_all (\<lambda>x. date_parse_iso x \<noteq> None) (gv_timestamps (drawn E s t))"
    using date_of_text assms(3) by (simp add: drawn_def E_def list_all_iff)
  have fin: "finish_execution V (copy_command c) s r (drawn E s t) = Inr x"
    using r(2) succeeds_digest [OF assms(2)] assms(2) by (simp add: finish_execution_def succeeds_writer_def)
  have ok: "r = Inl e \<Longrightarrow> normalizeDomainError e \<noteq> None" for e using finish_execution_Inr(2) [OF r(2)] by auto
  have known: "remember_tokens V i (gv_leaseCounterCount (drawn E s t)) known = known'"
    by (simp add: known' drawn_def remember_same [OF assms(2,4)])
  show ?thesis
  proof (cases r)
    case (Inl e)
    then show ?thesis using ok [OF Inl] f times fin known
      by (simp add: execute_def g F_def [symmetric] drawn_same [OF alike] Let_def tape_overrun_def tape_finished_def)
  next
    case (Inr y)
    then show ?thesis using f times fin known
      by (simp add: execute_def g F_def [symmetric] drawn_same [OF alike] Let_def tape_overrun_def tape_finished_def)
  qed
qed

section \<open>Rows\<close>

definition last_number :: "nat \<Rightarrow> journal_row list \<Rightarrow> nat" where
  "last_number n rows = (if rows = [] then n else ji_sequence (fst (List.last rows)))"

lemma last_number_simps [simp]:
  "last_number n [] = n" "last_number n (rows @ [r]) = ji_sequence (fst r)" "last_number n (r # rows) = last_number (ji_sequence (fst r)) rows"
  by (simp_all add: last_number_def)

lemma recover_append:
  "recover_rows W K a n (xs @ ys) st db =
     (case recover_rows W K a n xs st db of (Inl e, db') \<Rightarrow> (Inl e, db')
      | (Inr st', db') \<Rightarrow> recover_rows W K a (last_number n xs) ys st' db')"
proof (induction xs arbitrary: n st db)
  case (Cons r xs)
  obtain i x where [simp]: "r = (i, x)" by (cases r)
  show ?case by (cases x) (auto simp: Cons.IH split: prod.splits sum.splits)
qed simp

text \<open>Rows that every later writer replays to the same service and tokens.\<close>

definition replayed :: "journal_writer \<Rightarrow> case_pack \<Rightarrow> journal_row list \<Rightarrow> service \<times> known_tokens \<Rightarrow> bool" where
  "replayed W K rows st \<longleftrightarrow> (\<forall>V. succeeds_writer W V \<longrightarrow> sound_writer V \<longrightarrow>
     list_all (row_valid V) rows
     \<and> (\<forall>a db. recover_rows V K a 0 rows (new_service (jw_environment V), []) db = (Inr st, db)))"

lemma replayedD:
  assumes "replayed W K rows st" and "succeeds_writer W V" and "sound_writer V"
  shows "list_all (row_valid V) rows" and "recover_rows V K a 0 rows (new_service (jw_environment V), []) db = (Inr st, db)"
  using assms by (simp_all add: replayed_def)

lemma replayed_later: "replayed W K rows st \<Longrightarrow> succeeds_writer W V \<Longrightarrow> replayed V K rows st"
  unfolding replayed_def using succeeds_writer_trans by blast

lemma row_valid_later:
  assumes "succeeds_writer W V"
  shows "row_valid V r = row_valid W r"
  by (simp add: row_valid_def succeeds_digest [OF assms])

text \<open>A pending intent: what it unseals to is the call, up to the order of the entries of its objects.\<close>

definition pending :: "journal_writer \<Rightarrow> journal_intent \<Rightarrow> run_command \<Rightarrow> known_tokens \<Rightarrow> bool" where
  "pending W i c known \<longleftrightarrow> unsealCommandArguments known (ji_command i) = Inr (copy_command c)
     \<and> map_of (jw_leaseHmacKeys W) (ji_leaseKeyId i) \<noteq> None \<and> row_valid W (i, None) \<and> uuid_text (ji_intentId i) = ji_intentId i"

lemma pending_later: "pending W i c known \<Longrightarrow> succeeds_writer W V \<Longrightarrow> pending V i c known"
  using row_valid_later [of W V "(i, None)"] by (auto simp: pending_def succeeds_writer_def)

lemma unseal_copied: "unsealCommandArguments known x = Inr c \<Longrightarrow> copy_command c = c"
  by (auto simp: unsealCommandArguments_def split: option.splits if_splits)

lemma outcome_of_valid:
  assumes "execute W K i c None (s, known) = (Inr x, t, known')" and "sound_writer W"
  shows "outcome_valid (outcome_of n x)" and "same_outcome x (outcome_of n x)"
proof -
  obtain r where r: "live_error (live_surroundings W i s) s t = None"
    "finish_execution W c s r (drawn (live_surroundings W i s) s t) = Inr x" using execute_live [OF assms(1)] by auto
  note f = finish_execution_Inr [OF r(2)]
  have "short_array (gv_ids (ce_generated x))" "short_array (gv_timestamps (ce_generated x))"
    using r(1) f(1) by (simp_all add: live_error_def short_array_def split: if_splits)
  then show "outcome_valid (outcome_of n x)"
    using f(2,3) digest_pattern [OF assms(2)] by (auto simp: outcome_valid_def outcome_of_def)
  show "same_outcome x (outcome_of n x)" by (cases "ce_outcome x") (simp_all add: same_outcome_def outcome_of_def)
qed

text \<open>A call adds a row that replays.\<close>

lemma replayed_append:
  assumes rows: "replayed W K rows (s, known)" and p: "pending W i c known" and n: "last_number 0 rows < ji_sequence i"
    and x: "execute W K i c None (s, known) = (Inr x, t, known')" and W: "sound_writer W"
  shows "replayed W K (rows @ [(i, Some (outcome_of m x))]) (t, known')"
  unfolding replayed_def
proof (intro allI impI conjI)
  fix V a db
  assume V: "succeeds_writer W V" "sound_writer V"
  have "row_valid V (i, Some (outcome_of m x))"
    using pending_later [OF p V(1)] outcome_of_valid(1) [OF x W] by (simp add: pending_def row_valid_def)
  then show "list_all (row_valid V) (rows @ [(i, Some (outcome_of m x))])" using replayedD(1) [OF rows V] by simp
  have clock: "\<forall>n. env_now (jw_environment W) n \<in> four_digit_years" and key: "map_of (jw_leaseHmacKeys W) (ji_leaseKeyId i) \<noteq> None"
    using W p by (simp_all add: sound_writer_def pending_def)
  have key': "map_of (jw_leaseHmacKeys V) (ji_leaseKeyId i) \<noteq> None" using pending_later [OF p V(1)] by (simp add: pending_def)
  show "recover_rows V K a 0 (rows @ [(i, Some (outcome_of m x))]) (new_service (jw_environment V), []) db = (Inr (t, known'), db)"
    using replayedD(2) [OF rows V, of a db] n p key' execute_replays [OF x V(1) clock key] outcome_of_valid(2) [OF x W]
    by (simp add: recover_append pending_def outcome_of_def)
qed

section \<open>Histories\<close>

text \<open>
  The processes over one database: each starts from the journal that the ones before it left, may be killed at any time, and
  may find its inserts unanswered.
\<close>

inductive journal_history :: "case_pack \<Rightarrow> journal_writer \<Rightarrow> journal_service option \<Rightarrow> journal_database \<Rightarrow> bool" for K where
  Installed: "sound_writer W \<Longrightarrow> journal_history K W None empty_journal"
| Started: "journal_history K W p db \<Longrightarrow> succeeds_writer W V \<Longrightarrow> sound_writer V \<Longrightarrow>
    create_service V K lock replies db = (Inr j, db') \<Longrightarrow> journal_history K V (Some j) db'"
| Failed: "journal_history K W p db \<Longrightarrow> succeeds_writer W V \<Longrightarrow> sound_writer V \<Longrightarrow>
    create_service V K lock replies db = (Inl e, db') \<Longrightarrow> journal_history K V None db'"
| Called: "journal_history K W (Some j) db \<Longrightarrow> mutate W K reply1 reply2 versions c (j, db) = (x, j', db') \<Longrightarrow>
    journal_history K W (Some j') db'"
| Closed: "journal_history K W (Some j) db \<Longrightarrow> journal_history K W (Some (close_service j)) db"

definition serving :: "journal_service option \<Rightarrow> bool" where
  "serving p \<longleftrightarrow> (case p of None \<Rightarrow> False | Some j \<Rightarrow> js_ready j)"

definition served_by :: "journal_service \<Rightarrow> service \<times> known_tokens" where
  "served_by j = (js_inner j, js_knownLeaseTokens j)"

definition all_answered :: "journal_row list \<Rightarrow> bool" where
  "all_answered rows \<longleftrightarrow> list_all (\<lambda>r. snd r \<noteq> None) rows"

text \<open>At most the last intent is without an outcome, and then no process serves.\<close>

definition journal_ok :: "case_pack \<Rightarrow> journal_writer \<Rightarrow> journal_service option \<Rightarrow> journal_database \<Rightarrow> bool" where
  "journal_ok K W p db \<longleftrightarrow> sound_writer W \<and> last_number 0 (jd_rows db) \<le> jd_intentSeq db \<and>
     (\<exists>rows s known. all_answered rows \<and> replayed W K rows (s, known)
        \<and> (jd_rows db = rows \<and> (serving p \<longrightarrow> served_by (the p) = (s, known))
          \<or> \<not> serving p \<and> (\<exists>i c. jd_rows db = rows @ [(i, None)] \<and> pending W i c known \<and> last_number 0 rows < ji_sequence i)))"

lemma journal_ok_answered:
  assumes "sound_writer W" and "last_number 0 (jd_rows db) \<le> jd_intentSeq db" and "all_answered (jd_rows db)"
    and "replayed W K (jd_rows db) st" and "serving p \<Longrightarrow> served_by (the p) = st"
  shows "journal_ok K W p db"
  unfolding journal_ok_def
  by (intro conjI exI [of _ "jd_rows db"] exI [of _ "fst st"] exI [of _ "snd st"]) (use assms in auto)

lemma journal_ok_pending:
  assumes "sound_writer W" and "all_answered rows" and "replayed W K rows (s, known)" and "jd_rows db = rows @ [(i, None)]"
    and "pending W i c known" and "last_number 0 rows < ji_sequence i" and "ji_sequence i \<le> jd_intentSeq db" and "\<not> serving p"
  shows "journal_ok K W p db"
  unfolding journal_ok_def using assms by (intro conjI exI [of _ rows] exI [of _ s] exI [of _ known]) auto

lemma journal_ok_down: "journal_ok K W p db \<Longrightarrow> \<not> serving q \<Longrightarrow> journal_ok K W q db"
  unfolding journal_ok_def by blast

lemma answered_outcome:
  assumes "all_answered rows"
  shows "map (\<lambda>r. if awaits n r then (fst r, Some y) else r) rows = rows" and "\<not> list_ex (awaits n) rows"
proof -
  have "r \<in> set rows \<Longrightarrow> \<not> awaits n r" for r using assms by (auto simp: all_answered_def awaits_def list_all_iff)
  then show "map (\<lambda>r. if awaits n r then (fst r, Some y) else r) rows = rows" and "\<not> list_ex (awaits n) rows"
    by (auto simp: list_ex_iff intro: map_idI)
qed

text \<open>The outcome of the pending intent.\<close>

lemma append_outcome:
  assumes "all_answered rows" and "jd_rows db = rows @ [(i, None)]" and "uuid_text n = ji_intentId i"
    and "appendOutcome reply n x db = (r, db')"
  shows "reply = Not_stored \<Longrightarrow> jd_rows db' = jd_rows db \<and> r = fail ''JOURNAL_UNAVAILABLE''"
    and "reply \<noteq> Not_stored \<Longrightarrow> jd_rows db' = rows @ [(i, Some (outcome_of (Suc (jd_outcomeSeq db)) x))]
       \<and> (r = Inr () \<longleftrightarrow> reply = Stored) \<and> (reply \<noteq> Stored \<longrightarrow> r = fail ''JOURNAL_UNAVAILABLE'')"
    and "jd_intentSeq db' = jd_intentSeq db"
proof -
  have a: "awaits n (i, None)" using assms(3) by (simp add: awaits_def)
  show "reply = Not_stored \<Longrightarrow> jd_rows db' = jd_rows db \<and> r = fail ''JOURNAL_UNAVAILABLE''" and "jd_intentSeq db' = jd_intentSeq db"
    using assms(4) by (auto simp: appendOutcome_def Let_def)
  show "reply \<noteq> Not_stored \<Longrightarrow> jd_rows db' = rows @ [(i, Some (outcome_of (Suc (jd_outcomeSeq db)) x))]
       \<and> (r = Inr () \<longleftrightarrow> reply = Stored) \<and> (reply \<noteq> Stored \<longrightarrow> r = fail ''JOURNAL_UNAVAILABLE'')"
    using assms(2,4) a answered_outcome [OF assms(1)] by (cases reply) (auto simp: appendOutcome_def Let_def)
qed

section \<open>One call\<close>

lemma execute_number: "execute W K (i\<lparr>ji_sequence := n\<rparr>) c g st = execute W K i c g st"
proof -
  have live: "live_surroundings W (i\<lparr>ji_sequence := n\<rparr>) = live_surroundings W i"
    by (simp add: fun_eq_iff live_surroundings_def)
  have tokens: "remember_tokens W (i\<lparr>ji_sequence := n\<rparr>) = remember_tokens W i" by (simp add: fun_eq_iff remember_tokens_def)
  show ?thesis unfolding execute_def replay_surroundings_def live tokens ..
qed

lemma new_intent_pending:
  assumes "sealCommandArguments W known c = Inr sealed" and "check_principal (command_principal c) versions = Inr ()"
    and "UUID_PATTERN (jw_intentIdFactory W k)" and "sound_writer W"
  shows "pending W ((new_intent W (jw_intentIdFactory W k) versions sealed)\<lparr>ji_sequence := n\<rparr>) c known"
proof -
  note u = seal_unseal [OF assms(1,4)]
  have w: "KEY_ID_PATTERN (jw_activeLeaseHmacKeyId W)" "map_of (jw_leaseHmacKeys W) (jw_activeLeaseHmacKeyId W) \<noteq> None"
    "uuid_text (jw_intentIdFactory W k) = jw_intentIdFactory W k"
    using assms(4) by (simp_all add: sound_writer_def writer_valid_def)
  show ?thesis
    using u(1,2) w assms(2,3) digest_pattern [OF assms(4)] by (simp add: pending_def row_valid_def new_intent_def Let_def intentEnvelope_def)
qed

lemma append_intent:
  assumes "appendIntent reply i db = (r, db')" and "uuid_text (ji_intentId i) = ji_intentId i"
  shows "jd_intentSeq db' = Suc (jd_intentSeq db)"
    and "jd_rows db' = jd_rows db \<and> r = fail ''JOURNAL_UNAVAILABLE''
      \<or> jd_rows db' = jd_rows db @ [(i\<lparr>ji_sequence := Suc (jd_intentSeq db)\<rparr>, None)] \<and> (r = Inr () \<or> r = fail ''JOURNAL_UNAVAILABLE'')"
  using assms by (auto simp: appendIntent_def Let_def split: if_splits)

lemma mutate_unready: "\<not> js_ready j \<Longrightarrow> mutate W K r1 r2 vs c (j, db) = (fail ''JOURNAL_UNREADY'', j, db)"
  by (simp add: mutate_def assertReady_def and_then_def fail_def)

lemma mutate_cases:
  assumes m: "mutate W K r1 r2 vs c (j, db) = (x, j', db')" and W: "sound_writer W" and rows: "all_answered (jd_rows db)"
  obtains (none) e where "jd_rows db' = jd_rows db" "jd_intentSeq db \<le> jd_intentSeq db'" "served_by j' = served_by j" "x = Inl e"
    | (cut) i where "jd_rows db' = jd_rows db @ [(i, None)]" "jd_intentSeq db' = Suc (jd_intentSeq db)"
        "ji_sequence i = Suc (jd_intentSeq db)" "pending W i c (js_knownLeaseTokens j)" "\<not> js_ready j'" "x = fail ''JOURNAL_UNAVAILABLE''"
    | (lost) i n e t known where "jd_rows db' = jd_rows db @ [(i, Some (outcome_of n e))]" "jd_intentSeq db' = Suc (jd_intentSeq db)"
        "ji_sequence i = Suc (jd_intentSeq db)" "pending W i c (js_knownLeaseTokens j)"
        "execute W K i c None (served_by j) = (Inr e, t, known)" "\<not> js_ready j'" "x = fail ''JOURNAL_UNAVAILABLE''"
    | (answered) i n e t known where "jd_rows db' = jd_rows db @ [(i, Some (outcome_of n e))]" "jd_intentSeq db' = Suc (jd_intentSeq db)"
        "ji_sequence i = Suc (jd_intentSeq db)" "pending W i c (js_knownLeaseTokens j)"
        "execute W K i c None (served_by j) = (Inr e, t, known)" "js_ready j' = js_ready j" "served_by j' = (t, known)"
        "x = answer (ce_outcome e)"
proof (cases "and_then (assertReady j) (\<lambda>_. and_then (check_principal (command_principal c) vs) (\<lambda>_.
    sealCommandArguments W (js_knownLeaseTokens j) c))")
  case (Inl e)
  then show ?thesis using m none [of e] by (simp add: mutate_def)
next
  case (Inr sealed)
  then have seal: "sealCommandArguments W (js_knownLeaseTokens j) c = Inr sealed"
    and principal: "check_principal (command_principal c) vs = Inr ()"
    by (auto simp: and_then_def split: sum.splits)
  define intentId where "intentId = jw_intentIdFactory W (js_intentIds j)"
  show ?thesis
  proof (cases "UUID_PATTERN intentId")
    case False
    then show ?thesis using m Inr none by (auto simp: mutate_def Let_def intentId_def served_by_def fail_def)
  next
    case True
    let ?i = "new_intent W intentId vs sealed" and ?n = "Suc (jd_intentSeq db)"
    let ?stored = "?i\<lparr>ji_sequence := ?n\<rparr>"
    have p: "pending W ?stored c (js_knownLeaseTokens j)"
      using new_intent_pending [OF seal principal True [unfolded intentId_def] W] by (simp add: intentId_def)
    have lower: "uuid_text (ji_intentId ?i) = ji_intentId ?i" using p by (simp add: pending_def)
    obtain r db1 where w: "appendIntent r1 ?i db = (r, db1)" by fastforce
    note d1 = append_intent [OF w lower]
    obtain y t known where ex: "execute W K ?i c None (js_inner j, js_knownLeaseTokens j) = (y, t, known)" by (metis prod_cases3)
    have m': "(x, j', db') = (case r of Inl e \<Rightarrow> (Inl e, unready (j\<lparr>js_intentIds := Suc (js_intentIds j)\<rparr>), db1)
        | Inr _ \<Rightarrow> (case y of
            Inl e \<Rightarrow> (fail ''JOURNAL_UNAVAILABLE'', unready (j\<lparr>js_intentIds := Suc (js_intentIds j), js_inner := t, js_knownLeaseTokens := known\<rparr>), db1)
          | Inr e \<Rightarrow> (let (recorded, db2) = appendOutcome r2 intentId e db1
               in case recorded of
                    Inl _ \<Rightarrow> (fail ''JOURNAL_UNAVAILABLE'', unready (j\<lparr>js_intentIds := Suc (js_intentIds j), js_inner := t, js_knownLeaseTokens := known\<rparr>), db2)
                  | Inr _ \<Rightarrow> (answer (ce_outcome e), j\<lparr>js_intentIds := Suc (js_intentIds j), js_inner := t, js_knownLeaseTokens := known\<rparr>, db2))))"
      using m Inr True w ex by (simp add: mutate_def Let_def intentId_def split: sum.splits prod.splits)
    show ?thesis
    proof (cases "r = Inr () \<and> jd_rows db1 = jd_rows db @ [(?stored, None)]")
      case False
      then show ?thesis using d1 m' none cut [of ?stored] p
        by (auto simp: unready_def served_by_def fail_def)
    next
      case stored: True
      show ?thesis
      proof (cases y)
        case (Inl e)
        then show ?thesis using stored m' d1(1) p cut [of ?stored] by (simp add: unready_def)
      next
        case (Inr e)
        obtain r' db2 where o: "appendOutcome r2 intentId e db1 = (r', db2)" by fastforce
        have "uuid_text intentId = ji_intentId ?stored" using lower by (simp add: new_intent_def Let_def)
        note d2 = append_outcome [OF rows conjunct2 [OF stored] this o]
        have ex': "execute W K ?stored c None (served_by j) = (Inr e, t, known)" using ex Inr by (simp add: execute_number served_by_def)
        show ?thesis
        proof (cases r2)
          case Stored
          then show ?thesis using stored m' Inr o d1(1) d2 p ex' answered [of ?stored _ e t known]
            by (simp add: served_by_def)
        next
          case Stored_unheard
          then show ?thesis using stored m' Inr o d1(1) d2 p ex' lost [of ?stored _ e t known]
            by (simp add: unready_def fail_def)
        next
          case Not_stored
          then show ?thesis using stored m' Inr o d1(1) d2 p cut [of ?stored] by (simp add: unready_def fail_def)
        qed
      qed
    qed
  qed
qed

section \<open>Recovery\<close>

lemma recover_answered:
  assumes "replayed W K (jd_rows db) st" and "succeeds_writer W V" and "sound_writer V"
  shows "recover V K a db = (Inr st, db)"
  using replayedD [OF assms] by (simp add: recover_def)

lemma recover_pending:
  assumes "replayed W K rows (s, known)" and "succeeds_writer W V" and "sound_writer V" and "jd_rows db = rows @ [(i, None)]"
    and "pending W i c known" and "last_number 0 rows < ji_sequence i"
  shows "recover V K a db =
     (case execute V K i (copy_command c) None (s, known) of
        (Inl e, _) \<Rightarrow> (Inl e, db)
      | (Inr x, st) \<Rightarrow> (case appendOutcome (a (ji_sequence i)) (ji_intentId i) x db of
           (Inl e, db') \<Rightarrow> (Inl e, db') | (Inr _, db') \<Rightarrow> (Inr st, db')))"
proof -
  have "pending V i c known" by (rule pending_later [OF assms(5,2)])
  then show ?thesis
    using replayedD(1) [OF assms(1-3)] replayedD(2) [OF assms(1-3), of a db] assms(4,6) by (auto simp: recover_def recover_append pending_def split: prod.splits sum.splits)
qed

lemma create_Inr:
  "create_service W K lock a db = (Inr j, db') \<Longrightarrow> recover W K a db = (Inr (served_by j), db') \<and> js_ready j"
  by (auto simp: create_service_def served_by_def split: if_splits prod.splits sum.splits)

lemma create_Inl: "create_service W K lock a db = (Inl e, db') \<Longrightarrow> db' = db \<or> (\<exists>e. recover W K a db = (Inl e, db'))"
  by (auto simp: create_service_def split: if_splits prod.splits sum.splits)

lemma pending_copy: "pending W i c known \<Longrightarrow> pending W i (copy_command c) known"
  by (simp add: pending_def)

text \<open>A recovery, whether it succeeds or not, keeps the journal.\<close>

lemma recover_keeps:
  assumes ok: "journal_ok K W p db" and V: "succeeds_writer W V" "sound_writer V" and r: "recover V K a db = (r, db')"
  shows "journal_ok K V None db'" and "r = Inr (served_by j) \<Longrightarrow> journal_ok K V (Some j) db'"
proof -
  obtain rows s known where rows: "all_answered rows" "replayed W K rows (s, known)" "last_number 0 (jd_rows db) \<le> jd_intentSeq db"
    and db: "jd_rows db = rows \<or> (\<exists>i c. jd_rows db = rows @ [(i, None)] \<and> pending W i c known \<and> last_number 0 rows < ji_sequence i)"
    using ok unfolding journal_ok_def by blast
  note later = replayed_later [OF rows(2) V(1)]
  have "journal_ok K V None db' \<and> (r = Inr (served_by j) \<longrightarrow> journal_ok K V (Some j) db')"
    using db
  proof
    assume "jd_rows db = rows"
    then have "r = Inr (s, known)" "db' = db" using recover_answered [of W K db "(s, known)" V] rows(2) V r by auto
    then show ?thesis
      using rows later V(2) \<open>jd_rows db = rows\<close> by (auto simp: serving_def intro!: journal_ok_answered [where st = "(s, known)"])
  next
    assume "\<exists>i c. jd_rows db = rows @ [(i, None)] \<and> pending W i c known \<and> last_number 0 rows < ji_sequence i"
    then obtain i c where i: "jd_rows db = rows @ [(i, None)]" "pending W i c known" "last_number 0 rows < ji_sequence i" by blast
    have p: "pending V i (copy_command c) known" using pending_copy [OF pending_later [OF i(2) V(1)]] .
    have stays: "journal_ok K V None d" if "jd_rows d = jd_rows db" "jd_intentSeq d = jd_intentSeq db" for d
      by (rule journal_ok_pending [OF V(2) rows(1) later _ p i(3)]) (use that i(1) rows(3) in \<open>simp_all add: serving_def\<close>)
    note rec = recover_pending [OF rows(2) V i, of a]
    obtain y t known' where ex: "execute V K i (copy_command c) None (s, known) = (y, t, known')" by (metis prod_cases3)
    show ?thesis
    proof (cases y)
      case (Inl e)
      then show ?thesis using rec ex r stays by simp
    next
      case (Inr x)
      obtain q d where o: "appendOutcome (a (ji_sequence i)) (ji_intentId i) x db = (q, d)" by fastforce
      have "uuid_text (ji_intentId i) = ji_intentId i" using p by (simp add: pending_def)
      note d = append_outcome [OF rows(1) i(1) this o]
      show ?thesis
      proof (cases "a (ji_sequence i) = Not_stored")
        case True
        then show ?thesis using rec ex Inr o r stays d by (simp add: fail_def)
      next
        case False
        let ?row = "(i, Some (outcome_of (Suc (jd_outcomeSeq db)) x))"
        have new: "replayed V K (rows @ [?row]) (t, known')"
          using replayed_append [OF later p i(3) ex [unfolded Inr] V(2)] .
        have rows': "jd_rows d = rows @ [?row]" "last_number 0 (jd_rows d) \<le> jd_intentSeq d" "all_answered (rows @ [?row])"
          using d False rows i(1) by (simp_all add: all_answered_def)
        have d': "journal_ok K V None d" "served_by j = (t, known') \<Longrightarrow> journal_ok K V (Some j) d"
          using rows' new V(2) by (auto simp: serving_def intro!: journal_ok_answered [where st = "(t, known')"])
        show ?thesis using rec ex Inr o r d' d False by (auto simp: fail_def split: sum.splits)
      qed
    qed
  qed
  then show "journal_ok K V None db'" and "r = Inr (served_by j) \<Longrightarrow> journal_ok K V (Some j) db'" by blast+
qed

lemma mutate_keeps:
  assumes ok: "journal_ok K W (Some j) db" and m: "mutate W K r1 r2 vs c (j, db) = (x, j', db')"
  shows "journal_ok K W (Some j') db'"
proof (cases "js_ready j")
  case False
  then show ?thesis using ok m by (simp add: mutate_unready)
next
  case True
  then have W: "sound_writer W" "all_answered (jd_rows db)" "replayed W K (jd_rows db) (served_by j)"
    "last_number 0 (jd_rows db) \<le> jd_intentSeq db"
    using ok by (auto simp: journal_ok_def serving_def)
  show ?thesis using m W(1,2)
  proof (cases rule: mutate_cases)
    case (none e)
    then show ?thesis using W by (intro journal_ok_answered) auto
  next
    case (cut i)
    obtain s k where s: "served_by j = (s, k)" "js_knownLeaseTokens j = k" by (simp add: served_by_def)
    show ?thesis
      by (rule journal_ok_pending [OF W(1,2) W(3) [unfolded s] cut(1) cut(4) [unfolded s]])
        (use cut W(4) in \<open>simp_all add: serving_def\<close>)
  next
    case (lost i n e t known)
    obtain s k where s: "served_by j = (s, k)" "js_knownLeaseTokens j = k" by (simp add: served_by_def)
    have "replayed W K (jd_rows db @ [(i, Some (outcome_of n e))]) (t, known)"
      using replayed_append [OF W(3) [unfolded s] lost(4) [unfolded s] _ lost(5) [unfolded s] W(1)] lost(3) W(4) by simp
    then show ?thesis using lost W(1,2) by (intro journal_ok_answered) (simp_all add: serving_def all_answered_def)
  next
    case (answered i n e t known)
    obtain s k where s: "served_by j = (s, k)" "js_knownLeaseTokens j = k" by (simp add: served_by_def)
    have "replayed W K (jd_rows db @ [(i, Some (outcome_of n e))]) (t, known)"
      using replayed_append [OF W(3) [unfolded s] answered(4) [unfolded s] _ answered(5) [unfolded s] W(1)] answered(3) W(4) by simp
    then show ?thesis using answered W(1,2) by (intro journal_ok_answered) (simp_all add: serving_def all_answered_def)
  qed
qed

lemma history_ok: "journal_history K W p db \<Longrightarrow> journal_ok K W p db"
proof (induction rule: journal_history.induct)
  case (Installed W)
  have "replayed W K [] (new_service (jw_environment W), [])" using succeeds_digest(3) by (auto simp: replayed_def)
  then show ?case using Installed unfolding journal_ok_def serving_def empty_journal_def by (auto simp: all_answered_def)
next
  case (Started W p db V lock replies j db')
  then show ?case using recover_keeps(2) [OF Started.IH Started.hyps(2,3)] create_Inr by blast
next
  case (Failed W p db V lock replies e db')
  have "journal_ok K V None db"
    using recover_keeps(1) [OF Failed.IH Failed.hyps(2,3)] Failed.IH unfolding journal_ok_def
    using Failed.hyps(2,3) replayed_later pending_later by (fastforce simp: serving_def)
  then show ?case using create_Inl [OF Failed.hyps(4)] recover_keeps(1) [OF Failed.IH Failed.hyps(2,3)] by blast
next
  case (Called W j db r1 r2 vs c x j' db')
  then show ?case using mutate_keeps by blast
next
  case (Closed W j db)
  then show ?case by (rule_tac journal_ok_down) (simp_all add: serving_def close_service_def)
qed

section \<open>What a restart finds\<close>

lemma serving_history:
  assumes "journal_history K W (Some j) db" and "js_ready j"
  shows "sound_writer W" and "all_answered (jd_rows db)" and "replayed W K (jd_rows db) (served_by j)"
    and "last_number 0 (jd_rows db) \<le> jd_intentSeq db"
  using history_ok [OF assms(1)] assms(2) by (auto simp: journal_ok_def serving_def)

lemma replayed_call:
  assumes h: "journal_history K W (Some j) db" "js_ready j" and i: "ji_sequence i = Suc (jd_intentSeq db)"
    "pending W i c (js_knownLeaseTokens j)" and x: "execute W K i c None (served_by j) = (Inr x, t, known)"
  shows "replayed W K (jd_rows db @ [(i, Some (outcome_of n x))]) (t, known)"
    and "t = snd (exec (live_surroundings W i (js_inner j)) K c (js_inner j))"
proof -
  note s = serving_history [OF h]
  have "last_number 0 (jd_rows db) < ji_sequence i" using s(4) i(1) by simp
  then show "replayed W K (jd_rows db @ [(i, Some (outcome_of n x))]) (t, known)"
    using replayed_append [OF s(3) [unfolded served_by_def] i(2) _ x [unfolded served_by_def] s(1)] by simp
  show "t = snd (exec (live_surroundings W i (js_inner j)) K c (js_inner j))"
    using execute_live [OF x [unfolded served_by_def]] by auto
qed

lemma create_replayed:
  assumes "create_service V K lock a db = (Inr j, db')" and "replayed W K (jd_rows db) st" and "succeeds_writer W V" and "sound_writer V"
  shows "served_by j = st" and "db' = db"
  using create_Inr [OF assms(1)] recover_answered [OF assms(2-4)] by simp_all

lemma create_pending:
  assumes c: "create_service V K lock a db' = (Inr j2, db2)" and V: "succeeds_writer W V" "sound_writer V"
    and h: "journal_history K W (Some j) db" "js_ready j" and db': "jd_rows db' = jd_rows db @ [(i, None)]"
    and i: "ji_sequence i = Suc (jd_intentSeq db)" "pending W i c (js_knownLeaseTokens j)"
  shows "js_inner j2 = snd (exec (live_surroundings V i (js_inner j)) K c (js_inner j))" and "all_answered (jd_rows db2)"
proof -
  note s = serving_history [OF h]
  have n: "last_number 0 (jd_rows db) < ji_sequence i" using s(4) i(1) by simp
  have "recover V K a db' = (Inr (served_by j2), db2)" using create_Inr [OF c] ..
  then obtain x q where x: "execute V K i (copy_command c) None (js_inner j, js_knownLeaseTokens j) = (Inr x, served_by j2)"
    and o: "appendOutcome (a (ji_sequence i)) (ji_intentId i) x db' = (Inr q, db2)"
    unfolding recover_pending [OF s(3) [unfolded served_by_def] V db' i(2) n] by (auto split: prod.splits sum.splits)
  show "js_inner j2 = snd (exec (live_surroundings V i (js_inner j)) K c (js_inner j))"
    using execute_live [OF x [unfolded served_by_def]] by (auto simp: exec_copy)
  have u: "uuid_text (ji_intentId i) = ji_intentId i" using i(2) by (simp add: pending_def)
  show "all_answered (jd_rows db2)"
    using append_outcome [OF s(2) db' u o] s(2) by (cases "a (ji_sequence i) = Not_stored") (simp_all add: all_answered_def fail_def)
qed

section \<open>Sealed rows\<close>

definition intents_of :: "journal_database \<Rightarrow> journal_intent set" where
  "intents_of db = fst ` set (jd_rows db)"

definition sealed_rows :: "journal_row list \<Rightarrow> bool" where
  "sealed_rows rows \<longleftrightarrow> (\<forall>i \<in> fst ` set rows. \<forall>h. lease_token (ji_command i) = Some h \<longrightarrow> HASH_PATTERN h)"

lemma appendOutcome_intents: "appendOutcome reply n x db = (r, db') \<Longrightarrow> intents_of db' = intents_of db"
proof -
  assume "appendOutcome reply n x db = (r, db')"
  then have "map fst (jd_rows db') = map fst (jd_rows db)" by (auto simp: appendOutcome_def Let_def)
  then show ?thesis by (metis intents_of_def set_map)
qed

lemma appendIntent_intents:
  "appendIntent reply i db = (r, db') \<Longrightarrow> intents_of db' \<subseteq> insert (i\<lparr>ji_sequence := Suc (jd_intentSeq db), ji_intentId := uuid_text (ji_intentId i)\<rparr>) (intents_of db)"
  by (auto simp: appendIntent_def intents_of_def Let_def split: if_splits)

lemma sealed_intents: "sealed_rows (jd_rows db) \<longleftrightarrow> (\<forall>i \<in> intents_of db. \<forall>h. lease_token (ji_command i) = Some h \<longrightarrow> HASH_PATTERN h)"
  by (simp add: sealed_rows_def intents_of_def)

lemma mutate_sealed:
  assumes "mutate W K r1 r2 vs c (j, db) = (x, j', db')" and "sound_writer W" and "sealed_rows (jd_rows db)"
  shows "sealed_rows (jd_rows db')"
proof (cases "and_then (assertReady j) (\<lambda>_. and_then (check_principal (command_principal c) vs) (\<lambda>_.
    sealCommandArguments W (js_knownLeaseTokens j) c))")
  case (Inl e)
  then show ?thesis using assms by (simp add: mutate_def)
next
  case (Inr sealed)
  then have seal: "sealCommandArguments W (js_knownLeaseTokens j) c = Inr sealed"
    by (auto simp: and_then_def split: sum.splits)
  let ?n = "jw_intentIdFactory W (js_intentIds j)"
  let ?i = "new_intent W ?n vs sealed"
  obtain r db1 where w: "appendIntent r1 ?i db = (r, db1)" by fastforce
  have one: "sealed_rows (jd_rows db1)"
    using appendIntent_intents [OF w] assms(3) seal_unseal(3) [OF seal assms(2)]
    unfolding sealed_intents by (auto simp: new_intent_def Let_def dest!: subsetD)
  have "db' \<in> {db, db1} \<or> (\<exists>e q. appendOutcome r2 ?n e db1 = (q, db'))"
    using assms(1) Inr w by (auto simp: mutate_def Let_def split: if_splits sum.splits prod.splits)
  then show ?thesis using assms(3) one appendOutcome_intents unfolding sealed_intents by blast
qed

text \<open>A call adds at most the intent of itself.\<close>

lemma mutate_intents:
  assumes "mutate W K r1 r2 vs c (j, db) = (x, j', db')" and "i \<in> intents_of db'" and "i \<notin> intents_of db"
  shows "\<exists>known. sealCommandArguments W known c = Inr (ji_command i)"
proof (cases "and_then (assertReady j) (\<lambda>_. and_then (check_principal (command_principal c) vs) (\<lambda>_.
    sealCommandArguments W (js_knownLeaseTokens j) c))")
  case (Inl e)
  then show ?thesis using assms by (simp add: mutate_def)
next
  case (Inr sealed)
  then have seal: "sealCommandArguments W (js_knownLeaseTokens j) c = Inr sealed"
    by (auto simp: and_then_def split: sum.splits)
  let ?i = "new_intent W (jw_intentIdFactory W (js_intentIds j)) vs sealed"
  obtain r db1 where w: "appendIntent r1 ?i db = (r, db1)" by fastforce
  have "db' \<in> {db, db1} \<or> (\<exists>n e q. appendOutcome r2 n e db1 = (q, db'))"
    using assms(1) Inr w by (auto simp: mutate_def Let_def split: if_splits sum.splits prod.splits)
  then have "i \<in> intents_of db1" using assms(2,3) appendOutcome_intents by blast
  then have "ji_command i = sealed"
    using appendIntent_intents [OF w] assms(3) by (auto simp: new_intent_def Let_def dest!: subsetD)
  then show ?thesis using seal by blast
qed

text \<open>A call that is written, step by step.\<close>

lemma mutate_steps:
  assumes "and_then (assertReady j) (\<lambda>_. and_then (check_principal (command_principal c) vs) (\<lambda>_.
      sealCommandArguments W (js_knownLeaseTokens j) c)) = Inr sealed"
    and "n = jw_intentIdFactory W (js_intentIds j)" and "appendIntent r1 (new_intent W n vs sealed) db = (r, db1)"
    and "execute W K (new_intent W n vs sealed) c None (js_inner j, js_knownLeaseTokens j) = (y, s, known)"
  shows "mutate W K r1 r2 vs c (j, db) =
      (if \<not> UUID_PATTERN n then (fail ''JOURNAL_INVALID_CONFIGURATION'', j\<lparr>js_intentIds := Suc (js_intentIds j)\<rparr>, db)
       else case r of Inl e \<Rightarrow> (Inl e, unready (j\<lparr>js_intentIds := Suc (js_intentIds j)\<rparr>), db1)
       | Inr _ \<Rightarrow> let j = j\<lparr>js_intentIds := Suc (js_intentIds j), js_inner := s, js_knownLeaseTokens := known\<rparr> in
          case y of Inl e \<Rightarrow> (fail ''JOURNAL_UNAVAILABLE'', unready j, db1)
          | Inr e \<Rightarrow> (let (q, db2) = appendOutcome r2 n e db1 in
              case q of Inl _ \<Rightarrow> (fail ''JOURNAL_UNAVAILABLE'', unready j, db2) | Inr _ \<Rightarrow> (answer (ce_outcome e), j, db2)))"
  using assms by (cases "UUID_PATTERN n"; cases r; cases y) (simp_all add: mutate_def Let_def)

text \<open>A service stops exactly when it answers that the journal is unavailable.\<close>

lemma answer_codes:
  assumes "execute W K i c None (s, known) = (Inr x, st)"
  shows "answer (ce_outcome x) \<noteq> fail ''JOURNAL_UNAVAILABLE''"
proof -
  obtain t known' where "st = (t, known')" by (cases st)
  then obtain r where r: "finish_execution W c s r (drawn (live_surroundings W i s) s t) = Inr x"
    using execute_live assms by blast
  have "code \<noteq> ''JOURNAL_UNAVAILABLE''" if "normalizeDomainError e = Some code" for e code
    using that by (cases e) (auto simp: ApiErrorCode_def split: if_splits)
  then show ?thesis using finish_execution_Inr(2) [OF r] by (auto simp: answer_def fail_def)
qed

lemma mutate_stops:
  assumes m: "mutate W K r1 r2 vs c (j, db) = (x, j', db')" and ready: "isReady j"
  shows "\<not> isReady j' \<longleftrightarrow> x = fail ''JOURNAL_UNAVAILABLE''"
proof (cases "and_then (assertReady j) (\<lambda>_. and_then (check_principal (command_principal c) vs) (\<lambda>_.
    sealCommandArguments W (js_knownLeaseTokens j) c))")
  case (Inl e)
  then have "e \<noteq> DomainError ''JOURNAL_UNAVAILABLE''"
    by (auto simp: and_then_def assertReady_def check_principal_def sealCommandArguments_def Let_def fail_def
        split: sum.splits if_splits option.splits)
  then show ?thesis using m Inl ready by (auto simp: mutate_def fail_def)
next
  case (Inr sealed)
  let ?n = "jw_intentIdFactory W (js_intentIds j)"
  let ?i = "new_intent W ?n vs sealed"
  obtain r db1 where w: "appendIntent r1 ?i db = (r, db1)" by fastforce
  have r: "r = Inr () \<or> r = fail ''JOURNAL_UNAVAILABLE''" using w by (auto simp: appendIntent_def Let_def split: if_splits)
  obtain y s known where ex: "execute W K ?i c None (js_inner j, js_knownLeaseTokens j) = (y, s, known)" by (metis prod_cases3)
  note all = mutate_steps [OF Inr refl w ex, of r2, unfolded m]
  show ?thesis
  proof (cases "UUID_PATTERN ?n \<and> r = Inr ()")
    case False
    then show ?thesis
      using all r ready by (cases "UUID_PATTERN ?n") (auto simp: isReady_def unready_def fail_def)
  next
    case True
    show ?thesis
    proof (cases y)
      case (Inl e)
      then show ?thesis using all True by (simp add: Let_def isReady_def unready_def)
    next
      case y: (Inr e)
      obtain q db2 where o: "appendOutcome r2 ?n e db1 = (q, db2)" by fastforce
      show ?thesis
        using all True y o ready answer_codes [OF ex [unfolded y]]
        by (cases q) (simp_all add: Let_def isReady_def unready_def)
    qed
  qed
qed

lemma recover_rows_intents:
  "recover_rows W K a n rows st db = (r, db') \<Longrightarrow> intents_of db' = intents_of db"
proof (induction rows arbitrary: n st db)
  case (Cons row rows)
  obtain i y where [simp]: "row = (i, y)" by (cases row)
  show ?case using Cons.prems
    by (cases y) (auto split: if_splits sum.splits prod.splits dest: Cons.IH appendOutcome_intents)
qed simp

lemma create_intents: "create_service W K lock a db = (r, db') \<Longrightarrow> intents_of db' = intents_of db"
proof -
  assume c: "create_service W K lock a db = (r, db')"
  have "recover W K a db = (q, db') \<Longrightarrow> intents_of db' = intents_of db" for q
    by (cases "list_all (row_valid W) (jd_rows db)") (simp_all add: recover_def recover_rows_intents)
  then show ?thesis using c by (cases r) (blast dest: create_Inl create_Inr)+
qed

lemma sealed_history: "journal_history K W p db \<Longrightarrow> sealed_rows (jd_rows db)"
proof (induction rule: journal_history.induct)
  case (Called W j db r1 r2 vs c x j' db')
  have "sound_writer W" using history_ok [OF Called.hyps(1)] by (simp add: journal_ok_def)
  then show ?case using mutate_sealed [OF Called.hyps(2)] Called.IH by blast
next
  case (Started W p db V lock replies j db')
  then show ?case using create_intents [OF Started.hyps(4)] by (simp add: sealed_intents)
next
  case (Failed W p db V lock replies e db')
  then show ?case using create_intents [OF Failed.hyps(4)] by (simp add: sealed_intents)
qed (simp_all add: sealed_rows_def empty_journal_def)

lemma sha_prefix: "take 7 s = ''sha256:'' \<Longrightarrow> take 4 s = ''sha2''"
  by (drule arg_cong [where f = "take 4"]) simp

end
