(* ===== verification/JournalProperties.thy ===== *)
theory JournalProperties
  imports JournalRecovery
begin

text \<open>
  The properties of the journal of commands, and a database on which they are applied: a participant registers an agent, and
  a process with other factories takes over.
\<close>

section \<open>Calls that are refused before they are written\<close>

lemma unknown_lease_token:
  assumes "lease_token c = Some leaseToken" and "\<forall>h. map_of (js_knownLeaseTokens j) h \<noteq> Some leaseToken"
    and "js_ready j" and "\<not> js_closed j" and "check_principal (command_principal c) versions = Inr ()"
  shows "mutate W K r1 r2 versions c (j, db) = (fail ''JOURNAL_SECRET_REFERENCE_UNKNOWN'', j, db)"
  using assms by (simp add: mutate_def assertReady_def and_then_def sealCommandArguments_def Let_def fail_def)

section \<open>A small journal\<close>

definition small_writer :: "string \<Rightarrow> journal_writer" where
  "small_writer ident = \<lparr>
     jw_environment = \<lparr>env_idFactory = (\<lambda>n. ident), env_now = (\<lambda>n. 0), env_leaseTokenFactory = (\<lambda>n. []),
       env_sha256 = (\<lambda>x. replicate 64 CHR ''0''), env_chinese = (\<lambda>x. x)\<rparr>,
     jw_intentIdFactory = (\<lambda>n. ''00000000-0000-4000-8000-000000000000''), jw_activeLeaseHmacKeyId = ''key-1'',
     jw_leaseHmacKeys = [(''key-1'', replicate 32 CHR ''k'')], jw_hmac = (\<lambda>k x. x), jw_explain = (\<lambda>c s e. ([], JNull))\<rparr>"

definition small_principal :: principal where
  "small_principal = \<lparr>pr_id = ''p'', pr_roles = Some [''operator''], pr_runAgentIds = None\<rparr>"

definition small_call :: run_command where
  "small_call = Authoring (Create_agent small_principal ''key''
     \<lparr>cg_displayName = \<lparr>lt_zh = ''n'', lt_en = ''n''\<rparr>, cg_description = \<lparr>lt_zh = ''d'', lt_en = ''d''\<rparr>\<rparr>)"

lemma small_patterns:
  "KEY_ID_PATTERN ''key-1''" "UUID_PATTERN ''00000000-0000-4000-8000-000000000000''"
  "uuid_text ''00000000-0000-4000-8000-000000000000'' = ''00000000-0000-4000-8000-000000000000''"
  "is_hex_lower CHR ''0''"
  by code_simp+

lemma small_writer_sound: "sound_writer (small_writer ident)"
  by (simp add: sound_writer_def writer_valid_def small_writer_def small_patterns four_digit_years_def list_all_iff)

lemma small_writer_succeeds: "succeeds_writer (small_writer a) (small_writer b)"
  by (simp add: succeeds_writer_def small_writer_def)

definition small_agent :: "string \<Rightarrow> agent_identity" where
  "small_agent n = \<lparr>ag_id = n, ag_ownerId = ''p'', ag_displayName = \<lparr>lt_zh = ''n'', lt_en = ''n''\<rparr>,
     ag_description = \<lparr>lt_zh = ''d'', lt_en = ''d''\<rparr>, ag_lifecycle = Agent_ACTIVE, ag_version = Num 1,
     ag_createdAt = toISOString 0, ag_updatedAt = toISOString 0\<rparr>"

lemma small_exec:
  assumes "env_idFactory E = (\<lambda>n. a)" and "env_now E = (\<lambda>n. 0)"
  shows "\<exists>t. exec E K small_call (new_service F) = (Inr (Agent_response (small_agent a)), t)
    \<and> svc_agents t = [(a, \<lparr>sa_dto = small_agent a, sa_versionIds = []\<rparr>)] \<and> tk_ids t = 1 \<and> tk_clock t = 1 \<and> tk_tokens t = 0"
  using assms by (simp add: small_call_def createAgent_def idempotent_def create_agent_body_def action_simps next_id_def timestamp_def
    new_service_def small_agent_def small_principal_def Let_def)

lemma new_service_ticks [simp]: "tk_ids (new_service F) = 0" "tk_clock (new_service F) = 0" "tk_tokens (new_service F) = 0"
  by (simp_all add: new_service_def)

lemma small_execute:
  assumes "1 \<le> length a" and "length a \<le> 512"
  shows "\<exists>x t. execute (small_writer a) K i small_call None (new_service F, []) = (Inr x, t, [])
    \<and> ce_outcome x = Succeeded (Agent_response (small_agent a)) \<and> svc_agents t = [(a, \<lparr>sa_dto = small_agent a, sa_versionIds = []\<rparr>)]"
proof -
  define E where "E = live_surroundings (small_writer a) i (new_service F)"
  have E: "env_idFactory E = (\<lambda>n. a)" "env_now E = (\<lambda>n. 0)" by (simp_all add: E_def) (simp_all add: small_writer_def)
  obtain t where t: "exec E K small_call (new_service F) = (Inr (Agent_response (small_agent a)), t)"
    "svc_agents t = [(a, \<lparr>sa_dto = small_agent a, sa_versionIds = []\<rparr>)]" "tk_ids t = 1" "tk_clock t = 1" "tk_tokens t = 0"
    using small_exec [OF E] by blast
  have "live_error E (new_service F) t = None"
    using assms E t by (simp add: live_error_def drawn_def MAX_GENERATED_VALUES_def date_in_range_def)
  then show ?thesis using t(1,2,5)
    by (simp add: execute_def E_def [symmetric] Let_def finish_execution_def drawn_def remember_tokens_def)
qed

lemma small_start:
  "create_service (small_writer a) K True r empty_journal =
     (Inr \<lparr>js_inner = new_service (jw_environment (small_writer a)), js_knownLeaseTokens = [], js_ready = True, js_closed = False,
        js_intentIds = 0\<rparr>, empty_journal)"
proof -
  have "writer_valid (small_writer a)" using small_writer_sound by (simp add: sound_writer_def)
  then show ?thesis by (simp add: create_service_def recover_def empty_journal_def)
qed

definition small_service :: "string \<Rightarrow> journal_service" where
  "small_service a = \<lparr>js_inner = new_service (jw_environment (small_writer a)), js_knownLeaseTokens = [], js_ready = True,
     js_closed = False, js_intentIds = 0\<rparr>"

lemma small_history: "journal_history K (small_writer a) (Some (small_service a)) empty_journal"
  unfolding small_service_def
  by (rule journal_history.Started [OF journal_history.Installed [OF small_writer_sound] succeeds_writer_refl small_writer_sound small_start])

lemma small_mutate:
  assumes "1 \<le> length a" and "length a \<le> 512"
  shows "\<exists>j db. mutate (small_writer a) K Stored Stored [] small_call (small_service a, empty_journal) = (Inr (Agent_response (small_agent a)), j, db)
    \<and> js_ready j \<and> svc_agents (js_inner j) = [(a, \<lparr>sa_dto = small_agent a, sa_versionIds = []\<rparr>)]"
    and "\<exists>j db. mutate (small_writer a) K Stored Not_stored [] small_call (small_service a, empty_journal) = (fail ''JOURNAL_UNAVAILABLE'', j, db)
      \<and> jd_rows db = [((new_intent (small_writer a) ''00000000-0000-4000-8000-000000000000'' [] small_call)\<lparr>ji_sequence := 1\<rparr>, None)]"
proof -
  let ?i = "new_intent (small_writer a) ''00000000-0000-4000-8000-000000000000'' [] small_call"
  obtain x t where x: "execute (small_writer a) K ?i small_call None (new_service (jw_environment (small_writer a)), []) = (Inr x, t, [])"
    "ce_outcome x = Succeeded (Agent_response (small_agent a))" "svc_agents t = [(a, \<lparr>sa_dto = small_agent a, sa_versionIds = []\<rparr>)]"
    using small_execute [OF assms] by blast
  have s: "check_principal (command_principal small_call) [] = Inr ()" "sealCommandArguments (small_writer a) [] small_call = Inr small_call"
    by (simp_all add: small_call_def small_principal_def check_principal_def short_array_def sealCommandArguments_def MAX_GENERATED_VALUES_def)
  have u: "jw_intentIdFactory (small_writer a) 0 = ''00000000-0000-4000-8000-000000000000''" by (simp add: small_writer_def)
  have id: "ji_intentId ?i = ''00000000-0000-4000-8000-000000000000''" by (simp add: new_intent_def Let_def)
  have x': "execute (small_writer a) K ?i small_call None (js_inner (small_service a), []) = (Inr x, t, [])"
    using x(1) by (simp add: small_service_def)
  have f: "js_knownLeaseTokens (small_service a) = []" "js_intentIds (small_service a) = 0" "assertReady (small_service a) = Inr ()"
    by (simp_all add: small_service_def assertReady_def)
  show "\<exists>j db. mutate (small_writer a) K Stored Stored [] small_call (small_service a, empty_journal) = (Inr (Agent_response (small_agent a)), j, db)
    \<and> js_ready j \<and> svc_agents (js_inner j) = [(a, \<lparr>sa_dto = small_agent a, sa_versionIds = []\<rparr>)]"
    using x(2,3) by (simp add: mutate_def and_then_def f s u id x' small_patterns appendIntent_def appendOutcome_def empty_journal_def
      awaits_def Let_def answer_def) (simp add: small_service_def)
  show "\<exists>j db. mutate (small_writer a) K Stored Not_stored [] small_call (small_service a, empty_journal) = (fail ''JOURNAL_UNAVAILABLE'', j, db)
      \<and> jd_rows db = [(?i\<lparr>ji_sequence := 1\<rparr>, None)]"
    using id by (simp add: mutate_def and_then_def f s u id x' small_patterns appendIntent_def appendOutcome_def empty_journal_def Let_def fail_def)
qed

text \<open>The outcome was not stored: the next process runs the call itself.\<close>

lemma small_restart:
  assumes "jd_rows db = [((new_intent (small_writer a) ''00000000-0000-4000-8000-000000000000'' [] small_call)\<lparr>ji_sequence := 1\<rparr>, None)]"
    and "1 \<le> length b" and "length b \<le> 512"
  shows "\<exists>j db'. create_service (small_writer b) K True (\<lambda>n. Stored) db = (Inr j, db')
    \<and> svc_agents (js_inner j) = [(b, \<lparr>sa_dto = small_agent b, sa_versionIds = []\<rparr>)]"
proof -
  let ?i = "(new_intent (small_writer a) ''00000000-0000-4000-8000-000000000000'' [] small_call)\<lparr>ji_sequence := 1\<rparr>"
  let ?s = "new_service (jw_environment (small_writer b))"
  have copy: "copy_command small_call = small_call" by (simp add: small_call_def)
  have "pending (small_writer a) ((new_intent (small_writer a) (jw_intentIdFactory (small_writer a) 0) [] small_call)\<lparr>ji_sequence := 1\<rparr>) small_call []"
    by (rule new_intent_pending [OF _ _ _ small_writer_sound])
      (simp_all add: sealCommandArguments_def small_call_def small_principal_def check_principal_def short_array_def MAX_GENERATED_VALUES_def,
        simp add: small_writer_def small_patterns)
  then have p: "pending (small_writer a) ?i small_call []" by (simp add: small_writer_def)
  have r: "replayed (small_writer a) K [] (?s, [])"
    using succeeds_digest(3) [OF succeeds_writer_trans [OF small_writer_succeeds]] succeeds_digest(3) [OF small_writer_succeeds]
    by (auto simp: replayed_def)
  obtain x t where x: "execute (small_writer b) K ?i small_call None (?s, []) = (Inr x, t, [])"
    "svc_agents t = [(b, \<lparr>sa_dto = small_agent b, sa_versionIds = []\<rparr>)]" using small_execute [OF assms(2,3)] by blast
  obtain q db' where o: "appendOutcome Stored (ji_intentId ?i) x db = (q, db')" by fastforce
  have u: "uuid_text (ji_intentId ?i) = ji_intentId ?i" using p by (simp add: pending_def)
  have q: "q = Inr ()" using append_outcome(2) [of "[]", OF _ _ u o] assms(1) by (simp add: all_answered_def)
  have "recover (small_writer b) K (\<lambda>n. Stored) db = (Inr (t, []), db')"
    using recover_pending [OF r small_writer_succeeds small_writer_sound _ p, where a = "\<lambda>n. Stored" and db = db] assms(1) x(1) o q copy by simp
  moreover have "writer_valid (small_writer b)" using small_writer_sound by (simp add: sound_writer_def)
  ultimately show ?thesis using x(2) by (simp add: create_service_def)
qed

section \<open>Properties\<close>

text \<open>Property C2. A new process that starts from the journal of a serving one finds exactly the service and the lease tokens that it
  served, whatever calls, crashes and restarts came before and whatever identifiers and times its own factories would give.\<close>

theorem restart_restores_service:
  assumes "journal_history K W (Some j) db" and "js_ready j" and "succeeds_writer W V" and "sound_writer V"
  shows "create_service V K True replies db =
    (Inr \<lparr>js_inner = js_inner j, js_knownLeaseTokens = js_knownLeaseTokens j, js_ready = True, js_closed = False, js_intentIds = 0\<rparr>, db)"
proof -
  have "recover V K replies db = (Inr (js_inner j, js_knownLeaseTokens j), db)"
    using recover_answered [OF serving_history(3) [OF assms(1,2)] assms(3,4)] by (simp add: served_by_def)
  moreover have "writer_valid V" using assms(4) by (simp add: sound_writer_def)
  ultimately show ?thesis by (simp add: create_service_def)
qed

lemma restart_restores_service_witness:
  "\<exists>j db j'. mutate (small_writer ''a'') demo_pack Stored Stored [] small_call (small_service ''a'', empty_journal) = (Inr (Agent_response (small_agent ''a'')), j, db)
    \<and> create_service (small_writer ''b'') demo_pack True (\<lambda>n. Stored) db = (Inr j', db)
    \<and> svc_agents (js_inner j') = [(''a'', \<lparr>sa_dto = small_agent ''a'', sa_versionIds = []\<rparr>)]"
proof -
  obtain j db where m: "mutate (small_writer ''a'') demo_pack Stored Stored [] small_call (small_service ''a'', empty_journal) = (Inr (Agent_response (small_agent ''a'')), j, db)"
    "js_ready j" "svc_agents (js_inner j) = [(''a'', \<lparr>sa_dto = small_agent ''a'', sa_versionIds = []\<rparr>)]"
    using small_mutate(1) [of "''a''" demo_pack] by auto
  show ?thesis
    using restart_restores_service [OF journal_history.Called [OF small_history m(1)] m(2) small_writer_succeeds small_writer_sound] m
    by (intro exI conjI) (assumption, fastforce, simp)
qed

text \<open>Property C3. A call that a crash, or a database that does not answer, cuts short takes effect at most once: a process that starts
  afterwards finds the service before the call or after one run of it, no intent is left without an outcome, and the effect of a call
  that was answered with a result is found as it was. An intent that the call left without an outcome does not stop the start:
  the new process runs it, with its own factories, and writes its outcome. The architecture guide has it that a missing outcome
  fails closed; the code does not.\<close>

theorem cut_call_takes_effect_at_most_once:
  assumes "journal_history K W (Some j) db" and "js_ready j" and "mutate W K r1 r2 versions c (j, db) = (x, j', db')"
    and "succeeds_writer W V" and "sound_writer V" and "create_service V K True replies db' = (Inr j2, db2)"
  shows "(js_inner j2 = js_inner j
      \<or> (\<exists>i E. (E = live_surroundings W i (js_inner j) \<or> E = live_surroundings V i (js_inner j)) \<and> js_inner j2 = snd (exec E K c (js_inner j))))
    \<and> all_answered (jd_rows db2) \<and> (\<forall>y. x = Inr y \<longrightarrow> js_inner j2 = js_inner j')
    \<and> (\<not> all_answered (jd_rows db') \<longrightarrow> (\<exists>i. js_inner j2 = snd (exec (live_surroundings V i (js_inner j)) K c (js_inner j))))"
proof -
  note s = serving_history [OF assms(1,2)]
  show ?thesis using assms(3) s(1,2)
  proof (cases rule: mutate_cases)
    case (none e)
    then show ?thesis using create_replayed [OF assms(6) _ assms(4,5)] s(2,3) by (auto simp: served_by_def)
  next
    case (cut i)
    then show ?thesis using create_pending [OF assms(6,4,5,1,2) cut(1,3,4)] by (auto simp: fail_def)
  next
    case (lost i n e t known)
    note r = replayed_call [OF assms(1,2) lost(3,4,5)]
    have "served_by j2 = (t, known)" "db2 = db'"
      using create_replayed [OF assms(6) r(1) [of n, folded lost(1)] assms(4,5)] by simp_all
    then show ?thesis using r(2) lost(1,7) s(2) by (auto simp: served_by_def all_answered_def fail_def)
  next
    case (answered i n e t known)
    note r = replayed_call [OF assms(1,2) answered(3,4,5)]
    have "served_by j2 = (t, known)" "db2 = db'"
      using create_replayed [OF assms(6) r(1) [of n, folded answered(1)] assms(4,5)] by simp_all
    then show ?thesis using r(2) answered(1,7) s(2) by (auto simp: served_by_def all_answered_def)
  qed
qed

lemma cut_call_takes_effect_at_most_once_witness:
  "\<exists>j' db' j2 db2. mutate (small_writer ''a'') demo_pack Stored Not_stored [] small_call (small_service ''a'', empty_journal) = (fail ''JOURNAL_UNAVAILABLE'', j', db')
    \<and> create_service (small_writer ''b'') demo_pack True (\<lambda>n. Stored) db' = (Inr j2, db2)
    \<and> svc_agents (js_inner j2) = [(''b'', \<lparr>sa_dto = small_agent ''b'', sa_versionIds = []\<rparr>)] \<and> all_answered (jd_rows db2)
    \<and> (\<exists>i. js_inner j2 = snd (exec (live_surroundings (small_writer ''b'') i (js_inner (small_service ''a''))) demo_pack small_call (js_inner (small_service ''a''))))"
proof -
  obtain j' db' where m: "mutate (small_writer ''a'') demo_pack Stored Not_stored [] small_call (small_service ''a'', empty_journal) = (fail ''JOURNAL_UNAVAILABLE'', j', db')"
    "jd_rows db' = [((new_intent (small_writer ''a'') ''00000000-0000-4000-8000-000000000000'' [] small_call)\<lparr>ji_sequence := 1\<rparr>, None)]"
    using small_mutate(2) [of "''a''" demo_pack] by auto
  obtain j2 db2 where r: "create_service (small_writer ''b'') demo_pack True (\<lambda>n. Stored) db' = (Inr j2, db2)"
    "svc_agents (js_inner j2) = [(''b'', \<lparr>sa_dto = small_agent ''b'', sa_versionIds = []\<rparr>)]"
    using small_restart [OF m(2), of "''b''" demo_pack] by auto
  have "js_ready (small_service ''a'')" by (simp add: small_service_def)
  moreover have "\<not> all_answered (jd_rows db')" using m(2) by (simp add: all_answered_def)
  ultimately show ?thesis
    using cut_call_takes_effect_at_most_once [OF small_history _ m(1) small_writer_succeeds small_writer_sound r(1)] m(1) r by blast
qed

text \<open>What a call is written as: its lease token, if it carries one, as a digest.\<close>

definition journaled :: "journal_writer \<Rightarrow> run_command \<Rightarrow> run_command" where
  "journaled W c = (case lease_token c of None \<Rightarrow> copy_command c
     | Some leaseToken \<Rightarrow> with_lease_token (digest W (JString leaseToken)) (copy_command c))"

lemma sealed_journaled: "sealCommandArguments W known c = Inr x \<Longrightarrow> x = journaled W c"
  by (auto simp: sealCommandArguments_def journaled_def Let_def split: option.splits if_splits)

text \<open>Property C9. The lease token that a call carries is never written to the journal in its place: in every row, whatever calls, crashes and
  restarts came before, this argument is a digest of the required form, and a call adds at most the row of itself, with the digest of its
  token in the place of the token and all its other arguments as they are. What a caller writes into those is kept. Rows
  of outcomes have no results.\<close>

theorem journal_seals_lease_tokens:
  assumes "journal_history K W p db" and "mutate W K r1 r2 versions c (j, db) = (x, j', db')"
  shows "\<forall>i \<in> intents_of db'. (\<forall>h. lease_token (ji_command i) = Some h \<longrightarrow> HASH_PATTERN h \<and> take 4 h \<noteq> ''wlt_'')
    \<and> (i \<in> intents_of db \<or> ji_command i = journaled W c)"
proof -
  have W: "sound_writer W" using history_ok [OF assms(1)] by (simp add: journal_ok_def)
  have "take 4 h \<noteq> ''wlt_''" if "HASH_PATTERN h" for h
  proof -
    have "take 4 h = ''sha2''" using that by (intro sha_prefix) (simp add: HASH_PATTERN_def)
    then show ?thesis by simp
  qed
  moreover have "sealed_rows (jd_rows db')" by (rule mutate_sealed [OF assms(2) W sealed_history [OF assms(1)]])
  moreover have "ji_command i = journaled W c" if "i \<in> intents_of db'" "i \<notin> intents_of db" for i
    using mutate_intents [OF assms(2)] sealed_journaled that by blast
  ultimately show ?thesis unfolding sealed_intents by blast
qed

text \<open>A lease command with a token that the service has issued: its row has the digest, and the task is unknown.\<close>

definition lease_service :: "string \<Rightarrow> journal_service" where
  "lease_service a = (small_service a)\<lparr>js_knownLeaseTokens := [(digest (small_writer a) (JString ''wlt_t''), ''wlt_t'')]\<rparr>"

definition lease_call :: run_command where
  "lease_call = Begin_task \<lparr>pr_id = ''p'', pr_roles = None, pr_runAgentIds = None\<rparr> ''r'' ''task'' ''key''
     \<lparr>lr_expectedVersion = Num 1, lr_claimEpoch = Num 1, lr_leaseToken = ''wlt_t''\<rparr>"

lemma lease_row:
  "\<exists>x j db. mutate (small_writer ''a'') demo_pack Stored Stored [] lease_call (lease_service ''a'', empty_journal) = (x, j, db)
    \<and> map (lease_token \<circ> ji_command \<circ> fst) (jd_rows db) = [Some (digest (small_writer ''a'') (JString ''wlt_t''))]"
proof -
  let ?W = "small_writer ''a''" and ?j = "lease_service ''a''"
  obtain sealed where sealed: "sealCommandArguments ?W (js_knownLeaseTokens ?j) lease_call = Inr sealed"
    "lease_token sealed = Some (digest ?W (JString ''wlt_t''))"
    by (simp add: sealCommandArguments_def lease_call_def lease_service_def Let_def)
  have c: "check_principal (command_principal lease_call) [] = Inr ()" "assertReady ?j = Inr ()" "js_intentIds ?j = 0"
    "jw_intentIdFactory ?W 0 = ''00000000-0000-4000-8000-000000000000''"
    by (simp_all add: lease_call_def check_principal_def short_array_def MAX_GENERATED_VALUES_def assertReady_def lease_service_def
      small_service_def) (simp add: small_writer_def)
  let ?i = "new_intent ?W ''00000000-0000-4000-8000-000000000000'' [] sealed"
  have row: "map (lease_token \<circ> ji_command \<circ> fst) (jd_rows (snd (appendIntent Stored ?i empty_journal))) = [Some (digest ?W (JString ''wlt_t''))]"
    "fst (appendIntent Stored ?i empty_journal) = Inr ()"
    using sealed(2) by (simp_all add: appendIntent_def empty_journal_def new_intent_def Let_def)
  have "map (lease_token \<circ> ji_command \<circ> fst) (jd_rows (snd (appendOutcome Stored n y d))) = map (lease_token \<circ> ji_command \<circ> fst) (jd_rows d)" for n y d
    by (auto simp: appendOutcome_def Let_def)
  note outcome = this
  obtain r db1 where w: "appendIntent Stored ?i empty_journal = (r, db1)" by fastforce
  obtain y s known where ex: "execute ?W demo_pack ?i lease_call None (js_inner ?j, js_knownLeaseTokens ?j) = (y, s, known)"
    by (metis prod_cases3)
  obtain x j' db' where m: "mutate ?W demo_pack Stored Stored [] lease_call (?j, empty_journal) = (x, j', db')" by (metis prod_cases3)
  have "and_then (assertReady ?j) (\<lambda>_. and_then (check_principal (command_principal lease_call) []) (\<lambda>_.
      sealCommandArguments ?W (js_knownLeaseTokens ?j) lease_call)) = Inr sealed" using c sealed(1) by simp
  note steps = mutate_steps [OF this _ w ex, of Stored, unfolded m]
  have "db' = db1 \<or> (\<exists>n e q. appendOutcome Stored n e db1 = (q, db'))"
  proof (cases y)
    case (Inl e)
    then show ?thesis using steps row(2) w c(3,4) small_patterns(2) by (simp add: Let_def)
  next
    case (Inr e)
    obtain q db2 where "appendOutcome Stored ''00000000-0000-4000-8000-000000000000'' e db1 = (q, db2)" by fastforce
    then show ?thesis using steps row(2) w c(3,4) small_patterns(2) Inr by (cases q) (auto simp: Let_def)
  qed
  moreover have "map (lease_token \<circ> ji_command \<circ> fst) (jd_rows db1) = [Some (digest ?W (JString ''wlt_t''))]" using row(1) w by simp
  ultimately have "map (lease_token \<circ> ji_command \<circ> fst) (jd_rows db') = [Some (digest ?W (JString ''wlt_t''))]"
    using outcome by (metis snd_conv)
  with m show ?thesis by (intro exI conjI)
qed

lemma journal_seals_lease_tokens_witness:
  "\<exists>x j db i. mutate (small_writer ''a'') demo_pack Stored Stored [] lease_call (lease_service ''a'', empty_journal) = (x, j, db)
    \<and> i \<in> intents_of db \<and> ji_command i = journaled (small_writer ''a'') lease_call
    \<and> lease_token (ji_command i) = Some (digest (small_writer ''a'') (JString ''wlt_t''))
    \<and> HASH_PATTERN (digest (small_writer ''a'') (JString ''wlt_t'')) \<and> lease_token lease_call = Some ''wlt_t''"
proof -
  obtain x j db where m: "mutate (small_writer ''a'') demo_pack Stored Stored [] lease_call (lease_service ''a'', empty_journal) = (x, j, db)"
    "map (lease_token \<circ> ji_command \<circ> fst) (jd_rows db) = [Some (digest (small_writer ''a'') (JString ''wlt_t''))]"
    using lease_row by (elim exE conjE, intro that)
  then obtain i where i: "i \<in> intents_of db" "lease_token (ji_command i) = Some (digest (small_writer ''a'') (JString ''wlt_t''))"
    by (auto simp: intents_of_def map_eq_Cons_conv)
  have "intents_of empty_journal = {}" by (simp add: intents_of_def empty_journal_def)
  moreover have "lease_token lease_call = Some ''wlt_t''" by (simp add: lease_call_def)
  ultimately show ?thesis using journal_seals_lease_tokens [OF small_history m(1)] m(1) i by blast
qed

text \<open>Calls one after the other, with the answers of the database to their inserts.\<close>

fun attempts ::
  "journal_writer \<Rightarrow> case_pack \<Rightarrow> (insert_reply \<times> insert_reply \<times> string list \<times> run_command) list \<Rightarrow> journal_service \<times> journal_database
     \<Rightarrow> response result list \<times> journal_service \<times> journal_database" where
  "attempts W K [] p = ([], p)"
| "attempts W K ((r1, r2, versions, c) # cs) p =
     (case mutate W K r1 r2 versions c p of (x, q) \<Rightarrow> (case attempts W K cs q of (xs, q') \<Rightarrow> (x # xs, q')))"

lemma attempts_unready:
  "\<not> isReady j \<Longrightarrow> attempts W K cs (j, db) = (replicate (length cs) (fail ''JOURNAL_UNREADY''), j, db)"
proof (induction cs)
  case (Cons call cs)
  obtain r1 r2 versions c where "call = (r1, r2, versions, c)" by (cases call) auto
  then show ?case using Cons by (simp add: mutate_def assertReady_def isReady_def and_then_def fail_def)
qed simp

text \<open>Property C10. A serving service stops exactly when it answers a call with \<open>JOURNAL_UNAVAILABLE\<close>: when an insert of this call is
  refused or is not answered, or when the call ends in no domain error. An intent that is refused, for its data or at all, is
  not run and leaves no row. From then on the service says that it is not ready, and refuses every call and every query, without a change.\<close>

theorem unavailable_service_stays_down:
  assumes "isReady j" and "mutate W K r1 r2 versions c (j, db) = (x, j', db')"
  shows "(\<not> isReady j' \<longleftrightarrow> x = fail ''JOURNAL_UNAVAILABLE'')
    \<and> (r1 = Not_stored \<longrightarrow> (\<exists>e. x = Inl e) \<and> js_inner j' = js_inner j \<and> jd_rows db' = jd_rows db)
    \<and> (\<not> isReady j' \<longrightarrow> attempts W K cs (j', db') = (replicate (length cs) (fail ''JOURNAL_UNREADY''), j', db')
         \<and> query j' m = fail ''JOURNAL_UNREADY'')"
proof -
  have "\<not> isReady j' \<longleftrightarrow> x = fail ''JOURNAL_UNAVAILABLE''" by (rule mutate_stops [OF assms(2,1)])
  moreover have "(\<exists>e. x = Inl e) \<and> js_inner j' = js_inner j \<and> jd_rows db' = jd_rows db" if "r1 = Not_stored"
    using assms(2) that by (auto simp: mutate_def appendIntent_def Let_def unready_def fail_def split: sum.splits if_splits)
  moreover have "query j' m = fail ''JOURNAL_UNREADY''" if "\<not> isReady j'"
    using that by (simp add: query_def assertReady_def isReady_def and_then_def fail_def)
  ultimately show ?thesis using attempts_unready by blast
qed

lemma unavailable_service_stays_down_witness:
  "\<exists>j db. mutate (small_writer ''a'') demo_pack Not_stored Stored [] small_call (small_service ''a'', empty_journal) = (fail ''JOURNAL_UNAVAILABLE'', j, db)
    \<and> attempts (small_writer ''a'') demo_pack [(Stored, Stored, [], small_call), (Stored, Stored, [], lease_call)] (j, db)
        = ([fail ''JOURNAL_UNREADY'', fail ''JOURNAL_UNREADY''], j, db)
    \<and> query j (getRun small_principal ''r'') = fail ''JOURNAL_UNREADY''"
proof -
  let ?W = "small_writer ''a''" and ?cs = "[(Stored, Stored, [] :: string list, small_call), (Stored, Stored, [], lease_call)]"
  have "isReady (small_service ''a'')" by (simp add: small_service_def isReady_def)
  moreover have "sealCommandArguments ?W (js_knownLeaseTokens (small_service ''a'')) small_call = Inr small_call"
    "check_principal (command_principal small_call) [] = Inr ()" "UUID_PATTERN (jw_intentIdFactory ?W (js_intentIds (small_service ''a'')))"
    "assertReady (small_service ''a'') = Inr ()"
    by (simp_all add: sealCommandArguments_def small_call_def small_principal_def check_principal_def short_array_def MAX_GENERATED_VALUES_def
      small_service_def assertReady_def) (simp add: small_writer_def small_patterns)
  then obtain j db where m: "mutate ?W demo_pack Not_stored Stored [] small_call (small_service ''a'', empty_journal) = (fail ''JOURNAL_UNAVAILABLE'', j, db)"
    by (simp add: mutate_def and_then_def appendIntent_def Let_def fail_def)
  ultimately have stays: "\<not> isReady j \<longleftrightarrow> fail ''JOURNAL_UNAVAILABLE'' = (fail ''JOURNAL_UNAVAILABLE'' :: response result)"
    "\<not> isReady j \<longrightarrow> attempts ?W demo_pack ?cs (j, db) = (replicate (length ?cs) (fail ''JOURNAL_UNREADY''), j, db)
      \<and> query j (getRun small_principal ''r'') = fail ''JOURNAL_UNREADY''"
    using unavailable_service_stays_down [OF _ m, where cs = ?cs and m = "getRun small_principal ''r''"] by (simp_all only: simp_thms)
  then have "attempts ?W demo_pack ?cs (j, db) = (replicate (length ?cs) (fail ''JOURNAL_UNREADY''), j, db)
      \<and> query j (getRun small_principal ''r'') = fail ''JOURNAL_UNREADY''"
    by (simp only: simp_thms)
  then show ?thesis using m by (simp only: list.size replicate.simps) (simp add: numeral_2_eq_2)
qed

end
