(* ===== verification/Spec2Isabelle.thy ===== *)
theory Spec2Isabelle
  imports Prelude JsNumber Timestamps NumberText CanonicalJson CanonicalText JsonText Shared
    ExerciseRun RunTask RunBarrier Feedback AgentInteraction Attribution HashChain RunEvents
    AgentSync AgentKnowledge Episode WaterEvaluation
    TransitionPolicy Ingestion Operations Security Publication Quality
    Decimals Instants Reconciliation ExplorationPath IntakeAssessment ExplorationReadiness
    KnowledgeRelations KnowledgeGroups BusinessQuery
    ResourceAccess ResourceDecision ResourceGrantDiff ResourceAdministration
    IsoText ServiceState ServiceData ServiceRunData ScenarioService ScenarioAuthoring
    RunWorld RoleEvaluation RunEvaluation RunService RunLifecycle
    RunCommands RunHistory RunIdempotency RunRefinement RunExamples RunProperties RunLiveness
    RunReplay ServiceJson CommandJournal JournalRecovery JournalProperties
begin

text \<open>
  A model of the domain logic of WISER, a platform on which teams of agents and people work through
  water-management exercises over a shared foundation of data.

  \<^bold>\<open>The program.\<close> Two packages hold the rules that do not depend on storage or transport, and these are
  modelled. \<open>packages/core\<close> runs the exercises: an exercise run goes through its life cycle, its tasks
  are leased to agents, barriers hold the team together, agents exchange messages and receive what
  has been disclosed to them along hash-linked receipts, every change is an event of a hash-linked
  journal, and plans are scored. \<open>packages/data-core\<close> decides what becomes of data: how an ingestion
  and an operation may proceed, whether a version passes its quality gate and may be published, how
  two files of observations are reconciled, what a source may be used for, and how the graph of
  knowledge is searched. The services under \<open>apps\<close> call these functions and store what they return;
  one of them, which holds everything in memory, is modelled too, and so is the journal that keeps it in a database.

  \<^bold>\<open>Theories and sources.\<close>
  \<^item> \<open>Prelude\<close>, \<open>JsNumber\<close>, \<open>NumberText\<close>: results, loops, sets, maps and sorting of JavaScript; its
    numbers (not a number, the infinities, and the rationals that doubles round to) with their
    arithmetic and their texts.
  \<^item> \<open>Timestamps\<close>, \<open>CanonicalJson\<close>, \<open>CanonicalText\<close>, \<open>JsonText\<close>, \<open>Shared\<close>: \<open>v2/shared.ts\<close>,
    i.e. timestamps with an offset, the canonical text of a value, the frozen clone of an object graph on a
    store with references (with the prototype that an entry \<open>__proto__\<close> sets), and the guards of the aggregates; \<open>JSON.stringify\<close>.
  \<^item> \<open>ExerciseRun\<close>, \<open>RunTask\<close>, \<open>RunBarrier\<close>, \<open>Feedback\<close>, \<open>AgentInteraction\<close>, \<open>Attribution\<close>: the
    aggregates of \<open>v2/exercise-run.ts\<close>, \<open>v2/run-task.ts\<close>, \<open>v2/run-barrier.ts\<close>, \<open>v2/feedback.ts\<close>,
    \<open>v2/agent-interaction.ts\<close> and \<open>v2/attribution.ts\<close>. A TypeScript interface is a record, each exported
    function one definition from the old state and a command to an error or the new state, and the
    histories of commands are folds or inductive step relations.
  \<^item> \<open>HashChain\<close>, \<open>RunEvents\<close>, \<open>AgentSync\<close>, \<open>AgentKnowledge\<close>: the journal of \<open>v2/run-events.ts\<close> and the
    receipts, acknowledgements and knowledge of \<open>v2/agent-sync.ts\<close>. Both link their entries by hashes;
    the locale of \<open>HashChain\<close> states the interface once and is interpreted on each.
  \<^item> \<open>Episode\<close>, \<open>WaterEvaluation\<close>: \<open>core/src/index.ts\<close>, episodes in virtual time and the evaluation of water
    allocation plans in the arithmetic of doubles.
  \<^item> \<open>TransitionPolicy\<close>, \<open>Ingestion\<close>, \<open>Operations\<close>, \<open>Security\<close>, \<open>Publication\<close>, \<open>Quality\<close>: the policies
    of \<open>data-core\<close> in the directories of these names. The locale of \<open>TransitionPolicy\<close> is the contract of a table of
    transitions; both tables interpret it.
  \<^item> \<open>Decimals\<close>, \<open>Instants\<close>, \<open>Reconciliation\<close>: \<open>data-core/src/reconciliation.ts\<close>, exact decimals, microsecond time
    keys, and the grouping and classification of two files of records.
  \<^item> \<open>KnowledgeRelations\<close>, \<open>KnowledgeGroups\<close>: \<open>data-core/src/knowledge-relations.ts\<close>, the registry of
    relations and the collection of the evidence of equal candidates. \<open>BusinessQuery\<close>: \<open>data-core/src/business-query.ts\<close>, the filter
    of relations by period and the view of their current revisions.
  \<^item> \<open>ExplorationPath\<close>, \<open>IntakeAssessment\<close>, \<open>ExplorationReadiness\<close>: the functions of these names in
    \<open>data-core/src\<close>.

  \<^bold>\<open>Access.\<close> \<open>packages/platform-auth\<close> decides who may use which data.
  \<^item> \<open>ResourceAccess\<close>, \<open>ResourceDecision\<close>: \<open>resource-access-policy.ts\<close> and \<open>resource-access-scope.ts\<close>, the decision
    on one request and the compiled scope with its deadline, and their agreement.
  \<^item> \<open>ResourceGrantDiff\<close>: \<open>resource-grant-diff.ts\<close>, what a proposed grant adds to the present ones.
  \<^item> \<open>ResourceAdministration\<close>: \<open>resource-policy-limits.ts\<close> and \<open>resource-management-policy.ts\<close>, the gate on
    handing out resources and the permits that are used once.

  \<^bold>\<open>The service.\<close> \<open>apps/api/src/v2-in-memory-service.ts\<close> is the service that holds scenarios, agents and runs in memory.
  \<^item> \<open>IsoText\<close>, \<open>ServiceState\<close>: the text of a moment; methods as actions on a state that may throw half-way, the
    factories and the hash; the locale \<open>evolution\<close> of relations that every action preserves.
  \<^item> \<open>ServiceData\<close>, \<open>ServiceRunData\<close>: the objects of \<open>packages/contracts/src/v2.ts\<close> and what the service stores;
    idempotent requests.
  \<^item> \<open>ScenarioService\<close>, \<open>ScenarioAuthoring\<close>: the methods on scenarios and agents, and their properties.
  \<^item> \<open>RunWorld\<close>, \<open>RunEvaluation\<close>, \<open>RunService\<close>, \<open>RunLifecycle\<close>: runs. The methods work on one stored run: its
    journal, what each agent may receive and has received, its tasks, barriers, grants and submissions.
    \<open>RoleEvaluation\<close>: \<open>yongding-v2-evaluator.ts\<close>, the check of an output against the schema of its role.
  \<^item> \<open>RunCommands\<close>, \<open>RunHistory\<close>, \<open>RunRefinement\<close>: sequences of calls of the service. The locale \<open>run_contract\<close> says what
    each body of a method has to keep of a run and carries it to every sequence of calls; \<open>run_steps\<close>, \<open>work_steps\<close> and
    \<open>run_relation\<close> follow the bodies down to the single changes. They are interpreted for the journal, the receipts and, with
    a calculus of steps that may throw, the tasks, which refine the tasks of \<open>RunTask\<close>. \<open>RunIdempotency\<close>: the
    identity and the hashed object of each call, and that a repeated call has no effect.
  \<^item> \<open>RunProperties\<close>, \<open>RunLiveness\<close>: what holds of every run served, and what the last acceptance of a specialist sets
    off. \<open>RunExamples\<close>: a history of the service from the first agent to a claimed task, on which the properties are applied.
  \<^item> \<open>RunReplay\<close>: what a call draws from the factories decides what it does, for all methods of the service (the locale
    \<open>two_environments\<close>). \<open>ServiceJson\<close>: calls, arguments and results as JSON.
  \<^item> \<open>CommandJournal\<close>: \<open>apps/api/src/v2-postgres-journal-service.ts\<close>, i.e. \<open>#mutate\<close> (intent, execution, outcome), the tape of
    generated values, the sealing of lease tokens, and \<open>#recover\<close>; the two tables are a list of rows, and the database answers
    each insert or not. \<open>JournalRecovery\<close>, \<open>JournalProperties\<close>: the processes over one journal as an inductive relation
    \<open>journal_history\<close>, its invariant, and what a restart finds.

  \<^bold>\<open>What the lemmas show.\<close> For each aggregate: which commands succeed and what they change, that every
  history keeps the invariant, and what can never happen (a run that gets going without its quorum, a
  command under an old claim of a task, a disclosure an agent may not see, a grant used too often, a
  barrier released early). For the journal and the receipts: that batches extend one chain, that the
  verifier accepts exactly such chains, and that a head commits to all before it unless the hash function
  collides. For the texts: that canonical JSON, numbers and decimals are written injectively and read
  back. For the service: that published scenarios are final, that repeated requests have no effect, that the journal of
  every run and the receipts of every agent verify and only grow, that tasks follow the task model, and that a claim whose
  lease has expired is never recovered. For the journal of calls: that a restart finds the service as it was, that a call cut short takes
  effect at most once and is completed by the next start, that the lease token of a call is written as a digest only, and when the
  service stops and refuses calls and queries. For the searches, sorts and loops: termination, and that the result is the one a declarative
  specification names (a shortest path, a partition into observations, a least upper bound).

  \<^bold>\<open>Conventions.\<close> A function that may throw returns \<open>Inl\<close> of its error code (of the message where the code
  has no error codes) or \<open>Inr\<close> of its value; the messages of domain errors are not modelled. Strings are lists of code units below
  256, on which Unicode normalisation and the trimming of white space are as written in \<open>Prelude\<close>. Rows
  that pass a schema are modelled by the records the schema yields. The parser of calendar texts in an
  episode and the hash function are parameters; a theorem that needs a property of the hash function
  states the collision as an alternative instead of assuming that there is none. There is no fuel:
  every loop of the modelled code is shown to end, the clone on cyclic stores included.

  \<^bold>\<open>Not modelled.\<close> Of the service, \<open>listRunInteractions\<close> and \<open>getReplay\<close>, which only read, and its \<open>isReady\<close> and \<open>close\<close>,
  which keep a flag. Of the journal of calls, the parsing of the columns of a row and the handling of the connection.
  \<open>packages/contracts\<close>, \<open>data-contracts\<close> and \<open>platform-contracts\<close> are declarations for a schema
  library; the records they describe are modelled where the service stores them. The rest of \<open>apps/api\<close>, \<open>data-worker\<close>,
  \<open>worker\<close>, \<open>mcp\<close> and \<open>telemetry-ingress\<close> are services over databases, object stores and HTTP, whose logic of their own
  is largely SQL and asynchronous ports; \<open>data-infra\<close>, \<open>infra\<close> and the services of \<open>platform-auth\<close> are clients of such
  services; \<open>apps/web\<close> and \<open>apps/docs\<close> are user interfaces; \<open>scripts\<close> and \<open>infrastructure\<close> deploy.
\<close>

end
